(* ===== verification/Prelude.thy ===== *)
theory Prelude imports Main "HOL-Library.Word" "HOL-Library.State_Monad" begin

text \<open>
  Shared vocabulary of the development: the effect monad every operation of the model is
  written in (the library's state monad, with Go's \<open>if err != nil { return err }\<close> as
  \<open>bindE\<close>), a small Hoare calculus over it (\<open>valid\<close> and the invariant form \<open>keeps\<close>, whose
  rules are collected in \<open>pres\<close>), the wrap-around of Go's 64-bit integers, and generic
  facts on lists that the store theories share.
\<close>

named_theorems pres \<open>operations that keep an invariant, and the rules that compose them\<close>
named_theorems runs \<open>equations that execute an effect\<close>

section \<open>Effects\<close>

abbreviation ret :: "'a \<Rightarrow> ('s, 'a) state" where
  "ret \<equiv> State_Monad.return"

text \<open>Go's early return on an error: the rest of the function runs on the value only.\<close>

definition bindE :: "('s, 'e + 'a) state \<Rightarrow> ('a \<Rightarrow> ('s, 'e + 'b) state) \<Rightarrow> ('s, 'e + 'b) state" where
  "bindE m f = do { r \<leftarrow> m; case r of Inl e \<Rightarrow> ret (Inl e) | Inr x \<Rightarrow> f x }"

text \<open>A call whose error is dropped, as in \<open>_ = f()\<close> or a bare call statement.\<close>

definition ignore :: "('s, 'a) state \<Rightarrow> ('s, unit) state" where
  "ignore m = do { _ \<leftarrow> m; ret () }"

text \<open>A \<open>for\<close> loop without an early exit.\<close>

fun forM :: "'a list \<Rightarrow> ('a \<Rightarrow> ('s, unit) state) \<Rightarrow> ('s, unit) state" where
  "forM [] f = ret ()"
| "forM (x # xs) f = do { f x; forM xs f }"

text \<open>A \<open>for\<close> loop that returns the first error.\<close>

fun forE :: "'a list \<Rightarrow> ('a \<Rightarrow> ('s, 'e + unit) state) \<Rightarrow> ('s, 'e + unit) state" where
  "forE [] f = ret (Inr ())"
| "forE (x # xs) f = bindE (f x) (\<lambda>_. forE xs f)"

lemma run_bindE [runs]:
  "run_state (bindE m f) s =
     (case run_state m s of (Inl e, s') \<Rightarrow> (Inl e, s') | (Inr x, s') \<Rightarrow> run_state (f x) s')"
  by (auto simp: bindE_def split: prod.splits sum.splits)

lemma run_ignore [runs]: "run_state (ignore m) s = ((), snd (run_state m s))"
  by (simp add: ignore_def split: prod.splits)

section \<open>A Hoare calculus\<close>

definition valid :: "('s \<Rightarrow> bool) \<Rightarrow> ('s, 'a) state \<Rightarrow> ('a \<Rightarrow> 's \<Rightarrow> bool) \<Rightarrow> bool" where
  "valid P m Q \<longleftrightarrow> (\<forall>s. P s \<longrightarrow> (case run_state m s of (r, s') \<Rightarrow> Q r s'))"

abbreviation keeps :: "('s \<Rightarrow> bool) \<Rightarrow> ('s, 'a) state \<Rightarrow> bool" where
  "keeps I m \<equiv> valid I m (\<lambda>_. I)"

lemma validI: "(\<And>s r s'. P s \<Longrightarrow> run_state m s = (r, s') \<Longrightarrow> Q r s') \<Longrightarrow> valid P m Q"
  by (auto simp: valid_def split: prod.splits)

lemma validD: "valid P m Q \<Longrightarrow> P s \<Longrightarrow> run_state m s = (r, s') \<Longrightarrow> Q r s'"
  by (auto simp: valid_def split: prod.splits)

lemma keepsD: "keeps I m \<Longrightarrow> I s \<Longrightarrow> I (snd (run_state m s))"
  by (cases "run_state m s") (auto simp: valid_def)

lemma valid_return: "(\<And>s. P s \<Longrightarrow> Q x s) \<Longrightarrow> valid P (ret x) Q"
  by (simp add: valid_def)

lemma valid_bind: "valid P m R \<Longrightarrow> (\<And>x. valid (R x) (f x) Q) \<Longrightarrow> valid P (State_Monad.bind m f) Q"
  by (fastforce simp: valid_def split: prod.splits)

lemma valid_bindE:
  assumes "valid P m R" and "\<And>x. valid (R (Inr x)) (f x) Q" and "\<And>e s. R (Inl e) s \<Longrightarrow> Q (Inl e) s"
  shows "valid P (bindE m f) Q"
  unfolding bindE_def
proof (rule valid_bind [OF assms(1)])
  fix r show "valid (R r) (case r of Inl e \<Rightarrow> ret (Inl e) | Inr x \<Rightarrow> f x) Q"
    using assms(2,3) by (cases r) (simp_all add: valid_return)
qed

lemma valid_pre: "valid P m Q \<Longrightarrow> (\<And>s. P' s \<Longrightarrow> P s) \<Longrightarrow> valid P' m Q"
  by (auto simp: valid_def)

lemma valid_post: "valid P m Q \<Longrightarrow> (\<And>r s. Q r s \<Longrightarrow> Q' r s) \<Longrightarrow> valid P m Q'"
  by (fastforce simp: valid_def split: prod.splits)

lemma valid_conj: "valid P m Q \<Longrightarrow> valid P' m Q' \<Longrightarrow> valid (\<lambda>s. P s \<and> P' s) m (\<lambda>r s. Q r s \<and> Q' r s)"
  by (fastforce simp: valid_def split: prod.splits)

lemma keeps_return [pres]: "keeps I (ret x)"
  by (simp add: valid_def)

lemma keeps_bind [pres]: "keeps I m \<Longrightarrow> (\<And>x. keeps I (f x)) \<Longrightarrow> keeps I (State_Monad.bind m f)"
  by (rule valid_bind)

lemma keeps_bindE [pres]: "keeps I m \<Longrightarrow> (\<And>x. keeps I (f x)) \<Longrightarrow> keeps I (bindE m f)"
  by (rule valid_bindE)

lemma keeps_ignore [pres]: "keeps I m \<Longrightarrow> keeps I (ignore m)"
  unfolding ignore_def by (intro pres)

lemma keeps_if [pres]: "(b \<Longrightarrow> keeps I m) \<Longrightarrow> (\<not> b \<Longrightarrow> keeps I n) \<Longrightarrow> keeps I (if b then m else n)"
  by simp

lemma keeps_sum [pres]:
  "(\<And>e. r = Inl e \<Longrightarrow> keeps I (f e)) \<Longrightarrow> (\<And>x. r = Inr x \<Longrightarrow> keeps I (g x))
    \<Longrightarrow> keeps I (case r of Inl e \<Rightarrow> f e | Inr x \<Rightarrow> g x)"
  by (simp split: sum.splits)

lemma keeps_option [pres]:
  "(r = None \<Longrightarrow> keeps I f) \<Longrightarrow> (\<And>x. r = Some x \<Longrightarrow> keeps I (g x))
    \<Longrightarrow> keeps I (case r of None \<Rightarrow> f | Some x \<Rightarrow> g x)"
  by (simp split: option.splits)

lemma keeps_let [pres]: "(\<And>x. x = t \<Longrightarrow> keeps I (f x)) \<Longrightarrow> keeps I (let x = t in f x)"
  by simp

lemma keeps_forM [pres]: "(\<And>x. x \<in> set xs \<Longrightarrow> keeps I (f x)) \<Longrightarrow> keeps I (forM xs f)"
  by (induction xs) (auto intro!: pres)

lemma keeps_forE [pres]: "(\<And>x. x \<in> set xs \<Longrightarrow> keeps I (f x)) \<Longrightarrow> keeps I (forE xs f)"
  by (induction xs) (auto intro!: pres)

lemma keeps_get: "keeps I State_Monad.get"
  by (simp add: valid_def)

lemma keeps_update: "(\<And>s. I s \<Longrightarrow> I (f s)) \<Longrightarrow> keeps I (State_Monad.update f)"
  by (simp add: valid_def State_Monad.update_def)

lemma run_update [runs]: "run_state (State_Monad.update f) s = ((), f s)"
  by (simp add: State_Monad.update_def)

section \<open>Go's 64-bit integers\<close>

text \<open>\<open>int\<close>, \<open>int64\<close> and \<open>time.Duration\<close> are 64-bit two's complement: products wrap.\<close>

definition wrap64 :: "int \<Rightarrow> int" where
  "wrap64 x = (x + 2 ^ 63) mod 2 ^ 64 - 2 ^ 63"

lemma wrap64_range: "- (2 ^ 63) \<le> wrap64 x" "wrap64 x < 2 ^ 63"
  by (simp_all add: wrap64_def)

lemma wrap64_id: "- (2 ^ 63) \<le> x \<Longrightarrow> x < 2 ^ 63 \<Longrightarrow> wrap64 x = x"
  by (simp add: wrap64_def)

lemma wrap64_sint: "wrap64 x = sint (word_of_int x :: 64 word)"
  by (simp add: wrap64_def signed_take_bit_eq_take_bit_shift take_bit_eq_mod sint_sbintrunc')

section \<open>Lists\<close>

definition upd_where :: "('a \<Rightarrow> bool) \<Rightarrow> ('a \<Rightarrow> 'a) \<Rightarrow> 'a list \<Rightarrow> 'a list" where
  "upd_where p f xs = map (\<lambda>x. if p x then f x else x) xs"

lemma find_Some_iff2: "find p xs = Some x \<Longrightarrow> x \<in> set xs \<and> p x"
  by (auto simp: find_Some_iff)

lemma distinct_map_key: "distinct (map k xs) \<Longrightarrow> x \<in> set xs \<Longrightarrow> y \<in> set xs \<Longrightarrow> k x = k y \<Longrightarrow> x = y"
  by (auto simp: distinct_map inj_on_def)

lemma find_key:
  "distinct (map k xs) \<Longrightarrow> x \<in> set xs \<Longrightarrow> find (\<lambda>y. k y = k x) xs = Some x"
  by (induction xs) (auto simp: image_iff)

lemma set_upd_where: "set (upd_where p f xs) = (\<lambda>x. if p x then f x else x) ` set xs"
  by (simp add: upd_where_def)

lemma map_upd_where: "(\<And>x. x \<in> set xs \<Longrightarrow> p x \<Longrightarrow> k (f x) = k x) \<Longrightarrow> map k (upd_where p f xs) = map k xs"
  by (simp add: upd_where_def)

section \<open>Sorting\<close>

text \<open>\<open>ORDER BY\<close> of a table, where ties stay in rowid order, and \<open>sort.Slice\<close> by a total order.\<close>

fun insert_by :: "('r \<Rightarrow> 'r \<Rightarrow> bool) \<Rightarrow> 'r \<Rightarrow> 'r list \<Rightarrow> 'r list" where
  "insert_by le r [] = [r]"
| "insert_by le r (x # xs) = (if le r x then r # x # xs else x # insert_by le r xs)"

definition order_by :: "('r \<Rightarrow> 'r \<Rightarrow> bool) \<Rightarrow> 'r list \<Rightarrow> 'r list" where
  "order_by le rows = foldr (insert_by le) rows []"

lemma set_insert_by [simp]: "set (insert_by le r xs) = insert r (set xs)"
  by (induction xs) auto

lemma set_order_by [simp]: "set (order_by le xs) = set xs"
  by (induction xs) (auto simp: order_by_def)

lemma sorted_insert_by:
  "(\<And>a b. le a b \<or> le b a) \<Longrightarrow> (\<And>a b c. le a b \<Longrightarrow> le b c \<Longrightarrow> le a c)
    \<Longrightarrow> sorted_wrt le xs \<Longrightarrow> sorted_wrt le (insert_by le r xs)"
  by (induction xs) (simp_all, metis)

lemma sorted_order_by:
  "(\<And>a b. le a b \<or> le b a) \<Longrightarrow> (\<And>a b c. le a b \<Longrightarrow> le b c \<Longrightarrow> le a c) \<Longrightarrow> sorted_wrt le (order_by le xs)"
  unfolding order_by_def by (induction xs) (simp_all add: sorted_insert_by)

lemma length_insert_by [simp]: "length (insert_by le r xs) = Suc (length xs)"
  by (induction xs) auto

lemma length_order_by [simp]: "length (order_by le xs) = length xs"
  unfolding order_by_def by (induction xs) auto

lemma distinct_insert_by [simp]: "distinct (insert_by le r xs) \<longleftrightarrow> r \<notin> set xs \<and> distinct xs"
  by (induction xs) auto

lemma distinct_order_by [simp]: "distinct (order_by le xs) = distinct xs"
  unfolding order_by_def by (induction xs) (auto simp: set_order_by [unfolded order_by_def])

end
