(* ===== verification/Dispatch.thy ===== *)
theory Dispatch imports Prelude "HOL-Library.Sublist" begin

text \<open>
  The concurrency of the operation dispatcher (\<open>internal/worker/dispatcher.go\<close>): callers of
  \<open>Enqueue\<close>, \<open>Cancel\<close> and \<open>Stop\<close>, the loop goroutine and one goroutine per running operation
  interleave step by step.  An action is one atomic step of one of them (a critical section,
  a channel operation, a \<open>sync.Map\<close> call); \<open>dexec\<close> is \<open>None\<close> where it would block or is not
  enabled.  An operation is its id here; what running it does to the store is in \<open>World\<close>.
\<close>

datatype loop_pc = LoopTop | LoopSelect | LoopHolding string | LoopDraining | LoopExited

text \<open>\<open>run\<close>: before the check of \<open>cancelled\<close>, after it, with \<open>ctx\<close> stored in \<open>cancels\<close>, with \<open>ctx\<close> cancelled, and past it as cancelled.\<close>

datatype run_pc = RunFresh | RunChecked | RunLive | RunCtxCancelled | RunWasCancelled

record dstate =
  d_stopped :: bool
  d_done :: bool           \<comment> \<open>the channel \<open>done\<close> is closed\<close>
  d_wg :: int              \<comment> \<open>the \<open>WaitGroup\<close> counter\<close>
  d_entering :: "string list"   \<comment> \<open>callers of \<open>Enqueue\<close> between \<open>wg.Add\<close> and the \<open>select\<close>\<close>
  d_queue :: "string list"
  d_loop :: loop_pc
  d_running :: "(string \<times> run_pc) list"  \<comment> \<open>the holders of \<open>sem\<close>\<close>
  d_cancels :: "string list"
  d_cancelled :: "string list"
  d_conc :: nat            \<comment> \<open>\<open>cap(sem)\<close>\<close>
  d_sent :: "string list"     \<comment> \<open>ghost: the operations put into the queue, in order\<close>
  d_started :: "string list"  \<comment> \<open>ghost: the operations handed to \<open>run\<close>, in order\<close>

definition queue_cap :: nat where "queue_cap = 256"

definition NewDispatcher :: "int \<Rightarrow> dstate" where
  "NewDispatcher concurrency = \<lparr>d_stopped = False, d_done = False, d_wg = 0, d_entering = [], d_queue = [],
     d_loop = LoopTop, d_running = [], d_cancels = [], d_cancelled = [],
     d_conc = nat (if concurrency < 1 then 1 else concurrency), d_sent = [], d_started = []\<rparr>"

datatype daction =
    Enter string        \<comment> \<open>\<open>Enqueue\<close>: the locked part\<close>
  | Send string | DropDone string | DropFull string  \<comment> \<open>the branches of its \<open>select\<close>\<close>
  | SetStopped | CloseDone
  | LoopCheck | LoopDone | LoopTake | Acquire | DrainOne | DrainEnd
  | CheckCancelled string | StoreCancel string | Finish string
  | CancelCall string

definition advance :: "string \<Rightarrow> run_pc \<Rightarrow> run_pc \<Rightarrow> (string \<times> run_pc) list \<Rightarrow> (string \<times> run_pc) list" where
  "advance o' p q rs = map (\<lambda>r. if r = (o', p) then (o', q) else r) rs"

definition drop_run :: "string \<Rightarrow> (string \<times> run_pc) list \<Rightarrow> (string \<times> run_pc) list" where
  "drop_run o' rs = (case find (\<lambda>r. fst r = o') rs of None \<Rightarrow> rs | Some r \<Rightarrow> remove1 r rs)"

fun dexec :: "daction \<Rightarrow> dstate \<Rightarrow> dstate option" where
  "dexec (Enter x) s = (if d_stopped s then None
     else Some (s\<lparr>d_wg := d_wg s + 1, d_entering := d_entering s @ [x]\<rparr>))"
| "dexec (Send x) s = (if x \<in> set (d_entering s) \<and> length (d_queue s) < queue_cap
     then Some (s\<lparr>d_entering := remove1 x (d_entering s), d_queue := d_queue s @ [x], d_sent := d_sent s @ [x]\<rparr>)
     else None)"
| "dexec (DropDone x) s = (if x \<in> set (d_entering s) \<and> d_done s
     then Some (s\<lparr>d_entering := remove1 x (d_entering s), d_wg := d_wg s - 1\<rparr>) else None)"
| "dexec (DropFull x) s = (if x \<in> set (d_entering s) \<and> \<not> d_done s \<and> \<not> length (d_queue s) < queue_cap
     then Some (s\<lparr>d_entering := remove1 x (d_entering s), d_wg := d_wg s - 1\<rparr>) else None)"
| "dexec SetStopped s = (if d_stopped s then None else Some (s\<lparr>d_stopped := True\<rparr>))"
| "dexec CloseDone s = (if d_stopped s \<and> \<not> d_done s then Some (s\<lparr>d_done := True\<rparr>) else None)"
| "dexec LoopCheck s = (if d_loop s = LoopTop
     then Some (s\<lparr>d_loop := if d_done s then LoopDraining else LoopSelect\<rparr>) else None)"
| "dexec LoopDone s = (if d_loop s = LoopSelect \<and> d_done s then Some (s\<lparr>d_loop := LoopDraining\<rparr>) else None)"
| "dexec LoopTake s = (if d_loop s = LoopSelect
     then (case d_queue s of [] \<Rightarrow> None | x # q \<Rightarrow> Some (s\<lparr>d_queue := q, d_loop := LoopHolding x\<rparr>)) else None)"
| "dexec Acquire s = (case d_loop s of
     LoopHolding x \<Rightarrow> if length (d_running s) < d_conc s
       then Some (s\<lparr>d_running := d_running s @ [(x, RunFresh)], d_loop := LoopTop, d_started := d_started s @ [x]\<rparr>)
       else None
   | _ \<Rightarrow> None)"
| "dexec DrainOne s = (if d_loop s = LoopDraining
     then (case d_queue s of [] \<Rightarrow> None | x # q \<Rightarrow> Some (s\<lparr>d_queue := q, d_wg := d_wg s - 1\<rparr>)) else None)"
| "dexec DrainEnd s = (if d_loop s = LoopDraining \<and> d_queue s = [] then Some (s\<lparr>d_loop := LoopExited\<rparr>) else None)"
| "dexec (CheckCancelled x) s = (if (x, RunFresh) \<in> set (d_running s)
     then Some (if x \<in> set (d_cancelled s)
       then s\<lparr>d_cancelled := removeAll x (d_cancelled s), d_running := advance x RunFresh RunWasCancelled (d_running s)\<rparr>
       else s\<lparr>d_running := advance x RunFresh RunChecked (d_running s)\<rparr>)
     else None)"
| "dexec (StoreCancel x) s = (if (x, RunChecked) \<in> set (d_running s)
     then Some (s\<lparr>d_cancels := List.insert x (d_cancels s), d_running := advance x RunChecked RunLive (d_running s)\<rparr>)
     else None)"
| "dexec (Finish x) s =
     (if (x, RunLive) \<in> set (d_running s) \<or> (x, RunCtxCancelled) \<in> set (d_running s) \<or> (x, RunWasCancelled) \<in> set (d_running s)
      then Some (s\<lparr>d_cancels := removeAll x (d_cancels s), d_running := drop_run x (d_running s), d_wg := d_wg s - 1\<rparr>)
      else None)"
| "dexec (CancelCall x) s = Some (if x \<in> set (d_cancels s)
     then s\<lparr>d_cancels := removeAll x (d_cancels s), d_running := advance x RunLive RunCtxCancelled (d_running s)\<rparr>
     else s\<lparr>d_cancelled := List.insert x (d_cancelled s)\<rparr>)"

inductive dreach :: "int \<Rightarrow> dstate \<Rightarrow> bool" for c where
  start: "dreach c (NewDispatcher c)"
| step: "dreach c s \<Longrightarrow> dexec a s = Some s' \<Longrightarrow> dreach c s'"

fun dexecs :: "daction list \<Rightarrow> dstate \<Rightarrow> dstate option" where
  "dexecs [] s = Some s"
| "dexecs (a # as) s = (case dexec a s of None \<Rightarrow> None | Some s' \<Rightarrow> dexecs as s')"

lemma dreach_dexecs: "dreach c s \<Longrightarrow> dexecs as s = Some s' \<Longrightarrow> dreach c s'"
  by (induction as arbitrary: s) (auto split: option.splits intro: dreach.step)

fun_cases dexec_EnterE: "dexec (Enter x) s = Some s'"
fun_cases dexec_AcquireE: "dexec Acquire s = Some s'"

fun held :: "loop_pc \<Rightarrow> string list" where
  "held (LoopHolding x) = [x]"
| "held _ = []"

definition stopping :: "dstate \<Rightarrow> bool" where
  "stopping s \<longleftrightarrow> d_loop s = LoopDraining \<or> d_loop s = LoopExited"

definition dinv :: "dstate \<Rightarrow> bool" where
  "dinv s \<longleftrightarrow>
     d_wg s = int (length (d_entering s) + length (d_queue s) + length (held (d_loop s)) + length (d_running s)) \<and>
     length (d_queue s) \<le> queue_cap \<and> length (d_running s) \<le> d_conc s \<and> 1 \<le> d_conc s \<and>
     (d_done s \<longrightarrow> d_stopped s) \<and> (stopping s \<longrightarrow> d_done s) \<and>
     prefix (d_started s) (d_sent s) \<and>
     (\<not> stopping s \<longrightarrow> d_sent s = d_started s @ held (d_loop s) @ d_queue s)"

lemma length_advance [simp]: "length (advance x p q rs) = length rs"
  by (simp add: advance_def)

lemma length_drop_run: "(x, p) \<in> set rs \<Longrightarrow> Suc (length (drop_run x rs)) = length rs"
proof -
  assume "(x, p) \<in> set rs"
  then obtain r where "find (\<lambda>r. fst r = x) rs = Some r"
    by (cases "find (\<lambda>r. fst r = x) rs") (auto simp: find_None_iff)
  then show ?thesis using find_Some_iff2 [of "\<lambda>r. fst r = x" rs r]
    by (auto simp: drop_run_def length_remove1 intro: Suc_pred length_pos_if_in_set)
qed

lemma length_remove1_in: "x \<in> set xs \<Longrightarrow> length xs = Suc (length (remove1 x xs))"
  by (metis One_nat_def Suc_pred length_pos_if_in_set length_remove1)

lemma dinv_New: "dinv (NewDispatcher c)"
  by (auto simp: dinv_def NewDispatcher_def stopping_def)

lemma dinv_step: assumes "dinv s" "dexec a s = Some s'" shows "dinv s'"
proof (cases a)
  case (Finish x)
  then have s': "s' = s\<lparr>d_cancels := removeAll x (d_cancels s), d_running := drop_run x (d_running s), d_wg := d_wg s - 1\<rparr>"
    and "\<exists>p. (x, p) \<in> set (d_running s)"
    using assms(2) by (auto split: if_splits)
  then have "Suc (length (drop_run x (d_running s))) = length (d_running s)" by (auto dest: length_drop_run)
  then show ?thesis using assms(1) by (auto simp: dinv_def stopping_def s')
next
  case (CheckCancelled x)
  then show ?thesis using assms by (auto simp: dinv_def stopping_def split: if_splits)
next
  case (CancelCall x)
  then show ?thesis using assms by (auto simp: dinv_def stopping_def split: if_splits)
next
  case LoopCheck
  then show ?thesis using assms by (auto simp: dinv_def stopping_def split: if_splits)
next
  case (Enter x)
  then show ?thesis using assms by (auto simp: dinv_def stopping_def split: if_splits)
next
  case (Send x)
  then show ?thesis using assms length_remove1_in [of x "d_entering s"]
    by (auto simp: dinv_def stopping_def intro: prefix_prefix split: if_splits)
next
  case (DropDone x)
  then show ?thesis using assms length_remove1_in [of x "d_entering s"]
    by (auto simp: dinv_def stopping_def split: if_splits)
next
  case (DropFull x)
  then show ?thesis using assms length_remove1_in [of x "d_entering s"]
    by (auto simp: dinv_def stopping_def split: if_splits)
next
  case LoopTake
  then show ?thesis using assms by (auto simp: dinv_def stopping_def split: if_splits list.splits)
next
  case Acquire
  then show ?thesis using assms
    by (auto simp: dinv_def stopping_def prefix_def split: if_splits loop_pc.splits)
next
  case DrainOne
  then show ?thesis using assms by (auto simp: dinv_def stopping_def split: if_splits list.splits)
next
  case (StoreCancel x)
  then show ?thesis using assms by (auto simp: dinv_def stopping_def split: if_splits)
next
  case SetStopped
  then show ?thesis using assms by (auto simp: dinv_def stopping_def split: if_splits)
next
  case CloseDone
  then show ?thesis using assms by (auto simp: dinv_def stopping_def split: if_splits)
next
  case LoopDone
  then show ?thesis using assms by (auto simp: dinv_def stopping_def split: if_splits)
next
  case DrainEnd
  then show ?thesis using assms by (auto simp: dinv_def stopping_def split: if_splits)
qed

lemma dinv_reach: "dreach c s \<Longrightarrow> dinv s"
  by (induction rule: dreach.induct) (auto intro: dinv_New dinv_step)

section \<open>Properties\<close>

lemma d_conc_step: "dexec a s = Some s' \<Longrightarrow> d_conc s' = d_conc s"
  by (cases a) (auto split: if_splits list.splits loop_pc.splits)

lemma d_conc_reach: "dreach c s \<Longrightarrow> d_conc s = nat (max 1 c)"
  by (induction rule: dreach.induct) (auto simp: NewDispatcher_def max_def d_conc_step)

text \<open>
  C12: in every interleaving the \<open>WaitGroup\<close> counts exactly the operations between the locked
  part of \<open>Enqueue\<close> and the end of \<open>run\<close>, at most \<open>concurrency\<close> handlers (at least one) run
  at a time, the queue never exceeds its 256 places, and operations start in the order in
  which they entered the queue.
\<close>

theorem dispatcher_safe:
  assumes "dreach c s"
  shows "d_wg s = int (length (d_entering s) + length (d_queue s) + length (held (d_loop s)) + length (d_running s))
    \<and> length (d_running s) \<le> nat (max 1 c) \<and> length (d_queue s) \<le> 256 \<and> prefix (d_started s) (d_sent s)"
  using dinv_reach [OF assms] d_conc_reach [OF assms] by (simp add: dinv_def queue_cap_def)

lemma dispatcher_counts: "dreach c s \<Longrightarrow>
    d_wg s = int (length (d_entering s) + length (d_queue s) + length (held (d_loop s)) + length (d_running s))"
  using dinv_reach by (simp add: dinv_def)

definition demo_run :: "daction list" where
  "demo_run = [Enter ''a'', Enter ''b'', Send ''b'', Send ''a'', LoopCheck, LoopTake, Acquire, CheckCancelled ''b'']"

lemma demo_run_exec:
  "dexecs demo_run (NewDispatcher 1) = Some \<lparr>d_stopped = False, d_done = False, d_wg = 2, d_entering = [],
     d_queue = [''a''], d_loop = LoopTop, d_running = [(''b'', RunChecked)], d_cancels = [], d_cancelled = [],
     d_conc = 1, d_sent = [''b'', ''a''], d_started = [''b'']\<rparr>"
  by (simp add: demo_run_def NewDispatcher_def queue_cap_def advance_def)

lemma dispatcher_safe_witness:
  "\<exists>s. dexecs demo_run (NewDispatcher 1) = Some s \<and> d_wg s = 2 \<and> length (d_running s) \<le> 1 \<and> d_running s \<noteq> []"
  using dispatcher_safe [OF dreach_dexecs [OF dreach.start demo_run_exec]] by (simp add: demo_run_exec)

text \<open>Steps the program takes by itself: everything but new calls of \<open>Enqueue\<close>, \<open>Cancel\<close> and \<open>Stop\<close>.\<close>

fun internal :: "daction \<Rightarrow> bool" where
  "internal (Enter _) = False"
| "internal SetStopped = False"
| "internal CloseDone = False"
| "internal (CancelCall _) = False"
| "internal _ = True"

fun loop_weight :: "loop_pc \<Rightarrow> nat" where
  "loop_weight LoopTop = 3"
| "loop_weight LoopSelect = 2"
| "loop_weight (LoopHolding _) = 7"
| "loop_weight LoopDraining = 1"
| "loop_weight LoopExited = 0"

fun run_weight :: "run_pc \<Rightarrow> nat" where
  "run_weight RunFresh = 3"
| "run_weight RunChecked = 2"
| "run_weight _ = 1"

definition dweight :: "dstate \<Rightarrow> nat" where
  "dweight s = 7 * length (d_entering s) + 6 * length (d_queue s) + loop_weight (d_loop s) +
     sum_list (map (run_weight \<circ> snd) (d_running s))"

lemma sum_list_map_le: "(\<And>x. x \<in> set xs \<Longrightarrow> f x \<le> (g x :: nat)) \<Longrightarrow> sum_list (map f xs) \<le> sum_list (map g xs)"
  by (induction xs) (auto intro: add_mono)

lemma weight_advance:
  assumes "(x, p) \<in> set rs" "run_weight q < run_weight p"
  shows "sum_list (map (run_weight \<circ> snd) (advance x p q rs)) < sum_list (map (run_weight \<circ> snd) rs)"
  using assms
proof (induction rs)
  case (Cons r rs)
  let ?w = "\<lambda>rs. sum_list (map (run_weight \<circ> snd) rs)"
  have le: "?w (advance x p q rs) \<le> ?w rs"
    unfolding advance_def map_map by (rule sum_list_map_le) (use assms in auto)
  show ?case
  proof (cases "r = (x, p)")
    case True
    then show ?thesis using le Cons.prems by (simp add: advance_def comp_def)
  next
    case False
    then show ?thesis using Cons by (simp add: advance_def)
  qed
qed simp

lemma run_weight_pos: "0 < run_weight p"
  by (cases p) auto

lemma weight_drop_run:
  assumes "(x, p) \<in> set rs"
  shows "sum_list (map (run_weight \<circ> snd) (drop_run x rs)) < sum_list (map (run_weight \<circ> snd) rs)"
proof -
  obtain r where r: "find (\<lambda>r. fst r = x) rs = Some r"
    using assms by (cases "find (\<lambda>r. fst r = x) rs") (auto simp: find_None_iff)
  then have "r \<in> set rs" by (auto dest: find_Some_iff2)
  then show ?thesis
    using r sum_list_map_remove1 [of r rs "run_weight \<circ> snd"] run_weight_pos [of "snd r"] by (simp add: drop_run_def)
qed

lemma dweight_step: assumes "dexec a s = Some s'" "internal a" shows "dweight s' < dweight s"
proof (cases a)
  case (Finish x)
  then have s': "s' = s\<lparr>d_cancels := removeAll x (d_cancels s), d_running := drop_run x (d_running s), d_wg := d_wg s - 1\<rparr>"
    and "\<exists>p. (x, p) \<in> set (d_running s)"
    using assms(1) by (auto split: if_splits)
  then show ?thesis using weight_drop_run by (auto simp: dweight_def)
next
  case (CheckCancelled x)
  then show ?thesis using assms(1) by (auto simp: dweight_def intro!: weight_advance split: if_splits)
next
  case (StoreCancel x)
  then show ?thesis using assms(1) by (auto simp: dweight_def intro!: weight_advance split: if_splits)
next
  case Acquire
  then show ?thesis using assms(1) by (auto simp: dweight_def split: if_splits loop_pc.splits)
next
  case (Send x)
  then show ?thesis using assms(1) length_remove1_in [of x "d_entering s"] by (auto simp: dweight_def split: if_splits)
next
  case (DropDone x)
  then show ?thesis using assms(1) length_remove1_in [of x "d_entering s"] by (auto simp: dweight_def split: if_splits)
next
  case (DropFull x)
  then show ?thesis using assms(1) length_remove1_in [of x "d_entering s"] by (auto simp: dweight_def split: if_splits)
qed (use assms in \<open>auto simp: dweight_def split: if_splits list.splits\<close>)

lemma dweight_run: "dexecs as s = Some s' \<Longrightarrow> list_all internal as \<Longrightarrow> dweight s' + length as \<le> dweight s"
proof (induction as arbitrary: s)
  case (Cons a as)
  then obtain s1 where "dexec a s = Some s1" "dexecs as s1 = Some s'" by (auto split: option.splits)
  then show ?case using Cons.IH [of s1] Cons.prems(2) dweight_step [of a s s1] by auto
qed simp

definition stranded :: "dstate \<Rightarrow> bool" where
  "stranded s \<longleftrightarrow> d_loop s = LoopExited \<and> d_queue s \<noteq> []"

lemma enabled_running: assumes "d_running s \<noteq> []" shows "\<exists>a s'. internal a \<and> dexec a s = Some s'"
proof -
  obtain x p where "(x, p) \<in> set (d_running s)" using assms by (cases "d_running s") auto
  then show ?thesis
  proof (cases p)
    case RunFresh
    then show ?thesis using \<open>(x, p) \<in> set (d_running s)\<close>
      by (intro exI [of _ "CheckCancelled x"]) auto
  next
    case RunChecked
    then show ?thesis using \<open>(x, p) \<in> set (d_running s)\<close>
      by (intro exI [of _ "StoreCancel x"]) auto
  qed (use \<open>(x, p) \<in> set (d_running s)\<close> in \<open>intro exI [of _ "Finish x"], simp\<close>)+
qed

lemma enabled_entering: assumes "d_entering s \<noteq> []" shows "\<exists>a s'. internal a \<and> dexec a s = Some s'"
proof -
  obtain x where x: "x \<in> set (d_entering s)" using assms by (cases "d_entering s") auto
  consider "length (d_queue s) < queue_cap" | "d_done s" | "\<not> length (d_queue s) < queue_cap" "\<not> d_done s" by blast
  then show ?thesis
  proof cases
    case 1
    then show ?thesis using x by (intro exI [of _ "Send x"]) auto
  next
    case 2
    then show ?thesis using x by (intro exI [of _ "DropDone x"]) auto
  next
    case 3
    then show ?thesis using x by (intro exI [of _ "DropFull x"]) auto
  qed
qed

lemma stuck_idle:
  assumes "dinv s" and stuck: "\<nexists>a s'. internal a \<and> dexec a s = Some s'"
  shows "d_wg s = 0 \<or> stranded s"
proof -
  have e: "d_entering s = []" "d_running s = []" using stuck enabled_entering enabled_running by blast+
  have no: "\<And>a. internal a \<Longrightarrow> dexec a s = None" using stuck by (metis not_None_eq)
  show ?thesis
  proof (cases "d_loop s")
    case LoopTop
    then show ?thesis using no [of LoopCheck] by simp
  next
    case LoopSelect
    then show ?thesis using no [of LoopTake] e assms(1) by (auto simp: dinv_def split: list.splits)
  next
    case (LoopHolding x)
    then show ?thesis using no [of Acquire] e assms(1) by (auto simp: dinv_def split: if_splits)
  next
    case LoopDraining
    then show ?thesis using no [of DrainOne] no [of DrainEnd] by (auto split: list.splits)
  next
    case LoopExited
    then show ?thesis using e assms(1) by (auto simp: dinv_def stranded_def)
  qed
qed

text \<open>
  C18: without new calls, the dispatcher comes to rest: from any reachable state every run of
  its own steps is shorter than \<open>dweight\<close>, and where it cannot step any more the \<open>WaitGroup\<close>
  is at zero (\<open>WaitIdle\<close> and \<open>Stop\<close> return), unless an operation is stranded in the queue
  of a loop that has exited.
\<close>

theorem dispatcher_quiesces:
  assumes "dreach c s" "dexecs as s = Some s'" "list_all internal as"
  shows "length as \<le> dweight s \<and>
    ((\<nexists>a s''. internal a \<and> dexec a s' = Some s'') \<longrightarrow> d_wg s' = 0 \<or> stranded s')"
  using dweight_run [OF assms(2,3)] stuck_idle [OF dinv_reach [OF dreach_dexecs [OF assms(1,2)]]] by auto

lemma dispatcher_quiesces_witness:
  "\<exists>s. dexecs demo_run (NewDispatcher 1) = Some s \<and>
     length [StoreCancel ''b'', Finish ''b'', LoopCheck, LoopTake] \<le> dweight s"
proof -
  let ?as = "[StoreCancel ''b'', Finish ''b'', LoopCheck, LoopTake]"
  have "\<exists>s'. dexecs ?as (the (dexecs demo_run (NewDispatcher 1))) = Some s'"
    by (simp add: demo_run_exec advance_def drop_run_def)
  then obtain s' where "dexecs ?as (the (dexecs demo_run (NewDispatcher 1))) = Some s'" by blast
  from dispatcher_quiesces [OF dreach_dexecs [OF dreach.start demo_run_exec], of ?as s']
  show ?thesis using \<open>dexecs ?as _ = Some s'\<close> by (simp add: demo_run_exec)
qed

lemma stranded_step: "stranded s \<Longrightarrow> dexec a s = Some s' \<Longrightarrow> stranded s' \<and> d_started s' = d_started s"
  by (cases a) (auto simp: stranded_def split: if_splits)

lemma stranded_run: "stranded s \<Longrightarrow> dexecs as s = Some s' \<Longrightarrow> stranded s' \<and> d_started s' = d_started s"
proof (induction as arbitrary: s)
  case (Cons a as)
  then show ?case using stranded_step by (fastforce split: option.splits)
qed simp

text \<open>
  the \<open>select\<close> of \<open>Enqueue\<close> may send into the queue after the loop has drained it and
  returned, since both its cases are ready: a call that passed the check of \<open>stopped\<close> before
  \<open>Stop\<close> can strand its operation.  It then never runs, and the \<open>WaitGroup\<close> stays above
  zero whatever happens: \<open>WaitIdle\<close> never returns and \<open>Stop\<close> runs into its timeout.
\<close>

theorem enqueue_can_strand:
  "\<exists>s. dreach c s \<and> d_stopped s \<and> x \<in> set (d_queue s) \<and>
     (\<forall>as. case dexecs as s of None \<Rightarrow> True | Some s' \<Rightarrow> 0 < d_wg s' \<and> x \<notin> set (d_started s'))"
proof -
  define s where "s = \<lparr>d_stopped = True, d_done = True, d_wg = 1, d_entering = [], d_queue = [x],
     d_loop = LoopExited, d_running = [], d_cancels = [], d_cancelled = [],
     d_conc = nat (if c < 1 then 1 else c), d_sent = [x], d_started = []\<rparr>"
  have "dexecs [Enter x, SetStopped, CloseDone, LoopCheck, DrainEnd, Send x] (NewDispatcher c) = Some s"
    by (simp add: NewDispatcher_def queue_cap_def s_def)
  then have r: "dreach c s" by (rule dreach_dexecs [OF dreach.start])
  have "0 < d_wg s' \<and> x \<notin> set (d_started s')" if e: "dexecs as s = Some s'" for as s'
  proof -
    have st: "stranded s'" "d_started s' = []" using stranded_run [OF _ e] by (auto simp: stranded_def s_def)
    then have "0 < length (d_queue s')" by (simp add: stranded_def)
    then have "0 < d_wg s'" using dispatcher_counts [OF dreach_dexecs [OF r e]] by linarith
    then show ?thesis using st(2) by simp
  qed
  then have "\<forall>as. case dexecs as s of None \<Rightarrow> True | Some s' \<Rightarrow> 0 < d_wg s' \<and> x \<notin> set (d_started s')"
    by (auto split: option.splits)
  then show ?thesis using r by (intro exI [of _ s]) (simp add: s_def)
qed

text \<open>
  \<open>Cancel\<close> is lost when it falls between \<open>run\<close>'s check of \<open>cancelled\<close> and the store of
  its cancel function: the operation then runs with a live context, and no later step of the
  dispatcher takes the request into account while it runs.
\<close>

theorem cancel_can_be_lost:
  "\<exists>s1. dreach c s1 \<and> (x, RunChecked) \<in> set (d_running s1) \<and>
     (case dexecs [CancelCall x, StoreCancel x] s1 of None \<Rightarrow> False
      | Some s2 \<Rightarrow> (x, RunLive) \<in> set (d_running s2) \<and> x \<in> set (d_cancelled s2) \<and>
          (case dexec (Finish x) s2 of None \<Rightarrow> False | Some s3 \<Rightarrow> x \<in> set (d_cancelled s3)))"
proof -
  define s1 where "s1 = \<lparr>d_stopped = False, d_done = False, d_wg = 1, d_entering = [], d_queue = [],
     d_loop = LoopTop, d_running = [(x, RunChecked)], d_cancels = [], d_cancelled = [],
     d_conc = nat (if c < 1 then 1 else c), d_sent = [x], d_started = [x]\<rparr>"
  have "dexecs [Enter x, Send x, LoopCheck, LoopTake, Acquire, CheckCancelled x] (NewDispatcher c) = Some s1"
    by (simp add: NewDispatcher_def queue_cap_def s1_def advance_def)
  then have "dreach c s1" by (rule dreach_dexecs [OF dreach.start])
  then show ?thesis
    by (intro exI [of _ s1]) (simp add: s1_def advance_def)
qed

end
