(* ===== verification/GoTime.thy ===== *)
theory GoTime imports Prelude begin

text \<open>
  Go's \<open>time.Time\<close> as far as the program uses it: an instant in nanoseconds since the Unix
  epoch with the offset of its location, \<open>Add\<close>, \<open>Sub\<close>, \<open>Before\<close>, the \<open>time.Duration\<close>
  arithmetic on 64-bit integers, and the text \<open>time.RFC3339Nano\<close> that the SQLite store writes
  into its \<open>TEXT\<close> columns and compares there.  The store is a text comparison (SQLite's
  default \<open>BINARY\<close> collation, bytewise), so the last part relates it to the order of instants.
\<close>

section \<open>Instants and durations\<close>

datatype gotime = GoTime (inst: int) (zone: int)

definition utc :: "int \<Rightarrow> gotime" where
  "utc t = GoTime t 0"

definition t_UTC :: "gotime \<Rightarrow> gotime" where
  "t_UTC t = GoTime (inst t) 0"

definition t_Add :: "gotime \<Rightarrow> int \<Rightarrow> gotime" where
  "t_Add t d = GoTime (inst t + d) (zone t)"

text \<open>\<open>Sub\<close> saturates at the bounds of \<open>Duration\<close>.\<close>

definition t_Sub :: "gotime \<Rightarrow> gotime \<Rightarrow> int" where
  "t_Sub t u = max (- (2 ^ 63)) (min (2 ^ 63 - 1) (inst t - inst u))"

definition t_Before :: "gotime \<Rightarrow> gotime \<Rightarrow> bool" where
  "t_Before t u \<longleftrightarrow> inst t < inst u"

definition d_second :: int where "d_second = 1000000000"
definition d_minute :: int where "d_minute = 60 * d_second"
definition d_hour :: int where "d_hour = 60 * d_minute"

text \<open>\<open>time.Duration(n) * time.Second\<close>.\<close>

definition seconds_dur :: "int \<Rightarrow> int" where
  "seconds_dur n = wrap64 (n * d_second)"

lemma seconds_dur_small: "0 \<le> n \<Longrightarrow> n \<le> 9223372036 \<Longrightarrow> seconds_dur n = n * d_second"
  unfolding seconds_dur_def d_second_def by (rule wrap64_id) auto

section \<open>RFC 3339 text\<close>

definition digit :: "int \<Rightarrow> char" where
  "digit d = char_of (nat (48 + d))"

text \<open>\<open>pad k n\<close> is the last \<open>k\<close> decimal digits of \<open>n\<close>.\<close>

fun pad :: "nat \<Rightarrow> int \<Rightarrow> string" where
  "pad 0 n = []"
| "pad (Suc k) n = pad k (n div 10) @ [digit (n mod 10)]"

text \<open>Year, month and day of a day number counted from 1970-01-01 (proleptic Gregorian).\<close>

definition civil :: "int \<Rightarrow> int \<times> int \<times> int" where
  "civil days = (let
     z = days + 719468; era = z div 146097; doe = z - era * 146097;
     yoe = (doe - doe div 1460 + doe div 36524 - doe div 146096) div 365;
     doy = doe - (365 * yoe + yoe div 4 - yoe div 100);
     mp = (5 * doy + 2) div 153;
     d = doy - (153 * mp + 2) div 5 + 1;
     m = (if mp < 10 then mp + 3 else mp - 9);
     y = yoe + era * 400 + (if m \<le> 2 then 1 else 0)
   in (y, m, d))"

definition date_text :: "int \<Rightarrow> string" where
  "date_text days = (case civil days of (y, m, d) \<Rightarrow> pad 4 y @ ''-'' @ pad 2 m @ ''-'' @ pad 2 d)"

definition clock_text :: "int \<Rightarrow> string" where
  "clock_text sod = pad 2 (sod div 3600) @ '':'' @ pad 2 (sod div 60 mod 60) @ '':'' @ pad 2 (sod mod 60)"

text \<open>The layout's \<open>.999999999\<close>: trailing zeros and an empty fraction are left out.\<close>

definition frac_text :: "int \<Rightarrow> string" where
  "frac_text ns = (if ns = 0 then [] else CHR ''.'' # rev (dropWhile (\<lambda>c. c = CHR ''0'') (rev (pad 9 ns))))"

definition zone_text :: "int \<Rightarrow> string" where
  "zone_text z = (if z = 0 then ''Z'' else
     (if z < 0 then ''-'' else ''+'') @ pad 2 (\<bar>z\<bar> div 3600) @ '':'' @ pad 2 (\<bar>z\<bar> div 60 mod 60))"

definition rfc3339nano :: "gotime \<Rightarrow> string" where
  "rfc3339nano t = (let s = inst t div d_second + zone t in
     date_text (s div 86400) @ ''T'' @ clock_text (s mod 86400) @ frac_text (inst t mod d_second) @ zone_text (zone t))"

text \<open>Bytewise order of texts.\<close>

fun text_le :: "string \<Rightarrow> string \<Rightarrow> bool" where
  "text_le [] ys = True"
| "text_le (x # xs) [] = False"
| "text_le (x # xs) (y # ys) = (of_char x < (of_char y :: nat) \<or> x = y \<and> text_le xs ys)"

definition time_le :: "gotime \<Rightarrow> gotime \<Rightarrow> bool" where
  "time_le t u = text_le (rfc3339nano t) (rfc3339nano u)"

lemma text_le_refl [simp]: "text_le xs xs"
  by (induction xs) auto

lemma text_le_linear: "text_le xs ys \<or> text_le ys xs"
proof (induction xs ys rule: text_le.induct)
  case (3 x xs y ys)
  have "x = y \<or> of_char x < (of_char y :: nat) \<or> of_char y < (of_char x :: nat)"
    by (metis char_of_char linorder_neqE_nat)
  with 3 show ?case by auto
qed simp_all

lemma text_le_trans: "text_le xs ys \<Longrightarrow> text_le ys zs \<Longrightarrow> text_le xs zs"
proof (induction xs ys arbitrary: zs rule: text_le.induct)
  case (3 x xs y ys)
  then show ?case by (cases zs) auto
qed (auto elim: text_le.elims)

lemma text_le_prefix [simp]: "text_le (p @ xs) (p @ ys) = text_le xs ys"
  by (induction p) auto

lemma text_le_antisym: "text_le xs ys \<Longrightarrow> text_le ys xs \<Longrightarrow> xs = ys"
  by (induction xs ys rule: text_le.induct) (auto elim: text_le.elims)

lemma text_le_diff:
  "length a = length b \<Longrightarrow> a \<noteq> b \<Longrightarrow> text_le (a @ xs) (b @ ys) = text_le a b"
  by (induction a b rule: list_induct2) auto

lemma text_less_app:
  assumes "length a = length b" and "text_le a b \<and> a \<noteq> b"
  shows "text_le (a @ xs) (b @ ys) \<and> a @ xs \<noteq> b @ ys"
  using assms by (simp add: text_le_diff)

lemma text_less_prefix: "text_le a b \<and> a \<noteq> b \<Longrightarrow> text_le (p @ a) (p @ b) \<and> p @ a \<noteq> p @ b"
  by simp

section \<open>Digits keep the order\<close>

lemma digit_code: "0 \<le> d \<Longrightarrow> d < 10 \<Longrightarrow> of_char (digit d) = nat (48 + d)"
  by (simp add: digit_def of_char_of take_bit_eq_mod nat_mod_distrib)

lemma length_pad [simp]: "length (pad k n) = k"
  by (induction k arbitrary: n) auto

lemma pad_less:
  "0 \<le> n \<Longrightarrow> n < m \<Longrightarrow> m < 10 ^ k \<Longrightarrow> text_le (pad k n) (pad k m) \<and> pad k n \<noteq> pad k m"
proof (induction k arbitrary: n m)
  case 0
  then show ?case by simp
next
  case (Suc k)
  have b: "m div 10 < 10 ^ k" using Suc.prems by (simp add: div_less_iff_less_mult mult.commute)
  consider (hi) "n div 10 < m div 10" | (lo) "n div 10 = m div 10" "n mod 10 < m mod 10"
    using Suc.prems by (smt (verit) mod_mult_div_eq zdiv_mono1)
  then show ?case
  proof cases
    case hi
    have "text_le (pad k (n div 10)) (pad k (m div 10)) \<and> pad k (n div 10) \<noteq> pad k (m div 10)"
      using Suc.IH [OF _ hi b] Suc.prems by simp
    then show ?thesis by (simp add: text_le_diff)
  next
    case lo
    then have "of_char (digit (n mod 10)) < (of_char (digit (m mod 10)) :: nat)"
      by (simp add: digit_code)
    then show ?thesis using lo by auto
  qed
qed

lemma pad_le_iff:
  assumes "0 \<le> n" "n < 10 ^ k" "0 \<le> m" "m < 10 ^ k"
  shows "text_le (pad k n) (pad k m) \<longleftrightarrow> n \<le> m"
proof (cases n m rule: linorder_cases)
  case less
  then show ?thesis using pad_less [of n m k] assms by simp
next
  case greater
  then show ?thesis using pad_less [of m n k] assms text_le_antisym by fastforce
qed simp

lemma pad_inj: "0 \<le> n \<Longrightarrow> n < 10 ^ k \<Longrightarrow> 0 \<le> m \<Longrightarrow> m < 10 ^ k \<Longrightarrow> pad k n = pad k m \<longleftrightarrow> n = m"
  by (metis nle_le pad_le_iff text_le_refl)

lemma div_mod_less:
  fixes a b :: int
  assumes "0 < k" "a < b"
  shows "a div k < b div k \<or> a div k = b div k \<and> a mod k < b mod k"
proof (cases "a div k = b div k")
  case True
  have "a mod k = a - k * (a div k)" "b mod k = b - k * (b div k)"
    by (simp_all add: minus_mult_div_eq_mod)
  with True assms show ?thesis by simp
next
  case False
  moreover have "a div k \<le> b div k" using assms by (intro zdiv_mono1) auto
  ultimately show ?thesis by simp
qed

lemma clock_text_less:
  assumes "0 \<le> s" "s < u" "u < 86400"
  shows "text_le (clock_text s) (clock_text u) \<and> clock_text s \<noteq> clock_text u"
proof -
  have hours: "s div 60 div 60 = s div 3600" "u div 60 div 60 = u div 3600"
    using zdiv_zmult2_eq [of 60 s 60] zdiv_zmult2_eq [of 60 u 60] by simp_all
  have mins: "s div 60 < u div 60 \<or> s div 60 = u div 60 \<and> s mod 60 < u mod 60"
    by (rule div_mod_less) (simp_all add: assms(2))
  have "s div 60 < u div 60 \<Longrightarrow> s div 3600 < u div 3600 \<or>
      s div 3600 = u div 3600 \<and> s div 60 mod 60 < u div 60 mod 60"
    unfolding hours [symmetric] by (rule div_mod_less) simp_all
  moreover have "s div 60 = u div 60 \<Longrightarrow> s div 3600 = u div 3600"
    unfolding hours [symmetric] by simp
  ultimately have "s div 3600 < u div 3600 \<or> s div 3600 = u div 3600 \<and>
     (s div 60 mod 60 < u div 60 mod 60 \<or> s div 60 mod 60 = u div 60 mod 60 \<and> s mod 60 < u mod 60)"
    using mins by metis
  then consider (h) "s div 3600 < u div 3600"
    | (m) "s div 3600 = u div 3600" "s div 60 mod 60 < u div 60 mod 60"
    | (sec) "s div 3600 = u div 3600" "s div 60 mod 60 = u div 60 mod 60" "s mod 60 < u mod 60"
    by blast
  then show ?thesis
  proof cases
    case h
    have "u div 3600 < 10 ^ 2" using assms(3) by (simp add: div_less_iff_less_mult)
    moreover have "0 \<le> s div 3600" using assms(1) by (simp add: pos_imp_zdiv_nonneg_iff)
    ultimately show ?thesis unfolding clock_text_def using h
      by (intro text_less_app pad_less) (simp_all only: length_pad)
  next
    case m
    have "u div 60 mod 60 < 10 ^ 2" using pos_mod_bound [of 60 "u div 60"] by simp
    then show ?thesis unfolding clock_text_def using m pos_mod_sign [of 60 "s div 60"]
      by (simp only: m(1)) (intro text_less_prefix text_less_app pad_less, simp_all only: length_pad)
  next
    case sec
    have "u mod 60 < 10 ^ 2" using pos_mod_bound [of 60 u] by simp
    then show ?thesis unfolding clock_text_def using sec pos_mod_sign [of 60 s]
      by (simp only: sec(1,2)) (intro text_less_prefix text_less_app pad_less, simp_all only: length_pad)
  qed
qed

lemma length_clock_text [simp]: "length (clock_text s) = 8"
  by (simp add: clock_text_def)

text \<open>
  The text order is the order of instants for UTC times of one day that differ in their
  second; \<open>frac_text\<close> breaks it within a second and \<open>zone_text\<close> across offsets.
\<close>

lemma time_le_same_day:
  assumes "zone t = 0" "zone u = 0"
    and day: "inst t div d_second div 86400 = inst u div d_second div 86400"
    and sec: "inst t div d_second \<noteq> inst u div d_second"
  shows "time_le t u \<longleftrightarrow> inst t \<le> inst u"
proof -
  define a b where "a = inst t div d_second mod 86400" and "b = inst u div d_second mod 86400"
  have ab: "a \<noteq> b" using day sec unfolding a_def b_def by (metis div_mult_mod_eq)
  have ord: "inst t \<le> inst u \<longleftrightarrow> a < b"
  proof -
    have "a - b = inst t div d_second - inst u div d_second"
      unfolding a_def b_def using day by (simp add: minus_mult_div_eq_mod [symmetric])
    then have "a < b \<longleftrightarrow> inst t div d_second < inst u div d_second" by auto
    also have "\<dots> \<longleftrightarrow> inst t \<le> inst u"
      using sec zdiv_mono1 [of "inst t" "inst u" d_second] zdiv_mono1 [of "inst u" "inst t" d_second]
      by (auto simp: d_second_def)
    finally show ?thesis by simp
  qed
  have le: "time_le t u = text_le (clock_text a @ frac_text (inst t mod d_second) @ ''Z'')
                                   (clock_text b @ frac_text (inst u mod d_second) @ ''Z'')"
    using assms unfolding time_le_def rfc3339nano_def a_def b_def by (simp add: Let_def zone_text_def)
  have r: "0 \<le> a" "a < 86400" "0 \<le> b" "b < 86400" unfolding a_def b_def by simp_all
  show ?thesis
  proof (cases "a < b")
    case True
    then show ?thesis using clock_text_less [of a b] r ord le by (simp add: text_le_diff)
  next
    case False
    then have "b < a" using ab by simp
    then have "text_le (clock_text b) (clock_text a) \<and> clock_text b \<noteq> clock_text a"
      using clock_text_less [of b a] r by simp
    moreover from this have "\<not> text_le (clock_text a) (clock_text b)"
      using text_le_antisym by blast
    ultimately show ?thesis using False ord le
      by (simp add: text_le_diff [OF _ not_sym])
  qed
qed

end
