(* ===== verification/Domain.thy ===== *)
theory Domain imports GoTime begin

text \<open>
  The domain layer (\<open>internal/domain\<close>): error sentinels, the state enumerations with their
  transition tables, the persisted structs, the events, and the provider interface.  A Go
  string type with named constants is a datatype whose last constructor holds any other
  string.  An \<open>error\<close> is modelled by what \<open>errors.Is\<close> and \<open>errors.As\<close> can see of it;
  wrapping with \<open>%w\<close> is transparent and the wording of messages is not modelled.
\<close>

section \<open>Errors\<close>

datatype sentinel = ErrNotFound | ErrConflict | ErrInvalidState | ErrCapacityExceeded
  | ErrUnauthorized | ErrForbidden | ErrBusy | ErrNotSupported | ErrInvalidArgument | ErrVMStopped
  | ErrCanceled  \<comment> \<open>\<open>context.Canceled\<close> of the standard library\<close>

datatype resize_reason = ExceedsCeiling | CPUUnsupportedByBackend | BackendRejected
  | CgroupUnavailable | CgroupWriteFailed | VmStopped

datatype goerr =
    Sentinel sentinel
  | ProviderResizeError resize_reason
  | Opaque string          \<comment> \<open>an error no caller distinguishes\<close>
  | Joined goerr goerr     \<comment> \<open>\<open>errors.Join\<close>\<close>

fun errors_Is :: "goerr \<Rightarrow> sentinel \<Rightarrow> bool" where
  "errors_Is (Sentinel s) t = (s = t)"
| "errors_Is (ProviderResizeError _) t = False"
| "errors_Is (Opaque _) t = False"
| "errors_Is (Joined a b) t = (errors_Is a t \<or> errors_Is b t)"

text \<open>\<open>errors.As(err, &prErr)\<close>.\<close>

fun as_resize :: "goerr \<Rightarrow> resize_reason option" where
  "as_resize (ProviderResizeError r) = Some r"
| "as_resize (Joined a b) = (case as_resize a of Some r \<Rightarrow> Some r | None \<Rightarrow> as_resize b)"
| "as_resize _ = None"

type_synonym 'a res = "goerr + 'a"

abbreviation NotFound :: goerr where "NotFound \<equiv> Sentinel ErrNotFound"
abbreviation InvalidState :: goerr where "InvalidState \<equiv> Sentinel ErrInvalidState"
abbreviation InvalidArgument :: goerr where "InvalidArgument \<equiv> Sentinel ErrInvalidArgument"
abbreviation Conflict :: goerr where "Conflict \<equiv> Sentinel ErrConflict"

section \<open>Metadata and event data\<close>

text \<open>
  Values of \<open>map[string]any\<close>.  \<open>JStrs\<close> is an in-memory \<open>[]string\<close>, which after a round
  trip through the store has become an array of \<open>any\<close>.
\<close>

datatype json = JNull | JBool bool | JNum int | JStr string | JArr "json list" | JStrs "string list"
  | JObj "(string \<times> json) list"

type_synonym data = "(string \<times> json) list"

definition get_str :: "data \<Rightarrow> string \<Rightarrow> string option" where
  "get_str d k = (case map_of d k of Some (JStr s) \<Rightarrow> Some s | _ \<Rightarrow> None)"

fun json_intptr :: "int option \<Rightarrow> json" where
  "json_intptr None = JNull"
| "json_intptr (Some n) = JNum n"

section \<open>States and their transitions\<close>

datatype sandbox_state = SandboxPending | SandboxStarting | SandboxRunning | SandboxStopping
  | SandboxStopped | SandboxFailed | SandboxDestroyed | SandboxOther string

fun sandbox_Valid :: "sandbox_state \<Rightarrow> bool" where
  "sandbox_Valid (SandboxOther _) = False"
| "sandbox_Valid _ = True"

fun sandboxTransitions :: "sandbox_state \<Rightarrow> sandbox_state list" where
  "sandboxTransitions SandboxPending = [SandboxStarting, SandboxFailed]"
| "sandboxTransitions SandboxStarting = [SandboxRunning, SandboxFailed]"
| "sandboxTransitions SandboxRunning = [SandboxStopping, SandboxFailed]"
| "sandboxTransitions SandboxStopping = [SandboxStopped, SandboxFailed]"
| "sandboxTransitions SandboxStopped = [SandboxStarting, SandboxDestroyed]"
| "sandboxTransitions SandboxFailed = [SandboxDestroyed]"
| "sandboxTransitions _ = []"

definition sandbox_CanTransitionTo :: "sandbox_state \<Rightarrow> sandbox_state \<Rightarrow> bool" where
  "sandbox_CanTransitionTo s target = list_ex (\<lambda>allowed. allowed = target) (sandboxTransitions s)"

fun sandbox_state_text :: "sandbox_state \<Rightarrow> string" where
  "sandbox_state_text SandboxPending = ''pending''"
| "sandbox_state_text SandboxStarting = ''starting''"
| "sandbox_state_text SandboxRunning = ''running''"
| "sandbox_state_text SandboxStopping = ''stopping''"
| "sandbox_state_text SandboxStopped = ''stopped''"
| "sandbox_state_text SandboxFailed = ''failed''"
| "sandbox_state_text SandboxDestroyed = ''destroyed''"
| "sandbox_state_text (SandboxOther s) = s"

datatype session_state = SessionActive | SessionDetached | SessionExited | SessionDestroyed
  | SessionOther string

fun session_Valid :: "session_state \<Rightarrow> bool" where
  "session_Valid (SessionOther _) = False"
| "session_Valid _ = True"

fun sessionTransitions :: "session_state \<Rightarrow> session_state list" where
  "sessionTransitions SessionActive = [SessionDetached, SessionExited, SessionDestroyed]"
| "sessionTransitions SessionDetached = [SessionActive, SessionExited, SessionDestroyed]"
| "sessionTransitions SessionExited = [SessionDestroyed]"
| "sessionTransitions _ = []"

definition session_CanTransitionTo :: "session_state \<Rightarrow> session_state \<Rightarrow> bool" where
  "session_CanTransitionTo s target = list_ex (\<lambda>allowed. allowed = target) (sessionTransitions s)"

datatype snapshot_state = SnapshotPending | SnapshotCreating | SnapshotReady | SnapshotFailed
  | SnapshotDeleted | SnapshotOther string

fun snapshot_Valid :: "snapshot_state \<Rightarrow> bool" where
  "snapshot_Valid (SnapshotOther _) = False"
| "snapshot_Valid _ = True"

fun snapshotTransitions :: "snapshot_state \<Rightarrow> snapshot_state list" where
  "snapshotTransitions SnapshotPending = [SnapshotCreating, SnapshotFailed]"
| "snapshotTransitions SnapshotCreating = [SnapshotReady, SnapshotFailed]"
| "snapshotTransitions SnapshotReady = [SnapshotDeleted]"
| "snapshotTransitions SnapshotFailed = [SnapshotDeleted]"
| "snapshotTransitions _ = []"

definition snapshot_CanTransitionTo :: "snapshot_state \<Rightarrow> snapshot_state \<Rightarrow> bool" where
  "snapshot_CanTransitionTo s target = list_ex (\<lambda>allowed. allowed = target) (snapshotTransitions s)"

datatype operation_state = OpPending | OpRunning | OpSucceeded | OpFailed | OpCancelled | OpOther string

fun op_Valid :: "operation_state \<Rightarrow> bool" where
  "op_Valid (OpOther _) = False"
| "op_Valid _ = True"

definition op_Terminal :: "operation_state \<Rightarrow> bool" where
  "op_Terminal s \<longleftrightarrow> s = OpSucceeded \<or> s = OpFailed \<or> s = OpCancelled"

fun op_state_text :: "operation_state \<Rightarrow> string" where
  "op_state_text OpPending = ''pending''"
| "op_state_text OpRunning = ''running''"
| "op_state_text OpSucceeded = ''succeeded''"
| "op_state_text OpFailed = ''failed''"
| "op_state_text OpCancelled = ''cancelled''"
| "op_state_text (OpOther s) = s"

datatype image_state = ImagePending | ImageReady | ImageFailed | ImageDeleted | ImageOther string

fun image_Valid :: "image_state \<Rightarrow> bool" where
  "image_Valid (ImageOther _) = False"
| "image_Valid _ = True"

datatype boost_state = BoostActive | BoostRevertFailed | BoostOther string

fun boost_Valid :: "boost_state \<Rightarrow> bool" where
  "boost_Valid (BoostOther _) = False"
| "boost_Valid _ = True"

datatype source_type = SourceImported | SourceSnapshotPromoted

type_synonym network_mode = string
definition NetworkIsolated :: network_mode where "NetworkIsolated = ''isolated''"
definition NetworkPublished :: network_mode where "NetworkPublished = ''published''"

type_synonym consistency_mode = string
definition ConsistencyStopped :: consistency_mode where "ConsistencyStopped = ''stopped''"
definition ConsistencyLive :: consistency_mode where "ConsistencyLive = ''live''"

type_synonym session_backing = string
definition SessionBackingDirect :: session_backing where "SessionBackingDirect = ''direct''"
definition SessionBackingTmux :: session_backing where "SessionBackingTmux = ''tmux''"
definition SessionBackingAuto :: session_backing where "SessionBackingAuto = ''auto''"

section \<open>Persisted structs\<close>

record project =
  prj_ProjectID :: string
  prj_Name :: string
  prj_CreatedAt :: gotime
  prj_UpdatedAt :: gotime
  prj_Metadata :: "data option"

record sandbox =
  sbx_SandboxID :: string
  sbx_ProjectID :: string
  sbx_Name :: string
  sbx_State :: sandbox_state
  sbx_Backend :: string
  sbx_BackendRef :: string
  sbx_HostID :: string
  sbx_SourceImageID :: string
  sbx_ParentSnapshotID :: string
  sbx_CreatedAt :: gotime
  sbx_UpdatedAt :: gotime
  sbx_ExpiresAt :: "gotime option"
  sbx_CPULimit :: "int option"
  sbx_MemoryLimitMB :: "int option"
  sbx_NetworkMode :: network_mode
  sbx_EnableBoostChannel :: bool
  sbx_Metadata :: "data option"

record sandbox_filter =
  sf_ProjectID :: "string option"
  sf_State :: "sandbox_state option"
  sf_Backend :: "string option"

record snapshot =
  snp_SnapshotID :: string
  snp_SandboxID :: string
  snp_Backend :: string
  snp_BackendRef :: string
  snp_Label :: string
  snp_State :: snapshot_state
  snp_CreatedAt :: gotime
  snp_UpdatedAt :: gotime
  snp_ParentImageID :: string
  snp_Publishable :: bool
  snp_ConsistencyMode :: consistency_mode
  snp_Metadata :: "data option"

record session =
  ses_SessionID :: string
  ses_SandboxID :: string
  ses_Backing :: session_backing
  ses_Shell :: string
  ses_State :: session_state
  ses_CreatedAt :: gotime
  ses_UpdatedAt :: gotime
  ses_LastAttachedAt :: "gotime option"
  ses_IdleTimeout :: "int option"
  ses_Metadata :: "data option"

record base_image =
  img_ImageID :: string
  img_ProjectScope :: string
  img_Name :: string
  img_Version :: string
  img_SourceType :: source_type
  img_SourceSnapshotID :: string
  img_Backend :: string
  img_BackendRef :: string
  img_Architecture :: string
  img_State :: image_state
  img_CreatedAt :: gotime
  img_Metadata :: "data option"

record operation =
  op_OperationID :: string
  op_ResourceType :: string
  op_ResourceID :: string
  op_SandboxID :: string
  op_SnapshotID :: string
  op_Type :: string
  op_State :: operation_state
  op_StartedAt :: gotime
  op_FinishedAt :: "gotime option"
  op_Error :: "goerr option"  \<comment> \<open>the error whose text \<open>ErrorText\<close> holds\<close>
  op_Metadata :: "data option"

record operation_filter =
  of_ResourceType :: "string option"
  of_ResourceID :: "string option"
  of_SandboxID :: "string option"
  of_State :: "operation_state option"
  of_Limit :: int

record image_filter =
  if_Name :: "string option"
  if_Architecture :: "string option"
  if_State :: "image_state option"

record port_binding =
  pb_SandboxID :: string
  pb_TargetPort :: int
  pb_PublishedPort :: int
  pb_HostAddress :: string
  pb_CreatedAt :: gotime

record boost =
  bst_BoostID :: string
  bst_SandboxID :: string
  bst_OriginalCPULimit :: "int option"
  bst_OriginalMemoryLimitMB :: "int option"
  bst_BoostedCPULimit :: "int option"
  bst_BoostedMemoryLimitMB :: "int option"
  bst_StartedAt :: gotime
  bst_ExpiresAt :: gotime
  bst_State :: boost_state
  bst_Source :: string
  bst_RevertAttempts :: int
  bst_LastError :: "goerr option"

section \<open>Events\<close>

datatype event_type = EventSandboxStateChanged | EventSandboxResourcesUpdated | EventBoostStarted
  | EventBoostExpired | EventBoostRevertFailed | EventSnapshotStateChanged | EventImageStateChanged
  | EventSessionStateChanged | EventOperationStateChanged | EventExecOutput | EventExecCompleted
  | EventUILogin | EventUILoginFailed | EventUIAttachOpened | EventUIAttachClosed

record event =
  ev_Type :: event_type
  ev_Timestamp :: gotime
  ev_Data :: data

record event_filter =
  ef_ProjectID :: "string option"
  ef_SandboxID :: "string option"
  ef_Types :: "event_type list"

section \<open>The provider interface\<close>

record backend_ref =
  ref_Backend :: string
  ref_Ref :: string

record create_req =
  cr_Name :: string
  cr_ImageRef :: string
  cr_Backend :: string
  cr_CPULimit :: "int option"
  cr_MemoryLimitMB :: "int option"
  cr_NetworkMode :: network_mode
  cr_EnableBoostChannel :: "bool option"
  cr_SandboxID :: string
  cr_Metadata :: "data option"

record update_req =
  ur_CPULimit :: "int option"
  ur_MemoryLimitMB :: "int option"

record endpoint =
  ep_HostAddress :: string
  ep_PublishedPort :: int

record health =
  hl_Backend :: string
  hl_Healthy :: bool
  hl_Error :: string

text \<open>
  What a backend answers to each call; the number is the moment of the call, so an
  implementation may answer the same request differently each time.
\<close>

record provider =
  pv_CreateSandbox :: "nat \<Rightarrow> create_req \<Rightarrow> backend_ref res"
  pv_StartSandbox :: "nat \<Rightarrow> backend_ref \<Rightarrow> unit res"
  pv_StopSandbox :: "nat \<Rightarrow> backend_ref \<Rightarrow> bool \<Rightarrow> unit res"
  pv_DestroySandbox :: "nat \<Rightarrow> backend_ref \<Rightarrow> unit res"
  pv_GetSandboxState :: "nat \<Rightarrow> backend_ref \<Rightarrow> sandbox_state res"
  pv_Exec :: "nat \<Rightarrow> backend_ref \<Rightarrow> string list \<Rightarrow> int res"  \<comment> \<open>the exit code once \<open>Wait\<close> returns\<close>
  pv_CreateSnapshot :: "nat \<Rightarrow> backend_ref \<Rightarrow> string \<Rightarrow> consistency_mode \<Rightarrow> backend_ref res"
  pv_RestoreSnapshot :: "nat \<Rightarrow> backend_ref \<Rightarrow> backend_ref \<Rightarrow> unit res"
  pv_DeleteSnapshot :: "nat \<Rightarrow> backend_ref \<Rightarrow> unit res"
  pv_CreateSandboxFromSnapshot :: "nat \<Rightarrow> backend_ref \<Rightarrow> create_req \<Rightarrow> backend_ref res"
  pv_PublishSnapshotAsImage :: "nat \<Rightarrow> backend_ref \<Rightarrow> string \<Rightarrow> string \<Rightarrow> backend_ref res"
  pv_DeleteImage :: "nat \<Rightarrow> backend_ref \<Rightarrow> unit res"
  pv_GetImageInfo :: "nat \<Rightarrow> backend_ref \<Rightarrow> string res"  \<comment> \<open>the architecture\<close>
  pv_ForkSandbox :: "nat \<Rightarrow> backend_ref \<Rightarrow> int \<Rightarrow> backend_ref list \<times> goerr option"
  pv_UpdateResources :: "nat \<Rightarrow> backend_ref \<Rightarrow> update_req \<Rightarrow> unit res"
  pv_PublishPort :: "nat \<Rightarrow> backend_ref \<Rightarrow> int \<Rightarrow> endpoint res"
  pv_UnpublishPort :: "nat \<Rightarrow> backend_ref \<Rightarrow> int \<Rightarrow> unit res"
  pv_Health :: "nat \<Rightarrow> health"

text \<open>The calls made, in order.\<close>

datatype pcall = PCreateSandbox create_req | PStartSandbox backend_ref | PStopSandbox backend_ref bool
  | PDestroySandbox backend_ref | PGetSandboxState backend_ref | PExec backend_ref "string list"
  | PCreateSnapshot backend_ref string consistency_mode | PRestoreSnapshot backend_ref backend_ref
  | PDeleteSnapshot backend_ref | PCreateSandboxFromSnapshot backend_ref create_req
  | PPublishSnapshotAsImage backend_ref string string | PDeleteImage backend_ref
  | PGetImageInfo backend_ref | PForkSandbox backend_ref int | PUpdateResources backend_ref update_req
  | PPublishPort backend_ref int | PUnpublishPort backend_ref int

section \<open>The transition tables\<close>

lemma sandbox_CanTransitionTo_iff [simp]: "sandbox_CanTransitionTo s t \<longleftrightarrow> t \<in> set (sandboxTransitions s)"
  by (auto simp: sandbox_CanTransitionTo_def list_ex_iff)

lemma session_CanTransitionTo_iff [simp]: "session_CanTransitionTo s t \<longleftrightarrow> t \<in> set (sessionTransitions s)"
  by (auto simp: session_CanTransitionTo_def list_ex_iff)

lemma snapshot_CanTransitionTo_iff [simp]: "snapshot_CanTransitionTo s t \<longleftrightarrow> t \<in> set (snapshotTransitions s)"
  by (auto simp: snapshot_CanTransitionTo_def list_ex_iff)

lemma to_Starting: "SandboxStarting \<in> set (sandboxTransitions s) \<longleftrightarrow> s = SandboxPending \<or> s = SandboxStopped"
  by (cases s) auto

lemma to_Stopping: "SandboxStopping \<in> set (sandboxTransitions s) \<longleftrightarrow> s = SandboxRunning"
  by (cases s) auto

lemma to_Exited: "SessionExited \<in> set (sessionTransitions s) \<longleftrightarrow> s = SessionActive \<or> s = SessionDetached"
  by (cases s) auto

end
