(* ===== verification/Rows.thy ===== *)
theory Rows imports Domain begin

text \<open>
  SQLite tables as lists of rows in rowid order, with the effect of \<open>INSERT\<close>, \<open>UPDATE\<close>
  and \<open>DELETE\<close> on one row under uniqueness constraints, and the interface every entity
  store of \<open>internal/store/sqlite\<close> provides to the services (locales \<open>row_store\<close> and
  \<open>row_store_delete\<close>).  A uniqueness constraint is a function of the row: two rows clash
  when it agrees on them.
\<close>

section \<open>One table\<close>

definition row_find :: "('r \<Rightarrow> 'k) \<Rightarrow> 'k \<Rightarrow> 'r list \<Rightarrow> 'r option" where
  "row_find key k rows = find (\<lambda>r. key r = k) rows"

definition row_insert :: "('r \<Rightarrow> 'r \<Rightarrow> bool) \<Rightarrow> 'r \<Rightarrow> 'r list \<Rightarrow> 'r list res" where
  "row_insert clash r rows = (if list_ex (clash r) rows then Inl Conflict else Inr (rows @ [r]))"

text \<open>\<open>UPDATE ... SET ... WHERE key = ?\<close> followed by \<open>checkRowsAffected\<close>.\<close>

definition row_update :: "('r \<Rightarrow> 'k) \<Rightarrow> ('r \<Rightarrow> 'r \<Rightarrow> bool) \<Rightarrow> ('r \<Rightarrow> 'r) \<Rightarrow> 'k \<Rightarrow> 'r list \<Rightarrow> 'r list res" where
  "row_update key clash f k rows =
     (case row_find key k rows of
        None \<Rightarrow> Inl NotFound
      | Some old \<Rightarrow>
          if list_ex (\<lambda>r. key r \<noteq> k \<and> clash (f old) r) rows then Inl Conflict
          else Inr (upd_where (\<lambda>r. key r = k) f rows))"

definition row_delete :: "('r \<Rightarrow> 'k) \<Rightarrow> 'k \<Rightarrow> 'r list \<Rightarrow> 'r list res" where
  "row_delete key k rows =
     (case row_find key k rows of None \<Rightarrow> Inl NotFound | Some _ \<Rightarrow> Inr (filter (\<lambda>r. key r \<noteq> k) rows))"

lemma row_find_Nil [simp]: "row_find key k [] = None"
  by (simp add: row_find_def)

lemma row_find_append [simp]:
  "row_find key k (xs @ ys) = (case row_find key k xs of None \<Rightarrow> row_find key k ys | Some r \<Rightarrow> Some r)"
  by (induction xs) (auto simp: row_find_def)

lemma row_find_single [simp]: "row_find key k [r] = (if key r = k then Some r else None)"
  by (simp add: row_find_def)

lemma row_find_Some: "row_find key k rows = Some r \<Longrightarrow> r \<in> set rows \<and> key r = k"
  unfolding row_find_def by (rule find_Some_iff2)

lemma row_find_None: "row_find key k rows = None \<longleftrightarrow> k \<notin> key ` set rows"
  by (auto simp: row_find_def find_None_iff)

lemma row_find_key: "distinct (map key rows) \<Longrightarrow> r \<in> set rows \<Longrightarrow> row_find key (key r) rows = Some r"
  unfolding row_find_def by (rule find_key)

lemma row_find_upd [simp]:
  "(\<And>r. key (f r) = key r) \<Longrightarrow>
   row_find key k' (upd_where (\<lambda>r. key r = k) f rows) =
     (if k' = k then map_option f (row_find key k rows) else row_find key k' rows)"
  by (induction rows) (auto simp: row_find_def upd_where_def)

lemma row_find_filter [simp]:
  "row_find key k' (filter (\<lambda>r. key r \<noteq> k) rows) = (if k' = k then None else row_find key k' rows)"
  by (induction rows) (auto simp: row_find_def)

lemma row_insert_Inr: "row_insert clash r rows = Inr rows' \<longleftrightarrow> (\<forall>x\<in>set rows. \<not> clash r x) \<and> rows' = rows @ [r]"
  by (auto simp: row_insert_def list_ex_iff)

lemma row_update_Inr:
  "row_update key clash f k rows = Inr rows' \<longleftrightarrow>
     (\<exists>old. row_find key k rows = Some old \<and> (\<forall>r\<in>set rows. key r \<noteq> k \<longrightarrow> \<not> clash (f old) r) \<and>
        rows' = upd_where (\<lambda>r. key r = k) f rows)"
  by (auto simp: row_update_def list_ex_iff split: option.splits if_splits)

lemma row_delete_Inr:
  "row_delete key k rows = Inr rows' \<longleftrightarrow> row_find key k rows \<noteq> None \<and> rows' = filter (\<lambda>r. key r \<noteq> k) rows"
  by (auto simp: row_delete_def split: option.splits)

lemmas row_ops = row_insert_Inr row_update_Inr row_delete_Inr

text \<open>A uniqueness constraint \<open>u\<close> that clashes are made of survives each operation.\<close>

lemma distinct_insert:
  assumes "distinct (map u rows)" "\<forall>x\<in>set rows. \<not> clash r x" "\<And>x. u x = u r \<Longrightarrow> clash r x"
  shows "distinct (map u (rows @ [r]))"
  using assms by fastforce

lemma distinct_update:
  assumes k: "distinct (map key rows)" and u: "distinct (map u rows)"
    and old: "row_find key k rows = Some old"
    and no: "\<forall>r\<in>set rows. key r \<noteq> k \<longrightarrow> \<not> clash (f old) r"
    and clash: "\<And>x. u x = u (f old) \<Longrightarrow> clash (f old) x"
  shows "distinct (map u (upd_where (\<lambda>r. key r = k) f rows))"
proof -
  have inj: "inj_on u (set rows)" and d: "distinct rows" and kinj: "inj_on key (set rows)"
    using u k by (auto simp: distinct_map)
  have only: "x = old" if "x \<in> set rows" "key x = k" for x
    using that row_find_Some [OF old] kinj by (auto simp: inj_on_def)
  have "inj_on (\<lambda>r. u (if key r = k then f r else r)) (set rows)"
  proof (rule inj_onI)
    fix x y
    assume xy: "x \<in> set rows" "y \<in> set rows"
      and eq: "u (if key x = k then f x else x) = u (if key y = k then f y else y)"
    show "x = y"
    proof (cases "key x = k"; cases "key y = k")
      assume "key x = k" "key y = k"
      then show ?thesis using xy only by metis
    next
      assume "key x = k" "key y \<noteq> k"
      then show ?thesis using eq xy only no clash by metis
    next
      assume "key x \<noteq> k" "key y = k"
      then show ?thesis using eq xy only no clash by metis
    next
      assume "key x \<noteq> k" "key y \<noteq> k"
      then show ?thesis using eq xy inj by (simp add: inj_on_def)
    qed
  qed
  then have "distinct (map (\<lambda>r. u (if key r = k then f r else r)) rows)"
    using d by (simp add: distinct_map)
  moreover have "map u (upd_where (\<lambda>r. key r = k) f rows) = map (\<lambda>r. u (if key r = k then f r else r)) rows"
    by (simp add: upd_where_def)
  ultimately show ?thesis by (simp only:)
qed

lemma distinct_map_filter': "distinct (map u rows) \<Longrightarrow> distinct (map u (filter P rows))"
  by (rule distinct_map_filter)

section \<open>The interface of an entity store\<close>

text \<open>
  \<open>look\<close> is \<open>Get\<close>, \<open>add\<close> is \<open>Create\<close>, \<open>put\<close> is \<open>Update\<close>; \<open>saved\<close> is what a later
  read returns for a created value and \<open>merged\<close> the row an update leaves; \<open>ok\<close> is the
  integrity of the database.
\<close>

locale row_store =
  fixes look :: "'k \<Rightarrow> 'db \<Rightarrow> 'r option"
    and add :: "'r \<Rightarrow> 'db \<Rightarrow> 'db res"
    and put :: "'r \<Rightarrow> 'db \<Rightarrow> 'db res"
    and key :: "'r \<Rightarrow> 'k"
    and saved :: "'r \<Rightarrow> 'r"
    and merged :: "'r \<Rightarrow> 'r \<Rightarrow> 'r"
    and ok :: "'db \<Rightarrow> bool"
  assumes look_key: "look k d = Some r \<Longrightarrow> key r = k"
    and add_fresh: "add r d = Inr d' \<Longrightarrow> look (key r) d = None"
    and add_look: "add r d = Inr d' \<Longrightarrow> look k d' = (if k = key r then Some (saved r) else look k d)"
    and put_missing: "look (key r) d = None \<Longrightarrow> put r d = Inl NotFound"
    and put_look: "put r d = Inr d' \<Longrightarrow>
      look k d' = (if k = key r then map_option (\<lambda>old. merged old r) (look k d) else look k d)"
    and merged_merged: "merged (merged old r) r' = merged old r'"
    and ok_add: "ok d \<Longrightarrow> add r d = Inr d' \<Longrightarrow> ok d'"
    and ok_put: "ok d \<Longrightarrow> put r d = Inr d' \<Longrightarrow> ok d'"
begin

lemma put_found: "put r d = Inr d' \<Longrightarrow> \<exists>old. look (key r) d = Some old"
  using put_missing [of r d] by (cases "look (key r) d") auto

lemma put_read: "put r d = Inr d' \<Longrightarrow> look (key r) d = Some old \<Longrightarrow> look (key r) d' = Some (merged old r)"
  by (simp add: put_look)

lemma put_other: "put r d = Inr d' \<Longrightarrow> k \<noteq> key r \<Longrightarrow> look k d' = look k d"
  by (simp add: put_look)

text \<open>The last of two updates of a row decides what is read.\<close>

lemma put_last:
  assumes "put r d = Inr d1" "put r' d1 = Inr d2" "key r' = key r" "look (key r) d = Some old"
  shows "look (key r) d2 = Some (merged old r')"
  using assms put_look [OF assms(2)] put_look [OF assms(1)] by (simp add: merged_merged)

lemma add_twice: "add r d = Inr d' \<Longrightarrow> key r' = key r \<Longrightarrow> add r' d' \<noteq> Inr d''"
  using add_fresh add_look by fastforce

lemma add_then_put:
  "add r d = Inr d1 \<Longrightarrow> put r' d1 = Inr d2 \<Longrightarrow> key r' = key r \<Longrightarrow> look (key r) d2 = Some (merged (saved r) r')"
  by (simp add: add_look put_look)

text \<open>No operation of the store makes or loses another row.\<close>

lemma dom_put: "put r d = Inr d' \<Longrightarrow> {k. look k d' \<noteq> None} = {k. look k d \<noteq> None}"
  by (auto simp: put_look)

lemma dom_add: "add r d = Inr d' \<Longrightarrow> {k. look k d' \<noteq> None} = insert (key r) {k. look k d \<noteq> None}"
  by (auto simp: add_look)

end

locale row_store_delete = row_store +
  fixes del :: "'a \<Rightarrow> 'b \<Rightarrow> 'b res"
  assumes del_missing: "look k d = None \<Longrightarrow> del k d = Inl NotFound"
    and del_found: "look k d = Some r \<Longrightarrow> \<exists>d'. del k d = Inr d'"
    and del_look: "del k d = Inr d' \<Longrightarrow> look k' d' = (if k' = k then None else look k' d)"
    and ok_del: "ok d \<Longrightarrow> del k d = Inr d' \<Longrightarrow> ok d'"
begin

lemma del_idem: "del k d = Inr d' \<Longrightarrow> del k d' = Inl NotFound"
  by (simp add: del_look del_missing)

text \<open>Creating a row and deleting it again leaves every read as it was.\<close>

lemma add_del: "add r d = Inr d1 \<Longrightarrow> del (key r) d1 = Inr d2 \<Longrightarrow> look k d2 = look k d"
  using add_fresh [of r d d1] by (auto simp: add_look del_look)

lemma add_del_succeeds: "add r d = Inr d1 \<Longrightarrow> \<exists>d2. del (key r) d1 = Inr d2"
  by (rule del_found [where r = "saved r"]) (simp add: add_look)

end

end
