(* ===== verification/Database.thy ===== *)
theory Database imports Rows begin

text \<open>
  The SQLite store (\<open>internal/store/sqlite\<close> with its migrations): the eight tables, every
  statement the stores issue as a function on the database, what a column round trip does to
  a value (\<open>saved_*\<close>), and what an \<open>UPDATE\<close> leaves of the old row (\<open>merged_*\<close>).
  \<open>db_ok\<close> collects the primary keys, unique constraints and foreign keys of the schema.
\<close>

record database =
  db_projects :: "project list"
  db_sandboxes :: "sandbox list"
  db_snapshots :: "snapshot list"
  db_sessions :: "session list"
  db_images :: "base_image list"
  db_operations :: "operation list"
  db_ports :: "port_binding list"
  db_boosts :: "boost list"

definition empty_db :: database where
  "empty_db = \<lparr>db_projects = [], db_sandboxes = [], db_snapshots = [], db_sessions = [],
     db_images = [], db_operations = [], db_ports = [], db_boosts = []\<rparr>"

text \<open>Any error the driver returns without a uniqueness text, here a foreign key failure.\<close>

definition ForeignKeyFailed :: goerr where
  "ForeignKeyFailed = Opaque ''FOREIGN KEY constraint failed''"

section \<open>Columns\<close>

text \<open>
  Empty strings and nil pointers are stored as NULL and read back as themselves, instants
  as their RFC 3339 text (read back as the same instant), metadata as JSON: a \<open>[]string\<close>
  comes back as an array of \<open>any\<close>.
\<close>

fun json_saved :: "json \<Rightarrow> json" where
  "json_saved (JStrs ss) = JArr (map JStr ss)"
| "json_saved (JArr xs) = JArr (map json_saved xs)"
| "json_saved (JObj kvs) = JObj (map (\<lambda>(k, v). (k, json_saved v)) kvs)"
| "json_saved v = v"

definition meta_saved :: "data option \<Rightarrow> data option" where
  "meta_saved = map_option (map (\<lambda>(k, v). (k, json_saved v)))"

lemma json_saved_idem: "json_saved (json_saved v) = json_saved v"
  by (induction v rule: json_saved.induct) (auto split: prod.splits simp: map_idI)

lemma meta_saved_idem [simp]: "meta_saved (meta_saved m) = meta_saved m"
  by (cases m) (auto simp: meta_saved_def json_saved_idem)

text \<open>\<open>int64(d.Seconds())\<close>, truncation towards zero.\<close>

definition whole_seconds :: "int \<Rightarrow> int" where
  "whole_seconds d = (if 0 \<le> d then d div d_second else - ((- d) div d_second)) * d_second"

lemma whole_seconds_idem [simp]: "whole_seconds (whole_seconds d) = whole_seconds d"
  by (simp add: whole_seconds_def d_second_def zero_le_mult_iff)

text \<open>\<open>mapError\<close>: the extended result code is reduced to its primary code.\<close>

datatype sql_error = SqliteError (code: int) (unique_text: bool) | ErrNoRows | OtherSqlError string

definition SQLITE_BUSY :: int where "SQLITE_BUSY = 5"
definition SQLITE_LOCKED :: int where "SQLITE_LOCKED = 6"

fun mapError :: "sql_error \<Rightarrow> goerr" where
  "mapError (SqliteError c u) =
     (if c mod 256 = SQLITE_BUSY \<or> c mod 256 = SQLITE_LOCKED then Sentinel ErrBusy
      else if u then Conflict else Opaque ''sqlite'')"
| "mapError ErrNoRows = NotFound"
| "mapError (OtherSqlError s) = Opaque s"

text \<open>A write either fails and leaves the database, or replaces one table.\<close>

definition store_rows :: "('r list \<Rightarrow> database) \<Rightarrow> 'r list res \<Rightarrow> database res" where
  "store_rows f r = (case r of Inl e \<Rightarrow> Inl e | Inr rows \<Rightarrow> Inr (f rows))"

lemma store_rows_Inr [simp]: "store_rows f r = Inr d \<longleftrightarrow> (\<exists>rows. r = Inr rows \<and> d = f rows)"
  by (auto simp: store_rows_def split: sum.splits)

lemma store_rows_Inl [simp]: "store_rows f r = Inl e \<longleftrightarrow> r = Inl e"
  by (auto simp: store_rows_def split: sum.splits)

text \<open>A foreign key is checked at the end of the statement, after the uniqueness constraints.\<close>

definition references :: "bool \<Rightarrow> 'a res \<Rightarrow> 'a res" where
  "references parent r = (case r of Inl e \<Rightarrow> Inl e | Inr x \<Rightarrow> if parent then Inr x else Inl ForeignKeyFailed)"

lemma references_Inr [simp]: "references p r = Inr x \<longleftrightarrow> p \<and> r = Inr x"
  by (auto simp: references_def split: sum.splits)

section \<open>projects\<close>

definition saved_project :: "project \<Rightarrow> project" where
  "saved_project p = p\<lparr>prj_Metadata := meta_saved (prj_Metadata p)\<rparr>"

definition merged_project :: "project \<Rightarrow> project \<Rightarrow> project" where
  "merged_project old p = old\<lparr>prj_Name := prj_Name p, prj_UpdatedAt := prj_UpdatedAt p,
     prj_Metadata := meta_saved (prj_Metadata p)\<rparr>"

definition project_clash :: "project \<Rightarrow> project \<Rightarrow> bool" where
  "project_clash p q \<longleftrightarrow> prj_ProjectID p = prj_ProjectID q \<or> prj_Name p = prj_Name q"

definition project_Create :: "project \<Rightarrow> database \<Rightarrow> database res" where
  "project_Create p d = store_rows (\<lambda>rows. d\<lparr>db_projects := rows\<rparr>)
     (row_insert project_clash (saved_project p) (db_projects d))"

definition project_Get :: "string \<Rightarrow> database \<Rightarrow> project option" where
  "project_Get k d = row_find prj_ProjectID k (db_projects d)"

definition project_GetByName :: "string \<Rightarrow> database \<Rightarrow> project option" where
  "project_GetByName n d = row_find prj_Name n (db_projects d)"

definition project_List :: "database \<Rightarrow> project list" where
  "project_List d = order_by (\<lambda>p q. text_le (prj_Name p) (prj_Name q)) (db_projects d)"

definition project_Update :: "project \<Rightarrow> database \<Rightarrow> database res" where
  "project_Update p d = store_rows (\<lambda>rows. d\<lparr>db_projects := rows\<rparr>)
     (row_update prj_ProjectID project_clash (\<lambda>old. merged_project old p) (prj_ProjectID p) (db_projects d))"

text \<open>\<open>ON DELETE CASCADE\<close> from \<open>sandboxes\<close>.\<close>

definition cascade :: "string list \<Rightarrow> database \<Rightarrow> database" where
  "cascade gone d = d\<lparr>
     db_snapshots := filter (\<lambda>r. snp_SandboxID r \<notin> set gone) (db_snapshots d),
     db_sessions := filter (\<lambda>r. ses_SandboxID r \<notin> set gone) (db_sessions d),
     db_ports := filter (\<lambda>r. pb_SandboxID r \<notin> set gone) (db_ports d),
     db_boosts := filter (\<lambda>r. bst_SandboxID r \<notin> set gone) (db_boosts d)\<rparr>"

definition project_Delete :: "string \<Rightarrow> database \<Rightarrow> database res" where
  "project_Delete k d = store_rows
     (\<lambda>rows. cascade (map sbx_SandboxID (filter (\<lambda>r. sbx_ProjectID r = k) (db_sandboxes d)))
        (d\<lparr>db_projects := rows, db_sandboxes := filter (\<lambda>r. sbx_ProjectID r \<noteq> k) (db_sandboxes d)\<rparr>))
     (row_delete prj_ProjectID k (db_projects d))"

section \<open>sandboxes\<close>

definition saved_sandbox :: "sandbox \<Rightarrow> sandbox" where
  "saved_sandbox s = s\<lparr>sbx_Metadata := meta_saved (sbx_Metadata s)\<rparr>"

definition merged_sandbox :: "sandbox \<Rightarrow> sandbox \<Rightarrow> sandbox" where
  "merged_sandbox old s = old\<lparr>sbx_Name := sbx_Name s, sbx_State := sbx_State s,
     sbx_BackendRef := sbx_BackendRef s, sbx_HostID := sbx_HostID s,
     sbx_SourceImageID := sbx_SourceImageID s, sbx_ParentSnapshotID := sbx_ParentSnapshotID s,
     sbx_UpdatedAt := sbx_UpdatedAt s, sbx_ExpiresAt := sbx_ExpiresAt s,
     sbx_CPULimit := sbx_CPULimit s, sbx_MemoryLimitMB := sbx_MemoryLimitMB s,
     sbx_NetworkMode := sbx_NetworkMode s, sbx_Metadata := meta_saved (sbx_Metadata s),
     sbx_EnableBoostChannel := sbx_EnableBoostChannel s\<rparr>"

definition sandbox_clash :: "sandbox \<Rightarrow> sandbox \<Rightarrow> bool" where
  "sandbox_clash s t \<longleftrightarrow> sbx_SandboxID s = sbx_SandboxID t \<or>
     sbx_ProjectID s = sbx_ProjectID t \<and> sbx_Name s = sbx_Name t"

definition sandbox_Get :: "string \<Rightarrow> database \<Rightarrow> sandbox option" where
  "sandbox_Get k d = row_find sbx_SandboxID k (db_sandboxes d)"

definition sandbox_Create :: "sandbox \<Rightarrow> database \<Rightarrow> database res" where
  "sandbox_Create s d = references (project_Get (sbx_ProjectID s) d \<noteq> None)
     (store_rows (\<lambda>rows. d\<lparr>db_sandboxes := rows\<rparr>)
       (row_insert sandbox_clash (saved_sandbox s) (db_sandboxes d)))"

definition sandbox_List :: "sandbox_filter \<Rightarrow> database \<Rightarrow> sandbox list" where
  "sandbox_List f d = order_by (\<lambda>s t. time_le (sbx_CreatedAt s) (sbx_CreatedAt t))
     (filter (\<lambda>s. (case sf_ProjectID f of None \<Rightarrow> True | Some p \<Rightarrow> sbx_ProjectID s = p) \<and>
                  (case sf_State f of None \<Rightarrow> True | Some st \<Rightarrow> sbx_State s = st) \<and>
                  (case sf_Backend f of None \<Rightarrow> True | Some b \<Rightarrow> sbx_Backend s = b)) (db_sandboxes d))"

definition sandbox_Update :: "sandbox \<Rightarrow> database \<Rightarrow> database res" where
  "sandbox_Update s d = store_rows (\<lambda>rows. d\<lparr>db_sandboxes := rows\<rparr>)
     (row_update sbx_SandboxID sandbox_clash (\<lambda>old. merged_sandbox old s) (sbx_SandboxID s) (db_sandboxes d))"

definition sandbox_Delete :: "string \<Rightarrow> database \<Rightarrow> database res" where
  "sandbox_Delete k d = store_rows (\<lambda>rows. cascade [k] (d\<lparr>db_sandboxes := rows\<rparr>))
     (row_delete sbx_SandboxID k (db_sandboxes d))"

definition sandbox_ListExpired :: "gotime \<Rightarrow> database \<Rightarrow> sandbox list" where
  "sandbox_ListExpired now d = filter
     (\<lambda>s. (case sbx_ExpiresAt s of None \<Rightarrow> False | Some t \<Rightarrow> time_le t now) \<and> sbx_State s \<noteq> SandboxDestroyed)
     (db_sandboxes d)"

section \<open>snapshots\<close>

definition saved_snapshot :: "snapshot \<Rightarrow> snapshot" where
  "saved_snapshot s = s\<lparr>snp_Metadata := meta_saved (snp_Metadata s)\<rparr>"

definition merged_snapshot :: "snapshot \<Rightarrow> snapshot \<Rightarrow> snapshot" where
  "merged_snapshot old s = old\<lparr>snp_BackendRef := snp_BackendRef s, snp_Label := snp_Label s,
     snp_State := snp_State s, snp_UpdatedAt := snp_UpdatedAt s, snp_ParentImageID := snp_ParentImageID s,
     snp_Publishable := snp_Publishable s, snp_ConsistencyMode := snp_ConsistencyMode s,
     snp_Metadata := meta_saved (snp_Metadata s)\<rparr>"

definition snapshot_clash :: "snapshot \<Rightarrow> snapshot \<Rightarrow> bool" where
  "snapshot_clash s t \<longleftrightarrow> snp_SnapshotID s = snp_SnapshotID t"

definition snapshot_Get :: "string \<Rightarrow> database \<Rightarrow> snapshot option" where
  "snapshot_Get k d = row_find snp_SnapshotID k (db_snapshots d)"

definition snapshot_Create :: "snapshot \<Rightarrow> database \<Rightarrow> database res" where
  "snapshot_Create s d = references (sandbox_Get (snp_SandboxID s) d \<noteq> None)
     (store_rows (\<lambda>rows. d\<lparr>db_snapshots := rows\<rparr>)
       (row_insert snapshot_clash (saved_snapshot s) (db_snapshots d)))"

definition snapshot_ListBySandbox :: "string \<Rightarrow> database \<Rightarrow> snapshot list" where
  "snapshot_ListBySandbox sid d = order_by (\<lambda>s t. time_le (snp_CreatedAt s) (snp_CreatedAt t))
     (filter (\<lambda>s. snp_SandboxID s = sid) (db_snapshots d))"

definition snapshot_Update :: "snapshot \<Rightarrow> database \<Rightarrow> database res" where
  "snapshot_Update s d = store_rows (\<lambda>rows. d\<lparr>db_snapshots := rows\<rparr>)
     (row_update snp_SnapshotID snapshot_clash (\<lambda>old. merged_snapshot old s) (snp_SnapshotID s) (db_snapshots d))"

definition snapshot_Delete :: "string \<Rightarrow> database \<Rightarrow> database res" where
  "snapshot_Delete k d = store_rows (\<lambda>rows. d\<lparr>db_snapshots := rows\<rparr>)
     (row_delete snp_SnapshotID k (db_snapshots d))"

text \<open>Snapshots of destroyed sandboxes that no image was promoted from.\<close>

definition snapshot_ListOrphaned :: "database \<Rightarrow> snapshot list" where
  "snapshot_ListOrphaned d = filter
     (\<lambda>s. (case sandbox_Get (snp_SandboxID s) d of None \<Rightarrow> False | Some b \<Rightarrow> sbx_State b = SandboxDestroyed) \<and>
          \<not> list_ex (\<lambda>i. img_SourceSnapshotID i \<noteq> [] \<and> img_SourceSnapshotID i = snp_SnapshotID s) (db_images d) \<and>
          snp_State s \<noteq> SnapshotDeleted)
     (db_snapshots d)"

section \<open>sessions\<close>

definition saved_session :: "session \<Rightarrow> session" where
  "saved_session s = s\<lparr>ses_IdleTimeout := map_option whole_seconds (ses_IdleTimeout s),
     ses_Metadata := meta_saved (ses_Metadata s)\<rparr>"

definition merged_session :: "session \<Rightarrow> session \<Rightarrow> session" where
  "merged_session old s = old\<lparr>ses_Backing := ses_Backing s, ses_Shell := ses_Shell s,
     ses_State := ses_State s, ses_UpdatedAt := ses_UpdatedAt s,
     ses_LastAttachedAt := ses_LastAttachedAt s,
     ses_IdleTimeout := map_option whole_seconds (ses_IdleTimeout s),
     ses_Metadata := meta_saved (ses_Metadata s)\<rparr>"

definition session_clash :: "session \<Rightarrow> session \<Rightarrow> bool" where
  "session_clash s t \<longleftrightarrow> ses_SessionID s = ses_SessionID t"

definition session_Get :: "string \<Rightarrow> database \<Rightarrow> session option" where
  "session_Get k d = row_find ses_SessionID k (db_sessions d)"

definition session_Create :: "session \<Rightarrow> database \<Rightarrow> database res" where
  "session_Create s d = references (sandbox_Get (ses_SandboxID s) d \<noteq> None)
     (store_rows (\<lambda>rows. d\<lparr>db_sessions := rows\<rparr>)
       (row_insert session_clash (saved_session s) (db_sessions d)))"

definition session_ListBySandbox :: "string \<Rightarrow> database \<Rightarrow> session list" where
  "session_ListBySandbox sid d = order_by (\<lambda>s t. time_le (ses_CreatedAt s) (ses_CreatedAt t))
     (filter (\<lambda>s. ses_SandboxID s = sid) (db_sessions d))"

definition session_Update :: "session \<Rightarrow> database \<Rightarrow> database res" where
  "session_Update s d = store_rows (\<lambda>rows. d\<lparr>db_sessions := rows\<rparr>)
     (row_update ses_SessionID session_clash (\<lambda>old. merged_session old s) (ses_SessionID s) (db_sessions d))"

definition session_Delete :: "string \<Rightarrow> database \<Rightarrow> database res" where
  "session_Delete k d = store_rows (\<lambda>rows. d\<lparr>db_sessions := rows\<rparr>)
     (row_delete ses_SessionID k (db_sessions d))"

section \<open>base images\<close>

definition saved_image :: "base_image \<Rightarrow> base_image" where
  "saved_image i = i\<lparr>img_Metadata := meta_saved (img_Metadata i)\<rparr>"

definition merged_image :: "base_image \<Rightarrow> base_image \<Rightarrow> base_image" where
  "merged_image old i = old\<lparr>img_ProjectScope := img_ProjectScope i, img_Name := img_Name i,
     img_Version := img_Version i, img_SourceType := img_SourceType i,
     img_SourceSnapshotID := img_SourceSnapshotID i, img_BackendRef := img_BackendRef i,
     img_Architecture := img_Architecture i, img_State := img_State i,
     img_Metadata := meta_saved (img_Metadata i)\<rparr>"

definition image_clash :: "base_image \<Rightarrow> base_image \<Rightarrow> bool" where
  "image_clash i j \<longleftrightarrow> img_ImageID i = img_ImageID j \<or>
     img_Name i = img_Name j \<and> img_Version i = img_Version j"

definition image_Get :: "string \<Rightarrow> database \<Rightarrow> base_image option" where
  "image_Get k d = row_find img_ImageID k (db_images d)"

definition image_Create :: "base_image \<Rightarrow> database \<Rightarrow> database res" where
  "image_Create i d = store_rows (\<lambda>rows. d\<lparr>db_images := rows\<rparr>)
     (row_insert image_clash (saved_image i) (db_images d))"

definition image_List :: "image_filter \<Rightarrow> database \<Rightarrow> base_image list" where
  "image_List f d = order_by
     (\<lambda>i j. if img_Name i = img_Name j then text_le (img_Version i) (img_Version j)
            else text_le (img_Name i) (img_Name j))
     (filter (\<lambda>i. (case if_Name f of None \<Rightarrow> True | Some n \<Rightarrow> img_Name i = n) \<and>
                  (case if_Architecture f of None \<Rightarrow> True | Some a \<Rightarrow> img_Architecture i = a) \<and>
                  (case if_State f of None \<Rightarrow> True | Some st \<Rightarrow> img_State i = st)) (db_images d))"

definition image_Update :: "base_image \<Rightarrow> database \<Rightarrow> database res" where
  "image_Update i d = store_rows (\<lambda>rows. d\<lparr>db_images := rows\<rparr>)
     (row_update img_ImageID image_clash (\<lambda>old. merged_image old i) (img_ImageID i) (db_images d))"

definition image_Delete :: "string \<Rightarrow> database \<Rightarrow> database res" where
  "image_Delete k d = store_rows (\<lambda>rows. d\<lparr>db_images := rows\<rparr>)
     (row_delete img_ImageID k (db_images d))"

section \<open>operations\<close>

definition saved_operation :: "operation \<Rightarrow> operation" where
  "saved_operation p = p\<lparr>op_Metadata := meta_saved (op_Metadata p)\<rparr>"

definition merged_operation :: "operation \<Rightarrow> operation \<Rightarrow> operation" where
  "merged_operation old p = old\<lparr>op_State := op_State p, op_FinishedAt := op_FinishedAt p,
     op_Error := op_Error p, op_Metadata := meta_saved (op_Metadata p)\<rparr>"

definition operation_clash :: "operation \<Rightarrow> operation \<Rightarrow> bool" where
  "operation_clash p q \<longleftrightarrow> op_OperationID p = op_OperationID q"

definition operation_Get :: "string \<Rightarrow> database \<Rightarrow> operation option" where
  "operation_Get k d = row_find op_OperationID k (db_operations d)"

definition operation_Create :: "operation \<Rightarrow> database \<Rightarrow> database res" where
  "operation_Create p d = store_rows (\<lambda>rows. d\<lparr>db_operations := rows\<rparr>)
     (row_insert operation_clash (saved_operation p) (db_operations d))"

definition operation_List :: "operation_filter \<Rightarrow> database \<Rightarrow> operation list" where
  "operation_List f d =
     (let found = order_by (\<lambda>p q. time_le (op_StartedAt q) (op_StartedAt p))
        (filter (\<lambda>p. (case of_ResourceType f of None \<Rightarrow> True | Some x \<Rightarrow> op_ResourceType p = x) \<and>
                     (case of_ResourceID f of None \<Rightarrow> True | Some x \<Rightarrow> op_ResourceID p = x) \<and>
                     (case of_SandboxID f of None \<Rightarrow> True | Some x \<Rightarrow> op_SandboxID p = x) \<and>
                     (case of_State f of None \<Rightarrow> True | Some x \<Rightarrow> op_State p = x)) (db_operations d))
      in if of_Limit f > 0 then take (nat (of_Limit f)) found else found)"

definition operation_Update :: "operation \<Rightarrow> database \<Rightarrow> database res" where
  "operation_Update p d = store_rows (\<lambda>rows. d\<lparr>db_operations := rows\<rparr>)
     (row_update op_OperationID operation_clash (\<lambda>old. merged_operation old p) (op_OperationID p) (db_operations d))"

definition operation_ListStale :: "gotime \<Rightarrow> database \<Rightarrow> operation list" where
  "operation_ListStale olderThan d = order_by
     (\<lambda>p q. case (op_FinishedAt p, op_FinishedAt q) of (Some a, Some b) \<Rightarrow> time_le a b | _ \<Rightarrow> True)
     (filter (\<lambda>p. op_Terminal (op_State p) \<and>
        (case op_FinishedAt p of None \<Rightarrow> False | Some t \<Rightarrow> time_le t olderThan)) (db_operations d))"

definition operation_ListByState :: "operation_state \<Rightarrow> database \<Rightarrow> operation list" where
  "operation_ListByState st d = order_by (\<lambda>p q. time_le (op_StartedAt p) (op_StartedAt q))
     (filter (\<lambda>p. op_State p = st) (db_operations d))"

section \<open>port bindings\<close>

definition port_clash :: "port_binding \<Rightarrow> port_binding \<Rightarrow> bool" where
  "port_clash p q \<longleftrightarrow> (pb_SandboxID p, pb_TargetPort p) = (pb_SandboxID q, pb_TargetPort q) \<or>
     pb_PublishedPort p = pb_PublishedPort q"

definition pb_key :: "port_binding \<Rightarrow> string \<times> int" where
  "pb_key p = (pb_SandboxID p, pb_TargetPort p)"

definition port_Create :: "port_binding \<Rightarrow> database \<Rightarrow> database res" where
  "port_Create p d = references (sandbox_Get (pb_SandboxID p) d \<noteq> None)
     (store_rows (\<lambda>rows. d\<lparr>db_ports := rows\<rparr>) (row_insert port_clash p (db_ports d)))"

definition port_ListBySandbox :: "string \<Rightarrow> database \<Rightarrow> port_binding list" where
  "port_ListBySandbox sid d = order_by (\<lambda>p q. pb_TargetPort p \<le> pb_TargetPort q)
     (filter (\<lambda>p. pb_SandboxID p = sid) (db_ports d))"

definition port_Delete :: "string \<Rightarrow> int \<Rightarrow> database \<Rightarrow> database res" where
  "port_Delete sid target d = store_rows (\<lambda>rows. d\<lparr>db_ports := rows\<rparr>)
     (row_delete pb_key (sid, target) (db_ports d))"

definition port_GetByPublishedPort :: "int \<Rightarrow> database \<Rightarrow> port_binding option" where
  "port_GetByPublishedPort n d = row_find pb_PublishedPort n (db_ports d)"

text \<open>
  The recursive query of \<open>NextAvailablePort\<close>: the first candidate is \<open>rangeStart\<close>, each
  row below \<open>rangeEnd\<close> adds the next one, and the first unused candidate is the answer.
\<close>

function next_candidate :: "int set \<Rightarrow> int \<Rightarrow> int \<Rightarrow> int option" where
  "next_candidate used port hi =
     (if port \<notin> used then Some port
      else if port < hi then next_candidate used (port + 1) hi else None)"
  by auto
termination by (relation "measure (\<lambda>(_, port, hi). nat (hi - port))") auto

declare next_candidate.simps [simp del]

definition port_NextAvailablePort :: "int \<Rightarrow> int \<Rightarrow> database \<Rightarrow> int res" where
  "port_NextAvailablePort rangeStart rangeEnd d =
     (case next_candidate (set (map pb_PublishedPort (db_ports d))) rangeStart rangeEnd of
        None \<Rightarrow> Inl (Sentinel ErrCapacityExceeded) | Some p \<Rightarrow> Inr p)"

section \<open>boosts\<close>

definition saved_boost :: "boost \<Rightarrow> boost" where
  "saved_boost b = (if bst_Source b = [] then b\<lparr>bst_Source := ''external''\<rparr> else b)"

definition boost_Get :: "string \<Rightarrow> database \<Rightarrow> boost option" where
  "boost_Get sid d = row_find bst_SandboxID sid (db_boosts d)"

definition boost_GetByID :: "string \<Rightarrow> database \<Rightarrow> boost option" where
  "boost_GetByID bid d = row_find bst_BoostID bid (db_boosts d)"

text \<open>
  \<open>INSERT ... ON CONFLICT(sandbox_id) DO UPDATE\<close>: a boost of the same sandbox is replaced in
  place; only the primary key can make the statement fail, and the reference to the sandbox.
\<close>

definition boost_Upsert :: "boost \<Rightarrow> database \<Rightarrow> database res" where
  "boost_Upsert b d = references (sandbox_Get (bst_SandboxID b) d \<noteq> None)
     (if list_ex (\<lambda>r. bst_BoostID r = bst_BoostID b \<and> bst_SandboxID r \<noteq> bst_SandboxID b) (db_boosts d)
      then Inl Conflict
      else Inr (d\<lparr>db_boosts :=
        (case boost_Get (bst_SandboxID b) d of
           None \<Rightarrow> db_boosts d @ [saved_boost b]
         | Some _ \<Rightarrow> upd_where (\<lambda>r. bst_SandboxID r = bst_SandboxID b) (\<lambda>_. saved_boost b) (db_boosts d))\<rparr>))"

definition boost_UpdateState :: "string \<Rightarrow> boost_state \<Rightarrow> int \<Rightarrow> goerr option \<Rightarrow> database \<Rightarrow> database res" where
  "boost_UpdateState bid st attempts lastErr d = store_rows (\<lambda>rows. d\<lparr>db_boosts := rows\<rparr>)
     (row_update bst_BoostID (\<lambda>_ _. False)
        (\<lambda>b. b\<lparr>bst_State := st, bst_RevertAttempts := attempts, bst_LastError := lastErr\<rparr>) bid (db_boosts d))"

definition boost_Delete :: "string \<Rightarrow> database \<Rightarrow> database res" where
  "boost_Delete bid d = store_rows (\<lambda>rows. d\<lparr>db_boosts := rows\<rparr>) (row_delete bst_BoostID bid (db_boosts d))"

definition boost_ListAll :: "database \<Rightarrow> boost list" where
  "boost_ListAll d = db_boosts d"

end
