(* ===== verification/Integrity.thy ===== *)
theory Integrity imports Database begin

text \<open>
  The integrity of the database: the primary keys, unique constraints and foreign keys of
  the schema as one predicate, the proof that every statement of the stores keeps it, and
  the interpretations of the entity-store interface on the six stores that provide it.
\<close>

section \<open>The constraints of the schema\<close>

definition unique :: "('r \<Rightarrow> 'u) \<Rightarrow> 'r list \<Rightarrow> bool" where
  "unique u rows = distinct (map u rows)"

definition refers :: "('r \<Rightarrow> 'k) \<Rightarrow> 'r list \<Rightarrow> ('p \<Rightarrow> 'k) \<Rightarrow> 'p list \<Rightarrow> bool" where
  "refers fk rows key parents \<longleftrightarrow> fk ` set rows \<subseteq> key ` set parents"

definition projects_ok :: "database \<Rightarrow> bool" where
  "projects_ok d \<longleftrightarrow> unique prj_ProjectID (db_projects d) \<and> unique prj_Name (db_projects d)"

definition sandboxes_ok :: "database \<Rightarrow> bool" where
  "sandboxes_ok d \<longleftrightarrow> unique sbx_SandboxID (db_sandboxes d) \<and>
     unique (\<lambda>s. (sbx_ProjectID s, sbx_Name s)) (db_sandboxes d) \<and>
     refers sbx_ProjectID (db_sandboxes d) prj_ProjectID (db_projects d)"

definition snapshots_ok :: "database \<Rightarrow> bool" where
  "snapshots_ok d \<longleftrightarrow> unique snp_SnapshotID (db_snapshots d) \<and>
     refers snp_SandboxID (db_snapshots d) sbx_SandboxID (db_sandboxes d)"

definition sessions_ok :: "database \<Rightarrow> bool" where
  "sessions_ok d \<longleftrightarrow> unique ses_SessionID (db_sessions d) \<and>
     refers ses_SandboxID (db_sessions d) sbx_SandboxID (db_sandboxes d)"

definition images_ok :: "database \<Rightarrow> bool" where
  "images_ok d \<longleftrightarrow> unique img_ImageID (db_images d) \<and> unique (\<lambda>i. (img_Name i, img_Version i)) (db_images d)"

definition operations_ok :: "database \<Rightarrow> bool" where
  "operations_ok d \<longleftrightarrow> unique op_OperationID (db_operations d)"

definition ports_ok :: "database \<Rightarrow> bool" where
  "ports_ok d \<longleftrightarrow> unique pb_key (db_ports d) \<and> unique pb_PublishedPort (db_ports d) \<and>
     refers pb_SandboxID (db_ports d) sbx_SandboxID (db_sandboxes d)"

definition boosts_ok :: "database \<Rightarrow> bool" where
  "boosts_ok d \<longleftrightarrow> unique bst_BoostID (db_boosts d) \<and> unique bst_SandboxID (db_boosts d) \<and>
     refers bst_SandboxID (db_boosts d) sbx_SandboxID (db_sandboxes d)"

definition db_ok :: "database \<Rightarrow> bool" where
  "db_ok d \<longleftrightarrow> projects_ok d \<and> sandboxes_ok d \<and> snapshots_ok d \<and> sessions_ok d \<and>
     images_ok d \<and> operations_ok d \<and> ports_ok d \<and> boosts_ok d"

lemmas table_ok = projects_ok_def sandboxes_ok_def snapshots_ok_def sessions_ok_def
  images_ok_def operations_ok_def ports_ok_def boosts_ok_def

lemma empty_db_ok: "db_ok empty_db"
  by (simp add: db_ok_def table_ok empty_db_def unique_def refers_def)

section \<open>Lemmas on constraints\<close>

lemma unique_insert:
  "unique u rows \<Longrightarrow> row_insert clash r rows = Inr rows' \<Longrightarrow> (\<And>x. u x = u r \<Longrightarrow> clash r x) \<Longrightarrow> unique u rows'"
  unfolding unique_def row_insert_Inr by (metis distinct_insert)

lemma unique_update:
  assumes "unique key rows" "unique u rows" "row_update key clash f k rows = Inr rows'"
    and "\<And>old x. u x = u (f old) \<Longrightarrow> clash (f old) x"
  shows "unique u rows'"
proof -
  obtain old where o: "row_find key k rows = Some old" "\<forall>r\<in>set rows. key r \<noteq> k \<longrightarrow> \<not> clash (f old) r"
    and r: "rows' = upd_where (\<lambda>r. key r = k) f rows"
    using assms(3) unfolding row_update_Inr by blast
  show ?thesis
    using distinct_update [where key = key and f = f and clash = clash, OF _ _ o] assms(1,2,4)
    by (auto simp: unique_def r)
qed

lemma map_update:
  "row_update key clash f k rows = Inr rows' \<Longrightarrow> (\<And>r. u (f r) = u r) \<Longrightarrow> map u rows' = map u rows"
  unfolding row_update_Inr by (auto intro: map_upd_where)

lemma unique_update_same:
  "row_update key clash f k rows = Inr rows' \<Longrightarrow> (\<And>r. u (f r) = u r) \<Longrightarrow> unique u rows' = unique u rows"
  using map_update [of key clash f k rows rows' u] by (simp add: unique_def)

lemma unique_filter [simp]: "unique u rows \<Longrightarrow> unique u (filter P rows)"
  unfolding unique_def by (rule distinct_map_filter)

lemma refers_filter_child: "refers fk rows key parents \<Longrightarrow> refers fk (filter P rows) key parents"
  by (auto simp: refers_def)

lemma refers_filter:
  "refers fk rows key parents \<Longrightarrow> (\<And>r p. r \<in> set rows \<Longrightarrow> P r \<Longrightarrow> p \<in> set parents \<Longrightarrow> key p = fk r \<Longrightarrow> Q p)
    \<Longrightarrow> refers fk (filter P rows) key (filter Q parents)"
  unfolding refers_def by fastforce

lemma refers_mono: "refers fk rows key parents \<Longrightarrow> key ` set parents \<subseteq> key ` set parents' \<Longrightarrow> refers fk rows key parents'"
  by (auto simp: refers_def)

lemma keys_update:
  "row_update key clash f k rows = Inr rows' \<Longrightarrow> (\<And>r. u (f r) = u r) \<Longrightarrow> u ` set rows' = u ` set rows"
  using map_update [of key clash f k rows rows' u] by (metis list.set_map)

lemma keys_insert: "row_insert clash r rows = Inr rows' \<Longrightarrow> u ` set rows' = insert (u r) (u ` set rows)"
  by (auto simp: row_insert_Inr)

lemma refers_found: "row_find key k parents \<noteq> None \<Longrightarrow> k \<in> key ` set parents"
  by (simp add: row_find_None)

lemma refers_eq: "fk ` set rows' = fk ` set rows \<Longrightarrow> key ` set ps' = key ` set ps \<Longrightarrow>
    refers fk rows' key ps' = refers fk rows key ps"
  by (simp add: refers_def)

lemma refers_insert:
  "refers fk rows key ps \<Longrightarrow> row_insert clash r rows = Inr rows' \<Longrightarrow> row_find key (fk r) ps \<noteq> None \<Longrightarrow>
    refers fk rows' key ps"
  using refers_found [of key "fk r" ps] keys_insert [of clash r rows rows' fk] by (auto simp: refers_def)

section \<open>Every statement keeps the integrity\<close>

lemma project_Create_ok: assumes "db_ok d" "project_Create p d = Inr d'" shows "db_ok d'"
proof -
  obtain rows where r: "row_insert project_clash (saved_project p) (db_projects d) = Inr rows"
    and d': "d' = d\<lparr>db_projects := rows\<rparr>"
    using assms(2) by (auto simp: project_Create_def)
  have "unique prj_ProjectID rows" "unique prj_Name rows"
    using assms(1) by (auto intro!: unique_insert [OF _ r] simp: db_ok_def table_ok project_clash_def)
  moreover have "refers sbx_ProjectID (db_sandboxes d) prj_ProjectID rows"
    using assms(1) keys_insert [OF r, of prj_ProjectID] by (auto simp: db_ok_def table_ok refers_def)
  ultimately show ?thesis using assms(1) by (simp add: db_ok_def table_ok d')
qed

lemma project_Update_ok: assumes "db_ok d" "project_Update p d = Inr d'" shows "db_ok d'"
proof -
  obtain rows where r: "row_update prj_ProjectID project_clash (\<lambda>old. merged_project old p) (prj_ProjectID p) (db_projects d) = Inr rows"
    and d': "d' = d\<lparr>db_projects := rows\<rparr>"
    using assms(2) by (auto simp: project_Update_def)
  have k: "\<And>old. prj_ProjectID (merged_project old p) = prj_ProjectID old" by (simp add: merged_project_def)
  have "unique prj_ProjectID rows"
    using unique_update_same [where u = prj_ProjectID, OF r k] assms(1) by (simp add: db_ok_def table_ok)
  moreover have "unique prj_Name rows"
    by (rule unique_update [OF _ _ r]) (use assms(1) in \<open>auto simp: db_ok_def table_ok project_clash_def\<close>)
  moreover have "refers sbx_ProjectID (db_sandboxes d) prj_ProjectID rows"
    using assms(1) keys_update [where u = prj_ProjectID, OF r k] by (auto simp: db_ok_def table_ok refers_def)
  ultimately show ?thesis using assms(1) by (simp add: db_ok_def table_ok d')
qed

lemma cascade_simps [simp]:
  "db_projects (cascade g d) = db_projects d" "db_sandboxes (cascade g d) = db_sandboxes d"
  "db_images (cascade g d) = db_images d" "db_operations (cascade g d) = db_operations d"
  by (simp_all add: cascade_def)

text \<open>Removing sandboxes and cascading over their ids.\<close>

lemma cascade_ok:
  assumes "db_ok d" and gone: "\<And>s. s \<in> set (db_sandboxes d) \<Longrightarrow> \<not> P s \<Longrightarrow> sbx_SandboxID s \<in> set gone"
  shows "snapshots_ok (cascade gone (d\<lparr>db_sandboxes := filter P (db_sandboxes d)\<rparr>))"
    and "sessions_ok (cascade gone (d\<lparr>db_sandboxes := filter P (db_sandboxes d)\<rparr>))"
    and "ports_ok (cascade gone (d\<lparr>db_sandboxes := filter P (db_sandboxes d)\<rparr>))"
    and "boosts_ok (cascade gone (d\<lparr>db_sandboxes := filter P (db_sandboxes d)\<rparr>))"
  using assms(1) gone
  by (auto simp: db_ok_def table_ok cascade_def intro!: refers_filter; metis)+

lemma project_Delete_ok: assumes "db_ok d" "project_Delete k d = Inr d'" shows "db_ok d'"
proof -
  let ?gone = "map sbx_SandboxID (filter (\<lambda>r. sbx_ProjectID r = k) (db_sandboxes d))"
  let ?s = "d\<lparr>db_sandboxes := filter (\<lambda>r. sbx_ProjectID r \<noteq> k) (db_sandboxes d)\<rparr>"
  let ?p = "filter (\<lambda>r. prj_ProjectID r \<noteq> k) (db_projects d)"
  have d': "d' = (cascade ?gone ?s)\<lparr>db_projects := ?p\<rparr>"
    using assms(2) by (auto simp: project_Delete_def row_delete_Inr cascade_def)
  note c = cascade_ok [OF assms(1), of "\<lambda>r. sbx_ProjectID r \<noteq> k" ?gone]
  have "refers sbx_ProjectID (db_sandboxes ?s) prj_ProjectID ?p"
    using assms(1) by (auto intro!: refers_filter simp: db_ok_def table_ok)
  moreover have "snapshots_ok d'" "sessions_ok d'" "ports_ok d'" "boosts_ok d'"
    using c by (simp_all add: d' table_ok)
  ultimately show ?thesis using assms(1) by (simp add: db_ok_def table_ok d')
qed

lemma sandbox_Create_ok: assumes "db_ok d" "sandbox_Create s d = Inr d'" shows "db_ok d'"
proof -
  obtain rows where r: "row_insert sandbox_clash (saved_sandbox s) (db_sandboxes d) = Inr rows"
    and p: "project_Get (sbx_ProjectID s) d \<noteq> None" and d': "d' = d\<lparr>db_sandboxes := rows\<rparr>"
    using assms(2) by (auto simp: sandbox_Create_def)
  have "unique sbx_SandboxID rows" "unique (\<lambda>s. (sbx_ProjectID s, sbx_Name s)) rows"
    using assms(1) by (auto intro!: unique_insert [OF _ r] simp: db_ok_def table_ok sandbox_clash_def)
  moreover have "refers sbx_ProjectID rows prj_ProjectID (db_projects d)"
    by (rule refers_insert [OF _ r])
      (use assms(1) p in \<open>auto simp: db_ok_def table_ok project_Get_def saved_sandbox_def\<close>)
  moreover have "sbx_SandboxID ` set (db_sandboxes d) \<subseteq> sbx_SandboxID ` set rows"
    using keys_insert [OF r, of sbx_SandboxID] by auto
  ultimately show ?thesis using assms(1) by (auto simp: db_ok_def table_ok d' intro: refers_mono)
qed

lemma sandbox_Update_ok: assumes "db_ok d" "sandbox_Update s d = Inr d'" shows "db_ok d'"
proof -
  obtain rows where r: "row_update sbx_SandboxID sandbox_clash (\<lambda>old. merged_sandbox old s) (sbx_SandboxID s) (db_sandboxes d) = Inr rows"
    and d': "d' = d\<lparr>db_sandboxes := rows\<rparr>"
    using assms(2) by (auto simp: sandbox_Update_def)
  have k: "\<And>old. sbx_SandboxID (merged_sandbox old s) = sbx_SandboxID old"
    "\<And>old. sbx_ProjectID (merged_sandbox old s) = sbx_ProjectID old" by (simp_all add: merged_sandbox_def)
  have "unique sbx_SandboxID rows"
    using unique_update_same [where u = sbx_SandboxID, OF r k(1)] assms(1) by (simp add: db_ok_def table_ok)
  moreover have "unique (\<lambda>s. (sbx_ProjectID s, sbx_Name s)) rows"
    by (rule unique_update [OF _ _ r]) (use assms(1) in \<open>auto simp: db_ok_def table_ok sandbox_clash_def\<close>)
  ultimately show ?thesis
    using assms(1) keys_update [where u = sbx_SandboxID, OF r k(1)] keys_update [where u = sbx_ProjectID, OF r k(2)]
    by (simp add: db_ok_def table_ok d' refers_def)
qed

lemma sandbox_Delete_ok: assumes "db_ok d" "sandbox_Delete k d = Inr d'" shows "db_ok d'"
proof -
  let ?s = "d\<lparr>db_sandboxes := filter (\<lambda>r. sbx_SandboxID r \<noteq> k) (db_sandboxes d)\<rparr>"
  have d': "d' = cascade [k] ?s"
    using assms(2) by (auto simp: sandbox_Delete_def row_delete_Inr)
  note c = cascade_ok [OF assms(1), of "\<lambda>r. sbx_SandboxID r \<noteq> k" "[k]"]
  have "snapshots_ok d'" "sessions_ok d'" "ports_ok d'" "boosts_ok d'"
    using c by (simp_all add: d')
  then show ?thesis using assms(1) by (simp add: db_ok_def table_ok d' refers_filter_child)
qed

lemma snapshot_Create_ok: assumes "db_ok d" "snapshot_Create s d = Inr d'" shows "db_ok d'"
proof -
  obtain rows where r: "row_insert snapshot_clash (saved_snapshot s) (db_snapshots d) = Inr rows"
    and p: "sandbox_Get (snp_SandboxID s) d \<noteq> None" and d': "d' = d\<lparr>db_snapshots := rows\<rparr>"
    using assms(2) by (auto simp: snapshot_Create_def)
  have "unique snp_SnapshotID rows"
    using assms(1) by (auto intro!: unique_insert [OF _ r] simp: db_ok_def table_ok snapshot_clash_def)
  moreover have "refers snp_SandboxID rows sbx_SandboxID (db_sandboxes d)"
    by (rule refers_insert [OF _ r])
      (use assms(1) p in \<open>auto simp: db_ok_def table_ok sandbox_Get_def saved_snapshot_def\<close>)
  ultimately show ?thesis using assms(1) by (auto simp: db_ok_def table_ok d')
qed

lemma snapshot_Update_ok: assumes "db_ok d" "snapshot_Update s d = Inr d'" shows "db_ok d'"
proof -
  obtain rows where r: "row_update snp_SnapshotID snapshot_clash (\<lambda>old. merged_snapshot old s) (snp_SnapshotID s) (db_snapshots d) = Inr rows"
    and d': "d' = d\<lparr>db_snapshots := rows\<rparr>"
    using assms(2) by (auto simp: snapshot_Update_def)
  have k: "\<And>old. snp_SnapshotID (merged_snapshot old s) = snp_SnapshotID old"
    "\<And>old. snp_SandboxID (merged_snapshot old s) = snp_SandboxID old" by (simp_all add: merged_snapshot_def)
  show ?thesis
    using assms(1) unique_update_same [where u = snp_SnapshotID, OF r k(1)] keys_update [where u = snp_SandboxID, OF r k(2)]
    by (simp add: db_ok_def table_ok d' refers_def)
qed

lemma snapshot_Delete_ok: assumes "db_ok d" "snapshot_Delete k d = Inr d'" shows "db_ok d'"
  using assms by (auto simp: snapshot_Delete_def row_delete_Inr db_ok_def table_ok refers_filter_child)

lemma session_Create_ok: assumes "db_ok d" "session_Create s d = Inr d'" shows "db_ok d'"
proof -
  obtain rows where r: "row_insert session_clash (saved_session s) (db_sessions d) = Inr rows"
    and p: "sandbox_Get (ses_SandboxID s) d \<noteq> None" and d': "d' = d\<lparr>db_sessions := rows\<rparr>"
    using assms(2) by (auto simp: session_Create_def)
  have "unique ses_SessionID rows"
    using assms(1) by (auto intro!: unique_insert [OF _ r] simp: db_ok_def table_ok session_clash_def)
  moreover have "refers ses_SandboxID rows sbx_SandboxID (db_sandboxes d)"
    by (rule refers_insert [OF _ r])
      (use assms(1) p in \<open>auto simp: db_ok_def table_ok sandbox_Get_def saved_session_def\<close>)
  ultimately show ?thesis using assms(1) by (auto simp: db_ok_def table_ok d')
qed

lemma session_Update_ok: assumes "db_ok d" "session_Update s d = Inr d'" shows "db_ok d'"
proof -
  obtain rows where r: "row_update ses_SessionID session_clash (\<lambda>old. merged_session old s) (ses_SessionID s) (db_sessions d) = Inr rows"
    and d': "d' = d\<lparr>db_sessions := rows\<rparr>"
    using assms(2) by (auto simp: session_Update_def)
  have k: "\<And>old. ses_SessionID (merged_session old s) = ses_SessionID old"
    "\<And>old. ses_SandboxID (merged_session old s) = ses_SandboxID old" by (simp_all add: merged_session_def)
  show ?thesis
    using assms(1) unique_update_same [where u = ses_SessionID, OF r k(1)] keys_update [where u = ses_SandboxID, OF r k(2)]
    by (simp add: db_ok_def table_ok d' refers_def)
qed

lemma session_Delete_ok: assumes "db_ok d" "session_Delete k d = Inr d'" shows "db_ok d'"
  using assms by (auto simp: session_Delete_def row_delete_Inr db_ok_def table_ok refers_filter_child)

lemma image_Create_ok: assumes "db_ok d" "image_Create i d = Inr d'" shows "db_ok d'"
proof -
  obtain rows where r: "row_insert image_clash (saved_image i) (db_images d) = Inr rows"
    and d': "d' = d\<lparr>db_images := rows\<rparr>"
    using assms(2) by (auto simp: image_Create_def)
  have "unique img_ImageID rows" "unique (\<lambda>i. (img_Name i, img_Version i)) rows"
    using assms(1) by (auto intro!: unique_insert [OF _ r] simp: db_ok_def table_ok image_clash_def)
  then show ?thesis using assms(1) by (auto simp: db_ok_def table_ok d')
qed

lemma image_Update_ok: assumes "db_ok d" "image_Update i d = Inr d'" shows "db_ok d'"
proof -
  obtain rows where r: "row_update img_ImageID image_clash (\<lambda>old. merged_image old i) (img_ImageID i) (db_images d) = Inr rows"
    and d': "d' = d\<lparr>db_images := rows\<rparr>"
    using assms(2) by (auto simp: image_Update_def)
  have k: "\<And>old. img_ImageID (merged_image old i) = img_ImageID old" by (simp add: merged_image_def)
  have "unique (\<lambda>i. (img_Name i, img_Version i)) rows"
    by (rule unique_update [OF _ _ r]) (use assms(1) in \<open>auto simp: db_ok_def table_ok image_clash_def\<close>)
  then show ?thesis using assms(1) unique_update_same [where u = img_ImageID, OF r k] by (simp add: db_ok_def table_ok d')
qed

lemma image_Delete_ok: assumes "db_ok d" "image_Delete k d = Inr d'" shows "db_ok d'"
  using assms by (auto simp: image_Delete_def row_delete_Inr db_ok_def table_ok)

lemma operation_Create_ok: assumes "db_ok d" "operation_Create p d = Inr d'" shows "db_ok d'"
  using assms unique_insert [where u = op_OperationID and rows = "db_operations d" and clash = operation_clash]
  by (auto simp: operation_Create_def db_ok_def table_ok operation_clash_def)

lemma operation_Update_ok: assumes "db_ok d" "operation_Update p d = Inr d'" shows "db_ok d'"
proof -
  have k: "\<And>old. op_OperationID (merged_operation old p) = op_OperationID old" by (simp add: merged_operation_def)
  show ?thesis using assms
    by (auto simp: operation_Update_def db_ok_def table_ok unique_update_same [where u = op_OperationID, OF _ k])
qed

lemma port_Create_ok: assumes "db_ok d" "port_Create p d = Inr d'" shows "db_ok d'"
proof -
  obtain rows where r: "row_insert port_clash p (db_ports d) = Inr rows"
    and p: "sandbox_Get (pb_SandboxID p) d \<noteq> None" and d': "d' = d\<lparr>db_ports := rows\<rparr>"
    using assms(2) by (auto simp: port_Create_def)
  have "unique pb_key rows" "unique pb_PublishedPort rows"
    using assms(1) by (auto intro!: unique_insert [OF _ r] simp: db_ok_def table_ok port_clash_def pb_key_def)
  moreover have "refers pb_SandboxID rows sbx_SandboxID (db_sandboxes d)"
    by (rule refers_insert [OF _ r]) (use assms(1) p in \<open>auto simp: db_ok_def table_ok sandbox_Get_def\<close>)
  ultimately show ?thesis using assms(1) by (auto simp: db_ok_def table_ok d')
qed

lemma port_Delete_ok: assumes "db_ok d" "port_Delete sid t d = Inr d'" shows "db_ok d'"
  using assms by (auto simp: port_Delete_def row_delete_Inr db_ok_def table_ok refers_filter_child)

lemma saved_boost_simps [simp]:
  "bst_BoostID (saved_boost b) = bst_BoostID b" "bst_SandboxID (saved_boost b) = bst_SandboxID b"
  "bst_State (saved_boost b) = bst_State b" "bst_ExpiresAt (saved_boost b) = bst_ExpiresAt b"
  "bst_OriginalCPULimit (saved_boost b) = bst_OriginalCPULimit b"
  "bst_OriginalMemoryLimitMB (saved_boost b) = bst_OriginalMemoryLimitMB b"
  "bst_RevertAttempts (saved_boost b) = bst_RevertAttempts b"
  by (simp_all add: saved_boost_def)

text \<open>Upsert as an update of the sandbox's row, or as an insertion.\<close>

lemma boost_Upsert_cases:
  assumes "boost_Upsert b d = Inr d'"
  obtains (fresh) rows where "row_insert (\<lambda>x y. bst_BoostID x = bst_BoostID y \<or> bst_SandboxID x = bst_SandboxID y)
              (saved_boost b) (db_boosts d) = Inr rows" "d' = d\<lparr>db_boosts := rows\<rparr>"
              "sandbox_Get (bst_SandboxID b) d \<noteq> None" "boost_Get (bst_SandboxID b) d = None"
  | (replace) rows where "row_update bst_SandboxID (\<lambda>x y. bst_BoostID x = bst_BoostID y)
              (\<lambda>_. saved_boost b) (bst_SandboxID b) (db_boosts d) = Inr rows" "d' = d\<lparr>db_boosts := rows\<rparr>"
              "sandbox_Get (bst_SandboxID b) d \<noteq> None"
proof (cases "boost_Get (bst_SandboxID b) d")
  case None
  then have "\<forall>x\<in>set (db_boosts d). bst_SandboxID x \<noteq> bst_SandboxID b"
    unfolding boost_Get_def row_find_None by (metis imageI)
  then show ?thesis
    using assms None
    by (intro fresh) (auto simp: boost_Upsert_def row_insert_Inr list_ex_iff split: if_splits)
next
  case (Some old)
  then show ?thesis
    using assms by (intro replace) (auto simp: boost_Upsert_def boost_Get_def row_update_Inr list_ex_iff split: if_splits)
qed

lemma boost_Upsert_ok: assumes "db_ok d" "boost_Upsert b d = Inr d'" shows "db_ok d'"
  using assms(2)
proof (cases rule: boost_Upsert_cases)
  case (fresh rows)
  have "unique bst_BoostID rows" "unique bst_SandboxID rows"
    using assms(1) by (auto intro!: unique_insert [OF _ fresh(1)] simp: db_ok_def table_ok)
  moreover have "refers bst_SandboxID rows sbx_SandboxID (db_sandboxes d)"
    by (rule refers_insert [OF _ fresh(1)])
      (use assms(1) fresh(3) in \<open>auto simp: db_ok_def table_ok sandbox_Get_def\<close>)
  ultimately show ?thesis using assms(1) by (simp add: db_ok_def table_ok fresh(2))
next
  case (replace rows)
  have "unique bst_BoostID rows"
    by (rule unique_update [OF _ _ replace(1)]) (use assms(1) in \<open>auto simp: db_ok_def table_ok\<close>)
  moreover have s: "map bst_SandboxID rows = map bst_SandboxID (db_boosts d)"
    using replace(1) by (auto simp: row_update_Inr intro!: map_upd_where)
  moreover have "bst_SandboxID ` set rows = bst_SandboxID ` set (db_boosts d)"
    using arg_cong [OF s, of set] by simp
  ultimately show ?thesis using assms(1) by (simp add: db_ok_def table_ok replace(2) unique_def refers_def)
qed

lemma boost_UpdateState_ok: assumes "db_ok d" "boost_UpdateState bid st n e d = Inr d'" shows "db_ok d'"
proof -
  let ?f = "\<lambda>b. b\<lparr>bst_State := st, bst_RevertAttempts := n, bst_LastError := e\<rparr>"
  obtain rows where r: "row_update bst_BoostID (\<lambda>_ _. False) ?f bid (db_boosts d) = Inr rows"
    and d': "d' = d\<lparr>db_boosts := rows\<rparr>"
    using assms(2) by (auto simp: boost_UpdateState_def)
  have k: "\<And>b. bst_BoostID (?f b) = bst_BoostID b" "\<And>b. bst_SandboxID (?f b) = bst_SandboxID b" by simp_all
  show ?thesis
    using assms(1) unique_update_same [where u = bst_BoostID, OF r k(1)] unique_update_same [where u = bst_SandboxID, OF r k(2)] keys_update [where u = bst_SandboxID, OF r k(2)]
    by (simp add: db_ok_def table_ok d' refers_def)
qed

lemma boost_Delete_ok: assumes "db_ok d" "boost_Delete bid d = Inr d'" shows "db_ok d'"
  using assms by (auto simp: boost_Delete_def row_delete_Inr db_ok_def table_ok refers_filter_child)

lemmas stores_ok = project_Create_ok project_Update_ok project_Delete_ok
  sandbox_Create_ok sandbox_Update_ok sandbox_Delete_ok
  snapshot_Create_ok snapshot_Update_ok snapshot_Delete_ok
  session_Create_ok session_Update_ok session_Delete_ok
  image_Create_ok image_Update_ok image_Delete_ok
  operation_Create_ok operation_Update_ok port_Create_ok port_Delete_ok
  boost_Upsert_ok boost_UpdateState_ok boost_Delete_ok

section \<open>The entity stores\<close>

lemmas store_defs = project_Get_def project_Create_def project_Update_def project_Delete_def
  sandbox_Get_def sandbox_Create_def sandbox_Update_def sandbox_Delete_def
  snapshot_Get_def snapshot_Create_def snapshot_Update_def snapshot_Delete_def
  session_Get_def session_Create_def session_Update_def session_Delete_def
  image_Get_def image_Create_def image_Update_def image_Delete_def
  operation_Get_def operation_Create_def operation_Update_def

lemmas row_defs = saved_project_def merged_project_def project_clash_def
  saved_sandbox_def merged_sandbox_def sandbox_clash_def
  saved_snapshot_def merged_snapshot_def snapshot_clash_def
  saved_session_def merged_session_def session_clash_def
  saved_image_def merged_image_def image_clash_def
  saved_operation_def merged_operation_def operation_clash_def

text \<open>A store kept as one table of the database provides the interface.\<close>

lemma row_storeI:
  assumes look: "\<And>k d. look k d = row_find key k (tbl d)"
    and add: "\<And>r d d'. add r d = Inr d' \<Longrightarrow> row_insert clash (saved r) (tbl d) = Inr (tbl d')"
    and put: "\<And>r d. put r d = store_rows (\<lambda>rows. upd rows d) (row_update key clash (\<lambda>old. merged old r) (key r) (tbl d))"
    and tbl: "\<And>rows d. tbl (upd rows d) = rows"
    and key: "\<And>r. key (saved r) = key r" "\<And>old r. key (merged old r) = key old"
    and clash: "\<And>r x. key x = key r \<Longrightarrow> clash r x"
    and merged: "\<And>old r r'. merged (merged old r) r' = merged old r'"
    and ok: "\<And>d r d'. ok d \<Longrightarrow> add r d = Inr d' \<Longrightarrow> ok d'" "\<And>d r d'. ok d \<Longrightarrow> put r d = Inr d' \<Longrightarrow> ok d'"
  shows "row_store look add put key saved merged ok"
proof
  fix k r d d' assume "look k d = Some r"
  then show "key r = k" using row_find_Some by (metis look)
next
  fix r d d' assume "add r d = Inr d'"
  from add [OF this] have "\<forall>x\<in>set (tbl d). key x \<noteq> key r"
    using clash [where r = "saved r"] by (auto simp: row_insert_Inr key)
  then show fresh: "look (key r) d = None" by (auto simp: look row_find_None)
  fix k show "look k d' = (if k = key r then Some (saved r) else look k d)"
    using add [OF \<open>add r d = Inr d'\<close>] fresh by (auto simp: look row_insert_Inr key split: option.splits)
next
  fix r d assume "look (key r) d = None"
  then show "put r d = Inl NotFound" by (simp add: put look row_update_def)
next
  fix r d d' k assume "put r d = Inr d'"
  then have "tbl d' = upd_where (\<lambda>x. key x = key r) (\<lambda>old. merged old r) (tbl d)"
    by (auto simp: put row_update_Inr tbl)
  then show "look k d' = (if k = key r then map_option (\<lambda>old. merged old r) (look k d) else look k d)"
    by (simp add: look key)
qed (use merged ok in blast)+

lemma row_store_deleteI:
  assumes "row_store look add put key saved merged ok"
    and look: "\<And>k d. look k d = row_find key k (tbl d)"
    and del: "\<And>k d. del k d = store_rows (\<lambda>rows. upd rows k d) (row_delete key k (tbl d))"
    and tbl: "\<And>rows k d. tbl (upd rows k d) = rows"
    and ok: "\<And>d k d'. ok d \<Longrightarrow> del k d = Inr d' \<Longrightarrow> ok d'"
  shows "row_store_delete look add put key saved merged ok del"
proof (rule row_store_delete.intro [OF assms(1) row_store_delete_axioms.intro])
  fix k d d' assume "ok d" "del k d = Inr d'"
  then show "ok d'" by (rule ok)
qed (auto simp: look del tbl row_delete_def store_rows_def split: option.splits)

lemma project_row_store:
  "row_store project_Get project_Create project_Update prj_ProjectID saved_project merged_project db_ok"
proof (rule row_storeI [where tbl = db_projects and clash = project_clash and upd = "\<lambda>rows d. d\<lparr>db_projects := rows\<rparr>"])
  show "\<And>d r d'. db_ok d \<Longrightarrow> project_Create r d = Inr d' \<Longrightarrow> db_ok d'" by (rule project_Create_ok)
  show "\<And>d r d'. db_ok d \<Longrightarrow> project_Update r d = Inr d' \<Longrightarrow> db_ok d'" by (rule project_Update_ok)
qed (auto simp: store_defs row_defs)

interpretation projs: row_store_delete project_Get project_Create project_Update prj_ProjectID
  saved_project merged_project db_ok project_Delete
proof (rule row_store_deleteI [OF project_row_store, where tbl = db_projects and upd = "\<lambda>rows k d. cascade (map sbx_SandboxID (filter (\<lambda>r. sbx_ProjectID r = k) (db_sandboxes d)))
        (d\<lparr>db_projects := rows, db_sandboxes := filter (\<lambda>r. sbx_ProjectID r \<noteq> k) (db_sandboxes d)\<rparr>)"])
  show "\<And>d k d'. db_ok d \<Longrightarrow> project_Delete k d = Inr d' \<Longrightarrow> db_ok d'" by (rule project_Delete_ok)
qed (simp_all add: store_defs)

lemma sandbox_row_store:
  "row_store sandbox_Get sandbox_Create sandbox_Update sbx_SandboxID saved_sandbox merged_sandbox db_ok"
proof (rule row_storeI [where tbl = db_sandboxes and clash = sandbox_clash and upd = "\<lambda>rows d. d\<lparr>db_sandboxes := rows\<rparr>"])
  show "\<And>d r d'. db_ok d \<Longrightarrow> sandbox_Create r d = Inr d' \<Longrightarrow> db_ok d'" by (rule sandbox_Create_ok)
  show "\<And>d r d'. db_ok d \<Longrightarrow> sandbox_Update r d = Inr d' \<Longrightarrow> db_ok d'" by (rule sandbox_Update_ok)
qed (auto simp: store_defs row_defs)

interpretation sboxes: row_store_delete sandbox_Get sandbox_Create sandbox_Update sbx_SandboxID
  saved_sandbox merged_sandbox db_ok sandbox_Delete
proof (rule row_store_deleteI [OF sandbox_row_store, where tbl = db_sandboxes and upd = "\<lambda>rows k d. cascade [k] (d\<lparr>db_sandboxes := rows\<rparr>)"])
  show "\<And>d k d'. db_ok d \<Longrightarrow> sandbox_Delete k d = Inr d' \<Longrightarrow> db_ok d'" by (rule sandbox_Delete_ok)
qed (simp_all add: store_defs)

lemma snapshot_row_store:
  "row_store snapshot_Get snapshot_Create snapshot_Update snp_SnapshotID saved_snapshot merged_snapshot db_ok"
proof (rule row_storeI [where tbl = db_snapshots and clash = snapshot_clash and upd = "\<lambda>rows d. d\<lparr>db_snapshots := rows\<rparr>"])
  show "\<And>d r d'. db_ok d \<Longrightarrow> snapshot_Create r d = Inr d' \<Longrightarrow> db_ok d'" by (rule snapshot_Create_ok)
  show "\<And>d r d'. db_ok d \<Longrightarrow> snapshot_Update r d = Inr d' \<Longrightarrow> db_ok d'" by (rule snapshot_Update_ok)
qed (auto simp: store_defs row_defs)

interpretation snaps: row_store_delete snapshot_Get snapshot_Create snapshot_Update snp_SnapshotID
  saved_snapshot merged_snapshot db_ok snapshot_Delete
proof (rule row_store_deleteI [OF snapshot_row_store, where tbl = db_snapshots and upd = "\<lambda>rows k d. d\<lparr>db_snapshots := rows\<rparr>"])
  show "\<And>d k d'. db_ok d \<Longrightarrow> snapshot_Delete k d = Inr d' \<Longrightarrow> db_ok d'" by (rule snapshot_Delete_ok)
qed (simp_all add: store_defs)

lemma session_row_store:
  "row_store session_Get session_Create session_Update ses_SessionID saved_session merged_session db_ok"
proof (rule row_storeI [where tbl = db_sessions and clash = session_clash and upd = "\<lambda>rows d. d\<lparr>db_sessions := rows\<rparr>"])
  show "\<And>d r d'. db_ok d \<Longrightarrow> session_Create r d = Inr d' \<Longrightarrow> db_ok d'" by (rule session_Create_ok)
  show "\<And>d r d'. db_ok d \<Longrightarrow> session_Update r d = Inr d' \<Longrightarrow> db_ok d'" by (rule session_Update_ok)
qed (auto simp: store_defs row_defs)

interpretation sesss: row_store_delete session_Get session_Create session_Update ses_SessionID
  saved_session merged_session db_ok session_Delete
proof (rule row_store_deleteI [OF session_row_store, where tbl = db_sessions and upd = "\<lambda>rows k d. d\<lparr>db_sessions := rows\<rparr>"])
  show "\<And>d k d'. db_ok d \<Longrightarrow> session_Delete k d = Inr d' \<Longrightarrow> db_ok d'" by (rule session_Delete_ok)
qed (simp_all add: store_defs)

lemma image_row_store:
  "row_store image_Get image_Create image_Update img_ImageID saved_image merged_image db_ok"
proof (rule row_storeI [where tbl = db_images and clash = image_clash and upd = "\<lambda>rows d. d\<lparr>db_images := rows\<rparr>"])
  show "\<And>d r d'. db_ok d \<Longrightarrow> image_Create r d = Inr d' \<Longrightarrow> db_ok d'" by (rule image_Create_ok)
  show "\<And>d r d'. db_ok d \<Longrightarrow> image_Update r d = Inr d' \<Longrightarrow> db_ok d'" by (rule image_Update_ok)
qed (auto simp: store_defs row_defs)

interpretation imgs: row_store_delete image_Get image_Create image_Update img_ImageID
  saved_image merged_image db_ok image_Delete
proof (rule row_store_deleteI [OF image_row_store, where tbl = db_images and upd = "\<lambda>rows k d. d\<lparr>db_images := rows\<rparr>"])
  show "\<And>d k d'. db_ok d \<Longrightarrow> image_Delete k d = Inr d' \<Longrightarrow> db_ok d'" by (rule image_Delete_ok)
qed (simp_all add: store_defs)

interpretation opers: row_store operation_Get operation_Create operation_Update op_OperationID
  saved_operation merged_operation db_ok
proof (rule row_storeI [where tbl = db_operations and clash = operation_clash and upd = "\<lambda>rows d. d\<lparr>db_operations := rows\<rparr>"])
  show "\<And>d r d'. db_ok d \<Longrightarrow> operation_Create r d = Inr d' \<Longrightarrow> db_ok d'" by (rule operation_Create_ok)
  show "\<And>d r d'. db_ok d \<Longrightarrow> operation_Update r d = Inr d' \<Longrightarrow> db_ok d'" by (rule operation_Update_ok)
qed (auto simp: store_defs row_defs)

section \<open>Updates that cannot fail\<close>

text \<open>An update of an existing sandbox that keeps its name succeeds, and what it leaves.\<close>

definition put_sandbox :: "sandbox \<Rightarrow> database \<Rightarrow> database" where
  "put_sandbox s d = d\<lparr>db_sandboxes :=
     upd_where (\<lambda>r. sbx_SandboxID r = sbx_SandboxID s) (\<lambda>old. merged_sandbox old s) (db_sandboxes d)\<rparr>"

lemma put_sandbox_simps [simp]:
  "db_projects (put_sandbox s d) = db_projects d" "db_snapshots (put_sandbox s d) = db_snapshots d"
  "db_sessions (put_sandbox s d) = db_sessions d" "db_images (put_sandbox s d) = db_images d"
  "db_operations (put_sandbox s d) = db_operations d" "db_ports (put_sandbox s d) = db_ports d"
  "db_boosts (put_sandbox s d) = db_boosts d"
  by (simp_all add: put_sandbox_def)

lemma sandbox_Get_put [simp]:
  "sandbox_Get k (put_sandbox s d) =
     (if k = sbx_SandboxID s then map_option (\<lambda>old. merged_sandbox old s) (sandbox_Get k d) else sandbox_Get k d)"
  by (simp add: sandbox_Get_def put_sandbox_def merged_sandbox_def)

lemma sandbox_Get_id: "sandbox_Get k d = Some s \<Longrightarrow> sbx_SandboxID s = k"
  by (rule sboxes.look_key)

lemma sandbox_Update_put:
  assumes "db_ok d" "sandbox_Get (sbx_SandboxID s) d = Some old" "sbx_Name s = sbx_Name old"
  shows "sandbox_Update s d = Inr (put_sandbox s d)"
proof -
  have old: "row_find sbx_SandboxID (sbx_SandboxID s) (db_sandboxes d) = Some old"
    using assms(2) by (simp add: sandbox_Get_def)
  note in_old = row_find_Some [OF old]
  have "\<not> sandbox_clash (merged_sandbox old s) r"
    if "r \<in> set (db_sandboxes d)" "sbx_SandboxID r \<noteq> sbx_SandboxID s" for r
  proof -
    have "unique (\<lambda>s. (sbx_ProjectID s, sbx_Name s)) (db_sandboxes d)"
      using assms(1) by (simp add: db_ok_def table_ok)
    then have "(sbx_ProjectID r, sbx_Name r) \<noteq> (sbx_ProjectID old, sbx_Name old)"
      using distinct_map_key [where k = "\<lambda>s. (sbx_ProjectID s, sbx_Name s)" and xs = "db_sandboxes d" and x = r and y = old]
        in_old that by (auto simp: unique_def)
    then show ?thesis using that(2) in_old assms(3) by (auto simp: sandbox_clash_def merged_sandbox_def)
  qed
  then show ?thesis
    using old by (auto simp: sandbox_Update_def put_sandbox_def row_update_def store_rows_def list_ex_iff)
qed

lemma sandbox_Update_missing: "sandbox_Get (sbx_SandboxID s) d = None \<Longrightarrow> sandbox_Update s d = Inl NotFound"
  by (rule sboxes.put_missing)

lemma put_sandbox_ok:
  "db_ok d \<Longrightarrow> sandbox_Get (sbx_SandboxID s) d = Some old \<Longrightarrow> sbx_Name s = sbx_Name old \<Longrightarrow> db_ok (put_sandbox s d)"
  using sandbox_Update_put sandbox_Update_ok by blast

lemma merged_sandbox_simps [simp]:
  "sbx_SandboxID (merged_sandbox old s) = sbx_SandboxID old" "sbx_ProjectID (merged_sandbox old s) = sbx_ProjectID old"
  "sbx_Backend (merged_sandbox old s) = sbx_Backend old" "sbx_CreatedAt (merged_sandbox old s) = sbx_CreatedAt old"
  "sbx_Name (merged_sandbox old s) = sbx_Name s" "sbx_State (merged_sandbox old s) = sbx_State s"
  "sbx_BackendRef (merged_sandbox old s) = sbx_BackendRef s" "sbx_CPULimit (merged_sandbox old s) = sbx_CPULimit s"
  "sbx_MemoryLimitMB (merged_sandbox old s) = sbx_MemoryLimitMB s" "sbx_ExpiresAt (merged_sandbox old s) = sbx_ExpiresAt s"
  "sbx_UpdatedAt (merged_sandbox old s) = sbx_UpdatedAt s" "sbx_NetworkMode (merged_sandbox old s) = sbx_NetworkMode s"
  "sbx_ParentSnapshotID (merged_sandbox old s) = sbx_ParentSnapshotID s"
  "sbx_SourceImageID (merged_sandbox old s) = sbx_SourceImageID s"
  by (simp_all add: merged_sandbox_def)

section \<open>Free ports\<close>

lemma next_candidate_Some:
  "next_candidate used port hi = Some p \<Longrightarrow>
     p \<notin> used \<and> port \<le> p \<and> (p = port \<or> p \<le> hi) \<and> (\<forall>q. port \<le> q \<and> q < p \<longrightarrow> q \<in> used)"
proof (induction used port hi rule: next_candidate.induct)
  case (1 used port hi)
  show ?case
  proof (cases "port \<in> used \<and> port < hi")
    case True
    then have "next_candidate used (port + 1) hi = Some p"
      using "1.prems" by (simp add: next_candidate.simps [of used port])
    moreover have "q \<in> used" if "port \<le> q" "q < p" "\<forall>q. port + 1 \<le> q \<and> q < p \<longrightarrow> q \<in> used" for q
      using that True by (cases "q = port") auto
    ultimately show ?thesis using "1.IH" True by auto
  next
    case False
    then show ?thesis using "1.prems" by (auto simp: next_candidate.simps [of used port] split: if_splits)
  qed
qed

lemma next_candidate_None:
  "next_candidate used port hi = None \<Longrightarrow> port \<in> used \<and> (\<forall>q. port \<le> q \<and> q \<le> hi \<longrightarrow> q \<in> used)"
proof (induction used port hi rule: next_candidate.induct)
  case (1 used port hi)
  have u: "port \<in> used" using "1.prems" by (auto simp: next_candidate.simps [of used port] split: if_splits)
  show ?case
  proof (cases "port < hi")
    case True
    then have "\<forall>q. port + 1 \<le> q \<and> q \<le> hi \<longrightarrow> q \<in> used"
      using "1.IH" "1.prems" u by (auto simp: next_candidate.simps [of used port])
    then show ?thesis using u by (metis add1_zle_eq order_less_le)
  next
    case False
    then have "q = port" if "port \<le> q" "q \<le> hi" for q using that by linarith
    then show ?thesis using u by blast
  qed
qed

end
