(* ===== verification/Bus.thy ===== *)
theory Bus imports Domain "HOL-Library.Sublist" begin

text \<open>
  The in-memory event bus (\<open>internal/eventbus/memory.go\<close>): a subscriber owns a buffered
  channel, publishing never blocks and drops the event for a subscriber whose buffer is full.
  The bus is sequential here: its operations run under a mutex.  The iteration order over the
  subscriber map is not observable, each subscriber having a channel of its own.
\<close>

record subscriber =
  sub_id :: nat  \<comment> \<open>the identity of the \<open>*subscriber\<close>\<close>
  sub_filter :: event_filter
  sub_ch :: "event list"
  sub_open :: bool  \<comment> \<open>in the bus's map; a cancelled channel is closed but can still be drained\<close>

record bus =
  bus_subs :: "subscriber list"
  bus_bufSize :: nat
  bus_next :: nat  \<comment> \<open>the identity of the next subscriber\<close>

definition bus_New :: "nat \<Rightarrow> bus" where
  "bus_New n = \<lparr>bus_subs = [], bus_bufSize = n, bus_next = 0\<rparr>"

text \<open>A missing or non-string entry reads as the empty string.\<close>

definition text_of :: "data \<Rightarrow> string \<Rightarrow> string" where
  "text_of d k = (case get_str d k of None \<Rightarrow> '''' | Some s \<Rightarrow> s)"

definition bus_matches :: "event_filter \<Rightarrow> event \<Rightarrow> bool" where
  "bus_matches f ev =
     ((case ef_SandboxID f of None \<Rightarrow> True | Some sid \<Rightarrow> text_of (ev_Data ev) ''sandbox_id'' = sid) \<and>
      (case ef_ProjectID f of None \<Rightarrow> True | Some pid \<Rightarrow> text_of (ev_Data ev) ''project_id'' = pid) \<and>
      (ef_Types f = [] \<or> list_ex (\<lambda>t. t = ev_Type ev) (ef_Types f)))"

definition offer :: "nat \<Rightarrow> event \<Rightarrow> subscriber \<Rightarrow> subscriber" where
  "offer n ev s = (if sub_open s \<and> bus_matches (sub_filter s) ev \<and> length (sub_ch s) < n
                   then s\<lparr>sub_ch := sub_ch s @ [ev]\<rparr> else s)"

definition bus_Publish :: "event \<Rightarrow> bus \<Rightarrow> bus" where
  "bus_Publish ev b = b\<lparr>bus_subs := map (offer (bus_bufSize b) ev) (bus_subs b)\<rparr>"

definition bus_Subscribe :: "event_filter \<Rightarrow> bus \<Rightarrow> nat \<times> bus" where
  "bus_Subscribe f b = (bus_next b,
     b\<lparr>bus_subs := bus_subs b @ [\<lparr>sub_id = bus_next b, sub_filter = f, sub_ch = [], sub_open = True\<rparr>], bus_next := Suc (bus_next b)\<rparr>)"

text \<open>The cancel function; calling it again has no effect.\<close>

definition bus_Cancel :: "nat \<Rightarrow> bus \<Rightarrow> bus" where
  "bus_Cancel i b = b\<lparr>bus_subs := upd_where (\<lambda>s. sub_id s = i) (\<lambda>s. s\<lparr>sub_open := False\<rparr>) (bus_subs b)\<rparr>"

text \<open>The receiver's side of the channel: \<open>None\<close> when it would block.\<close>

definition bus_sub :: "nat \<Rightarrow> bus \<Rightarrow> subscriber option" where
  "bus_sub i b = find (\<lambda>s. sub_id s = i) (bus_subs b)"

definition bus_Receive :: "nat \<Rightarrow> bus \<Rightarrow> event option \<times> bus" where
  "bus_Receive i b =
     (case bus_sub i b of
        Some s \<Rightarrow> (case sub_ch s of
          [] \<Rightarrow> (None, b)
        | ev # rest \<Rightarrow> (Some ev, b\<lparr>bus_subs := upd_where (\<lambda>s. sub_id s = i) (\<lambda>s. s\<lparr>sub_ch := rest\<rparr>) (bus_subs b)\<rparr>))
      | None \<Rightarrow> (None, b))"

section \<open>Histories\<close>

datatype bus_op = BPublish event | BSubscribe event_filter | BCancel nat | BReceive nat

fun bus_exec :: "bus_op \<Rightarrow> bus \<Rightarrow> bus" where
  "bus_exec (BPublish ev) b = bus_Publish ev b"
| "bus_exec (BSubscribe f) b = snd (bus_Subscribe f b)"
| "bus_exec (BCancel i) b = bus_Cancel i b"
| "bus_exec (BReceive i) b = snd (bus_Receive i b)"

definition bus_run :: "bus_op list \<Rightarrow> bus \<Rightarrow> bus" where
  "bus_run ops b = fold bus_exec ops b"

text \<open>What subscriber \<open>i\<close> receives along a history, and what is published.\<close>

fun received :: "nat \<Rightarrow> bus_op list \<Rightarrow> bus \<Rightarrow> event list" where
  "received i [] b = []"
| "received i (x # ops) b =
     (case x of BReceive j \<Rightarrow> if j = i then (case fst (bus_Receive i b) of None \<Rightarrow> [] | Some ev \<Rightarrow> [ev]) else []
      | _ \<Rightarrow> []) @ received i ops (bus_exec x b)"

fun published :: "bus_op list \<Rightarrow> event list" where
  "published [] = []"
| "published (BPublish ev # ops) = ev # published ops"
| "published (_ # ops) = published ops"

definition cancels :: "nat \<Rightarrow> bus_op \<Rightarrow> bool" where
  "cancels i x \<longleftrightarrow> x = BCancel i"

definition bus_ok :: "bus \<Rightarrow> bool" where
  "bus_ok b \<longleftrightarrow> distinct (map sub_id (bus_subs b)) \<and>
     (\<forall>s\<in>set (bus_subs b). sub_id s < bus_next b \<and> length (sub_ch s) \<le> bus_bufSize b \<and>
        (\<forall>ev\<in>set (sub_ch s). bus_matches (sub_filter s) ev))"

section \<open>Lemmas\<close>

lemma offer_simps [simp]: "sub_id (offer n ev s) = sub_id s" "sub_filter (offer n ev s) = sub_filter s"
  by (simp_all add: offer_def)

lemma sub_of_find: "bus_sub i b = Some s \<Longrightarrow> s \<in> set (bus_subs b) \<and> sub_id s = i"
  unfolding bus_sub_def by (rule find_Some_iff2)

lemma bus_ok_New: "bus_ok (bus_New n)"
  by (simp add: bus_ok_def bus_New_def)

lemma bus_ok_Publish: "bus_ok b \<Longrightarrow> bus_ok (bus_Publish ev b)"
  by (auto simp: bus_ok_def bus_Publish_def comp_def) (auto simp: offer_def split: if_splits)

lemma bus_ok_Subscribe: "bus_ok b \<Longrightarrow> bus_ok (snd (bus_Subscribe f b))"
  by (auto simp: bus_ok_def bus_Subscribe_def less_Suc_eq)

lemma bus_ok_Cancel: "bus_ok b \<Longrightarrow> bus_ok (bus_Cancel i b)"
  by (auto simp: bus_ok_def bus_Cancel_def map_upd_where set_upd_where)

lemma bus_ok_Receive: assumes "bus_ok b" shows "bus_ok (snd (bus_Receive i b))"
proof (cases "bus_sub i b")
  case (Some s)
  show ?thesis
  proof (cases "sub_ch s")
    case (Cons ev rest)
    have "s \<in> set (bus_subs b)" "sub_id s = i" using sub_of_find [OF Some] by auto
    then show ?thesis using assms Some Cons
      by (auto simp: bus_Receive_def bus_ok_def set_upd_where map_upd_where split: if_splits)
        (metis Suc_leD distinct_map_key insertCI length_Cons list.simps(15))+
  qed (use assms Some in \<open>simp add: bus_Receive_def\<close>)
qed (use assms in \<open>simp add: bus_Receive_def\<close>)

lemma bus_ok_exec: "bus_ok b \<Longrightarrow> bus_ok (bus_exec x b)"
  by (cases x) (auto intro: bus_ok_Publish bus_ok_Subscribe bus_ok_Cancel bus_ok_Receive)

lemma bus_ok_run: "bus_ok b \<Longrightarrow> bus_ok (bus_run ops b)"
  unfolding bus_run_def by (induction ops arbitrary: b) (auto intro: bus_ok_exec)

lemma bus_bufSize_exec [simp]: "bus_bufSize (bus_exec x b) = bus_bufSize b"
  by (cases x) (auto simp: bus_Publish_def bus_Subscribe_def bus_Cancel_def bus_Receive_def split: option.splits list.splits)

lemma bus_sub_Publish:
  "bus_sub i (bus_Publish ev b) = map_option (offer (bus_bufSize b) ev) (bus_sub i b)"
proof -
  have "find (\<lambda>s. sub_id s = i) (map (offer n ev) xs) = map_option (offer n ev) (find (\<lambda>s. sub_id s = i) xs)" for n xs
    by (induction xs) auto
  then show ?thesis by (simp add: bus_sub_def bus_Publish_def)
qed

lemma bus_sub_Subscribe: "bus_sub i b = Some s \<Longrightarrow> bus_sub i (snd (bus_Subscribe f b)) = Some s"
proof -
  have "find P xs = Some s \<Longrightarrow> find P (xs @ ys) = Some s" for P and xs ys :: "subscriber list"
    by (induction xs) (auto split: if_splits)
  then show "bus_sub i b = Some s \<Longrightarrow> ?thesis" by (simp add: bus_sub_def bus_Subscribe_def)
qed

lemma find_upd_where:
  "(\<And>s. sub_id (f s) = sub_id s) \<Longrightarrow> find (\<lambda>s. sub_id s = i) (upd_where (\<lambda>s. sub_id s = j) f xs) =
     (if i = j then map_option f (find (\<lambda>s. sub_id s = i) xs) else find (\<lambda>s. sub_id s = i) xs)"
  by (induction xs) (auto simp: upd_where_def)

lemma bus_sub_Cancel:
  "bus_sub i (bus_Cancel j b) = (if i = j then map_option (\<lambda>s. s\<lparr>sub_open := False\<rparr>) (bus_sub i b) else bus_sub i b)"
  by (simp add: bus_sub_def bus_Cancel_def find_upd_where)

lemma bus_sub_Receive:
  "bus_sub i b = Some s \<Longrightarrow> bus_sub i (snd (bus_Receive j b)) =
     Some (if j = i then s\<lparr>sub_ch := tl (sub_ch s)\<rparr> else s)"
  by (auto simp: bus_Receive_def bus_sub_def find_upd_where split: option.splits list.splits)

text \<open>One step: what is received now and what stays buffered come from what was buffered and is offered.\<close>

lemma received_step:
  assumes "bus_sub i b = Some s"
  obtains s' where "bus_sub i (bus_exec x b) = Some s'" "sub_filter s' = sub_filter s"
    and "subseq (received i [x] b @ sub_ch s') (sub_ch s @ filter (bus_matches (sub_filter s)) (published [x]))"
    and "sub_open s \<Longrightarrow> \<not> cancels i x \<Longrightarrow> sub_open s'"
    and "sub_open s \<Longrightarrow> length (sub_ch s) + length (filter (bus_matches (sub_filter s)) (published [x])) \<le> bus_bufSize b \<Longrightarrow>
         received i [x] b @ sub_ch s' = sub_ch s @ filter (bus_matches (sub_filter s)) (published [x])"
proof (cases x)
  case (BPublish ev)
  show ?thesis
    by (rule that [of "offer (bus_bufSize b) ev s"])
      (use BPublish assms in \<open>auto simp: bus_sub_Publish offer_def intro: list_emb_append2\<close>)
next
  case (BSubscribe f)
  then show ?thesis using that [of s] assms bus_sub_Subscribe [OF assms(1), of f] by simp
next
  case (BCancel j)
  then show ?thesis
    using that [of "if i = j then s\<lparr>sub_open := False\<rparr> else s"] assms
    by (cases "i = j") (auto simp: cancels_def bus_sub_Cancel)
next
  case (BReceive j)
  show ?thesis
  proof (cases "j = i")
    case True
    have "fst (bus_Receive i b) = (case sub_ch s of [] \<Rightarrow> None | ev # _ \<Rightarrow> Some ev)"
      using assms(1) by (simp add: bus_Receive_def split: list.splits)
    then show ?thesis
      using that [of "s\<lparr>sub_ch := tl (sub_ch s)\<rparr>"] BReceive True bus_sub_Receive [OF assms(1), of j]
      by (cases "sub_ch s") auto
  next
    case False
    then show ?thesis using that [of s] BReceive bus_sub_Receive [OF assms(1), of j] by simp
  qed
qed

lemma received_Cons: "received i (x # ops) b = received i [x] b @ received i ops (bus_exec x b)"
  by simp

lemma published_Cons: "published (x # ops) = published [x] @ published ops"
  by (cases x) auto

section \<open>Properties\<close>

lemma received_run:
  assumes "bus_sub i b = Some s"
  shows "\<exists>s'. bus_sub i (bus_run ops b) = Some s' \<and>
    subseq (received i ops b @ sub_ch s') (sub_ch s @ filter (bus_matches (sub_filter s)) (published ops)) \<and>
    (sub_open s \<and> list_all (\<lambda>x. \<not> cancels i x) ops \<and>
     length (sub_ch s) + length (filter (bus_matches (sub_filter s)) (published ops)) \<le> bus_bufSize b \<longrightarrow>
      received i ops b @ sub_ch s' = sub_ch s @ filter (bus_matches (sub_filter s)) (published ops))"
  using assms
proof (induction ops arbitrary: b s)
  case Nil
  then show ?case by (simp add: bus_run_def)
next
  case (Cons x ops)
  let ?m = "bus_matches (sub_filter s)"
  obtain s1 where s1: "bus_sub i (bus_exec x b) = Some s1" "sub_filter s1 = sub_filter s"
    and sub: "subseq (received i [x] b @ sub_ch s1) (sub_ch s @ filter ?m (published [x]))"
    and op: "sub_open s \<Longrightarrow> \<not> cancels i x \<Longrightarrow> sub_open s1"
    and eq: "sub_open s \<Longrightarrow> length (sub_ch s) + length (filter ?m (published [x])) \<le> bus_bufSize b \<Longrightarrow>
         received i [x] b @ sub_ch s1 = sub_ch s @ filter ?m (published [x])"
    using received_step [OF Cons.prems, of x] by metis
  obtain s2 where s2: "bus_sub i (bus_run ops (bus_exec x b)) = Some s2"
    and sub2: "subseq (received i ops (bus_exec x b) @ sub_ch s2) (sub_ch s1 @ filter ?m (published ops))"
    and eq2: "sub_open s1 \<Longrightarrow> list_all (\<lambda>x. \<not> cancels i x) ops \<Longrightarrow>
      length (sub_ch s1) + length (filter ?m (published ops)) \<le> bus_bufSize b \<Longrightarrow>
      received i ops (bus_exec x b) @ sub_ch s2 = sub_ch s1 @ filter ?m (published ops)"
    using Cons.IH [OF s1(1)] s1(2) by auto
  have run: "bus_run (x # ops) b = bus_run ops (bus_exec x b)" by (simp add: bus_run_def)
  have pub: "filter ?m (published (x # ops)) = filter ?m (published [x]) @ filter ?m (published ops)"
    by (subst published_Cons) simp
  have rec: "received i (x # ops) b @ sub_ch s2 = received i [x] b @ (received i ops (bus_exec x b) @ sub_ch s2)"
    by (subst received_Cons) simp
  have "subseq (received i (x # ops) b @ sub_ch s2) ((received i [x] b @ sub_ch s1) @ filter ?m (published ops))"
    unfolding rec using sub2 by (simp add: subseq_append')
  then have "subseq (received i (x # ops) b @ sub_ch s2) (sub_ch s @ filter ?m (published (x # ops)))"
    unfolding pub using list_emb_append_mono [OF sub subseq_order.refl, of "filter ?m (published ops)"]
    by (auto elim: subseq_order.trans)
  moreover have "received i (x # ops) b @ sub_ch s2 = sub_ch s @ filter ?m (published (x # ops))"
    if l: "sub_open s" "list_all (\<lambda>x. \<not> cancels i x) (x # ops)"
      "length (sub_ch s) + length (filter ?m (published (x # ops))) \<le> bus_bufSize b"
  proof -
    have e: "received i [x] b @ sub_ch s1 = sub_ch s @ filter ?m (published [x])"
      using l eq by (simp add: pub)
    from arg_cong [OF this, of length] have "length (sub_ch s1) \<le> length (sub_ch s) + length (filter ?m (published [x]))"
      by simp
    then show ?thesis using e eq2 op l by (simp add: rec pub)
  qed
  ultimately show ?case using s2 run by auto
qed

lemma sub_fresh: "bus_ok b \<Longrightarrow> bus_Subscribe f b = (i, b1) \<Longrightarrow>
    bus_sub i b1 = Some \<lparr>sub_id = i, sub_filter = f, sub_ch = [], sub_open = True\<rparr>"
proof -
  have "\<forall>s\<in>set xs. sub_id s \<noteq> i \<Longrightarrow> find (\<lambda>s. sub_id s = i) (xs @ [s0]) = find (\<lambda>s. sub_id s = i) [s0]" for xs s0
    by (induction xs) auto
  then show "bus_ok b \<Longrightarrow> bus_Subscribe f b = (i, b1) \<Longrightarrow> ?thesis"
    by (fastforce simp: bus_sub_def bus_Subscribe_def bus_ok_def)
qed

lemma bus_buffer_bound: "bus_ok b \<Longrightarrow> bus_sub i b = Some s \<Longrightarrow> length (sub_ch s) \<le> bus_bufSize b"
  using sub_of_find by (fastforce simp: bus_ok_def)

lemma bus_bufSize_run [simp]: "bus_bufSize (bus_run ops b) = bus_bufSize b"
  unfolding bus_run_def by (induction ops arbitrary: b) auto

text \<open>
  C19: what a subscriber has received plus what waits in its channel is, whatever the other
  subscribers, receivers and publishers do, an in-order subsequence of the published events its filter
  matches; the channel never holds more than the buffer size; and nothing is dropped while
  the subscription is open and the matching events fit the buffer.
\<close>

theorem bus_delivers:
  assumes "bus_ok b" "bus_Subscribe f b = (i, b1)"
  shows "\<exists>s. bus_sub i (bus_run ops b1) = Some s \<and> length (sub_ch s) \<le> bus_bufSize b \<and>
    subseq (received i ops b1 @ sub_ch s) (filter (bus_matches f) (published ops)) \<and>
    (list_all (\<lambda>x. \<not> cancels i x) ops \<and> length (filter (bus_matches f) (published ops)) \<le> bus_bufSize b \<longrightarrow>
      received i ops b1 @ sub_ch s = filter (bus_matches f) (published ops))"
proof -
  have b1: "bus_ok b1" "bus_bufSize b1 = bus_bufSize b"
    using bus_ok_Subscribe [OF assms(1), of f] assms(2) bus_bufSize_exec [of "BSubscribe f" b] by auto
  then show ?thesis
    using received_run [OF sub_fresh [OF assms], of ops] bus_buffer_bound [OF bus_ok_run [OF b1(1)], of i ops]
    by fastforce
qed

definition demo_event :: "string \<Rightarrow> event" where
  "demo_event sid = \<lparr>ev_Type = EventBoostStarted, ev_Timestamp = utc 0, ev_Data = [(''sandbox_id'', JStr sid)]\<rparr>"

definition demo_filter :: event_filter where
  "demo_filter = \<lparr>ef_ProjectID = None, ef_SandboxID = Some ''a'', ef_Types = [EventBoostStarted]\<rparr>"

definition demo_ops :: "bus_op list" where
  "demo_ops = [BPublish (demo_event ''a''), BPublish (demo_event ''b''), BReceive 0, BPublish (demo_event ''a'')]"

lemma demo_published: "filter (bus_matches demo_filter) (published demo_ops) = [demo_event ''a'', demo_event ''a'']"
  by (simp add: demo_ops_def demo_event_def demo_filter_def bus_matches_def text_of_def get_str_def)

lemma bus_delivers_witness:
  "\<exists>s. bus_sub 0 (bus_run demo_ops (snd (bus_Subscribe demo_filter (bus_New 2)))) = Some s \<and>
    received 0 demo_ops (snd (bus_Subscribe demo_filter (bus_New 2))) @ sub_ch s = [demo_event ''a'', demo_event ''a'']"
proof -
  have "bus_Subscribe demo_filter (bus_New 2) = (0, snd (bus_Subscribe demo_filter (bus_New 2)))"
    by (simp add: bus_Subscribe_def bus_New_def)
  from bus_delivers [OF bus_ok_New this, of demo_ops] show ?thesis
    by (auto simp: demo_published bus_New_def) (simp add: demo_ops_def cancels_def)
qed

end
