(* ===== verification/World.thy ===== *)
theory World imports Integrity Bus begin

text \<open>
  The world the services act on: the database, the event bus, the backends, the clock, the
  UUID source, the dispatcher's queue, the boost timers, and the caches of the session
  service.  Every call of a service that leaves the process or reads the clock consumes a
  tick; the environment (\<open>env\<close>) decides by tick what the clock reads, what the backend
  answers and which database call fails and with which SQLite result code, so that a theorem
  over all environments covers every pattern of failures.  A failed database call leaves the
  database as it was.  Services run one after the other here; the goroutines
  of the dispatcher interleave in \<open>Dispatch\<close>.
\<close>

record env =
  env_now :: "nat \<Rightarrow> int"
  env_uuid :: "nat \<Rightarrow> string"          \<comment> \<open>\<open>uuid.NewString\<close>\<close>
  env_dbfail :: "nat \<Rightarrow> int option"    \<comment> \<open>the result code of a database call that fails\<close>
  env_provider :: provider
  env_defaultBackend :: string
  env_defaultBoostChannel :: bool
  env_hasBoost :: bool                  \<comment> \<open>\<open>boostSvc != nil\<close>\<close>
  env_hasSessions :: bool               \<comment> \<open>\<open>sessionSvc != nil\<close>\<close>
  env_maxBoost :: int                   \<comment> \<open>\<open>maxDuration\<close>\<close>

text \<open>An entry of \<open>BoostService.timers\<close>; a timer that has fired stays in the map.\<close>

record timer =
  tm_delay :: int
  tm_pending :: bool

record world =
  w_env :: env
  w_tick :: nat
  w_db :: database
  w_bus :: bus
  w_events :: "event list"    \<comment> \<open>everything published, for the statements\<close>
  w_calls :: "pcall list"     \<comment> \<open>every backend call made, for the statements\<close>
  w_queue :: "operation list"
  w_stopped :: bool
  w_cancelled :: "string list"
  w_timers :: "string \<Rightarrow> timer option"
  w_tmux :: "string list"
  w_bash :: "string list"

type_synonym 'a M = "(world, 'a) state"

abbreviation ticked :: "world \<Rightarrow> world" where
  "ticked w \<equiv> w\<lparr>w_tick := Suc (w_tick w)\<rparr>"

section \<open>Primitive effects\<close>

definition io :: "(env \<Rightarrow> nat \<Rightarrow> 'a) \<Rightarrow> 'a M" where
  "io f = State (\<lambda>w. (f (w_env w) (w_tick w), ticked w))"

definition config :: "(env \<Rightarrow> 'a) \<Rightarrow> 'a M" where
  "config f = State (\<lambda>w. (f (w_env w), w))"

definition now :: "gotime M" where  \<comment> \<open>\<open>time.Now().UTC()\<close>\<close>
  "now = io (\<lambda>e t. utc (env_now e t))"

definition new_uuid :: "string M" where
  "new_uuid = io env_uuid"

definition db_error :: "int \<Rightarrow> goerr" where
  "db_error c = mapError (SqliteError c False)"

definition store_write :: "(database \<Rightarrow> database res) \<Rightarrow> unit res M" where
  "store_write f = State (\<lambda>w. case env_dbfail (w_env w) (w_tick w) of
     Some c \<Rightarrow> (Inl (db_error c), ticked w)
   | None \<Rightarrow> (case f (w_db w) of Inl e \<Rightarrow> (Inl e, ticked w) | Inr d \<Rightarrow> (Inr (), (ticked w)\<lparr>w_db := d\<rparr>)))"

definition store_read :: "(database \<Rightarrow> 'a) \<Rightarrow> 'a res M" where
  "store_read f = State (\<lambda>w. case env_dbfail (w_env w) (w_tick w) of
     Some c \<Rightarrow> (Inl (db_error c), ticked w) | None \<Rightarrow> (Inr (f (w_db w)), ticked w))"

definition store_get :: "(database \<Rightarrow> 'a option) \<Rightarrow> 'a res M" where
  "store_get f = bindE (store_read f) (\<lambda>r. ret (case r of None \<Rightarrow> Inl NotFound | Some x \<Rightarrow> Inr x))"

definition provide :: "pcall \<Rightarrow> (provider \<Rightarrow> nat \<Rightarrow> 'a) \<Rightarrow> 'a M" where
  "provide c f = State (\<lambda>w. (f (env_provider (w_env w)) (w_tick w), (ticked w)\<lparr>w_calls := w_calls w @ [c]\<rparr>))"

definition publish :: "event \<Rightarrow> unit M" where
  "publish ev = State (\<lambda>w. ((), w\<lparr>w_events := w_events w @ [ev], w_bus := bus_Publish ev (w_bus w)\<rparr>))"

definition emit :: "event_type \<Rightarrow> data \<Rightarrow> unit M" where
  "emit ty d = do { t \<leftarrow> now; publish \<lparr>ev_Type = ty, ev_Timestamp = t, ev_Data = d\<rparr> }"

text \<open>\<open>Dispatcher.Enqueue\<close>: dropped after \<open>Stop\<close>, and when the queue's 256 places are taken.\<close>

definition Enqueue :: "operation \<Rightarrow> unit M" where
  "Enqueue p = State (\<lambda>w. ((), if w_stopped w \<or> \<not> length (w_queue w) < 256 then w
                               else w\<lparr>w_queue := w_queue w @ [p]\<rparr>))"

text \<open>\<open>Dispatcher.Cancel\<close> of an operation that is not running.\<close>

definition dispatcher_Cancel :: "string \<Rightarrow> unit M" where
  "dispatcher_Cancel i = State (\<lambda>w. ((), w\<lparr>w_cancelled := List.insert i (w_cancelled w)\<rparr>))"

definition take_cancelled :: "string \<Rightarrow> bool M" where  \<comment> \<open>\<open>cancelled.LoadAndDelete\<close>\<close>
  "take_cancelled i = State (\<lambda>w. (i \<in> set (w_cancelled w), w\<lparr>w_cancelled := removeAll i (w_cancelled w)\<rparr>))"

definition set_timer :: "string \<Rightarrow> timer option \<Rightarrow> unit M" where
  "set_timer i t = State (\<lambda>w. ((), w\<lparr>w_timers := (w_timers w)(i := t)\<rparr>))"

definition get_timer :: "string \<Rightarrow> timer option M" where
  "get_timer i = State (\<lambda>w. (w_timers w i, w))"

definition tmux_ready :: "string \<Rightarrow> bool M" where
  "tmux_ready i = State (\<lambda>w. (i \<in> set (w_tmux w), w))"

definition bash_ready :: "string \<Rightarrow> bool M" where
  "bash_ready i = State (\<lambda>w. (i \<in> set (w_bash w), w))"

definition set_tmux :: "string \<Rightarrow> unit M" where
  "set_tmux i = State (\<lambda>w. ((), w\<lparr>w_tmux := List.insert i (w_tmux w)\<rparr>))"

definition set_bash :: "string \<Rightarrow> unit M" where
  "set_bash i = State (\<lambda>w. ((), w\<lparr>w_bash := List.insert i (w_bash w)\<rparr>))"

definition clear_ready :: "string \<Rightarrow> unit M" where
  "clear_ready i = State (\<lambda>w. ((), w\<lparr>w_tmux := removeAll i (w_tmux w), w_bash := removeAll i (w_bash w)\<rparr>))"

section \<open>Running the primitives\<close>

lemma run_io [runs]: "run_state (io f) w = (f (w_env w) (w_tick w), ticked w)"
  by (simp add: io_def)

lemma run_config [runs]: "run_state (config f) w = (f (w_env w), w)"
  by (simp add: config_def)

lemma run_now [runs]: "run_state now w = (utc (env_now (w_env w) (w_tick w)), ticked w)"
  by (simp add: now_def run_io)

lemma run_uuid [runs]: "run_state new_uuid w = (env_uuid (w_env w) (w_tick w), ticked w)"
  by (simp add: new_uuid_def run_io)

lemma run_store_write [runs]: "run_state (store_write f) w =
    (case env_dbfail (w_env w) (w_tick w) of
       Some c \<Rightarrow> (Inl (db_error c), ticked w)
     | None \<Rightarrow> (case f (w_db w) of Inl e \<Rightarrow> (Inl e, ticked w) | Inr d \<Rightarrow> (Inr (), (ticked w)\<lparr>w_db := d\<rparr>)))"
  by (simp add: store_write_def)

lemma run_store_read [runs]: "run_state (store_read f) w =
    (case env_dbfail (w_env w) (w_tick w) of
       Some c \<Rightarrow> (Inl (db_error c), ticked w) | None \<Rightarrow> (Inr (f (w_db w)), ticked w))"
  by (simp add: store_read_def)

lemma run_store_get [runs]: "run_state (store_get f) w =
    (case env_dbfail (w_env w) (w_tick w) of
       Some c \<Rightarrow> (Inl (db_error c), ticked w)
     | None \<Rightarrow> (case f (w_db w) of None \<Rightarrow> (Inl NotFound, ticked w) | Some x \<Rightarrow> (Inr x, ticked w)))"
  by (simp add: store_get_def runs split: option.splits)

lemma run_provide [runs]: "run_state (provide c f) w =
    (f (env_provider (w_env w)) (w_tick w), (ticked w)\<lparr>w_calls := w_calls w @ [c]\<rparr>)"
  by (simp add: provide_def)

lemma run_publish [runs]: "run_state (publish ev) w =
    ((), w\<lparr>w_events := w_events w @ [ev], w_bus := bus_Publish ev (w_bus w)\<rparr>)"
  by (simp add: publish_def)

lemma run_emit [runs]: "run_state (emit ty d) w =
    (let ev = \<lparr>ev_Type = ty, ev_Timestamp = utc (env_now (w_env w) (w_tick w)), ev_Data = d\<rparr>
     in ((), (ticked w)\<lparr>w_events := w_events w @ [ev], w_bus := bus_Publish ev (w_bus w)\<rparr>))"
  by (simp add: emit_def runs Let_def)

lemma run_Enqueue [runs]: "run_state (Enqueue p) w =
    ((), if w_stopped w \<or> \<not> length (w_queue w) < 256 then w else w\<lparr>w_queue := w_queue w @ [p]\<rparr>)"
  by (simp add: Enqueue_def)

lemma run_set_timer [runs]: "run_state (set_timer i t) w = ((), w\<lparr>w_timers := (w_timers w)(i := t)\<rparr>)"
  by (simp add: set_timer_def)

lemma run_get_timer [runs]: "run_state (get_timer i) w = (w_timers w i, w)"
  by (simp add: get_timer_def)

lemma db_error_not [simp]: "\<not> errors_Is (db_error c) ErrNotFound" "\<not> errors_Is (db_error c) ErrConflict"
  "\<not> errors_Is (db_error c) ErrInvalidState" "\<not> errors_Is (db_error c) ErrInvalidArgument"
  "db_error c \<noteq> NotFound" "NotFound \<noteq> db_error c"
  by (simp_all add: db_error_def)

section \<open>Invariants of the database and the timers\<close>

definition dt :: "(database \<Rightarrow> (string \<Rightarrow> timer option) \<Rightarrow> bool) \<Rightarrow> world \<Rightarrow> bool" where
  "dt P w = P (w_db w) (w_timers w)"

abbreviation db :: "(database \<Rightarrow> bool) \<Rightarrow> world \<Rightarrow> bool" where
  "db P \<equiv> dt (\<lambda>d _. P d)"

lemma keeps_io [pres]: "keeps (dt P) (io f)"
  by (simp add: valid_def dt_def runs)

lemma keeps_config [pres]: "keeps (dt P) (config f)"
  by (simp add: valid_def dt_def runs)

lemma keeps_now [pres]: "keeps (dt P) now"
  by (simp add: valid_def dt_def runs)

lemma keeps_uuid [pres]: "keeps (dt P) new_uuid"
  by (simp add: valid_def dt_def runs)

lemma keeps_read [pres]: "keeps (dt P) (store_read f)"
  by (simp add: valid_def dt_def runs split: option.splits)

lemma keeps_store_get [pres]: "keeps (dt P) (store_get f)"
  by (simp add: valid_def dt_def runs split: option.splits)

lemma keeps_provide [pres]: "keeps (dt P) (provide c f)"
  by (simp add: valid_def dt_def runs)

lemma keeps_publish [pres]: "keeps (dt P) (publish ev)"
  by (simp add: valid_def dt_def runs)

lemma keeps_emit [pres]: "keeps (dt P) (emit ty d)"
  by (simp add: valid_def dt_def runs Let_def)

lemma keeps_Enqueue [pres]: "keeps (dt P) (Enqueue p)"
  by (simp add: valid_def dt_def runs)

lemma keeps_cancel [pres]: "keeps (dt P) (dispatcher_Cancel i)" "keeps (dt P) (take_cancelled i)"
  by (simp_all add: valid_def dt_def dispatcher_Cancel_def take_cancelled_def)

lemma keeps_caches [pres]: "keeps (dt P) (tmux_ready i)" "keeps (dt P) (bash_ready i)"
  "keeps (dt P) (set_tmux i)" "keeps (dt P) (set_bash i)" "keeps (dt P) (clear_ready i)" "keeps (dt P) (get_timer i)"
  by (simp_all add: valid_def dt_def tmux_ready_def bash_ready_def set_tmux_def set_bash_def clear_ready_def get_timer_def)

lemma keeps_set_timer_db [pres]: "keeps (db P) (set_timer i t)"
  by (simp add: valid_def dt_def set_timer_def)

lemma keeps_write:
  "(\<And>d d' tm. P d tm \<Longrightarrow> f d = Inr d' \<Longrightarrow> P d' tm) \<Longrightarrow> keeps (dt P) (store_write f)"
  by (auto simp: valid_def dt_def runs split: option.splits sum.splits)

lemma valid_write:
  assumes "\<And>d d' tm. P d tm \<Longrightarrow> f d = Inr d' \<Longrightarrow> Q (Inr ()) d' tm"
    and "\<And>d e tm. P d tm \<Longrightarrow> f d = Inl e \<Longrightarrow> Q (Inl e) d tm" and "\<And>c d tm. P d tm \<Longrightarrow> Q (Inl (db_error c)) d tm"
  shows "valid (dt P) (store_write f) (\<lambda>r. dt (Q r))"
  using assms by (auto simp: valid_def dt_def runs split: option.splits sum.splits)

lemma valid_get:
  assumes "\<And>d x tm. P d tm \<Longrightarrow> f d = Some x \<Longrightarrow> Q (Inr x) d tm"
    and "\<And>d tm. P d tm \<Longrightarrow> f d = None \<Longrightarrow> Q (Inl NotFound) d tm" and "\<And>c d tm. P d tm \<Longrightarrow> Q (Inl (db_error c)) d tm"
  shows "valid (dt P) (store_get f) (\<lambda>r. dt (Q r))"
  using assms by (auto simp: valid_def dt_def runs split: option.splits)

lemma keeps_stores [pres]:
  "keeps (db db_ok) (store_write (project_Create p))"
  "keeps (db db_ok) (store_write (project_Update p))"
  "keeps (db db_ok) (store_write (project_Delete k))"
  "keeps (db db_ok) (store_write (sandbox_Create s))"
  "keeps (db db_ok) (store_write (sandbox_Update s))"
  "keeps (db db_ok) (store_write (sandbox_Delete k))"
  "keeps (db db_ok) (store_write (snapshot_Create n))"
  "keeps (db db_ok) (store_write (snapshot_Update n))"
  "keeps (db db_ok) (store_write (snapshot_Delete k))"
  "keeps (db db_ok) (store_write (session_Create ss))"
  "keeps (db db_ok) (store_write (session_Update ss))"
  "keeps (db db_ok) (store_write (session_Delete k))"
  "keeps (db db_ok) (store_write (image_Create i))"
  "keeps (db db_ok) (store_write (image_Update i))"
  "keeps (db db_ok) (store_write (image_Delete k))"
  "keeps (db db_ok) (store_write (operation_Create o'))"
  "keeps (db db_ok) (store_write (operation_Update o'))"
  "keeps (db db_ok) (store_write (port_Create pb))"
  "keeps (db db_ok) (store_write (port_Delete k t))"
  "keeps (db db_ok) (store_write (boost_Upsert b))"
  "keeps (db db_ok) (store_write (boost_UpdateState k st n' e))"
  "keeps (db db_ok) (store_write (boost_Delete k))"
  by (auto intro!: keeps_write intro: stores_ok)

section \<open>A concrete world\<close>

text \<open>A backend that always succeeds, a ticking clock, and one running sandbox, for the witnesses.\<close>

definition demo_provider :: provider where
  "demo_provider = \<lparr>
     pv_CreateSandbox = \<lambda>_ r. Inr \<lparr>ref_Backend = cr_Backend r, ref_Ref = ''ref''\<rparr>,
     pv_StartSandbox = \<lambda>_ _. Inr (), pv_StopSandbox = \<lambda>_ _ _. Inr (), pv_DestroySandbox = \<lambda>_ _. Inr (),
     pv_GetSandboxState = \<lambda>_ _. Inr SandboxRunning, pv_Exec = \<lambda>_ _ _. Inr 0,
     pv_CreateSnapshot = \<lambda>_ r _ _. Inr \<lparr>ref_Backend = ref_Backend r, ref_Ref = ''snap''\<rparr>,
     pv_RestoreSnapshot = \<lambda>_ _ _. Inr (), pv_DeleteSnapshot = \<lambda>_ _. Inr (),
     pv_CreateSandboxFromSnapshot = \<lambda>_ _ r. Inr \<lparr>ref_Backend = cr_Backend r, ref_Ref = ''ref''\<rparr>,
     pv_PublishSnapshotAsImage = \<lambda>_ r _ _. Inr \<lparr>ref_Backend = ref_Backend r, ref_Ref = ''img''\<rparr>,
     pv_DeleteImage = \<lambda>_ _. Inr (), pv_GetImageInfo = \<lambda>_ _. Inr ''amd64'',
     pv_ForkSandbox = \<lambda>_ r n. (map (\<lambda>_. \<lparr>ref_Backend = ref_Backend r, ref_Ref = ''child''\<rparr>) [1..n], None),
     pv_UpdateResources = \<lambda>_ _ _. Inr (),
     pv_PublishPort = \<lambda>_ _ n. Inr \<lparr>ep_HostAddress = ''127.0.0.1'', ep_PublishedPort = n\<rparr>,
     pv_UnpublishPort = \<lambda>_ _ _. Inr (),
     pv_Health = \<lambda>_. \<lparr>hl_Backend = ''demo'', hl_Healthy = True, hl_Error = []\<rparr>\<rparr>"

definition demo_env :: env where
  "demo_env = \<lparr>env_now = \<lambda>t. 1700000000000000000 + int t * d_second, env_uuid = \<lambda>t. ''id-'' @ pad 5 (int t),
     env_dbfail = \<lambda>_. None, env_provider = demo_provider, env_defaultBackend = ''firecracker'',
     env_defaultBoostChannel = True, env_hasBoost = True, env_hasSessions = True, env_maxBoost = d_hour\<rparr>"

definition demo_sandbox :: "string \<Rightarrow> sandbox_state \<Rightarrow> sandbox" where
  "demo_sandbox i st = \<lparr>sbx_SandboxID = i, sbx_ProjectID = ''p'', sbx_Name = ''name-'' @ i, sbx_State = st,
     sbx_Backend = ''firecracker'', sbx_BackendRef = ''vm-'' @ i, sbx_HostID = [], sbx_SourceImageID = ''debian'',
     sbx_ParentSnapshotID = [], sbx_CreatedAt = utc 0, sbx_UpdatedAt = utc 0, sbx_ExpiresAt = None,
     sbx_CPULimit = Some 1, sbx_MemoryLimitMB = Some 256, sbx_NetworkMode = NetworkIsolated,
     sbx_EnableBoostChannel = True, sbx_Metadata = None\<rparr>"

definition demo_db :: "sandbox list \<Rightarrow> boost list \<Rightarrow> database" where
  "demo_db ss bs = empty_db\<lparr>db_projects := [\<lparr>prj_ProjectID = ''p'', prj_Name = ''proj'', prj_CreatedAt = utc 0,
       prj_UpdatedAt = utc 0, prj_Metadata = None\<rparr>], db_sandboxes := ss, db_boosts := bs\<rparr>"

definition demo_world :: "database \<Rightarrow> world" where
  "demo_world d = \<lparr>w_env = demo_env, w_tick = 0, w_db = d, w_bus = bus_New 4, w_events = [], w_calls = [],
     w_queue = [], w_stopped = False, w_cancelled = [], w_timers = Map.empty, w_tmux = [], w_bash = []\<rparr>"

lemmas demo_defs = demo_provider_def demo_env_def demo_sandbox_def demo_db_def demo_world_def empty_db_def

lemma demo_db_ok: "db_ok (demo_db [demo_sandbox ''a'' s1, demo_sandbox ''b'' s2] [])"
  by (simp add: db_ok_def table_ok unique_def refers_def demo_defs)

lemma demo_world_simps [simp]: "w_db (demo_world d) = d" "w_env (demo_world d) = demo_env"
  "w_tick (demo_world d) = 0" "w_timers (demo_world d) = Map.empty" "w_queue (demo_world d) = []"
  "w_stopped (demo_world d) = False" "w_calls (demo_world d) = []"
  by (simp_all add: demo_world_def)

definition no_db_failure :: "world \<Rightarrow> bool" where
  "no_db_failure w \<longleftrightarrow> env_dbfail (w_env w) = (\<lambda>_. None)"

lemma no_db_failureD [simp]: "no_db_failure w \<Longrightarrow> env_dbfail (w_env w) t = None"
  by (simp add: no_db_failure_def)

lemma demo_no_failure [simp]: "no_db_failure (demo_world d)"
  by (simp add: no_db_failure_def demo_env_def)

lemma demo_sandbox_simps [simp]:
  "sbx_SandboxID (demo_sandbox i st) = i" "sbx_State (demo_sandbox i st) = st" "sbx_Name (demo_sandbox i st) = ''name-'' @ i"
  "sbx_Backend (demo_sandbox i st) = ''firecracker''" "sbx_CPULimit (demo_sandbox i st) = Some 1"
  "sbx_MemoryLimitMB (demo_sandbox i st) = Some 256" "sbx_ProjectID (demo_sandbox i st) = ''p''"
  by (simp_all add: demo_sandbox_def)

abbreviation two_sandboxes :: "sandbox_state \<Rightarrow> sandbox_state \<Rightarrow> database" where
  "two_sandboxes s1 s2 \<equiv> demo_db [demo_sandbox ''a'' s1, demo_sandbox ''b'' s2] []"

lemma demo_Get [simp]:
  "sandbox_Get k (two_sandboxes s1 s2) =
     (if k = ''a'' then Some (demo_sandbox ''a'' s1) else if k = ''b'' then Some (demo_sandbox ''b'' s2) else None)"
  by (simp add: sandbox_Get_def row_find_def demo_db_def)

end
