(* ===== verification/Stores.thy ===== *)
theory Stores imports World begin

text \<open>
  Properties of the SQLite stores (\<open>internal/store/sqlite\<close>) that the services rely on: what is
  read back, which port is free, what a delete takes along, and which sandboxes count as
  expired.
\<close>

text \<open>
  what the sandbox store writes is what it reads.  A row that was created and then updated
  reads back with every column of the update, except the identity, project, backend and
  creation time, which stay those of the creation; no other row is affected, an update of a
  missing row is refused, and deleting the row makes it missing again.
\<close>

theorem sandbox_store_roundtrip:
  assumes "sandbox_Create s d = Inr d1" "sandbox_Update s' d1 = Inr d2" "sbx_SandboxID s' = sbx_SandboxID s"
    and "sandbox_Delete (sbx_SandboxID s) d2 = Inr d3"
  shows "sandbox_Get k d2 = (if k = sbx_SandboxID s
      then Some (s'\<lparr>sbx_ProjectID := sbx_ProjectID s, sbx_Backend := sbx_Backend s, sbx_CreatedAt := sbx_CreatedAt s,
        sbx_Metadata := meta_saved (sbx_Metadata s')\<rparr>)
      else sandbox_Get k d) \<and>
    sandbox_Get k d3 = (if k = sbx_SandboxID s then None else sandbox_Get k d) \<and>
    sandbox_Update s' d3 = Inl NotFound"
proof -
  have "merged_sandbox (saved_sandbox s) s' = s'\<lparr>sbx_ProjectID := sbx_ProjectID s, sbx_Backend := sbx_Backend s,
      sbx_CreatedAt := sbx_CreatedAt s, sbx_Metadata := meta_saved (sbx_Metadata s')\<rparr>"
    using assms(3) by (simp add: merged_sandbox_def saved_sandbox_def)
  then have d2: "sandbox_Get k d2 = (if k = sbx_SandboxID s
      then Some (s'\<lparr>sbx_ProjectID := sbx_ProjectID s, sbx_Backend := sbx_Backend s, sbx_CreatedAt := sbx_CreatedAt s,
        sbx_Metadata := meta_saved (sbx_Metadata s')\<rparr>)
      else sandbox_Get k d)" for k
    using sboxes.put_look [OF assms(2)] sboxes.add_look [OF assms(1)] assms(3) by simp
  have d3: "sandbox_Get k d3 = (if k = sbx_SandboxID s then None else sandbox_Get k d)" for k
    using sboxes.del_look [OF assms(4)] d2 by simp
  have "sandbox_Update s' d3 = Inl NotFound" by (rule sboxes.put_missing) (simp add: d3 assms(3))
  then show ?thesis using d2 d3 by simp
qed

text \<open>
  the port allocator returns the lowest free port.  The answer is not published, every
  port between the start of the range and it is, and it lies in the range, or is the start
  itself when the range is empty; the capacity error means that every port of the range is
  published.
\<close>

theorem port_allocation:
  "case port_NextAvailablePort lo hi d of
     Inr p \<Rightarrow> port_GetByPublishedPort p d = None \<and> lo \<le> p \<and> (p \<le> hi \<or> p = lo) \<and>
       {lo ..< p} \<subseteq> pb_PublishedPort ` set (db_ports d)
   | Inl e \<Rightarrow> e = Sentinel ErrCapacityExceeded \<and> {lo .. hi} \<subseteq> pb_PublishedPort ` set (db_ports d)"
proof (cases "next_candidate (set (map pb_PublishedPort (db_ports d))) lo hi")
  case None
  then show ?thesis using next_candidate_None [OF None] by (auto simp: port_NextAvailablePort_def)
next
  case (Some p)
  then show ?thesis
    using next_candidate_Some [OF Some] by (auto simp: port_NextAvailablePort_def port_GetByPublishedPort_def row_find_None)
qed

text \<open>
  deleting a project takes exactly its own rows along.  Its sandboxes are gone, every
  snapshot, session, port and boost of them is gone, and every row that belongs to another
  project is still there.
\<close>

theorem project_delete_cascades:
  assumes "project_Delete k d = Inr d'"
  shows "db_sandboxes d' = filter (\<lambda>s. sbx_ProjectID s \<noteq> k) (db_sandboxes d) \<and>
    (let gone = {sbx_SandboxID s |s. s \<in> set (db_sandboxes d) \<and> sbx_ProjectID s = k} in
      db_snapshots d' = filter (\<lambda>r. snp_SandboxID r \<notin> gone) (db_snapshots d) \<and>
      db_sessions d' = filter (\<lambda>r. ses_SandboxID r \<notin> gone) (db_sessions d) \<and>
      db_ports d' = filter (\<lambda>r. pb_SandboxID r \<notin> gone) (db_ports d) \<and>
      db_boosts d' = filter (\<lambda>r. bst_SandboxID r \<notin> gone) (db_boosts d)) \<and>
    project_Get k d' = None \<and> (k' \<noteq> k \<longrightarrow> project_Get k' d' = project_Get k' d)"
proof -
  have gone: "set (map sbx_SandboxID (filter (\<lambda>r. sbx_ProjectID r = k) (db_sandboxes d))) =
      {sbx_SandboxID s |s. s \<in> set (db_sandboxes d) \<and> sbx_ProjectID s = k}" by auto
  have "db_projects d' = filter (\<lambda>r. prj_ProjectID r \<noteq> k) (db_projects d)"
    using assms by (auto simp: project_Delete_def row_delete_Inr cascade_def)
  then show ?thesis
    using assms unfolding gone [symmetric] Let_def project_Get_def by (auto simp: project_Delete_def cascade_def)
qed

section \<open>Expiry\<close>

text \<open>
  among sandboxes whose expiry is a UTC time of the current day, in another second than
  the present one, the collector's query finds exactly those that are due and not destroyed.
\<close>

theorem ListExpired_exact:
  assumes "zone n = 0" "s \<in> set (db_sandboxes d)" "sbx_ExpiresAt s = Some t" "zone t = 0"
    and "inst t div d_second div 86400 = inst n div d_second div 86400" "inst t div d_second \<noteq> inst n div d_second"
  shows "s \<in> set (sandbox_ListExpired n d) \<longleftrightarrow> \<not> t_Before n t \<and> sbx_State s \<noteq> SandboxDestroyed"
  using assms time_le_same_day [of t n] by (auto simp: sandbox_ListExpired_def t_Before_def)

text \<open>2026-01-02T01:00:00+05:00, which is 2026-01-01T20:00:00Z, and a sweep three hours later.\<close>

definition offset_expiry :: gotime where "offset_expiry = GoTime 1767297600000000000 18000"

definition later_sweep :: gotime where "later_sweep = utc 1767308400000000000"

lemma offset_expiry_text: "\<not> time_le offset_expiry later_sweep"
  by code_simp

text \<open>
  An expiry that the client gave with a UTC offset is stored with that offset and compared
  as text, so it can be missed: a running sandbox that is due for three hours is not found.
\<close>

theorem offset_expiry_is_missed:
  "sandbox_ListExpired later_sweep (d\<lparr>db_sandboxes := [s\<lparr>sbx_State := SandboxRunning, sbx_ExpiresAt := Some offset_expiry\<rparr>]\<rparr>) = [] \<and>
     inst later_sweep - inst offset_expiry = 3 * d_hour"
  using offset_expiry_text
  by (simp add: sandbox_ListExpired_def) (simp add: later_sweep_def offset_expiry_def utc_def d_hour_def d_minute_def d_second_def)

section \<open>Witnesses\<close>

lemma sandbox_store_roundtrip_witness:
  "\<exists>d2 d3. sandbox_Get ''a'' d2 = Some (demo_sandbox ''a'' SandboxRunning) \<and> sandbox_Get ''a'' d3 = None"
proof -
  let ?d = "demo_db [] []" and ?s = "demo_sandbox ''a'' SandboxPending" and ?s' = "demo_sandbox ''a'' SandboxRunning"
  define d1 where "d1 = ?d\<lparr>db_sandboxes := [?s]\<rparr>"
  have c: "sandbox_Create ?s ?d = Inr d1"
    by (simp add: d1_def sandbox_Create_def references_def store_rows_def row_insert_def project_Get_def row_find_def
        saved_sandbox_def meta_saved_def demo_defs)
  define d2 where "d2 = ?d\<lparr>db_sandboxes := [?s']\<rparr>"
  have u: "sandbox_Update ?s' d1 = Inr d2"
    by (simp add: d1_def d2_def sandbox_Update_def store_rows_def row_update_def row_find_def upd_where_def
        merged_sandbox_def meta_saved_def demo_defs)
  obtain d3 where "sandbox_Delete (sbx_SandboxID ?s) d2 = Inr d3"
    using sboxes.del_found [of "''a''" d2 ?s'] by (auto simp: d2_def sandbox_Get_def)
  from sandbox_store_roundtrip [OF c u _ this, of "''a''"] show ?thesis by (auto simp: demo_sandbox_def meta_saved_def)
qed

lemma project_delete_cascades_witness:
  "\<exists>d'. project_Delete ''p'' (two_sandboxes SandboxRunning SandboxStopped) = Inr d' \<and> db_sandboxes d' = []"
proof -
  obtain d' where "project_Delete ''p'' (two_sandboxes SandboxRunning SandboxStopped) = Inr d'"
    by (simp add: project_Delete_def row_delete_def row_find_def store_rows_def demo_db_def)
  from this project_delete_cascades [OF this] show ?thesis by (simp add: demo_db_def)
qed

lemma ListExpired_exact_witness:
  "(demo_sandbox ''a'' SandboxRunning)\<lparr>sbx_ExpiresAt := Some (utc (50 * d_second))\<rparr> \<in> set (sandbox_ListExpired (utc (100 * d_second))
     (demo_db [(demo_sandbox ''a'' SandboxRunning)\<lparr>sbx_ExpiresAt := Some (utc (50 * d_second))\<rparr>] []))"
  by (subst ListExpired_exact [where t = "utc (50 * d_second)"]) (simp_all add: utc_def d_second_def demo_db_def t_Before_def)

end
