(* ===== verification/Resize.thy ===== *)
theory Resize imports World begin

text \<open>
  Resource limits (\<open>internal/service/limits.go\<close>) and the resize of an existing sandbox
  (\<open>internal/service/sandbox_resize.go\<close>): the bounds by backend, the persisted limits, the
  live call to the backend and the rollback when the backend refuses.
\<close>

section \<open>Bounds\<close>

definition backendFirecracker :: string where "backendFirecracker = ''firecracker''"

text \<open>\<open>(minCPU, maxCPU, minMem, maxMem)\<close> of a backend.\<close>

definition limit_bounds :: "string \<Rightarrow> int \<times> int \<times> int \<times> int" where
  "limit_bounds backend = (if backend = backendFirecracker then (1, 32, 128, 8192) else (1, 256, 16, 524288))"

definition validateResourceBounds :: "int option \<Rightarrow> int option \<Rightarrow> string \<Rightarrow> unit res" where
  "validateResourceBounds cpu mem backend =
     (let (minCPU, maxCPU, minMem, maxMem) = limit_bounds backend in
      if (case cpu of None \<Rightarrow> False | Some v \<Rightarrow> v < minCPU \<or> v > maxCPU) then Inl InvalidArgument
      else if (case mem of None \<Rightarrow> False | Some v \<Rightarrow> v < minMem \<or> v > maxMem) then Inl InvalidArgument
      else Inr ())"

text \<open>What the check guarantees for a limit that is set.\<close>

definition cpu_in_bounds :: "string \<Rightarrow> int option \<Rightarrow> bool" where
  "cpu_in_bounds backend cpu = (case cpu of None \<Rightarrow> True
     | Some v \<Rightarrow> 1 \<le> v \<and> v \<le> (if backend = backendFirecracker then 32 else 256))"

definition mem_in_bounds :: "string \<Rightarrow> int option \<Rightarrow> bool" where
  "mem_in_bounds backend mem = (case mem of None \<Rightarrow> True
     | Some v \<Rightarrow> (if backend = backendFirecracker then 128 \<le> v \<and> v \<le> 8192 else 16 \<le> v \<and> v \<le> 524288))"

lemma validate_iff: "validateResourceBounds cpu mem backend = Inr () \<longleftrightarrow> cpu_in_bounds backend cpu \<and> mem_in_bounds backend mem"
  by (auto simp: validateResourceBounds_def limit_bounds_def cpu_in_bounds_def mem_in_bounds_def Let_def
      split: option.splits)

lemma validate_Inl: "validateResourceBounds cpu mem backend = Inl e \<Longrightarrow> e = InvalidArgument"
  by (auto simp: validateResourceBounds_def Let_def split: prod.splits if_splits)

section \<open>UpdateResources\<close>

record resize_opts =
  ro_SandboxID :: string
  ro_CPULimit :: "int option"
  ro_MemoryLimitMB :: "int option"
  ro_ApplyLiveOnly :: bool

text \<open>\<open>errors.As(err, &prErr)\<close>: a resize error is returned unwrapped.\<close>

definition unwrap_resize :: "goerr \<Rightarrow> goerr" where
  "unwrap_resize e = (case as_resize e of Some r \<Rightarrow> ProviderResizeError r | None \<Rightarrow> e)"

definition or_else :: "'a option \<Rightarrow> 'a option \<Rightarrow> 'a option" where
  "or_else x y = (case x of None \<Rightarrow> y | Some v \<Rightarrow> Some v)"

definition sbx_ref :: "sandbox \<Rightarrow> backend_ref" where
  "sbx_ref s = \<lparr>ref_Backend = sbx_Backend s, ref_Ref = sbx_BackendRef s\<rparr>"

definition UpdateResources :: "resize_opts \<Rightarrow> (sandbox \<times> bool) res M" where
  "UpdateResources opts =
     (if ro_CPULimit opts = None \<and> ro_MemoryLimitMB opts = None then ret (Inl InvalidArgument)
      else bindE (store_get (sandbox_Get (ro_SandboxID opts))) (\<lambda>sbx.
        if sbx_State sbx = SandboxDestroyed \<or> sbx_State sbx = SandboxFailed then ret (Inl InvalidState)
        else bindE (ret (validateResourceBounds (ro_CPULimit opts) (ro_MemoryLimitMB opts) (sbx_Backend sbx))) (\<lambda>_. do {
          t \<leftarrow> now;
          let sbx1 = sbx\<lparr>sbx_CPULimit := or_else (ro_CPULimit opts) (sbx_CPULimit sbx),
                         sbx_MemoryLimitMB := or_else (ro_MemoryLimitMB opts) (sbx_MemoryLimitMB sbx),
                         sbx_UpdatedAt := t\<rparr>;
          bindE (if ro_ApplyLiveOnly opts then ret (Inr ()) else store_write (sandbox_Update sbx1)) (\<lambda>_.
          bindE
            (if sbx_State sbx = SandboxRunning then do {
               let req = \<lparr>ur_CPULimit = ro_CPULimit opts, ur_MemoryLimitMB = ro_MemoryLimitMB opts\<rparr>;
               r \<leftarrow> provide (PUpdateResources (sbx_ref sbx) req) (\<lambda>p n. pv_UpdateResources p n (sbx_ref sbx) req);
               case r of
                 Inr _ \<Rightarrow> ret (Inr True)
               | Inl e \<Rightarrow>
                   if ro_ApplyLiveOnly opts then ret (Inl (unwrap_resize e))
                   else do {
                     rb \<leftarrow> store_write (sandbox_Update
                             (sbx1\<lparr>sbx_CPULimit := sbx_CPULimit sbx, sbx_MemoryLimitMB := sbx_MemoryLimitMB sbx\<rparr>));
                     case rb of Inl rbErr \<Rightarrow> ret (Inl rbErr) | Inr _ \<Rightarrow> ret (Inl (unwrap_resize e)) } }
             else ret (Inr False)) (\<lambda>appliedLive. do {
               emit EventSandboxResourcesUpdated
                 [(''sandbox_id'', JStr (sbx_SandboxID sbx1)), (''cpu_limit'', json_intptr (sbx_CPULimit sbx1)),
                  (''memory_limit_mb'', json_intptr (sbx_MemoryLimitMB sbx1)), (''applied_live'', JBool appliedLive)];
               ret (Inr (sbx1, appliedLive)) })) })))"

section \<open>What it keeps\<close>

text \<open>Boost rows, timers and the columns of other sandboxes are no business of a resize.\<close>

lemma keeps_UpdateResources:
  "(\<And>s d d' tm. P d tm \<Longrightarrow> sandbox_Update s d = Inr d' \<Longrightarrow> P d' tm) \<Longrightarrow> keeps (dt P) (UpdateResources opts)"
  unfolding UpdateResources_def by (intro pres keeps_write)

lemma keeps_UpdateResources_ok [pres]: "keeps (db db_ok) (UpdateResources opts)"
  by (rule keeps_UpdateResources) (rule sandbox_Update_ok)

lemma keeps_UpdateResources_live: "ro_ApplyLiveOnly opts \<Longrightarrow> keeps (dt P) (UpdateResources opts)"
  unfolding UpdateResources_def by (intro pres) simp_all

section \<open>Properties\<close>

definition limits :: "sandbox \<Rightarrow> int option \<times> int option" where
  "limits s = (sbx_CPULimit s, sbx_MemoryLimitMB s)"

definition asked_limits :: "resize_opts \<Rightarrow> sandbox \<Rightarrow> int option \<times> int option" where
  "asked_limits opts s = (or_else (ro_CPULimit opts) (sbx_CPULimit s), or_else (ro_MemoryLimitMB opts) (sbx_MemoryLimitMB s))"

definition live_request :: "resize_opts \<Rightarrow> update_req" where
  "live_request opts = \<lparr>ur_CPULimit = ro_CPULimit opts, ur_MemoryLimitMB = ro_MemoryLimitMB opts\<rparr>"

definition resize_guard :: "resize_opts \<Rightarrow> sandbox \<Rightarrow> bool" where
  "resize_guard opts s \<longleftrightarrow> (ro_CPULimit opts \<noteq> None \<or> ro_MemoryLimitMB opts \<noteq> None) \<and>
     sbx_State s \<notin> {SandboxDestroyed, SandboxFailed} \<and>
     cpu_in_bounds (sbx_Backend s) (ro_CPULimit opts) \<and> mem_in_bounds (sbx_Backend s) (ro_MemoryLimitMB opts)"

text \<open>The backend's answer to the live call, which is the fourth effect of the call.\<close>

definition refused_live :: "resize_opts \<Rightarrow> sandbox \<Rightarrow> world \<Rightarrow> nat \<Rightarrow> bool" where
  "refused_live opts s w n \<longleftrightarrow> sbx_State s = SandboxRunning \<and>
     isl (pv_UpdateResources (env_provider (w_env w)) (w_tick w + n) (sbx_ref s) (live_request opts))"

definition resizable :: "resize_opts \<Rightarrow> world \<Rightarrow> bool" where
  "resizable opts w \<longleftrightarrow> (case sandbox_Get (ro_SandboxID opts) (w_db w) of None \<Rightarrow> False
     | Some s \<Rightarrow> resize_guard opts s \<and> \<not> refused_live opts s w (if ro_ApplyLiveOnly opts then 2 else 3))"

definition rollback_fails :: "resize_opts \<Rightarrow> sandbox \<Rightarrow> world \<Rightarrow> bool" where
  "rollback_fails opts s w \<longleftrightarrow> \<not> ro_ApplyLiveOnly opts \<and> resize_guard opts s \<and>
     env_dbfail (w_env w) (w_tick w) = None \<and> env_dbfail (w_env w) (w_tick w + 2) = None \<and>
     refused_live opts s w 3 \<and> env_dbfail (w_env w) (w_tick w + 4) \<noteq> None"

text \<open>
  C11: in every pattern of database failures, a resize either succeeds with both limits in the
  bounds of the backend, on a sandbox that is neither destroyed nor failed, having called the
  backend exactly when the sandbox runs and persisted the limits exactly when it is not
  live-only; or it fails and the persisted limits and state of the sandbox are what they were,
  also when the backend refused after the limits had been written.  The one exception is the
  one the code reports as such: the backend refused, and the write that takes the limits back
  failed too; then the new limits stay recorded.  When no database call fails, the call
  succeeds exactly when something is asked for, the sandbox is there, neither destroyed nor
  failed, the limits are in bounds, and the backend agrees or is not needed.
\<close>

theorem UpdateResources_correct:
  assumes "db_ok (w_db w)" "run_state (UpdateResources opts) w = (r, w')"
  shows "(case r of
      Inr (s', live) \<Rightarrow> (\<exists>s. sandbox_Get (ro_SandboxID opts) (w_db w) = Some s \<and>
        sbx_State s \<notin> {SandboxDestroyed, SandboxFailed} \<and>
        cpu_in_bounds (sbx_Backend s) (ro_CPULimit opts) \<and> mem_in_bounds (sbx_Backend s) (ro_MemoryLimitMB opts) \<and>
        limits s' = asked_limits opts s \<and>
        (live \<longleftrightarrow> sbx_State s = SandboxRunning) \<and>
        w_calls w' = w_calls w @ (if live then [PUpdateResources (sbx_ref s) (live_request opts)] else []) \<and>
        map_option limits (sandbox_Get (ro_SandboxID opts) (w_db w')) =
          Some (if ro_ApplyLiveOnly opts then limits s else limits s'))
    | Inl e \<Rightarrow>
        map_option (\<lambda>s. (limits s, sbx_State s)) (sandbox_Get (ro_SandboxID opts) (w_db w')) =
          map_option (\<lambda>s. (if rollback_fails opts s w then asked_limits opts s else limits s, sbx_State s))
            (sandbox_Get (ro_SandboxID opts) (w_db w))) \<and>
    (no_db_failure w \<longrightarrow> (isl r \<longleftrightarrow> \<not> resizable opts w))"
proof (cases "sandbox_Get (ro_SandboxID opts) (w_db w)")
  case None
  then show ?thesis using assms by (auto simp: UpdateResources_def resizable_def runs split: if_splits option.splits)
next
  case (Some s)
  note id = sandbox_Get_id [OF Some]
  define s1 where "s1 t = s\<lparr>sbx_CPULimit := or_else (ro_CPULimit opts) (sbx_CPULimit s),
     sbx_MemoryLimitMB := or_else (ro_MemoryLimitMB opts) (sbx_MemoryLimitMB s), sbx_UpdatedAt := t\<rparr>" for t
  have s1: "sbx_SandboxID (s1 t) = ro_SandboxID opts" "sbx_Name (s1 t) = sbx_Name s" "sbx_State (s1 t) = sbx_State s"
    "limits (s1 t) = asked_limits opts s" "sbx_CPULimit (s1 t) = or_else (ro_CPULimit opts) (sbx_CPULimit s)"
    "sbx_MemoryLimitMB (s1 t) = or_else (ro_MemoryLimitMB opts) (sbx_MemoryLimitMB s)" for t
    by (simp_all add: s1_def id limits_def asked_limits_def)
  have u1: "sandbox_Update (s1 t) (w_db w) = Inr (put_sandbox (s1 t) (w_db w))" for t
    by (rule sandbox_Update_put [OF assms(1)]) (simp_all add: s1 Some)
  have ok1: "db_ok (put_sandbox (s1 t) (w_db w))" for t
    using u1 sandbox_Update_ok [OF assms(1)] by blast
  have u2: "sandbox_Update (s1 t\<lparr>sbx_CPULimit := c, sbx_MemoryLimitMB := m\<rparr>) (put_sandbox (s1 t) (w_db w)) =
      Inr (put_sandbox (s1 t\<lparr>sbx_CPULimit := c, sbx_MemoryLimitMB := m\<rparr>) (put_sandbox (s1 t) (w_db w)))" for t c m
    by (rule sandbox_Update_put [OF ok1, where old = "merged_sandbox s (s1 t)"]) (simp_all add: s1 Some)
  note defs = UpdateResources_def runs s1_def [symmetric] Let_def u1 u2 validate_iff limits_def resizable_def
    rollback_fails_def resize_guard_def live_request_def numeral_eq_Suc
  show ?thesis
  proof (cases "resize_guard opts s \<and> env_dbfail (w_env w) (w_tick w) = None")
    case False
    then show ?thesis
      using assms(2) Some s1
      by (auto simp: defs split: if_splits sum.splits option.splits dest!: validate_Inl)
  next
    case True
    then have guard: "resize_guard opts s" and db0: "env_dbfail (w_env w) (w_tick w) = None" by simp_all
    have v: "validateResourceBounds (ro_CPULimit opts) (ro_MemoryLimitMB opts) (sbx_Backend s) = Inr ()"
      using guard by (simp add: validate_iff resize_guard_def)
    have g: "cpu_in_bounds (sbx_Backend s) (ro_CPULimit opts)" "mem_in_bounds (sbx_Backend s) (ro_MemoryLimitMB opts)"
      "\<not> (ro_CPULimit opts = None \<and> ro_MemoryLimitMB opts = None)" "sbx_State s \<noteq> SandboxDestroyed" "sbx_State s \<noteq> SandboxFailed"
      using guard by (auto simp: resize_guard_def)
    note run = UpdateResources_def runs s1_def [symmetric] Let_def u1 u2 live_request_def [symmetric] g v db0 Some
    note facts = resizable_def rollback_fails_def guard db0 refused_live_def Some limits_def asked_limits_def s1 no_db_failure_def
    show ?thesis
    proof (cases "ro_ApplyLiveOnly opts")
      case True
      then show ?thesis
        using assms(2)
        by (cases "sbx_State s = SandboxRunning"; cases "pv_UpdateResources (env_provider (w_env w)) (w_tick w + 2) (sbx_ref s) (live_request opts)")
          (auto simp: run facts numeral_eq_Suc)
    next
      case False
      note stored = this
      show ?thesis
      proof (cases "env_dbfail (w_env w) (w_tick w + 2)")
        case None
        then show ?thesis
          using assms(2) stored
          by (cases "sbx_State s = SandboxRunning"; cases "pv_UpdateResources (env_provider (w_env w)) (w_tick w + 3) (sbx_ref s) (live_request opts)";
              cases "env_dbfail (w_env w) (w_tick w + 4)")
            (auto simp: run facts numeral_eq_Suc)
      next
        case (Some c)
        then show ?thesis using assms(2) stored by (auto simp: run facts numeral_eq_Suc)
      qed
    qed
  qed
qed

definition demo_resize :: resize_opts where
  "demo_resize = \<lparr>ro_SandboxID = ''a'', ro_CPULimit = Some 2, ro_MemoryLimitMB = None, ro_ApplyLiveOnly = False\<rparr>"

abbreviation demo_two :: world where
  "demo_two \<equiv> demo_world (two_sandboxes SandboxRunning SandboxStopped)"

lemma demo_resize_run: "\<not> isl (fst (run_state (UpdateResources demo_resize) demo_two))"
  by (simp add: UpdateResources_def demo_resize_def runs validateResourceBounds_def limit_bounds_def
      backendFirecracker_def Let_def sandbox_Update_put demo_db_ok demo_env_def demo_provider_def)

text \<open>The write that takes the limits back is the fifth effect; here the backend refuses and that write fails.\<close>

definition stuck_world :: world where
  "stuck_world = demo_two\<lparr>w_env := demo_env\<lparr>env_dbfail := (\<lambda>t. if t = 4 then Some 13 else None),
     env_provider := demo_provider\<lparr>pv_UpdateResources := (\<lambda>_ _ _. Inl Conflict)\<rparr>\<rparr>\<rparr>"

lemma UpdateResources_correct_witness:
  "map_option limits (sandbox_Get ''a'' (w_db (snd (run_state (UpdateResources demo_resize) demo_two)))) = Some (Some 2, Some 256) \<and>
   map_option limits (sandbox_Get ''a'' (w_db (snd (run_state (UpdateResources demo_resize) stuck_world)))) = Some (Some 2, Some 256)"
proof -
  obtain x w' where run: "run_state (UpdateResources demo_resize) demo_two = (Inr x, w')"
    using demo_resize_run by (cases "run_state (UpdateResources demo_resize) demo_two"; cases "fst (run_state (UpdateResources demo_resize) demo_two)") auto
  obtain r2 w2 where run2: "run_state (UpdateResources demo_resize) stuck_world = (r2, w2)" by fastforce
  have sel: "ro_SandboxID demo_resize = ''a''" "ro_CPULimit demo_resize = Some 2"
    "ro_MemoryLimitMB demo_resize = None" "\<not> ro_ApplyLiveOnly demo_resize"
    by (simp_all add: demo_resize_def)
  have a: "map_option limits (sandbox_Get ''a'' (w_db w')) = Some (Some 2, Some 256)"
    using UpdateResources_correct [OF _ run]
    by (cases x) (auto simp: demo_db_ok sel or_else_def asked_limits_def)
  have w: "w_db stuck_world = two_sandboxes SandboxRunning SandboxStopped" "w_tick stuck_world = 0"
    "env_dbfail (w_env stuck_world) = (\<lambda>t. if t = 4 then Some 13 else None)"
    "pv_UpdateResources (env_provider (w_env stuck_world)) = (\<lambda>_ _ _. Inl Conflict)"
    by (simp_all add: stuck_world_def)
  have rb: "rollback_fails demo_resize (demo_sandbox ''a'' SandboxRunning) stuck_world"
    by (simp add: rollback_fails_def resize_guard_def refused_live_def w sel cpu_in_bounds_def mem_in_bounds_def)
  have b: "map_option limits (sandbox_Get ''a'' (w_db w2)) = Some (Some 2, Some 256)"
    using UpdateResources_correct [OF _ run2]
    by (cases r2) (auto simp: w demo_db_ok sel or_else_def asked_limits_def rb)
  show ?thesis using a b by (simp add: run run2)
qed

end
