(* ===== verification/Boosts.thy ===== *)
theory Boosts imports Resize begin

text \<open>
  Time-bounded resource boosts (\<open>internal/service/boost.go\<close>): starting, expiring with retries,
  cancelling, recovery after a restart, and the lifecycle hook of stop and destroy.  A boost
  row in state active must always have a pending timer, or the boost would never be reverted;
  \<open>armed_but S\<close> states it for all rows but those with an id in \<open>S\<close>.
\<close>

record boost_opts =
  bo_SandboxID :: string
  bo_CPULimit :: "int option"
  bo_MemoryLimitMB :: "int option"
  bo_DurationSeconds :: int
  bo_Source :: string

section \<open>Timers\<close>

definition armExpiry :: "string \<Rightarrow> int \<Rightarrow> unit M" where
  "armExpiry bid delay = set_timer bid (Some \<lparr>tm_delay = (if delay < 0 then 0 else delay), tm_pending = True\<rparr>)"

definition armRemaining :: "boost \<Rightarrow> unit M" where
  "armRemaining b = do { t \<leftarrow> now; armExpiry (bst_BoostID b) (t_Sub (bst_ExpiresAt b) t) }"

definition boostBackoff :: "int list" where
  "boostBackoff = [1 * d_second, 5 * d_second, 30 * d_second, 2 * d_minute, 10 * d_minute]"

definition armRetry :: "string \<Rightarrow> unit M" where
  "armRetry bid = armExpiry bid (boostBackoff ! 0)"

definition stopTimer :: "string \<Rightarrow> unit M" where
  "stopTimer bid = set_timer bid None"

definition rearm_active :: "boost \<Rightarrow> unit M" where
  "rearm_active b = (if bst_State b = BoostActive then armRemaining b else ret ())"

section \<open>Operations\<close>

definition BoostService_Get :: "string \<Rightarrow> boost res M" where
  "BoostService_Get sid = store_get (boost_Get sid)"

definition live_resize :: "string \<Rightarrow> int option \<Rightarrow> int option \<Rightarrow> resize_opts" where
  "live_resize sid cpu mem = \<lparr>ro_SandboxID = sid, ro_CPULimit = cpu, ro_MemoryLimitMB = mem, ro_ApplyLiveOnly = True\<rparr>"

text \<open>The checks of \<open>Start\<close> that are made before and again under the sandbox's lock.\<close>

definition boost_check :: "boost_opts \<Rightarrow> sandbox res M" where
  "boost_check opts = bindE (store_get (sandbox_Get (bo_SandboxID opts))) (\<lambda>sbx.
     if sbx_State sbx \<noteq> SandboxRunning then ret (Inl InvalidState)
     else bindE (ret (validateResourceBounds (bo_CPULimit opts) (bo_MemoryLimitMB opts) (sbx_Backend sbx)))
            (\<lambda>_. ret (Inr sbx)))"

text \<open>The failure branch of \<open>Start\<close> after the row was written: put the prior boost back or delete the new one.\<close>

definition undo_start :: "boost \<Rightarrow> boost option \<Rightarrow> goerr \<Rightarrow> boost res M" where
  "undo_start boost prior applyErr =
     (case prior of
        Some p \<Rightarrow> do {
          r \<leftarrow> store_write (boost_Upsert p);
          case r of
            Inl restoreErr \<Rightarrow> do { armRetry (bst_BoostID boost); ret (Inl (Joined applyErr restoreErr)) }
          | Inr _ \<Rightarrow> do { rearm_active p; ret (Inl applyErr) } }
      | None \<Rightarrow> do {
          r \<leftarrow> store_write (boost_Delete (bst_BoostID boost));
          case r of
            Inl delErr \<Rightarrow> if errors_Is delErr ErrNotFound then ret (Inl applyErr)
              else do { armRetry (bst_BoostID boost); ret (Inl (Joined applyErr delErr)) }
          | Inr _ \<Rightarrow> ret (Inl applyErr) })"

definition boost_begin :: "boost_opts \<Rightarrow> int \<Rightarrow> sandbox \<Rightarrow> boost option \<Rightarrow> boost res M" where
  "boost_begin opts dur sbx prior = do {
     (case prior of Some p \<Rightarrow> stopTimer (bst_BoostID p) | None \<Rightarrow> ret ());
     t \<leftarrow> now;
     u \<leftarrow> new_uuid;
     let source = (if bo_Source opts = [] then ''external'' else bo_Source opts);
     let boost = \<lparr>bst_BoostID = ''bst-'' @ take 8 u, bst_SandboxID = sbx_SandboxID sbx,
        bst_OriginalCPULimit = sbx_CPULimit sbx, bst_OriginalMemoryLimitMB = sbx_MemoryLimitMB sbx,
        bst_BoostedCPULimit = bo_CPULimit opts, bst_BoostedMemoryLimitMB = bo_MemoryLimitMB opts,
        bst_StartedAt = t, bst_ExpiresAt = t_Add t dur, bst_State = BoostActive, bst_Source = source,
        bst_RevertAttempts = 0, bst_LastError = None\<rparr>;
     r \<leftarrow> store_write (boost_Upsert boost);
     case r of
       Inl e \<Rightarrow> do {
         (case prior of Some p \<Rightarrow> rearm_active p | None \<Rightarrow> ret ());
         ret (Inl e) }
     | Inr _ \<Rightarrow> do {
         a \<leftarrow> UpdateResources (live_resize (sbx_SandboxID sbx) (bo_CPULimit opts) (bo_MemoryLimitMB opts));
         case a of
           Inl e \<Rightarrow> undo_start boost prior e
         | Inr _ \<Rightarrow> do {
             armRemaining boost;
             publish \<lparr>ev_Type = EventBoostStarted, ev_Timestamp = t, ev_Data =
               [(''boost_id'', JStr (bst_BoostID boost)), (''sandbox_id'', JStr (bst_SandboxID boost)),
                (''boosted_cpu_limit'', json_intptr (bst_BoostedCPULimit boost)),
                (''boosted_memory_limit_mb'', json_intptr (bst_BoostedMemoryLimitMB boost)),
                (''expires_at'', JStr (rfc3339nano (bst_ExpiresAt boost))), (''source'', JStr source)]\<rparr>;
             ret (Inr boost) } } }"

definition BoostService_Start :: "boost_opts \<Rightarrow> boost res M" where
  "BoostService_Start opts =
     (if bo_DurationSeconds opts \<le> 0 then ret (Inl InvalidArgument)
      else do {
        let dur = seconds_dur (bo_DurationSeconds opts);
        maxDuration \<leftarrow> config env_maxBoost;
        if dur > maxDuration then ret (Inl InvalidArgument)
        else if bo_CPULimit opts = None \<and> bo_MemoryLimitMB opts = None then ret (Inl InvalidArgument)
        else bindE (boost_check opts) (\<lambda>_. bindE (boost_check opts) (\<lambda>sbx. do {
          g \<leftarrow> store_get (boost_Get (bo_SandboxID opts));
          case g of
            Inl e \<Rightarrow> if errors_Is e ErrNotFound then boost_begin opts dur sbx None else ret (Inl e)
          | Inr p \<Rightarrow> boost_begin opts dur sbx (Some p) })) })"

definition emitExpired :: "boost \<Rightarrow> string \<Rightarrow> int option \<Rightarrow> int option \<Rightarrow> unit M" where
  "emitExpired b cause cpu mem = emit EventBoostExpired
     [(''boost_id'', JStr (bst_BoostID b)), (''sandbox_id'', JStr (bst_SandboxID b)), (''cause'', JStr cause),
      (''reverted_cpu_limit'', json_intptr cpu), (''reverted_memory_limit_mb'', json_intptr mem),
      (''source'', JStr ''external'')]"

text \<open>Delete the row; an error other than not-found leaves a retry timer.\<close>

definition drop_row :: "string \<Rightarrow> unit M \<Rightarrow> unit M" where
  "drop_row bid continue = do {
     r \<leftarrow> store_write (boost_Delete bid);
     case r of
       Inl e \<Rightarrow> if errors_Is e ErrNotFound then continue else armRetry bid
     | Inr _ \<Rightarrow> continue }"

definition revert_failed :: "boost \<Rightarrow> goerr \<Rightarrow> unit M" where
  "revert_failed boost applyErr = (let bid = bst_BoostID boost; attempts = bst_RevertAttempts boost + 1 in
     if attempts > int (length boostBackoff) then do {
       r \<leftarrow> store_write (boost_UpdateState bid BoostRevertFailed attempts (Some applyErr));
       case r of
         Inl e \<Rightarrow> if errors_Is e ErrNotFound then ret () else armRetry bid
       | Inr _ \<Rightarrow> emit EventBoostRevertFailed
           [(''boost_id'', JStr bid), (''sandbox_id'', JStr (bst_SandboxID boost)), (''attempts'', JNum attempts),
            (''source'', JStr ''external'')] }
     else do {
       r \<leftarrow> store_write (boost_UpdateState bid BoostActive attempts (Some applyErr));
       case r of
         Inl e \<Rightarrow> if errors_Is e ErrNotFound then ret () else armRetry bid
       | Inr _ \<Rightarrow> armExpiry bid (boostBackoff ! nat (attempts - 1)) })"

definition expire_found :: "boost \<Rightarrow> unit M" where
  "expire_found boost = (let bid = bst_BoostID boost in do {
     stopTimer bid;
     s \<leftarrow> store_get (sandbox_Get (bst_SandboxID boost));
     case s of
       Inl e \<Rightarrow> if errors_Is e ErrNotFound then drop_row bid (ret ()) else armRetry bid
     | Inr sbx \<Rightarrow>
         if sbx_State sbx \<noteq> SandboxRunning
         then drop_row bid (emitExpired boost ''sandbox_not_running'' (sbx_CPULimit sbx) (sbx_MemoryLimitMB sbx))
         else do {
           a \<leftarrow> UpdateResources (live_resize (sbx_SandboxID sbx) (sbx_CPULimit sbx) (sbx_MemoryLimitMB sbx));
           case a of
             Inr _ \<Rightarrow> drop_row bid (emitExpired boost ''expired'' (sbx_CPULimit sbx) (sbx_MemoryLimitMB sbx))
           | Inl applyErr \<Rightarrow> revert_failed boost applyErr } })"

definition boost_expire :: "string \<Rightarrow> unit M" where
  "boost_expire bid = do {
     c \<leftarrow> store_get (boost_GetByID bid);
     case c of
       Inl e \<Rightarrow> if errors_Is e ErrNotFound then stopTimer bid else armRetry bid
     | Inr candidate \<Rightarrow> do {
         b \<leftarrow> store_get (boost_GetByID bid);
         case b of
           Inl e \<Rightarrow> if errors_Is e ErrNotFound then stopTimer bid else armRetry bid
         | Inr boost \<Rightarrow> expire_found boost } }"

text \<open>The clock fires a pending timer: it stays in the map and \<open>expire\<close> runs.\<close>

definition fire_timer :: "string \<Rightarrow> unit M" where
  "fire_timer bid = do {
     t \<leftarrow> get_timer bid;
     case t of
       None \<Rightarrow> ret ()
     | Some tm \<Rightarrow> if tm_pending tm
         then do { set_timer bid (Some (tm\<lparr>tm_pending := False\<rparr>)); boost_expire bid } else ret () }"

text \<open>A delete whose error other than not-found is reported and leaves a retry timer.\<close>

definition cancel_delete :: "string \<Rightarrow> (goerr \<Rightarrow> goerr) \<Rightarrow> unit res M \<Rightarrow> unit res M" where
  "cancel_delete bid wrap continue = do {
     r \<leftarrow> store_write (boost_Delete bid);
     case r of
       Inl e \<Rightarrow> if errors_Is e ErrNotFound then continue else do { armRetry bid; ret (Inl (wrap e)) }
     | Inr _ \<Rightarrow> continue }"

definition cancel_done :: "boost \<Rightarrow> sandbox \<Rightarrow> unit res M" where
  "cancel_done boost sbx = do {
     emitExpired boost ''cancelled'' (sbx_CPULimit sbx) (sbx_MemoryLimitMB sbx); ret (Inr ()) }"

definition cancel_found :: "string \<Rightarrow> boost \<Rightarrow> unit res M" where
  "cancel_found sid boost = (let bid = bst_BoostID boost in do {
     stopTimer bid;
     s \<leftarrow> store_get (sandbox_Get sid);
     case s of
       Inl err \<Rightarrow>
         if errors_Is err ErrNotFound then cancel_delete bid (Joined err) (ret (Inl err))
         else do { rearm_active boost; ret (Inl err) }
     | Inr sbx \<Rightarrow>
         if sbx_State sbx \<noteq> SandboxRunning then cancel_delete bid id (cancel_done boost sbx)
         else do {
           a \<leftarrow> UpdateResources (live_resize (sbx_SandboxID sbx) (sbx_CPULimit sbx) (sbx_MemoryLimitMB sbx));
           case a of
             Inl applyErr \<Rightarrow> do {
               r \<leftarrow> store_write (boost_UpdateState bid BoostRevertFailed (bst_RevertAttempts boost + 1) (Some applyErr));
               case r of
                 Inl stateErr \<Rightarrow> if errors_Is stateErr ErrNotFound then ret (Inl applyErr)
                   else do { armRetry bid; ret (Inl (Joined applyErr stateErr)) }
               | Inr _ \<Rightarrow> ret (Inl applyErr) }
           | Inr _ \<Rightarrow> cancel_delete bid id (cancel_done boost sbx) } })"

definition BoostService_Cancel :: "string \<Rightarrow> unit res M" where
  "BoostService_Cancel sid = bindE (store_get (boost_Get sid)) (cancel_found sid)"

text \<open>A goroutine that \<open>Recover\<close> starts for an expired boost runs in place here.\<close>

definition BoostService_Recover :: "unit res M" where
  "BoostService_Recover = bindE (store_read boost_ListAll) (\<lambda>rows. do {
     t \<leftarrow> now;
     forM rows (\<lambda>b.
       if bst_State b \<noteq> BoostActive then ret ()
       else if \<not> t_Before t (bst_ExpiresAt b) then boost_expire (bst_BoostID b)
       else armRemaining b);
     ret (Inr ()) })"

definition cancelOnLifecycleLocked :: "string \<Rightarrow> unit M" where
  "cancelOnLifecycleLocked sid = do {
     g \<leftarrow> store_get (boost_Get sid);
     case g of
       Inl _ \<Rightarrow> ret ()
     | Inr boost \<Rightarrow> do {
         r \<leftarrow> store_write (boost_Delete (bst_BoostID boost));
         case r of
           Inl e \<Rightarrow> if errors_Is e ErrNotFound then stopTimer (bst_BoostID boost) else ret ()
         | Inr _ \<Rightarrow> stopTimer (bst_BoostID boost) } }"

section \<open>The database stays well-formed\<close>

lemma keeps_timers [pres]: "keeps (db db_ok) (armExpiry bid delay)" "keeps (db db_ok) (stopTimer bid)"
  "keeps (db db_ok) (armRetry bid)" "keeps (db db_ok) (armRemaining b)" "keeps (db db_ok) (rearm_active b)"
  unfolding armExpiry_def stopTimer_def armRetry_def armRemaining_def rearm_active_def by (intro pres)+

lemma keeps_Boost_Start [pres]: "keeps (db db_ok) (BoostService_Start opts)"
  unfolding BoostService_Start_def boost_begin_def undo_start_def boost_check_def by (intro pres)

lemma keeps_drop_row [pres]: "keeps (db db_ok) m \<Longrightarrow> keeps (db db_ok) (drop_row bid m)"
  unfolding drop_row_def by (intro pres)

lemma keeps_cancel_delete [pres]: "keeps (db db_ok) m \<Longrightarrow> keeps (db db_ok) (cancel_delete bid f m)"
  unfolding cancel_delete_def by (intro pres)

lemma keeps_expire [pres]: "keeps (db db_ok) (boost_expire bid)"
  unfolding boost_expire_def expire_found_def revert_failed_def emitExpired_def by (intro pres)

lemma keeps_fire [pres]: "keeps (db db_ok) (fire_timer bid)"
  unfolding fire_timer_def by (intro pres)

lemma keeps_Boost_Cancel [pres]: "keeps (db db_ok) (BoostService_Cancel sid)"
  unfolding BoostService_Cancel_def cancel_found_def cancel_done_def emitExpired_def by (intro pres)

lemma keeps_Recover [pres]: "keeps (db db_ok) BoostService_Recover"
  unfolding BoostService_Recover_def by (intro pres)

lemma keeps_lifecycle [pres]: "keeps (db db_ok) (cancelOnLifecycleLocked sid)"
  unfolding cancelOnLifecycleLocked_def by (intro pres)

section \<open>Every active boost has a pending timer\<close>

definition pending :: "(string \<Rightarrow> timer option) \<Rightarrow> string \<Rightarrow> bool" where
  "pending tm bid = (case tm bid of None \<Rightarrow> False | Some t \<Rightarrow> tm_pending t)"

definition armed_but :: "string set \<Rightarrow> database \<Rightarrow> (string \<Rightarrow> timer option) \<Rightarrow> bool" where
  "armed_but S d tm \<longleftrightarrow> db_ok d \<and>
     (\<forall>b\<in>set (db_boosts d). bst_State b = BoostActive \<and> bst_BoostID b \<notin> S \<longrightarrow> pending tm (bst_BoostID b))"

abbreviation all_armed :: "world \<Rightarrow> bool" where
  "all_armed \<equiv> dt (armed_but {})"

lemma armed_mono: "S \<subseteq> T \<Longrightarrow> armed_but S d tm \<Longrightarrow> armed_but T d tm"
  by (auto simp: armed_but_def)

lemma pending_arm [simp]: "pending (tm(i := Some t)) j = (if i = j then tm_pending t else pending tm j)"
  by (simp add: pending_def)

lemma pending_stop [simp]: "pending (tm(i := None)) j = (i \<noteq> j \<and> pending tm j)"
  by (simp add: pending_def)

lemma v_arm: "valid (dt (armed_but (insert bid S))) (armExpiry bid delay) (\<lambda>_. dt (armed_but S))"
  by (auto simp: valid_def dt_def armExpiry_def runs armed_but_def)

lemma v_retry: "valid (dt (armed_but (insert bid S))) (armRetry bid) (\<lambda>_. dt (armed_but S))"
  unfolding armRetry_def by (rule v_arm)

lemma v_remaining: "valid (dt (armed_but (insert (bst_BoostID b) S))) (armRemaining b) (\<lambda>_. dt (armed_but S))"
  unfolding armRemaining_def by (rule valid_bind [OF keeps_now v_arm])

lemma v_stop: "valid (dt (armed_but S)) (stopTimer bid) (\<lambda>_. dt (armed_but (insert bid S)))"
  by (auto simp: valid_def dt_def stopTimer_def runs armed_but_def)

lemma v_then_ret: "valid P m (\<lambda>_. Q) \<Longrightarrow> valid P (do { m; ret x }) (\<lambda>_. Q)"
  by (rule valid_bind) (auto intro: keeps_return)

lemma v_weaken: "valid (dt (armed_but S)) m (\<lambda>_. dt (armed_but S')) \<Longrightarrow> R \<subseteq> S \<Longrightarrow>
    valid (dt (armed_but R)) m (\<lambda>_. dt (armed_but S'))"
  by (erule valid_pre) (auto simp: dt_def intro: armed_mono)

text \<open>A row that is gone, or is not active, needs no timer.\<close>

lemma armed_absent: "armed_but (insert bid S) d tm \<Longrightarrow> boost_GetByID bid d = None \<Longrightarrow> armed_but S d tm"
  by (auto simp: armed_but_def boost_GetByID_def row_find_None)

lemma GetByID_unique: "db_ok d \<Longrightarrow> boost_GetByID bid d = Some b \<Longrightarrow> x \<in> set (db_boosts d) \<Longrightarrow> bst_BoostID x = bid \<Longrightarrow> x = b"
  using row_find_Some [of bst_BoostID bid "db_boosts d" b] distinct_map_key [of bst_BoostID "db_boosts d" x b]
  by (auto simp: boost_GetByID_def db_ok_def boosts_ok_def unique_def)

lemma Get_unique: "db_ok d \<Longrightarrow> boost_Get sid d = Some b \<Longrightarrow> x \<in> set (db_boosts d) \<Longrightarrow> bst_SandboxID x = sid \<Longrightarrow> x = b"
  using row_find_Some [of bst_SandboxID sid "db_boosts d" b] distinct_map_key [of bst_SandboxID "db_boosts d" x b]
  by (auto simp: boost_Get_def db_ok_def boosts_ok_def unique_def)

lemma delete_error: "boost_Delete bid d = Inl e \<Longrightarrow> boost_GetByID bid d = None"
  by (auto simp: boost_Delete_def row_delete_def boost_GetByID_def store_rows_def split: option.splits)

lemma delete_done: "boost_Delete bid d = Inr d' \<Longrightarrow> d' = d\<lparr>db_boosts := filter (\<lambda>b. bst_BoostID b \<noteq> bid) (db_boosts d)\<rparr>"
  by (auto simp: boost_Delete_def row_delete_Inr)

lemma armed_delete: "armed_but (insert bid S) d tm \<Longrightarrow> boost_Delete bid d = Inr d' \<Longrightarrow> armed_but S d' tm"
  using boost_Delete_ok by (auto simp: armed_but_def dest: delete_done)

lemma v_delete: "valid (dt (armed_but (insert bid S))) (store_write (boost_Delete bid))
    (\<lambda>r. dt (\<lambda>d tm. case r of
        Inl e \<Rightarrow> armed_but (insert bid S) d tm \<and> (errors_Is e ErrNotFound \<longrightarrow> armed_but S d tm)
      | Inr _ \<Rightarrow> armed_but S d tm))"
  by (rule valid_write) (auto intro: armed_delete armed_absent delete_error)

lemma v_drop_row: "keeps (dt (armed_but S)) m \<Longrightarrow>
    valid (dt (armed_but (insert bid S))) (drop_row bid m) (\<lambda>_. dt (armed_but S))"
  unfolding drop_row_def
proof (rule valid_bind [OF v_delete])
  fix r :: "goerr + unit" assume m: "keeps (dt (armed_but S)) m"
  show "valid (dt (\<lambda>d tm. case r of
        Inl e \<Rightarrow> armed_but (insert bid S) d tm \<and> (errors_Is e ErrNotFound \<longrightarrow> armed_but S d tm)
      | Inr _ \<Rightarrow> armed_but S d tm))
     (case r of Inl e \<Rightarrow> if errors_Is e ErrNotFound then m else armRetry bid | Inr _ \<Rightarrow> m) (\<lambda>_. dt (armed_but S))"
    using m v_retry by (cases r) (auto elim!: valid_pre simp: dt_def)
qed

lemma v_cancel_delete: "keeps (dt (armed_but S)) m \<Longrightarrow>
    valid (dt (armed_but (insert bid S))) (cancel_delete bid f m) (\<lambda>_. dt (armed_but S))"
  unfolding cancel_delete_def
proof (rule valid_bind [OF v_delete])
  fix r :: "goerr + unit" assume m: "keeps (dt (armed_but S)) m"
  show "valid (dt (\<lambda>d tm. case r of
        Inl e \<Rightarrow> armed_but (insert bid S) d tm \<and> (errors_Is e ErrNotFound \<longrightarrow> armed_but S d tm)
      | Inr _ \<Rightarrow> armed_but S d tm))
     (case r of Inl e \<Rightarrow> if errors_Is e ErrNotFound then m else do { armRetry bid; ret (Inl (f e)) } | Inr _ \<Rightarrow> m)
     (\<lambda>_. dt (armed_but S))"
    using m v_then_ret [OF v_retry]
    by (cases r) (auto elim!: valid_pre simp: dt_def)
qed

lemma updstate_error: "boost_UpdateState bid st n er d = Inl e \<Longrightarrow> boost_GetByID bid d = None"
  by (auto simp: boost_UpdateState_def row_update_def boost_GetByID_def store_rows_def list_ex_iff split: option.splits if_splits)

lemma updstate_done:
  "boost_UpdateState bid st n er d = Inr d' \<Longrightarrow> d' = d\<lparr>db_boosts := upd_where (\<lambda>b. bst_BoostID b = bid)
     (\<lambda>b. b\<lparr>bst_State := st, bst_RevertAttempts := n, bst_LastError := er\<rparr>) (db_boosts d)\<rparr>"
  by (auto simp: boost_UpdateState_def row_update_Inr)

lemma armed_updstate:
  assumes "armed_but (insert bid S) d tm" "boost_UpdateState bid st n er d = Inr d'"
  shows "armed_but (if st = BoostActive then insert bid S else S) d' tm"
  using assms boost_UpdateState_ok [of d bid st n er d'] updstate_done [OF assms(2)]
  by (auto simp: armed_but_def set_upd_where split: if_splits)

lemma v_updstate: "valid (dt (armed_but (insert bid S))) (store_write (boost_UpdateState bid st n er))
    (\<lambda>r. dt (\<lambda>d tm. case r of
        Inl e \<Rightarrow> armed_but (insert bid S) d tm \<and> (errors_Is e ErrNotFound \<longrightarrow> armed_but S d tm)
      | Inr _ \<Rightarrow> armed_but (if st = BoostActive then insert bid S else S) d tm))"
  by (rule valid_write) (auto intro: armed_updstate [THEN iffD1 [OF refl]] armed_absent updstate_error
      dest: armed_updstate split: if_splits)

lemma v_revert_failed:
  "valid (dt (armed_but (insert (bst_BoostID b) S))) (revert_failed b e) (\<lambda>_. dt (armed_but S))"
proof -
  let ?bid = "bst_BoostID b"
  have 1: "valid (dt (\<lambda>d tm. case r of
        Inl e \<Rightarrow> armed_but (insert ?bid S) d tm \<and> (errors_Is e ErrNotFound \<longrightarrow> armed_but S d tm)
      | Inr _ \<Rightarrow> armed_but (if st = BoostActive then insert ?bid S else S) d tm))
     (case r of Inl e \<Rightarrow> if errors_Is e ErrNotFound then ret () else armRetry ?bid | Inr _ \<Rightarrow> m) (\<lambda>_. dt (armed_but S))"
    if "valid (dt (armed_but (if st = BoostActive then insert ?bid S else S))) m (\<lambda>_. dt (armed_but S))"
    for r :: "goerr + unit" and st m
    using that v_retry by (cases r) (auto elim!: valid_pre simp: dt_def intro: valid_return)
  show ?thesis
    unfolding revert_failed_def Let_def
    by (auto intro!: valid_bind [OF v_updstate] 1 v_arm pres)
qed

lemma v_resize: "keeps (dt P) (UpdateResources (live_resize sid cpu mem))"
  by (rule keeps_UpdateResources_live) (simp add: live_resize_def)

lemma v_expire_found: "valid (dt (armed_but (insert (bst_BoostID b) S))) (expire_found b) (\<lambda>_. dt (armed_but S))"
proof -
  let ?S = "insert (bst_BoostID b) S"
  have e: "keeps (dt P) (emitExpired b c cpu mem)" for P c cpu mem unfolding emitExpired_def by (rule keeps_emit)
  have body: "valid (dt (armed_but ?S)) (case s of
       Inl e \<Rightarrow> if errors_Is e ErrNotFound then drop_row (bst_BoostID b) (ret ()) else armRetry (bst_BoostID b)
     | Inr sbx \<Rightarrow>
         if sbx_State sbx \<noteq> SandboxRunning
         then drop_row (bst_BoostID b) (emitExpired b ''sandbox_not_running'' (sbx_CPULimit sbx) (sbx_MemoryLimitMB sbx))
         else do {
           a \<leftarrow> UpdateResources (live_resize (sbx_SandboxID sbx) (sbx_CPULimit sbx) (sbx_MemoryLimitMB sbx));
           case a of
             Inr _ \<Rightarrow> drop_row (bst_BoostID b) (emitExpired b ''expired'' (sbx_CPULimit sbx) (sbx_MemoryLimitMB sbx))
           | Inl applyErr \<Rightarrow> revert_failed b applyErr }) (\<lambda>_. dt (armed_but S))" for s :: "sandbox res"
    by (auto intro!: v_drop_row v_retry e pres valid_bind [OF v_resize] v_revert_failed split: sum.splits)
  show ?thesis
    unfolding expire_found_def Let_def
    by (rule valid_bind [OF v_stop valid_bind [OF keeps_store_get]]) (simp add: body)
qed

lemma v_stop_absent:
  "valid (dt (\<lambda>d tm. armed_but (insert bid S) d tm \<and> boost_GetByID bid d = None)) (stopTimer bid) (\<lambda>_. dt (armed_but S))"
  by (auto simp: valid_def dt_def stopTimer_def runs armed_but_def boost_GetByID_def row_find_None)

lemma v_getbyid:
  "valid (dt (armed_but S)) (store_get (boost_GetByID bid))
    (\<lambda>r. dt (\<lambda>d tm. armed_but S d tm \<and> (case r of Inl e \<Rightarrow> errors_Is e ErrNotFound \<longrightarrow> boost_GetByID bid d = None
                                            | Inr b \<Rightarrow> boost_GetByID bid d = Some b \<and> bst_BoostID b = bid)))"
  by (rule valid_get) (auto simp: boost_GetByID_def dest: row_find_Some)

lemma v_expire: "valid (dt (armed_but (insert bid S))) (boost_expire bid) (\<lambda>_. dt (armed_but S))"
proof -
  let ?S = "insert bid S"
  let ?Q = "\<lambda>r. dt (\<lambda>d tm. armed_but ?S d tm \<and> (case r of Inl e \<Rightarrow> errors_Is e ErrNotFound \<longrightarrow> boost_GetByID bid d = None
                                            | Inr b \<Rightarrow> boost_GetByID bid d = Some b \<and> bst_BoostID b = bid))"
  have absent: "valid (?Q (Inl e)) (if errors_Is e ErrNotFound then stopTimer bid else armRetry bid) (\<lambda>_. dt (armed_but S))" for e
    using v_stop_absent v_retry by (auto elim!: valid_pre simp: dt_def)
  have found: "valid (?Q (Inr b)) (expire_found b) (\<lambda>_. dt (armed_but S))" for b
  proof (cases "bst_BoostID b = bid")
    case True
    show ?thesis by (rule valid_pre [OF v_expire_found [of b S]]) (use True in \<open>auto simp: dt_def\<close>)
  qed (auto simp: dt_def valid_def)
  have 2: "valid (?Q r) (case r of Inl e \<Rightarrow> if errors_Is e ErrNotFound then stopTimer bid else armRetry bid
      | Inr boost \<Rightarrow> expire_found boost) (\<lambda>_. dt (armed_but S))" for r
    using absent found by (cases r) auto
  have 1: "valid (?Q r) (case r of Inl e \<Rightarrow> if errors_Is e ErrNotFound then stopTimer bid else armRetry bid
      | Inr candidate \<Rightarrow> do {
         b \<leftarrow> store_get (boost_GetByID bid);
         case b of
           Inl e \<Rightarrow> if errors_Is e ErrNotFound then stopTimer bid else armRetry bid
         | Inr boost \<Rightarrow> expire_found boost }) (\<lambda>_. dt (armed_but S))" for r
  proof (cases r)
    case (Inl e)
    then show ?thesis using absent [of e] by simp
  next
    case (Inr c)
    have "valid (dt (armed_but ?S)) (do {
         b \<leftarrow> store_get (boost_GetByID bid);
         case b of
           Inl e \<Rightarrow> if errors_Is e ErrNotFound then stopTimer bid else armRetry bid
         | Inr boost \<Rightarrow> expire_found boost }) (\<lambda>_. dt (armed_but S))"
      by (rule valid_bind [OF v_getbyid 2])
    then show ?thesis by (auto elim!: valid_pre simp: Inr dt_def)
  qed
  show ?thesis unfolding boost_expire_def by (rule valid_bind [OF v_getbyid 1])
qed

lemma v_fire: "valid all_armed (fire_timer bid) (\<lambda>_. all_armed)"
proof -
  have set: "valid all_armed (set_timer bid t) (\<lambda>_. dt (armed_but {bid}))" for t
    by (auto simp: valid_def dt_def runs armed_but_def pending_def)
  show ?thesis
    unfolding fire_timer_def
    by (intro keeps_bind keeps_caches keeps_option keeps_return keeps_if valid_bind [OF set] v_expire)
qed

text \<open>The row with the id of \<open>b\<close>, if any, is in the state of \<open>b\<close>.\<close>

definition same_state :: "boost \<Rightarrow> database \<Rightarrow> bool" where
  "same_state b d \<longleftrightarrow> (\<forall>x\<in>set (db_boosts d). bst_BoostID x = bst_BoostID b \<longrightarrow> bst_State x = bst_State b)"

lemma Get_same_state: "db_ok d \<Longrightarrow> boost_Get sid d = Some b \<Longrightarrow> same_state b d"
proof -
  assume d: "db_ok d" "boost_Get sid d = Some b"
  then have "b \<in> set (db_boosts d)" by (auto simp: boost_Get_def dest: row_find_Some)
  then have "x = b" if "x \<in> set (db_boosts d)" "bst_BoostID x = bst_BoostID b" for x
    using that d(1) distinct_map_key [of bst_BoostID "db_boosts d" x b] by (auto simp: db_ok_def boosts_ok_def unique_def)
  then show ?thesis by (auto simp: same_state_def)
qed

abbreviation unarmed :: "boost \<Rightarrow> string set \<Rightarrow> world \<Rightarrow> bool" where
  "unarmed b S \<equiv> dt (\<lambda>d tm. armed_but (insert (bst_BoostID b) S) d tm \<and> same_state b d)"

lemma v_rearm: "valid (unarmed b S) (rearm_active b) (\<lambda>_. dt (armed_but S))"
proof (cases "bst_State b = BoostActive")
  case True
  then show ?thesis
    unfolding rearm_active_def using v_remaining [of b S] by (auto elim!: valid_pre simp: dt_def)
next
  case False
  then show ?thesis
    by (auto simp: rearm_active_def valid_def dt_def armed_but_def same_state_def)
qed

lemma v_from_unarmed: "valid (dt (armed_but (insert (bst_BoostID b) S))) m Q \<Longrightarrow> valid (unarmed b S) m Q"
  by (erule valid_pre) (simp add: dt_def)

lemma v_cancel_found: "valid (dt (\<lambda>d tm. armed_but S d tm \<and> same_state b d)) (cancel_found sid b) (\<lambda>_. dt (armed_but S))"
proof -
  let ?bid = "bst_BoostID b"
  have fin: "keeps (dt P) (cancel_done b sbx)" for P sbx
    unfolding cancel_done_def emitExpired_def by (intro pres)
  have stop: "valid (dt (\<lambda>d tm. armed_but S d tm \<and> same_state b d)) (stopTimer ?bid) (\<lambda>_. unarmed b S)"
    by (auto simp: valid_def dt_def stopTimer_def runs armed_but_def)
  have failed: "valid (dt (armed_but (insert ?bid S))) (do {
        r \<leftarrow> store_write (boost_UpdateState ?bid BoostRevertFailed n (Some e));
        case r of
          Inl stateErr \<Rightarrow> if errors_Is stateErr ErrNotFound then ret (Inl e)
            else do { armRetry ?bid; ret (Inl (Joined e stateErr)) }
        | Inr _ \<Rightarrow> ret (Inl e) }) (\<lambda>_. dt (armed_but S))" for n and e :: goerr
  proof (rule valid_bind [OF v_updstate])
    fix r :: "goerr + unit"
    show "valid (dt (\<lambda>d tm. case r of
        Inl e \<Rightarrow> armed_but (insert ?bid S) d tm \<and> (errors_Is e ErrNotFound \<longrightarrow> armed_but S d tm)
      | Inr _ \<Rightarrow> armed_but (if BoostRevertFailed = BoostActive then insert ?bid S else S) d tm))
      (case r of Inl stateErr \<Rightarrow> if errors_Is stateErr ErrNotFound then ret (Inl e)
            else do { armRetry ?bid; ret (Inl (Joined e stateErr)) } | Inr _ \<Rightarrow> ret (Inl e)) (\<lambda>_. dt (armed_but S))"
      using v_then_ret [OF v_retry] by (cases r) (auto elim!: valid_pre simp: dt_def intro: valid_return)
  qed
  have body: "valid (unarmed b S) (case s of
       Inl err \<Rightarrow>
         if errors_Is err ErrNotFound then cancel_delete ?bid (Joined err) (ret (Inl err))
         else do { rearm_active b; ret (Inl err) }
     | Inr sbx \<Rightarrow>
         if sbx_State sbx \<noteq> SandboxRunning then cancel_delete ?bid id (cancel_done b sbx)
         else do {
           a \<leftarrow> UpdateResources (live_resize (sbx_SandboxID sbx) (sbx_CPULimit sbx) (sbx_MemoryLimitMB sbx));
           case a of
             Inl applyErr \<Rightarrow> do {
               r \<leftarrow> store_write (boost_UpdateState ?bid BoostRevertFailed (bst_RevertAttempts b + 1) (Some applyErr));
               case r of
                 Inl stateErr \<Rightarrow> if errors_Is stateErr ErrNotFound then ret (Inl applyErr)
                   else do { armRetry ?bid; ret (Inl (Joined applyErr stateErr)) }
               | Inr _ \<Rightarrow> ret (Inl applyErr) }
           | Inr _ \<Rightarrow> cancel_delete ?bid id (cancel_done b sbx) }) (\<lambda>_. dt (armed_but S))" for s :: "sandbox res"
    by (auto intro!: v_from_unarmed [OF v_cancel_delete] v_then_ret [OF v_rearm] fin keeps_return
        valid_bind [OF v_resize] v_from_unarmed [OF failed] split: sum.splits)
  show ?thesis
    unfolding cancel_found_def Let_def
    by (rule valid_bind [OF stop valid_bind [OF keeps_store_get]]) (rule body)
qed

lemma v_Cancel: "valid all_armed (BoostService_Cancel sid) (\<lambda>_. all_armed)"
  unfolding BoostService_Cancel_def
proof (rule valid_bindE)
  show "valid all_armed (store_get (boost_Get sid)) (\<lambda>r. dt (\<lambda>d tm. armed_but {} d tm \<and>
      (case r of Inl e \<Rightarrow> True | Inr b \<Rightarrow> same_state b d)))"
    by (rule valid_get) (auto simp: armed_but_def intro: Get_same_state)
  show "valid (dt (\<lambda>d tm. armed_but {} d tm \<and> (case Inr b of Inl e \<Rightarrow> True | Inr b \<Rightarrow> same_state b d)))
      (cancel_found sid b) (\<lambda>_. all_armed)" for b
    using v_cancel_found [of "{}" b sid] by simp
qed (simp add: dt_def)

lemma armed_deleted: "armed_but {} d tm \<Longrightarrow> boost_Delete bid d = Inr d' \<Longrightarrow> armed_but {} d' tm \<and> boost_GetByID bid d' = None"
  using armed_delete [OF armed_mono [of "{}" "{bid}"]] delete_done [of bid d d'] by (auto simp: boost_GetByID_def)

lemma v_lifecycle: "valid all_armed (cancelOnLifecycleLocked sid) (\<lambda>_. all_armed)"
proof -
  have stop: "valid (dt (\<lambda>d tm. armed_but {} d tm \<and> boost_GetByID bid d = None)) (stopTimer bid) (\<lambda>_. all_armed)" for bid
    by (rule valid_pre [OF v_stop_absent]) (auto simp: dt_def intro: armed_mono [of "{}"])
  have del: "valid all_armed (store_write (boost_Delete bid)) (\<lambda>r. dt (\<lambda>d tm. armed_but {} d tm \<and>
      (case r of Inl e \<Rightarrow> errors_Is e ErrNotFound \<longrightarrow> boost_GetByID bid d = None | Inr _ \<Rightarrow> boost_GetByID bid d = None)))" for bid
    by (rule valid_write) (auto dest: armed_deleted intro: delete_error)
  have "valid (dt (\<lambda>d tm. armed_but {} d tm \<and>
      (case r of Inl e \<Rightarrow> errors_Is e ErrNotFound \<longrightarrow> boost_GetByID bid d = None | Inr _ \<Rightarrow> boost_GetByID bid d = None)))
    (case r of Inl e \<Rightarrow> if errors_Is e ErrNotFound then stopTimer bid else ret () | Inr _ \<Rightarrow> stopTimer bid) (\<lambda>_. all_armed)"
    for r :: "goerr + unit" and bid
    using stop by (cases r) (auto elim!: valid_pre simp: dt_def intro: valid_return)
  then have "valid all_armed (do {
         r \<leftarrow> store_write (boost_Delete bid);
         case r of
           Inl e \<Rightarrow> if errors_Is e ErrNotFound then stopTimer bid else ret ()
         | Inr _ \<Rightarrow> stopTimer bid }) (\<lambda>_. all_armed)" for bid
    by (rule valid_bind [OF del])
  note del_stop = this
  show ?thesis
    unfolding cancelOnLifecycleLocked_def
    by (rule keeps_bind [OF keeps_store_get], rule keeps_sum, rule keeps_return, rule del_stop)
qed

subsection \<open>Start\<close>

definition prior_ids :: "boost option \<Rightarrow> string set" where
  "prior_ids prior = (case prior of None \<Rightarrow> {} | Some p \<Rightarrow> {bst_BoostID p})"

definition prior_is :: "string \<Rightarrow> boost option \<Rightarrow> database \<Rightarrow> bool" where
  "prior_is sid prior d \<longleftrightarrow> boost_Get sid d = prior"

lemma upsert_rows:
  assumes "db_ok d" "boost_Upsert b d = Inr d'" "x \<in> set (db_boosts d')"
  shows "x = saved_boost b \<or> x \<in> set (db_boosts d) \<and> bst_SandboxID x \<noteq> bst_SandboxID b"
  using assms(2)
proof (cases rule: boost_Upsert_cases)
  case (fresh rows)
  then show ?thesis using assms(3) by (auto simp: row_insert_Inr)
next
  case (replace rows)
  then show ?thesis using assms(3) by (auto simp: row_update_Inr set_upd_where)
qed

lemma upsert_get:
  assumes "boost_Upsert b d = Inr d'" shows "boost_Get (bst_SandboxID b) d' = Some (saved_boost b)"
  using assms
proof (cases rule: boost_Upsert_cases)
  case (fresh rows)
  then show ?thesis by (auto simp: row_insert_Inr boost_Get_def)
next
  case (replace rows)
  have "row_find bst_SandboxID (bst_SandboxID b) (upd_where (\<lambda>r. bst_SandboxID r = bst_SandboxID b) (\<lambda>_. saved_boost b) xs)
      = map_option (\<lambda>_. saved_boost b) (row_find bst_SandboxID (bst_SandboxID b) xs)" for xs
    by (induction xs) (auto simp: row_find_def upd_where_def)
  then show ?thesis using replace by (auto simp: row_update_Inr boost_Get_def)
qed

lemma armed_upsert:
  assumes "armed_but (prior_ids prior) d tm" "boost_Get (bst_SandboxID b) d = prior" "boost_Upsert b d = Inr d'"
  shows "armed_but {bst_BoostID b} d' tm \<and> boost_Get (bst_SandboxID b) d' = Some (saved_boost b) \<and> same_state b d'"
proof -
  have ok: "db_ok d" "db_ok d'" using assms boost_Upsert_ok by (auto simp: armed_but_def)
  have "pending tm (bst_BoostID x)"
    if x: "x \<in> set (db_boosts d')" "bst_State x = BoostActive" "bst_BoostID x \<noteq> bst_BoostID b" for x
  proof -
    have old: "x \<in> set (db_boosts d)" "bst_SandboxID x \<noteq> bst_SandboxID b"
      using upsert_rows [OF ok(1) assms(3) x(1)] x(3) by auto
    have "bst_BoostID x \<notin> prior_ids prior"
    proof (cases prior)
      case (Some p)
      then have "p \<in> set (db_boosts d)" "bst_SandboxID p = bst_SandboxID b"
        using assms(2) by (auto simp: boost_Get_def dest: row_find_Some)
      then show ?thesis
        using old ok(1) distinct_map_key [of bst_BoostID "db_boosts d" x p] Some
        by (auto simp: prior_ids_def db_ok_def boosts_ok_def unique_def)
    qed (simp add: prior_ids_def)
    then show ?thesis using assms(1) old x(2) by (auto simp: armed_but_def)
  qed
  moreover have "boost_Get (bst_SandboxID b) d' = Some (saved_boost b)" by (rule upsert_get [OF assms(3)])
  moreover have "same_state b d'"
    using Get_same_state [OF ok(2) upsert_get [OF assms(3)]] by (simp add: same_state_def)
  ultimately show ?thesis using ok(2) by (auto simp: armed_but_def)
qed

lemma v_upsert:
  assumes "bst_SandboxID b = sid"
  shows "valid (dt (\<lambda>d tm. armed_but (prior_ids prior) d tm \<and> prior_is sid prior d \<and> R prior d)) (store_write (boost_Upsert b))
    (\<lambda>r. dt (\<lambda>d tm. case r of
        Inl e \<Rightarrow> armed_but (prior_ids prior) d tm \<and> prior_is sid prior d \<and> R prior d
      | Inr _ \<Rightarrow> armed_but {bst_BoostID b} d tm \<and> prior_is sid (Some (saved_boost b)) d \<and> same_state b d))"
proof (rule valid_write)
  fix d d' tm
  assume "armed_but (prior_ids prior) d tm \<and> prior_is sid prior d \<and> R prior d" "boost_Upsert b d = Inr d'"
  then show "case Inr () of
        Inl e \<Rightarrow> armed_but (prior_ids prior) d' tm \<and> prior_is sid prior d' \<and> R prior d'
      | Inr _ \<Rightarrow> armed_but {bst_BoostID b} d' tm \<and> prior_is sid (Some (saved_boost b)) d' \<and> same_state b d'"
    using armed_upsert [of prior d tm b d'] assms by (simp add: prior_is_def)
qed simp_all

lemma prior_ids_saved [simp]: "prior_ids (Some (saved_boost b)) = {bst_BoostID b}"
  by (simp add: prior_ids_def)

lemma v_undo:
  assumes "bst_SandboxID b = sid" "case prior of None \<Rightarrow> True | Some p \<Rightarrow> bst_SandboxID p = sid"
  shows "valid (dt (\<lambda>d tm. armed_but {bst_BoostID b} d tm \<and> prior_is sid (Some (saved_boost b)) d))
    (undo_start b prior e) (\<lambda>_. all_armed)"
proof (cases prior)
  case None
  have "valid (dt (armed_but {bst_BoostID b})) (do {
          r \<leftarrow> store_write (boost_Delete (bst_BoostID b));
          case r of
            Inl delErr \<Rightarrow> if errors_Is delErr ErrNotFound then ret (Inl e)
              else do { armRetry (bst_BoostID b); ret (Inl (Joined e delErr)) }
          | Inr _ \<Rightarrow> (ret (Inl e) :: boost res M) }) (\<lambda>_. all_armed)"
  proof (rule valid_bind [OF v_delete])
    fix r :: "goerr + unit"
    show "valid (dt (\<lambda>d tm. case r of
        Inl e \<Rightarrow> armed_but {bst_BoostID b} d tm \<and> (errors_Is e ErrNotFound \<longrightarrow> armed_but {} d tm)
      | Inr _ \<Rightarrow> armed_but {} d tm))
     (case r of Inl delErr \<Rightarrow> if errors_Is delErr ErrNotFound then ret (Inl e)
              else do { armRetry (bst_BoostID b); ret (Inl (Joined e delErr)) }
          | Inr _ \<Rightarrow> (ret (Inl e) :: boost res M)) (\<lambda>_. all_armed)"
      using v_then_ret [OF v_retry] by (cases r) (auto elim!: valid_pre simp: dt_def intro: valid_return)
  qed
  then show ?thesis unfolding undo_start_def None by (auto elim!: valid_pre simp: dt_def)
next
  case (Some p)
  have p: "bst_SandboxID p = sid" using assms(2) Some by simp
  have up: "valid (dt (\<lambda>d tm. armed_but {bst_BoostID b} d tm \<and> prior_is sid (Some (saved_boost b)) d)) (store_write (boost_Upsert p))
    (\<lambda>r. dt (\<lambda>d tm. case r of
        Inl e \<Rightarrow> armed_but {bst_BoostID b} d tm
      | Inr _ \<Rightarrow> armed_but {bst_BoostID p} d tm \<and> same_state p d))"
    by (rule valid_post [OF valid_pre [OF v_upsert [OF p, of "Some (saved_boost b)" "\<lambda>_ _. True"]]])
      (auto simp: dt_def split: sum.splits)
  show ?thesis
    unfolding undo_start_def Some option.case
  proof (rule valid_bind [OF up])
    fix r :: "goerr + unit"
    show "valid (dt (\<lambda>d tm. case r of
        Inl e \<Rightarrow> armed_but {bst_BoostID b} d tm
      | Inr _ \<Rightarrow> armed_but {bst_BoostID p} d tm \<and> same_state p d))
      (case r of Inl restoreErr \<Rightarrow> do { armRetry (bst_BoostID b); ret (Inl (Joined e restoreErr)) }
          | Inr _ \<Rightarrow> do { rearm_active p; (ret (Inl e) :: boost res M) }) (\<lambda>_. all_armed)"
      using v_then_ret [OF v_retry] v_then_ret [OF v_rearm] by (cases r) (auto elim!: valid_pre simp: dt_def)
  qed
qed

definition prior_state :: "boost option \<Rightarrow> database \<Rightarrow> bool" where
  "prior_state prior d = (case prior of None \<Rightarrow> True | Some p \<Rightarrow> same_state p d)"

abbreviation stopped_prior :: "string \<Rightarrow> boost option \<Rightarrow> world \<Rightarrow> bool" where
  "stopped_prior sid prior \<equiv> dt (\<lambda>d tm. armed_but (prior_ids prior) d tm \<and> prior_is sid prior d \<and> prior_state prior d)"

lemma v_stop_prior:
  "valid (dt (\<lambda>d tm. armed_but {} d tm \<and> prior_is sid prior d))
     (case prior of Some p \<Rightarrow> stopTimer (bst_BoostID p) | None \<Rightarrow> ret ()) (\<lambda>_. stopped_prior sid prior)"
proof (cases prior)
  case (Some p)
  then show ?thesis
    by (auto simp: valid_def dt_def stopTimer_def runs armed_but_def prior_ids_def prior_is_def prior_state_def
        intro: Get_same_state)
qed (auto simp: valid_def dt_def prior_ids_def prior_state_def)

lemma v_rearm_prior:
  "valid (stopped_prior sid prior)
     (do { (case prior of Some p \<Rightarrow> rearm_active p | None \<Rightarrow> ret ()); (ret (Inl e) :: boost res M) }) (\<lambda>_. all_armed)"
proof (rule v_then_ret, cases prior)
  case (Some p)
  then show "valid (stopped_prior sid prior) (case prior of Some p \<Rightarrow> rearm_active p | None \<Rightarrow> ret ()) (\<lambda>_. all_armed)"
    using v_rearm [of p "{}"] by (auto elim!: valid_pre simp: dt_def prior_ids_def prior_state_def)
qed (auto simp: valid_def dt_def prior_ids_def)

lemma v_begin:
  assumes "sbx_SandboxID sbx = sid" "case prior of None \<Rightarrow> True | Some p \<Rightarrow> bst_SandboxID p = sid"
  shows "valid (dt (\<lambda>d tm. armed_but {} d tm \<and> prior_is sid prior d)) (boost_begin opts dur sbx prior) (\<lambda>_. all_armed)"
proof -
  have applied: "valid (dt (\<lambda>d tm. armed_but {bst_BoostID b} d tm \<and> prior_is sid (Some (saved_boost b)) d \<and> same_state b d))
      (do { a \<leftarrow> UpdateResources (live_resize i c m);
            case a of Inl e \<Rightarrow> undo_start b prior e
            | Inr _ \<Rightarrow> do { armRemaining b; publish ev; (ret (Inr b) :: boost res M) } }) (\<lambda>_. all_armed)"
    if "bst_SandboxID b = sid" for b i c m ev
  proof (rule valid_bind [OF v_resize])
    fix a :: "(sandbox \<times> bool) res"
    have 1: "valid (dt (\<lambda>d tm. armed_but {bst_BoostID b} d tm \<and> prior_is sid (Some (saved_boost b)) d \<and> same_state b d))
        (undo_start b prior e) (\<lambda>_. all_armed)" for e
      by (rule valid_pre [OF v_undo [OF that assms(2)]]) (simp add: dt_def)
    have 2: "valid (dt (armed_but {bst_BoostID b})) (do { armRemaining b; publish ev; (ret (Inr b) :: boost res M) }) (\<lambda>_. all_armed)"
      by (rule valid_bind [OF v_remaining]) (intro pres)
    have 3: "valid (dt (\<lambda>d tm. armed_but {bst_BoostID b} d tm \<and> prior_is sid (Some (saved_boost b)) d \<and> same_state b d))
        (do { armRemaining b; publish ev; (ret (Inr b) :: boost res M) }) (\<lambda>_. all_armed)"
      by (rule valid_pre [OF 2]) (simp add: dt_def)
    show "valid (dt (\<lambda>d tm. armed_but {bst_BoostID b} d tm \<and> prior_is sid (Some (saved_boost b)) d \<and> same_state b d))
        (case a of Inl e \<Rightarrow> undo_start b prior e
            | Inr _ \<Rightarrow> do { armRemaining b; publish ev; (ret (Inr b) :: boost res M) }) (\<lambda>_. all_armed)"
      using 1 3 by (cases a) auto
  qed
  have wrote: "valid (dt (\<lambda>d tm. case r of
        Inl e \<Rightarrow> armed_but (prior_ids prior) d tm \<and> prior_is sid prior d \<and> prior_state prior d
      | Inr _ \<Rightarrow> armed_but {bst_BoostID b} d tm \<and> prior_is sid (Some (saved_boost b)) d \<and> same_state b d))
      (case r of
         Inl e \<Rightarrow> do { (case prior of Some p \<Rightarrow> rearm_active p | None \<Rightarrow> ret ()); (ret (Inl e) :: boost res M) }
       | Inr _ \<Rightarrow> do { a \<leftarrow> UpdateResources (live_resize i c m);
            case a of Inl e \<Rightarrow> undo_start b prior e
            | Inr _ \<Rightarrow> do { armRemaining b; publish ev; ret (Inr b) } }) (\<lambda>_. all_armed)"
    if "bst_SandboxID b = sid" for b i c m ev and r :: "goerr + unit"
    using applied [OF that] v_rearm_prior by (cases r) auto
  show ?thesis
    unfolding boost_begin_def Let_def
    by (rule valid_bind [OF v_stop_prior], rule valid_bind [OF keeps_now], rule valid_bind [OF keeps_uuid],
        rule valid_bind [OF v_upsert [where sid = sid and prior = prior and R = prior_state]])
      (simp add: assms(1), rule wrote, simp add: assms(1))
qed

lemma v_check: "valid (dt P) (boost_check opts)
    (\<lambda>r. dt (\<lambda>d tm. P d tm \<and> (case r of Inl e \<Rightarrow> True | Inr s \<Rightarrow> sbx_SandboxID s = bo_SandboxID opts)))"
  unfolding boost_check_def
proof (rule valid_bindE)
  show "valid (dt P) (store_get (sandbox_Get (bo_SandboxID opts)))
    (\<lambda>r. dt (\<lambda>d tm. P d tm \<and> (case r of Inl e \<Rightarrow> True | Inr s \<Rightarrow> sbx_SandboxID s = bo_SandboxID opts)))"
    by (rule valid_get) (auto dest: sandbox_Get_id)
qed (auto simp: valid_def dt_def bindE_def split: sum.splits)

lemma v_Start: "valid all_armed (BoostService_Start opts) (\<lambda>_. all_armed)"
proof -
  let ?sid = "bo_SandboxID opts"
  have get: "valid all_armed (store_get (boost_Get ?sid)) (\<lambda>r. dt (\<lambda>d tm. armed_but {} d tm \<and>
     (case r of Inl e \<Rightarrow> errors_Is e ErrNotFound \<longrightarrow> prior_is ?sid None d
      | Inr p \<Rightarrow> prior_is ?sid (Some p) d \<and> bst_SandboxID p = ?sid)))"
    by (rule valid_get) (auto simp: prior_is_def boost_Get_def dest: row_find_Some)
  have found: "valid (dt (\<lambda>d tm. armed_but {} d tm \<and>
     (case r of Inl e \<Rightarrow> errors_Is e ErrNotFound \<longrightarrow> prior_is ?sid None d
      | Inr p \<Rightarrow> prior_is ?sid (Some p) d \<and> bst_SandboxID p = ?sid)))
    (case r of Inl e \<Rightarrow> if errors_Is e ErrNotFound then boost_begin opts dur sbx None else ret (Inl e)
     | Inr p \<Rightarrow> boost_begin opts dur sbx (Some p)) (\<lambda>_. all_armed)"
    if "sbx_SandboxID sbx = ?sid" for r :: "boost res" and sbx dur
  proof (cases r)
    case (Inl e)
    show ?thesis
      using v_begin [OF that, of None opts dur] by (auto simp: Inl elim!: valid_pre intro!: valid_return simp: dt_def)
  next
    case (Inr p)
    show ?thesis
    proof (cases "bst_SandboxID p = ?sid")
      case True
      then show ?thesis using v_begin [OF that, of "Some p" opts dur] by (auto simp: Inr elim!: valid_pre simp: dt_def)
    qed (simp add: valid_def dt_def Inr)
  qed
  have body: "valid (dt (\<lambda>d tm. armed_but {} d tm \<and> sbx_SandboxID sbx = ?sid)) (do {
          g \<leftarrow> store_get (boost_Get ?sid);
          case g of
            Inl e \<Rightarrow> if errors_Is e ErrNotFound then boost_begin opts dur sbx None else ret (Inl e)
          | Inr p \<Rightarrow> boost_begin opts dur sbx (Some p) }) (\<lambda>_. all_armed)" for sbx dur
  proof (cases "sbx_SandboxID sbx = ?sid")
    case True
    then show ?thesis using valid_bind [OF get found [OF True]] by simp
  qed (simp add: valid_def dt_def)
  have checked: "valid all_armed (bindE (boost_check opts) (\<lambda>sbx. do {
          g \<leftarrow> store_get (boost_Get ?sid);
          case g of
            Inl e \<Rightarrow> if errors_Is e ErrNotFound then boost_begin opts dur sbx None else ret (Inl e)
          | Inr p \<Rightarrow> boost_begin opts dur sbx (Some p) })) (\<lambda>_. all_armed)" for dur
    by (rule valid_bindE [OF v_check]) (use body in \<open>auto simp: dt_def\<close>)
  have again: "keeps all_armed (boost_check opts)"
    unfolding boost_check_def by (intro pres)
  show ?thesis
    unfolding BoostService_Start_def Let_def
    by (intro keeps_if keeps_return keeps_bind keeps_config keeps_bindE again checked)
qed

subsection \<open>Recover\<close>

fun active_ids :: "boost list \<Rightarrow> string set" where
  "active_ids [] = {}"
| "active_ids (b # bs) = (if bst_State b = BoostActive then insert (bst_BoostID b) (active_ids bs) else active_ids bs)"

lemma active_ids_in: "b \<in> set bs \<Longrightarrow> bst_State b = BoostActive \<Longrightarrow> bst_BoostID b \<in> active_ids bs"
  by (induction bs) auto

lemma v_recover_loop:
  "valid (dt (armed_but (active_ids rows))) (forM rows (\<lambda>b.
       if bst_State b \<noteq> BoostActive then ret ()
       else if \<not> t_Before t (bst_ExpiresAt b) then boost_expire (bst_BoostID b)
       else armRemaining b)) (\<lambda>_. all_armed)"
proof (induction rows)
  case Nil
  then show ?case by (simp add: valid_def)
next
  case (Cons b rows)
  have "valid (dt (armed_but (active_ids (b # rows))))
      (if bst_State b \<noteq> BoostActive then ret ()
       else if \<not> t_Before t (bst_ExpiresAt b) then boost_expire (bst_BoostID b)
       else armRemaining b) (\<lambda>_. dt (armed_but (active_ids rows)))"
    using v_expire v_remaining by (auto intro: valid_return)
  then show ?case unfolding forM.simps by (rule valid_bind) (rule Cons.IH)
qed

lemma v_Recover:
  "valid (db db_ok) BoostService_Recover (\<lambda>r. dt (\<lambda>d tm. case r of Inl _ \<Rightarrow> db_ok d | Inr _ \<Rightarrow> armed_but {} d tm))"
  unfolding BoostService_Recover_def
proof (rule valid_bindE)
  show "valid (db db_ok) (store_read boost_ListAll)
    (\<lambda>r. dt (\<lambda>d tm. case r of Inl _ \<Rightarrow> db_ok d | Inr rows \<Rightarrow> armed_but (active_ids rows) d tm))"
    by (auto simp: valid_def dt_def runs armed_but_def boost_ListAll_def active_ids_in split: option.splits)
  fix rows
  have "valid (dt (armed_but (active_ids rows))) (do {
     t \<leftarrow> now;
     forM rows (\<lambda>b.
       if bst_State b \<noteq> BoostActive then ret ()
       else if \<not> t_Before t (bst_ExpiresAt b) then boost_expire (bst_BoostID b)
       else armRemaining b);
     (ret (Inr ()) :: unit res M) }) (\<lambda>r. dt (\<lambda>d tm. case r of Inl _ \<Rightarrow> db_ok d | Inr _ \<Rightarrow> armed_but {} d tm))"
    by (rule valid_bind [OF keeps_now], rule valid_bind [OF v_recover_loop]) (auto simp: valid_def dt_def)
  then show "valid (dt (\<lambda>d tm. case Inr rows of Inl _ \<Rightarrow> db_ok d | Inr rows \<Rightarrow> armed_but (active_ids rows) d tm)) (do {
     t \<leftarrow> now;
     forM rows (\<lambda>b.
       if bst_State b \<noteq> BoostActive then ret ()
       else if \<not> t_Before t (bst_ExpiresAt b) then boost_expire (bst_BoostID b)
       else armRemaining b);
     (ret (Inr ()) :: unit res M) }) (\<lambda>r. dt (\<lambda>d tm. case r of Inl _ \<Rightarrow> db_ok d | Inr _ \<Rightarrow> armed_but {} d tm))"
    by simp
qed (simp add: dt_def)

section \<open>Properties\<close>

text \<open>One public call of the boost service, or a timer that fires.\<close>

datatype boost_call = CallStart boost_opts | CallCancel string | CallLifecycle string | TimerFires string

fun boost_step :: "boost_call \<Rightarrow> unit M" where
  "boost_step (CallStart opts) = ignore (BoostService_Start opts)"
| "boost_step (CallCancel sid) = ignore (BoostService_Cancel sid)"
| "boost_step (CallLifecycle sid) = cancelOnLifecycleLocked sid"
| "boost_step (TimerFires bid) = fire_timer bid"

lemma keeps_boost_step: "keeps all_armed (boost_step c)"
  using v_Start v_Cancel v_lifecycle v_fire by (cases c) (auto intro: keeps_ignore)

text \<open>
  C3: no boost is ever forgotten.  Once \<open>Recover\<close> has succeeded on a restarted daemon, and
  after any sequence of boost calls, lifecycle hooks and expiring timers, whatever the
  database, the backend and the clock do at each step, every boost row in state active has
  a pending timer that will try to revert it.
\<close>

theorem active_boosts_have_timers:
  assumes "db_ok (w_db w)" "run_state BoostService_Recover w = (Inr (), w1)"
    and "b \<in> set (db_boosts (w_db (snd (run_state (forM calls boost_step) w1))))" "bst_State b = BoostActive"
  shows "pending (w_timers (snd (run_state (forM calls boost_step) w1))) (bst_BoostID b)"
proof -
  have "all_armed w1" using validD [OF v_Recover _ assms(2)] assms(1) by (simp add: dt_def)
  then have "all_armed (snd (run_state (forM calls boost_step) w1))"
    by (rule keepsD [rotated]) (intro keeps_forM keeps_boost_step)
  then show ?thesis using assms(3,4) by (auto simp: dt_def armed_but_def)
qed

definition demo_boost :: "string \<Rightarrow> string \<Rightarrow> gotime \<Rightarrow> boost" where
  "demo_boost bid sid t = \<lparr>bst_BoostID = bid, bst_SandboxID = sid, bst_OriginalCPULimit = Some 1,
     bst_OriginalMemoryLimitMB = Some 256, bst_BoostedCPULimit = Some 4, bst_BoostedMemoryLimitMB = None,
     bst_StartedAt = utc 0, bst_ExpiresAt = t, bst_State = BoostActive, bst_Source = ''external'',
     bst_RevertAttempts = 0, bst_LastError = None\<rparr>"

definition demo_boosted :: world where
  "demo_boosted = demo_world (demo_db [demo_sandbox ''a'' SandboxRunning, demo_sandbox ''b'' SandboxRunning]
     [demo_boost ''bst-1'' ''a'' (utc (1800000000 * d_second))])"

lemma demo_boosted_ok: "db_ok (w_db demo_boosted)"
  by (simp add: demo_boosted_def demo_boost_def db_ok_def table_ok unique_def refers_def demo_defs)

lemma demo_recover: "\<exists>w1. run_state BoostService_Recover demo_boosted = (Inr (), w1) \<and> w_db w1 = w_db demo_boosted"
  by (simp add: BoostService_Recover_def demo_boosted_def demo_boost_def runs demo_defs boost_ListAll_def
      t_Before_def utc_def d_second_def armRemaining_def armExpiry_def)

lemma active_boosts_have_timers_witness:
  "pending (w_timers (snd (run_state BoostService_Recover demo_boosted))) ''bst-1''"
proof -
  obtain w1 where w1: "run_state BoostService_Recover demo_boosted = (Inr (), w1)" "w_db w1 = w_db demo_boosted"
    using demo_recover by blast
  let ?b = "demo_boost ''bst-1'' ''a'' (utc (1800000000 * d_second))"
  have b: "?b \<in> set (db_boosts (w_db (snd (run_state (forM [] boost_step) w1))))" "bst_State ?b = BoostActive"
    by (simp_all add: w1(2) demo_boosted_def demo_db_def) (simp add: demo_boost_def)
  have "bst_BoostID ?b = ''bst-1''" by (simp add: demo_boost_def)
  then show ?thesis using active_boosts_have_timers [OF demo_boosted_ok w1(1) b] by (simp add: w1(1))
qed

text \<open>The persisted limits, and every other column of every sandbox, are never touched by a boost.\<close>

lemma keeps_set_timer_any: "keeps (db P) (set_timer i t)"
  by (rule keeps_set_timer_db)

lemma boost_writes_keep_sandboxes:
  "boost_Upsert b d = Inr d' \<Longrightarrow> db_sandboxes d' = db_sandboxes d"
  "boost_Delete bid d = Inr d' \<Longrightarrow> db_sandboxes d' = db_sandboxes d"
  "boost_UpdateState bid st n e d = Inr d' \<Longrightarrow> db_sandboxes d' = db_sandboxes d"
  by (auto simp: boost_Upsert_def boost_Delete_def boost_UpdateState_def row_ops split: if_splits)

abbreviation sandboxes_are :: "sandbox list \<Rightarrow> world \<Rightarrow> bool" where
  "sandboxes_are ss \<equiv> db (\<lambda>d. db_sandboxes d = ss)"

lemma keeps_boost_writes:
  "keeps (sandboxes_are ss) (store_write (boost_Upsert b))" "keeps (sandboxes_are ss) (store_write (boost_Delete bid))"
  "keeps (sandboxes_are ss) (store_write (boost_UpdateState bid st n e))"
  by (auto intro!: keeps_write dest: boost_writes_keep_sandboxes)

lemmas boost_timer_defs = armRetry_def armExpiry_def armRemaining_def rearm_active_def stopTimer_def

lemma keeps_expire_sandboxes: "keeps (sandboxes_are ss) (boost_expire bid)"
  unfolding boost_expire_def expire_found_def drop_row_def revert_failed_def emitExpired_def boost_timer_defs
  by (intro pres keeps_boost_writes v_resize)

lemma keeps_Start_sandboxes: "keeps (sandboxes_are ss) (BoostService_Start opts)"
  unfolding BoostService_Start_def boost_begin_def undo_start_def boost_check_def boost_timer_defs
  by (intro pres keeps_boost_writes v_resize)

lemma keeps_Cancel_sandboxes: "keeps (sandboxes_are ss) (BoostService_Cancel sid)"
  unfolding BoostService_Cancel_def cancel_found_def cancel_done_def cancel_delete_def emitExpired_def boost_timer_defs
  by (intro pres keeps_boost_writes v_resize)

lemma keeps_boost_step_sandboxes: "keeps (sandboxes_are ss) (boost_step c)"
proof (cases c)
  case (CallLifecycle sid)
  show ?thesis
    unfolding CallLifecycle boost_step.simps cancelOnLifecycleLocked_def boost_timer_defs
    by (intro pres keeps_boost_writes)
next
  case (TimerFires bid)
  show ?thesis unfolding TimerFires boost_step.simps fire_timer_def by (intro pres keeps_expire_sandboxes)
qed (auto intro: pres keeps_Start_sandboxes keeps_Cancel_sandboxes)

text \<open>
  Boosts are a transient overlay.  No call of the boost service and no expiring timer
  changes the sandboxes table, hence the persisted limits, in any environment.
\<close>

theorem boosts_leave_sandboxes_alone:
  "db_sandboxes (w_db (snd (run_state (forM calls boost_step) w))) = db_sandboxes (w_db w)"
proof -
  have "sandboxes_are (db_sandboxes (w_db w)) (snd (run_state (forM calls boost_step) w))"
    by (rule keepsD [OF keeps_forM [OF keeps_boost_step_sandboxes]]) (simp add: dt_def)
  then show ?thesis by (simp add: dt_def)
qed

section \<open>Reverting\<close>

text \<open>A boost row whose sandbox runs, with the backend answering \<open>ans\<close> to the revert.\<close>

definition revert_setting :: "world \<Rightarrow> boost \<Rightarrow> sandbox \<Rightarrow> bool" where
  "revert_setting w b s \<longleftrightarrow> db_ok (w_db w) \<and> no_db_failure w \<and> boost_GetByID (bst_BoostID b) (w_db w) = Some b \<and>
     sandbox_Get (bst_SandboxID b) (w_db w) = Some s \<and> sbx_State s = SandboxRunning"

lemma no_failure_ticked [simp]: "no_db_failure (w\<lparr>w_tick := t\<rparr>) = no_db_failure w"
  by (simp add: no_db_failure_def)

lemma UpdateState_found:
  "boost_GetByID bid d = Some b \<Longrightarrow> boost_UpdateState bid st n e d = Inr (d\<lparr>db_boosts :=
     upd_where (\<lambda>b. bst_BoostID b = bid) (\<lambda>b. b\<lparr>bst_State := st, bst_RevertAttempts := n, bst_LastError := e\<rparr>) (db_boosts d)\<rparr>)"
  by (auto simp: boost_UpdateState_def row_update_def boost_GetByID_def store_rows_def list_ex_iff)

lemma GetByID_updated:
  "boost_GetByID bid (d\<lparr>db_boosts := upd_where (\<lambda>b. bst_BoostID b = bid)
     (\<lambda>b. b\<lparr>bst_State := st, bst_RevertAttempts := n, bst_LastError := e\<rparr>) (db_boosts d)\<rparr>) =
   map_option (\<lambda>b. b\<lparr>bst_State := st, bst_RevertAttempts := n, bst_LastError := e\<rparr>) (boost_GetByID bid d)"
  by (simp add: boost_GetByID_def)

lemma run_revert_failed:
  assumes "no_db_failure w" "boost_GetByID (bst_BoostID b) (w_db w) = Some b" "0 \<le> bst_RevertAttempts b"
    "run_state (revert_failed b e) w = ((), w')"
  shows "w_calls w' = w_calls w \<and>
    (if bst_RevertAttempts b < 5
     then map_option (\<lambda>b. (bst_State b, bst_RevertAttempts b)) (boost_GetByID (bst_BoostID b) (w_db w')) =
            Some (BoostActive, bst_RevertAttempts b + 1) \<and>
          map_option tm_delay (w_timers w' (bst_BoostID b)) = Some (boostBackoff ! nat (bst_RevertAttempts b))
     else map_option (\<lambda>b. (bst_State b, bst_RevertAttempts b)) (boost_GetByID (bst_BoostID b) (w_db w')) =
            Some (BoostRevertFailed, bst_RevertAttempts b + 1) \<and> w_timers w' = w_timers w)"
proof (cases "bst_RevertAttempts b < 5")
  case True
  then have "bst_RevertAttempts b \<in> {0, 1, 2, 3, 4}" using assms(3) by auto
  then show ?thesis
    using assms by (auto simp: revert_failed_def Let_def boostBackoff_def runs UpdateState_found GetByID_updated armExpiry_def
        d_second_def d_minute_def)
next
  case False
  then show ?thesis
    using assms by (auto simp: revert_failed_def Let_def boostBackoff_def runs UpdateState_found GetByID_updated)
qed

definition revert_opts :: "sandbox \<Rightarrow> resize_opts" where
  "revert_opts s = live_resize (sbx_SandboxID s) (sbx_CPULimit s) (sbx_MemoryLimitMB s)"

definition revert_call :: "sandbox \<Rightarrow> pcall" where
  "revert_call s = PUpdateResources (sbx_ref s) \<lparr>ur_CPULimit = sbx_CPULimit s, ur_MemoryLimitMB = sbx_MemoryLimitMB s\<rparr>"

definition stopped_at :: "string \<Rightarrow> world \<Rightarrow> world" where
  "stopped_at bid w = w\<lparr>w_timers := (w_timers w)(bid := None), w_tick := Suc (Suc (Suc (w_tick w)))\<rparr>"

lemma stopped_at_simps [simp]: "w_db (stopped_at bid w) = w_db w" "w_env (stopped_at bid w) = w_env w"
  "w_calls (stopped_at bid w) = w_calls w" "w_timers (stopped_at bid w) = (w_timers w)(bid := None)"
  "w_events (stopped_at bid w) = w_events w"
  "no_db_failure (stopped_at bid w) = no_db_failure w"
  by (simp_all add: stopped_at_def no_db_failure_def)

lemma expire_setting:
  assumes "revert_setting w b s"
  shows "run_state (boost_expire (bst_BoostID b)) w = run_state (do {
      a \<leftarrow> UpdateResources (revert_opts s);
      case a of
        Inr _ \<Rightarrow> drop_row (bst_BoostID b) (emitExpired b ''expired'' (sbx_CPULimit s) (sbx_MemoryLimitMB s))
      | Inl applyErr \<Rightarrow> revert_failed b applyErr }) (stopped_at (bst_BoostID b) w)"
  using assms
  by (simp add: revert_setting_def boost_expire_def expire_found_def stopTimer_def runs Let_def
      stopped_at_def revert_opts_def)

text \<open>The live resize of a revert, when no limit is set and when the backend answers.\<close>

lemma live_resize_nil:
  "limits s = (None, None) \<Longrightarrow> run_state (UpdateResources (revert_opts s)) w = (Inl InvalidArgument, w)"
  by (simp add: UpdateResources_def revert_opts_def live_resize_def limits_def)

lemma revert_resize:
  assumes "no_db_failure w" "sandbox_Get (sbx_SandboxID s) (w_db w) = Some s" "sbx_State s = SandboxRunning"
    "limits s \<noteq> (None, None)" "cpu_in_bounds (sbx_Backend s) (sbx_CPULimit s)" "mem_in_bounds (sbx_Backend s) (sbx_MemoryLimitMB s)"
    and ans: "\<And>n. pv_UpdateResources (env_provider (w_env w)) n (sbx_ref s)
       \<lparr>ur_CPULimit = sbx_CPULimit s, ur_MemoryLimitMB = sbx_MemoryLimitMB s\<rparr> = ans"
  shows "\<exists>r w'. run_state (UpdateResources (revert_opts s)) w = (r, w') \<and> (isl r \<longleftrightarrow> isl ans) \<and>
     w_calls w' = w_calls w @ [revert_call s] \<and> w_db w' = w_db w \<and> w_env w' = w_env w \<and> w_timers w' = w_timers w"
proof -
  have "validateResourceBounds (sbx_CPULimit s) (sbx_MemoryLimitMB s) (sbx_Backend s) = Inr ()"
    using assms(5,6) by (simp add: validate_iff)
  then show ?thesis
    using assms(1-4) ans
    by (cases ans) (auto simp: UpdateResources_def revert_opts_def live_resize_def limits_def runs Let_def revert_call_def)
qed

definition retry_schedule :: "world \<Rightarrow> boost \<Rightarrow> world \<Rightarrow> bool" where
  "retry_schedule w b w' \<longleftrightarrow>
    (if bst_RevertAttempts b < 5
     then map_option (\<lambda>b. (bst_State b, bst_RevertAttempts b)) (boost_GetByID (bst_BoostID b) (w_db w')) =
            Some (BoostActive, bst_RevertAttempts b + 1) \<and>
          map_option tm_delay (w_timers w' (bst_BoostID b)) = Some (boostBackoff ! nat (bst_RevertAttempts b))
     else map_option (\<lambda>b. (bst_State b, bst_RevertAttempts b)) (boost_GetByID (bst_BoostID b) (w_db w')) =
            Some (BoostRevertFailed, bst_RevertAttempts b + 1) \<and> w_timers w' (bst_BoostID b) = None)"

text \<open>
  the retry schedule.  When the backend refuses a revert, the attempt is counted and the
  next one is scheduled after 1s, 5s, 30s, 2m and 10m in turn; the sixth refusal marks the
  boost revert_failed and leaves no timer.  Each time the backend has been asked for exactly
  the persisted limits.
\<close>

theorem refused_revert_is_retried:
  assumes "revert_setting w b s" "0 \<le> bst_RevertAttempts b" "limits s \<noteq> (None, None)"
    "cpu_in_bounds (sbx_Backend s) (sbx_CPULimit s)" "mem_in_bounds (sbx_Backend s) (sbx_MemoryLimitMB s)"
    "\<And>n r q. pv_UpdateResources (env_provider (w_env w)) n r q = Inl e"
  shows "w_calls (snd (run_state (boost_expire (bst_BoostID b)) w)) = w_calls w @ [revert_call s] \<and>
    retry_schedule w b (snd (run_state (boost_expire (bst_BoostID b)) w))"
proof -
  let ?w = "stopped_at (bst_BoostID b) w"
  have s: "sandbox_Get (sbx_SandboxID s) (w_db w) = Some s" "sbx_State s = SandboxRunning" "no_db_failure w"
    "boost_GetByID (bst_BoostID b) (w_db w) = Some b"
    using assms(1) by (auto simp: revert_setting_def sandbox_Get_id)
  obtain err w2 where u: "run_state (UpdateResources (revert_opts s)) ?w = (Inl err, w2)"
    "w_calls w2 = w_calls w @ [revert_call s]" "w_db w2 = w_db w" "w_env w2 = w_env w"
    "w_timers w2 = (w_timers w)(bst_BoostID b := None)"
    using revert_resize [of ?w s "Inl e"] s assms(3-6) by (auto simp: isl_def)
  have w2: "no_db_failure w2" using s(3) u(4) by (simp add: no_db_failure_def)
  obtain w3 where r: "run_state (revert_failed b err) w2 = ((), w3)"
    by (cases "run_state (revert_failed b err) w2") auto
  have "snd (run_state (boost_expire (bst_BoostID b)) w) = w3"
    by (simp add: expire_setting [OF assms(1)] u(1) r)
  then show ?thesis
    using run_revert_failed [OF w2 _ assms(2) r] s(4) u by (simp add: retry_schedule_def split: if_splits)
qed

text \<open>
  a sandbox without persisted limits is never reverted.  When its boost expires the
  backend is not called at all, since a resize without any limit is invalid; the boost goes
  through the retry schedule of a refused revert and ends as revert_failed.
\<close>

theorem boost_without_limits_is_not_reverted:
  assumes "revert_setting w b s" "0 \<le> bst_RevertAttempts b" "limits s = (None, None)"
  shows "w_calls (snd (run_state (boost_expire (bst_BoostID b)) w)) = w_calls w \<and>
    retry_schedule w b (snd (run_state (boost_expire (bst_BoostID b)) w))"
proof -
  let ?w = "stopped_at (bst_BoostID b) w"
  have s: "no_db_failure w" "boost_GetByID (bst_BoostID b) (w_db w) = Some b"
    using assms(1) by (auto simp: revert_setting_def)
  obtain w3 where r: "run_state (revert_failed b InvalidArgument) ?w = ((), w3)"
    by (cases "run_state (revert_failed b InvalidArgument) ?w") auto
  have "snd (run_state (boost_expire (bst_BoostID b)) w) = w3"
    by (simp add: expire_setting [OF assms(1)] live_resize_nil [OF assms(3)] r)
  then show ?thesis
    using run_revert_failed [OF _ _ assms(2) r] s by (simp add: retry_schedule_def split: if_splits)
qed

definition refusing_env :: env where
  "refusing_env = demo_env\<lparr>env_provider := demo_provider\<lparr>pv_UpdateResources := \<lambda>_ _ _. Inl (ProviderResizeError BackendRejected)\<rparr>\<rparr>"

definition demo_unlimited :: sandbox where
  "demo_unlimited = demo_sandbox ''a'' SandboxRunning\<lparr>sbx_CPULimit := None, sbx_MemoryLimitMB := None\<rparr>"

definition boosted_world :: "sandbox \<Rightarrow> int \<Rightarrow> world" where
  "boosted_world s n = demo_world (demo_db [s] [demo_boost ''bst-1'' ''a'' (utc 0)\<lparr>bst_RevertAttempts := n\<rparr>])\<lparr>w_env := refusing_env\<rparr>"

lemma boosted_setting:
  "sbx_SandboxID s = ''a'' \<Longrightarrow> sbx_ProjectID s = ''p'' \<Longrightarrow> sbx_State s = SandboxRunning \<Longrightarrow>
   revert_setting (boosted_world s n) (demo_boost ''bst-1'' ''a'' (utc 0)\<lparr>bst_RevertAttempts := n\<rparr>) s"
  by (simp add: revert_setting_def boosted_world_def db_ok_def table_ok unique_def refers_def demo_db_def demo_boost_def
      empty_db_def no_db_failure_def refusing_env_def demo_env_def boost_GetByID_def row_find_def sandbox_Get_def)

lemma boosted_calls: "w_calls (boosted_world s n) = []" "w_env (boosted_world s n) = refusing_env"
  by (simp_all add: boosted_world_def)

lemma demo_limits: "cpu_in_bounds ''firecracker'' (Some 1)" "mem_in_bounds ''firecracker'' (Some 256)"
  by (simp_all add: cpu_in_bounds_def mem_in_bounds_def backendFirecracker_def)

lemma refused_revert_is_retried_witness:
  "w_calls (snd (run_state (boost_expire ''bst-1'') (boosted_world (demo_sandbox ''a'' SandboxRunning) 4))) =
     [revert_call (demo_sandbox ''a'' SandboxRunning)] \<and>
   map_option tm_delay (w_timers (snd (run_state (boost_expire ''bst-1'') (boosted_world (demo_sandbox ''a'' SandboxRunning) 4))) ''bst-1'') =
     Some (10 * d_minute)"
proof -
  let ?s = "demo_sandbox ''a'' SandboxRunning" and ?b = "demo_boost ''bst-1'' ''a'' (utc 0)\<lparr>bst_RevertAttempts := 4\<rparr>"
  have b: "bst_BoostID ?b = ''bst-1''" "bst_RevertAttempts ?b = 4" by (simp_all add: demo_boost_def)
  show ?thesis
    using refused_revert_is_retried [OF boosted_setting, of ?s 4 "ProviderResizeError BackendRejected"]
    by (simp add: b boosted_calls limits_def demo_limits refusing_env_def retry_schedule_def boostBackoff_def)
qed

lemma boost_without_limits_is_not_reverted_witness:
  "w_calls (snd (run_state (boost_expire ''bst-1'') (boosted_world demo_unlimited 5))) = [] \<and>
   map_option bst_State (boost_GetByID ''bst-1'' (w_db (snd (run_state (boost_expire ''bst-1'') (boosted_world demo_unlimited 5))))) =
     Some BoostRevertFailed"
proof -
  let ?b = "demo_boost ''bst-1'' ''a'' (utc 0)\<lparr>bst_RevertAttempts := 5\<rparr>"
  have b: "bst_BoostID ?b = ''bst-1''" "bst_RevertAttempts ?b = 5" by (simp_all add: demo_boost_def)
  show ?thesis
    using boost_without_limits_is_not_reverted [OF boosted_setting, of demo_unlimited 5]
    by (auto simp: b boosted_calls limits_def retry_schedule_def demo_unlimited_def)
qed

section \<open>Durations\<close>

lemma undo_fails: "fst (run_state (undo_start b prior e) w) \<noteq> Inr x"
  by (auto simp: undo_start_def runs split: option.splits sum.splits prod.splits)

lemma begin_result:
  assumes "run_state (boost_begin opts dur sbx prior) w = (Inr b, w')"
  shows "bst_SandboxID b = sbx_SandboxID sbx \<and> bst_State b = BoostActive \<and> bst_ExpiresAt b = t_Add (bst_StartedAt b) dur \<and>
    (bst_OriginalCPULimit b, bst_OriginalMemoryLimitMB b) = limits sbx"
proof -
  have no: "run_state (undo_start c p e) v \<noteq> (Inr x, v')" for c p e v x v'
    using undo_fails [of c p e v x] by (metis fst_conv)
  show ?thesis
    using assms by (auto simp: boost_begin_def runs Let_def limits_def no split: option.splits sum.splits prod.splits)
qed

text \<open>
  for durations up to 9223372036 seconds, a started boost lasts exactly the requested
  time, which is positive and at most the configured maximum, and remembers the persisted
  limits of its sandbox.
\<close>

theorem started_boost_lasts_as_requested:
  assumes "run_state (BoostService_Start opts) w = (Inr b, w')" "bo_DurationSeconds opts \<le> 9223372036"
  shows "0 < bo_DurationSeconds opts \<and> bo_DurationSeconds opts * d_second \<le> env_maxBoost (w_env w) \<and>
    inst (bst_ExpiresAt b) = inst (bst_StartedAt b) + bo_DurationSeconds opts * d_second \<and>
    bst_SandboxID b = bo_SandboxID opts \<and> bst_State b = BoostActive"
proof -
  have pos: "0 < bo_DurationSeconds opts"
    using assms(1) by (auto simp: BoostService_Start_def split: if_splits)
  have d: "seconds_dur (bo_DurationSeconds opts) = bo_DurationSeconds opts * d_second"
    using pos assms(2) by (simp add: seconds_dur_small)
  have chk: "run_state (boost_check opts) v = (Inr sbx, v') \<Longrightarrow> sbx_SandboxID sbx = bo_SandboxID opts" for v sbx v'
    by (auto simp: boost_check_def runs dest: sandbox_Get_id split: option.splits sum.splits if_splits)
  show ?thesis
    using assms(1) pos
    by (auto simp: BoostService_Start_def runs Let_def d t_Add_def dest!: begin_result chk
        split: if_splits option.splits sum.splits prod.splits)
qed

definition demo_opts :: "int \<Rightarrow> boost_opts" where
  "demo_opts n = \<lparr>bo_SandboxID = ''a'', bo_CPULimit = Some 4, bo_MemoryLimitMB = None, bo_DurationSeconds = n, bo_Source = []\<rparr>"

text \<open>Starting a boost on the demo sandbox, where nothing fails.\<close>

lemma demo_start:
  assumes "0 < n" "seconds_dur n \<le> d_hour"
  shows "\<exists>b w'. run_state (BoostService_Start (demo_opts n)) (demo_world (two_sandboxes SandboxRunning SandboxStopped)) = (Inr b, w')
    \<and> bst_ExpiresAt b = t_Add (bst_StartedAt b) (seconds_dur n)"
proof -
  have up: "boost_Upsert b (two_sandboxes SandboxRunning SandboxStopped) =
      Inr ((two_sandboxes SandboxRunning SandboxStopped)\<lparr>db_boosts := [saved_boost b]\<rparr>)" if "bst_SandboxID b = ''a''" for b
    using that by (simp add: boost_Upsert_def references_def) (simp add: boost_Get_def demo_db_def)
  have none: "boost_Get ''a'' (two_sandboxes SandboxRunning SandboxStopped) = None"
    by (simp add: boost_Get_def demo_db_def)
  have get: "sandbox_Get ''a'' (two_sandboxes SandboxRunning SandboxStopped\<lparr>db_boosts := bs\<rparr>) = Some (demo_sandbox ''a'' SandboxRunning)" for bs
    by (simp add: sandbox_Get_def demo_db_def row_find_def)
  show ?thesis
    using assms
    by (simp add: BoostService_Start_def boost_begin_def boost_check_def demo_opts_def runs Let_def up none get demo_env_def
        demo_provider_def validateResourceBounds_def limit_bounds_def backendFirecracker_def UpdateResources_def live_resize_def
        armRemaining_def armExpiry_def)
qed

lemma started_boost_lasts_as_requested_witness:
  "\<exists>b w'. run_state (BoostService_Start (demo_opts 60)) (demo_world (two_sandboxes SandboxRunning SandboxStopped)) = (Inr b, w')
    \<and> inst (bst_ExpiresAt b) = inst (bst_StartedAt b) + 60 * d_second"
proof -
  obtain b w' where "run_state (BoostService_Start (demo_opts 60)) (demo_world (two_sandboxes SandboxRunning SandboxStopped)) = (Inr b, w')"
    using demo_start [of 60] by (auto simp: seconds_dur_small d_hour_def d_minute_def d_second_def)
  with started_boost_lasts_as_requested [OF this] show ?thesis by (simp add: demo_opts_def)
qed

text \<open>
  The maximum is checked after the multiplication has wrapped around.  A request for
  18446744074 seconds (584 years) is accepted under a maximum of one hour and makes a boost
  of 0.29 seconds; one for 9223372037 seconds makes a boost that has expired before it starts.
\<close>

theorem boost_duration_wraps_around:
  "(\<exists>b w'. run_state (BoostService_Start (demo_opts 18446744074)) (demo_world (two_sandboxes SandboxRunning SandboxStopped)) = (Inr b, w')
      \<and> inst (bst_ExpiresAt b) = inst (bst_StartedAt b) + 290448384) \<and>
   (\<exists>b w'. run_state (BoostService_Start (demo_opts 9223372037)) (demo_world (two_sandboxes SandboxRunning SandboxStopped)) = (Inr b, w')
      \<and> inst (bst_ExpiresAt b) < inst (bst_StartedAt b)) \<and>
   env_maxBoost demo_env = 3600 * d_second"
proof -
  have 1: "seconds_dur 18446744074 = 290448384" "seconds_dur 9223372037 = - 9223372036709551616"
    by (simp_all add: seconds_dur_def wrap64_def d_second_def)
  show ?thesis
    using demo_start [of 18446744074] demo_start [of 9223372037]
    by (auto simp: 1 d_hour_def d_minute_def d_second_def t_Add_def demo_env_def)
qed

end
