(* ===== verification/Sessions.thy ===== *)
theory Sessions imports Resize begin

text \<open>
  The session service (\<open>internal/service/session.go\<close>): shell sessions in a running sandbox,
  the preparation of bash and tmux in the guest with their per-sandbox caches, and the exit
  of all sessions when a sandbox stops.  \<open>pv_Exec\<close> answers with the exit code, or with an
  error when the command cannot be started, cannot be waited for, or its context ends.
\<close>

section \<open>Commands in the guest\<close>

definition execRun :: "backend_ref \<Rightarrow> string list \<Rightarrow> unit res M" where
  "execRun ref cmd = bindE (provide (PExec ref cmd) (\<lambda>p n. pv_Exec p n ref cmd))
     (\<lambda>status. ret (if status \<noteq> 0 then Inl (Opaque ''command failed'') else Inr ()))"

definition execCheck :: "backend_ref \<Rightarrow> string list \<Rightarrow> bool M" where
  "execCheck ref cmd = do {
     r \<leftarrow> provide (PExec ref cmd) (\<lambda>p n. pv_Exec p n ref cmd);
     ret (case r of Inl _ \<Rightarrow> False | Inr status \<Rightarrow> status = 0) }"

definition testExec :: "backend_ref \<Rightarrow> string \<Rightarrow> bool M" where
  "testExec ref path = execCheck ref [''test'', ''-x'', path]"

definition nl :: string where "nl = [CHR 0x0A]"

definition quoted :: "string \<Rightarrow> string" where "quoted s = [CHR 0x27] @ s @ [CHR 0x27]"

definition tmuxConf :: "bool \<Rightarrow> string" where
  "tmuxConf hasBash = ''set -g default-terminal \"xterm-256color\"'' @ nl @ ''set -g mouse on'' @ nl @ ''set -s set-clipboard on'' @
     (if hasBash then nl @ ''set -g default-shell /bin/bash'' @ nl @ ''set -g default-command \"/bin/bash -l\"'' else [])"

text \<open>The choice of the package manager for a missing program.\<close>

definition install_with :: "string \<Rightarrow> bool M \<Rightarrow> backend_ref \<Rightarrow> unit res M" where
  "install_with prog isAlpine ref = do {
     apk \<leftarrow> isAlpine;
     if apk then execRun ref [''apk'', ''add'', ''--no-cache'', prog]
     else do {
       apt \<leftarrow> testExec ref ''/usr/bin/apt-get'';
       if apt then execRun ref [''sh'', ''-c'', ''apt-get update && apt-get install -y --no-install-recommends '' @ prog]
       else ret (Inl (Opaque ''no supported package manager found'')) } }"

definition ensureTmux :: "string \<Rightarrow> backend_ref \<Rightarrow> unit res M" where
  "ensureTmux sid ref = do {
     ready \<leftarrow> tmux_ready sid;
     if ready then ret (Inr ())
     else do {
       present \<leftarrow> testExec ref ''/usr/bin/tmux'';
       bindE (if present then ret (Inr ()) else install_with ''tmux'' (testExec ref ''/sbin/apk'') ref) (\<lambda>_. do {
         conf \<leftarrow> execCheck ref [''test'', ''-f'', ''/root/.tmux.conf''];
         (if conf then ret () else do {
            hasBash \<leftarrow> testExec ref ''/bin/bash'';
            ignore (execRun ref [''sh'', ''-c'', ''cat > /root/.tmux.conf << '' @ quoted ''TMUXEOF'' @ nl @ tmuxConf hasBash @ nl @ ''TMUXEOF'']) });
         set_tmux sid;
         ret (Inr ()) }) } }"

text \<open>The colour set-up of a bash prompt; \<open>prompt\<close> is one \<open>PS1\<close> line.\<close>

definition lines :: "string list \<Rightarrow> string" where
  "lines ls = concat (map (\<lambda>l. l @ nl) ls)"

definition prompt :: "string \<Rightarrow> string \<Rightarrow> string" where
  "prompt colour sign = (let b = [CHR 0x5C] in ''  PS1='' @ quoted (b @ ''['' @ b @ ''e[1;'' @ colour @ ''m'' @ b @ '']'' @ b @ ''h'' @
     b @ ''['' @ b @ ''e[0m'' @ b @ '']:'' @ b @ ''['' @ b @ ''e[1;34m'' @ b @ '']'' @ b @ ''w'' @ b @ ''['' @ b @ ''e[0m'' @ b @ '']'' @ sign @ '' ''))"

definition colours :: string where
  "colours = lines [''export LS_OPTIONS='' @ quoted ''--color=auto'', ''alias ls='' @ quoted ''ls $LS_OPTIONS'',
     ''alias grep='' @ quoted ''grep --color=auto'', ''if [ \"$(id -u)\" -eq 0 ]; then'', prompt ''31'' ''#'', ''else'',
     prompt ''32'' ([CHR 0x5C] @ ''$''), ''fi''] @ ''COLORSEOF''"

definition ensureBash :: "string \<Rightarrow> backend_ref \<Rightarrow> unit res M" where
  "ensureBash sid ref = do {
     ready \<leftarrow> bash_ready sid;
     if ready then ret (Inr ())
     else do {
       isAlpine \<leftarrow> testExec ref ''/sbin/apk'';
       present \<leftarrow> testExec ref ''/bin/bash'';
       bindE (if present then ret (Inr ()) else install_with ''bash'' (ret isAlpine) ref) (\<lambda>_. do {
         bashrc \<leftarrow> (if isAlpine then execCheck ref [''test'', ''-f'', ''/root/.bashrc''] else ret True);
         (if bashrc then ret () else do {
            ignore (execRun ref [''sh'', ''-c'', ''mkdir -p /etc/profile.d && cat > /etc/profile.d/colors.sh << '' @ quoted ''COLORSEOF'' @ nl @ colours]);
            ignore (execRun ref [''sh'', ''-c'', ''cat > /root/.bashrc << '' @ quoted ''COLORSEOF'' @ nl @ colours]) });
         set_bash sid;
         ret (Inr ()) }) } }"

section \<open>Operations\<close>

text \<open>Fall back to another shell or backing; the write is best effort.\<close>

definition session_fallback :: "session \<Rightarrow> (session \<Rightarrow> session) \<Rightarrow> session M" where
  "session_fallback sess f = do {
     t \<leftarrow> now;
     let s = (f sess)\<lparr>ses_UpdatedAt := t\<rparr>;
     ignore (store_write (session_Update s));
     ret s }"

definition prepare_shell :: "sandbox \<Rightarrow> string \<Rightarrow> session \<Rightarrow> session M" where
  "prepare_shell sbx shell sess =
     (if shell = ''/bin/bash'' then do {
        r \<leftarrow> ensureBash (sbx_SandboxID sbx) (sbx_ref sbx);
        case r of
          Inl _ \<Rightarrow> session_fallback sess (ses_Shell_update (\<lambda>_. ''/bin/sh''))
        | Inr _ \<Rightarrow> ret sess }
      else ret sess)"

definition prepare_backing :: "sandbox \<Rightarrow> session \<Rightarrow> session M" where
  "prepare_backing sbx sess =
     (let direct = session_fallback sess (ses_Backing_update (\<lambda>_. SessionBackingDirect)) in
      if ses_Backing sess = SessionBackingTmux then do {
        r \<leftarrow> ensureTmux (sbx_SandboxID sbx) (sbx_ref sbx);
        case r of
          Inl _ \<Rightarrow> direct
        | Inr _ \<Rightarrow> do {
            r2 \<leftarrow> execRun (sbx_ref sbx) [''tmux'', ''new-session'', ''-d'', ''-s'', ses_SessionID sess];
            case r2 of Inl _ \<Rightarrow> direct | Inr _ \<Rightarrow> ret sess } }
      else ret sess)"

definition SessionService_Create :: "string \<Rightarrow> session_backing \<Rightarrow> string \<Rightarrow> session res M" where
  "SessionService_Create sid backing shell =
     bindE (store_get (sandbox_Get sid)) (\<lambda>sbx.
       if sbx_State sbx \<noteq> SandboxRunning then ret (Inl InvalidState)
       else do {
         let shell1 = (if shell = [] then ''/bin/bash'' else shell);
         let backing1 = (if backing = [] \<or> backing = SessionBackingAuto then SessionBackingTmux else backing);
         t \<leftarrow> now;
         u \<leftarrow> new_uuid;
         let sess = \<lparr>ses_SessionID = u, ses_SandboxID = sid, ses_Backing = backing1, ses_Shell = shell1,
            ses_State = SessionActive, ses_CreatedAt = t, ses_UpdatedAt = t, ses_LastAttachedAt = None,
            ses_IdleTimeout = None, ses_Metadata = None\<rparr>;
         bindE (store_write (session_Create sess)) (\<lambda>_. do {
           s1 \<leftarrow> prepare_shell sbx shell1 sess;
           s2 \<leftarrow> prepare_backing sbx s1;
           ret (Inr s2) }) })"

definition SessionService_Get :: "string \<Rightarrow> session res M" where
  "SessionService_Get i = store_get (session_Get i)"

definition SessionService_ListBySandbox :: "string \<Rightarrow> session list res M" where
  "SessionService_ListBySandbox sid = store_read (session_ListBySandbox sid)"

definition SessionService_Destroy :: "string \<Rightarrow> unit res M" where
  "SessionService_Destroy i = bindE (store_get (session_Get i)) (\<lambda>sess.
     if \<not> session_CanTransitionTo (ses_State sess) SessionDestroyed then ret (Inl InvalidState)
     else do {
       s \<leftarrow> store_get (sandbox_Get (ses_SandboxID sess));
       (case s of
          Inl _ \<Rightarrow> ret ()
        | Inr sbx \<Rightarrow> if sbx_State sbx = SandboxRunning
            then ignore (execRun (sbx_ref sbx) [''tmux'', ''kill-session'', ''-t'', ses_SessionID sess]) else ret ());
       t \<leftarrow> now;
       store_write (session_Update (sess\<lparr>ses_State := SessionDestroyed, ses_UpdatedAt := t\<rparr>)) })"

definition SessionService_Detach :: "string \<Rightarrow> unit res M" where
  "SessionService_Detach i = bindE (store_get (session_Get i)) (\<lambda>sess.
     if \<not> session_CanTransitionTo (ses_State sess) SessionDetached then ret (Inl InvalidState)
     else do {
       t \<leftarrow> now;
       store_write (session_Update (sess\<lparr>ses_State := SessionDetached, ses_UpdatedAt := t, ses_LastAttachedAt := Some t\<rparr>)) })"

definition exit_session :: "session \<Rightarrow> unit res M" where
  "exit_session sess =
     (if \<not> session_CanTransitionTo (ses_State sess) SessionExited then ret (Inr ())
      else do {
        t \<leftarrow> now;
        store_write (session_Update (sess\<lparr>ses_State := SessionExited, ses_UpdatedAt := t\<rparr>)) })"

definition ExitAllForSandbox :: "string \<Rightarrow> unit res M" where
  "ExitAllForSandbox sid = bindE (store_read (session_ListBySandbox sid)) (\<lambda>sessions. forE sessions exit_session)"

definition ClearTmuxCache :: "string \<Rightarrow> unit M" where
  "ClearTmuxCache sid = clear_ready sid"

section \<open>What they keep\<close>

lemma keeps_exec [pres]: "keeps (dt P) (execRun ref cmd)" "keeps (dt P) (execCheck ref cmd)" "keeps (dt P) (testExec ref path)"
  unfolding execRun_def execCheck_def testExec_def by (intro pres)+

lemma keeps_ensure [pres]: "keeps (dt P) (ensureTmux sid ref)" "keeps (dt P) (ensureBash sid ref)"
  unfolding ensureTmux_def ensureBash_def install_with_def by (intro pres)+

text \<open>Only the sessions table is written.\<close>

lemma keeps_sessions:
  assumes "\<And>s d d' tm. P d tm \<Longrightarrow> session_Update s d = Inr d' \<Longrightarrow> P d' tm"
  shows "keeps (dt P) (session_fallback sess f)" "keeps (dt P) (SessionService_Destroy i)"
    "keeps (dt P) (SessionService_Detach i)" "keeps (dt P) (ExitAllForSandbox sid)"
proof -
  have w: "keeps (dt P) (store_write (session_Update s))" for s
    by (rule keeps_write) (rule assms)
  show "keeps (dt P) (session_fallback sess f)" "keeps (dt P) (SessionService_Destroy i)"
    "keeps (dt P) (SessionService_Detach i)" "keeps (dt P) (ExitAllForSandbox sid)"
    unfolding session_fallback_def SessionService_Destroy_def SessionService_Detach_def ExitAllForSandbox_def exit_session_def
    by (intro pres w)+
qed

lemma keeps_session_Create:
  assumes "\<And>s d d' tm. P d tm \<Longrightarrow> session_Update s d = Inr d' \<Longrightarrow> P d' tm"
    and "\<And>s d d' tm. P d tm \<Longrightarrow> session_Create s d = Inr d' \<Longrightarrow> P d' tm"
  shows "keeps (dt P) (SessionService_Create sid backing shell)"
proof -
  have c: "keeps (dt P) (store_write (session_Create s))" for s
    by (rule keeps_write) (rule assms(2))
  have f: "keeps (dt P) (session_fallback sess f)" for sess f
    by (rule keeps_sessions) (rule assms(1))
  show ?thesis
    unfolding SessionService_Create_def prepare_shell_def prepare_backing_def Let_def by (intro pres c f)
qed

lemma keeps_sessions_ok [pres]:
  "keeps (db db_ok) (SessionService_Create sid backing shell)" "keeps (db db_ok) (SessionService_Destroy i)"
  "keeps (db db_ok) (SessionService_Detach i)" "keeps (db db_ok) (ExitAllForSandbox sid)"
  using keeps_sessions [where P = "\<lambda>d _. db_ok d"] keeps_session_Create [where P = "\<lambda>d _. db_ok d"]
    session_Update_ok session_Create_ok by blast+

lemma keeps_ClearTmuxCache [pres]: "keeps (dt P) (ClearTmuxCache sid)"
  unfolding ClearTmuxCache_def by (intro pres)

end
