(* ===== verification/Sandboxes.thy ===== *)
theory Sandboxes imports Boosts Sessions begin

text \<open>
  The sandbox service (\<open>internal/service/sandbox.go\<close>): the calls of the API, which check the
  state machine, write the intent and enqueue an operation, and the handlers the dispatcher
  runs, which drive the backend and write the outcome.  Errors of a best-effort write
  (a bare \<open>s.sandboxes.Update(...)\<close>) are dropped with \<open>ignore\<close>.
\<close>

section \<open>Creation requests\<close>

record create_opts =
  co_Backend :: string
  co_CPULimit :: "int option"
  co_MemoryLimitMB :: "int option"
  co_NetworkMode :: network_mode
  co_EnableBoostChannel :: "bool option"
  co_ExpiresAt :: "gotime option"
  co_Metadata :: "data option"

definition resolveBackend :: "string \<Rightarrow> string \<Rightarrow> string \<Rightarrow> string" where
  "resolveBackend defaultBackend explicit imageRef =
     (if explicit \<noteq> [] then explicit
      else if CHR ''/'' \<in> set imageRef then ''incus''
      else if imageRef \<noteq> [] then ''firecracker''
      else defaultBackend)"

definition publishStateChange :: "sandbox \<Rightarrow> unit M" where
  "publishStateChange sbx = emit EventSandboxStateChanged
     [(''sandbox_id'', JStr (sbx_SandboxID sbx)), (''project_id'', JStr (sbx_ProjectID sbx)),
      (''state'', JStr (sandbox_state_text (sbx_State sbx)))]"

definition new_operation :: "string \<Rightarrow> string \<Rightarrow> string \<Rightarrow> string \<Rightarrow> string \<Rightarrow> gotime \<Rightarrow> data option \<Rightarrow> operation M" where
  "new_operation ty rtype rid sid snid t meta = do {
     u \<leftarrow> new_uuid;
     ret \<lparr>op_OperationID = u, op_ResourceType = rtype, op_ResourceID = rid, op_SandboxID = sid, op_SnapshotID = snid,
          op_Type = ty, op_State = OpPending, op_StartedAt = t, op_FinishedAt = None, op_Error = None, op_Metadata = meta\<rparr> }"

definition sandbox_op :: "string \<Rightarrow> string \<Rightarrow> gotime \<Rightarrow> data option \<Rightarrow> operation M" where
  "sandbox_op ty sid t meta = new_operation ty ''sandbox'' sid sid [] t meta"

text \<open>The row of a new sandbox; \<open>Create\<close> and \<open>CreateFromSnapshot\<close> differ in its source.\<close>

definition new_sandbox :: "string \<Rightarrow> string \<Rightarrow> string \<Rightarrow> string \<Rightarrow> string \<Rightarrow> create_opts \<Rightarrow> sandbox M" where
  "new_sandbox projectID name backend imageID snapshotID opts = do {
     t \<leftarrow> now;
     dflt \<leftarrow> config env_defaultBoostChannel;
     u \<leftarrow> new_uuid;
     ret \<lparr>sbx_SandboxID = u, sbx_ProjectID = projectID, sbx_Name = name, sbx_State = SandboxPending,
          sbx_Backend = backend, sbx_BackendRef = [], sbx_HostID = [], sbx_SourceImageID = imageID,
          sbx_ParentSnapshotID = snapshotID, sbx_CreatedAt = t, sbx_UpdatedAt = t, sbx_ExpiresAt = co_ExpiresAt opts,
          sbx_CPULimit = co_CPULimit opts, sbx_MemoryLimitMB = co_MemoryLimitMB opts,
          sbx_NetworkMode = (if co_NetworkMode opts = [] then NetworkIsolated else co_NetworkMode opts),
          sbx_EnableBoostChannel = (case co_EnableBoostChannel opts of None \<Rightarrow> dflt | Some b \<Rightarrow> b),
          sbx_Metadata = co_Metadata opts\<rparr> }"

text \<open>Create the operation and enqueue it; on failure run the caller's compensation first.\<close>

definition submit :: "operation \<Rightarrow> unit M \<Rightarrow> operation res M" where
  "submit p undo = do {
     r \<leftarrow> store_write (operation_Create p);
     case r of
       Inl e \<Rightarrow> do { undo; ret (Inl e) }
     | Inr _ \<Rightarrow> do { Enqueue p; ret (Inr p) } }"

definition SandboxService_Create :: "string \<Rightarrow> string \<Rightarrow> string \<Rightarrow> create_opts \<Rightarrow> operation res M" where
  "SandboxService_Create projectID name imageID opts = do {
     dflt \<leftarrow> config env_defaultBackend;
     let backend = resolveBackend dflt (co_Backend opts) imageID;
     bindE (ret (validateResourceBounds (co_CPULimit opts) (co_MemoryLimitMB opts) backend)) (\<lambda>_. do {
       sbx \<leftarrow> new_sandbox projectID name backend imageID [] opts;
       bindE (store_write (sandbox_Create sbx)) (\<lambda>_. do {
         p \<leftarrow> sandbox_op ''create_sandbox'' (sbx_SandboxID sbx) (sbx_CreatedAt sbx) (Some [(''image_id'', JStr imageID)]);
         submit p (ignore (store_write (sandbox_Delete (sbx_SandboxID sbx)))) }) }) }"

definition SandboxService_CreateFromSnapshot :: "string \<Rightarrow> string \<Rightarrow> string \<Rightarrow> create_opts \<Rightarrow> operation res M" where
  "SandboxService_CreateFromSnapshot projectID name snapshotID opts =
     bindE (store_get (snapshot_Get snapshotID)) (\<lambda>snap.
       if co_Backend opts \<noteq> [] \<and> co_Backend opts \<noteq> snp_Backend snap then ret (Inl InvalidArgument)
       else bindE (ret (validateResourceBounds (co_CPULimit opts) (co_MemoryLimitMB opts) (snp_Backend snap))) (\<lambda>_. do {
         sbx \<leftarrow> new_sandbox projectID name (snp_Backend snap) [] snapshotID opts;
         bindE (store_write (sandbox_Create sbx)) (\<lambda>_. do {
           p \<leftarrow> sandbox_op ''create_sandbox'' (sbx_SandboxID sbx) (sbx_CreatedAt sbx) (Some [(''snapshot_id'', JStr snapshotID)]);
           submit p (ignore (store_write (sandbox_Delete (sbx_SandboxID sbx)))) }) }))"

section \<open>Fork\<close>

fun decimal :: "nat \<Rightarrow> string" where
  "decimal n = (if n < 10 then [digit (int n)] else decimal (n div 10) @ [digit (int (n mod 10))])"

declare decimal.simps [simp del]

definition fork_child :: "sandbox \<Rightarrow> string \<Rightarrow> nat \<Rightarrow> gotime \<Rightarrow> sandbox" where
  "fork_child parent u i t = \<lparr>sbx_SandboxID = u, sbx_ProjectID = sbx_ProjectID parent,
     sbx_Name = sbx_Name parent @ ''-fork-'' @ decimal i, sbx_State = SandboxPending, sbx_Backend = sbx_Backend parent,
     sbx_BackendRef = [], sbx_HostID = [], sbx_SourceImageID = [], sbx_ParentSnapshotID = [],
     sbx_CreatedAt = t, sbx_UpdatedAt = t, sbx_ExpiresAt = None, sbx_CPULimit = sbx_CPULimit parent,
     sbx_MemoryLimitMB = sbx_MemoryLimitMB parent, sbx_NetworkMode = sbx_NetworkMode parent,
     sbx_EnableBoostChannel = False, sbx_Metadata = Some [(''fork_parent_id'', JStr (sbx_SandboxID parent))]\<rparr>"

definition delete_children :: "string list \<Rightarrow> unit M" where
  "delete_children ids = forM ids (\<lambda>i. ignore (store_write (sandbox_Delete i)))"

fun create_children :: "sandbox \<Rightarrow> gotime \<Rightarrow> nat \<Rightarrow> nat \<Rightarrow> string list \<Rightarrow> string list res M" where
  "create_children parent t 0 i ids = ret (Inr ids)"
| "create_children parent t (Suc n) i ids = do {
     u \<leftarrow> new_uuid;
     r \<leftarrow> store_write (sandbox_Create (fork_child parent u i t));
     case r of
       Inl e \<Rightarrow> do { delete_children ids; ret (Inl e) }
     | Inr _ \<Rightarrow> create_children parent t n (Suc i) (ids @ [u]) }"

definition SandboxService_Fork :: "string \<Rightarrow> int \<Rightarrow> operation res M" where
  "SandboxService_Fork parentID count =
     (if count < 1 then ret (Inl InvalidState)
      else bindE (store_get (sandbox_Get parentID)) (\<lambda>parent.
        if sbx_State parent \<noteq> SandboxRunning then ret (Inl InvalidState)
        else do {
          t \<leftarrow> now;
          bindE (create_children parent t (nat count) 0 []) (\<lambda>childIDs. do {
            p \<leftarrow> sandbox_op ''fork_sandbox'' (sbx_SandboxID parent) t
              (Some [(''parent_id'', JStr (sbx_SandboxID parent)), (''children'', JStrs childIDs), (''count'', JNum count)]);
            submit p (delete_children childIDs) }) }))"

section \<open>Reads\<close>

definition SandboxService_Get :: "string \<Rightarrow> sandbox res M" where
  "SandboxService_Get i = store_get (sandbox_Get i)"

definition SandboxService_List :: "sandbox_filter \<Rightarrow> sandbox list res M" where
  "SandboxService_List f = store_read (sandbox_List f)"

section \<open>Start, stop, destroy\<close>

text \<open>Write a state with a new \<open>UpdatedAt\<close>, and the compensation that writes the previous one back.\<close>

definition with_state :: "sandbox \<Rightarrow> sandbox_state \<Rightarrow> sandbox M" where
  "with_state sbx st = do { t \<leftarrow> now; ret (sbx\<lparr>sbx_State := st, sbx_UpdatedAt := t\<rparr>) }"

definition restore_state :: "sandbox \<Rightarrow> sandbox_state \<Rightarrow> unit M" where
  "restore_state sbx st = do { s \<leftarrow> with_state sbx st; ignore (store_write (sandbox_Update s)) }"

definition SandboxService_Start :: "string \<Rightarrow> operation res M" where
  "SandboxService_Start i = bindE (store_get (sandbox_Get i)) (\<lambda>sbx.
     if \<not> sandbox_CanTransitionTo (sbx_State sbx) SandboxStarting then ret (Inl InvalidState)
     else do {
       s \<leftarrow> with_state sbx SandboxStarting;
       bindE (store_write (sandbox_Update s)) (\<lambda>_. do {
         t \<leftarrow> now;
         p \<leftarrow> sandbox_op ''start_sandbox'' (sbx_SandboxID sbx) t None;
         submit p (restore_state s (sbx_State sbx)) }) })"

text \<open>
  \<open>Stop\<close> and \<open>Destroy\<close> hold the sandbox's boost lock and drop its boost before enqueueing.
\<close>

definition submit_ending :: "string \<Rightarrow> operation \<Rightarrow> unit M \<Rightarrow> operation res M" where
  "submit_ending i p undo = do {
     r \<leftarrow> store_write (operation_Create p);
     case r of
       Inl e \<Rightarrow> do { undo; ret (Inl e) }
     | Inr _ \<Rightarrow> do {
         boost \<leftarrow> config env_hasBoost;
         (if boost then cancelOnLifecycleLocked i else ret ());
         Enqueue p;
         ret (Inr p) } }"

definition SandboxService_Stop :: "string \<Rightarrow> bool \<Rightarrow> operation res M" where
  "SandboxService_Stop i force = bindE (store_get (sandbox_Get i)) (\<lambda>sbx.
     if \<not> sandbox_CanTransitionTo (sbx_State sbx) SandboxStopping then ret (Inl InvalidState)
     else do {
       s \<leftarrow> with_state sbx SandboxStopping;
       bindE (store_write (sandbox_Update s)) (\<lambda>_. do {
         t \<leftarrow> now;
         p \<leftarrow> sandbox_op ''stop_sandbox'' (sbx_SandboxID sbx) t (Some [(''force'', JBool force)]);
         submit_ending i p (restore_state s (sbx_State sbx)) }) })"

definition SandboxService_Destroy :: "string \<Rightarrow> operation res M" where
  "SandboxService_Destroy i = bindE (store_get (sandbox_Get i)) (\<lambda>sbx.
     if sbx_State sbx = SandboxDestroyed then ret (Inl InvalidState)
     else do {
       boost \<leftarrow> config env_hasBoost;
       let transitioned = (boost \<and> sbx_State sbx = SandboxRunning);
       bindE
         (if transitioned then do {
            s \<leftarrow> with_state sbx SandboxStopping;
            bindE (store_write (sandbox_Update s)) (\<lambda>_. ret (Inr s)) }
          else ret (Inr sbx)) (\<lambda>s. do {
         t \<leftarrow> now;
         p \<leftarrow> sandbox_op ''destroy_sandbox'' (sbx_SandboxID sbx) t None;
         submit_ending i p (if transitioned then restore_state s (sbx_State sbx) else ret ()) }) })"

section \<open>Handlers\<close>

definition set_state :: "sandbox \<Rightarrow> sandbox_state \<Rightarrow> sandbox M" where
  "set_state sbx st = do {
     s \<leftarrow> with_state sbx st;
     ignore (store_write (sandbox_Update s));
     publishStateChange s;
     ret s }"

definition fail_sandbox :: "sandbox \<Rightarrow> goerr \<Rightarrow> 'a res M" where
  "fail_sandbox sbx e = do { set_state sbx SandboxFailed; ret (Inl e) }"

definition create_request :: "sandbox \<Rightarrow> create_req" where
  "create_request sbx = \<lparr>cr_Name = sbx_Name sbx, cr_ImageRef = sbx_SourceImageID sbx, cr_Backend = sbx_Backend sbx,
     cr_CPULimit = sbx_CPULimit sbx, cr_MemoryLimitMB = sbx_MemoryLimitMB sbx, cr_NetworkMode = sbx_NetworkMode sbx,
     cr_EnableBoostChannel = Some (sbx_EnableBoostChannel sbx), cr_SandboxID = sbx_SandboxID sbx, cr_Metadata = None\<rparr>"

text \<open>The backend half of \<open>handleCreate\<close>: from the parent snapshot, or from the image.\<close>

definition create_on_backend :: "sandbox \<Rightarrow> backend_ref res M" where
  "create_on_backend sbx = (let req = create_request sbx in
     if sbx_ParentSnapshotID sbx \<noteq> [] then
       bindE (store_get (snapshot_Get (sbx_ParentSnapshotID sbx))) (\<lambda>snap.
         let sref = \<lparr>ref_Backend = snp_Backend snap, ref_Ref = snp_BackendRef snap\<rparr> in
         provide (PCreateSandboxFromSnapshot sref req) (\<lambda>p n. pv_CreateSandboxFromSnapshot p n sref req))
     else provide (PCreateSandbox req) (\<lambda>p n. pv_CreateSandbox p n req))"

definition handleCreate :: "operation \<Rightarrow> unit res M" where
  "handleCreate p = bindE (store_get (sandbox_Get (op_ResourceID p))) (\<lambda>sbx0. do {
     sbx \<leftarrow> set_state sbx0 SandboxStarting;
     r \<leftarrow> create_on_backend sbx;
     case r of
       Inl e \<Rightarrow> fail_sandbox sbx e
     | Inr ref \<Rightarrow> do {
         let created = sbx\<lparr>sbx_BackendRef := ref_Ref ref, sbx_Backend := ref_Backend ref\<rparr>;
         st \<leftarrow> provide (PStartSandbox ref) (\<lambda>p n. pv_StartSandbox p n ref);
         case st of
           Inl e \<Rightarrow> fail_sandbox created e
         | Inr _ \<Rightarrow> do { set_state created SandboxRunning; ret (Inr ()) } } })"

text \<open>The children of a fork operation: a \<open>[]string\<close> in memory, an array of any from the store.\<close>

fun string_entries :: "json list \<Rightarrow> string list res" where
  "string_entries [] = Inr []"
| "string_entries (JStr s # js) = (case string_entries js of Inl e \<Rightarrow> Inl e | Inr ss \<Rightarrow> Inr (s # ss))"
| "string_entries (_ # js) = Inl (Opaque ''fork op children entry is not a string'')"

definition fork_children :: "data option \<Rightarrow> string list res" where
  "fork_children meta = (case map_of (case meta of None \<Rightarrow> [] | Some m \<Rightarrow> m) ''children'' of
     Some (JStrs ss) \<Rightarrow> Inr ss
   | Some (JArr js) \<Rightarrow> string_entries js
   | _ \<Rightarrow> Inl (Opaque ''fork op missing children''))"

text \<open>A child row that cannot be read is skipped.\<close>

definition on_child :: "string \<Rightarrow> (sandbox \<Rightarrow> sandbox) \<Rightarrow> unit M" where
  "on_child i f = do {
     g \<leftarrow> store_get (sandbox_Get i);
     case g of
       Inl _ \<Rightarrow> ret ()
     | Inr sbx \<Rightarrow> do {
         t \<leftarrow> now;
         let s = (f sbx)\<lparr>sbx_UpdatedAt := t\<rparr>;
         ignore (store_write (sandbox_Update s));
         publishStateChange s } }"

definition markChildrenFailed :: "string list \<Rightarrow> unit M" where
  "markChildrenFailed ids = forM ids (\<lambda>i. on_child i (sbx_State_update (\<lambda>_. SandboxFailed)))"

definition bind_child :: "backend_ref list \<Rightarrow> nat \<Rightarrow> sandbox \<Rightarrow> sandbox" where
  "bind_child refs i sbx =
     (if i < length refs
      then sbx\<lparr>sbx_BackendRef := ref_Ref (refs ! i), sbx_Backend := ref_Backend (refs ! i), sbx_State := SandboxStarting\<rparr>
      else sbx\<lparr>sbx_State := SandboxFailed\<rparr>)"

definition handleFork :: "operation \<Rightarrow> unit res M" where
  "handleFork p =
     (case get_str (case op_Metadata p of None \<Rightarrow> [] | Some m \<Rightarrow> m) ''parent_id'' of
        None \<Rightarrow> ret (Inl (Opaque ''fork op missing parent_id''))
      | Some parentID \<Rightarrow> bindE (ret (fork_children (op_Metadata p))) (\<lambda>childIDs. do {
          g \<leftarrow> store_get (sandbox_Get parentID);
          case g of
            Inl e \<Rightarrow> do { markChildrenFailed childIDs; ret (Inl e) }
          | Inr parent \<Rightarrow> do {
              f \<leftarrow> provide (PForkSandbox (sbx_ref parent) (int (length childIDs)))
                     (\<lambda>p n. pv_ForkSandbox p n (sbx_ref parent) (int (length childIDs)));
              case snd f of
                Some e \<Rightarrow> do { markChildrenFailed childIDs; ret (Inl e) }
              | None \<Rightarrow> do {
                  forM (enumerate 0 childIDs) (\<lambda>(i, c). on_child c (bind_child (fst f) i));
                  ret (Inr ()) } } }))"

definition handleStart :: "operation \<Rightarrow> unit res M" where
  "handleStart p = bindE (store_get (sandbox_Get (op_ResourceID p))) (\<lambda>sbx0. do {
     sbx \<leftarrow> set_state sbx0 SandboxStarting;
     r \<leftarrow> provide (PStartSandbox (sbx_ref sbx)) (\<lambda>p n. pv_StartSandbox p n (sbx_ref sbx));
     case r of
       Inl e \<Rightarrow> fail_sandbox sbx e
     | Inr _ \<Rightarrow> do { set_state sbx SandboxRunning; ret (Inr ()) } })"

definition op_force :: "operation \<Rightarrow> bool" where
  "op_force p = (case op_Metadata p of None \<Rightarrow> False
     | Some m \<Rightarrow> (case map_of m ''force'' of Some (JBool b) \<Rightarrow> b | _ \<Rightarrow> False))"

definition exit_sessions :: "string \<Rightarrow> unit M" where
  "exit_sessions sid = do {
     sessions \<leftarrow> config env_hasSessions;
     if sessions then do { ignore (ExitAllForSandbox sid); ClearTmuxCache sid } else ret () }"

definition handleStop :: "operation \<Rightarrow> unit res M" where
  "handleStop p = bindE (store_get (sandbox_Get (op_ResourceID p))) (\<lambda>sbx0. do {
     sbx \<leftarrow> set_state sbx0 SandboxStopping;
     r \<leftarrow> provide (PStopSandbox (sbx_ref sbx) (op_force p)) (\<lambda>q n. pv_StopSandbox q n (sbx_ref sbx) (op_force p));
     case r of
       Inl e \<Rightarrow> fail_sandbox sbx e
     | Inr _ \<Rightarrow> do {
         set_state sbx SandboxStopped;
         exit_sessions (sbx_SandboxID sbx);
         ret (Inr ()) } })"

definition or_nil :: "'a list res \<Rightarrow> 'a list" where
  "or_nil r = (case r of Inl _ \<Rightarrow> [] | Inr xs \<Rightarrow> xs)"

definition handleDestroy :: "operation \<Rightarrow> unit res M" where
  "handleDestroy p = bindE (store_get (sandbox_Get (op_ResourceID p))) (\<lambda>sbx. do {
     let ref = sbx_ref sbx;
     exit_sessions (sbx_SandboxID sbx);
     sessions \<leftarrow> store_read (session_ListBySandbox (sbx_SandboxID sbx));
     forM (or_nil sessions) (\<lambda>s. ignore (store_write (session_Delete (ses_SessionID s))));
     ports \<leftarrow> store_read (port_ListBySandbox (sbx_SandboxID sbx));
     forM (or_nil ports) (\<lambda>b. do {
       ignore (provide (PUnpublishPort ref (pb_PublishedPort b)) (\<lambda>q n. pv_UnpublishPort q n ref (pb_PublishedPort b)));
       ignore (store_write (port_Delete (sbx_SandboxID sbx) (pb_TargetPort b))) });
     r \<leftarrow> provide (PDestroySandbox ref) (\<lambda>q n. pv_DestroySandbox q n ref);
     case r of
       Inl e \<Rightarrow> if sbx_State sbx = SandboxStopping then fail_sandbox sbx e else ret (Inl e)
     | Inr _ \<Rightarrow> do { set_state sbx SandboxDestroyed; ret (Inr ()) } })"

section \<open>The database stays well-formed\<close>

lemma keeps_small [pres]: "keeps (dt P) (publishStateChange s)" "keeps (dt P) (with_state s st)"
  "keeps (dt P) (new_operation ty rt rid sid snid t meta)" "keeps (dt P) (sandbox_op ty sid t meta)"
  "keeps (dt P) (new_sandbox pid n b im sn opts)"
  unfolding publishStateChange_def with_state_def new_operation_def sandbox_op_def new_sandbox_def by (intro pres)+

lemma keeps_state_writes [pres]: "keeps (db db_ok) (restore_state s st)" "keeps (db db_ok) (set_state s st)"
  "keeps (db db_ok) (fail_sandbox s e)" "keeps (db db_ok) (on_child i f)" "keeps (db db_ok) (exit_sessions sid)"
  "keeps (db db_ok) (delete_children ids)"
  unfolding restore_state_def set_state_def fail_sandbox_def on_child_def exit_sessions_def delete_children_def by (intro pres)+

lemma keeps_submit [pres]: "keeps (db db_ok) u \<Longrightarrow> keeps (db db_ok) (submit p u)"
  "keeps (db db_ok) u \<Longrightarrow> keeps (db db_ok) (submit_ending i p u)"
  unfolding submit_def submit_ending_def by (intro pres; assumption?)+

lemma keeps_create_children [pres]: "keeps (db db_ok) (create_children parent t n i ids)"
proof (induction n arbitrary: i ids)
  case 0
  show ?case unfolding create_children.simps by (intro pres)
next
  case (Suc n)
  show ?case unfolding create_children.simps by (intro pres Suc.IH)
qed

lemma keeps_sandbox_calls [pres]:
  "keeps (db db_ok) (SandboxService_Create pid n im opts)" "keeps (db db_ok) (SandboxService_CreateFromSnapshot pid n sn opts)"
  "keeps (db db_ok) (SandboxService_Fork i c)" "keeps (db db_ok) (SandboxService_Start i)"
  "keeps (db db_ok) (SandboxService_Stop i force)" "keeps (db db_ok) (SandboxService_Destroy i)"
  unfolding SandboxService_Create_def SandboxService_CreateFromSnapshot_def SandboxService_Fork_def
    SandboxService_Start_def SandboxService_Stop_def SandboxService_Destroy_def
  by (intro pres)+

lemma keeps_split [pres]: "(\<And>a b. x = (a, b) \<Longrightarrow> keeps I (f a b)) \<Longrightarrow> keeps I (case x of (a, b) \<Rightarrow> f a b)"
  by (cases x) simp

lemma keeps_sandbox_handlers [pres]:
  "keeps (db db_ok) (handleCreate p)" "keeps (db db_ok) (handleFork p)" "keeps (db db_ok) (handleStart p)"
  "keeps (db db_ok) (handleStop p)" "keeps (db db_ok) (handleDestroy p)"
  unfolding handleCreate_def create_on_backend_def handleFork_def markChildrenFailed_def handleStart_def handleStop_def handleDestroy_def
  by (intro pres)+

end
