(* ===== verification/Lifecycle.thy ===== *)
theory Lifecycle imports Sandboxes begin

text \<open>
  What the calls and handlers of the sandbox service achieve: the guards and the compensation
  of start and stop under every pattern of database failures, the outcome of the handlers, and
  the all-or-nothing insertion of a fork's children.
\<close>

section \<open>Running the pieces\<close>

definition stamped :: "sandbox \<Rightarrow> sandbox_state \<Rightarrow> nat \<Rightarrow> env \<Rightarrow> sandbox" where
  "stamped s st t e = s\<lparr>sbx_State := st, sbx_UpdatedAt := utc (env_now e t)\<rparr>"

lemma stamped_simps [simp]: "sbx_SandboxID (stamped s st t e) = sbx_SandboxID s" "sbx_State (stamped s st t e) = st"
  "sbx_Name (stamped s st t e) = sbx_Name s" "sbx_BackendRef (stamped s st t e) = sbx_BackendRef s"
  "sbx_Backend (stamped s st t e) = sbx_Backend s" "sbx_ref (stamped s st t e) = sbx_ref s"
  by (simp_all add: stamped_def sbx_ref_def)

lemma run_with_state [runs]: "run_state (with_state s st) w = (stamped s st (w_tick w) (w_env w), ticked w)"
  by (simp add: with_state_def runs stamped_def)

text \<open>The states of all sandboxes, which is what a refused call must leave as it was.\<close>

definition states :: "database \<Rightarrow> string \<Rightarrow> sandbox_state option" where
  "states d k = map_option sbx_State (sandbox_Get k d)"

lemma states_put [simp]:
  "states (put_sandbox s d) = (if sandbox_Get (sbx_SandboxID s) d = None then states d else (states d)(sbx_SandboxID s \<mapsto> sbx_State s))"
  by (auto simp: states_def fun_eq_iff)

lemma states_operations: "operation_Create p d = Inr d' \<Longrightarrow> states d' = states d"
  by (auto simp: operation_Create_def states_def sandbox_Get_def fun_eq_iff)

lemma db_ok_operation: "db_ok d \<Longrightarrow> operation_Create p d = Inr d' \<Longrightarrow> db_ok d'"
  by (rule operation_Create_ok)

lemma get_after_operation: "operation_Create p d = Inr d' \<Longrightarrow> sandbox_Get k d' = sandbox_Get k d"
  by (auto simp: operation_Create_def sandbox_Get_def)

lemma operation_stored: "operation_Create p d = Inr d' \<Longrightarrow> operation_Get (op_OperationID p) d' = Some (saved_operation p)"
  using opers.add_look by simp

text \<open>Writing a state and writing the old one back restores every state, unless the second write fails.\<close>

lemma restore_undoes:
  assumes "db_ok d" "sandbox_Get i d = Some s" "w_db w = put_sandbox (stamped s st t e) d"
    and "env_dbfail (w_env w) (Suc (w_tick w)) = None"
  shows "states (w_db (snd (run_state (restore_state (stamped s st t e) (sbx_State s)) w))) = states d"
proof -
  let ?s = "stamped s st t e"
  let ?s' = "stamped ?s (sbx_State s) (w_tick w) (w_env w)"
  note id = sandbox_Get_id [OF assms(2)]
  have g: "sandbox_Get (sbx_SandboxID ?s') (w_db w) = Some (merged_sandbox s ?s)"
    using assms(2,3) id by simp
  have "db_ok (w_db w)" unfolding assms(3) by (rule put_sandbox_ok [OF assms(1)]) (use assms(2) id in auto)
  then have "sandbox_Update ?s' (w_db w) = Inr (put_sandbox ?s' (w_db w))"
    by (rule sandbox_Update_put [OF _ g]) simp
  then show ?thesis
    using assms g id by (auto simp: restore_state_def runs states_def fun_eq_iff)
qed

section \<open>Start and stop\<close>

lemma submit_cases:
  assumes "run_state (submit p undo) w = (r, w')"
  shows "(\<exists>e. r = Inl e \<and> w' = snd (run_state undo (ticked w))) \<or>
    (\<exists>d'. r = Inr p \<and> operation_Create p (w_db w) = Inr d' \<and> w_db w' = d' \<and>
       w_queue w' = (if w_stopped w \<or> 256 \<le> length (w_queue w) then w_queue w else w_queue w @ [p]) \<and> w_calls w' = w_calls w)"
  using assms by (auto simp: submit_def runs case_prod_unfold split: option.splits sum.splits)

lemma run_sandbox_op [runs]: "run_state (sandbox_op ty sid t meta) w =
    (\<lparr>op_OperationID = env_uuid (w_env w) (w_tick w), op_ResourceType = ''sandbox'', op_ResourceID = sid, op_SandboxID = sid,
      op_SnapshotID = [], op_Type = ty, op_State = OpPending, op_StartedAt = t, op_FinishedAt = None, op_Error = None,
      op_Metadata = meta\<rparr>, ticked w)"
  by (simp add: sandbox_op_def new_operation_def runs)

text \<open>An operation under a new identifier is accepted when the database works.\<close>

lemma new_operation_stored:
  "operation_Get (op_OperationID p) d = None \<Longrightarrow> operation_Create p d = Inr (d\<lparr>db_operations := db_operations d @ [saved_operation p]\<rparr>)"
  by (auto simp: operation_Create_def operation_Get_def row_find_None row_insert_def store_rows_def list_ex_iff
      operation_clash_def saved_operation_def)

lemma submit_accepts:
  assumes "no_db_failure w" "operation_Get (op_OperationID p) (w_db w) = None"
  shows "fst (run_state (submit p undo) w) = Inr p" "fst (run_state (submit_ending i p undo) w) = Inr p"
  using assms by (simp_all add: submit_def submit_ending_def runs new_operation_stored case_prod_unfold)

lemma Get_operation_put: "operation_Get k (put_sandbox s d) = operation_Get k d"
  by (simp add: operation_Get_def put_sandbox_def)

lemma Start_effects:
  assumes "db_ok (w_db w)" "run_state (SandboxService_Start i) w = (r, w')"
  shows "case r of
      Inr p \<Rightarrow> states (w_db w) i \<in> {Some SandboxPending, Some SandboxStopped} \<and>
        states (w_db w') = (states (w_db w))(i \<mapsto> SandboxStarting) \<and>
        operation_Get (op_OperationID p) (w_db w') = Some (saved_operation p) \<and>
        op_State p = OpPending \<and> op_Type p = ''start_sandbox'' \<and> op_ResourceID p = i \<and>
        w_queue w' = (if w_stopped w \<or> 256 \<le> length (w_queue w) then w_queue w else w_queue w @ [p])
    | Inl e \<Rightarrow> w_queue w' = w_queue w \<and>
        (states (w_db w') = states (w_db w) \<or> env_dbfail (w_env w) (w_tick w + 7) \<noteq> None)"
proof (cases "env_dbfail (w_env w) (w_tick w) = None \<and> (\<exists>s. sandbox_Get i (w_db w) = Some s \<and> SandboxStarting \<in> set (sandboxTransitions (sbx_State s)))")
  case False
  then show ?thesis
    using assms(2) by (auto simp: SandboxService_Start_def runs split: option.splits if_splits)
next
  case True
  then obtain s where s: "sandbox_Get i (w_db w) = Some s" "env_dbfail (w_env w) (w_tick w) = None"
    and st: "sbx_State s = SandboxPending \<or> sbx_State s = SandboxStopped"
    using to_Starting by auto
  note id = sandbox_Get_id [OF s(1)]
  let ?s = "stamped s SandboxStarting (Suc (w_tick w)) (w_env w)"
  have u: "sandbox_Update ?s (w_db w) = Inr (put_sandbox ?s (w_db w))"
    by (rule sandbox_Update_put [OF assms(1)]) (use s id in auto)
  show ?thesis
  proof (cases "env_dbfail (w_env w) (w_tick w + 2)")
    case (Some c)
    then show ?thesis
      using assms(2) s st by (auto simp: SandboxService_Start_def runs to_Starting numeral_2_eq_2)
  next
    case None
    define p where "p = \<lparr>op_OperationID = env_uuid (w_env w) (w_tick w + 4), op_ResourceType = ''sandbox'', op_ResourceID = i,
      op_SandboxID = i, op_SnapshotID = [], op_Type = ''start_sandbox'', op_State = OpPending,
      op_StartedAt = utc (env_now (w_env w) (w_tick w + 3)), op_FinishedAt = None, op_Error = None, op_Metadata = None\<rparr>"
    define w5 where "w5 = w\<lparr>w_db := put_sandbox ?s (w_db w), w_tick := w_tick w + 5\<rparr>"
    have "run_state (submit p (restore_state ?s (sbx_State s))) w5 = (r, w')"
      using assms(2) s st None u id
      by (simp add: SandboxService_Start_def runs to_Starting numeral_eq_Suc p_def w5_def split: if_splits)
    from submit_cases [OF this] show ?thesis
    proof (elim disjE exE conjE)
      fix e assume r: "r = Inl e" "w' = snd (run_state (restore_state ?s (sbx_State s)) (ticked w5))"
      have "w_queue w' = w_queue w" by (simp add: r(2) restore_state_def runs w5_def split: option.splits sum.splits)
      moreover have "states (w_db w') = states (w_db w)" if "env_dbfail (w_env w) (w_tick w + 7) = None"
        unfolding r(2) by (rule restore_undoes [OF assms(1) s(1)]) (use that in \<open>simp_all add: w5_def numeral_eq_Suc\<close>)
      ultimately show ?thesis using r(1) by auto
    next
      fix d' assume r: "r = Inr p" "operation_Create p (w_db w5) = Inr d'" "w_db w' = d'"
        "w_queue w' = (if w_stopped w5 \<or> 256 \<le> length (w_queue w5) then w_queue w5 else w_queue w5 @ [p])"
      have "states (w_db w') = (states (w_db w))(i \<mapsto> SandboxStarting)"
        using states_operations [OF r(2)] s id by (simp add: r(3) w5_def)
      then show ?thesis
        using r operation_stored [OF r(2)] st s by (auto simp: p_def w5_def states_def)
    qed
  qed
qed

text \<open>The converse: which calls are accepted when the database works.\<close>

lemma Start_accepts:
  assumes "db_ok (w_db w)" "no_db_failure w" "operation_Get (env_uuid (w_env w) (w_tick w + 4)) (w_db w) = None"
  shows "case states (w_db w) i of
      None \<Rightarrow> fst (run_state (SandboxService_Start i) w) = Inl NotFound
    | Some st \<Rightarrow> if st \<in> {SandboxPending, SandboxStopped} then \<not> isl (fst (run_state (SandboxService_Start i) w))
        else fst (run_state (SandboxService_Start i) w) = Inl InvalidState"
proof (cases "sandbox_Get i (w_db w)")
  case None
  then show ?thesis using assms(2) by (simp add: states_def SandboxService_Start_def runs)
next
  case (Some s)
  let ?s = "stamped s SandboxStarting (Suc (w_tick w)) (w_env w)"
  have u: "sandbox_Update ?s (w_db w) = Inr (put_sandbox ?s (w_db w))"
    by (rule sandbox_Update_put [OF assms(1)]) (use Some sandbox_Get_id [OF Some] in auto)
  show ?thesis
    using assms(2,3) Some u
    by (simp add: states_def SandboxService_Start_def runs to_Starting numeral_eq_Suc submit_accepts Get_operation_put
        no_db_failure_def)
qed

text \<open>
  C7: start moves exactly the sandboxes that are pending or stopped.  In every pattern of
  database failures, if the call returns an operation then the sandbox was pending or stopped
  and is starting, and the operation is stored as pending and queued unless the dispatcher is
  stopped or its queue is full; if it returns an error then nothing is queued and every
  sandbox has the state it had, unless the compensating write itself failed.  And when no
  database call fails and the new operation's identifier is not in use, every sandbox that is
  pending or stopped is accepted, one in another state is refused as being in the wrong state,
  and a missing one as not found.
\<close>

theorem Start_correct:
  assumes "db_ok (w_db w)" "run_state (SandboxService_Start i) w = (r, w')"
  shows "(case r of
      Inr p \<Rightarrow> states (w_db w) i \<in> {Some SandboxPending, Some SandboxStopped} \<and>
        states (w_db w') = (states (w_db w))(i \<mapsto> SandboxStarting) \<and>
        operation_Get (op_OperationID p) (w_db w') = Some (saved_operation p) \<and>
        op_State p = OpPending \<and> op_Type p = ''start_sandbox'' \<and> op_ResourceID p = i \<and>
        w_queue w' = (if w_stopped w \<or> 256 \<le> length (w_queue w) then w_queue w else w_queue w @ [p])
    | Inl e \<Rightarrow> w_queue w' = w_queue w \<and>
        (states (w_db w') = states (w_db w) \<or> env_dbfail (w_env w) (w_tick w + 7) \<noteq> None)) \<and>
    (no_db_failure w \<and> operation_Get (env_uuid (w_env w) (w_tick w + 4)) (w_db w) = None \<longrightarrow>
      (case states (w_db w) i of
         None \<Rightarrow> r = Inl NotFound
       | Some st \<Rightarrow> if st \<in> {SandboxPending, SandboxStopped} then \<not> isl r else r = Inl InvalidState))"
  using Start_effects [OF assms] Start_accepts [OF assms(1), of i] unfolding assms(2) fst_conv by (intro conjI impI) simp_all

lemma demo_tables [simp]: "db_operations (demo_db ss bs) = []" "db_boosts (demo_db ss bs) = bs" "db_snapshots (demo_db ss bs) = []"
  by (simp_all add: demo_db_def empty_db_def)

lemma demo_dbfail [simp]: "env_dbfail demo_env t = None" "env_hasBoost demo_env"
  by (simp_all add: demo_env_def)

lemma demo_no_operation [simp]: "operation_Get k (demo_db ss bs) = None" "no_db_failure (demo_world d)"
  by (simp_all add: operation_Get_def row_find_def no_db_failure_def demo_env_def)

lemma Start_correct_witness:
  "states (w_db (snd (run_state (SandboxService_Start ''b'') (demo_world (two_sandboxes SandboxRunning SandboxStopped))))) ''b''
     = Some SandboxStarting"
proof -
  let ?w = "demo_world (two_sandboxes SandboxRunning SandboxStopped)"
  obtain r w' where run: "run_state (SandboxService_Start ''b'') ?w = (r, w')" by fastforce
  have st: "states (w_db ?w) ''b'' = Some SandboxStopped" by (simp add: states_def)
  from Start_correct [OF _ run] have "\<not> isl r" "\<not> isl r \<longrightarrow> states (w_db w') ''b'' = Some SandboxStarting"
    using st by (simp_all add: demo_db_ok split: sum.splits)
  then show ?thesis by (simp add: run)
qed

text \<open>The lifecycle hook touches the boosts only, and removes the boost when the database works.\<close>

lemma lifecycle_frame:
  "db_sandboxes (w_db (snd (run_state (cancelOnLifecycleLocked i) w))) = db_sandboxes (w_db w)"
  "db_operations (w_db (snd (run_state (cancelOnLifecycleLocked i) w))) = db_operations (w_db w)"
  "w_queue (snd (run_state (cancelOnLifecycleLocked i) w)) = w_queue w"
  "w_stopped (snd (run_state (cancelOnLifecycleLocked i) w)) = w_stopped w"
  by (auto simp: cancelOnLifecycleLocked_def runs stopTimer_def boost_Delete_def split: option.splits sum.splits)

lemma lifecycle_drops:
  assumes "no_db_failure w" "db_ok (w_db w)"
  shows "boost_Get i (w_db (snd (run_state (cancelOnLifecycleLocked i) w))) = None"
proof (cases "boost_Get i (w_db w)")
  case None
  then show ?thesis using assms(1) by (simp add: cancelOnLifecycleLocked_def runs)
next
  case (Some b)
  have b: "b \<in> set (db_boosts (w_db w))" "bst_SandboxID b = i" using Some by (auto simp: boost_Get_def dest: row_find_Some)
  have f: "row_find bst_BoostID (bst_BoostID b) (db_boosts (w_db w)) \<noteq> None" using b by (auto simp: row_find_None)
  then have "boost_Delete (bst_BoostID b) (w_db w) =
      Inr ((w_db w)\<lparr>db_boosts := filter (\<lambda>r. bst_BoostID r \<noteq> bst_BoostID b) (db_boosts (w_db w))\<rparr>)"
    by (auto simp: boost_Delete_def row_delete_def store_rows_def split: option.splits)
  moreover have "row_find bst_SandboxID i (filter (\<lambda>r. bst_BoostID r \<noteq> bst_BoostID b) (db_boosts (w_db w))) = None"
    using Get_unique [OF assms(2) Some] by (auto simp: row_find_None)
  ultimately show ?thesis
    using Some assms(1) by (simp add: cancelOnLifecycleLocked_def runs stopTimer_def boost_Get_def)
qed

lemma submit_ending_cases:
  assumes "run_state (submit_ending i p undo) w = (r, w')"
  shows "(\<exists>e. r = Inl e \<and> w' = snd (run_state undo (ticked w))) \<or>
    (\<exists>d'. r = Inr p \<and> operation_Create p (w_db w) = Inr d' \<and> db_sandboxes (w_db w') = db_sandboxes d' \<and>
       db_operations (w_db w') = db_operations d' \<and>
       w_queue w' = (if w_stopped w \<or> 256 \<le> length (w_queue w) then w_queue w else w_queue w @ [p]) \<and>
       (no_db_failure w \<and> db_ok (w_db w) \<and> env_hasBoost (w_env w) \<longrightarrow> boost_Get i (w_db w') = None))"
proof -
  have e: "w_env (ticked w\<lparr>w_db := d\<rparr>) = w_env w" for d by simp
  have "boost_Get i (w_db (snd (run_state (cancelOnLifecycleLocked i) (ticked w\<lparr>w_db := d'\<rparr>)))) = None"
    if "no_db_failure w" "db_ok (w_db w)" "operation_Create p (w_db w) = Inr d'" for d'
    by (rule lifecycle_drops) (use that operation_Create_ok in \<open>auto simp: no_db_failure_def\<close>)
  then show ?thesis
    using assms by (auto simp: submit_ending_def runs case_prod_unfold lifecycle_frame split: option.splits sum.splits if_splits)
qed

lemma Stop_effects:
  assumes "db_ok (w_db w)" "run_state (SandboxService_Stop i force) w = (r, w')"
  shows "case r of
      Inr p \<Rightarrow> states (w_db w) i = Some SandboxRunning \<and>
        states (w_db w') = (states (w_db w))(i \<mapsto> SandboxStopping) \<and>
        operation_Get (op_OperationID p) (w_db w') = Some (saved_operation p) \<and>
        op_State p = OpPending \<and> op_Type p = ''stop_sandbox'' \<and> op_ResourceID p = i \<and> op_force p = force \<and>
        w_queue w' = (if w_stopped w \<or> 256 \<le> length (w_queue w) then w_queue w else w_queue w @ [p]) \<and>
        (no_db_failure w \<and> env_hasBoost (w_env w) \<longrightarrow> boost_Get i (w_db w') = None)
    | Inl e \<Rightarrow> w_queue w' = w_queue w \<and>
        (states (w_db w') = states (w_db w) \<or> env_dbfail (w_env w) (w_tick w + 7) \<noteq> None)"
proof (cases "env_dbfail (w_env w) (w_tick w) = None \<and> (\<exists>s. sandbox_Get i (w_db w) = Some s \<and> sbx_State s = SandboxRunning)")
  case False
  then show ?thesis
    using assms(2) by (auto simp: SandboxService_Stop_def runs to_Stopping split: option.splits if_splits)
next
  case True
  then obtain s where s: "sandbox_Get i (w_db w) = Some s" "env_dbfail (w_env w) (w_tick w) = None"
    and st: "sbx_State s = SandboxRunning" by auto
  note id = sandbox_Get_id [OF s(1)]
  let ?s = "stamped s SandboxStopping (Suc (w_tick w)) (w_env w)"
  have u: "sandbox_Update ?s (w_db w) = Inr (put_sandbox ?s (w_db w))"
    by (rule sandbox_Update_put [OF assms(1)]) (use s id in auto)
  show ?thesis
  proof (cases "env_dbfail (w_env w) (w_tick w + 2)")
    case (Some c)
    then show ?thesis using assms(2) s st by (auto simp: SandboxService_Stop_def runs to_Stopping numeral_2_eq_2)
  next
    case None
    define p where "p = \<lparr>op_OperationID = env_uuid (w_env w) (w_tick w + 4), op_ResourceType = ''sandbox'', op_ResourceID = i,
      op_SandboxID = i, op_SnapshotID = [], op_Type = ''stop_sandbox'', op_State = OpPending,
      op_StartedAt = utc (env_now (w_env w) (w_tick w + 3)), op_FinishedAt = None, op_Error = None,
      op_Metadata = Some [(''force'', JBool force)]\<rparr>"
    define w5 where "w5 = w\<lparr>w_db := put_sandbox ?s (w_db w), w_tick := w_tick w + 5\<rparr>"
    have ok5: "db_ok (w_db w5)" using put_sandbox_ok [OF assms(1), of ?s s] s id by (simp add: w5_def)
    have nf5: "no_db_failure w5 = no_db_failure w" "env_hasBoost (w_env w5) = env_hasBoost (w_env w)"
      by (simp_all add: w5_def no_db_failure_def)
    have "run_state (submit_ending i p (restore_state ?s (sbx_State s))) w5 = (r, w')"
      using assms(2) s st None u id
      by (simp add: SandboxService_Stop_def runs to_Stopping numeral_eq_Suc p_def w5_def)
    from submit_ending_cases [OF this] show ?thesis
    proof (elim disjE exE conjE)
      fix e assume r: "r = Inl e" "w' = snd (run_state (restore_state ?s (sbx_State s)) (ticked w5))"
      have "w_queue w' = w_queue w" by (simp add: r(2) restore_state_def runs w5_def split: option.splits sum.splits)
      moreover have "states (w_db w') = states (w_db w)" if "env_dbfail (w_env w) (w_tick w + 7) = None"
        unfolding r(2) by (rule restore_undoes [OF assms(1) s(1)]) (use that in \<open>simp_all add: w5_def numeral_eq_Suc\<close>)
      ultimately show ?thesis using r(1) by auto
    next
      fix d' assume r: "r = Inr p" "operation_Create p (w_db w5) = Inr d'" "db_sandboxes (w_db w') = db_sandboxes d'"
        "db_operations (w_db w') = db_operations d'"
        "w_queue w' = (if w_stopped w5 \<or> 256 \<le> length (w_queue w5) then w_queue w5 else w_queue w5 @ [p])"
        "no_db_failure w5 \<and> db_ok (w_db w5) \<and> env_hasBoost (w_env w5) \<longrightarrow> boost_Get i (w_db w') = None"
      have "states (w_db w') = states d'" by (simp add: states_def sandbox_Get_def r(3) fun_eq_iff)
      also have "\<dots> = (states (w_db w))(i \<mapsto> SandboxStopping)"
        using states_operations [OF r(2)] s id by (simp add: w5_def)
      finally have st': "states (w_db w') = (states (w_db w))(i \<mapsto> SandboxStopping)" .
      have "operation_Get (op_OperationID p) (w_db w') = Some (saved_operation p)"
        using operation_stored [OF r(2)] by (simp add: operation_Get_def r(4))
      moreover have "boost_Get i (w_db w') = None" if "no_db_failure w" "env_hasBoost (w_env w)"
        using r(6) ok5 nf5 that by simp
      moreover have "w_queue w' = (if w_stopped w \<or> 256 \<le> length (w_queue w) then w_queue w else w_queue w @ [p])"
        using r(5) by (simp add: w5_def)
      moreover have "op_force p = force" "op_State p = OpPending" "op_Type p = ''stop_sandbox''" "op_ResourceID p = i"
        "states (w_db w) i = Some SandboxRunning"
        using st s by (simp_all add: op_force_def p_def states_def)
      ultimately show ?thesis using r(1) st' by simp
    qed
  qed
qed

lemma Stop_accepts:
  assumes "db_ok (w_db w)" "no_db_failure w" "operation_Get (env_uuid (w_env w) (w_tick w + 4)) (w_db w) = None"
  shows "case states (w_db w) i of
      None \<Rightarrow> fst (run_state (SandboxService_Stop i force) w) = Inl NotFound
    | Some st \<Rightarrow> if st = SandboxRunning then \<not> isl (fst (run_state (SandboxService_Stop i force) w))
        else fst (run_state (SandboxService_Stop i force) w) = Inl InvalidState"
proof (cases "sandbox_Get i (w_db w)")
  case None
  then show ?thesis using assms(2) by (simp add: states_def SandboxService_Stop_def runs)
next
  case (Some s)
  let ?s = "stamped s SandboxStopping (Suc (w_tick w)) (w_env w)"
  have u: "sandbox_Update ?s (w_db w) = Inr (put_sandbox ?s (w_db w))"
    by (rule sandbox_Update_put [OF assms(1)]) (use Some sandbox_Get_id [OF Some] in auto)
  show ?thesis
    using assms(2,3) Some u
    by (simp add: states_def SandboxService_Stop_def runs to_Stopping numeral_eq_Suc submit_accepts Get_operation_put
        no_db_failure_def)
qed

text \<open>
  C8: stop moves exactly the running sandboxes.  In every pattern of database failures, if the
  call returns an operation then the sandbox was running and is stopping, the operation is
  stored as pending, carries the force flag and is queued unless the dispatcher is stopped or
  its queue is full, and, when no database call fails and boosts are enabled, the sandbox has no
  boost any more; if it returns an error then nothing is queued and every sandbox has the state
  it had, unless the compensating write itself failed.  And when no database call fails and the
  new operation's identifier is not in use, every running sandbox is accepted, one in another
  state is refused as being in the wrong state, and a missing one as not found.
\<close>

theorem Stop_correct:
  assumes "db_ok (w_db w)" "run_state (SandboxService_Stop i force) w = (r, w')"
  shows "(case r of
      Inr p \<Rightarrow> states (w_db w) i = Some SandboxRunning \<and>
        states (w_db w') = (states (w_db w))(i \<mapsto> SandboxStopping) \<and>
        operation_Get (op_OperationID p) (w_db w') = Some (saved_operation p) \<and>
        op_State p = OpPending \<and> op_Type p = ''stop_sandbox'' \<and> op_ResourceID p = i \<and> op_force p = force \<and>
        w_queue w' = (if w_stopped w \<or> 256 \<le> length (w_queue w) then w_queue w else w_queue w @ [p]) \<and>
        (no_db_failure w \<and> env_hasBoost (w_env w) \<longrightarrow> boost_Get i (w_db w') = None)
    | Inl e \<Rightarrow> w_queue w' = w_queue w \<and>
        (states (w_db w') = states (w_db w) \<or> env_dbfail (w_env w) (w_tick w + 7) \<noteq> None)) \<and>
    (no_db_failure w \<and> operation_Get (env_uuid (w_env w) (w_tick w + 4)) (w_db w) = None \<longrightarrow>
      (case states (w_db w) i of
         None \<Rightarrow> r = Inl NotFound
       | Some st \<Rightarrow> if st = SandboxRunning then \<not> isl r else r = Inl InvalidState))"
  using Stop_effects [OF assms] Stop_accepts [OF assms(1), of i force] unfolding assms(2) fst_conv by (intro conjI impI) simp_all

lemma Stop_correct_witness:
  "states (w_db (snd (run_state (SandboxService_Stop ''a'' True) (demo_world (two_sandboxes SandboxRunning SandboxStopped))))) ''a''
     = Some SandboxStopping"
proof -
  let ?w = "demo_world (two_sandboxes SandboxRunning SandboxStopped)"
  obtain r w' where run: "run_state (SandboxService_Stop ''a'' True) ?w = (r, w')" by fastforce
  have st: "states (w_db ?w) ''a'' = Some SandboxRunning" by (simp add: states_def)
  from Stop_correct [OF _ run] have "\<not> isl r" "\<not> isl r \<longrightarrow> states (w_db w') ''a'' = Some SandboxStopping"
    using st by (simp_all add: demo_db_ok split: sum.splits)
  then show ?thesis by (simp add: run)
qed

section \<open>Handlers\<close>

text \<open>The state written and announced; the rest of the world but the clock is as before.\<close>

lemma run_set_state:
  assumes "no_db_failure w" "db_ok (w_db w)" "sandbox_Get (sbx_SandboxID s) (w_db w) = Some old" "sbx_Name s = sbx_Name old"
  shows "\<exists>w'. run_state (set_state s st) w = (stamped s st (w_tick w) (w_env w), w') \<and>
    w_db w' = put_sandbox (stamped s st (w_tick w) (w_env w)) (w_db w) \<and> db_ok (w_db w') \<and> no_db_failure w' \<and>
    w_env w' = w_env w \<and> w_tick w' = w_tick w + 3 \<and> w_calls w' = w_calls w"
proof -
  let ?s = "stamped s st (w_tick w) (w_env w)"
  have "sandbox_Update ?s (w_db w) = Inr (put_sandbox ?s (w_db w))"
    by (rule sandbox_Update_put [OF assms(2)]) (use assms in auto)
  moreover have "db_ok (put_sandbox ?s (w_db w))" by (rule put_sandbox_ok [OF assms(2)]) (use assms in auto)
  ultimately show ?thesis
    using assms(1) by (simp add: set_state_def publishStateChange_def runs Let_def no_db_failure_def numeral_eq_Suc)
qed

text \<open>Two states in a row: the second one is what is left.\<close>

lemma run_fail_sandbox:
  assumes "no_db_failure w" "db_ok (w_db w)" "sandbox_Get (sbx_SandboxID s) (w_db w) = Some old" "sbx_Name s = sbx_Name old"
  shows "\<exists>w'. run_state (fail_sandbox s e) w = (Inl e, w') \<and> states (w_db w') = (states (w_db w))(sbx_SandboxID s \<mapsto> SandboxFailed) \<and>
    w_calls w' = w_calls w"
  using run_set_state [OF assms, of SandboxFailed] assms(3) by (auto simp: fail_sandbox_def)

text \<open>
  the start handler asks the backend once to start the sandbox, returns the backend's
  answer, and leaves the sandbox running or failed accordingly, whatever state the sandbox was
  in when the handler began: it does not look at it.
\<close>

theorem handleStart_correct:
  assumes "db_ok (w_db w)" "no_db_failure w" "sandbox_Get (op_ResourceID p) (w_db w) = Some s"
    and "run_state (handleStart p) w = (r, w')"
  shows "r = pv_StartSandbox (env_provider (w_env w)) (w_tick w + 4) (sbx_ref s) \<and>
    w_calls w' = w_calls w @ [PStartSandbox (sbx_ref s)] \<and>
    states (w_db w') = (states (w_db w))(op_ResourceID p \<mapsto> (if isl r then SandboxFailed else SandboxRunning))"
proof -
  note id = sandbox_Get_id [OF assms(3)]
  let ?s = "stamped s SandboxStarting (Suc (w_tick w)) (w_env w)"
  obtain w1 where w1: "run_state (set_state s SandboxStarting) (ticked w) = (?s, w1)" "w_db w1 = put_sandbox ?s (w_db w)"
    "db_ok (w_db w1)" "no_db_failure w1" "w_env w1 = w_env w" "w_tick w1 = w_tick w + 4" "w_calls w1 = w_calls w"
    using run_set_state [of "ticked w" s s SandboxStarting] assms(1-3) id by auto
  let ?w2 = "w1\<lparr>w_tick := Suc (w_tick w1), w_calls := w_calls w1 @ [PStartSandbox (sbx_ref s)]\<rparr>"
  have nf2: "no_db_failure ?w2" using w1(4) by (simp add: no_db_failure_def)
  have g: "sandbox_Get (sbx_SandboxID ?s) (w_db ?w2) = Some (merged_sandbox s ?s)" using w1(2) assms(3) id by simp
  have ok2: "db_ok (w_db ?w2)" using w1(3) by simp
  obtain w3 where w3: "run_state (set_state ?s SandboxRunning) ?w2 = (stamped ?s SandboxRunning (w_tick ?w2) (w_env ?w2), w3)"
    "w_db w3 = put_sandbox (stamped ?s SandboxRunning (w_tick ?w2) (w_env ?w2)) (w_db ?w2)" "w_calls w3 = w_calls ?w2"
    using run_set_state [OF nf2 ok2 g, of SandboxRunning] by auto
  have run: "run_state (handleStart p) w = (case pv_StartSandbox (env_provider (w_env w)) (w_tick w1) (sbx_ref s) of
      Inl e \<Rightarrow> run_state (fail_sandbox ?s e) ?w2 | Inr _ \<Rightarrow> (Inr (), w3))"
    using assms(2,3) w1 w3(1) by (simp add: handleStart_def runs split: sum.splits)
  show ?thesis
  proof (cases "pv_StartSandbox (env_provider (w_env w)) (w_tick w1) (sbx_ref s)")
    case (Inl e)
    obtain w4 where w4: "run_state (fail_sandbox ?s e) ?w2 = ((Inl e :: unit res), w4)"
      "states (w_db w4) = (states (w_db ?w2))(sbx_SandboxID ?s \<mapsto> SandboxFailed)" "w_calls w4 = w_calls ?w2"
      using run_fail_sandbox [OF nf2 ok2 g, of e] by auto
    then have r: "r = Inl e" "w' = w4" using assms(4) Inl run by simp_all
    then show ?thesis using assms(3) Inl w1 w4(2,3) id by simp
  next
    case (Inr u)
    then have r: "r = Inr ()" "w' = w3" using assms(4) run by simp_all
    then show ?thesis using assms(3) Inr w1 w3(2,3) id by simp
  qed
qed

lemma demo_op_run: "\<exists>r w'. run_state (m :: unit res M) w = (r, w')"
  by (cases "run_state m w") blast

definition demo_request :: "string \<Rightarrow> string \<Rightarrow> operation" where
  "demo_request ty i = \<lparr>op_OperationID = ''o'', op_ResourceType = ''sandbox'', op_ResourceID = i, op_SandboxID = i,
     op_SnapshotID = [], op_Type = ty, op_State = OpRunning, op_StartedAt = utc 0, op_FinishedAt = None,
     op_Error = None, op_Metadata = None\<rparr>"

lemma demo_request_simps [simp]: "op_ResourceID (demo_request ty i) = i" "op_Metadata (demo_request ty i) = None"
  by (simp_all add: demo_request_def)

text \<open>In the witness the sandbox has been destroyed before its start is executed.\<close>

lemma handleStart_correct_witness:
  "states (w_db (snd (run_state (handleStart (demo_request ''start_sandbox'' ''a'')) (demo_world (two_sandboxes SandboxDestroyed SandboxRunning))))) ''a''
     = Some SandboxRunning"
proof -
  let ?w = "demo_world (two_sandboxes SandboxDestroyed SandboxRunning)"
  obtain r w' where run: "run_state (handleStart (demo_request ''start_sandbox'' ''a'')) ?w = (r, w')"
    using demo_op_run by blast
  have "sandbox_Get (op_ResourceID (demo_request ''start_sandbox'' ''a'')) (w_db ?w) = Some (demo_sandbox ''a'' SandboxDestroyed)"
    by simp
  from handleStart_correct [OF _ _ this run] show ?thesis
    by (simp add: demo_db_ok run) (simp add: demo_env_def demo_provider_def)
qed

section \<open>The stop handler\<close>

text \<open>A property of the backend calls made; closing sessions makes none.\<close>

lemma calls_io [pres]: "keeps (\<lambda>w. C (w_calls w)) (io f)" "keeps (\<lambda>w. C (w_calls w)) (config g)" "keeps (\<lambda>w. C (w_calls w)) now"
  "keeps (\<lambda>w. C (w_calls w)) (store_read h)" "keeps (\<lambda>w. C (w_calls w)) (store_write k)" "keeps (\<lambda>w. C (w_calls w)) (clear_ready i)"
  "keeps (\<lambda>w. C (w_calls w)) (store_get l)"
  by (auto simp: valid_def runs clear_ready_def split: option.splits sum.splits)

lemma calls_exit: "keeps (\<lambda>w. C (w_calls w)) (exit_sessions i)"
  unfolding exit_sessions_def ExitAllForSandbox_def exit_session_def ClearTmuxCache_def by (intro pres)

lemma session_Update_states: "session_Update s d = Inr d' \<Longrightarrow> states d' = states d"
  by (auto simp: session_Update_def states_def sandbox_Get_def fun_eq_iff)

lemma states_exit: "keeps (db (\<lambda>d. states d = f)) (exit_sessions i)"
proof -
  have "keeps (db (\<lambda>d. states d = f)) (ExitAllForSandbox i)"
    by (rule keeps_sessions) (simp add: session_Update_states)
  then show ?thesis unfolding exit_sessions_def by (intro pres)
qed

lemma exit_sessions_frame:
  "w_calls (snd (run_state (exit_sessions i) w)) = w_calls w" "states (w_db (snd (run_state (exit_sessions i) w))) = states (w_db w)"
  using keepsD [OF calls_exit [where C = "\<lambda>c. c = w_calls w"], of w] keepsD [OF states_exit [where f = "states (w_db w)"], of w]
  by (simp_all add: dt_def)

text \<open>
  the stop handler asks the backend once to stop the sandbox, with the force flag of the
  operation, returns the backend's answer, and leaves the sandbox stopped or failed
  accordingly.
\<close>

theorem handleStop_correct:
  assumes "db_ok (w_db w)" "no_db_failure w" "sandbox_Get (op_ResourceID p) (w_db w) = Some s"
    and "run_state (handleStop p) w = (r, w')"
  shows "r = pv_StopSandbox (env_provider (w_env w)) (w_tick w + 4) (sbx_ref s) (op_force p) \<and>
    w_calls w' = w_calls w @ [PStopSandbox (sbx_ref s) (op_force p)] \<and>
    states (w_db w') = (states (w_db w))(op_ResourceID p \<mapsto> (if isl r then SandboxFailed else SandboxStopped))"
proof -
  note id = sandbox_Get_id [OF assms(3)]
  let ?s = "stamped s SandboxStopping (Suc (w_tick w)) (w_env w)"
  let ?c = "PStopSandbox (sbx_ref s) (op_force p)"
  obtain w1 where w1: "run_state (set_state s SandboxStopping) (ticked w) = (?s, w1)" "w_db w1 = put_sandbox ?s (w_db w)"
    "db_ok (w_db w1)" "no_db_failure w1" "w_env w1 = w_env w" "w_tick w1 = w_tick w + 4" "w_calls w1 = w_calls w"
    using run_set_state [of "ticked w" s s SandboxStopping] assms(1-3) id by auto
  let ?w2 = "w1\<lparr>w_tick := Suc (w_tick w1), w_calls := w_calls w1 @ [?c]\<rparr>"
  have nf2: "no_db_failure ?w2" using w1(4) by (simp add: no_db_failure_def)
  have g: "sandbox_Get (sbx_SandboxID ?s) (w_db ?w2) = Some (merged_sandbox s ?s)" using w1(2) assms(3) id by simp
  have ok2: "db_ok (w_db ?w2)" using w1(3) by simp
  obtain w3 where w3: "run_state (set_state ?s SandboxStopped) ?w2 = (stamped ?s SandboxStopped (w_tick ?w2) (w_env ?w2), w3)"
    "w_db w3 = put_sandbox (stamped ?s SandboxStopped (w_tick ?w2) (w_env ?w2)) (w_db ?w2)" "w_calls w3 = w_calls ?w2"
    using run_set_state [OF nf2 ok2 g, of SandboxStopped] by auto
  have run: "run_state (handleStop p) w = (case pv_StopSandbox (env_provider (w_env w)) (w_tick w1) (sbx_ref s) (op_force p) of
      Inl e \<Rightarrow> run_state (fail_sandbox ?s e) ?w2 | Inr _ \<Rightarrow> (Inr (), snd (run_state (exit_sessions (op_ResourceID p)) w3)))"
    using assms(2,3) w1 w3(1) id by (simp add: handleStop_def runs case_prod_unfold split: sum.splits)
  show ?thesis
  proof (cases "pv_StopSandbox (env_provider (w_env w)) (w_tick w1) (sbx_ref s) (op_force p)")
    case (Inl e)
    obtain w4 where w4: "run_state (fail_sandbox ?s e) ?w2 = ((Inl e :: unit res), w4)"
      "states (w_db w4) = (states (w_db ?w2))(sbx_SandboxID ?s \<mapsto> SandboxFailed)" "w_calls w4 = w_calls ?w2"
      using run_fail_sandbox [OF nf2 ok2 g, of e] by auto
    then have r: "r = Inl e" "w' = w4" using assms(4) Inl run by simp_all
    then show ?thesis using assms(3) Inl w1 w4(2,3) id by simp
  next
    case (Inr u)
    have "states (w_db w3) = (states (w_db w))(op_ResourceID p \<mapsto> SandboxStopped)" "w_calls w3 = w_calls w @ [?c]"
      using w1 w3 assms(3) id by (simp_all add: numeral_eq_Suc)
    moreover have "r = Inr ()" "w' = snd (run_state (exit_sessions (op_ResourceID p)) w3)" using assms(4) Inr run by simp_all
    ultimately show ?thesis using Inr w1 by (simp add: exit_sessions_frame)
  qed
qed

lemma handleStop_correct_witness:
  "states (w_db (snd (run_state (handleStop (demo_request ''stop_sandbox'' ''a'')) (demo_world (two_sandboxes SandboxStopping SandboxRunning))))) ''a''
     = Some SandboxStopped"
proof -
  let ?w = "demo_world (two_sandboxes SandboxStopping SandboxRunning)"
  obtain r w' where run: "run_state (handleStop (demo_request ''stop_sandbox'' ''a'')) ?w = (r, w')"
    using demo_op_run by blast
  have "sandbox_Get (op_ResourceID (demo_request ''stop_sandbox'' ''a'')) (w_db ?w) = Some (demo_sandbox ''a'' SandboxStopping)"
    by simp
  from handleStop_correct [OF _ _ this run] show ?thesis
    by (simp add: demo_db_ok run) (simp add: demo_env_def demo_provider_def)
qed

section \<open>The create handler\<close>

lemma create_request_stamped [simp]: "create_request (stamped s st t e) = create_request s"
  by (simp add: create_request_def stamped_def)

lemma merged_stamped [simp]: "merged_sandbox (merged_sandbox old s) s' = merged_sandbox old s'"
  by (simp add: merged_sandbox_def)

text \<open>
  What the handler asks the backend for, when the database works: the calls, the backend's
  answer, and the tick at which a sandbox that was created is started.  A parent snapshot that is gone is no
  call and counts as a refusal.
\<close>

definition created_by :: "sandbox \<Rightarrow> world \<Rightarrow> pcall list \<times> backend_ref res \<times> nat" where
  "created_by s w = (let pv = env_provider (w_env w); t = w_tick w; req = create_request s in
     if sbx_ParentSnapshotID s = [] then ([PCreateSandbox req], pv_CreateSandbox pv (t + 4) req, t + 5)
     else (case snapshot_Get (sbx_ParentSnapshotID s) (w_db w) of
         None \<Rightarrow> ([], Inl NotFound, t + 5)
       | Some snap \<Rightarrow> let sref = \<lparr>ref_Backend = snp_Backend snap, ref_Ref = snp_BackendRef snap\<rparr> in
           ([PCreateSandboxFromSnapshot sref req], pv_CreateSandboxFromSnapshot pv (t + 5) sref req, t + 6)))"

lemma Get_snapshot_put: "snapshot_Get k (put_sandbox s d) = snapshot_Get k d"
  by (simp add: snapshot_Get_def put_sandbox_def)

lemma stamped_parent [simp]: "sbx_ParentSnapshotID (stamped s st t e) = sbx_ParentSnapshotID s"
  by (simp add: stamped_def)

lemma run_create_on_backend:
  assumes "no_db_failure w" "w_db w = put_sandbox s0 (w_db w0)" "w_env w = w_env w0" "w_tick w = w_tick w0 + 4"
    and "created_by s w0 = (cs, a, t)"
  shows "\<exists>n. run_state (create_on_backend (stamped s st t' e)) w = (a, w\<lparr>w_tick := n, w_calls := w_calls w @ cs\<rparr>) \<and>
    (\<not> isl a \<longrightarrow> n = t)"
  using assms
  by (auto simp: created_by_def create_on_backend_def Let_def runs Get_snapshot_put numeral_eq_Suc no_db_failure_def split: if_splits option.splits)

text \<open>
  C16: the create handler, when no database call fails, asks the backend to create the sandbox
  from the row's request, out of the parent snapshot when the row names one and out of the image
  otherwise, and then to start what was created.  A refusal at either call, or a parent snapshot
  that is gone, fails the sandbox and is returned; otherwise the sandbox is running.  Once the
  backend has created it, the row holds the backend's reference, also when the start fails, so
  that a later destroy reaches it; the backend's name stays the one of the row, even where the
  backend answered another.
\<close>

theorem handleCreate_correct:
  assumes "db_ok (w_db w)" "no_db_failure w" "sandbox_Get (op_ResourceID p) (w_db w) = Some s"
    and "run_state (handleCreate p) w = (r, w')"
  shows "case created_by s w of
      (calls, Inl e, _) \<Rightarrow> r = Inl e \<and> w_calls w' = w_calls w @ calls \<and>
        states (w_db w') = (states (w_db w))(op_ResourceID p \<mapsto> SandboxFailed)
    | (calls, Inr ref, t) \<Rightarrow> r = pv_StartSandbox (env_provider (w_env w)) t ref \<and>
        w_calls w' = w_calls w @ calls @ [PStartSandbox ref] \<and>
        states (w_db w') = (states (w_db w))(op_ResourceID p \<mapsto> (if isl r then SandboxFailed else SandboxRunning)) \<and>
        (\<exists>s'. sandbox_Get (op_ResourceID p) (w_db w') = Some s' \<and> sbx_BackendRef s' = ref_Ref ref \<and> sbx_Backend s' = sbx_Backend s)"
proof -
  note id = sandbox_Get_id [OF assms(3)]
  let ?s = "stamped s SandboxStarting (Suc (w_tick w)) (w_env w)"
  obtain cs a t where c: "created_by s w = (cs, a, t)" by (cases "created_by s w") auto
  obtain w1 where w1: "run_state (set_state s SandboxStarting) (ticked w) = (?s, w1)" "w_db w1 = put_sandbox ?s (w_db w)"
    "db_ok (w_db w1)" "no_db_failure w1" "w_env w1 = w_env w" "w_tick w1 = w_tick w + 4" "w_calls w1 = w_calls w"
    using run_set_state [of "ticked w" s s SandboxStarting] assms(1-3) id by auto
  obtain n where n: "run_state (create_on_backend ?s) w1 = (a, w1\<lparr>w_tick := n, w_calls := w_calls w1 @ cs\<rparr>)" "\<not> isl a \<longrightarrow> n = t"
    using run_create_on_backend [OF w1(4,2,5,6) c] by blast
  let ?w2 = "w1\<lparr>w_tick := n, w_calls := w_calls w1 @ cs\<rparr>"
  have nf2: "no_db_failure ?w2" using w1(4) by (simp add: no_db_failure_def)
  have g: "sandbox_Get (sbx_SandboxID ?s) (w_db ?w2) = Some (merged_sandbox s ?s)" using w1(2) assms(3) id by simp
  have ok2: "db_ok (w_db ?w2)" using w1(3) by simp
  show ?thesis
  proof (cases a)
    case (Inl e)
    obtain w4 where w4: "run_state (fail_sandbox ?s e) ?w2 = ((Inl e :: unit res), w4)"
      "states (w_db w4) = (states (w_db ?w2))(sbx_SandboxID ?s \<mapsto> SandboxFailed)" "w_calls w4 = w_calls ?w2"
      using run_fail_sandbox [OF nf2 ok2 g, of e] by auto
    have "run_state (handleCreate p) w = run_state (fail_sandbox ?s e) ?w2"
      using assms(2,3) w1(1) Inl n(1) by (simp add: handleCreate_def runs)
    then have r: "r = Inl e" "w' = w4" using assms(4) w4(1) by simp_all
    then show ?thesis using assms(3) Inl w1 w4(2,3) id c by simp
  next
    case (Inr ref)
    let ?k = "?s\<lparr>sbx_BackendRef := ref_Ref ref, sbx_Backend := ref_Backend ref\<rparr>"
    let ?w3 = "?w2\<lparr>w_tick := Suc (w_tick ?w2), w_calls := w_calls ?w2 @ [PStartSandbox ref]\<rparr>"
    have nf3: "no_db_failure ?w3" and ok3: "db_ok (w_db ?w3)" using nf2 ok2 by (simp_all add: no_db_failure_def)
    have g3: "sandbox_Get (sbx_SandboxID ?k) (w_db ?w3) = Some (merged_sandbox s ?s)" using g by simp
    define st where "st = (if isl (pv_StartSandbox (env_provider (w_env w)) t ref) then SandboxFailed else SandboxRunning)"
    obtain w4 where w4: "run_state (set_state ?k st) ?w3 = (stamped ?k st (w_tick ?w3) (w_env ?w3), w4)"
      "w_db w4 = put_sandbox (stamped ?k st (w_tick ?w3) (w_env ?w3)) (w_db ?w3)" "w_calls w4 = w_calls ?w3"
      using run_set_state [OF nf3 ok3 g3, of st] by auto
    have nt: "n = t" using n(2) Inr by simp
    have "run_state (handleCreate p) w = (pv_StartSandbox (env_provider (w_env w)) t ref, w4)"
      using assms(2,3) w1(1,5) Inr n(1) w4(1) unfolding nt
      by (cases "pv_StartSandbox (env_provider (w_env w)) t ref")
        (simp_all add: handleCreate_def Let_def runs fail_sandbox_def st_def)
    then have r: "r = pv_StartSandbox (env_provider (w_env w)) t ref" "w' = w4" using assms(4) by simp_all
    show ?thesis using assms(3) Inr w1 w4(2,3) id r c by (simp add: st_def stamped_def)
  qed
qed

text \<open>The witness creates one sandbox from an image and finds the parent snapshot of another gone.\<close>

definition orphan_world :: world where
  "orphan_world = demo_world (demo_db [(demo_sandbox ''a'' SandboxPending)\<lparr>sbx_ParentSnapshotID := ''gone''\<rparr>] [])"

lemma handleCreate_correct_witness:
  "(\<exists>s'. sandbox_Get ''a'' (w_db (snd (run_state (handleCreate (demo_request ''create_sandbox'' ''a''))
     (demo_world (two_sandboxes SandboxPending SandboxRunning))))) = Some s' \<and> sbx_BackendRef s' = ''ref'') \<and>
   fst (run_state (handleCreate (demo_request ''create_sandbox'' ''a'')) orphan_world) = Inl NotFound"
proof -
  let ?w = "demo_world (two_sandboxes SandboxPending SandboxRunning)"
  obtain r w' where run: "run_state (handleCreate (demo_request ''create_sandbox'' ''a'')) ?w = (r, w')"
    using demo_op_run by blast
  obtain r2 w2 where run2: "run_state (handleCreate (demo_request ''create_sandbox'' ''a'')) orphan_world = (r2, w2)"
    using demo_op_run by blast
  have g: "sandbox_Get (op_ResourceID (demo_request ''create_sandbox'' ''a'')) (w_db ?w) = Some (demo_sandbox ''a'' SandboxPending)"
    by simp
  have c: "created_by (demo_sandbox ''a'' SandboxPending) ?w = ([PCreateSandbox (create_request (demo_sandbox ''a'' SandboxPending))],
      Inr \<lparr>ref_Backend = ''firecracker'', ref_Ref = ''ref''\<rparr>, w_tick ?w + 5)"
    by (simp add: created_by_def demo_env_def demo_provider_def create_request_def demo_sandbox_def)
  let ?o = "(demo_sandbox ''a'' SandboxPending)\<lparr>sbx_ParentSnapshotID := ''gone''\<rparr>"
  have g2: "sandbox_Get (op_ResourceID (demo_request ''create_sandbox'' ''a'')) (w_db orphan_world) = Some ?o"
    by (simp add: orphan_world_def sandbox_Get_def row_find_def demo_db_def demo_sandbox_def)
  have c2: "created_by ?o orphan_world = ([], Inl NotFound, w_tick orphan_world + 5)"
    by (simp add: created_by_def orphan_world_def snapshot_Get_def row_find_def)
  have ok2: "db_ok (w_db orphan_world)" "no_db_failure orphan_world"
    by (simp_all add: orphan_world_def db_ok_def table_ok unique_def refers_def demo_defs no_db_failure_def)
  from handleCreate_correct [OF _ _ g run] handleCreate_correct [OF ok2 g2 run2] show ?thesis
    unfolding c c2 by (simp add: demo_db_ok run run2) blast
qed

end
