(* ===== verification/Catalog.thy ===== *)
theory Catalog imports Sandboxes begin

text \<open>
  The services around the sandboxes: snapshots, base images, projects and operations
  (\<open>internal/service/snapshot.go\<close>, \<open>image.go\<close>, \<open>project.go\<close>, \<open>operation.go\<close>), their calls
  and the handlers of their operations.
\<close>

section \<open>Snapshots\<close>

definition enqueue_new :: "operation \<Rightarrow> operation res M" where
  "enqueue_new p = submit p (ret ())"

definition SnapshotService_Create :: "string \<Rightarrow> string \<Rightarrow> consistency_mode \<Rightarrow> operation res M" where
  "SnapshotService_Create sandboxID label mode0 = bindE (store_get (sandbox_Get sandboxID)) (\<lambda>sbx.
     if sbx_State sbx = SandboxDestroyed then ret (Inl InvalidState)
     else (let mode = (if mode0 = [] then ConsistencyStopped else mode0) in
       if mode = ConsistencyStopped \<and> sbx_State sbx \<noteq> SandboxStopped then ret (Inl InvalidState)
       else do {
         t \<leftarrow> now;
         u \<leftarrow> new_uuid;
         let snap = \<lparr>snp_SnapshotID = u, snp_SandboxID = sandboxID, snp_Backend = sbx_Backend sbx, snp_BackendRef = [],
           snp_Label = label, snp_State = SnapshotPending, snp_CreatedAt = t, snp_UpdatedAt = t, snp_ParentImageID = [],
           snp_Publishable = False, snp_ConsistencyMode = mode, snp_Metadata = None\<rparr>;
         bindE (store_write (snapshot_Create snap)) (\<lambda>_. do {
           p \<leftarrow> new_operation ''create_snapshot'' ''snapshot'' u sandboxID u t None;
           enqueue_new p }) }))"

definition SnapshotService_Get :: "string \<Rightarrow> snapshot res M" where
  "SnapshotService_Get i = store_get (snapshot_Get i)"

definition SnapshotService_ListBySandbox :: "string \<Rightarrow> snapshot list res M" where
  "SnapshotService_ListBySandbox sid = store_read (snapshot_ListBySandbox sid)"

definition SnapshotService_Restore :: "string \<Rightarrow> string \<Rightarrow> operation res M" where
  "SnapshotService_Restore sandboxID snapshotID = do {
     t \<leftarrow> now;
     p \<leftarrow> new_operation ''restore_snapshot'' ''snapshot'' snapshotID sandboxID snapshotID t None;
     enqueue_new p }"

definition SnapshotService_Delete :: "string \<Rightarrow> operation res M" where
  "SnapshotService_Delete i = bindE (store_get (snapshot_Get i)) (\<lambda>snap. do {
     t \<leftarrow> now;
     p \<leftarrow> new_operation ''delete_snapshot'' ''snapshot'' (snp_SnapshotID snap) (snp_SandboxID snap) (snp_SnapshotID snap) t None;
     enqueue_new p })"

definition snp_ref :: "snapshot \<Rightarrow> backend_ref" where
  "snp_ref s = \<lparr>ref_Backend = snp_Backend s, ref_Ref = snp_BackendRef s\<rparr>"

definition snap_with_state :: "snapshot \<Rightarrow> snapshot_state \<Rightarrow> snapshot M" where
  "snap_with_state s st = do { t \<leftarrow> now; ret (s\<lparr>snp_State := st, snp_UpdatedAt := t\<rparr>) }"

definition set_snap_state :: "snapshot \<Rightarrow> snapshot_state \<Rightarrow> snapshot M" where
  "set_snap_state s st = do { s' \<leftarrow> snap_with_state s st; ignore (store_write (snapshot_Update s')); ret s' }"

definition snapshot_handleCreate :: "operation \<Rightarrow> unit res M" where
  "snapshot_handleCreate p = bindE (store_get (snapshot_Get (op_ResourceID p))) (\<lambda>snap0.
     bindE (store_get (sandbox_Get (snp_SandboxID snap0))) (\<lambda>sbx. do {
       snap \<leftarrow> set_snap_state snap0 SnapshotCreating;
       r \<leftarrow> provide (PCreateSnapshot (sbx_ref sbx) (snp_Label snap) (snp_ConsistencyMode snap))
              (\<lambda>q n. pv_CreateSnapshot q n (sbx_ref sbx) (snp_Label snap) (snp_ConsistencyMode snap));
       case r of
         Inl e \<Rightarrow> do { set_snap_state snap SnapshotFailed; ret (Inl e) }
       | Inr ref \<Rightarrow> do { set_snap_state (snap\<lparr>snp_BackendRef := ref_Ref ref\<rparr>) SnapshotReady; ret (Inr ()) } }))"

definition snapshot_handleRestore :: "operation \<Rightarrow> unit res M" where
  "snapshot_handleRestore p = bindE (store_get (snapshot_Get (op_ResourceID p))) (\<lambda>snap.
     bindE (store_get (sandbox_Get (snp_SandboxID snap))) (\<lambda>sbx.
       provide (PRestoreSnapshot (sbx_ref sbx) (snp_ref snap))
         (\<lambda>q n. pv_RestoreSnapshot q n (sbx_ref sbx) (snp_ref snap))))"

definition snapshot_handleDelete :: "operation \<Rightarrow> unit res M" where
  "snapshot_handleDelete p = bindE (store_get (snapshot_Get (op_ResourceID p))) (\<lambda>snap.
     bindE (provide (PDeleteSnapshot (snp_ref snap)) (\<lambda>q n. pv_DeleteSnapshot q n (snp_ref snap))) (\<lambda>_. do {
       s \<leftarrow> snap_with_state snap SnapshotDeleted;
       store_write (snapshot_Update s) }))"

section \<open>Images\<close>

definition ImageService_PromoteSnapshot :: "string \<Rightarrow> string \<Rightarrow> string \<Rightarrow> operation res M" where
  "ImageService_PromoteSnapshot snapshotID name version = bindE (store_get (snapshot_Get snapshotID)) (\<lambda>snap.
     if snp_State snap \<noteq> SnapshotReady then ret (Inl InvalidState)
     else do {
       t \<leftarrow> now;
       u \<leftarrow> new_uuid;
       let img = \<lparr>img_ImageID = u, img_ProjectScope = [], img_Name = name, img_Version = version,
         img_SourceType = SourceSnapshotPromoted, img_SourceSnapshotID = snapshotID, img_Backend = snp_Backend snap,
         img_BackendRef = [], img_Architecture = ''amd64'', img_State = ImagePending, img_CreatedAt = t,
         img_Metadata = None\<rparr>;
       bindE (store_write (image_Create img)) (\<lambda>_. do {
         p \<leftarrow> new_operation ''promote_snapshot'' ''image'' u [] snapshotID t None;
         enqueue_new p }) })"

definition ImageService_Register :: "string \<Rightarrow> string \<Rightarrow> string \<Rightarrow> string \<Rightarrow> string \<Rightarrow> base_image res M" where
  "ImageService_Register name version backend backendRef arch = do {
     t \<leftarrow> now;
     u \<leftarrow> new_uuid;
     let img = \<lparr>img_ImageID = u, img_ProjectScope = [], img_Name = name, img_Version = version,
       img_SourceType = SourceImported, img_SourceSnapshotID = [], img_Backend = backend, img_BackendRef = backendRef,
       img_Architecture = arch, img_State = ImageReady, img_CreatedAt = t, img_Metadata = None\<rparr>;
     bindE (store_write (image_Create img)) (\<lambda>_. ret (Inr img)) }"

definition ImageService_Get :: "string \<Rightarrow> base_image res M" where
  "ImageService_Get i = store_get (image_Get i)"

definition ImageService_List :: "image_filter \<Rightarrow> base_image list res M" where
  "ImageService_List f = store_read (image_List f)"

definition ImageService_Delete :: "string \<Rightarrow> operation res M" where
  "ImageService_Delete i = bindE (store_get (image_Get i)) (\<lambda>img. do {
     t \<leftarrow> now;
     p \<leftarrow> new_operation ''delete_image'' ''image'' (img_ImageID img) [] [] t None;
     enqueue_new p })"

text \<open>The error of \<open>GetImageInfo\<close> is dropped; its value is then the zero \<open>ImageInfo\<close>.\<close>

definition image_handlePromote :: "operation \<Rightarrow> unit res M" where
  "image_handlePromote p = bindE (store_get (image_Get (op_ResourceID p))) (\<lambda>img.
     bindE (store_get (snapshot_Get (img_SourceSnapshotID img))) (\<lambda>snap. do {
       r \<leftarrow> provide (PPublishSnapshotAsImage (snp_ref snap) (img_Name img) (img_Version img))
              (\<lambda>q n. pv_PublishSnapshotAsImage q n (snp_ref snap) (img_Name img) (img_Version img));
       case r of
         Inl e \<Rightarrow> do { ignore (store_write (image_Update (img\<lparr>img_State := ImageFailed\<rparr>))); ret (Inl e) }
       | Inr ref \<Rightarrow> do {
           info \<leftarrow> provide (PGetImageInfo ref) (\<lambda>q n. pv_GetImageInfo q n ref);
           store_write (image_Update (img\<lparr>img_BackendRef := ref_Ref ref,
             img_Architecture := (case info of Inl _ \<Rightarrow> [] | Inr a \<Rightarrow> a), img_State := ImageReady\<rparr>)) } }))"

definition img_ref :: "base_image \<Rightarrow> backend_ref" where
  "img_ref i = \<lparr>ref_Backend = img_Backend i, ref_Ref = img_BackendRef i\<rparr>"

definition image_handleDelete :: "operation \<Rightarrow> unit res M" where
  "image_handleDelete p = bindE (store_get (image_Get (op_ResourceID p))) (\<lambda>img.
     bindE (if img_BackendRef img \<noteq> []
            then provide (PDeleteImage (img_ref img)) (\<lambda>q n. pv_DeleteImage q n (img_ref img))
            else ret (Inr ())) (\<lambda>_.
       store_write (image_Update (img\<lparr>img_State := ImageDeleted\<rparr>))))"

section \<open>Projects and operations\<close>

definition ProjectService_Create :: "string \<Rightarrow> data option \<Rightarrow> project res M" where
  "ProjectService_Create name meta = do {
     t \<leftarrow> now;
     u \<leftarrow> new_uuid;
     let p = \<lparr>prj_ProjectID = u, prj_Name = name, prj_CreatedAt = t, prj_UpdatedAt = t, prj_Metadata = meta\<rparr>;
     bindE (store_write (project_Create p)) (\<lambda>_. ret (Inr p)) }"

definition ProjectService_Get :: "string \<Rightarrow> project res M" where
  "ProjectService_Get i = store_get (project_Get i)"

definition ProjectService_GetByName :: "string \<Rightarrow> project res M" where
  "ProjectService_GetByName n = store_get (project_GetByName n)"

definition ProjectService_List :: "project list res M" where
  "ProjectService_List = store_read project_List"

definition ProjectService_Update :: "string \<Rightarrow> string \<Rightarrow> data option \<Rightarrow> project res M" where
  "ProjectService_Update i name meta = bindE (store_get (project_Get i)) (\<lambda>p0. do {
     t \<leftarrow> now;
     let p = p0\<lparr>prj_Name := name, prj_UpdatedAt := t, prj_Metadata := meta\<rparr>;
     bindE (store_write (project_Update p)) (\<lambda>_. ret (Inr p)) })"

definition ProjectService_Delete :: "string \<Rightarrow> unit res M" where
  "ProjectService_Delete i = store_write (project_Delete i)"

definition OperationService_Get :: "string \<Rightarrow> operation res M" where
  "OperationService_Get i = store_get (operation_Get i)"

definition OperationService_List :: "operation_filter \<Rightarrow> operation list res M" where
  "OperationService_List f = store_read (operation_List f)"

definition OperationService_Cancel :: "string \<Rightarrow> unit res M" where
  "OperationService_Cancel i = bindE (store_get (operation_Get i)) (\<lambda>p.
     if op_Terminal (op_State p) then ret (Inr ())
     else do { dispatcher_Cancel i; ret (Inr ()) })"

section \<open>The database stays well-formed\<close>

lemma keeps_snap_state [pres]: "keeps (dt P) (snap_with_state s st)" "keeps (db db_ok) (set_snap_state s st)"
  unfolding set_snap_state_def snap_with_state_def by (intro pres)+

lemma keeps_enqueue_new [pres]: "keeps (db db_ok) (enqueue_new p)"
  unfolding enqueue_new_def by (intro pres)

lemma keeps_snapshot_calls [pres]:
  "keeps (db db_ok) (SnapshotService_Create i l m)" "keeps (db db_ok) (SnapshotService_Restore i j)"
  "keeps (db db_ok) (SnapshotService_Delete i)" "keeps (db db_ok) (snapshot_handleCreate p)"
  "keeps (db db_ok) (snapshot_handleRestore p)" "keeps (db db_ok) (snapshot_handleDelete p)"
  unfolding SnapshotService_Create_def SnapshotService_Restore_def SnapshotService_Delete_def
    snapshot_handleCreate_def snapshot_handleRestore_def snapshot_handleDelete_def
  by (intro pres)+

lemma keeps_image_calls [pres]:
  "keeps (db db_ok) (ImageService_PromoteSnapshot i n v)" "keeps (db db_ok) (ImageService_Register n v b r a)"
  "keeps (db db_ok) (ImageService_Delete i)" "keeps (db db_ok) (image_handlePromote p)" "keeps (db db_ok) (image_handleDelete p)"
  unfolding ImageService_PromoteSnapshot_def ImageService_Register_def ImageService_Delete_def
    image_handlePromote_def image_handleDelete_def
  by (intro pres)+

lemma keeps_project_calls [pres]:
  "keeps (db db_ok) (ProjectService_Create n m)" "keeps (db db_ok) (ProjectService_Update i n m)"
  "keeps (db db_ok) (ProjectService_Delete i)" "keeps (db db_ok) (OperationService_Cancel i)"
  unfolding ProjectService_Create_def ProjectService_Update_def ProjectService_Delete_def OperationService_Cancel_def
  by (intro pres)+

end
