(* ===== verification/Runner.thy ===== *)
theory Runner imports Catalog begin

text \<open>
  The dispatcher's work on one operation (\<open>internal/worker/dispatcher.go\<close>, \<open>run\<close> and what
  it calls), with the handler table the services register.  The interleaving of the
  dispatcher's goroutines is in \<open>Dispatch\<close>; here an operation runs to its end, and the
  environment decides what the handlers meet on the way.
\<close>

section \<open>Running an operation\<close>

definition publishOpEvent :: "operation \<Rightarrow> unit M" where
  "publishOpEvent p = emit EventOperationStateChanged
     [(''operation_id'', JStr (op_OperationID p)), (''state'', JStr (op_state_text (op_State p))), (''type'', JStr (op_Type p))]"

text \<open>Write the operation and publish its state; a failed write is only logged.\<close>

definition record_op :: "operation \<Rightarrow> unit M" where
  "record_op p = do { ignore (store_write (operation_Update p)); publishOpEvent p }"

definition finish_op :: "operation \<Rightarrow> operation_state \<Rightarrow> goerr option \<Rightarrow> unit M" where
  "finish_op p st e = do {
     t \<leftarrow> now;
     record_op (p\<lparr>op_State := st, op_FinishedAt := Some t, op_Error := e\<rparr>) }"

definition dispatcher_fail :: "operation \<Rightarrow> goerr \<Rightarrow> unit M" where
  "dispatcher_fail p e = finish_op p OpFailed (Some e)"

definition dispatcher_cancel :: "operation \<Rightarrow> unit M" where
  "dispatcher_cancel p = finish_op p OpCancelled (op_Error p)"

text \<open>What the constructors of the services register.\<close>

definition handlers :: "string \<Rightarrow> (operation \<Rightarrow> unit res M) option" where
  "handlers ty =
     (if ty = ''create_sandbox'' then Some handleCreate
      else if ty = ''start_sandbox'' then Some handleStart
      else if ty = ''stop_sandbox'' then Some handleStop
      else if ty = ''destroy_sandbox'' then Some handleDestroy
      else if ty = ''fork_sandbox'' then Some handleFork
      else if ty = ''create_snapshot'' then Some snapshot_handleCreate
      else if ty = ''restore_snapshot'' then Some snapshot_handleRestore
      else if ty = ''delete_snapshot'' then Some snapshot_handleDelete
      else if ty = ''promote_snapshot'' then Some image_handlePromote
      else if ty = ''delete_image'' then Some image_handleDelete
      else None)"

definition run_op :: "operation \<Rightarrow> unit M" where
  "run_op p = do {
     wasCancelled \<leftarrow> take_cancelled (op_OperationID p);
     if wasCancelled then dispatcher_cancel p
     else (case handlers (op_Type p) of
         None \<Rightarrow> dispatcher_fail p (Opaque ''no handler registered for operation type: '')
       | Some handler \<Rightarrow> do {
           let running = p\<lparr>op_State := OpRunning\<rparr>;
           record_op running;
           r \<leftarrow> handler running;
           case r of
             Inl e \<Rightarrow> if errors_Is e ErrCanceled then dispatcher_cancel running else dispatcher_fail running e
           | Inr _ \<Rightarrow> finish_op running OpSucceeded (op_Error running) }) }"

text \<open>The loop takes the oldest operation of the queue.\<close>

definition take_queued :: "operation option M" where
  "take_queued = State (\<lambda>w. case w_queue w of [] \<Rightarrow> (None, w) | p # ps \<Rightarrow> (Some p, w\<lparr>w_queue := ps\<rparr>))"

definition run_next :: "unit M" where
  "run_next = do { q \<leftarrow> take_queued; case q of None \<Rightarrow> ret () | Some p \<Rightarrow> run_op p }"

section \<open>The database stays well-formed\<close>

lemma keeps_record [pres]: "keeps (db db_ok) (record_op p)" "keeps (db db_ok) (finish_op p st e)"
  unfolding record_op_def finish_op_def publishOpEvent_def by (intro pres; unfold record_op_def publishOpEvent_def; intro pres)+

lemma handlers_keep: assumes "handlers ty = Some h" "\<And>h. h \<in> {handleCreate, handleStart, handleStop, handleDestroy, handleFork,
    snapshot_handleCreate, snapshot_handleRestore, snapshot_handleDelete, image_handlePromote, image_handleDelete} \<Longrightarrow> Q h"
  shows "Q h"
  using assms(1) by (auto simp: handlers_def split: if_splits intro: assms(2))

lemma keeps_handlers [pres]: "handlers ty = Some h \<Longrightarrow> keeps (db db_ok) (h p)"
  by (erule handlers_keep [where Q = "\<lambda>h. keeps (db db_ok) (h p)"]) (auto intro: pres)

lemma keeps_take_queued [pres]: "keeps (dt P) take_queued"
  by (auto simp: valid_def dt_def take_queued_def split: list.splits)

lemma keeps_run_op [pres]: "keeps (db db_ok) (run_op p)"
  unfolding run_op_def dispatcher_cancel_def dispatcher_fail_def by (intro pres)

lemma keeps_run_next [pres]: "keeps (db db_ok) run_next"
  unfolding run_next_def by (intro pres)

end
