(* ===== verification/Upkeep.thy ===== *)
theory Upkeep imports Runner begin

text \<open>
  What the daemon does on its own: the reconciliation at startup
  (\<open>internal/service/reconcile.go\<close>) and the garbage collector's sweep
  (\<open>internal/worker/gc.go\<close>).
\<close>

section \<open>Reconciliation\<close>

record reconcile_result =
  rr_TransitionalFixed :: nat
  rr_StaleOpsFailed :: nat
  rr_DriftFixed :: nat
  rr_Errors :: "goerr list"

definition isTransitional :: "sandbox_state \<Rightarrow> bool" where
  "isTransitional s \<longleftrightarrow> s = SandboxPending \<or> s = SandboxStarting \<or> s = SandboxStopping"

definition in_state :: "sandbox_state \<Rightarrow> sandbox_filter" where
  "in_state st = \<lparr>sf_ProjectID = None, sf_State = Some st, sf_Backend = None\<rparr>"

definition actual_state :: "sandbox \<Rightarrow> sandbox_state res M" where
  "actual_state sbx = provide (PGetSandboxState (sbx_ref sbx)) (\<lambda>q n. pv_GetSandboxState q n (sbx_ref sbx))"

definition resolveTransitionalSandbox :: "sandbox \<Rightarrow> bool M" where
  "resolveTransitionalSandbox sbx =
     (if sbx_BackendRef sbx = [] then do { restore_state sbx SandboxFailed; ret True }
      else do {
        r \<leftarrow> actual_state sbx;
        case r of
          Inl _ \<Rightarrow> do { restore_state sbx SandboxFailed; ret True }
        | Inr actual \<Rightarrow>
            if actual \<noteq> sbx_State sbx \<and> \<not> isTransitional actual then do { restore_state sbx actual; ret True }
            else if isTransitional actual then do { restore_state sbx SandboxFailed; ret True }
            else ret False })"

text \<open>The counters and the errors are collected in the order the loops run.\<close>

fun collect :: "'a list \<Rightarrow> ('a \<Rightarrow> 'r \<Rightarrow> 'r M) \<Rightarrow> 'r \<Rightarrow> 'r M" where
  "collect [] f acc = ret acc"
| "collect (x # xs) f acc = do { acc' \<leftarrow> f x acc; collect xs f acc' }"

definition fix_transitional :: "sandbox \<Rightarrow> reconcile_result \<Rightarrow> reconcile_result M" where
  "fix_transitional sbx res = do {
     resolved \<leftarrow> resolveTransitionalSandbox sbx;
     ret (if resolved then res\<lparr>rr_TransitionalFixed := Suc (rr_TransitionalFixed res)\<rparr> else res) }"

definition reconcile_state :: "sandbox_state \<Rightarrow> reconcile_result \<Rightarrow> reconcile_result M" where
  "reconcile_state st res = do {
     l \<leftarrow> store_read (sandbox_List (in_state st));
     case l of
       Inl e \<Rightarrow> ret (res\<lparr>rr_Errors := rr_Errors res @ [e]\<rparr>)
     | Inr sbxs \<Rightarrow> collect sbxs fix_transitional res }"

definition reconcileTransitionalSandboxes :: "reconcile_result \<Rightarrow> reconcile_result M" where
  "reconcileTransitionalSandboxes res = collect [SandboxPending, SandboxStarting, SandboxStopping] reconcile_state res"

definition fail_stale :: "gotime \<Rightarrow> string \<Rightarrow> operation \<Rightarrow> reconcile_result \<Rightarrow> reconcile_result M" where
  "fail_stale t txt p res = do {
     r \<leftarrow> store_write (operation_Update (p\<lparr>op_State := OpFailed, op_FinishedAt := Some t, op_Error := Some (Opaque txt)\<rparr>));
     ret (case r of
       Inl e \<Rightarrow> res\<lparr>rr_Errors := rr_Errors res @ [e]\<rparr>
     | Inr _ \<Rightarrow> res\<lparr>rr_StaleOpsFailed := Suc (rr_StaleOpsFailed res)\<rparr>) }"

definition reconcileStaleOperations :: "reconcile_result \<Rightarrow> reconcile_result M" where
  "reconcileStaleOperations res0 = do {
     l \<leftarrow> store_read (operation_ListByState OpRunning);
     case l of
       Inl e \<Rightarrow> ret (res0\<lparr>rr_Errors := rr_Errors res0 @ [e]\<rparr>)
     | Inr running \<Rightarrow> do {
         t \<leftarrow> now;
         res \<leftarrow> collect running (fail_stale t ''operation was in-flight during daemon restart'') res0;
         l2 \<leftarrow> store_read (operation_ListByState OpPending);
         case l2 of
           Inl e \<Rightarrow> ret (res\<lparr>rr_Errors := rr_Errors res @ [e]\<rparr>)
         | Inr pend \<Rightarrow> collect pend (fail_stale t ''operation was pending during daemon restart'') res } }"

definition fix_drift :: "sandbox \<Rightarrow> reconcile_result \<Rightarrow> reconcile_result M" where
  "fix_drift sbx res = do {
     r \<leftarrow> actual_state sbx;
     case r of
       Inl _ \<Rightarrow> do { restore_state sbx SandboxFailed; ret (res\<lparr>rr_DriftFixed := Suc (rr_DriftFixed res)\<rparr>) }
     | Inr actual \<Rightarrow>
         if actual \<noteq> SandboxRunning then do { restore_state sbx actual; ret (res\<lparr>rr_DriftFixed := Suc (rr_DriftFixed res)\<rparr>) }
         else ret res }"

definition reconcileRunningSandboxes :: "reconcile_result \<Rightarrow> reconcile_result M" where
  "reconcileRunningSandboxes res = do {
     l \<leftarrow> store_read (sandbox_List (in_state SandboxRunning));
     case l of
       Inl e \<Rightarrow> ret (res\<lparr>rr_Errors := rr_Errors res @ [e]\<rparr>)
     | Inr sbxs \<Rightarrow> collect sbxs fix_drift res }"

definition Reconciler_Run :: "reconcile_result M" where
  "Reconciler_Run = do {
     r1 \<leftarrow> reconcileTransitionalSandboxes
             \<lparr>rr_TransitionalFixed = 0, rr_StaleOpsFailed = 0, rr_DriftFixed = 0, rr_Errors = []\<rparr>;
     r2 \<leftarrow> reconcileStaleOperations r1;
     reconcileRunningSandboxes r2 }"

section \<open>Garbage collection\<close>

record gc_config =
  gc_Interval :: int
  gc_StaleOpThreshold :: int

definition NewGC :: "gc_config \<Rightarrow> gc_config" where
  "NewGC c = \<lparr>gc_Interval = (if gc_Interval c = 0 then 5 * d_minute else gc_Interval c),
     gc_StaleOpThreshold = (if gc_StaleOpThreshold c = 0 then 24 * d_hour else gc_StaleOpThreshold c)\<rparr>"

definition sweepExpiredSandboxes :: "unit M" where
  "sweepExpiredSandboxes = do {
     t \<leftarrow> now;
     l \<leftarrow> store_read (sandbox_ListExpired t);
     forM (or_nil l) (\<lambda>sbx. do {
       r \<leftarrow> provide (PDestroySandbox (sbx_ref sbx)) (\<lambda>q n. pv_DestroySandbox q n (sbx_ref sbx));
       case r of Inl _ \<Rightarrow> ret () | Inr _ \<Rightarrow> restore_state sbx SandboxDestroyed }) }"

definition sweepOrphanedSnapshots :: "unit M" where
  "sweepOrphanedSnapshots = do {
     l \<leftarrow> store_read snapshot_ListOrphaned;
     forM (or_nil l) (\<lambda>snap. do {
       r \<leftarrow> provide (PDeleteSnapshot (snp_ref snap)) (\<lambda>q n. pv_DeleteSnapshot q n (snp_ref snap));
       case r of Inl _ \<Rightarrow> ret () | Inr _ \<Rightarrow> ignore (store_write (snapshot_Delete (snp_SnapshotID snap))) }) }"

text \<open>Stale operations are only logged.\<close>

definition sweepStaleOperations :: "gc_config \<Rightarrow> unit M" where
  "sweepStaleOperations c = do {
     t \<leftarrow> now;
     ignore (store_read (operation_ListStale (t_Add t (- gc_StaleOpThreshold c)))) }"

definition Sweep :: "gc_config \<Rightarrow> unit M" where
  "Sweep c = do { sweepExpiredSandboxes; sweepOrphanedSnapshots; sweepStaleOperations c }"

section \<open>The database stays well-formed\<close>

lemma keeps_collect [pres]:
  "(\<And>x acc. x \<in> set xs \<Longrightarrow> keeps I (f x acc)) \<Longrightarrow> keeps I (collect xs f acc)"
proof (induction xs arbitrary: acc)
  case Nil
  show ?case unfolding collect.simps by (intro pres)
next
  case (Cons x xs)
  show ?case unfolding collect.simps by (rule keeps_bind, rule Cons.prems, simp, rule Cons.IH, rule Cons.prems, simp)
qed

lemmas reconcile_defs = Reconciler_Run_def reconcileTransitionalSandboxes_def reconcile_state_def fix_transitional_def
  resolveTransitionalSandbox_def actual_state_def reconcileStaleOperations_def fail_stale_def
  reconcileRunningSandboxes_def fix_drift_def

lemma keeps_Reconcile [pres]: "keeps (db db_ok) Reconciler_Run"
  unfolding reconcile_defs by (intro pres)

lemma keeps_Sweep [pres]: "keeps (db db_ok) (Sweep c)"
  unfolding Sweep_def sweepExpiredSandboxes_def sweepOrphanedSnapshots_def sweepStaleOperations_def by (intro pres)

end
