(* ===== verification/Api.thy ===== *)
theory Api imports Upkeep begin

text \<open>
  The REST API (\<open>internal/api\<close>): the handlers of the routes under \<open>/v1\<close> that act on the
  services, and the mapping of errors to responses.  A request is given with its path and
  query values and its decoded body; a response by its status, whether it carries
  \<open>Retry-After\<close>, and what its body is made from.  Exec, attach and the event stream, which
  hold a connection open, are not modelled.
\<close>

section \<open>Errors and responses\<close>

datatype message = MsgUnavailable | MsgInternal | MsgReason resize_reason | MsgResize resize_reason | MsgFull goerr

definition mapErrorCode :: "goerr \<Rightarrow> int" where
  "mapErrorCode e =
     (if errors_Is e ErrNotFound then 404
      else if errors_Is e ErrConflict then 409
      else if errors_Is e ErrVMStopped then 409
      else if errors_Is e ErrInvalidArgument then 400
      else if errors_Is e ErrNotSupported then 501
      else if errors_Is e ErrInvalidState then 422
      else if errors_Is e ErrUnauthorized then 401
      else if errors_Is e ErrForbidden then 403
      else if errors_Is e ErrBusy then 503
      else (case as_resize e of
              Some CgroupUnavailable \<Rightarrow> 503 | Some CgroupWriteFailed \<Rightarrow> 500 | Some _ \<Rightarrow> 409 | None \<Rightarrow> 500))"

record boost_response =
  br_BoostID :: string
  br_SandboxID :: string
  br_OriginalCPULimit :: "int option"
  br_OriginalMemoryLimitMB :: "int option"
  br_BoostedCPULimit :: "int option"
  br_BoostedMemoryLimitMB :: "int option"
  br_StartedAt :: string
  br_ExpiresAt :: string
  br_State :: boost_state
  br_Source :: string
  br_RevertAttempts :: int
  br_LastError :: "goerr option"

definition boostToResponse :: "boost \<Rightarrow> boost_response" where
  "boostToResponse b = \<lparr>br_BoostID = bst_BoostID b, br_SandboxID = bst_SandboxID b,
     br_OriginalCPULimit = bst_OriginalCPULimit b, br_OriginalMemoryLimitMB = bst_OriginalMemoryLimitMB b,
     br_BoostedCPULimit = bst_BoostedCPULimit b, br_BoostedMemoryLimitMB = bst_BoostedMemoryLimitMB b,
     br_StartedAt = rfc3339nano (t_UTC (bst_StartedAt b)), br_ExpiresAt = rfc3339nano (t_UTC (bst_ExpiresAt b)),
     br_State = bst_State b, br_Source = bst_Source b, br_RevertAttempts = bst_RevertAttempts b,
     br_LastError = bst_LastError b\<rparr>"

datatype payload = NoPayload | Refusal | ErrorPayload message | OperationPayload operation
  | ProjectPayload project | SandboxPayload sandbox "boost_response option" | SnapshotPayload snapshot
  | ImagePayload base_image | SessionPayload session | BoostPayload boost_response | PortPayload port_binding
  | ResizePayload string "int option" "int option" bool
  | Projects "project list" | Sandboxes "sandbox list" | Snapshots "snapshot list" | Images "base_image list"
  | Sessions "session list" | Operations "operation list" | Ports "port_binding list"

record response =
  rs_Status :: int
  rs_RetryAfter :: bool
  rs_Payload :: payload

definition respondData :: "int \<Rightarrow> payload \<Rightarrow> response" where
  "respondData st p = \<lparr>rs_Status = st, rs_RetryAfter = False, rs_Payload = p\<rparr>"

definition respondOperation :: "operation \<Rightarrow> response" where
  "respondOperation p = respondData 202 (OperationPayload p)"

definition respondError :: "goerr \<Rightarrow> response" where
  "respondError e = (let c = mapErrorCode e in
     case as_resize e of
       Some r \<Rightarrow> respondData c (ErrorPayload (if c \<ge> 500 then MsgReason r else MsgResize r))
     | None \<Rightarrow> \<lparr>rs_Status = c, rs_RetryAfter = (c = 503),
         rs_Payload = ErrorPayload (if c = 503 then MsgUnavailable else if c \<ge> 500 then MsgInternal else MsgFull e)\<rparr>)"

text \<open>\<open>http.Error(w, text, 400)\<close>, and the answer made from a result.\<close>

definition bad_request :: "response M" where
  "bad_request = ret (respondData 400 Refusal)"

definition respond :: "'a res M \<Rightarrow> ('a \<Rightarrow> response) \<Rightarrow> response M" where
  "respond m f = do { r \<leftarrow> m; ret (case r of Inl e \<Rightarrow> respondError e | Inr x \<Rightarrow> f x) }"

text \<open>A body is not JSON of the right shape, empty (\<open>io.EOF\<close>), or decoded; only stop accepts an empty one.\<close>

datatype 'b body = Malformed | EmptyBody | Body 'b

definition decodeJSON :: "'b body \<Rightarrow> ('b \<Rightarrow> response M) \<Rightarrow> response M" where
  "decodeJSON b f = (case b of Body x \<Rightarrow> f x | _ \<Rightarrow> bad_request)"

section \<open>Sandboxes\<close>

record create_sandbox_request =
  csr_ProjectID :: string
  csr_Name :: string
  csr_ImageID :: string
  csr_SnapshotID :: string
  csr_CPULimit :: "int option"
  csr_MemoryLimitMB :: "int option"
  csr_NetworkMode :: string
  csr_EnableBoostChannel :: "bool option"
  csr_ExpiresAt :: "gotime option"
  csr_Metadata :: "data option"
  csr_Backend :: string

definition request_opts :: "create_sandbox_request \<Rightarrow> create_opts" where
  "request_opts r = \<lparr>co_Backend = csr_Backend r, co_CPULimit = csr_CPULimit r, co_MemoryLimitMB = csr_MemoryLimitMB r,
     co_NetworkMode = csr_NetworkMode r, co_EnableBoostChannel = csr_EnableBoostChannel r,
     co_ExpiresAt = csr_ExpiresAt r, co_Metadata = csr_Metadata r\<rparr>"

definition createSandbox :: "create_sandbox_request body \<Rightarrow> response M" where
  "createSandbox b = decodeJSON b (\<lambda>r.
     if csr_ProjectID r = [] \<or> csr_Name r = [] then bad_request
     else if csr_SnapshotID r \<noteq> [] then
       respond (SandboxService_CreateFromSnapshot (csr_ProjectID r) (csr_Name r) (csr_SnapshotID r) (request_opts r)) respondOperation
     else
       respond (SandboxService_Create (csr_ProjectID r) (csr_Name r)
         (if csr_ImageID r = [] then ''default'' else csr_ImageID r) (request_opts r)) respondOperation)"

definition createSandboxFromSnapshot :: "create_sandbox_request body \<Rightarrow> response M" where
  "createSandboxFromSnapshot b = decodeJSON b (\<lambda>r.
     if csr_ProjectID r = [] \<or> csr_Name r = [] \<or> csr_SnapshotID r = [] then bad_request
     else respond (SandboxService_CreateFromSnapshot (csr_ProjectID r) (csr_Name r) (csr_SnapshotID r) (request_opts r)) respondOperation)"

definition createSandboxFromImage :: "create_sandbox_request body \<Rightarrow> response M" where
  "createSandboxFromImage b = decodeJSON b (\<lambda>r.
     if csr_ProjectID r = [] \<or> csr_Name r = [] \<or> csr_ImageID r = [] then bad_request
     else respond (SandboxService_Create (csr_ProjectID r) (csr_Name r) (csr_ImageID r) (request_opts r)) respondOperation)"

definition sandbox_state_of :: "string \<Rightarrow> sandbox_state" where
  "sandbox_state_of s = (case find (\<lambda>st. sandbox_state_text st = s)
     [SandboxPending, SandboxStarting, SandboxRunning, SandboxStopping, SandboxStopped, SandboxFailed, SandboxDestroyed]
     of Some st \<Rightarrow> st | None \<Rightarrow> SandboxOther s)"

definition listSandboxes :: "string \<Rightarrow> string \<Rightarrow> response M" where
  "listSandboxes projectID stateStr =
     (if projectID = [] then bad_request
      else respond (SandboxService_List \<lparr>sf_ProjectID = Some projectID,
             sf_State = (if stateStr \<noteq> [] then Some (sandbox_state_of stateStr) else None), sf_Backend = None\<rparr>)
           (\<lambda>l. respondData 200 (Sandboxes l)))"

definition getSandbox :: "string \<Rightarrow> response M" where
  "getSandbox i = do {
     g \<leftarrow> SandboxService_Get i;
     case g of
       Inl e \<Rightarrow> ret (respondError e)
     | Inr sbx \<Rightarrow> do {
         boosts \<leftarrow> config env_hasBoost;
         if boosts then do {
           b \<leftarrow> BoostService_Get i;
           ret (respondData 200 (SandboxPayload sbx (case b of Inl _ \<Rightarrow> None | Inr x \<Rightarrow> Some (boostToResponse x)))) }
         else ret (respondData 200 (SandboxPayload sbx None)) } }"

definition startSandbox :: "string \<Rightarrow> response M" where
  "startSandbox i = respond (SandboxService_Start i) respondOperation"

definition stopSandbox :: "string \<Rightarrow> bool body \<Rightarrow> response M" where
  "stopSandbox i b = (case b of
       Malformed \<Rightarrow> bad_request
     | EmptyBody \<Rightarrow> respond (SandboxService_Stop i False) respondOperation
     | Body force \<Rightarrow> respond (SandboxService_Stop i force) respondOperation)"

definition destroySandbox :: "string \<Rightarrow> response M" where
  "destroySandbox i = respond (SandboxService_Destroy i) respondOperation"

definition forkSandbox :: "string \<Rightarrow> int body \<Rightarrow> response M" where
  "forkSandbox i b = (if i = [] then bad_request else decodeJSON b (\<lambda>count.
     if count < 1 then bad_request else respond (SandboxService_Fork i count) respondOperation))"

definition updateSandboxResources :: "string \<Rightarrow> (int option \<times> int option) body \<Rightarrow> response M" where
  "updateSandboxResources i b = (if i = [] then bad_request else decodeJSON b (\<lambda>(cpu, mem).
     if cpu = None \<and> mem = None then bad_request
     else respond (UpdateResources \<lparr>ro_SandboxID = i, ro_CPULimit = cpu, ro_MemoryLimitMB = mem, ro_ApplyLiveOnly = False\<rparr>)
       (\<lambda>(s, live). respondData 200 (ResizePayload (sbx_SandboxID s) (sbx_CPULimit s) (sbx_MemoryLimitMB s) live))))"

section \<open>Boosts\<close>

record boost_request =
  brq_CPULimit :: "int option"
  brq_MemoryLimitMB :: "int option"
  brq_DurationSeconds :: int

definition start_boost_from :: "string \<Rightarrow> string \<Rightarrow> boost_request body \<Rightarrow> response M" where
  "start_boost_from source i b = decodeJSON b (\<lambda>r.
     if brq_CPULimit r = None \<and> brq_MemoryLimitMB r = None then bad_request
     else if brq_DurationSeconds r \<le> 0 then bad_request
     else respond (BoostService_Start \<lparr>bo_SandboxID = i, bo_CPULimit = brq_CPULimit r, bo_MemoryLimitMB = brq_MemoryLimitMB r,
            bo_DurationSeconds = brq_DurationSeconds r, bo_Source = source\<rparr>)
          (\<lambda>x. respondData 200 (BoostPayload (boostToResponse x))))"

definition startBoost :: "string \<Rightarrow> boost_request body \<Rightarrow> response M" where
  "startBoost i b = (if i = [] then bad_request else start_boost_from ''external'' i b)"

definition getBoost :: "string \<Rightarrow> response M" where
  "getBoost i = respond (BoostService_Get i) (\<lambda>b. respondData 200 (BoostPayload (boostToResponse b)))"

definition deleteBoost :: "string \<Rightarrow> response M" where
  "deleteBoost i = respond (BoostService_Cancel i) (\<lambda>_. respondData 204 NoPayload)"

section \<open>Snapshots and images\<close>

definition createSnapshot :: "string \<Rightarrow> (string \<times> string) body \<Rightarrow> response M" where
  "createSnapshot i b = decodeJSON b (\<lambda>(label, mode).
     if label = [] then bad_request else respond (SnapshotService_Create i label mode) respondOperation)"

definition listSnapshots :: "string \<Rightarrow> response M" where
  "listSnapshots i = respond (SnapshotService_ListBySandbox i) (\<lambda>l. respondData 200 (Snapshots l))"

definition getSnapshot :: "string \<Rightarrow> response M" where
  "getSnapshot i = respond (SnapshotService_Get i) (\<lambda>s. respondData 200 (SnapshotPayload s))"

definition restoreSnapshot :: "string \<Rightarrow> response M" where
  "restoreSnapshot i = respond (bindE (SnapshotService_Get i) (\<lambda>snap. SnapshotService_Restore (snp_SandboxID snap) i)) respondOperation"

definition deleteSnapshot :: "string \<Rightarrow> response M" where
  "deleteSnapshot i = respond (SnapshotService_Delete i) respondOperation"

definition promoteImage :: "(string \<times> string \<times> string) body \<Rightarrow> response M" where
  "promoteImage b = decodeJSON b (\<lambda>(snapshotID, name, version).
     if snapshotID = [] \<or> name = [] \<or> version = [] then bad_request
     else respond (ImageService_PromoteSnapshot snapshotID name version) respondOperation)"

record register_image_request =
  rir_Name :: string
  rir_Version :: string
  rir_Backend :: string
  rir_BackendRef :: string
  rir_Architecture :: string

definition registerImage :: "register_image_request body \<Rightarrow> response M" where
  "registerImage b = decodeJSON b (\<lambda>r.
     if rir_Name r = [] \<or> rir_Version r = [] \<or> rir_Backend r = [] \<or> rir_BackendRef r = [] then bad_request
     else respond (ImageService_Register (rir_Name r) (rir_Version r) (rir_Backend r) (rir_BackendRef r)
            (if rir_Architecture r = [] then ''amd64'' else rir_Architecture r)) (\<lambda>i. respondData 201 (ImagePayload i)))"

definition nonempty :: "string \<Rightarrow> string option" where
  "nonempty s = (if s \<noteq> [] then Some s else None)"

definition listImages :: "string \<Rightarrow> string \<Rightarrow> response M" where
  "listImages name arch = respond (ImageService_List \<lparr>if_Name = nonempty name, if_Architecture = nonempty arch, if_State = None\<rparr>)
     (\<lambda>l. respondData 200 (Images l))"

definition getImage :: "string \<Rightarrow> response M" where
  "getImage i = respond (ImageService_Get i) (\<lambda>x. respondData 200 (ImagePayload x))"

definition deleteImage :: "string \<Rightarrow> response M" where
  "deleteImage i = respond (ImageService_Delete i) respondOperation"

section \<open>Sessions, operations, projects\<close>

definition createSession :: "string \<Rightarrow> (string \<times> string) body \<Rightarrow> response M" where
  "createSession i b = decodeJSON b (\<lambda>(backing, shell).
     respond (SessionService_Create i backing shell) (\<lambda>s. respondData 201 (SessionPayload s)))"

definition listSessions :: "string \<Rightarrow> response M" where
  "listSessions i = respond (SessionService_ListBySandbox i) (\<lambda>l. respondData 200 (Sessions l))"

definition getSession :: "string \<Rightarrow> response M" where
  "getSession i = respond (SessionService_Get i) (\<lambda>s. respondData 200 (SessionPayload s))"

definition deleteSession :: "string \<Rightarrow> response M" where
  "deleteSession i = respond (SessionService_Destroy i) (\<lambda>_. respondData 204 NoPayload)"

definition getOperation :: "string \<Rightarrow> response M" where
  "getOperation i = respond (OperationService_Get i) (\<lambda>p. respondData 200 (OperationPayload p))"

definition operation_state_of :: "string \<Rightarrow> operation_state" where
  "operation_state_of s = (case find (\<lambda>st. op_state_text st = s) [OpPending, OpRunning, OpSucceeded, OpFailed, OpCancelled]
     of Some st \<Rightarrow> st | None \<Rightarrow> OpOther s)"

definition listOperations :: "string \<Rightarrow> string \<Rightarrow> response M" where
  "listOperations sandboxID stateStr = respond (OperationService_List \<lparr>of_ResourceType = None, of_ResourceID = None,
     of_SandboxID = nonempty sandboxID, of_State = map_option operation_state_of (nonempty stateStr), of_Limit = 0\<rparr>)
     (\<lambda>l. respondData 200 (Operations l))"

definition cancelOperation :: "string \<Rightarrow> response M" where
  "cancelOperation i = respond (OperationService_Cancel i) (\<lambda>_. respondData 204 NoPayload)"

definition createProject :: "(string \<times> data option) body \<Rightarrow> response M" where
  "createProject b = decodeJSON b (\<lambda>(name, meta).
     if name = [] then bad_request else respond (ProjectService_Create name meta) (\<lambda>p. respondData 201 (ProjectPayload p)))"

definition listProjects :: "response M" where
  "listProjects = respond ProjectService_List (\<lambda>l. respondData 200 (Projects l))"

definition getProject :: "string \<Rightarrow> response M" where
  "getProject i = respond (ProjectService_Get i) (\<lambda>p. respondData 200 (ProjectPayload p))"

definition updateProject :: "string \<Rightarrow> (string \<times> data option) body \<Rightarrow> response M" where
  "updateProject i b = decodeJSON b (\<lambda>(name, meta).
     if name = [] then bad_request else respond (ProjectService_Update i name meta) (\<lambda>p. respondData 200 (ProjectPayload p)))"

definition deleteProject :: "string \<Rightarrow> response M" where
  "deleteProject i = respond (ProjectService_Delete i) (\<lambda>_. respondData 204 NoPayload)"

section \<open>Ports\<close>

definition createPort :: "string \<Rightarrow> int body \<Rightarrow> response M" where
  "createPort sandboxID b = decodeJSON b (\<lambda>target.
     if target \<le> 0 then bad_request
     else respond (bindE (SandboxService_Get sandboxID) (\<lambda>sbx.
       let ref = sbx_ref sbx in
       bindE (provide (PPublishPort ref target) (\<lambda>q n. pv_PublishPort q n ref target)) (\<lambda>endpoint. do {
         t \<leftarrow> now;
         let pb = \<lparr>pb_SandboxID = sandboxID, pb_TargetPort = target, pb_PublishedPort = ep_PublishedPort endpoint,
           pb_HostAddress = ep_HostAddress endpoint, pb_CreatedAt = t\<rparr>;
         c \<leftarrow> store_write (port_Create pb);
         case c of
           Inl e \<Rightarrow> do {
             ignore (provide (PUnpublishPort ref (ep_PublishedPort endpoint))
               (\<lambda>q n. pv_UnpublishPort q n ref (ep_PublishedPort endpoint)));
             ret (Inl e) }
         | Inr _ \<Rightarrow> ret (Inr pb) }))) (\<lambda>pb. respondData 201 (PortPayload pb)))"

definition listPorts :: "string \<Rightarrow> response M" where
  "listPorts i = respond (store_read (port_ListBySandbox i)) (\<lambda>l. respondData 200 (Ports l))"

text \<open>The target port is what \<open>strconv.Atoi\<close> makes of the path value.\<close>

definition deletePort :: "string \<Rightarrow> int option \<Rightarrow> response M" where
  "deletePort sandboxID targetPort = (case targetPort of
       None \<Rightarrow> bad_request
     | Some target \<Rightarrow> respond (bindE (SandboxService_Get sandboxID) (\<lambda>sbx.
         bindE (store_read (port_ListBySandbox sandboxID)) (\<lambda>ports.
           let ref = sbx_ref sbx;
               published = (case find (\<lambda>p. pb_TargetPort p = target) ports of None \<Rightarrow> 0 | Some p \<Rightarrow> pb_PublishedPort p) in
           bindE (if published > 0 then provide (PUnpublishPort ref published) (\<lambda>q n. pv_UnpublishPort q n ref published)
                  else ret (Inr ())) (\<lambda>_.
             store_write (port_Delete sandboxID target))))) (\<lambda>_. respondData 204 NoPayload))"

section \<open>Properties\<close>

text \<open>
  C22: every error becomes one of nine statuses, and what its body tells fits the status: the
  error's own text is only sent below 500, a server error shows nothing but that it is one, or
  the reason of a refused resize, and the client is told to retry after a second exactly when
  the service is unavailable for another reason than a resize.
\<close>

theorem error_responses:
  "rs_Status (respondError e) \<in> {400, 401, 403, 404, 409, 422, 500, 501, 503} \<and>
   rs_RetryAfter (respondError e) = (rs_Status (respondError e) = 503 \<and> as_resize e = None) \<and>
   (case rs_Payload (respondError e) of
      ErrorPayload (MsgFull e') \<Rightarrow> e' = e \<and> rs_Status (respondError e) < 500
    | ErrorPayload (MsgResize r) \<Rightarrow> as_resize e = Some r \<and> rs_Status (respondError e) < 500
    | ErrorPayload (MsgReason r) \<Rightarrow> as_resize e = Some r \<and> rs_Status (respondError e) \<ge> 500
    | ErrorPayload MsgUnavailable \<Rightarrow> rs_Status (respondError e) = 503
    | ErrorPayload MsgInternal \<Rightarrow> rs_Status (respondError e) \<in> {500, 501}
    | _ \<Rightarrow> False)"
proof -
  have "mapErrorCode e \<in> {400, 401, 403, 404, 409, 422, 500, 501, 503}"
    by (auto simp: mapErrorCode_def split: option.splits resize_reason.splits)
  then show ?thesis
    by (cases "as_resize e") (auto simp: respondError_def respondData_def Let_def)
qed

end
