(* ===== verification/Daemon.thy ===== *)
theory Daemon imports Api begin

text \<open>
  The whole daemon as a sequence of steps: a request of the API, the dispatcher's next
  operation, a boost timer, a sweep of the garbage collector, a session that is detached, the
  dispatcher's shutdown, or a crash and restart (\<open>cmd/navarisd/main.go\<close>).
\<close>

section \<open>Requests\<close>

datatype request =
    CreateProject "(string \<times> data option) body" | ListProjects | GetProject string
  | UpdateProject string "(string \<times> data option) body" | DeleteProject string
  | CreateSandbox "create_sandbox_request body" | CreateSandboxFromSnapshot "create_sandbox_request body"
  | CreateSandboxFromImage "create_sandbox_request body" | ListSandboxes string string | GetSandbox string
  | StartSandbox string | StopSandbox string "bool body" | DestroySandbox string | ForkSandbox string "int body"
  | UpdateSandboxResources string "(int option \<times> int option) body"
  | StartBoost string "boost_request body" | GetBoost string | DeleteBoost string
  | ChannelBoost string "boost_request body"
  | CreateSnapshot string "(string \<times> string) body" | ListSnapshots string | GetSnapshot string
  | RestoreSnapshot string | DeleteSnapshot string
  | PromoteImage "(string \<times> string \<times> string) body" | RegisterImage "register_image_request body"
  | ListImages string string | GetImage string | DeleteImage string
  | CreateSession string "(string \<times> string) body" | ListSessions string | GetSession string | DeleteSession string
  | GetOperation string | ListOperations string string | CancelOperation string
  | CreatePort string "int body" | ListPorts string | DeletePort string "int option"

text \<open>The table of routes; \<open>ChannelBoost\<close> is the boost request of the in-sandbox channel.\<close>

fun serve :: "request \<Rightarrow> response M" where
  "serve (CreateProject b) = createProject b"
| "serve ListProjects = listProjects"
| "serve (GetProject i) = getProject i"
| "serve (UpdateProject i b) = updateProject i b"
| "serve (DeleteProject i) = deleteProject i"
| "serve (CreateSandbox b) = createSandbox b"
| "serve (CreateSandboxFromSnapshot b) = createSandboxFromSnapshot b"
| "serve (CreateSandboxFromImage b) = createSandboxFromImage b"
| "serve (ListSandboxes p s) = listSandboxes p s"
| "serve (GetSandbox i) = getSandbox i"
| "serve (StartSandbox i) = startSandbox i"
| "serve (StopSandbox i b) = stopSandbox i b"
| "serve (DestroySandbox i) = destroySandbox i"
| "serve (ForkSandbox i b) = forkSandbox i b"
| "serve (UpdateSandboxResources i b) = updateSandboxResources i b"
| "serve (StartBoost i b) = startBoost i b"
| "serve (GetBoost i) = getBoost i"
| "serve (DeleteBoost i) = deleteBoost i"
| "serve (ChannelBoost i b) = start_boost_from ''in_sandbox'' i b"
| "serve (CreateSnapshot i b) = createSnapshot i b"
| "serve (ListSnapshots i) = listSnapshots i"
| "serve (GetSnapshot i) = getSnapshot i"
| "serve (RestoreSnapshot i) = restoreSnapshot i"
| "serve (DeleteSnapshot i) = deleteSnapshot i"
| "serve (PromoteImage b) = promoteImage b"
| "serve (RegisterImage b) = registerImage b"
| "serve (ListImages n a) = listImages n a"
| "serve (GetImage i) = getImage i"
| "serve (DeleteImage i) = deleteImage i"
| "serve (CreateSession i b) = createSession i b"
| "serve (ListSessions i) = listSessions i"
| "serve (GetSession i) = getSession i"
| "serve (DeleteSession i) = deleteSession i"
| "serve (GetOperation i) = getOperation i"
| "serve (ListOperations i s) = listOperations i s"
| "serve (CancelOperation i) = cancelOperation i"
| "serve (CreatePort i b) = createPort i b"
| "serve (ListPorts i) = listPorts i"
| "serve (DeletePort i n) = deletePort i n"

section \<open>Restart and shutdown\<close>

definition busBuffer :: nat where "busBuffer = 256"

text \<open>A new process has the database and the backends, and nothing of the old process.\<close>

definition new_process :: "unit M" where
  "new_process = State_Monad.update (\<lambda>w. w\<lparr>w_bus := bus_New busBuffer, w_queue := [], w_stopped := False, w_cancelled := [],
     w_timers := Map.empty, w_tmux := [], w_bash := []\<rparr>)"

definition ensure_default_project :: "unit M" where
  "ensure_default_project = do {
     g \<leftarrow> ProjectService_GetByName ''default'';
     case g of Inr _ \<Rightarrow> ret () | Inl _ \<Rightarrow> ignore (ProjectService_Create ''default'' None) }"

text \<open>The daemon exits when the boosts cannot be recovered.\<close>

definition start_daemon :: "bool M" where
  "start_daemon = do {
     r \<leftarrow> BoostService_Recover;
     case r of
       Inl _ \<Rightarrow> ret False
     | Inr _ \<Rightarrow> do { ensure_default_project; ignore Reconciler_Run; ret True } }"

definition restart :: "bool M" where
  "restart = do { new_process; start_daemon }"

definition Dispatcher_Stop :: "unit M" where
  "Dispatcher_Stop = State_Monad.update (\<lambda>w. w\<lparr>w_stopped := True, w_queue := []\<rparr>)"

datatype step = Serve request | RunNext | TimerFires string | GarbageCollect gc_config | DetachSession string
  | StopDispatcher | Restart

fun daemon_step :: "step \<Rightarrow> unit M" where
  "daemon_step (Serve r) = ignore (serve r)"
| "daemon_step RunNext = run_next"
| "daemon_step (TimerFires bid) = fire_timer bid"
| "daemon_step (GarbageCollect c) = Sweep c"
| "daemon_step (DetachSession i) = ignore (SessionService_Detach i)"
| "daemon_step StopDispatcher = Dispatcher_Stop"
| "daemon_step Restart = ignore restart"

section \<open>The database stays well-formed\<close>

lemma keeps_respond [pres]: "keeps I m \<Longrightarrow> keeps I (respond m f)"
  unfolding respond_def by (intro pres)

lemma keeps_bad_request [pres]: "keeps I bad_request"
  unfolding bad_request_def by (intro pres)

lemma keeps_decode [pres]: "(\<And>x. b = Body x \<Longrightarrow> keeps I (f x)) \<Longrightarrow> keeps I (decodeJSON b f)"
  by (cases b) (auto simp: decodeJSON_def intro: pres)

lemma keeps_body [pres]: "keeps I f \<Longrightarrow> keeps I g \<Longrightarrow> (\<And>x. b = Body x \<Longrightarrow> keeps I (h x)) \<Longrightarrow>
    keeps I (case b of Malformed \<Rightarrow> f | EmptyBody \<Rightarrow> g | Body x \<Rightarrow> h x)"
  by (cases b) auto

lemmas read_defs = SandboxService_Get_def SandboxService_List_def BoostService_Get_def SnapshotService_Get_def
  SnapshotService_ListBySandbox_def ImageService_Get_def ImageService_List_def SessionService_Get_def
  SessionService_ListBySandbox_def OperationService_Get_def OperationService_List_def ProjectService_Get_def
  ProjectService_GetByName_def ProjectService_List_def

lemmas api_defs = createProject_def listProjects_def getProject_def updateProject_def deleteProject_def
  createSandbox_def createSandboxFromSnapshot_def createSandboxFromImage_def listSandboxes_def getSandbox_def
  startSandbox_def stopSandbox_def destroySandbox_def forkSandbox_def updateSandboxResources_def
  startBoost_def getBoost_def deleteBoost_def start_boost_from_def
  createSnapshot_def listSnapshots_def getSnapshot_def restoreSnapshot_def deleteSnapshot_def
  promoteImage_def registerImage_def listImages_def getImage_def deleteImage_def
  createSession_def listSessions_def getSession_def deleteSession_def
  getOperation_def listOperations_def cancelOperation_def createPort_def listPorts_def deletePort_def

lemma keeps_serve [pres]: "keeps (db db_ok) (serve r)"
  by (cases r; simp only: serve.simps; unfold api_defs read_defs; intro pres)

lemma keeps_new_process [pres]: "keeps (db P) new_process"
  by (simp add: valid_def dt_def new_process_def State_Monad.update_def)

lemma keeps_Dispatcher_Stop [pres]: "keeps (db P) Dispatcher_Stop"
  by (simp add: valid_def dt_def Dispatcher_Stop_def State_Monad.update_def)

lemma keeps_restart [pres]: "keeps (db db_ok) restart"
  unfolding restart_def start_daemon_def ensure_default_project_def read_defs by (intro pres)

lemma keeps_step [pres]: "keeps (db db_ok) (daemon_step s)"
  by (cases s; simp only: daemon_step.simps; intro pres)

text \<open>
  Whatever the daemon does, the constraints of the schema hold: keys and names are unique and the
  foreign keys the schema declares resolve.
\<close>

lemma database_stays_well_formed:
  assumes "db_ok (w_db w)"
  shows "db_ok (w_db (snd (run_state (forM steps daemon_step) w)))"
proof -
  have "keeps (db db_ok) (forM steps daemon_step)" by (intro pres)
  from keepsD [OF this] show ?thesis using assms by (simp add: dt_def)
qed

lemma database_stays_well_formed_witness:
  "db_ok (w_db (snd (run_state (forM [Serve (StopSandbox ''a'' EmptyBody), RunNext, Restart, Serve (DeleteProject ''p'')] daemon_step)
     (demo_world (two_sandboxes SandboxRunning SandboxStopped)))))"
  by (rule database_stays_well_formed) (simp add: demo_db_ok)

end
