(* ===== verification/Outcomes.thy ===== *)
theory Outcomes imports Daemon begin

text \<open>
  The life of an operation across the whole daemon: what is recorded of it once it has ended
  stays, and what the dispatcher finds in its queue is always an operation the store still
  holds as pending.  \<open>oq\<close> is a property of the operations table and the queue under
  the environment; everything that touches neither keeps it.
\<close>

definition oq :: "(env \<Rightarrow> operation list \<Rightarrow> operation list \<Rightarrow> bool) \<Rightarrow> world \<Rightarrow> bool" where
  "oq Q w = Q (w_env w) (db_operations (w_db w)) (w_queue w)"

section \<open>What touches neither\<close>

lemma oq_io [pres]: "keeps (oq Q) (io f)" "keeps (oq Q) (config g)" "keeps (oq Q) now" "keeps (oq Q) new_uuid"
  "keeps (oq Q) (provide c h)" "keeps (oq Q) (publish ev)" "keeps (oq Q) (emit ty d)"
  by (simp_all add: valid_def oq_def runs Let_def)

lemma oq_read [pres]: "keeps (oq Q) (store_read f)" "keeps (oq Q) (store_get g)"
  by (simp_all add: valid_def oq_def runs split: option.splits)

lemma oq_caches [pres]: "keeps (oq Q) (dispatcher_Cancel i)" "keeps (oq Q) (take_cancelled i)" "keeps (oq Q) (set_timer i t)"
  "keeps (oq Q) (tmux_ready i)" "keeps (oq Q) (bash_ready i)" "keeps (oq Q) (set_tmux i)" "keeps (oq Q) (set_bash i)"
  "keeps (oq Q) (clear_ready i)" "keeps (oq Q) (get_timer i)"
  by (simp_all add: valid_def oq_def dispatcher_Cancel_def take_cancelled_def set_timer_def tmux_ready_def
      bash_ready_def set_tmux_def set_bash_def clear_ready_def get_timer_def)

lemma oq_write: "(\<And>e d d' q. Q e (db_operations d) q \<Longrightarrow> f d = Inr d' \<Longrightarrow> Q e (db_operations d') q) \<Longrightarrow> keeps (oq Q) (store_write f)"
  by (auto simp: valid_def oq_def runs split: option.splits sum.splits)

lemma oq_same_operations: "(\<And>d d'. f d = Inr d' \<Longrightarrow> db_operations d' = db_operations d) \<Longrightarrow> keeps (oq Q) (store_write f)"
  by (rule oq_write) simp

lemma boost_Upsert_operations: "boost_Upsert b d = Inr d' \<Longrightarrow> db_operations d' = db_operations d"
  by (auto simp: boost_Upsert_def split: if_splits)

lemma other_tables_keep_operations:
  "project_Create p d = Inr d' \<Longrightarrow> db_operations d' = db_operations d"
  "project_Update p d = Inr d' \<Longrightarrow> db_operations d' = db_operations d"
  "project_Delete k d = Inr d' \<Longrightarrow> db_operations d' = db_operations d"
  "sandbox_Create s d = Inr d' \<Longrightarrow> db_operations d' = db_operations d"
  "sandbox_Update s d = Inr d' \<Longrightarrow> db_operations d' = db_operations d"
  "sandbox_Delete k d = Inr d' \<Longrightarrow> db_operations d' = db_operations d"
  "snapshot_Create n d = Inr d' \<Longrightarrow> db_operations d' = db_operations d"
  "snapshot_Update n d = Inr d' \<Longrightarrow> db_operations d' = db_operations d"
  "snapshot_Delete k d = Inr d' \<Longrightarrow> db_operations d' = db_operations d"
  "session_Create ss d = Inr d' \<Longrightarrow> db_operations d' = db_operations d"
  "session_Update ss d = Inr d' \<Longrightarrow> db_operations d' = db_operations d"
  "session_Delete k d = Inr d' \<Longrightarrow> db_operations d' = db_operations d"
  "image_Create i d = Inr d' \<Longrightarrow> db_operations d' = db_operations d"
  "image_Update i d = Inr d' \<Longrightarrow> db_operations d' = db_operations d"
  "port_Create pb d = Inr d' \<Longrightarrow> db_operations d' = db_operations d"
  "port_Delete k t d = Inr d' \<Longrightarrow> db_operations d' = db_operations d"
  "boost_UpdateState k st n' e d = Inr d' \<Longrightarrow> db_operations d' = db_operations d"
  "boost_Delete k d = Inr d' \<Longrightarrow> db_operations d' = db_operations d"
  by (auto simp: store_defs cascade_def boost_UpdateState_def boost_Delete_def port_Create_def port_Delete_def)

lemma oq_stores [pres]:
  "keeps (oq Q) (store_write (project_Create p))" "keeps (oq Q) (store_write (project_Update p))"
  "keeps (oq Q) (store_write (project_Delete k))" "keeps (oq Q) (store_write (sandbox_Create s))"
  "keeps (oq Q) (store_write (sandbox_Update s))" "keeps (oq Q) (store_write (sandbox_Delete k))"
  "keeps (oq Q) (store_write (snapshot_Create n))" "keeps (oq Q) (store_write (snapshot_Update n))"
  "keeps (oq Q) (store_write (snapshot_Delete k))" "keeps (oq Q) (store_write (session_Create ss))"
  "keeps (oq Q) (store_write (session_Update ss))" "keeps (oq Q) (store_write (session_Delete k))"
  "keeps (oq Q) (store_write (image_Create i))" "keeps (oq Q) (store_write (image_Update i))"
  "keeps (oq Q) (store_write (port_Create pb))" "keeps (oq Q) (store_write (port_Delete k t))"
  "keeps (oq Q) (store_write (boost_Upsert b))" "keeps (oq Q) (store_write (boost_UpdateState k st n' e))"
  "keeps (oq Q) (store_write (boost_Delete k))"
  by (rule oq_same_operations; rule other_tables_keep_operations boost_Upsert_operations; assumption)+

lemma oq_resize [pres]: "keeps (oq Q) (UpdateResources opts)"
  unfolding UpdateResources_def by (intro pres)

section \<open>Calls that make no operation, and the handlers\<close>

lemmas boost_call_defs = BoostService_Start_def boost_begin_def undo_start_def boost_check_def BoostService_Cancel_def
  cancel_found_def cancel_done_def cancel_delete_def fire_timer_def boost_expire_def expire_found_def drop_row_def
  revert_failed_def emitExpired_def BoostService_Recover_def cancelOnLifecycleLocked_def
  armExpiry_def armRetry_def armRemaining_def stopTimer_def rearm_active_def

lemma oq_boosts [pres]: "keeps (oq Q) (BoostService_Start opts)" "keeps (oq Q) (BoostService_Cancel sid)"
  "keeps (oq Q) (fire_timer bid)" "keeps (oq Q) BoostService_Recover" "keeps (oq Q) (cancelOnLifecycleLocked sid)"
  unfolding boost_call_defs by (intro pres)+

lemma oq_prepare [pres]: "keeps (oq Q) (prepare_backing sbx s)" "keeps (oq Q) (prepare_shell sbx sh s)"
  "keeps (oq Q) (exit_session s)"
  unfolding prepare_backing_def prepare_shell_def session_fallback_def ensureTmux_def ensureBash_def install_with_def
    execRun_def execCheck_def testExec_def exit_session_def Let_def
  by (intro pres)+

lemma oq_sessions [pres]: "keeps (oq Q) (SessionService_Create sid bk sh)" "keeps (oq Q) (SessionService_Destroy i)"
  "keeps (oq Q) (SessionService_Detach i)" "keeps (oq Q) (ExitAllForSandbox sid)" "keeps (oq Q) (ClearTmuxCache sid)"
  unfolding SessionService_Create_def SessionService_Destroy_def SessionService_Detach_def ExitAllForSandbox_def
    ClearTmuxCache_def execRun_def
  by (intro pres)+

lemma oq_state_writes [pres]: "keeps (oq Q) (restore_state s st)" "keeps (oq Q) (set_state s st)"
  "keeps (oq Q) (fail_sandbox s e)" "keeps (oq Q) (on_child i f)" "keeps (oq Q) (exit_sessions sid)"
  "keeps (oq Q) (delete_children ids)" "keeps (oq Q) (with_state s st)" "keeps (oq Q) (new_sandbox pid n b im sn o')"
  unfolding restore_state_def set_state_def fail_sandbox_def on_child_def exit_sessions_def delete_children_def
    with_state_def publishStateChange_def new_sandbox_def
  by (intro pres)+

lemma oq_sandbox_handlers [pres]:
  "keeps (oq Q) (handleCreate p)" "keeps (oq Q) (handleFork p)" "keeps (oq Q) (handleStart p)"
  "keeps (oq Q) (handleStop p)" "keeps (oq Q) (handleDestroy p)"
  unfolding handleCreate_def create_on_backend_def handleFork_def markChildrenFailed_def handleStart_def handleStop_def handleDestroy_def
  by (intro pres)+

lemma oq_catalog_handlers [pres]:
  "keeps (oq Q) (snapshot_handleCreate p)" "keeps (oq Q) (snapshot_handleRestore p)" "keeps (oq Q) (snapshot_handleDelete p)"
  "keeps (oq Q) (image_handlePromote p)" "keeps (oq Q) (image_handleDelete p)"
  unfolding snapshot_handleCreate_def snapshot_handleRestore_def snapshot_handleDelete_def set_snap_state_def snap_with_state_def
    image_handlePromote_def image_handleDelete_def
  by (intro pres)+

lemma oq_handlers [pres]: "handlers ty = Some h \<Longrightarrow> keeps (oq Q) (h p)"
  by (erule handlers_keep [where Q = "\<lambda>h. keeps (oq Q) (h p)"]) (auto intro: pres)

lemma oq_Sweep [pres]: "keeps (oq Q) (Sweep c)"
  unfolding Sweep_def sweepExpiredSandboxes_def sweepOrphanedSnapshots_def sweepStaleOperations_def by (intro pres)

section \<open>Calls that make an operation\<close>

text \<open>What a new pending operation, stored and perhaps queued, does not disturb.\<close>

definition fresh_op :: "operation \<Rightarrow> bool" where
  "fresh_op p \<longleftrightarrow> op_State p = OpPending \<and> op_FinishedAt p = None \<and> op_Error p = None"

definition grows :: "(env \<Rightarrow> operation list \<Rightarrow> operation list \<Rightarrow> bool) \<Rightarrow> bool" where
  "grows Q \<longleftrightarrow> (\<forall>e ops q p. Q e ops q \<and> op_OperationID p \<notin> op_OperationID ` set ops \<and> fresh_op p \<longrightarrow>
     Q e (ops @ [saved_operation p]) q \<and> Q e (ops @ [saved_operation p]) (q @ [p]))"

lemma oq_new_operation: "(\<And>p. fresh_op p \<Longrightarrow> keeps (oq Q) (f p)) \<Longrightarrow>
    keeps (oq Q) (State_Monad.bind (new_operation ty rt rid sid snid t meta) f)"
  unfolding new_operation_def
  by (auto simp: valid_def runs oq_def fresh_op_def split: prod.splits)

lemma oq_sandbox_op: "(\<And>p. fresh_op p \<Longrightarrow> keeps (oq Q) (f p)) \<Longrightarrow>
    keeps (oq Q) (State_Monad.bind (sandbox_op ty sid t meta) f)"
  unfolding sandbox_op_def by (rule oq_new_operation)

lemma operation_Create_Inr: "operation_Create p d = Inr d' \<longleftrightarrow>
    op_OperationID p \<notin> op_OperationID ` set (db_operations d) \<and> d' = d\<lparr>db_operations := db_operations d @ [saved_operation p]\<rparr>"
  by (auto simp: operation_Create_def row_insert_Inr operation_clash_def saved_operation_def)

lemma oq_created_enqueued:
  assumes "grows Q" "fresh_op p"
  shows "valid (oq Q) (store_write (operation_Create p)) (\<lambda>r. case r of Inl _ \<Rightarrow> oq Q
     | Inr _ \<Rightarrow> oq (\<lambda>e ops q. Q e ops q \<and> Q e ops (q @ [p])))"
  using assms unfolding grows_def
  by (auto simp: valid_def oq_def runs operation_Create_Inr split: option.splits sum.splits)

lemma oq_Enqueue: "valid (oq (\<lambda>e ops q. Q e ops q \<and> Q e ops (q @ [p]))) (Enqueue p) (\<lambda>_. oq Q)"
  by (auto simp: valid_def oq_def runs)

lemma oq_submit:
  assumes "fresh_op p" "grows Q" "keeps (oq Q) undo"
  shows "keeps (oq Q) (submit p undo)"
  unfolding submit_def
proof (rule valid_bind [OF oq_created_enqueued [OF assms(2,1)]])
  fix r :: "unit res"
  show "valid (case r of Inl _ \<Rightarrow> oq Q | Inr _ \<Rightarrow> oq (\<lambda>e ops q. Q e ops q \<and> Q e ops (q @ [p])))
     (case r of Inl e \<Rightarrow> do { undo; ret (Inl e) } | Inr _ \<Rightarrow> do { Enqueue p; ret (Inr p) }) (\<lambda>_. oq Q)"
    by (cases r) (auto intro: keeps_bind keeps_return assms valid_bind [OF oq_Enqueue])
qed

lemma oq_submit_ending:
  assumes "fresh_op p" "grows Q" "keeps (oq Q) undo"
  shows "keeps (oq Q) (submit_ending i p undo)"
  unfolding submit_ending_def
proof (rule valid_bind [OF oq_created_enqueued [OF assms(2,1)]])
  fix r :: "unit res"
  let ?R = "oq (\<lambda>e ops q. Q e ops q \<and> Q e ops (q @ [p]))"
  have "valid ?R (do { boost \<leftarrow> config env_hasBoost; (if boost then cancelOnLifecycleLocked i else ret ()); Enqueue p; ret (Inr p) }) (\<lambda>_. oq Q)"
    by (rule valid_bind, rule oq_io(2), rule valid_bind [where R = "\<lambda>_. ?R"], intro pres, rule valid_bind [OF oq_Enqueue], rule keeps_return)
  then show "valid (case r of Inl _ \<Rightarrow> oq Q | Inr _ \<Rightarrow> ?R)
     (case r of Inl e \<Rightarrow> do { undo; ret (Inl e) }
      | Inr _ \<Rightarrow> do { boost \<leftarrow> config env_hasBoost; (if boost then cancelOnLifecycleLocked i else ret ()); Enqueue p; ret (Inr p) }) (\<lambda>_. oq Q)"
    by (cases r) (auto intro: keeps_bind keeps_return assms)
qed

lemmas oq_making = oq_new_operation oq_sandbox_op oq_submit oq_submit_ending

lemma oq_create_children [pres]: "keeps (oq Q) (create_children parent t n i ids)"
proof (induction n arbitrary: i ids)
  case 0
  show ?case unfolding create_children.simps by (intro pres)
next
  case (Suc n)
  show ?case unfolding create_children.simps by (intro pres Suc.IH)
qed

lemma oq_serve:
  assumes "grows Q" shows "keeps (oq Q) (serve r)"
proof -
  note [intro] = assms
  show ?thesis
    by (cases r; simp only: serve.simps; unfold api_defs read_defs SandboxService_Create_def SandboxService_CreateFromSnapshot_def
      SandboxService_Fork_def SandboxService_Start_def SandboxService_Stop_def SandboxService_Destroy_def
      SnapshotService_Create_def SnapshotService_Restore_def SnapshotService_Delete_def enqueue_new_def
      ImageService_PromoteSnapshot_def ImageService_Register_def ImageService_Delete_def
      ProjectService_Create_def ProjectService_Update_def ProjectService_Delete_def OperationService_Cancel_def;
      intro oq_making pres assms; assumption)
qed

section \<open>An operation that has ended stays as it is\<close>

text \<open>Every queued operation is stored, as pending, under an id no other queued one has.\<close>

definition queue_ok :: "operation list \<Rightarrow> operation list \<Rightarrow> bool" where
  "queue_ok ops q \<longleftrightarrow> distinct (map op_OperationID ops) \<and> distinct (map op_OperationID q) \<and>
     (\<forall>p\<in>set q. \<exists>r\<in>set ops. op_OperationID r = op_OperationID p \<and> op_State r = OpPending)"

definition ended :: "operation \<Rightarrow> operation list \<Rightarrow> operation list \<Rightarrow> bool" where
  "ended r ops q \<longleftrightarrow> queue_ok ops q \<and> r \<in> set ops \<and> op_Terminal (op_State r)"

text \<open>While the operation with the id \<open>k\<close> runs.\<close>

definition ended_during :: "string \<Rightarrow> operation \<Rightarrow> operation list \<Rightarrow> operation list \<Rightarrow> bool" where
  "ended_during k r ops q \<longleftrightarrow> ended r ops q \<and> k \<notin> op_OperationID ` set q \<and> op_OperationID r \<noteq> k"

lemma queued_stored: "queue_ok ops q \<Longrightarrow> op_OperationID ` set q \<subseteq> op_OperationID ` set ops"
  unfolding queue_ok_def by (auto simp: image_iff) (metis)

lemma grows_ended: "grows (\<lambda>_. ended r)"
proof -
  have "queue_ok (ops @ [saved_operation p]) q \<and> queue_ok (ops @ [saved_operation p]) (q @ [p])"
    if "queue_ok ops q" "op_OperationID p \<notin> op_OperationID ` set ops" "fresh_op p" for ops q p
  proof -
    have "op_State p = OpPending" using that(3) by (simp add: fresh_op_def)
    have "op_OperationID p \<notin> op_OperationID ` set q" using that queued_stored [of ops q] by blast
    moreover have "\<exists>r\<in>set (ops @ [saved_operation p]). op_OperationID r = op_OperationID x \<and> op_State r = OpPending"
      if "x \<in> insert p (set q)" for x
      using that \<open>queue_ok ops q\<close> \<open>op_State p = OpPending\<close> by (auto simp: queue_ok_def saved_operation_def)
    ultimately show ?thesis using that by (simp add: queue_ok_def) (simp add: saved_operation_def)
  qed
  then show ?thesis by (auto simp: grows_def ended_def)
qed

lemma operation_Update_Inr: "operation_Update p d = Inr d' \<Longrightarrow>
    db_operations d' = upd_where (\<lambda>r. op_OperationID r = op_OperationID p) (\<lambda>old. merged_operation old p) (db_operations d)"
  by (auto simp: operation_Update_def row_update_Inr)

lemma ended_update:
  assumes "ended_during (op_OperationID p) r ops q"
  shows "ended_during (op_OperationID p) r
    (upd_where (\<lambda>x. op_OperationID x = op_OperationID p) (\<lambda>old. merged_operation old p) ops) q"
proof -
  have ids: "map op_OperationID (upd_where (\<lambda>x. op_OperationID x = op_OperationID p) (\<lambda>old. merged_operation old p) ops) =
      map op_OperationID ops"
    by (rule map_upd_where) (simp add: merged_operation_def)
  have stays: "x \<in> set (upd_where (\<lambda>x. op_OperationID x = op_OperationID p) (\<lambda>old. merged_operation old p) ops)"
    if "x \<in> set ops" "op_OperationID x \<noteq> op_OperationID p" for x
    using that by (force simp: set_upd_where)
  have "\<exists>x\<in>set (upd_where (\<lambda>x. op_OperationID x = op_OperationID p) (\<lambda>old. merged_operation old p) ops).
      op_OperationID x = op_OperationID y \<and> op_State x = OpPending" if y: "y \<in> set q" for y
  proof -
    obtain x where x: "x \<in> set ops" "op_OperationID x = op_OperationID y" "op_State x = OpPending"
      using assms y by (auto simp: ended_during_def ended_def queue_ok_def)
    moreover have "op_OperationID y \<noteq> op_OperationID p" using assms y by (auto simp: ended_during_def image_iff)
    ultimately show ?thesis using stays [of x] by auto
  qed
  then show ?thesis using assms stays [of r] by (auto simp: ended_during_def ended_def queue_ok_def ids)
qed

lemma oq_update [pres]: "op_OperationID p = k \<Longrightarrow> keeps (oq (\<lambda>_. ended_during k r)) (store_write (operation_Update p))"
  by (hypsubst, rule oq_write) (simp add: operation_Update_Inr ended_update)

lemma oq_record [pres]: "op_OperationID p = k \<Longrightarrow> keeps (oq (\<lambda>_. ended_during k r)) (record_op p)"
  unfolding record_op_def publishOpEvent_def by (intro pres)

lemma oq_finish [pres]: "op_OperationID p = k \<Longrightarrow> keeps (oq (\<lambda>_. ended_during k r)) (finish_op p st e)"
  unfolding finish_op_def by (intro pres) simp

lemma oq_run_op: "keeps (oq (\<lambda>_. ended_during (op_OperationID p) r)) (run_op p)"
  unfolding run_op_def dispatcher_cancel_def dispatcher_fail_def
  by (intro pres; simp)

lemma ended_during_id: "oq (\<lambda>_. ended_during k r) w \<Longrightarrow> oq (\<lambda>_. ended r) w"
  by (simp add: oq_def ended_during_def)

lemma oq_run_next: "keeps (oq (\<lambda>_. ended r)) run_next"
  unfolding run_next_def
proof (rule valid_bind)
  show "valid (oq (\<lambda>_. ended r)) take_queued
     (\<lambda>t. case t of None \<Rightarrow> oq (\<lambda>_. ended r) | Some p \<Rightarrow> oq (\<lambda>_. ended_during (op_OperationID p) r))"
  proof (rule validI)
    fix w t w' assume e: "oq (\<lambda>_. ended r) w" and run: "run_state take_queued w = (t, w')"
    show "(case t of None \<Rightarrow> oq (\<lambda>_. ended r) | Some p \<Rightarrow> oq (\<lambda>_. ended_during (op_OperationID p) r)) w'"
    proof (cases "w_queue w")
      case Nil
      then show ?thesis using e run by (simp add: take_queued_def)
    next
      case (Cons p ps)
      have q: "queue_ok (db_operations (w_db w)) (p # ps)" "r \<in> set (db_operations (w_db w))" "op_Terminal (op_State r)"
        using e Cons by (simp_all add: oq_def ended_def)
      obtain x where x: "x \<in> set (db_operations (w_db w))" "op_OperationID x = op_OperationID p" "op_State x = OpPending"
        using q(1) by (auto simp: queue_ok_def)
      have d: "distinct (map op_OperationID (db_operations (w_db w)))" using q(1) by (simp add: queue_ok_def)
      have "op_OperationID r \<noteq> op_OperationID p"
        using distinct_map_key [OF d q(2) x(1)] x(2,3) q(3) by (auto simp: op_Terminal_def)
      then show ?thesis using q run Cons
        by (auto simp: take_queued_def oq_def ended_during_def ended_def queue_ok_def)
    qed
  qed
next
  fix t
  show "valid (case t of None \<Rightarrow> oq (\<lambda>_. ended r) | Some p \<Rightarrow> oq (\<lambda>_. ended_during (op_OperationID p) r))
     (case t of None \<Rightarrow> ret () | Some p \<Rightarrow> run_op p) (\<lambda>_. oq (\<lambda>_. ended r))"
    by (cases t) (auto intro: keeps_return valid_post [OF oq_run_op] ended_during_id)
qed

section \<open>A restart\<close>

definition ended_idle :: "operation \<Rightarrow> operation list \<Rightarrow> operation list \<Rightarrow> bool" where
  "ended_idle r ops q \<longleftrightarrow> ended r ops q \<and> q = []"

lemma oq_fail_stale: "op_OperationID p \<noteq> op_OperationID r \<Longrightarrow> keeps (oq (\<lambda>_. ended_idle r)) (fail_stale t txt p res)"
  unfolding fail_stale_def
proof (rule keeps_bind)
  let ?p = "p\<lparr>op_State := OpFailed, op_FinishedAt := Some t, op_Error := Some (Opaque txt)\<rparr>"
  assume "op_OperationID p \<noteq> op_OperationID r"
  then have e: "ended_idle r ops q \<longleftrightarrow> ended_during (op_OperationID ?p) r ops q \<and> q = []" for ops q
    by (auto simp: ended_during_def ended_idle_def)
  show "keeps (oq (\<lambda>_. ended_idle r)) (store_write (operation_Update ?p))"
    by (rule oq_write) (simp add: e operation_Update_Inr ended_update [of ?p, simplified])
qed (rule keeps_return)

lemma oq_list_stale:
  assumes "\<not> op_Terminal st"
  shows "valid (oq (\<lambda>_. ended_idle r)) (store_read (operation_ListByState st))
    (\<lambda>l w. oq (\<lambda>_. ended_idle r) w \<and> (\<forall>p\<in>set (or_nil l). op_OperationID p \<noteq> op_OperationID r))"
proof (rule validI)
  fix w l w' assume e: "oq (\<lambda>_. ended_idle r) w" and run: "run_state (store_read (operation_ListByState st)) w = (l, w')"
  have d: "distinct (map op_OperationID (db_operations (w_db w)))" and r: "r \<in> set (db_operations (w_db w))" "op_Terminal (op_State r)"
    using e by (simp_all add: oq_def ended_idle_def ended_def queue_ok_def)
  have "op_OperationID p \<noteq> op_OperationID r" if "p \<in> set (db_operations (w_db w))" "op_State p = st" for p
    using distinct_map_key [OF d that(1) r(1)] that(2) r(2) assms by auto
  then show "oq (\<lambda>_. ended_idle r) w' \<and> (\<forall>p\<in>set (or_nil l). op_OperationID p \<noteq> op_OperationID r)"
    using run e by (auto simp: runs oq_def or_nil_def operation_ListByState_def split: option.splits)
qed

lemma oq_collect_stale:
  "valid (\<lambda>w. oq (\<lambda>_. ended_idle r) w \<and> (\<forall>p\<in>set ps. op_OperationID p \<noteq> op_OperationID r))
     (collect ps (fail_stale t txt) res) (\<lambda>_. oq (\<lambda>_. ended_idle r))"
proof (cases "\<forall>p\<in>set ps. op_OperationID p \<noteq> op_OperationID r")
  case True
  then have "keeps (oq (\<lambda>_. ended_idle r)) (collect ps (fail_stale t txt) res)"
    by (intro keeps_collect oq_fail_stale) auto
  then show ?thesis by (rule valid_pre) simp
next
  case False
  then show ?thesis by (auto simp: valid_def)
qed

lemma oq_list_fail:
  assumes "\<not> op_Terminal st" "\<And>e. keeps (oq (\<lambda>_. ended_idle r)) (f e)"
    and "\<And>ps. valid (\<lambda>w. oq (\<lambda>_. ended_idle r) w \<and> (\<forall>p\<in>set ps. op_OperationID p \<noteq> op_OperationID r)) (g ps) (\<lambda>_. oq (\<lambda>_. ended_idle r))"
  shows "keeps (oq (\<lambda>_. ended_idle r)) (do {
    l \<leftarrow> store_read (operation_ListByState st);
    case l of Inl e \<Rightarrow> f e | Inr ps \<Rightarrow> g ps })"
proof (rule valid_bind [OF oq_list_stale [OF assms(1)]])
  fix l
  show "valid (\<lambda>w. oq (\<lambda>_. ended_idle r) w \<and> (\<forall>p\<in>set (or_nil l). op_OperationID p \<noteq> op_OperationID r))
     (case l of Inl e \<Rightarrow> f e | Inr ps \<Rightarrow> g ps) (\<lambda>_. oq (\<lambda>_. ended_idle r))"
    using assms(2,3) by (cases l) (simp_all add: or_nil_def)
qed

lemma valid_keep_pure: "valid P m (\<lambda>_. P) \<Longrightarrow> valid (\<lambda>w. P w \<and> b) m (\<lambda>_ w. P w \<and> b)"
  by (auto simp: valid_def split: prod.splits)

lemma oq_stale_operations: "keeps (oq (\<lambda>_. ended_idle r)) (reconcileStaleOperations res0)"
  unfolding reconcileStaleOperations_def
  by (intro oq_list_fail valid_bind [OF valid_keep_pure [OF oq_io(3)]] valid_bind [OF oq_collect_stale] oq_collect_stale pres)
    (simp_all add: op_Terminal_def)

lemma oq_Reconcile: "keeps (oq (\<lambda>_. ended_idle r)) Reconciler_Run"
  unfolding Reconciler_Run_def reconcileTransitionalSandboxes_def reconcile_state_def fix_transitional_def
    resolveTransitionalSandbox_def actual_state_def reconcileRunningSandboxes_def fix_drift_def
  by (intro oq_stale_operations pres)

lemma oq_restart: "keeps (oq (\<lambda>_. ended r)) restart"
proof -
  have n: "valid (oq (\<lambda>_. ended r)) new_process (\<lambda>_. oq (\<lambda>_. ended_idle r))"
    by (auto simp: valid_def oq_def ended_idle_def ended_def queue_ok_def new_process_def State_Monad.update_def)
  have s: "keeps (oq (\<lambda>_. ended_idle r)) start_daemon"
    unfolding start_daemon_def ensure_default_project_def read_defs ProjectService_Create_def by (intro oq_Reconcile pres)
  show ?thesis
    unfolding restart_def by (rule valid_bind [OF n], rule valid_post [OF s]) (auto simp: oq_def ended_idle_def)
qed

lemma oq_stop: "keeps (oq (\<lambda>_. ended r)) Dispatcher_Stop"
  by (auto simp: valid_def oq_def ended_def queue_ok_def Dispatcher_Stop_def State_Monad.update_def)

lemma oq_step: "keeps (oq (\<lambda>_. ended r)) (daemon_step s)"
  by (cases s; simp only: daemon_step.simps; intro oq_run_next oq_serve oq_restart oq_stop grows_ended pres)

section \<open>The record of an operation agrees with itself\<close>

text \<open>
  A row has a finish time exactly when its operation has ended, and an error exactly when it has
  failed; and nothing waits in the queue that has been begun before.
\<close>

definition op_row_ok :: "operation \<Rightarrow> bool" where
  "op_row_ok r \<longleftrightarrow> (op_FinishedAt r \<noteq> None \<longleftrightarrow> op_Terminal (op_State r)) \<and> (op_Error r \<noteq> None \<longleftrightarrow> op_State r = OpFailed)"

definition ops_ok :: "operation list \<Rightarrow> operation list \<Rightarrow> bool" where
  "ops_ok ops q \<longleftrightarrow> (\<forall>r\<in>set ops. op_row_ok r) \<and> (\<forall>p\<in>set q. fresh_op p)"

lemma fresh_row_ok: "fresh_op p \<Longrightarrow> op_row_ok p" "fresh_op p \<Longrightarrow> op_row_ok (p\<lparr>op_State := OpRunning\<rparr>)"
  by (simp_all add: fresh_op_def op_row_ok_def op_Terminal_def)

lemma row_ok_stored: "op_row_ok (saved_operation p) = op_row_ok p" "op_row_ok (merged_operation old p) = op_row_ok p"
  by (simp_all add: op_row_ok_def saved_operation_def merged_operation_def)

lemma grows_ops_ok: "grows (\<lambda>_. ops_ok)"
  by (auto simp: grows_def ops_ok_def row_ok_stored fresh_row_ok)

lemma ok_update: "op_row_ok p \<Longrightarrow> keeps (oq (\<lambda>_. ops_ok)) (store_write (operation_Update p))"
  by (rule oq_write) (auto simp: operation_Update_Inr ops_ok_def set_upd_where row_ok_stored)

lemma ok_record: "op_row_ok p \<Longrightarrow> keeps (oq (\<lambda>_. ops_ok)) (record_op p)"
  unfolding record_op_def publishOpEvent_def by (intro pres ok_update)

lemma ok_finish: "op_Terminal st \<Longrightarrow> e \<noteq> None \<longleftrightarrow> st = OpFailed \<Longrightarrow> keeps (oq (\<lambda>_. ops_ok)) (finish_op p st e)"
  unfolding finish_op_def by (intro pres ok_record) (simp add: op_row_ok_def)

lemma ok_run_op: "fresh_op p \<Longrightarrow> keeps (oq (\<lambda>_. ops_ok)) (run_op p)"
  unfolding run_op_def dispatcher_cancel_def dispatcher_fail_def Let_def
  by (intro pres ok_record ok_finish fresh_row_ok) (simp_all add: fresh_op_def op_Terminal_def)

lemma ok_run_next: "keeps (oq (\<lambda>_. ops_ok)) run_next"
  unfolding run_next_def
proof (rule valid_bind)
  show "valid (oq (\<lambda>_. ops_ok)) take_queued (\<lambda>t w. oq (\<lambda>_. ops_ok) w \<and> (\<forall>p. t = Some p \<longrightarrow> fresh_op p))"
    by (auto simp: valid_def take_queued_def oq_def ops_ok_def split: list.splits)
next
  fix t
  show "valid (\<lambda>w. oq (\<lambda>_. ops_ok) w \<and> (\<forall>p. t = Some p \<longrightarrow> fresh_op p))
     (case t of None \<Rightarrow> ret () | Some p \<Rightarrow> run_op p) (\<lambda>_. oq (\<lambda>_. ops_ok))"
    using ok_run_op by (cases t) (auto simp: valid_def keepsD split: prod.splits)
qed

lemma ok_stale_operations: "keeps (oq (\<lambda>_. ops_ok)) (reconcileStaleOperations res0)"
  unfolding reconcileStaleOperations_def fail_stale_def
  by (intro pres ok_update) (simp_all add: op_row_ok_def op_Terminal_def)

lemma ok_Reconcile: "keeps (oq (\<lambda>_. ops_ok)) Reconciler_Run"
  unfolding Reconciler_Run_def reconcileTransitionalSandboxes_def reconcile_state_def fix_transitional_def
    resolveTransitionalSandbox_def actual_state_def reconcileRunningSandboxes_def fix_drift_def
  by (intro ok_stale_operations pres)

lemma ok_restart: "keeps (oq (\<lambda>_. ops_ok)) restart"
proof -
  have "keeps (oq (\<lambda>_. ops_ok)) new_process" "keeps (oq (\<lambda>_. ops_ok)) start_daemon"
    by (simp add: valid_def oq_def ops_ok_def new_process_def State_Monad.update_def)
      (unfold start_daemon_def ensure_default_project_def read_defs ProjectService_Create_def, intro ok_Reconcile pres)
  then show ?thesis unfolding restart_def by (intro keeps_bind)
qed

lemma ok_stop: "keeps (oq (\<lambda>_. ops_ok)) Dispatcher_Stop"
  by (simp add: valid_def oq_def ops_ok_def Dispatcher_Stop_def State_Monad.update_def)

lemma ok_step: "keeps (oq (\<lambda>_. ops_ok)) (daemon_step s)"
  by (cases s; simp only: daemon_step.simps; intro ok_run_next oq_serve ok_restart ok_stop grows_ops_ok pres)

section \<open>Properties\<close>

text \<open>
  C1: the record of an operation never contradicts itself.  After any sequence of API requests,
  dispatched operations, expiring boosts, garbage collections, shutdowns and restarts, whatever
  the backends answer, whatever the clock reads and whichever database calls fail on the way,
  every row of the operations table carries a finish time exactly when its state is an ended one
  and an error exactly when its state is failed, and every operation in the dispatcher's queue is
  one that has not been begun; given that this held at the start.
\<close>

theorem operation_rows_consistent:
  assumes "ops_ok (db_operations (w_db w)) (w_queue w)"
  shows "ops_ok (db_operations (w_db (snd (run_state (forM steps daemon_step) w))))
     (w_queue (snd (run_state (forM steps daemon_step) w)))"
proof -
  have "keeps (oq (\<lambda>_. ops_ok)) (forM steps daemon_step)" by (intro keeps_forM ok_step)
  from keepsD [OF this, of w] show ?thesis using assms by (simp add: oq_def)
qed

text \<open>
  C2: the outcome of an operation is final.  Once the store holds an operation as succeeded,
  failed or cancelled, no request, no dispatched operation, no timer, no sweep and no restart
  ever changes its row again, whatever fails on the way.
\<close>

theorem outcomes_are_final:
  assumes "queue_ok (db_operations (w_db w)) (w_queue w)"
    and "operation_Get i (w_db w) = Some r" "op_Terminal (op_State r)"
  shows "operation_Get i (w_db (snd (run_state (forM steps daemon_step) w))) = Some r"
proof -
  have r: "r \<in> set (db_operations (w_db w))" "op_OperationID r = i"
    using assms(2) by (auto simp: operation_Get_def dest: row_find_Some)
  have "keeps (oq (\<lambda>_. ended r)) (forM steps daemon_step)" by (intro keeps_forM oq_step)
  from keepsD [OF this, of w] have e: "oq (\<lambda>_. ended r) (snd (run_state (forM steps daemon_step) w))"
    using assms r by (simp add: oq_def ended_def)
  then show ?thesis using r(2) row_find_key [of op_OperationID _ r] by (auto simp: oq_def ended_def queue_ok_def operation_Get_def)
qed

definition demo_operation :: "string \<Rightarrow> operation_state \<Rightarrow> operation" where
  "demo_operation i st = \<lparr>op_OperationID = i, op_ResourceType = ''sandbox'', op_ResourceID = ''a'', op_SandboxID = ''a'',
     op_SnapshotID = [], op_Type = ''start_sandbox'', op_State = st, op_StartedAt = utc 0, op_FinishedAt = None,
     op_Error = None, op_Metadata = None\<rparr>"

definition demo_busy :: world where
  "demo_busy = (demo_world ((two_sandboxes SandboxStarting SandboxRunning)\<lparr>db_operations :=
     [demo_operation ''o1'' OpSucceeded, demo_operation ''o2'' OpPending]\<rparr>))\<lparr>w_queue := [demo_operation ''o2'' OpPending]\<rparr>"

definition demo_queued :: world where
  "demo_queued = (demo_world ((two_sandboxes SandboxStarting SandboxRunning)\<lparr>db_operations :=
     [demo_operation ''o2'' OpPending]\<rparr>))\<lparr>w_queue := [demo_operation ''o2'' OpPending]\<rparr>"

lemma operation_rows_consistent_witness:
  "ops_ok (db_operations (w_db (snd (run_state (forM [RunNext, Serve (StartSandbox ''b''), Restart] daemon_step) demo_queued))))
     (w_queue (snd (run_state (forM [RunNext, Serve (StartSandbox ''b''), Restart] daemon_step) demo_queued)))"
  by (rule operation_rows_consistent)
    (simp add: demo_queued_def demo_operation_def ops_ok_def op_row_ok_def fresh_op_def op_Terminal_def)

lemma outcomes_are_final_witness:
  "operation_Get ''o1'' (w_db (snd (run_state (forM [RunNext, Serve (StartSandbox ''b''), Restart] daemon_step) demo_busy)))
     = Some (demo_operation ''o1'' OpSucceeded)"
  by (rule outcomes_are_final)
    (simp_all add: demo_busy_def demo_operation_def queue_ok_def operation_Get_def row_find_def op_Terminal_def)

section \<open>An operation that is dispatched ends\<close>

lemma operation_Get_id: "operation_Get k d = Some p \<Longrightarrow> op_OperationID p = k"
  by (rule opers.look_key)

lemma operation_Update_found:
  assumes "operation_Get (op_OperationID p) d = Some old"
  shows "\<exists>d'. operation_Update p d = Inr d' \<and> operation_Get (op_OperationID p) d' = Some (merged_operation old p)"
proof -
  have "op_OperationID (merged_operation old p) = op_OperationID p"
    using operation_Get_id [OF assms] by (simp add: merged_operation_def)
  then have "\<not> list_ex (\<lambda>r. op_OperationID r \<noteq> op_OperationID p \<and> operation_clash (merged_operation old p) r) (db_operations d)"
    by (auto simp: operation_clash_def list_ex_iff)
  then obtain d' where u: "operation_Update p d = Inr d'"
    using assms by (simp add: operation_Update_def row_update_def operation_Get_def store_rows_def)
  then show ?thesis using opers.put_look [OF u] assms by auto
qed

lemma recorded:
  assumes "no_db_failure w" "operation_Get (op_OperationID p) (w_db w) = Some old"
  shows "\<exists>w'. run_state (record_op p) w = ((), w') \<and> w_env w' = w_env w \<and> w_calls w' = w_calls w \<and>
    operation_Get (op_OperationID p) (w_db w') = Some (merged_operation old p)"
proof -
  obtain d' where "operation_Update p (w_db w) = Inr d'" "operation_Get (op_OperationID p) d' = Some (merged_operation old p)"
    using operation_Update_found [OF assms(2)] by blast
  then show ?thesis using assms(1) by (simp add: record_op_def publishOpEvent_def runs Let_def)
qed

text \<open>What the end of an operation leaves in the store.\<close>

definition ended_as :: "operation \<Rightarrow> operation_state \<Rightarrow> goerr option \<Rightarrow> world \<Rightarrow> bool" where
  "ended_as p st e w \<longleftrightarrow> (case operation_Get (op_OperationID p) (w_db w) of
     None \<Rightarrow> False | Some r \<Rightarrow> op_State r = st \<and> op_FinishedAt r \<noteq> None \<and> op_Error r = e)"

lemma finish_recorded:
  assumes "no_db_failure w" "operation_Get (op_OperationID p) (w_db w) \<noteq> None"
  shows "ended_as p st e (snd (run_state (finish_op p st e) w)) \<and> w_calls (snd (run_state (finish_op p st e) w)) = w_calls w"
proof -
  obtain old where old: "operation_Get (op_OperationID p) (w_db w) = Some old" using assms(2) by auto
  define q where "q = p\<lparr>op_State := st, op_FinishedAt := Some (utc (env_now (w_env w) (w_tick w))), op_Error := e\<rparr>"
  have "\<exists>w'. run_state (record_op q) (ticked w) = ((), w') \<and> w_env w' = w_env (ticked w) \<and> w_calls w' = w_calls (ticked w) \<and>
    operation_Get (op_OperationID q) (w_db w') = Some (merged_operation old q)"
    by (rule recorded) (use assms(1) old in \<open>simp_all add: q_def no_db_failure_def\<close>)
  then show ?thesis
    by (auto simp: finish_op_def runs ended_as_def q_def [symmetric]) (simp_all add: q_def merged_operation_def)
qed

definition has_operation :: "env \<Rightarrow> string \<Rightarrow> env \<Rightarrow> operation list \<Rightarrow> operation list \<Rightarrow> bool" where
  "has_operation e0 k e ops q \<longleftrightarrow> e = e0 \<and> k \<in> op_OperationID ` set ops"

lemma oq_has_operation: "oq (has_operation (w_env w0) k) w \<longleftrightarrow> w_env w = w_env w0 \<and> operation_Get k (w_db w) \<noteq> None"
  by (simp only: oq_def has_operation_def operation_Get_def row_find_None not_not)

lemma failed_finish:
  assumes "no_db_failure w" "operation_Get (op_OperationID p) (w_db w) \<noteq> None"
  shows "ended_as p OpFailed (Some e) (snd (run_state (dispatcher_fail p e) w))"
  unfolding dispatcher_fail_def using finish_recorded [OF assms] by blast

text \<open>The world the handler of an operation starts in.\<close>

definition handler_world :: "operation \<Rightarrow> world \<Rightarrow> world" where
  "handler_world p w = snd (run_state (record_op (p\<lparr>op_State := OpRunning\<rparr>)) (snd (run_state (take_cancelled (op_OperationID p)) w)))"

definition outcome :: "operation \<Rightarrow> unit res \<Rightarrow> operation_state \<times> goerr option" where
  "outcome p r = (case r of
     Inr _ \<Rightarrow> (OpSucceeded, op_Error p)
   | Inl e \<Rightarrow> if errors_Is e ErrCanceled then (OpCancelled, op_Error p) else (OpFailed, Some e))"

lemma ended_as_running: "ended_as (p\<lparr>op_State := st'\<rparr>) = ended_as p"
  by (simp add: ended_as_def fun_eq_iff)

lemma run_op_handled:
  assumes "no_db_failure w" "operation_Get (op_OperationID p) (w_db w) \<noteq> None"
    and "op_OperationID p \<notin> set (w_cancelled w)" "handlers (op_Type p) = Some h"
    and "run_state (h (p\<lparr>op_State := OpRunning\<rparr>)) (handler_world p w) = (r, w1)"
  shows "ended_as p (fst (outcome p r)) (snd (outcome p r)) (snd (run_state (run_op p) w))"
proof -
  let ?p = "p\<lparr>op_State := OpRunning\<rparr>"
  define w0 where "w0 = snd (run_state (take_cancelled (op_OperationID p)) w)"
  have w0: "w_env w0 = w_env w" "w_db w0 = w_db w" by (simp_all add: w0_def take_cancelled_def)
  then obtain old where o: "operation_Get (op_OperationID ?p) (w_db w0) = Some old" and nf: "no_db_failure w0"
    using assms(1,2) by (auto simp: no_db_failure_def)
  obtain w2 where rec: "run_state (record_op ?p) w0 = ((), w2)" "w_env w2 = w_env w"
    "operation_Get (op_OperationID p) (w_db w2) \<noteq> None"
    using recorded [OF nf o] w0(1) by auto
  then have hw: "handler_world p w = w2" by (simp add: handler_world_def w0_def)
  have "keeps (oq (has_operation (w_env w) (op_OperationID p))) (h ?p)" using assms(4) by (rule oq_handlers)
  then have "oq (has_operation (w_env w) (op_OperationID p)) w1"
    by (rule validD [OF _ _ assms(5)]) (simp add: hw oq_has_operation rec)
  then have w1: "no_db_failure w1" "operation_Get (op_OperationID ?p) (w_db w1) \<noteq> None"
    using assms(1) by (simp_all add: oq_has_operation no_db_failure_def)
  have run: "run_state (run_op p) w = (case r of
      Inl e \<Rightarrow> run_state (if errors_Is e ErrCanceled then dispatcher_cancel ?p else dispatcher_fail ?p e) w1
    | Inr _ \<Rightarrow> run_state (finish_op ?p OpSucceeded (op_Error ?p)) w1)"
    using assms(3,4,5) rec(1) unfolding hw run_op_def w0_def
    by (simp add: take_cancelled_def Let_def split: sum.splits)
  show ?thesis
    using finish_recorded [OF w1] unfolding run
    by (simp add: outcome_def dispatcher_cancel_def dispatcher_fail_def ended_as_running split: sum.splits)
qed

lemma run_op_unhandled:
  assumes "no_db_failure w" "operation_Get (op_OperationID p) (w_db w) \<noteq> None" "op_OperationID p \<notin> set (w_cancelled w)"
    and "handlers (op_Type p) = None"
  shows "ended_as p OpFailed (Some (Opaque ''no handler registered for operation type: '')) (snd (run_state (run_op p) w))"
proof -
  let ?w = "snd (run_state (take_cancelled (op_OperationID p)) w)"
  have "no_db_failure ?w" "operation_Get (op_OperationID p) (w_db ?w) \<noteq> None"
    using assms(1,2) by (simp_all add: take_cancelled_def no_db_failure_def)
  from failed_finish [OF this] show ?thesis
    using assms(3,4) by (simp add: run_op_def take_cancelled_def)
qed

lemma run_op_cancelled:
  assumes "no_db_failure w" "operation_Get (op_OperationID p) (w_db w) \<noteq> None" "op_OperationID p \<in> set (w_cancelled w)"
  shows "ended_as p OpCancelled (op_Error p) (snd (run_state (run_op p) w))" "w_calls (snd (run_state (run_op p) w)) = w_calls w"
proof -
  let ?w = "snd (run_state (take_cancelled (op_OperationID p)) w)"
  have "no_db_failure ?w" "operation_Get (op_OperationID p) (w_db ?w) \<noteq> None" "w_calls ?w = w_calls w"
    using assms(1,2) by (simp_all add: take_cancelled_def no_db_failure_def)
  with finish_recorded [of ?w p OpCancelled "op_Error p"]
  show "ended_as p OpCancelled (op_Error p) (snd (run_state (run_op p) w))" "w_calls (snd (run_state (run_op p) w)) = w_calls w"
    using assms(3) by (simp_all add: run_op_def take_cancelled_def dispatcher_cancel_def)
qed

text \<open>
  C4: when no database call fails, an operation the dispatcher takes up ends, and its row says
  how: cancelled without any backend call when the cancellation came while it was queued,
  failed when its type has no handler, and otherwise what the handler returned, a cancelled
  context counting as cancelled and any other error as failed with that error.
\<close>

theorem dispatched_operation_ends:
  assumes "no_db_failure w" "operation_Get (op_OperationID p) (w_db w) \<noteq> None"
  shows "if op_OperationID p \<in> set (w_cancelled w)
    then ended_as p OpCancelled (op_Error p) (snd (run_state (run_op p) w)) \<and> w_calls (snd (run_state (run_op p) w)) = w_calls w
    else (case handlers (op_Type p) of
        None \<Rightarrow> ended_as p OpFailed (Some (Opaque ''no handler registered for operation type: '')) (snd (run_state (run_op p) w))
      | Some h \<Rightarrow> (case outcome p (fst (run_state (h (p\<lparr>op_State := OpRunning\<rparr>)) (handler_world p w))) of
          (st, e) \<Rightarrow> ended_as p st e (snd (run_state (run_op p) w))))"
proof (cases "op_OperationID p \<in> set (w_cancelled w)")
  case False
  show ?thesis
  proof (cases "handlers (op_Type p)")
    case (Some h)
    obtain r w1 where "run_state (h (p\<lparr>op_State := OpRunning\<rparr>)) (handler_world p w) = (r, w1)" by fastforce
    with run_op_handled [OF assms False Some this] show ?thesis using False Some by (simp add: case_prod_unfold)
  qed (use False run_op_unhandled [OF assms False] in simp)
qed (use run_op_cancelled [OF assms] in simp)

lemma dispatched_operation_ends_witness:
  "ended_as (demo_operation ''o2'' OpPending) OpCancelled None
     (snd (run_state (run_op (demo_operation ''o2'' OpPending)) (demo_busy\<lparr>w_cancelled := [''o2'']\<rparr>)))"
  using dispatched_operation_ends [of "demo_busy\<lparr>w_cancelled := [''o2'']\<rparr>" "demo_operation ''o2'' OpPending"]
  by (simp add: demo_busy_def demo_operation_def no_db_failure_def demo_env_def operation_Get_def row_find_def)

end
