(* ===== verification/Settle.thy ===== *)
theory Settle imports Outcomes begin

text \<open>
  What the reconciliation at startup leaves behind when no database call fails: the loops over
  the sandboxes in one state and over the operations in one state, and the property of the
  whole pass.
\<close>

section \<open>One sandbox\<close>

text \<open>
  A step of a loop on the row \<open>s\<close>: the row is left alone or written once under its own id and
  name, and has the property \<open>P\<close> then.
\<close>

definition handles :: "(sandbox \<Rightarrow> bool) \<Rightarrow> sandbox \<Rightarrow> world \<Rightarrow> world \<Rightarrow> bool" where
  "handles P s w w' \<longleftrightarrow> w_env w' = w_env w \<and>
     (w_db w' = w_db w \<and> P s \<or>
      (\<exists>s'. w_db w' = put_sandbox s' (w_db w) \<and> sbx_SandboxID s' = sbx_SandboxID s \<and> sbx_Name s' = sbx_Name s \<and>
        P (merged_sandbox s s')))"

lemma restore_handles:
  assumes "no_db_failure w" "db_ok (w_db w)" "sandbox_Get (sbx_SandboxID s) (w_db w) = Some s"
    and "\<And>t. P (merged_sandbox s (s\<lparr>sbx_State := st, sbx_UpdatedAt := t\<rparr>))"
  shows "handles P s w (snd (run_state (restore_state s st) w))"
proof -
  define s' where "s' = s\<lparr>sbx_State := st, sbx_UpdatedAt := utc (env_now (w_env w) (w_tick w))\<rparr>"
  have "sandbox_Update s' (w_db w) = Inr (put_sandbox s' (w_db w))"
    by (rule sandbox_Update_put) (use assms(2,3) in \<open>simp_all add: s'_def\<close>)
  moreover have "P (merged_sandbox s s')" "sbx_SandboxID s' = sbx_SandboxID s" "sbx_Name s' = sbx_Name s"
    using assms(4) by (simp_all add: s'_def)
  ultimately show ?thesis
    using assms(1) by (auto simp: restore_state_def with_state_def runs handles_def s'_def [symmetric])
qed

lemma ticked_simps [simp]: "no_db_failure (w\<lparr>w_tick := t\<rparr>) = no_db_failure w" "no_db_failure (w\<lparr>w_calls := c\<rparr>) = no_db_failure w"
  by (simp_all add: no_db_failure_def)

lemma handles_ticked: "handles P s (w\<lparr>w_tick := t, w_calls := c\<rparr>) w' = handles P s w w'"
  by (simp add: handles_def)

definition stable :: "sandbox \<Rightarrow> bool" where
  "stable s \<longleftrightarrow> \<not> isTransitional (sbx_State s)"

definition reported :: "env \<Rightarrow> sandbox \<Rightarrow> bool" where
  "reported e s \<longleftrightarrow> stable s \<or> (\<exists>n. pv_GetSandboxState (env_provider e) n (sbx_ref s) = Inr (sbx_State s))"

lemma fix_transitional_handles:
  assumes "no_db_failure w" "db_ok (w_db w)" "sandbox_Get (sbx_SandboxID s) (w_db w) = Some s" "isTransitional (sbx_State s)"
  shows "\<exists>acc' w'. run_state (fix_transitional s acc) w = (acc', w') \<and> rr_Errors acc' = rr_Errors acc \<and> handles stable s w w'"
proof -
  have r: "handles stable s w' (snd (run_state (restore_state s st) w'))"
    if "\<not> isTransitional st" "no_db_failure w'" "w_db w' = w_db w" for st w'
    by (rule restore_handles) (use that assms(2,3) in \<open>simp_all add: stable_def\<close>)
  let ?w = "w\<lparr>w_tick := Suc (w_tick w), w_calls := w_calls w @ [PGetSandboxState (sbx_ref s)]\<rparr>"
  have failed: "\<not> isTransitional SandboxFailed" by (simp add: isTransitional_def)
  have f: "handles stable s w (snd (run_state (restore_state s SandboxFailed) w))"
    "handles stable s w (snd (run_state (restore_state s SandboxFailed) ?w))"
    using r [OF failed, of w] r [OF failed, of ?w] assms(1) by (simp_all add: handles_ticked)
  have a: "handles stable s w (snd (run_state (restore_state s st) ?w))" if "\<not> isTransitional st" for st
    using r [OF that, of ?w] assms(1) by (simp add: handles_ticked)
  show ?thesis
    using f a assms(4)
    by (auto simp: fix_transitional_def resolveTransitionalSandbox_def actual_state_def runs case_prod_unfold split: sum.splits)
qed

lemma fix_drift_handles:
  assumes "no_db_failure w" "db_ok (w_db w)" "sandbox_Get (sbx_SandboxID s) (w_db w) = Some s" "sbx_State s = SandboxRunning"
  shows "\<exists>acc' w'. run_state (fix_drift s acc) w = (acc', w') \<and> rr_Errors acc' = rr_Errors acc \<and> handles (reported (w_env w)) s w w'"
proof -
  let ?w = "w\<lparr>w_tick := Suc (w_tick w), w_calls := w_calls w @ [PGetSandboxState (sbx_ref s)]\<rparr>"
  have r: "handles (reported (w_env w)) s w (snd (run_state (restore_state s st) ?w))"
    if "st = SandboxFailed \<or> pv_GetSandboxState (env_provider (w_env w)) (w_tick w) (sbx_ref s) = Inr st" for st
  proof -
    have "handles (reported (w_env w)) s ?w (snd (run_state (restore_state s st) ?w))"
    proof (rule restore_handles)
      fix t
      let ?s = "merged_sandbox s (s\<lparr>sbx_State := st, sbx_UpdatedAt := t\<rparr>)"
      have "sbx_ref ?s = sbx_ref s" by (simp add: sbx_ref_def)
      then show "reported (w_env w) ?s" using that by (auto simp: reported_def stable_def isTransitional_def)
    qed (use assms(1-3) in simp_all)
    then show ?thesis by (simp add: handles_ticked)
  qed
  have "handles (reported (w_env w)) s w ?w"
    using assms(4) by (simp add: handles_def reported_def stable_def isTransitional_def)
  with r show ?thesis
    by (auto simp: fix_drift_def actual_state_def runs case_prod_unfold split: sum.splits)
qed

section \<open>The sandboxes of one state\<close>

definition settled :: "(sandbox \<Rightarrow> bool) \<Rightarrow> sandbox list \<Rightarrow> database \<Rightarrow> database \<Rightarrow> bool" where
  "settled P xs d d' \<longleftrightarrow> db_ok d' \<and> db_operations d' = db_operations d \<and>
     (\<forall>k. if k \<in> sbx_SandboxID ` set xs then \<exists>s. sandbox_Get k d' = Some s \<and> P s else sandbox_Get k d' = sandbox_Get k d)"

lemma collect_settles:
  assumes step: "\<And>w s acc. no_db_failure w \<Longrightarrow> db_ok (w_db w) \<Longrightarrow> sandbox_Get (sbx_SandboxID s) (w_db w) = Some s \<Longrightarrow>
      st s \<Longrightarrow> w_env w = e \<Longrightarrow>
      \<exists>acc' w'. run_state (f s acc) w = (acc', w') \<and> rr_Errors acc' = rr_Errors acc \<and> handles P s w w'"
    and "no_db_failure w" "db_ok (w_db w)" "w_env w = e" "distinct (map sbx_SandboxID xs)"
    and "\<And>s. s \<in> set xs \<Longrightarrow> sandbox_Get (sbx_SandboxID s) (w_db w) = Some s \<and> st s"
  shows "\<exists>acc' w'. run_state (collect xs f acc) w = (acc', w') \<and> rr_Errors acc' = rr_Errors acc \<and> w_env w' = e \<and>
    settled P xs (w_db w) (w_db w')"
  using assms(2-6)
proof (induction xs arbitrary: w acc)
  case Nil
  then show ?case by (simp add: settled_def)
next
  case (Cons s xs)
  obtain acc1 w1 where s1: "run_state (f s acc) w = (acc1, w1)" "rr_Errors acc1 = rr_Errors acc" "handles P s w w1"
    using step [OF Cons.prems(1,2), of s acc] Cons.prems(3,5) by auto
  have here: "sandbox_Get (sbx_SandboxID s) (w_db w) = Some s" using Cons.prems(5) by simp
  have w1: "w_env w1 = e" "no_db_failure w1" using s1(3) Cons.prems(1,3) by (auto simp: handles_def no_db_failure_def)
  have ok1: "db_ok (w_db w1)" and ops1: "db_operations (w_db w1) = db_operations (w_db w)"
    using s1(3) put_sandbox_ok [OF Cons.prems(2), of _ s] here Cons.prems(2) by (auto simp: handles_def)
  have get1: "sandbox_Get k (w_db w1) = sandbox_Get k (w_db w)" if "k \<noteq> sbx_SandboxID s" for k
    using s1(3) that by (auto simp: handles_def)
  have done1: "\<exists>s'. sandbox_Get (sbx_SandboxID s) (w_db w1) = Some s' \<and> P s'"
    using s1(3) here by (auto simp: handles_def)
  have "\<exists>acc' w'. run_state (collect xs f acc1) w1 = (acc', w') \<and> rr_Errors acc' = rr_Errors acc1 \<and> w_env w' = e \<and>
      settled P xs (w_db w1) (w_db w')"
  proof (rule Cons.IH [OF w1(2) ok1 w1(1)])
    fix x assume x: "x \<in> set xs"
    then have "sbx_SandboxID x \<noteq> sbx_SandboxID s" using Cons.prems(4) by (auto simp: image_iff)
    then show "sandbox_Get (sbx_SandboxID x) (w_db w1) = Some x \<and> st x" using get1 Cons.prems(5) x by simp
  qed (use Cons.prems(4) in simp)
  then obtain acc' w' where r: "run_state (collect xs f acc1) w1 = (acc', w')" "rr_Errors acc' = rr_Errors acc1" "w_env w' = e"
    "settled P xs (w_db w1) (w_db w')" by blast
  have "settled P (s # xs) (w_db w) (w_db w')"
    using r(4) ops1 get1 done1 Cons.prems(4) by (auto simp: settled_def)
  then show ?case using s1 r by simp
qed

definition none_in :: "sandbox_state set \<Rightarrow> database \<Rightarrow> bool" where
  "none_in A d \<longleftrightarrow> (\<forall>k s. sandbox_Get k d = Some s \<longrightarrow> sbx_State s \<notin> A)"

lemma listed_rows:
  assumes "db_ok d"
  shows "distinct (map sbx_SandboxID (sandbox_List (in_state st) d))"
    and "s \<in> set (sandbox_List (in_state st) d) \<longleftrightarrow> sandbox_Get (sbx_SandboxID s) d = Some s \<and> sbx_State s = st"
proof -
  have u: "distinct (map sbx_SandboxID (db_sandboxes d))"
    using assms by (simp add: db_ok_def sandboxes_ok_def unique_def)
  then have "distinct (db_sandboxes d)" "inj_on sbx_SandboxID (set (db_sandboxes d))" by (simp_all add: distinct_map)
  then show "distinct (map sbx_SandboxID (sandbox_List (in_state st) d))"
    by (auto simp: sandbox_List_def distinct_map in_state_def intro: inj_on_subset)
  show "s \<in> set (sandbox_List (in_state st) d) \<longleftrightarrow> sandbox_Get (sbx_SandboxID s) d = Some s \<and> sbx_State s = st"
    using row_find_key [OF u] row_find_Some [of sbx_SandboxID "sbx_SandboxID s" "db_sandboxes d" s]
    by (auto simp: sandbox_List_def in_state_def sandbox_Get_def)
qed

lemma settled_none:
  assumes "settled P (sandbox_List (in_state st) d) d d'" "db_ok d" "none_in A d" "\<And>s. P s \<Longrightarrow> sbx_State s \<notin> insert st A"
  shows "none_in (insert st A) d'"
  unfolding none_in_def
proof (intro allI impI)
  fix k s assume s: "sandbox_Get k d' = Some s"
  show "sbx_State s \<notin> insert st A"
  proof (cases "k \<in> sbx_SandboxID ` set (sandbox_List (in_state st) d)")
    case True
    then have "\<exists>s. sandbox_Get k d' = Some s \<and> P s" using assms(1) unfolding settled_def by meson
    then have "P s" using s by auto
    then show ?thesis by (rule assms(4))
  next
    case False
    then have "sandbox_Get k d = Some s" using s assms(1) by (auto simp: settled_def)
    with False sandbox_Get_id [OF this] show ?thesis
      using assms(3) listed_rows(2) [OF assms(2), of s st] by (auto simp: none_in_def)
  qed
qed

section \<open>The passes\<close>

lemma reconcile_state_settles:
  assumes "no_db_failure w" "db_ok (w_db w)" "isTransitional st" "none_in A (w_db w)" "A \<subseteq> {x. isTransitional x}"
  shows "\<exists>acc' w'. run_state (reconcile_state st acc) w = (acc', w') \<and> rr_Errors acc' = rr_Errors acc \<and> w_env w' = w_env w \<and>
    db_ok (w_db w') \<and> db_operations (w_db w') = db_operations (w_db w) \<and> none_in (insert st A) (w_db w')"
proof -
  let ?xs = "sandbox_List (in_state st) (w_db w)"
  have "\<exists>acc' w'. run_state (collect ?xs fix_transitional acc) (ticked w) = (acc', w') \<and> rr_Errors acc' = rr_Errors acc \<and>
      w_env w' = w_env w \<and> settled stable ?xs (w_db (ticked w)) (w_db w')"
    by (rule collect_settles [where st = "\<lambda>s. isTransitional (sbx_State s)"])
      (use assms(1-3) listed_rows in \<open>auto intro: fix_transitional_handles\<close>)
  then obtain acc' w' where r: "run_state (collect ?xs fix_transitional acc) (ticked w) = (acc', w')" "rr_Errors acc' = rr_Errors acc"
    "w_env w' = w_env w" "settled stable ?xs (w_db w) (w_db w')" by auto
  have "none_in (insert st A) (w_db w')"
    by (rule settled_none [OF r(4) assms(2,4)]) (use assms(3,5) in \<open>auto simp: stable_def\<close>)
  then show ?thesis using r assms(1) by (simp add: reconcile_state_def runs settled_def)
qed

lemma transitional_settles:
  assumes "no_db_failure w" "db_ok (w_db w)"
  shows "\<exists>acc' w'. run_state (reconcileTransitionalSandboxes acc) w = (acc', w') \<and> rr_Errors acc' = rr_Errors acc \<and>
    w_env w' = w_env w \<and> db_ok (w_db w') \<and> none_in {x. isTransitional x} (w_db w')"
proof -
  have nf: "no_db_failure w'" if "w_env w' = w_env w" for w' using assms(1) that by (simp add: no_db_failure_def)
  obtain a1 w1 where s1: "run_state (reconcile_state SandboxPending acc) w = (a1, w1)" "rr_Errors a1 = rr_Errors acc" "w_env w1 = w_env w"
    "db_ok (w_db w1)" "none_in {SandboxPending} (w_db w1)"
    using reconcile_state_settles [OF assms, of SandboxPending "{}" acc] by (auto simp: isTransitional_def none_in_def)
  obtain a2 w2 where s2: "run_state (reconcile_state SandboxStarting a1) w1 = (a2, w2)" "rr_Errors a2 = rr_Errors acc" "w_env w2 = w_env w"
    "db_ok (w_db w2)" "none_in {SandboxStarting, SandboxPending} (w_db w2)"
    using reconcile_state_settles [OF nf s1(4) _ s1(5), of SandboxStarting a1] s1 by (auto simp: isTransitional_def)
  obtain a3 w3 where s3: "run_state (reconcile_state SandboxStopping a2) w2 = (a3, w3)" "rr_Errors a3 = rr_Errors acc" "w_env w3 = w_env w"
    "db_ok (w_db w3)" "none_in {SandboxStopping, SandboxStarting, SandboxPending} (w_db w3)"
    using reconcile_state_settles [OF nf s2(4) _ s2(5), of SandboxStopping a2] s2 by (auto simp: isTransitional_def)
  have "{x. isTransitional x} = {SandboxStopping, SandboxStarting, SandboxPending}" by (auto simp: isTransitional_def)
  then show ?thesis using s1 s2 s3 by (simp add: reconcileTransitionalSandboxes_def)
qed

lemma running_settles:
  assumes "no_db_failure w" "db_ok (w_db w)" "none_in {x. isTransitional x} (w_db w)"
  shows "\<exists>acc' w'. run_state (reconcileRunningSandboxes acc) w = (acc', w') \<and> rr_Errors acc' = rr_Errors acc \<and>
    db_operations (w_db w') = db_operations (w_db w) \<and> (\<forall>k s. sandbox_Get k (w_db w') = Some s \<longrightarrow> reported (w_env w) s)"
proof -
  let ?xs = "sandbox_List (in_state SandboxRunning) (w_db w)"
  have "\<exists>acc' w'. run_state (collect ?xs fix_drift acc) (ticked w) = (acc', w') \<and> rr_Errors acc' = rr_Errors acc \<and>
      w_env w' = w_env w \<and> settled (reported (w_env w)) ?xs (w_db (ticked w)) (w_db w')"
  proof (rule collect_settles [where st = "\<lambda>s. sbx_State s = SandboxRunning"])
    show "\<exists>acc' w'. run_state (fix_drift s acc) v = (acc', w') \<and> rr_Errors acc' = rr_Errors acc \<and> handles (reported (w_env w)) s v w'"
      if "no_db_failure v" "db_ok (w_db v)" "sandbox_Get (sbx_SandboxID s) (w_db v) = Some s" "sbx_State s = SandboxRunning"
        "w_env v = w_env w" for v s acc
      using fix_drift_handles [OF that(1-4)] that(5) by simp
  qed (use assms(1,2) listed_rows in auto)
  then obtain acc' w' where r: "run_state (collect ?xs fix_drift acc) (ticked w) = (acc', w')" "rr_Errors acc' = rr_Errors acc"
    "settled (reported (w_env w)) ?xs (w_db w) (w_db w')" by auto
  have "reported (w_env w) s" if s: "sandbox_Get k (w_db w') = Some s" for k s
  proof (cases "k \<in> sbx_SandboxID ` set ?xs")
    case True
    then have "\<exists>s. sandbox_Get k (w_db w') = Some s \<and> reported (w_env w) s" using r(3) unfolding settled_def by meson
    then show ?thesis using s by auto
  next
    case False
    then have "sandbox_Get k (w_db w) = Some s" using s r(3) by (auto simp: settled_def)
    then show ?thesis using assms(3) by (auto simp: none_in_def reported_def stable_def)
  qed
  then show ?thesis using r assms(1) by (simp add: reconcileRunningSandboxes_def runs settled_def)
qed

section \<open>The operations\<close>

definition no_op_in :: "operation_state set \<Rightarrow> database \<Rightarrow> bool" where
  "no_op_in A d \<longleftrightarrow> (\<forall>k p. operation_Get k d = Some p \<longrightarrow> op_State p \<notin> A)"

lemma fail_stale_run:
  assumes "no_db_failure w" "operation_Get (op_OperationID p) (w_db w) = Some p"
  shows "\<exists>acc' w'. run_state (fail_stale t msg p acc) w = (acc', w') \<and> rr_Errors acc' = rr_Errors acc \<and> w_env w' = w_env w \<and>
    db_sandboxes (w_db w') = db_sandboxes (w_db w) \<and>
    (\<forall>k. operation_Get k (w_db w') = (if k = op_OperationID p then map_option (\<lambda>_. merged_operation p
       (p\<lparr>op_State := OpFailed, op_FinishedAt := Some t, op_Error := Some (Opaque msg)\<rparr>)) (operation_Get k (w_db w))
       else operation_Get k (w_db w)))"
proof -
  let ?p = "p\<lparr>op_State := OpFailed, op_FinishedAt := Some t, op_Error := Some (Opaque msg)\<rparr>"
  obtain d' where u: "operation_Update ?p (w_db w) = Inr d'"
    using operation_Update_found [of ?p "w_db w" p] assms(2) by auto
  have "db_sandboxes d' = db_sandboxes (w_db w)" using u by (auto simp: operation_Update_def)
  then show ?thesis using assms u opers.put_look [OF u] by (simp add: fail_stale_def runs)
qed

lemma collect_stale:
  assumes "no_db_failure w" "distinct (map op_OperationID ps)" "\<And>p. p \<in> set ps \<Longrightarrow> operation_Get (op_OperationID p) (w_db w) = Some p"
  shows "\<exists>acc' w'. run_state (collect ps (fail_stale t msg) acc) w = (acc', w') \<and> rr_Errors acc' = rr_Errors acc \<and> w_env w' = w_env w \<and>
    db_sandboxes (w_db w') = db_sandboxes (w_db w) \<and>
    (\<forall>k. if k \<in> op_OperationID ` set ps then \<exists>p. operation_Get k (w_db w') = Some p \<and> op_State p = OpFailed
      else operation_Get k (w_db w') = operation_Get k (w_db w))"
  using assms
proof (induction ps arbitrary: w acc)
  case Nil
  then show ?case by simp
next
  case (Cons p ps)
  obtain a1 w1 where s1: "run_state (fail_stale t msg p acc) w = (a1, w1)" "rr_Errors a1 = rr_Errors acc" "w_env w1 = w_env w"
    "db_sandboxes (w_db w1) = db_sandboxes (w_db w)"
    and get1: "\<And>k. operation_Get k (w_db w1) = (if k = op_OperationID p then map_option (\<lambda>_. merged_operation p
       (p\<lparr>op_State := OpFailed, op_FinishedAt := Some t, op_Error := Some (Opaque msg)\<rparr>)) (operation_Get k (w_db w))
       else operation_Get k (w_db w))"
    using fail_stale_run [OF Cons.prems(1), of p t msg acc] Cons.prems(3) by auto
  have "\<exists>acc' w'. run_state (collect ps (fail_stale t msg) a1) w1 = (acc', w') \<and> rr_Errors acc' = rr_Errors a1 \<and> w_env w' = w_env w1 \<and>
      db_sandboxes (w_db w') = db_sandboxes (w_db w1) \<and>
      (\<forall>k. if k \<in> op_OperationID ` set ps then \<exists>p. operation_Get k (w_db w') = Some p \<and> op_State p = OpFailed
        else operation_Get k (w_db w') = operation_Get k (w_db w1))"
  proof (rule Cons.IH)
    fix x assume x: "x \<in> set ps"
    then have "op_OperationID x \<noteq> op_OperationID p" using Cons.prems(2) by (auto simp: image_iff)
    then show "operation_Get (op_OperationID x) (w_db w1) = Some x" using get1 Cons.prems(3) x by simp
  qed (use Cons.prems s1(3) in \<open>simp_all add: no_db_failure_def\<close>)
  then obtain a2 w2 where s2: "run_state (collect ps (fail_stale t msg) a1) w1 = (a2, w2)" "rr_Errors a2 = rr_Errors a1"
    "w_env w2 = w_env w1" "db_sandboxes (w_db w2) = db_sandboxes (w_db w1)"
    and get2: "\<And>k. if k \<in> op_OperationID ` set ps then \<exists>p. operation_Get k (w_db w2) = Some p \<and> op_State p = OpFailed
        else operation_Get k (w_db w2) = operation_Get k (w_db w1)" by blast
  have "if k \<in> op_OperationID ` set (p # ps) then \<exists>p. operation_Get k (w_db w2) = Some p \<and> op_State p = OpFailed
      else operation_Get k (w_db w2) = operation_Get k (w_db w)" for k
    using get2 [of k] get1 [of k] Cons.prems(3) [of p] by (auto simp: merged_operation_def split: if_splits)
  then show ?case using s1 s2 by simp
qed

lemma listed_operations:
  assumes "distinct (map op_OperationID (db_operations d))"
  shows "distinct (map op_OperationID (operation_ListByState st d))"
    and "p \<in> set (operation_ListByState st d) \<longleftrightarrow> operation_Get (op_OperationID p) d = Some p \<and> op_State p = st"
proof -
  have "distinct (db_operations d)" "inj_on op_OperationID (set (db_operations d))" using assms by (simp_all add: distinct_map)
  then show "distinct (map op_OperationID (operation_ListByState st d))"
    by (auto simp: operation_ListByState_def distinct_map intro: inj_on_subset)
  show "p \<in> set (operation_ListByState st d) \<longleftrightarrow> operation_Get (op_OperationID p) d = Some p \<and> op_State p = st"
    using row_find_key [OF assms] row_find_Some [of op_OperationID "op_OperationID p" "db_operations d" p]
    by (auto simp: operation_ListByState_def operation_Get_def)
qed

text \<open>One of the two loops over the operations: it fails all operations in its state.\<close>

lemma fail_all_run:
  assumes "no_db_failure w" "db_ok (w_db w)" "no_op_in A (w_db w)" "OpFailed \<notin> insert st A"
  shows "\<exists>acc' w'. run_state (collect (operation_ListByState st (w_db w)) (fail_stale t msg) acc) w = (acc', w') \<and>
    rr_Errors acc' = rr_Errors acc \<and> w_env w' = w_env w \<and> db_ok (w_db w') \<and>
    db_sandboxes (w_db w') = db_sandboxes (w_db w) \<and> no_op_in (insert st A) (w_db w')"
proof -
  let ?ps = "operation_ListByState st (w_db w)"
  have d: "distinct (map op_OperationID (db_operations (w_db w)))"
    using assms(2) by (simp add: db_ok_def operations_ok_def unique_def)
  obtain acc' w' where r: "run_state (collect ?ps (fail_stale t msg) acc) w = (acc', w')" "rr_Errors acc' = rr_Errors acc"
    "w_env w' = w_env w" "db_sandboxes (w_db w') = db_sandboxes (w_db w)"
    and get: "\<And>k. if k \<in> op_OperationID ` set ?ps then \<exists>p. operation_Get k (w_db w') = Some p \<and> op_State p = OpFailed
      else operation_Get k (w_db w') = operation_Get k (w_db w)"
    using collect_stale [OF assms(1) listed_operations(1) [OF d], of st t msg acc] listed_operations(2) [OF d] by blast
  have "keeps (db db_ok) (collect ?ps (fail_stale t msg) acc)" unfolding fail_stale_def by (intro pres)
  from keepsD [OF this, of w] have ok: "db_ok (w_db w')" using assms(2) r(1) by (simp add: dt_def)
  have "op_State p \<notin> insert st A" if p: "operation_Get k (w_db w') = Some p" for k p
  proof (cases "k \<in> op_OperationID ` set ?ps")
    case True
    then show ?thesis using p get [of k] assms(4) by auto
  next
    case False
    then have old: "operation_Get k (w_db w) = Some p" using p get [of k] by simp
    then have "op_State p \<noteq> st" using False operation_Get_id [OF old] listed_operations(2) [OF d, of p st] by auto
    then show ?thesis using old assms(3) by (auto simp: no_op_in_def)
  qed
  then show ?thesis using r ok by (auto simp: no_op_in_def)
qed

lemma none_in_cong: "db_sandboxes d' = db_sandboxes d \<Longrightarrow> none_in A d' = none_in A d"
  by (simp add: none_in_def sandbox_Get_def)

lemma stale_settles:
  assumes "no_db_failure w" "db_ok (w_db w)"
  shows "\<exists>acc' w'. run_state (reconcileStaleOperations acc) w = (acc', w') \<and> rr_Errors acc' = rr_Errors acc \<and>
    w_env w' = w_env w \<and> db_ok (w_db w') \<and> db_sandboxes (w_db w') = db_sandboxes (w_db w) \<and> no_op_in {OpRunning, OpPending} (w_db w')"
proof -
  have nf: "no_db_failure w'" if "w_env w' = w_env w" for w' using assms(1) that by (simp add: no_db_failure_def)
  let ?w = "ticked (ticked w)" and ?t = "utc (env_now (w_env w) (Suc (w_tick w)))"
  have pre: "no_db_failure ?w" "db_ok (w_db ?w)" "no_op_in {} (w_db ?w)" using assms by (simp_all add: no_op_in_def)
  obtain a1 w1 where s1: "run_state (collect (operation_ListByState OpRunning (w_db w))
        (fail_stale ?t ''operation was in-flight during daemon restart'') acc) ?w = (a1, w1)"
    "rr_Errors a1 = rr_Errors acc" "w_env w1 = w_env w" "db_ok (w_db w1)" "db_sandboxes (w_db w1) = db_sandboxes (w_db w)"
    "no_op_in {OpRunning} (w_db w1)"
    using fail_all_run [OF pre, of OpRunning ?t "''operation was in-flight during daemon restart''" acc] by auto
  have pre1: "no_db_failure (ticked w1)" "db_ok (w_db (ticked w1))" "no_op_in {OpRunning} (w_db (ticked w1))"
    using s1 nf [of w1] by simp_all
  obtain a2 w2 where s2: "run_state (collect (operation_ListByState OpPending (w_db w1))
        (fail_stale ?t ''operation was pending during daemon restart'') a1) (ticked w1) = (a2, w2)"
    "rr_Errors a2 = rr_Errors a1" "w_env w2 = w_env w1" "db_ok (w_db w2)" "db_sandboxes (w_db w2) = db_sandboxes (w_db w1)"
    "no_op_in {OpPending, OpRunning} (w_db w2)"
    using fail_all_run [OF pre1, of OpPending ?t "''operation was pending during daemon restart''" a1] by auto
  show ?thesis
    using s1 s2 nf [of w1] assms(1) by (simp add: reconcileStaleOperations_def runs insert_commute)
qed

section \<open>Properties\<close>

text \<open>
  C10: after the reconciliation of a start during which no database call fails, no operation is
  pending or running any more, no error is reported, and no sandbox is in a transitional state
  (pending, starting, stopping) unless the backend itself reported that state for it.
\<close>

theorem reconciliation_settles:
  assumes "db_ok (w_db w)" "no_db_failure w" "run_state Reconciler_Run w = (res, w')"
  shows "rr_Errors res = [] \<and>
    (\<forall>p\<in>set (db_operations (w_db w')). op_State p \<noteq> OpPending \<and> op_State p \<noteq> OpRunning) \<and>
    (\<forall>s\<in>set (db_sandboxes (w_db w')). isTransitional (sbx_State s) \<longrightarrow>
       (\<exists>n. pv_GetSandboxState (env_provider (w_env w)) n (sbx_ref s) = Inr (sbx_State s)))"
proof -
  let ?r = "\<lparr>rr_TransitionalFixed = 0, rr_StaleOpsFailed = 0, rr_DriftFixed = 0, rr_Errors = []\<rparr>"
  have nf: "no_db_failure w'" if "w_env w' = w_env w" for w' using assms(2) that by (simp add: no_db_failure_def)
  obtain a1 w1 where s1: "run_state (reconcileTransitionalSandboxes ?r) w = (a1, w1)" "rr_Errors a1 = []" "w_env w1 = w_env w"
    "db_ok (w_db w1)" "none_in {x. isTransitional x} (w_db w1)"
    using transitional_settles [OF assms(2,1), of ?r] by auto
  obtain a2 w2 where s2: "run_state (reconcileStaleOperations a1) w1 = (a2, w2)" "rr_Errors a2 = []" "w_env w2 = w_env w"
    "db_ok (w_db w2)" "db_sandboxes (w_db w2) = db_sandboxes (w_db w1)" "no_op_in {OpRunning, OpPending} (w_db w2)"
    using stale_settles [OF nf [OF s1(3)] s1(4), of a1] s1(2,3) by auto
  have n2: "none_in {x. isTransitional x} (w_db w2)" using s1(5) none_in_cong [OF s2(5)] by simp
  obtain a3 w3 where s3: "run_state (reconcileRunningSandboxes a2) w2 = (a3, w3)" "rr_Errors a3 = []"
    "db_operations (w_db w3) = db_operations (w_db w2)" "\<And>k s. sandbox_Get k (w_db w3) = Some s \<Longrightarrow> reported (w_env w) s"
    using running_settles [OF nf [OF s2(3)] s2(4) n2, of a2] s2(2,3) by auto
  have res: "res = a3" "w' = w3" using assms(3) s1 s2 s3 by (simp_all add: Reconciler_Run_def)
  have ok: "db_ok (w_db w')"
    using keepsD [OF keeps_Reconcile, of w] assms(1,3) by (simp add: dt_def)
  have "op_State p \<noteq> OpPending \<and> op_State p \<noteq> OpRunning" if "p \<in> set (db_operations (w_db w'))" for p
  proof -
    have "operation_Get (op_OperationID p) (w_db w') = Some p"
      using ok that by (auto simp: operation_Get_def db_ok_def operations_ok_def unique_def intro: row_find_key)
    then show ?thesis using s2(6) s3(3) res by (auto simp: no_op_in_def operation_Get_def)
  qed
  moreover have "\<exists>n. pv_GetSandboxState (env_provider (w_env w)) n (sbx_ref s) = Inr (sbx_State s)"
    if "s \<in> set (db_sandboxes (w_db w'))" "isTransitional (sbx_State s)" for s
  proof -
    have "sandbox_Get (sbx_SandboxID s) (w_db w') = Some s"
      using ok that by (auto simp: sandbox_Get_def db_ok_def sandboxes_ok_def unique_def intro: row_find_key)
    then show ?thesis using s3(4) [of _ s] that(2) res by (auto simp: reported_def stable_def)
  qed
  ultimately show ?thesis using res s3 by simp
qed

lemma demo_busy_ok: "db_ok (w_db demo_busy)" "no_db_failure demo_busy"
  by (simp_all add: demo_busy_def demo_operation_def db_ok_def table_ok unique_def refers_def demo_defs no_db_failure_def)

lemma reconciliation_settles_witness:
  "case run_state Reconciler_Run demo_busy of (res, w') \<Rightarrow> rr_Errors res = [] \<and>
     (\<forall>p\<in>set (db_operations (w_db w')). op_State p \<noteq> OpPending \<and> op_State p \<noteq> OpRunning)"
proof -
  obtain res w' where run: "run_state Reconciler_Run demo_busy = (res, w')" by fastforce
  from reconciliation_settles [OF demo_busy_ok run] show ?thesis by (simp only: run prod.case) blast
qed

text \<open>A backend that is just stopping the sandbox when it is asked.\<close>

definition stopping_world :: world where
  "stopping_world = (demo_world (two_sandboxes SandboxRunning SandboxStopped))\<lparr>w_env := demo_env\<lparr>env_provider :=
     demo_provider\<lparr>pv_GetSandboxState := \<lambda>_ _. Inr SandboxStopping\<rparr>\<rparr>\<rparr>"

text \<open>
  The exception of the reconciliation is real: a sandbox recorded as running whose backend
  reports that it is stopping is left in the transitional state stopping, in which neither
  start nor stop is allowed, although nothing is stopping it.
\<close>

theorem reconciliation_can_leave_stopping:
  "map_option sbx_State (sandbox_Get ''a'' (w_db (snd (run_state Reconciler_Run stopping_world)))) = Some SandboxStopping"
  by (simp add: stopping_world_def reconcile_defs demo_defs demo_env_def demo_provider_def runs in_state_def
      sandbox_List_def order_by_def operation_ListByState_def restore_state_def with_state_def sandbox_Update_def
      row_update_def store_rows_def row_find_def sandbox_clash_def merged_sandbox_def upd_where_def sandbox_Get_def sbx_ref_def)

end
