(* ===== verification/GoText.thy ===== *)
theory GoText imports GoTime begin

text \<open>
  The parts of Go's \<open>strconv\<close>, \<open>strings\<close> and \<open>encoding/base64\<close> that the program's wire formats
  rest on: decimal texts and their parser, \<open>strings.Split\<close>, prefixes, and the unpadded URL
  alphabet of base64.  Texts are byte lists.  Each printer comes with the lemma that its
  parser reads back what it wrote.
\<close>

section \<open>Decimal texts\<close>

fun dec :: "nat \<Rightarrow> string" where
  "dec n = (if n < 10 then [digit (int n)] else dec (n div 10) @ [digit (int (n mod 10))])"

declare dec.simps [simp del]

definition itoa :: "int \<Rightarrow> string" where
  "itoa i = (if i < 0 then CHR ''-'' # dec (nat (- i)) else dec (nat i))"

fun digit_value :: "char \<Rightarrow> nat option" where
  "digit_value c = (let v = (of_char c :: nat) in if 48 \<le> v \<and> v \<le> 57 then Some (v - 48) else None)"

fun parse_digits :: "nat \<Rightarrow> string \<Rightarrow> nat option" where
  "parse_digits acc [] = Some acc"
| "parse_digits acc (c # cs) = (case digit_value c of None \<Rightarrow> None | Some v \<Rightarrow> parse_digits (10 * acc + v) cs)"

text \<open>\<open>strconv.ParseInt(s, 10, 64)\<close>: an empty text, a stray character and a value outside int64 are errors.\<close>

definition parse_int :: "string \<Rightarrow> int option" where
  "parse_int s = (case s of [] \<Rightarrow> None | c # cs \<Rightarrow>
     let neg = (c = CHR ''-''); ds = (if c = CHR ''-'' \<or> c = CHR ''+'' then cs else s) in
     if ds = [] then None
     else (case parse_digits 0 ds of None \<Rightarrow> None | Some n \<Rightarrow>
       let v = (if neg then - int n else int n) in
       if - (2 ^ 63) \<le> v \<and> v < 2 ^ 63 then Some v else None))"

lemma digit_value_digit: "n < 10 \<Longrightarrow> digit_value (digit (int n)) = Some n"
  by (auto simp: digit_def Let_def nat_add_distrib)

lemma parse_digits_append:
  "parse_digits acc (xs @ ys) = (case parse_digits acc xs of None \<Rightarrow> None | Some a \<Rightarrow> parse_digits a ys)"
  by (induction acc xs rule: parse_digits.induct) (auto split: option.splits)

lemma parse_digits_dec: "parse_digits 0 (dec n) = Some n"
proof (induction n rule: dec.induct)
  case (1 n)
  show ?case
  proof (cases "n < 10")
    case True
    then show ?thesis using digit_value_digit [of n] by (simp add: dec.simps [of n])
  next
    case False
    have "digit_value (digit (int (n mod 10))) = Some (n mod 10)" by (rule digit_value_digit) simp
    then show ?thesis using 1 [OF False] False by (simp add: dec.simps [of n] parse_digits_append)
  qed
qed

lemma dec_digits: "c \<in> set (dec n) \<Longrightarrow> \<exists>v<10. c = digit (int v)"
proof (induction n rule: dec.induct)
  case (1 n)
  have "\<exists>v<10. digit (int (n mod 10)) = digit (int v)" by (intro exI [of _ "n mod 10"]) simp
  then show ?case using 1 by (cases "n < 10") (auto simp: dec.simps [of n])
qed

lemma dec_nonempty [simp]: "dec n \<noteq> []"
  by (simp add: dec.simps [of n])

lemma of_char_digit: "v < 10 \<Longrightarrow> of_char (digit (int v)) = 48 + v"
  by (simp add: digit_def nat_add_distrib take_bit_nat_eq_self)

lemma digit_not_sign: "v < 10 \<Longrightarrow> digit (int v) \<notin> {CHR ''-'', CHR ''+'', CHR ''|'', CHR ''.''}"
  using of_char_digit [of v] by (auto dest!: arg_cong [of "digit (int v)" _ "of_char :: char \<Rightarrow> nat"])

lemma dec_plain: "c \<in> set (dec n) \<Longrightarrow> c \<notin> {CHR ''-'', CHR ''+'', CHR ''|'', CHR ''.''}"
  using dec_digits digit_not_sign by fastforce

lemma itoa_plain: "CHR ''|'' \<notin> set (itoa i)" "CHR ''.'' \<notin> set (itoa i)"
  using dec_plain by (auto simp: itoa_def)

lemma parse_int_itoa: "- (2 ^ 63) \<le> i \<Longrightarrow> i < 2 ^ 63 \<Longrightarrow> parse_int (itoa i) = Some i"
proof (cases "i < 0")
  case False
  assume r: "- (2 ^ 63) \<le> i" "i < 2 ^ 63"
  obtain c cs where d: "dec (nat i) = c # cs" by (cases "dec (nat i)") auto
  then have "c \<notin> {CHR ''-'', CHR ''+''}" using dec_plain [of c "nat i"] by auto
  then show ?thesis using parse_digits_dec [of "nat i"] d False r by (simp add: parse_int_def itoa_def Let_def)
qed (simp add: parse_int_def itoa_def parse_digits_dec Let_def)

section \<open>Splitting and prefixes\<close>

fun split_on :: "char \<Rightarrow> string \<Rightarrow> string list" where
  "split_on c [] = [[]]"
| "split_on c (x # xs) = (if x = c then [] # split_on c xs
     else (case split_on c xs of [] \<Rightarrow> [[x]] | y # ys \<Rightarrow> (x # y) # ys))"

lemma split_on_nonempty [simp]: "split_on c xs \<noteq> []"
  by (induction xs) (auto split: list.splits)

lemma split_on_plain: "c \<notin> set xs \<Longrightarrow> split_on c xs = [xs]"
  by (induction xs) auto

lemma split_on_two: "c \<notin> set xs \<Longrightarrow> split_on c (xs @ c # ys) = xs # split_on c ys"
  by (induction xs) auto

definition HasPrefix :: "string \<Rightarrow> string \<Rightarrow> bool" where
  "HasPrefix s p \<longleftrightarrow> take (length p) s = p"

definition HasSuffix :: "string \<Rightarrow> string \<Rightarrow> bool" where
  "HasSuffix s p \<longleftrightarrow> length p \<le> length s \<and> drop (length s - length p) s = p"

definition TrimPrefix :: "string \<Rightarrow> string \<Rightarrow> string" where
  "TrimPrefix s p = (if HasPrefix s p then drop (length p) s else s)"

definition is_space :: "char \<Rightarrow> bool" where  \<comment> \<open>the ASCII spaces of \<open>unicode.IsSpace\<close>\<close>
  "is_space c \<longleftrightarrow> (let v = (of_char c :: nat) in 9 \<le> v \<and> v \<le> 13 \<or> v = 32)"

definition TrimSpace :: "string \<Rightarrow> string" where
  "TrimSpace s = rev (dropWhile is_space (rev (dropWhile is_space s)))"

lemma HasPrefix_append [simp]: "HasPrefix (p @ s) p" "TrimPrefix (p @ s) p = s"
  by (simp_all add: HasPrefix_def TrimPrefix_def)

section \<open>Unpadded URL base64\<close>

definition b64_char :: "nat \<Rightarrow> char" where
  "b64_char v = (if v < 26 then char_of (65 + v) else if v < 52 then char_of (71 + v)
     else if v < 62 then char_of (v - 4) else if v = 62 then CHR ''-'' else CHR ''_'')"

definition b64_value :: "char \<Rightarrow> nat option" where
  "b64_value c = (let v = (of_char c :: nat) in
     if 65 \<le> v \<and> v \<le> 90 then Some (v - 65) else if 97 \<le> v \<and> v \<le> 122 then Some (v - 71)
     else if 48 \<le> v \<and> v \<le> 57 then Some (v + 4) else if c = CHR ''-'' then Some 62
     else if c = CHR ''_'' then Some 63 else None)"

fun b64_sextets :: "nat list \<Rightarrow> nat list" where
  "b64_sextets [] = []"
| "b64_sextets [a] = [a div 4, a mod 4 * 16]"
| "b64_sextets [a, b] = [a div 4, a mod 4 * 16 + b div 16, b mod 16 * 4]"
| "b64_sextets (a # b # c # rest) =
     [a div 4, a mod 4 * 16 + b div 16, b mod 16 * 4 + c div 64, c mod 64] @ b64_sextets rest"

fun b64_bytes :: "nat list \<Rightarrow> nat list option" where
  "b64_bytes [] = Some []"
| "b64_bytes [p] = None"
| "b64_bytes [p, q] = Some [p * 4 + q div 16]"
| "b64_bytes [p, q, r] = Some [p * 4 + q div 16, q mod 16 * 16 + r div 4]"
| "b64_bytes (p # q # r # s # rest) =
     map_option (\<lambda>bs. (p * 4 + q div 16) # (q mod 16 * 16 + r div 4) # (r mod 4 * 64 + s) # bs) (b64_bytes rest)"

definition b64_encode :: "string \<Rightarrow> string" where
  "b64_encode s = map b64_char (b64_sextets (map of_char s))"

text \<open>\<open>DecodeString\<close> skips line ends wherever they stand.\<close>

definition b64_decode :: "string \<Rightarrow> string option" where
  "b64_decode s = (let cs = filter (\<lambda>c. c \<noteq> char_of (10::nat) \<and> c \<noteq> char_of (13::nat)) s;
       vs = map b64_value cs in
     if None \<in> set vs then None else map_option (map char_of) (b64_bytes (map the vs)))"

lemma b64_value_char: "v < 64 \<Longrightarrow> b64_value (b64_char v) = Some v"
proof -
  assume "v < 64"
  then consider "v < 26" | "26 \<le> v" "v < 52" | "52 \<le> v" "v < 62" | "v = 62" | "v = 63" by linarith
  then show ?thesis by cases (auto simp: b64_value_def b64_char_def Let_def)
qed

lemma b64_char_plain:
  assumes "v < 64" shows "b64_char v \<notin> {char_of (10::nat), char_of (13::nat), CHR ''.''}"
proof -
  have "of_char (b64_char v) \<notin> {10, 13, 46 :: nat}"
    using assms by (auto simp: b64_char_def take_bit_nat_eq_self)
  then show ?thesis by (auto simp: take_bit_nat_eq_self)
qed

lemma b64_sextets_bound: "\<forall>b\<in>set bs. b < 256 \<Longrightarrow> v \<in> set (b64_sextets bs) \<Longrightarrow> v < 64"
  by (induction bs rule: b64_sextets.induct) auto

lemma b64_bytes_sextets: "\<forall>b\<in>set bs. b < 256 \<Longrightarrow> b64_bytes (b64_sextets bs) = Some bs"
  by (induction bs rule: b64_sextets.induct) (auto simp: div_mult2_eq [symmetric])

lemma of_char_bound: "(of_char c :: nat) < 256"
  using nat_of_char_less_256 by simp

lemma b64_encode_plain: "c \<in> set (b64_encode s) \<Longrightarrow> c \<notin> {char_of (10::nat), char_of (13::nat), CHR ''.''}"
proof -
  assume "c \<in> set (b64_encode s)"
  then obtain v where "v \<in> set (b64_sextets (map of_char s))" "c = b64_char v" by (auto simp: b64_encode_def)
  then show ?thesis using b64_char_plain b64_sextets_bound [of "map of_char s" v] of_char_bound by auto
qed

lemma b64_encode_empty [simp]: "b64_encode s = [] \<longleftrightarrow> s = []"
  by (cases "map (of_char :: char \<Rightarrow> nat) s" rule: b64_sextets.cases) (auto simp: b64_encode_def)

lemma b64_round: "b64_decode (b64_encode s) = Some s"
proof -
  let ?vs = "b64_sextets (map of_char s)"
  have b: "v < 64" if "v \<in> set ?vs" for v using b64_sextets_bound [OF _ that] of_char_bound by auto
  have "filter (\<lambda>c. c \<noteq> char_of (10::nat) \<and> c \<noteq> char_of (13::nat)) (b64_encode s) = b64_encode s"
    using b64_encode_plain by (intro filter_True) blast
  moreover have "map b64_value (b64_encode s) = map Some ?vs"
    unfolding b64_encode_def using b b64_value_char by simp
  moreover have "b64_bytes ?vs = Some (map of_char s)" using of_char_bound by (intro b64_bytes_sextets) auto
  moreover have "None \<notin> set (map b64_value (b64_encode s))" unfolding calculation(2) by simp
  ultimately show ?thesis by (simp only: b64_decode_def Let_def) (simp add: o_def)
qed

end
