(* ===== verification/Network.thy ===== *)
theory Network imports GoText Domain begin

text \<open>
  The allocators of the Firecracker provider (\<open>network/allocator.go\<close>, \<open>network/port_allocator.go\<close>,
  \<open>jailer/jailer.go\<close>) and the small pure parts of its network code: the address plan of the
  /30 subnets, the tap names, the iptables rules of a published port, and the environment
  handed to child processes.  A Go \<open>map[int]bool\<close> of used ids is the set of its keys.  What the
  provider relies on is the locale \<open>id_source\<close>: an allocator hands out an id that is not in use.
  Each method takes its own mutex for its whole body, so methods are atomic.
\<close>

unbundle bit_operations_syntax

section \<open>Subnet indices\<close>

record allocator =
  al_next :: int
  al_inUse :: "int set"

definition NewAllocator :: allocator where
  "NewAllocator = \<lparr>al_next = 0, al_inUse = {}\<rparr>"

definition al_InitPast :: "int \<Rightarrow> allocator \<Rightarrow> allocator" where
  "al_InitPast idx a = (if al_next a \<le> idx then a\<lparr>al_next := idx + 1\<rparr> else a)"

definition al_Allocate :: "allocator \<Rightarrow> int \<times> allocator" where
  "al_Allocate a = (let idx = al_next a in
     (idx, a\<lparr>al_next := al_next a + 1, al_inUse := insert idx (al_inUse a)\<rparr>))"

definition al_Release :: "int \<Rightarrow> allocator \<Rightarrow> allocator" where
  "al_Release idx a = a\<lparr>al_inUse := al_inUse a - {idx}\<rparr>"

definition al_Reserve :: "int \<Rightarrow> allocator \<Rightarrow> allocator" where
  "al_Reserve idx a = (let b = a\<lparr>al_inUse := insert idx (al_inUse a)\<rparr> in
     if al_next b \<le> idx then b\<lparr>al_next := idx + 1\<rparr> else b)"

definition al_InUse :: "int \<Rightarrow> allocator \<Rightarrow> bool" where
  "al_InUse idx a \<longleftrightarrow> idx \<in> al_inUse a"

section \<open>Addresses\<close>

type_synonym ip4 = "8 word \<times> 8 word \<times> 8 word \<times> 8 word"

text \<open>\<open>byte(offset>>8)\<close> and \<open>byte(offset&0xFF)\<close> keep the low eight bits.\<close>

definition base_ip :: "int \<Rightarrow> ip4" where
  "base_ip idx = (let offset = wrap64 (idx * 4) in
     (172, 26, word_of_int (drop_bit 8 offset), word_of_int (offset AND 0xFF)))"

definition HostIP :: "int \<Rightarrow> ip4" where
  "HostIP idx = (case base_ip idx of (a, b, c, d) \<Rightarrow> (a, b, c, d + 1))"

definition GuestIP :: "int \<Rightarrow> ip4" where
  "GuestIP idx = (case base_ip idx of (a, b, c, d) \<Rightarrow> (a, b, c, d + 2))"

definition Mask :: ip4 where  \<comment> \<open>\<open>net.CIDRMask(30, 32)\<close>\<close>
  "Mask = (255, 255, 255, 252)"

fun ip_String :: "ip4 \<Rightarrow> string" where
  "ip_String (a, b, c, d) = dec (unat a) @ ''.'' @ dec (unat b) @ ''.'' @ dec (unat c) @ ''.'' @ dec (unat d)"

definition KernelBootArg :: "int \<Rightarrow> string" where
  "KernelBootArg idx = ''ip='' @ ip_String (GuestIP idx) @ ''::'' @ ip_String (HostIP idx) @ '':'' @
     ip_String Mask @ ''::eth0:off''"

lemma boot_arg_0: "KernelBootArg 0 = ''ip=172.26.0.2::172.26.0.1:255.255.255.252::eth0:off''"
  by code_simp

section \<open>Published ports\<close>

definition portMin :: int where "portMin = 40000"
definition portMax :: int where "portMax = 49999"

record port_allocator =
  pa_used :: "int set"
  pa_next :: int

definition NewPortAllocator :: port_allocator where
  "NewPortAllocator = \<lparr>pa_used = {}, pa_next = portMin\<rparr>"

text \<open>
  The scan of \<open>Allocate\<close>, with what it returns and the \<open>next\<close> it leaves.  The Go loop has no
  bound of its own, so it is a partial function here and its termination is a theorem.
\<close>

partial_function (option) pa_scan :: "int set \<Rightarrow> int \<Rightarrow> int \<Rightarrow> (int option \<times> int) option" where
  "pa_scan used start next =
     (if next \<notin> used then Some (Some next, next + 1)
      else (let n = (if next + 1 > portMax then portMin else next + 1) in
        if n = start then Some (None, n) else pa_scan used start n))"

declare pa_scan.simps [code]

definition scan_start :: "port_allocator \<Rightarrow> int" where  \<comment> \<open>\<open>next\<close>, normalised\<close>
  "scan_start a = (if pa_next a > portMax then portMin else pa_next a)"

definition pa_Allocate :: "port_allocator \<Rightarrow> (int res \<times> port_allocator) option" where
  "pa_Allocate a = (let start = scan_start a in
     case pa_scan (pa_used a) start start of
       None \<Rightarrow> None
     | Some (None, n) \<Rightarrow> Some (Inl (Sentinel ErrCapacityExceeded), a\<lparr>pa_next := n\<rparr>)
     | Some (Some p, n) \<Rightarrow> Some (Inr p, a\<lparr>pa_used := insert p (pa_used a), pa_next := n\<rparr>))"

definition pa_Release :: "int \<Rightarrow> port_allocator \<Rightarrow> port_allocator" where
  "pa_Release port a = a\<lparr>pa_used := pa_used a - {port}\<rparr>"

definition pa_MarkUsed :: "int \<Rightarrow> port_allocator \<Rightarrow> port_allocator" where
  "pa_MarkUsed port a = a\<lparr>pa_used := insert port (pa_used a)\<rparr>"

definition pa_InUse :: "int \<Rightarrow> port_allocator \<Rightarrow> bool" where
  "pa_InUse port a \<longleftrightarrow> port \<in> pa_used a"

section \<open>Jailer uids\<close>

definition uid_InitPast :: "int \<Rightarrow> int \<Rightarrow> int" where
  "uid_InitPast uid next = (if next \<le> uid then uid + 1 else next)"

definition uid_Allocate :: "int \<Rightarrow> int \<times> int" where
  "uid_Allocate next = (next, next + 1)"

section \<open>Taps, rules and the environment of child processes\<close>

definition TapName :: "string \<Rightarrow> string" where
  "TapName vmID = (if HasPrefix vmID ''nvrs-'' then drop (length ''nvrs-'') vmID
     else ''fc-'' @ (if length vmID > 8 then drop (length vmID - 8) vmID else vmID))"

definition dnat_rules :: "string \<Rightarrow> int \<Rightarrow> string \<Rightarrow> int \<Rightarrow> string list list" where
  "dnat_rules op hostPort guestIP targetPort = (let
     dest = guestIP @ '':'' @ itoa targetPort; hp = itoa hostPort; tp = itoa targetPort;
     tag = ''navaris:'' @ hp in
     [[''iptables'', ''-t'', ''nat'', op, ''PREROUTING'', ''-p'', ''tcp'', ''--dport'', hp, ''-j'', ''DNAT'',
         ''--to-destination'', dest, ''-m'', ''comment'', ''--comment'', tag],
      [''iptables'', ''-t'', ''nat'', op, ''OUTPUT'', ''-p'', ''tcp'', ''-m'', ''addrtype'', ''--dst-type'', ''LOCAL'',
         ''--dport'', hp, ''-j'', ''DNAT'', ''--to-destination'', dest, ''-m'', ''comment'', ''--comment'', tag],
      [''iptables'', op, ''FORWARD'', ''-p'', ''tcp'', ''-d'', guestIP, ''--dport'', tp, ''-j'', ''ACCEPT'',
         ''-m'', ''comment'', ''--comment'', tag]])"

definition secretEnvVars :: "string list" where
  "secretEnvVars = [''NAVARIS_AUTH_TOKEN'', ''NAVARIS_UI_PASSWORD'', ''NAVARIS_UI_SESSION_KEY'']"

definition childEnv :: "string list \<Rightarrow> string list" where
  "childEnv environ = fold (\<lambda>name env. filter (\<lambda>e. \<not> HasPrefix e (name @ ''='')) env) secretEnvVars environ"

section \<open>The interface: sources of ids\<close>

text \<open>
  \<open>alloc\<close> may fail.  A client that gives back only what it holds never shares an id with another
  holder: \<open>leases_inj\<close>.
\<close>

locale id_source =
  fixes alloc :: "'s \<Rightarrow> (int \<times> 's) option" and free :: "int \<Rightarrow> 's \<Rightarrow> 's"
    and used :: "'s \<Rightarrow> int set" and wf :: "'s \<Rightarrow> bool"
  assumes alloc_fresh: "wf s \<Longrightarrow> alloc s = Some (i, s') \<Longrightarrow> i \<notin> used s \<and> used s' = insert i (used s) \<and> wf s'"
    and free_used: "wf s \<Longrightarrow> used (free i s) = used s - {i} \<and> wf (free i s)"

datatype 'o lease_step = Lease 'o | GiveBack 'o

fun leases :: "('s \<Rightarrow> (int \<times> 's) option) \<Rightarrow> (int \<Rightarrow> 's \<Rightarrow> 's) \<Rightarrow> 'o lease_step list
    \<Rightarrow> 's \<times> ('o \<Rightarrow> int option) \<Rightarrow> 's \<times> ('o \<Rightarrow> int option)" where
  "leases alloc free [] (s, h) = (s, h)"
| "leases alloc free (Lease x # xs) (s, h) = leases alloc free xs
     (case (h x, alloc s) of (None, Some (i, s')) \<Rightarrow> (s', h(x \<mapsto> i)) | _ \<Rightarrow> (s, h))"
| "leases alloc free (GiveBack x # xs) (s, h) = leases alloc free xs
     (case h x of Some i \<Rightarrow> (free i s, h(x := None)) | None \<Rightarrow> (s, h))"

definition exclusive :: "('o \<Rightarrow> int option) \<Rightarrow> int set \<Rightarrow> bool" where
  "exclusive h u \<longleftrightarrow> inj_on h (dom h) \<and> ran h \<subseteq> u"

lemma exclusive_lease: "exclusive h u \<Longrightarrow> h x = None \<Longrightarrow> i \<notin> u \<Longrightarrow> exclusive (h(x \<mapsto> i)) (insert i u)"
  by (auto simp: exclusive_def inj_on_def ran_def dom_def)

lemma exclusive_giveback: "exclusive h u \<Longrightarrow> h x = Some i \<Longrightarrow> exclusive (h(x := None)) (u - {i})"
  by (auto simp: exclusive_def inj_on_def ran_def dom_def)

context id_source
begin

lemma leases_inj:
  "wf s \<Longrightarrow> exclusive h (used s) \<Longrightarrow> (case leases alloc free xs (s, h) of (s', h') \<Rightarrow> wf s' \<and> exclusive h' (used s'))"
proof (induction xs arbitrary: s h)
  case (Cons x xs)
  show ?case
  proof (cases x)
    case (Lease y)
    show ?thesis
    proof (cases "h y = None \<and> alloc s \<noteq> None")
      case True
      then obtain i s' where a: "alloc s = Some (i, s')" by auto
      show ?thesis using Cons.IH [of s' "h(y \<mapsto> i)"] alloc_fresh [OF Cons.prems(1) a] exclusive_lease [OF Cons.prems(2), of y i]
        Lease True a by (simp del: fun_upd_apply)
    next
      case False
      then show ?thesis using Cons Lease by (auto split: option.splits)
    qed
  next
    case (GiveBack y)
    show ?thesis
    proof (cases "h y")
      case (Some i)
      show ?thesis using Cons.IH [of "free i s" "h(y := None)"] free_used [OF Cons.prems(1)]
        exclusive_giveback [OF Cons.prems(2) Some] GiveBack Some by (simp del: fun_upd_apply)
    qed (use Cons GiveBack in simp)
  qed
qed simp

end

section \<open>The allocators are sources of ids\<close>

definition al_ok :: "allocator \<Rightarrow> bool" where
  "al_ok a \<longleftrightarrow> (\<forall>i\<in>al_inUse a. i < al_next a)"

definition pa_ok :: "port_allocator \<Rightarrow> bool" where
  "pa_ok a \<longleftrightarrow> portMin \<le> pa_next a \<and> pa_next a \<le> portMax + 1"

lemma al_keeps_ok:
  "al_ok NewAllocator" "al_ok a \<Longrightarrow> al_ok (al_InitPast i a)" "al_ok a \<Longrightarrow> al_ok (snd (al_Allocate a))"
  "al_ok a \<Longrightarrow> al_ok (al_Release i a)" "al_ok a \<Longrightarrow> al_ok (al_Reserve i a)"
  by (auto simp: al_ok_def NewAllocator_def al_InitPast_def al_Allocate_def al_Release_def al_Reserve_def Let_def)

interpretation subnet: id_source "\<lambda>a. Some (al_Allocate a)" al_Release al_inUse al_ok
  by unfold_locales (auto simp: al_ok_def al_Allocate_def al_Release_def Let_def)

text \<open>The \<open>j\<close>-th port the scan looks at.\<close>

definition nth_port :: "int \<Rightarrow> nat \<Rightarrow> int" where
  "nth_port start j = portMin + (start - portMin + int j) mod 10000"

lemma nth_port_0: "portMin \<le> start \<Longrightarrow> start \<le> portMax \<Longrightarrow> nth_port start 0 = start"
  by (simp add: nth_port_def portMin_def portMax_def)

lemma mod_Suc_int: "(x + 1) mod 10000 = (if x mod 10000 = 9999 then 0 else x mod 10000 + (1::int))"
proof -
  have b: "0 \<le> x mod 10000" "x mod 10000 < 10000" by simp_all
  have "(x + 1) mod 10000 = (x mod 10000 + 1) mod 10000" by (simp add: mod_simps)
  then show ?thesis using b by (cases "x mod 10000 = 9999") auto
qed

lemma nth_port_Suc:
  "(if nth_port s j + 1 > portMax then portMin else nth_port s j + 1) = nth_port s (Suc j)"
proof -
  let ?q = "(s - portMin + int j) mod 10000"
  have e: "nth_port s (Suc j) = portMin + (if ?q = 9999 then 0 else ?q + 1)"
    using mod_Suc_int [of "s - portMin + int j"] by (simp add: nth_port_def algebra_simps)
  have b: "0 \<le> ?q" "?q < 10000" by simp_all
  show ?thesis unfolding e unfolding nth_port_def using b by (auto simp: portMin_def portMax_def)
qed

lemma mod_back: "0 \<le> a \<Longrightarrow> a < 10000 \<Longrightarrow> 0 \<le> k \<Longrightarrow> k < 10000 \<Longrightarrow> (a + (k + 1)) mod 10000 = a \<longleftrightarrow> k = (9999::int)"
proof -
  assume r: "0 \<le> a" "a < 10000" "0 \<le> k" "k < (10000::int)"
  have "(a + (k + 1)) mod 10000 = (if a + (k + 1) < 10000 then a + (k + 1) else a + (k + 1) - 10000)"
    using r minus_mod_self2 [of "a + (k + 1)" 10000] by (auto intro: mod_pos_pos_trivial)
  then show ?thesis using r by auto
qed

lemma nth_port_start:
  assumes "portMin \<le> start" "start \<le> portMax" "j < 10000" shows "nth_port start (Suc j) = start \<longleftrightarrow> j = 9999"
proof -
  have "nth_port start (Suc j) = start \<longleftrightarrow> (start - portMin + (int j + 1)) mod 10000 = start - portMin"
    by (auto simp: nth_port_def algebra_simps)
  then show ?thesis using mod_back [of "start - portMin" "int j"] assms by (auto simp: portMin_def portMax_def)
qed

lemma range_ports:
  assumes "portMin \<le> start" "start \<le> portMax" "p \<in> {portMin .. portMax}"
  shows "\<exists>j<10000. p = nth_port start j"
proof -
  let ?j = "nat ((p - start) mod 10000)"
  have "int ?j = (p - start) mod 10000" by simp
  then have "(start - portMin + int ?j) mod 10000 = (p - portMin) mod 10000" by (simp add: mod_simps)
  then have "p = nth_port start ?j" using assms by (simp add: nth_port_def portMin_def portMax_def)
  then show ?thesis by (intro exI [of _ ?j]) auto
qed

lemma pa_scan_from:
  assumes "portMin \<le> start" "start \<le> portMax" "j < 10000" "\<And>i. i < j \<Longrightarrow> nth_port start i \<in> used"
  shows "(\<exists>i<10000. nth_port start i \<notin> used \<and> (\<forall>i'<i. nth_port start i' \<in> used) \<and>
      pa_scan used start (nth_port start j) = Some (Some (nth_port start i), nth_port start i + 1)) \<or>
    ({portMin .. portMax} \<subseteq> used \<and> pa_scan used start (nth_port start j) = Some (None, start))"
  using assms(3,4)
proof (induction "9999 - j" arbitrary: j)
  case 0
  then have j: "j = 9999" by simp
  show ?case
  proof (cases "nth_port start j \<in> used")
    case True
    then have all: "nth_port start i \<in> used" if "i < 10000" for i
      using 0(3) [of i] that j by (cases "i = j") auto
    have "pa_scan used start (nth_port start j) = Some (None, start)"
      using True nth_port_start [OF assms(1,2) 0(2)] j
      unfolding pa_scan.simps [of used start "nth_port start j"] nth_port_Suc Let_def by simp
    moreover have "{portMin .. portMax} \<subseteq> used" using range_ports [OF assms(1,2)] all by fastforce
    ultimately show ?thesis by simp
  next
    case False
    then have "pa_scan used start (nth_port start j) = Some (Some (nth_port start j), nth_port start j + 1)"
      by (simp add: pa_scan.simps [of used start "nth_port start j"])
    then show ?thesis using 0(2,3) False by blast
  qed
next
  case (Suc m)
  have less_9999: "j \<noteq> 9999" using Suc(2) by simp
  show ?case
  proof (cases "nth_port start j \<in> used")
    case True
    have "pa_scan used start (nth_port start j) = pa_scan used start (nth_port start (Suc j))"
      using True nth_port_start [OF assms(1,2) Suc(3)] less_9999
      unfolding pa_scan.simps [of used start "nth_port start j"] nth_port_Suc Let_def by simp
    moreover have "nth_port start i \<in> used" if "i < Suc j" for i
      using Suc(4) [of i] that True by (cases "i = j") auto
    ultimately show ?thesis using Suc(1) [of "Suc j"] Suc(2) by auto
  next
    case False
    then have "pa_scan used start (nth_port start j) = Some (Some (nth_port start j), nth_port start j + 1)"
      by (simp add: pa_scan.simps [of used start "nth_port start j"])
    then show ?thesis using Suc(3,4) False by blast
  qed
qed

lemma scan_start_range: "pa_ok a \<Longrightarrow> portMin \<le> scan_start a" "pa_ok a \<Longrightarrow> scan_start a \<le> portMax"
  by (auto simp: scan_start_def pa_ok_def portMin_def portMax_def)

lemma nth_port_range: "portMin \<le> nth_port s i" "nth_port s i \<le> portMax"
proof -
  have "0 \<le> (s - portMin + int i) mod 10000" "(s - portMin + int i) mod 10000 < 10000" by simp_all
  then show "portMin \<le> nth_port s i" "nth_port s i \<le> portMax" unfolding nth_port_def portMin_def portMax_def by linarith+
qed

lemma pa_Allocate_cases:
  assumes "pa_ok a"
  obtains (port) i where "i < 10000" "nth_port (scan_start a) i \<notin> pa_used a"
      "\<And>i'. i' < i \<Longrightarrow> nth_port (scan_start a) i' \<in> pa_used a"
      "pa_Allocate a = Some (Inr (nth_port (scan_start a) i),
        a\<lparr>pa_used := insert (nth_port (scan_start a) i) (pa_used a), pa_next := nth_port (scan_start a) i + 1\<rparr>)"
  | (full) "{portMin .. portMax} \<subseteq> pa_used a"
      "pa_Allocate a = Some (Inl (Sentinel ErrCapacityExceeded), a\<lparr>pa_next := scan_start a\<rparr>)"
proof -
  note s = scan_start_range [OF assms]
  from pa_scan_from [OF s, of 0 "pa_used a"] nth_port_0 [OF s] that show thesis
    by (auto simp: pa_Allocate_def Let_def)
qed

definition pa_alloc :: "port_allocator \<Rightarrow> (int \<times> port_allocator) option" where
  "pa_alloc a = (case pa_Allocate a of Some (Inr p, a') \<Rightarrow> Some (p, a') | _ \<Rightarrow> None)"

lemma pa_ok_Allocate: "pa_ok a \<Longrightarrow> pa_Allocate a = Some (r, a') \<Longrightarrow> pa_ok a'"
proof -
  assume ok: "pa_ok a" and r: "pa_Allocate a = Some (r, a')"
  from ok show ?thesis
  proof (cases rule: pa_Allocate_cases)
    case (port i)
    then show ?thesis using r nth_port_range [of "scan_start a" i] by (auto simp: pa_ok_def)
  next
    case full
    then show ?thesis using r scan_start_range [OF ok] by (auto simp: pa_ok_def)
  qed
qed

lemma pa_keeps_ok: "pa_ok NewPortAllocator" "pa_ok a \<Longrightarrow> pa_ok (pa_Release p a)" "pa_ok a \<Longrightarrow> pa_ok (pa_MarkUsed p a)"
  by (auto simp: pa_ok_def NewPortAllocator_def pa_Release_def pa_MarkUsed_def portMin_def portMax_def)

lemma pa_alloc_fresh: "pa_ok a \<Longrightarrow> pa_alloc a = Some (p, a') \<Longrightarrow>
    p \<notin> pa_used a \<and> pa_used a' = insert p (pa_used a) \<and> pa_ok a' \<and> portMin \<le> p \<and> p \<le> portMax"
proof -
  assume ok: "pa_ok a" and r: "pa_alloc a = Some (p, a')"
  then have r': "pa_Allocate a = Some (Inr p, a')" by (auto simp: pa_alloc_def split: option.splits sum.splits)
  from ok show ?thesis
    by (cases rule: pa_Allocate_cases) (use r' pa_ok_Allocate [OF ok r'] nth_port_range in auto)
qed

interpretation port: id_source pa_alloc pa_Release pa_used pa_ok
proof unfold_locales
  show "i \<notin> pa_used s \<and> pa_used s' = insert i (pa_used s) \<and> pa_ok s'" if "pa_ok s" "pa_alloc s = Some (i, s')" for s i s'
    using pa_alloc_fresh [OF that] by simp
  show "pa_used (pa_Release i s) = pa_used s - {i} \<and> pa_ok (pa_Release i s)" if "pa_ok s" for s i
    using pa_keeps_ok(2) [OF that] by (simp add: pa_Release_def)
qed

text \<open>
  \<open>PortAllocator.Allocate\<close> returns, from every state the allocator can be in, although its
  loop has no bound: it takes the first free port at or after \<open>next\<close> in the cyclic order of
  40000..49999 and marks it, and fails with \<open>ErrCapacityExceeded\<close>, marking nothing, exactly
  when every port of the range is taken.
\<close>

theorem port_scan_terminates:
  assumes "pa_ok a"
  shows "\<exists>r a'. pa_Allocate a = Some (r, a') \<and> pa_ok a' \<and>
    (case r of
      Inr p \<Rightarrow> p \<in> {portMin .. portMax} - pa_used a \<and> pa_used a' = insert p (pa_used a) \<and>
        (\<forall>q\<in>{portMin .. portMax}. (q - pa_next a) mod 10000 < (p - pa_next a) mod 10000 \<longrightarrow> q \<in> pa_used a)
    | Inl e \<Rightarrow> e = Sentinel ErrCapacityExceeded \<and> {portMin .. portMax} \<subseteq> pa_used a \<and> pa_used a' = pa_used a)"
proof -
  let ?s = "scan_start a"
  note s = scan_start_range [OF assms]
  have wrap: "(q - pa_next a) mod 10000 = (q - ?s) mod 10000" for q
  proof (cases "pa_next a > portMax")
    case True
    then have "pa_next a = portMin + 10000" using assms by (simp add: pa_ok_def portMin_def portMax_def)
    then have "q - pa_next a = q - ?s - 10000" using True by (simp add: scan_start_def)
    then show ?thesis by (simp only: minus_mod_self2)
  qed (simp add: scan_start_def)
  have rank: "(nth_port ?s i - ?s) mod 10000 = int i" if "i < 10000" for i
  proof -
    have "nth_port ?s i - ?s = (?s - portMin + int i) mod 10000 - (?s - portMin)" by (simp add: nth_port_def)
    also have "\<dots> mod 10000 = int i mod 10000" by (simp only: mod_simps) simp
    finally show ?thesis using that by simp
  qed
  from assms show ?thesis
  proof (cases rule: pa_Allocate_cases)
    case (port i)
    have "q \<in> pa_used a" if q: "q \<in> {portMin .. portMax}" "(q - pa_next a) mod 10000 < (nth_port ?s i - pa_next a) mod 10000" for q
    proof -
      obtain j where j: "j < 10000" "q = nth_port ?s j" using range_ports [OF s q(1)] by blast
      have "int j < int i" using q(2) rank [OF j(1)] rank [OF port(1)] j(2) by (simp only: wrap)
      then show ?thesis using port(3) j(2) by simp
    qed
    then show ?thesis using port(2,4) pa_ok_Allocate [OF assms port(4)] nth_port_range [of ?s i] by simp
  next
    case full
    then show ?thesis using pa_ok_Allocate [OF assms full(2)] by simp
  qed
qed

lemma port_scan_terminates_witness: "\<exists>r a'. pa_Allocate NewPortAllocator = Some (r, a') \<and> pa_ok a'"
  using port_scan_terminates [OF pa_keeps_ok(1)] by blast

text \<open>
  C21: over any sequence of allocations and releases by the VMs (a VM releases only what it
  holds, and takes nothing while it holds something), no two VMs hold the same subnet index
  and no two hold the same host port, and what is held is marked in use.
\<close>

theorem network_leases_exclusive:
  fixes steps :: "string lease_step list"
  shows "(case leases (\<lambda>a. Some (al_Allocate a)) al_Release steps (NewAllocator, Map.empty) of
      (a, held) \<Rightarrow> exclusive held (al_inUse a)) \<and>
    (case leases pa_alloc pa_Release steps (NewPortAllocator, Map.empty) of
      (a, held) \<Rightarrow> exclusive held (pa_used a))"
proof -
  have e: "exclusive Map.empty u" for u by (simp add: exclusive_def)
  show ?thesis
    using subnet.leases_inj [OF al_keeps_ok(1) e, of steps] port.leases_inj [OF pa_keeps_ok(1) e, of steps]
    by (auto split: prod.splits)
qed

text \<open>Two bytes determine an offset below 65536, and only that.\<close>

lemma offset_bytes:
  fixes x y :: int
  shows "(word_of_int (drop_bit 8 x) :: 8 word) = word_of_int (drop_bit 8 y) \<and>
     (word_of_int (x AND 0xFF) :: 8 word) = word_of_int (y AND 0xFF) \<longleftrightarrow> x mod 65536 = y mod 65536"
proof -
  have low: "z AND 0xFF = take_bit 8 z" for z :: int by (simp add: take_bit_eq_mask mask_eq_exp_minus_1)
  have cut: "(z mod 65536) div 256 = (z div 256) mod 256" "(z mod 65536) mod 256 = z mod 256" for z :: int
    using mod_mult2_eq' [of z 256 256] by (simp_all add: mod_mod_cancel)
  have "(word_of_int (drop_bit 8 x) :: 8 word) = word_of_int (drop_bit 8 y) \<longleftrightarrow> (x div 256) mod 256 = (y div 256) mod 256"
    by (simp add: word_of_int_eq_iff take_bit_eq_mod drop_bit_eq_div)
  moreover have "(word_of_int (x AND 0xFF) :: 8 word) = word_of_int (y AND 0xFF) \<longleftrightarrow> x mod 256 = y mod 256"
    by (simp add: low word_of_int_eq_iff take_bit_eq_mod)
  moreover have "x mod 65536 = y mod 65536 \<longleftrightarrow> (x div 256) mod 256 = (y div 256) mod 256 \<and> x mod 256 = y mod 256"
    by (metis cut div_mult_mod_eq)
  ultimately show ?thesis by simp
qed

lemma base_ip_eq:
  assumes "0 \<le> i" "i < 2 ^ 61" "0 \<le> j" "j < 2 ^ 61"
  shows "base_ip i = base_ip j \<longleftrightarrow> i mod 16384 = j mod 16384"
proof -
  have "wrap64 (i * 4) = i * 4" "wrap64 (j * 4) = j * 4" using assms by (simp_all add: wrap64_id)
  then have "base_ip i = base_ip j \<longleftrightarrow> i * 4 mod 65536 = j * 4 mod 65536"
    using offset_bytes [of "i * 4" "j * 4"] by (simp add: base_ip_def Let_def)
  also have "\<dots> \<longleftrightarrow> i mod 16384 = j mod 16384"
    using mod_mult_mult2 [of i 4 16384] mod_mult_mult2 [of j 4 16384] by simp
  finally show ?thesis .
qed

lemma GuestIP_eq: "GuestIP i = GuestIP j \<longleftrightarrow> base_ip i = base_ip j"
  by (auto simp: GuestIP_def split: prod.splits)

text \<open>
  The address plan has 16384 subnets.  Two indices have the same guest address exactly
  when they agree modulo 16384, so the addresses of indices below 16384 are distinct; and since
  \<open>Allocate\<close> never goes back to a released index, the VM started after 16384 others is given
  the addresses of the first one, also while that one is running and marked in use.
\<close>

theorem guest_addresses_repeat:
  "(\<forall>i\<in>{0 ..< 16384}. \<forall>j\<in>{0 ..< 16384}. GuestIP i = GuestIP j \<longrightarrow> i = j) \<and>
   (let a = ((snd \<circ> al_Allocate) ^^ 16384) NewAllocator in
      fst (al_Allocate a) = 16384 \<and> 0 \<in> al_inUse a \<and> GuestIP (fst (al_Allocate a)) = GuestIP 0)"
proof
  show "\<forall>i\<in>{0 ..< 16384}. \<forall>j\<in>{0 ..< 16384}. GuestIP i = GuestIP j \<longrightarrow> i = j"
    by (auto simp: GuestIP_eq base_ip_eq)
next
  have many: "al_next (((snd \<circ> al_Allocate) ^^ n) NewAllocator) = int n \<and>
      (0 < n \<longrightarrow> 0 \<in> al_inUse (((snd \<circ> al_Allocate) ^^ n) NewAllocator))" for n
    by (induction n) (auto simp: NewAllocator_def al_Allocate_def Let_def)
  have "GuestIP 16384 = GuestIP 0" by (simp add: GuestIP_eq base_ip_eq)
  then show "let a = ((snd \<circ> al_Allocate) ^^ 16384) NewAllocator in
      fst (al_Allocate a) = 16384 \<and> 0 \<in> al_inUse a \<and> GuestIP (fst (al_Allocate a)) = GuestIP 0"
    using many [of 16384] by (simp only: Let_def) (simp add: al_Allocate_def Let_def)
qed

lemma guest_addresses_repeat_witness: "GuestIP 5 \<noteq> GuestIP 6"
  using bspec [OF bspec [OF conjunct1 [OF guest_addresses_repeat], of 5], of 6] by auto

end
