(* ===== verification/Host.thy ===== *)
theory Host imports Complex_Main Network begin

text \<open>
  The host a Firecracker provider works on, and the provider's own memory: directories and
  files by name, processes, tap devices, iptables rules, cgroup quotas and balloon sizes, and
  the caches, locks and allocators of \<open>Provider\<close>.  Every call to the operating system or to a
  Firecracker API socket consumes a tick and fails when the environment says so; a failed call
  leaves the host as it was.  File contents are opaque texts; \<open>vminfo.json\<close>, \<open>snapinfo.json\<close>
  and \<open>fpinfo.json\<close> hold records, their JSON round trip being the identity (an empty map and an
  absent one are the same text).  A method holds the per-VM lock for its whole body, so the
  methods are modelled one after the other and of the lock only its \<open>stopped\<close> flag is state.
\<close>

section \<open>Errors of the host\<close>

text \<open>
  Here the nesting of \<open>%w\<close> matters, because \<open>os.IsNotExist\<close> does not look through it and
  \<open>errors.Unwrap\<close> takes off one layer.
\<close>

datatype fcerr = NotExist | EIO string | Wrapped fcerr | FromDomain goerr | JoinedErrs "fcerr list"

type_synonym 'a fres = "fcerr + 'a"

fun os_IsNotExist :: "fcerr \<Rightarrow> bool" where
  "os_IsNotExist NotExist = True"
| "os_IsNotExist _ = False"

text \<open>\<open>os.IsNotExist(errors.Unwrap(err))\<close>; \<open>Unwrap\<close> of a leaf or of a joined error is nil.\<close>

fun unwrapped_NotExist :: "fcerr \<Rightarrow> bool" where
  "unwrapped_NotExist (Wrapped e) = os_IsNotExist e"
| "unwrapped_NotExist NotExist = True"  \<comment> \<open>a \<open>PathError\<close> around \<open>ENOENT\<close>\<close>
| "unwrapped_NotExist _ = False"

text \<open>What the callers in the service layer can see.\<close>

fun goerr_of :: "fcerr \<Rightarrow> goerr" where
  "goerr_of NotExist = Opaque ''file does not exist''"
| "goerr_of (EIO s) = Opaque s"
| "goerr_of (Wrapped e) = goerr_of e"
| "goerr_of (FromDomain g) = g"
| "goerr_of (JoinedErrs es) = foldr (\<lambda>e g. Joined (goerr_of e) g) es (Opaque [])"

section \<open>Records on disk\<close>

record vminfo =
  vi_ID :: string
  vi_PID :: int
  vi_CID :: "32 word"
  vi_TapDevice :: string
  vi_SubnetIdx :: int
  vi_UID :: int
  vi_NetworkMode :: network_mode
  vi_Stopping :: bool
  vi_Ports :: "(int \<times> int) list"  \<comment> \<open>host port to guest port\<close>
  vi_RestoreFromSnapshot :: bool
  vi_RestoreSubnetIdx :: int
  vi_ForkPointID :: string
  vi_VcpuCount :: int
  vi_MemSizeMib :: int
  vi_LimitCPU :: int
  vi_LimitMemMib :: int
  vi_CeilingCPU :: int
  vi_CeilingMemMib :: int
  vi_EnableBoostChannel :: bool
  vi_SandboxID :: string
  vi_CgroupActive :: bool

definition ClearRuntime :: "vminfo \<Rightarrow> vminfo" where
  "ClearRuntime v = v\<lparr>vi_PID := 0, vi_TapDevice := [], vi_SubnetIdx := 0, vi_Stopping := False, vi_Ports := []\<rparr>"

record snapinfo =
  si_ID :: string
  si_SourceVM :: string
  si_Label :: string
  si_Mode :: consistency_mode
  si_SubnetIdx :: int
  si_CreatedAt :: int

record fpinfo =
  fp_ForkPointID :: string
  fp_ParentVMID :: string
  fp_Mode :: string
  fp_CreatedAt :: int
  fp_SpawnPending :: int
  fp_Descendants :: "string list"
  fp_VcpuCount :: int
  fp_MemSizeMib :: int

record imageinfo =
  ii_Ref :: string
  ii_Name :: string
  ii_Version :: string
  ii_SourceSnapshot :: string

datatype fname = Rootfs | VmState | SnapMeta
datatype dir = VmDir string | SnapDir string | FpDir string | ImageDir
datatype path = InDir dir fname | ImageExt string

fun dir_of :: "path \<Rightarrow> dir" where
  "dir_of (InDir d _) = d"
| "dir_of (ImageExt _) = ImageDir"

section \<open>The host and the provider\<close>

record fcconf =
  fc_EnableJailer :: bool
  fc_cgroupV1 :: bool
  fc_DefaultVcpuCount :: int
  fc_DefaultMemoryMib :: int
  fc_VcpuHeadroomMult :: rat  \<comment> \<open>float64 in the source; its products are exact here\<close>
  fc_MemHeadroomMult :: rat
  fc_hostIface :: string
  fc_storageBackend :: string \<comment> \<open>the name of the storage backend that clones: \<open>copy\<close> or \<open>reflink\<close>\<close>
  fc_boostHandler :: bool     \<comment> \<open>\<open>boostHandler != nil\<close>\<close>

record henv =
  he_fail :: "nat \<Rightarrow> string option"  \<comment> \<open>the OS call at this tick fails, with this error\<close>
  he_uuid :: "nat \<Rightarrow> string"
  he_pid :: "nat \<Rightarrow> int"            \<comment> \<open>the pid of a started VMM; 0 when it cannot be read\<close>
  he_agent :: "nat \<Rightarrow> bool"         \<comment> \<open>the agent answers within the deadline\<close>
  he_obeys :: "nat \<Rightarrow> bool"         \<comment> \<open>the guest shuts down before the deadline of a graceful stop\<close>
  he_now :: "nat \<Rightarrow> int"

record host =
  h_conf :: fcconf
  h_env :: henv
  h_tick :: nat
  h_dirs :: "dir set"
  h_blobs :: "path \<Rightarrow> string option"
  h_vminfo :: "string \<Rightarrow> vminfo option"
  h_snapinfo :: "string \<Rightarrow> snapinfo option"
  h_fpinfo :: "string \<Rightarrow> fpinfo option"
  h_imageinfo :: "string \<Rightarrow> imageinfo option"
  h_procs :: "int set"
  h_paused :: "string set"
  h_taps :: "string \<Rightarrow> ip4 option"
  h_rules :: "string list list"         \<comment> \<open>installed iptables rules, without the operation\<close>
  h_cgroup :: "string \<Rightarrow> int option"   \<comment> \<open>the CPU quota of a VM's cgroup\<close>
  h_balloon :: "string \<Rightarrow> int"
  p_vms :: "string \<Rightarrow> vminfo option"
  p_locks :: "string \<Rightarrow> bool option"   \<comment> \<open>\<open>fileMu\<close>: the \<open>stopped\<close> flag of an entry\<close>
  p_subnets :: allocator
  p_uids :: int
  p_ports :: port_allocator
  p_cidNext :: "32 word"
  p_listeners :: "string list"

type_synonym 'a H = "(host, 'a) state"

abbreviation hticked :: "host \<Rightarrow> host" where
  "hticked h \<equiv> h\<lparr>h_tick := Suc (h_tick h)\<rparr>"

definition hio :: "(henv \<Rightarrow> nat \<Rightarrow> 'a) \<Rightarrow> 'a H" where
  "hio f = State (\<lambda>h. (f (h_env h) (h_tick h), hticked h))"

definition ask :: "(host \<Rightarrow> 'a) \<Rightarrow> 'a H" where
  "ask f = State (\<lambda>h. (f h, h))"

definition alter :: "(host \<Rightarrow> host) \<Rightarrow> unit H" where
  "alter f = State (\<lambda>h. ((), f h))"

text \<open>A call to the operating system.\<close>

definition os :: "(host \<Rightarrow> (fcerr + 'a \<times> host)) \<Rightarrow> 'a fres H" where
  "os f = State (\<lambda>h. case he_fail (h_env h) (h_tick h) of
     Some m \<Rightarrow> (Inl (EIO m), hticked h)
   | None \<Rightarrow> (case f (hticked h) of Inl e \<Rightarrow> (Inl e, hticked h) | Inr (x, h') \<Rightarrow> (Inr x, h')))"

abbreviation os_do :: "(host \<Rightarrow> host) \<Rightarrow> unit fres H" where
  "os_do f \<equiv> os (\<lambda>h. Inr ((), f h))"

text \<open>\<open>fmt.Errorf("...: %w", err)\<close>.\<close>

definition wrapE :: "'a fres H \<Rightarrow> 'a fres H" where
  "wrapE m = do { r \<leftarrow> m; ret (case r of Inl e \<Rightarrow> Inl (Wrapped e) | Inr x \<Rightarrow> Inr x) }"

text \<open>Run the cleanup and return the wrapped error when \<open>m\<close> fails.\<close>

definition or_undo :: "'a fres H \<Rightarrow> unit H \<Rightarrow> 'a fres H" where
  "or_undo m undo = do { r \<leftarrow> m; case r of Inl e \<Rightarrow> do { undo; ret (Inl (Wrapped e)) } | Inr x \<Rightarrow> ret (Inr x) }"

lemma run_hio [runs]: "run_state (hio f) h = (f (h_env h) (h_tick h), hticked h)"
  by (simp add: hio_def)

lemma run_ask [runs]: "run_state (ask f) h = (f h, h)"
  by (simp add: ask_def)

lemma run_alter [runs]: "run_state (alter f) h = ((), f h)"
  by (simp add: alter_def)

lemma run_os [runs]: "run_state (os f) h =
    (case he_fail (h_env h) (h_tick h) of
       Some m \<Rightarrow> (Inl (EIO m), hticked h)
     | None \<Rightarrow> (case f (hticked h) of Inl e \<Rightarrow> (Inl e, hticked h) | Inr (x, h') \<Rightarrow> (Inr x, h')))"
  by (simp add: os_def)

lemma run_wrapE [runs]: "run_state (wrapE m) h =
    (case run_state m h of (Inl e, h') \<Rightarrow> (Inl (Wrapped e), h') | (Inr x, h') \<Rightarrow> (Inr x, h'))"
  by (simp add: wrapE_def split: prod.splits sum.splits)

lemma run_or_undo [runs]: "run_state (or_undo m undo) h =
    (case run_state m h of
       (Inl e, h') \<Rightarrow> (Inl (Wrapped e), snd (run_state undo h')) | (Inr x, h') \<Rightarrow> (Inr x, h'))"
  by (simp add: or_undo_def split: prod.splits sum.splits)

section \<open>Files\<close>

definition MkdirAll :: "dir \<Rightarrow> unit fres H" where
  "MkdirAll d = os_do (\<lambda>h. h\<lparr>h_dirs := insert d (h_dirs h)\<rparr>)"

definition drop_info :: "dir \<Rightarrow> (string \<Rightarrow> 'a option) \<Rightarrow> (string \<Rightarrow> dir) \<Rightarrow> string \<Rightarrow> 'a option" where
  "drop_info d m mk k = (if mk k = d then None else m k)"

text \<open>\<open>os.RemoveAll\<close> succeeds on a directory that is not there.\<close>

definition RemoveAll :: "dir \<Rightarrow> unit fres H" where
  "RemoveAll d = os_do (\<lambda>h. h\<lparr>h_dirs := h_dirs h - {d},
     h_blobs := (\<lambda>p. if dir_of p = d then None else h_blobs h p),
     h_vminfo := drop_info d (h_vminfo h) VmDir, h_snapinfo := drop_info d (h_snapinfo h) SnapDir,
     h_fpinfo := drop_info d (h_fpinfo h) FpDir\<rparr>)"

text \<open>
  \<open>cloneFile\<close>: the storage registry clones \<open>src\<close> over \<open>dst\<close>, through a temporary file and a
  rename; a missing source or destination directory is an error.
\<close>

definition cloneFile :: "path \<Rightarrow> path \<Rightarrow> unit fres H" where
  "cloneFile src dst = os (\<lambda>h. case h_blobs h src of
     None \<Rightarrow> Inl (Wrapped NotExist)
   | Some b \<Rightarrow> if dir_of dst \<in> h_dirs h \<or> dir_of dst = ImageDir then Inr ((), h\<lparr>h_blobs := (h_blobs h)(dst \<mapsto> b)\<rparr>)
               else Inl (Wrapped NotExist))"

text \<open>Removing a file; the callers that drop the error ignore it.\<close>

definition os_Remove :: "path \<Rightarrow> unit fres H" where
  "os_Remove p = os (\<lambda>h. if h_blobs h p = None then Inl NotExist else Inr ((), h\<lparr>h_blobs := (h_blobs h)(p := None)\<rparr>))"

definition ReadVMInfo :: "string \<Rightarrow> vminfo fres H" where
  "ReadVMInfo vm = wrapE (os (\<lambda>h. case h_vminfo h vm of None \<Rightarrow> Inl NotExist | Some v \<Rightarrow> Inr (v, h)))"

text \<open>
  \<open>VMInfo.Write\<close> is committed by its rename; what precedes it (temporary file, sync, opening
  the directory) only fails the call, and a failed sync of the directory afterwards is logged.
\<close>

definition vminfo_Write :: "string \<Rightarrow> vminfo \<Rightarrow> unit fres H" where
  "vminfo_Write vm v = wrapE (os (\<lambda>h. if VmDir vm \<in> h_dirs h then Inr ((), h\<lparr>h_vminfo := (h_vminfo h)(vm \<mapsto> v)\<rparr>)
     else Inl NotExist))"

section \<open>Processes, taps and rules\<close>

definition processAlive :: "int \<Rightarrow> bool H" where
  "processAlive pid = ask (\<lambda>h. pid \<in> h_procs h)"

definition sigkill :: "int \<Rightarrow> unit fres H" where
  "sigkill pid = os (\<lambda>h. if pid \<in> h_procs h then Inr ((), h\<lparr>h_procs := h_procs h - {pid}\<rparr>) else Inl (EIO ''ESRCH''))"

text \<open>\<open>ip tuntap add\<close> refuses a name that is taken; \<open>CreateTap\<close> does not undo its first command.\<close>

definition CreateTap :: "string \<Rightarrow> ip4 \<Rightarrow> unit fres H" where
  "CreateTap name ip = wrapE (
     bindE (os (\<lambda>h. if h_taps h name \<noteq> None then Inl (EIO ''EBUSY'') else Inr ((), h\<lparr>h_taps := (h_taps h)(name \<mapsto> (0, 0, 0, 0))\<rparr>))) (\<lambda>_.
     bindE (os_do (\<lambda>h. h\<lparr>h_taps := (h_taps h)(name \<mapsto> ip)\<rparr>)) (\<lambda>_.
     os_do (\<lambda>h. h))))"

definition DeleteTap :: "string \<Rightarrow> unit fres H" where
  "DeleteTap name = wrapE (os (\<lambda>h. if h_taps h name = None then Inl (EIO ''ENODEV'') else Inr ((), h\<lparr>h_taps := (h_taps h)(name := None)\<rparr>)))"

text \<open>\<open>iptables -A\<close> appends a rule, \<open>-D\<close> deletes the first equal one or fails.\<close>

definition rule_spec :: "string list \<Rightarrow> string list" where
  "rule_spec args = filter (\<lambda>a. a \<noteq> ''-A'' \<and> a \<noteq> ''-D'') args"

definition iptables :: "string list \<Rightarrow> unit fres H" where
  "iptables args = os (\<lambda>h.
     if ''-A'' \<in> set args then Inr ((), h\<lparr>h_rules := h_rules h @ [rule_spec args]\<rparr>)
     else if rule_spec args \<in> set (h_rules h) then Inr ((), h\<lparr>h_rules := remove1 (rule_spec args) (h_rules h)\<rparr>)
     else Inl (EIO ''bad rule''))"

definition RemoveDNAT :: "int \<Rightarrow> ip4 \<Rightarrow> int \<Rightarrow> unit H" where
  "RemoveDNAT hp ip tp = forM (dnat_rules ''-D'' hp (ip_String ip) tp) (\<lambda>args. ignore (iptables args))"

definition AddDNAT :: "int \<Rightarrow> ip4 \<Rightarrow> int \<Rightarrow> unit fres H" where
  "AddDNAT hp ip tp = or_undo (forE (dnat_rules ''-A'' hp (ip_String ip) tp) iptables) (RemoveDNAT hp ip tp)"

definition masquerade :: "string \<Rightarrow> ip4 \<Rightarrow> unit fres H" where
  "masquerade op ip = bindE (ask (Inr \<circ> fc_hostIface \<circ> h_conf)) (\<lambda>iface. wrapE (iptables
     [''iptables'', ''-t'', ''nat'', op, ''POSTROUTING'', ''-s'', ip_String ip @ ''/32'', ''-o'', iface, ''-j'', ''MASQUERADE'']))"

section \<open>The allocators of the provider\<close>

definition subnet_Allocate :: "int H" where
  "subnet_Allocate = State (\<lambda>h. case al_Allocate (p_subnets h) of (i, a) \<Rightarrow> (i, h\<lparr>p_subnets := a\<rparr>))"

definition subnet_Release :: "int \<Rightarrow> unit H" where
  "subnet_Release i = alter (\<lambda>h. h\<lparr>p_subnets := al_Release i (p_subnets h)\<rparr>)"

definition subnet_Reserve :: "int \<Rightarrow> unit H" where
  "subnet_Reserve i = alter (\<lambda>h. h\<lparr>p_subnets := al_Reserve i (p_subnets h)\<rparr>)"

definition port_Allocate :: "int fres H" where
  "port_Allocate = State (\<lambda>h. case pa_Allocate (p_ports h) of
     Some (Inr p, a) \<Rightarrow> (Inr p, h\<lparr>p_ports := a\<rparr>)
   | Some (Inl e, a) \<Rightarrow> (Inl (FromDomain e), h\<lparr>p_ports := a\<rparr>)
   | None \<Rightarrow> (Inl (EIO []), h))"  \<comment> \<open>never: \<open>port_scan_terminates\<close>\<close>

definition port_Release :: "int \<Rightarrow> unit H" where
  "port_Release p = alter (\<lambda>h. h\<lparr>p_ports := pa_Release p (p_ports h)\<rparr>)"

definition allocateCID :: "32 word H" where
  "allocateCID = State (\<lambda>h. (p_cidNext h, h\<lparr>p_cidNext := p_cidNext h + 1\<rparr>))"

definition uid_alloc :: "int H" where
  "uid_alloc = State (\<lambda>h. case uid_Allocate (p_uids h) of (u, n) \<Rightarrow> (u, h\<lparr>p_uids := n\<rparr>))"

text \<open>\<open>lockFor\<close>: fails fast when \<open>StopSandbox\<close> has raised the \<open>stopped\<close> flag.\<close>

definition lockFor :: "string \<Rightarrow> unit fres H" where
  "lockFor vm = State (\<lambda>h. case p_locks h vm of
     Some True \<Rightarrow> (Inl (Wrapped (FromDomain (Sentinel ErrVMStopped))), h)
   | Some False \<Rightarrow> (Inr (), h)
   | None \<Rightarrow> (Inr (), h\<lparr>p_locks := (p_locks h)(vm \<mapsto> False)\<rparr>))"

section \<open>Cgroups and balloons\<close>

definition cpuPeriod :: int where "cpuPeriod = 100000"

definition effectiveCPULimit :: "vminfo \<Rightarrow> int" where
  "effectiveCPULimit v = (if vi_LimitCPU v > 0 then vi_LimitCPU v
     else if vi_CeilingCPU v > 0 then vi_CeilingCPU v
     else if vi_VcpuCount v > 0 then vi_VcpuCount v else 1)"

text \<open>On cgroup v1 the period is a second file; the quota has been written when that write fails.\<close>

definition writeCPUMax :: "string \<Rightarrow> int \<Rightarrow> unit fres H" where
  "writeCPUMax vm quota = bindE (ask (Inr \<circ> fc_cgroupV1 \<circ> h_conf)) (\<lambda>v1. wrapE (
     bindE (os (\<lambda>h. if h_cgroup h vm = None then Inl NotExist else Inr ((), h\<lparr>h_cgroup := (h_cgroup h)(vm \<mapsto> quota)\<rparr>))) (\<lambda>_.
     if v1 then os_do (\<lambda>h. h) else ret (Inr ()))))"

text \<open>\<open>verifyCgroupFS\<close>, \<open>MkdirAll\<close>, \<open>cgroup.subtree_control\<close> (v2, ignored), \<open>cgroup.procs\<close>, the quota.\<close>

definition setupCgroup :: "string \<Rightarrow> int \<Rightarrow> unit fres H" where
  "setupCgroup vm limitCPU = bindE (ask (Inr \<circ> fc_EnableJailer \<circ> h_conf)) (\<lambda>jailer.
     if jailer then ret (Inr ())
     else bindE (os_do (\<lambda>h. h)) (\<lambda>_.
       bindE (wrapE (os_do (\<lambda>h. if h_cgroup h vm = None then h\<lparr>h_cgroup := (h_cgroup h)(vm \<mapsto> -1)\<rparr> else h))) (\<lambda>_. do {
         v1 \<leftarrow> ask (fc_cgroupV1 \<circ> h_conf);
         (if v1 then ret () else ignore (os_do (\<lambda>h. h)));
         bindE (wrapE (os_do (\<lambda>h. h))) (\<lambda>_. writeCPUMax vm (limitCPU * cpuPeriod)) })))"

text \<open>Ten attempts while the kernel says busy.\<close>

fun removeCgroup_from :: "nat \<Rightarrow> fcerr \<Rightarrow> string \<Rightarrow> unit fres H" where
  "removeCgroup_from 0 lastErr vm = ret (Inl (Wrapped lastErr))"
| "removeCgroup_from (Suc n) lastErr vm = do {
     r \<leftarrow> os (\<lambda>h. if h_cgroup h vm = None then Inl NotExist else Inr ((), h\<lparr>h_cgroup := (h_cgroup h)(vm := None)\<rparr>));
     case r of
       Inr _ \<Rightarrow> ret (Inr ())
     | Inl e \<Rightarrow> if os_IsNotExist e then ret (Inr ())
                else if e \<noteq> EIO ''EBUSY'' \<and> e \<noteq> EIO ''ENOTEMPTY'' then ret (Inl (Wrapped e))
                else removeCgroup_from n e vm }"

definition removeCgroup :: "string \<Rightarrow> unit fres H" where
  "removeCgroup vm = do {
     jailer \<leftarrow> ask (fc_EnableJailer \<circ> h_conf);
     if jailer then ret (Inr ()) else removeCgroup_from 10 NotExist vm }"

text \<open>Ten attempts while the guest has not activated the device; an attempt that fails has had no effect.\<close>

fun patchBalloon_from :: "nat \<Rightarrow> fcerr \<Rightarrow> string \<Rightarrow> int \<Rightarrow> unit fres H" where
  "patchBalloon_from 0 lastErr vm amount = ret (Inl lastErr)"
| "patchBalloon_from (Suc n) lastErr vm amount = do {
     r \<leftarrow> os_do (\<lambda>h. h\<lparr>h_balloon := (h_balloon h)(vm := amount)\<rparr>);
     case r of
       Inr _ \<Rightarrow> ret (Inr ())
     | Inl e \<Rightarrow> if e \<noteq> EIO ''not activated'' then ret (Inl e) else patchBalloon_from n e vm amount }"

definition patchBalloon :: "string \<Rightarrow> int \<Rightarrow> unit fres H" where
  "patchBalloon vm amount = patchBalloon_from 10 NotExist vm amount"

section \<open>Boost listeners\<close>

definition startBoostListener :: "string \<Rightarrow> unit fres H" where
  "startBoostListener vm = do {
     on \<leftarrow> ask (fc_boostHandler \<circ> h_conf);
     if \<not> on then ret (Inr ())
     else do {
       v \<leftarrow> ask (\<lambda>h. p_vms h vm);
       case v of
         None \<Rightarrow> ret (Inl (EIO ''not registered''))
       | Some info \<Rightarrow>
           if vi_SandboxID info = [] then ret (Inl (EIO ''no SandboxID''))
           else wrapE (os_do (\<lambda>h. h\<lparr>p_listeners := List.insert vm (p_listeners h)\<rparr>)) } }"

definition stopBoostListener :: "string \<Rightarrow> unit H" where
  "stopBoostListener vm = alter (\<lambda>h. h\<lparr>p_listeners := removeAll vm (p_listeners h)\<rparr>)"

end
