(* ===== verification/Snaps.thy ===== *)
theory Snaps imports Host begin

text \<open>
  Snapshots, fork-points and images of the Firecracker provider
  (\<open>internal/provider/firecracker/snapshot.go\<close>, \<open>fork.go\<close>, \<open>forkpoint.go\<close>, \<open>image.go\<close>).  A live
  snapshot pauses the VM, dumps its memory, clones the files and resumes it; a fork-point is
  such a snapshot that children are spawned from, kept on disk while its \<open>fpinfo.json\<close> names
  descendants or pending spawns.
\<close>

definition backendName :: string where "backendName = ''firecracker''"

definition fc_ref :: "string \<Rightarrow> backend_ref" where
  "fc_ref k = \<lparr>ref_Backend = backendName, ref_Ref = k\<rparr>"

definition validateRef :: "string \<Rightarrow> bool" where
  "validateRef r \<longleftrightarrow> CHR ''/'' \<notin> set r \<and> CHR 0x5C \<notin> set r \<and> r \<noteq> [] \<and>
     \<not> list_ex (\<lambda>i. take 2 (drop i r) = ''..'') [0..<length r]"

abbreviation drop_dir :: "dir \<Rightarrow> unit H" where  \<comment> \<open>\<open>os.RemoveAll\<close> as a bare statement\<close>
  "drop_dir d \<equiv> ignore (RemoveAll d)"

section \<open>Snapshots\<close>

text \<open>A request over the API socket that fails has had no effect; one that times out may have had one.\<close>

definition createStoppedSnapshot :: "string \<Rightarrow> dir \<Rightarrow> unit fres H" where
  "createStoppedSnapshot vm dst = wrapE (cloneFile (InDir (VmDir vm) Rootfs) (InDir dst Rootfs))"

definition pause_vm :: "string \<Rightarrow> unit fres H" where  \<comment> \<open>\<open>PATCH /vm\<close> over the API socket of a live VMM\<close>
  "pause_vm vm = os (\<lambda>h. case h_vminfo h vm of
     Some v \<Rightarrow> if vi_PID v \<in> h_procs h then Inr ((), h\<lparr>h_paused := insert vm (h_paused h)\<rparr>) else Inl (EIO ''ECONNREFUSED'')
   | None \<Rightarrow> Inl (EIO ''ENOENT''))"

definition resume_vm :: "string \<Rightarrow> unit fres H" where
  "resume_vm vm = os_do (\<lambda>h. h\<lparr>h_paused := h_paused h - {vm}\<rparr>)"

definition dump_vm :: "string \<Rightarrow> unit fres H" where  \<comment> \<open>\<open>PUT /snapshot/create\<close>\<close>
  "dump_vm vm = os_do (\<lambda>h. h\<lparr>h_blobs := (h_blobs h)(InDir (VmDir vm) VmState \<mapsto> ''memory of '' @ vm,
     InDir (VmDir vm) SnapMeta \<mapsto> ''devices of '' @ vm)\<rparr>)"

text \<open>The deferred resume runs when the dump or a clone has failed; a failed resume at the end is only returned.\<close>

definition createLiveSnapshot :: "string \<Rightarrow> dir \<Rightarrow> unit fres H" where
  "createLiveSnapshot vm dst = bindE (wrapE (pause_vm vm)) (\<lambda>_. do {
     r \<leftarrow> bindE (wrapE (dump_vm vm)) (\<lambda>_.
         bindE (wrapE (cloneFile (InDir (VmDir vm) Rootfs) (InDir dst Rootfs))) (\<lambda>_.
         forE [VmState, SnapMeta] (\<lambda>f. wrapE (cloneFile (InDir (VmDir vm) f) (InDir dst f)))));
     case r of
       Inl snapErr \<Rightarrow> do { ignore (resume_vm vm); ret (Inl snapErr) }
     | Inr _ \<Rightarrow> bindE (wrapE (resume_vm vm)) (\<lambda>_. do {
         forM [VmState, SnapMeta] (\<lambda>f. ignore (os_Remove (InDir (VmDir vm) f)));
         ret (Inr ()) }) })"

definition readSnapInfo :: "string \<Rightarrow> snapinfo fres H" where
  "readSnapInfo snap = os (\<lambda>h. case h_snapinfo h snap of None \<Rightarrow> Inl NotExist | Some s \<Rightarrow> Inr (s, h))"

definition writeSnapInfo :: "string \<Rightarrow> snapinfo \<Rightarrow> unit fres H" where
  "writeSnapInfo snap s = os (\<lambda>h. if SnapDir snap \<in> h_dirs h then Inr ((), h\<lparr>h_snapinfo := (h_snapinfo h)(snap \<mapsto> s)\<rparr>) else Inl NotExist)"

definition fc_CreateSnapshot :: "string \<Rightarrow> string \<Rightarrow> consistency_mode \<Rightarrow> backend_ref fres H" where
  "fc_CreateSnapshot vm label mode = do {
     u \<leftarrow> hio he_uuid;
     let snap = ''snap-'' @ take 8 u;
     bindE (wrapE (MkdirAll (SnapDir snap))) (\<lambda>_.
     bindE (do {
         r \<leftarrow> (if mode = ConsistencyStopped then createStoppedSnapshot vm (SnapDir snap)
              else if mode = ConsistencyLive then createLiveSnapshot vm (SnapDir snap)
              else ret (Inl (EIO ''unsupported consistency mode'')));
         case r of Inl e \<Rightarrow> do { drop_dir (SnapDir snap); ret (Inl e) } | Inr _ \<Rightarrow> ret (Inr ()) }) (\<lambda>_. do {
       t \<leftarrow> hio he_now;
       bindE (if mode = ConsistencyLive then or_undo (bindE (ReadVMInfo vm) (\<lambda>v. ret (Inr (vi_SubnetIdx v)))) (drop_dir (SnapDir snap))
              else ret (Inr 0)) (\<lambda>idx.
       bindE (or_undo (writeSnapInfo snap \<lparr>si_ID = snap, si_SourceVM = vm, si_Label = label, si_Mode = mode,
                si_SubnetIdx = idx, si_CreatedAt = t\<rparr>) (drop_dir (SnapDir snap))) (\<lambda>_.
       ret (Inr (fc_ref snap)))) })) }"

definition fc_RestoreSnapshot :: "string \<Rightarrow> string \<Rightarrow> unit fres H" where
  "fc_RestoreSnapshot vm snap = bindE (wrapE (readSnapInfo snap)) (\<lambda>si.
     bindE (wrapE (cloneFile (InDir (SnapDir snap) Rootfs) (InDir (VmDir vm) Rootfs))) (\<lambda>_.
     if si_Mode si = ConsistencyLive then do {
       ignore (MkdirAll (VmDir vm));  \<comment> \<open>\<open>restoreDir\<close>\<close>
       bindE (forE [VmState, SnapMeta] (\<lambda>f. wrapE (cloneFile (InDir (SnapDir snap) f) (InDir (VmDir vm) f)))) (\<lambda>_.
       bindE (wrapE (lockFor vm)) (\<lambda>_.
       bindE (wrapE (ReadVMInfo vm)) (\<lambda>info.
       wrapE (vminfo_Write vm (info\<lparr>vi_RestoreFromSnapshot := True, vi_RestoreSubnetIdx := si_SubnetIdx si\<rparr>))))) }
     else ret (Inr ())))"

definition fc_DeleteSnapshot :: "string \<Rightarrow> unit fres H" where
  "fc_DeleteSnapshot snap = do {
     r \<leftarrow> RemoveAll (SnapDir snap);
     ret (case r of Inl e \<Rightarrow> if os_IsNotExist e then Inr () else Inl (Wrapped e) | Inr _ \<Rightarrow> Inr ()) }"

section \<open>Fork-points\<close>

definition readFPInfo :: "string \<Rightarrow> fpinfo fres H" where
  "readFPInfo fp = wrapE (os (\<lambda>h. case h_fpinfo h fp of None \<Rightarrow> Inl NotExist | Some i \<Rightarrow> Inr (i, h)))"

definition put_fpinfo :: "string \<Rightarrow> fpinfo \<Rightarrow> unit fres H" where
  "put_fpinfo fp i = wrapE (os (\<lambda>h. if FpDir fp \<in> h_dirs h then Inr ((), h\<lparr>h_fpinfo := (h_fpinfo h)(fp \<mapsto> i)\<rparr>) else Inl NotExist))"

definition writeFPInfo :: "string \<Rightarrow> fpinfo \<Rightarrow> unit fres H" where
  "writeFPInfo fp i = bindE (wrapE (MkdirAll (FpDir fp))) (\<lambda>_. put_fpinfo fp i)"

text \<open>Returns the updated record, from which the callers' closures take their result.\<close>

definition updateFPInfo :: "string \<Rightarrow> (fpinfo \<Rightarrow> fpinfo) \<Rightarrow> fpinfo fres H" where
  "updateFPInfo fp fn = bindE (readFPInfo fp) (\<lambda>i. bindE (put_fpinfo fp (fn i)) (\<lambda>_. ret (Inr (fn i))))"

definition CreateForkPoint :: "string \<Rightarrow> string fres H" where
  "CreateForkPoint parent = do {
     u \<leftarrow> hio he_uuid;
     let fp = ''fp-'' @ take 12 u;
     bindE (wrapE (MkdirAll (FpDir fp))) (\<lambda>_.
     bindE (or_undo (ReadVMInfo parent) (drop_dir (FpDir fp))) (\<lambda>pinfo. do {
       alive \<leftarrow> processAlive (vi_PID pinfo);
       let live = (vi_PID pinfo > 0 \<and> alive);
       bindE (do {
           r \<leftarrow> (if live then createLiveSnapshot parent (FpDir fp) else createStoppedSnapshot parent (FpDir fp));
           case r of Inl e \<Rightarrow> do { drop_dir (FpDir fp); ret (Inl e) } | Inr _ \<Rightarrow> ret (Inr ()) }) (\<lambda>_. do {
         t \<leftarrow> hio he_now;
         r \<leftarrow> writeFPInfo fp \<lparr>fp_ForkPointID = fp, fp_ParentVMID = parent, fp_Mode = (if live then ''live'' else ''stopped''),
             fp_CreatedAt = t, fp_SpawnPending = 0, fp_Descendants = [], fp_VcpuCount = vi_VcpuCount pinfo,
             fp_MemSizeMib = vi_MemSizeMib pinfo\<rparr>;
         case r of Inl e \<Rightarrow> do { drop_dir (FpDir fp); ret (Inl e) } | Inr _ \<Rightarrow> ret (Inr fp) }) })) }"

definition no_vminfo :: vminfo where
  "no_vminfo = \<lparr>vi_ID = [], vi_PID = 0, vi_CID = 0, vi_TapDevice = [], vi_SubnetIdx = 0, vi_UID = 0, vi_NetworkMode = [],
     vi_Stopping = False, vi_Ports = [], vi_RestoreFromSnapshot = False, vi_RestoreSubnetIdx = 0, vi_ForkPointID = [],
     vi_VcpuCount = 0, vi_MemSizeMib = 0, vi_LimitCPU = 0, vi_LimitMemMib = 0, vi_CeilingCPU = 0, vi_CeilingMemMib = 0,
     vi_EnableBoostChannel = False, vi_SandboxID = [], vi_CgroupActive = False\<rparr>"

text \<open>The request's limit, else the fork-point's size, else the default.\<close>

definition spawn_size :: "int option \<Rightarrow> int \<Rightarrow> int \<Rightarrow> int" where
  "spawn_size limit fp_size dflt = (case limit of Some n \<Rightarrow> n | None \<Rightarrow> if fp_size > 0 then fp_size else dflt)"

definition add_descendant :: "string \<Rightarrow> fpinfo \<Rightarrow> fpinfo" where
  "add_descendant vm i = i\<lparr>fp_SpawnPending := (if fp_SpawnPending i > 0 then fp_SpawnPending i - 1 else fp_SpawnPending i),
     fp_Descendants := fp_Descendants i @ [vm]\<rparr>"

definition SpawnFromForkPoint :: "string \<Rightarrow> create_req \<Rightarrow> backend_ref fres H" where
  "SpawnFromForkPoint fp req = bindE (wrapE (readFPInfo fp)) (\<lambda>fpi. do {
     u \<leftarrow> hio he_uuid;
     let vm = ''nvrs-fc-'' @ take 8 u;
     let undo = drop_dir (VmDir vm);
     bindE (wrapE (MkdirAll (VmDir vm))) (\<lambda>_.
     bindE (or_undo (cloneFile (InDir (FpDir fp) Rootfs) (InDir (VmDir vm) Rootfs)) undo) (\<lambda>_.
     bindE (or_undo (MkdirAll (VmDir vm)) undo) (\<lambda>_.  \<comment> \<open>\<open>restoreDir\<close>, inside the VM directory\<close>
     bindE (forE [VmState, SnapMeta] (\<lambda>f. or_undo (cloneFile (InDir (FpDir fp) f) (InDir (VmDir vm) f)) undo)) (\<lambda>_. do {
       cid \<leftarrow> allocateCID;
       uid \<leftarrow> uid_alloc;
       conf \<leftarrow> ask h_conf;
       bindE (if fc_EnableJailer conf then forE [Rootfs, VmState, SnapMeta] (\<lambda>_. or_undo (os_do (\<lambda>h. h)) undo) else ret (Inr ())) (\<lambda>_. do {
         let vcpu = spawn_size (cr_CPULimit req) (fp_VcpuCount fpi) (fc_DefaultVcpuCount conf);
         let mem = spawn_size (cr_MemoryLimitMB req) (fp_MemSizeMib fpi) (fc_DefaultMemoryMib conf);
         bindE (or_undo (lockFor vm) undo) (\<lambda>_.
         bindE (or_undo (vminfo_Write vm (no_vminfo\<lparr>vi_ID := vm, vi_CID := cid, vi_UID := uid, vi_NetworkMode := cr_NetworkMode req,
             vi_RestoreFromSnapshot := True, vi_ForkPointID := fp, vi_VcpuCount := vcpu, vi_MemSizeMib := mem,
             vi_LimitCPU := vcpu, vi_LimitMemMib := mem, vi_CeilingCPU := vcpu, vi_CeilingMemMib := mem\<rparr>)) undo) (\<lambda>_. do {
           ignore (updateFPInfo fp (add_descendant vm));
           ret (Inr (fc_ref vm)) })) }) })))) })"

definition empty_req :: create_req where
  "empty_req = \<lparr>cr_Name = [], cr_ImageRef = [], cr_Backend = [], cr_CPULimit = None, cr_MemoryLimitMB = None,
     cr_NetworkMode = [], cr_EnableBoostChannel = None, cr_SandboxID = [], cr_Metadata = None\<rparr>"

definition pending_down :: "fpinfo \<Rightarrow> fpinfo" where
  "pending_down i = (if fp_SpawnPending i > 0 then i\<lparr>fp_SpawnPending := fp_SpawnPending i - 1\<rparr> else i)"

text \<open>The spawning loop, with the children spawned so far.\<close>

fun spawn_children :: "string \<Rightarrow> nat \<Rightarrow> backend_ref list \<Rightarrow> (backend_ref list \<times> fcerr option) H" where
  "spawn_children fp 0 out = ret (out, None)"
| "spawn_children fp (Suc n) out = do {
     r \<leftarrow> SpawnFromForkPoint fp empty_req;
     case r of
       Inl e \<Rightarrow> do { ignore (updateFPInfo fp pending_down); ret (out, Some (Wrapped e)) }
     | Inr ref \<Rightarrow> spawn_children fp n (out @ [ref]) }"

definition fc_ForkSandbox :: "string \<Rightarrow> int \<Rightarrow> (backend_ref list \<times> fcerr option) H" where
  "fc_ForkSandbox parent count =
     (if count < 1 then ret ([], Some (Wrapped (FromDomain InvalidState)))
      else if count > 64 then ret ([], Some (EIO ''count exceeds cap of 64''))
      else if \<not> validateRef parent then ret ([], Some (Wrapped (EIO ''invalid ref'')))
      else do {
        c \<leftarrow> CreateForkPoint parent;
        case c of
          Inl e \<Rightarrow> ret ([], Some e)
        | Inr fp \<Rightarrow> do {
            u \<leftarrow> updateFPInfo fp (\<lambda>i. i\<lparr>fp_SpawnPending := count\<rparr>);
            case u of
              Inl e \<Rightarrow> ret ([], Some (Wrapped e))
            | Inr _ \<Rightarrow> spawn_children fp (nat count) [] } })"

definition drop_descendant :: "string \<Rightarrow> fpinfo \<Rightarrow> fpinfo" where
  "drop_descendant vm i = i\<lparr>fp_Descendants := filter (\<lambda>d. d \<noteq> vm) (fp_Descendants i)\<rparr>"

definition ReleaseForkPointDescendant :: "string \<Rightarrow> string \<Rightarrow> unit fres H" where
  "ReleaseForkPointDescendant fp vm = do {
     st \<leftarrow> os (\<lambda>h. if h_fpinfo h fp = None then Inl NotExist else Inr ((), h));
     if (case st of Inl e \<Rightarrow> os_IsNotExist e | Inr _ \<Rightarrow> False) then ret (Inr ())
     else bindE (updateFPInfo fp (drop_descendant vm)) (\<lambda>i.
       if fp_Descendants i = [] \<and> fp_SpawnPending i = 0 then RemoveAll (FpDir fp) else ret (Inr ())) }"

text \<open>The startup sweep over the names \<open>ReadDir\<close> returned.\<close>

definition fpOrphanTTL :: int where "fpOrphanTTL = d_hour"

definition fp_collectable :: "int \<Rightarrow> fpinfo \<Rightarrow> bool" where
  "fp_collectable t i \<longleftrightarrow> fp_SpawnPending i > 0 \<and> t - fp_CreatedAt i > fpOrphanTTL \<or>
     fp_Descendants i = [] \<and> fp_SpawnPending i = 0"

definition recoverForkPoints :: "string list \<Rightarrow> unit fres H" where
  "recoverForkPoints ids = do {
     t \<leftarrow> hio he_now;
     forE ids (\<lambda>fp. do {
       r \<leftarrow> readFPInfo fp;
       case r of
         Inl _ \<Rightarrow> ret (Inr ())
       | Inr i \<Rightarrow> if fp_collectable t i then wrapE (RemoveAll (FpDir fp)) else ret (Inr ()) }) }"

section \<open>Images\<close>

definition put_imageinfo :: "string \<Rightarrow> imageinfo option \<Rightarrow> host \<Rightarrow> host" where
  "put_imageinfo k i h = h\<lparr>h_imageinfo := (h_imageinfo h)(k := i)\<rparr>"

text \<open>
  The local \<open>backendName\<close> of \<open>PublishSnapshotAsImage\<close>, which holds the name of the storage backend,
  hides the constant in the reference it returns.
\<close>

definition fc_PublishSnapshotAsImage :: "string \<Rightarrow> string \<Rightarrow> string \<Rightarrow> backend_ref fres H" where
  "fc_PublishSnapshotAsImage snap name version =
     (if \<not> validateRef snap then ret (Inl (Wrapped (EIO ''invalid ref'')))
      else do {
        u \<leftarrow> hio he_uuid;
        let img = ''img-'' @ take 8 u;
        let undo = ignore (os_Remove (ImageExt img));
        bindE (wrapE (cloneFile (InDir (SnapDir snap) Rootfs) (ImageExt img))) (\<lambda>_.
        bindE (or_undo (os (\<lambda>h. if h_blobs h (ImageExt img) = None then Inl NotExist else Inr ((), h))) undo) (\<lambda>_.
        bindE (or_undo (os_do (put_imageinfo img (Some \<lparr>ii_Ref = img, ii_Name = name, ii_Version = version, ii_SourceSnapshot = snap\<rparr>))) undo) (\<lambda>_.
        do { b \<leftarrow> ask (fc_storageBackend \<circ> h_conf); ret (Inr \<lparr>ref_Backend = b, ref_Ref = img\<rparr>) }))) })"

definition fc_GetImageInfo :: "string \<Rightarrow> imageinfo fres H" where
  "fc_GetImageInfo img =
     (if \<not> validateRef img then ret (Inl (Wrapped (EIO ''invalid ref'')))
      else wrapE (os (\<lambda>h. case h_imageinfo h img of None \<Rightarrow> Inl NotExist | Some i \<Rightarrow> Inr (i, h))))"

definition real_errors :: "unit fres list \<Rightarrow> fcerr list" where
  "real_errors rs = concat (map (\<lambda>r. case r of Inl e \<Rightarrow> if os_IsNotExist e then [] else [e] | Inr _ \<Rightarrow> []) rs)"

definition fc_DeleteImage :: "string \<Rightarrow> unit fres H" where
  "fc_DeleteImage img =
     (if \<not> validateRef img then ret (Inl (Wrapped (EIO ''invalid ref'')))
      else do {
        a \<leftarrow> os_Remove (ImageExt img);
        b \<leftarrow> os (\<lambda>h. if h_imageinfo h img = None then Inl NotExist else Inr ((), put_imageinfo img None h));
        ret (if real_errors [a, b] = [] then Inr () else Inl (JoinedErrs (real_errors [a, b]))) })"

end
