(* ===== verification/Vm.thy ===== *)
theory Vm imports Snaps "HOL-Library.AList" begin

text \<open>
  The life of a microVM (\<open>internal/provider/firecracker/sandbox.go\<close>, \<open>port.go\<close>,
  \<open>sandbox_resize.go\<close> and \<open>recover\<close> of \<open>firecracker.go\<close>): creating it from an image or a
  snapshot, starting, stopping and destroying it, its reported state, its published ports and
  its live resize.
\<close>

section \<open>Machine sizes\<close>

definition defaultMaxVcpu :: int where "defaultMaxVcpu = 32"
definition defaultMaxMemMB :: int where "defaultMaxMemMB = 8192"

text \<open>User limit and boot-time ceiling; \<open>math.Ceil\<close> of a product, clamped.\<close>

definition limit_or :: "int option \<Rightarrow> int \<Rightarrow> int" where
  "limit_or l d = (case l of Some n \<Rightarrow> n | None \<Rightarrow> d)"

definition boot_ceiling :: "rat \<Rightarrow> int \<Rightarrow> int \<Rightarrow> int" where
  "boot_ceiling mult cap limit = (let c = \<lceil>of_int limit * mult\<rceil> in if c > cap then cap else c)"

definition validImageRef :: "string \<Rightarrow> bool" where
  "validImageRef s \<longleftrightarrow> s \<noteq> [] \<and> list_all (\<lambda>c. let v = (of_char c :: nat) in
     97 \<le> v \<and> v \<le> 122 \<or> 65 \<le> v \<and> v \<le> 90 \<or> 48 \<le> v \<and> v \<le> 57 \<or> c = CHR ''.'' \<or> c = CHR ''_'' \<or> c = CHR ''-'') s"

definition machine_info :: "fcconf \<Rightarrow> create_req \<Rightarrow> string \<Rightarrow> 32 word \<Rightarrow> int \<Rightarrow> vminfo" where
  "machine_info conf req vm cid uid = (let
     cpu = limit_or (cr_CPULimit req) (fc_DefaultVcpuCount conf);
     mem = limit_or (cr_MemoryLimitMB req) (fc_DefaultMemoryMib conf);
     ccpu = boot_ceiling (fc_VcpuHeadroomMult conf) defaultMaxVcpu cpu;
     cmem = boot_ceiling (fc_MemHeadroomMult conf) defaultMaxMemMB mem in
     no_vminfo\<lparr>vi_ID := vm, vi_CID := cid, vi_UID := uid, vi_NetworkMode := cr_NetworkMode req,
       vi_VcpuCount := ccpu, vi_MemSizeMib := cmem, vi_LimitCPU := cpu, vi_LimitMemMib := mem,
       vi_CeilingCPU := ccpu, vi_CeilingMemMib := cmem\<rparr>)"

section \<open>Creating\<close>

text \<open>
  The common body of \<open>CreateSandbox\<close> and \<open>CreateSandboxFromSnapshot\<close>, which differ in the source
  of the root file system and in what they add to \<open>vminfo\<close>.
\<close>

definition new_vm :: "path \<Rightarrow> create_req \<Rightarrow> (vminfo \<Rightarrow> vminfo) \<Rightarrow> backend_ref fres H" where
  "new_vm src req extra = do {
     u \<leftarrow> hio he_uuid;
     let vm = ''nvrs-fc-'' @ take 8 u;
     let undo = drop_dir (VmDir vm);
     bindE (wrapE (MkdirAll (VmDir vm))) (\<lambda>_.
     bindE (or_undo (cloneFile src (InDir (VmDir vm) Rootfs)) undo) (\<lambda>_. do {
       cid \<leftarrow> allocateCID;
       uid \<leftarrow> uid_alloc;
       conf \<leftarrow> ask h_conf;
       bindE (if fc_EnableJailer conf then or_undo (os_do (\<lambda>h. h)) undo else ret (Inr ())) (\<lambda>_.
       bindE (or_undo (lockFor vm) undo) (\<lambda>_.
       bindE (or_undo (vminfo_Write vm (extra (machine_info conf req vm cid uid))) undo) (\<lambda>_.
       ret (Inr (fc_ref vm))))) })) }"

definition fc_CreateSandbox :: "create_req \<Rightarrow> backend_ref fres H" where
  "fc_CreateSandbox req =
     (if \<not> validImageRef (cr_ImageRef req) then ret (Inl (EIO ''invalid image ref''))
      else new_vm (ImageExt (cr_ImageRef req)) req
        (\<lambda>v. v\<lparr>vi_EnableBoostChannel := (case cr_EnableBoostChannel req of Some b \<Rightarrow> b | None \<Rightarrow> False),
               vi_SandboxID := cr_SandboxID req\<rparr>))"

definition fc_CreateSandboxFromSnapshot :: "string \<Rightarrow> create_req \<Rightarrow> backend_ref fres H" where
  "fc_CreateSandboxFromSnapshot snap req =
     (if \<not> validateRef snap then ret (Inl (Wrapped (EIO ''invalid ref'')))
      else new_vm (InDir (SnapDir snap) Rootfs) req (\<lambda>v. v))"

section \<open>Starting\<close>

definition cleanupStartFailure :: "string \<Rightarrow> int \<Rightarrow> string \<Rightarrow> int \<Rightarrow> fcerr list H" where
  "cleanupStartFailure vm pid tap idx = do {
     let stopVMM = do { r \<leftarrow> os_do (\<lambda>h. h\<lparr>h_procs := h_procs h - {pid}\<rparr>);
                        ret (case r of Inl e \<Rightarrow> [Wrapped e] | Inr _ \<Rightarrow> []) };
     es1 \<leftarrow> (if pid > 0 then do {
         k \<leftarrow> sigkill pid;
         case k of
           Inr _ \<Rightarrow> ret []
         | Inl e \<Rightarrow> if e = EIO ''ESRCH'' then ret [] else do { es \<leftarrow> stopVMM; ret (Wrapped e # es) } }
       else stopVMM);
     c \<leftarrow> removeCgroup vm;
     t \<leftarrow> (if tap \<noteq> [] then DeleteTap tap else ret (Inr ()));
     subnet_Release idx;
     ret (es1 @ concat (map (\<lambda>r. case r of Inl e \<Rightarrow> [Wrapped e] | Inr _ \<Rightarrow> []) [c, t])) }"

definition commitStartedVM :: "string \<Rightarrow> vminfo \<Rightarrow> int \<Rightarrow> string \<Rightarrow> int \<Rightarrow> unit fres H" where
  "commitStartedVM vm info pid tap idx = do {
     w \<leftarrow> vminfo_Write vm info;
     case w of
       Inl e \<Rightarrow> do { es \<leftarrow> cleanupStartFailure vm pid tap idx; ret (Inl (JoinedErrs (Wrapped e # es))) }
     | Inr _ \<Rightarrow> do { alter (\<lambda>h. h\<lparr>p_vms := (p_vms h)(vm \<mapsto> info)\<rparr>); ret (Inr ()) } }"

text \<open>
  \<open>machine.Start\<close>: the VMM runs under the pid of the environment, inside the jailer's cgroup when
  there is a jailer, with a balloon of \<open>ceiling - limit\<close> when one was attached.
\<close>

definition machine_Start :: "string \<Rightarrow> int option \<Rightarrow> int fres H" where
  "machine_Start vm balloon = do {
     pid \<leftarrow> ask (\<lambda>h. he_pid (h_env h) (h_tick h));
     bindE (os_do (\<lambda>h. h\<lparr>h_procs := (if pid > 0 then insert pid (h_procs h) else h_procs h),
         h_paused := h_paused h - {vm},
         h_cgroup := (if fc_EnableJailer (h_conf h) then (h_cgroup h)(vm \<mapsto> -1) else h_cgroup h),
         h_balloon := (case balloon of Some b \<Rightarrow> (h_balloon h)(vm := b) | None \<Rightarrow> h_balloon h)\<rparr>)) (\<lambda>_.
     ret (Inr pid)) }"

definition boot_balloon :: "vminfo \<Rightarrow> int option" where
  "boot_balloon v = (if vi_CeilingMemMib v > 0 then Some (max 0 (vi_CeilingMemMib v - vi_LimitMemMib v)) else None)"

text \<open>The part of \<open>StartSandbox\<close> and \<open>startFromSnapshot\<close> that follows the configuration.\<close>

definition started_info :: "bool \<Rightarrow> int \<Rightarrow> string \<Rightarrow> int \<Rightarrow> bool \<Rightarrow> vminfo \<Rightarrow> vminfo" where
  "started_info restore pid tap idx active v = v\<lparr>vi_PID := pid, vi_TapDevice := tap, vi_SubnetIdx := idx,
     vi_RestoreFromSnapshot := (if restore then False else vi_RestoreFromSnapshot v),
     vi_RestoreSubnetIdx := (if restore then 0 else vi_RestoreSubnetIdx v), vi_CgroupActive := active\<rparr>"

definition limit_cpu :: "string \<Rightarrow> int \<Rightarrow> vminfo \<Rightarrow> unit fres H" where
  "limit_cpu vm pid info = do {
     jailer \<leftarrow> ask (fc_EnableJailer \<circ> h_conf);
     (if jailer then writeCPUMax vm (effectiveCPULimit info * cpuPeriod)
      else if pid > 0 then setupCgroup vm (effectiveCPULimit info) else ret (Inl (EIO []))) }"

definition after_start :: "bool \<Rightarrow> string \<Rightarrow> vminfo \<Rightarrow> int \<Rightarrow> unit fres H" where
  "after_start restore vm info idx = do {
     (if vi_EnableBoostChannel info then ignore (startBoostListener vm) else ret ());
     (if vi_NetworkMode info = NetworkPublished then ignore (masquerade ''-A'' (GuestIP idx)) else ret ());
     (if restore then forM [VmState, SnapMeta] (\<lambda>f. ignore (os_Remove (InDir (VmDir vm) f))) else ret ());
     ok \<leftarrow> hio he_agent;
     ret (if ok then Inr () else Inl (Wrapped (EIO ''agent timeout''))) }"

definition launch :: "bool \<Rightarrow> string \<Rightarrow> vminfo \<Rightarrow> string \<Rightarrow> int \<Rightarrow> unit fres H" where
  "launch restore vm info tap idx = do {
     let undo = do { ignore (DeleteTap tap); subnet_Release idx };
     bindE (or_undo (os_do (\<lambda>h. h)) undo) (\<lambda>_.
     bindE (or_undo (machine_Start vm (if restore then None else boot_balloon info)) undo) (\<lambda>pid. do {
       c \<leftarrow> limit_cpu vm pid info;
       bindE (commitStartedVM vm (started_info restore pid tap idx (\<not> isl c) info) pid tap idx) (\<lambda>_.
       after_start restore vm info idx) })) }"

definition startFromSnapshot :: "string \<Rightarrow> vminfo \<Rightarrow> unit fres H" where
  "startFromSnapshot vm info = do {
     idx \<leftarrow> (if vi_RestoreSubnetIdx info > 0 \<or> vi_RestoreFromSnapshot info
            then do { subnet_Reserve (vi_RestoreSubnetIdx info); ret (vi_RestoreSubnetIdx info) }
            else subnet_Allocate);
     bindE (or_undo (CreateTap (TapName vm) (HostIP idx)) (subnet_Release idx)) (\<lambda>_.
     launch True vm info (TapName vm) idx) }"

text \<open>The machine configuration of a boot: a zero size takes the configured default.\<close>

definition sized :: "fcconf \<Rightarrow> vminfo \<Rightarrow> vminfo" where
  "sized conf v = v\<lparr>vi_VcpuCount := (if vi_VcpuCount v = 0 then fc_DefaultVcpuCount conf else vi_VcpuCount v),
     vi_MemSizeMib := (if vi_MemSizeMib v = 0 then fc_DefaultMemoryMib conf else vi_MemSizeMib v)\<rparr>"

definition fc_StartSandbox :: "string \<Rightarrow> unit fres H" where
  "fc_StartSandbox vm = bindE (wrapE (lockFor vm)) (\<lambda>_.
     bindE (wrapE (ReadVMInfo vm)) (\<lambda>info. do {
       alive \<leftarrow> processAlive (vi_PID info);
       if vi_PID info > 0 \<and> alive then ret (Inr ())
       else if vi_RestoreFromSnapshot info then startFromSnapshot vm info
       else do {
         idx \<leftarrow> subnet_Allocate;
         bindE (or_undo (CreateTap (TapName vm) (HostIP idx)) (subnet_Release idx)) (\<lambda>_. do {
           conf \<leftarrow> ask h_conf;
           launch False vm (sized conf info) (TapName vm) idx }) } }))"

section \<open>Stopping, destroying, reporting\<close>

text \<open>A graceful stop waits for the guest, at most 30 seconds, and kills it then.\<close>

definition stop_process :: "bool \<Rightarrow> int \<Rightarrow> unit H" where
  "stop_process force pid =
     (if force then ignore (sigkill pid)
      else do {
        ignore (os_do (\<lambda>h. h));
        g \<leftarrow> hio he_obeys;
        if g then alter (\<lambda>h. h\<lparr>h_procs := h_procs h - {pid}\<rparr>) else ignore (sigkill pid) })"

definition drop_ports :: "vminfo \<Rightarrow> unit H" where
  "drop_ports v = (if vi_Ports v \<noteq> [] \<and> vi_TapDevice v \<noteq> []
     then forM (vi_Ports v) (\<lambda>(hp, tp). do { RemoveDNAT hp (GuestIP (vi_SubnetIdx v)) tp; port_Release hp })
     else ret ())"

definition drop_network :: "vminfo \<Rightarrow> unit H" where
  "drop_network v = (if vi_TapDevice v \<noteq> [] then do {
       ignore (DeleteTap (vi_TapDevice v));
       (if vi_NetworkMode v = NetworkPublished then ignore (masquerade ''-D'' (GuestIP (vi_SubnetIdx v))) else ret ());
       subnet_Release (vi_SubnetIdx v) }
     else ret ())"

definition forget_vm :: "string \<Rightarrow> unit H" where
  "forget_vm vm = alter (\<lambda>h. h\<lparr>p_vms := (p_vms h)(vm := None), p_locks := (p_locks h)(vm := None)\<rparr>)"

definition fc_StopSandbox :: "string \<Rightarrow> bool \<Rightarrow> unit fres H" where
  "fc_StopSandbox vm force = do {
     alter (\<lambda>h. h\<lparr>p_locks := (p_locks h)(vm \<mapsto> True)\<rparr>);
     stopBoostListener vm;
     bindE (wrapE (ReadVMInfo vm)) (\<lambda>info. do {
       alive \<leftarrow> processAlive (vi_PID info);
       (if vi_PID info > 0 \<and> alive
        then do { ignore (vminfo_Write vm (info\<lparr>vi_Stopping := True\<rparr>)); stop_process force (vi_PID info) }
        else ret ());
       drop_ports info;
       drop_network info;
       bindE (wrapE (vminfo_Write vm (ClearRuntime info))) (\<lambda>_. do { forget_vm vm; ret (Inr ()) }) }) }"

definition fc_DestroySandbox :: "string \<Rightarrow> unit fres H" where
  "fc_DestroySandbox vm = do {
     stopBoostListener vm;
     s \<leftarrow> fc_StopSandbox vm True;
     if (case s of Inl e \<Rightarrow> \<not> unwrapped_NotExist e | Inr _ \<Rightarrow> False)
     then ret (case s of Inl e \<Rightarrow> Inl (Wrapped e) | Inr _ \<Rightarrow> Inr ())
     else do {
       v \<leftarrow> ReadVMInfo vm;
       bindE (wrapE (RemoveAll (VmDir vm))) (\<lambda>_. do {
         ignore (removeCgroup vm);
         alter (\<lambda>h. h\<lparr>p_vms := (p_vms h)(vm := None)\<rparr>);
         (case v of
            Inr i \<Rightarrow> if vi_ForkPointID i \<noteq> [] then ignore (ReleaseForkPointDescendant (vi_ForkPointID i) vm) else ret ()
          | Inl _ \<Rightarrow> ret ());
         ret (Inr ()) }) } }"

definition fc_GetSandboxState :: "string \<Rightarrow> sandbox_state fres H" where
  "fc_GetSandboxState vm = do {
     st \<leftarrow> os (\<lambda>h. if VmDir vm \<in> h_dirs h then Inr ((), h) else Inl NotExist);
     if (case st of Inl e \<Rightarrow> os_IsNotExist e | Inr _ \<Rightarrow> False) then ret (Inr SandboxDestroyed)
     else do {
       r \<leftarrow> ReadVMInfo vm;
       case r of
         Inl e \<Rightarrow> ret (if unwrapped_NotExist e then Inr SandboxDestroyed else Inl (Wrapped e))
       | Inr info \<Rightarrow>
           if vi_Stopping info then ret (Inr SandboxStopping)
           else do {
             alive \<leftarrow> processAlive (vi_PID info);
             if vi_PID info = 0 \<or> \<not> alive
             then ret (Inr (if vi_PID info > 0 then SandboxFailed else SandboxStopped))
             else do { ok \<leftarrow> hio he_agent; ret (Inr (if ok then SandboxRunning else SandboxStarting)) } } } }"

section \<open>Published ports\<close>

definition syncPortsCache :: "string \<Rightarrow> (int \<times> int) list \<Rightarrow> unit H" where
  "syncPortsCache vm ports = alter (\<lambda>h. h\<lparr>p_vms := (case p_vms h vm of
     Some v \<Rightarrow> (p_vms h)(vm \<mapsto> v\<lparr>vi_Ports := ports\<rparr>) | None \<Rightarrow> p_vms h)\<rparr>)"

definition fc_PublishPort :: "string \<Rightarrow> int \<Rightarrow> endpoint fres H" where
  "fc_PublishPort vm targetPort = bindE (wrapE port_Allocate) (\<lambda>hp.
     bindE (or_undo (lockFor vm) (port_Release hp)) (\<lambda>_.
     bindE (or_undo (ReadVMInfo vm) (port_Release hp)) (\<lambda>info. do {
       alive \<leftarrow> processAlive (vi_PID info);
       if vi_PID info = 0 \<or> \<not> alive \<or> vi_TapDevice info = []
       then do { port_Release hp; ret (Inl (EIO ''sandbox is not running'')) }
       else do {
         let ip = GuestIP (vi_SubnetIdx info);
         let info' = info\<lparr>vi_Ports := AList.update hp targetPort (vi_Ports info)\<rparr>;
         bindE (or_undo (AddDNAT hp ip targetPort) (port_Release hp)) (\<lambda>_.
         bindE (or_undo (vminfo_Write vm info') (do { RemoveDNAT hp ip targetPort; port_Release hp })) (\<lambda>_. do {
           syncPortsCache vm (vi_Ports info');
           ret (Inr \<lparr>ep_HostAddress = ''0.0.0.0'', ep_PublishedPort = hp\<rparr>) })) } })))"

definition fc_UnpublishPort :: "string \<Rightarrow> int \<Rightarrow> unit fres H" where
  "fc_UnpublishPort vm hp = bindE (wrapE (lockFor vm)) (\<lambda>_.
     bindE (wrapE (ReadVMInfo vm)) (\<lambda>info.
       case map_of (vi_Ports info) hp of
         None \<Rightarrow> ret (Inr ())
       | Some tp \<Rightarrow> do {
           RemoveDNAT hp (GuestIP (vi_SubnetIdx info)) tp;
           let info' = info\<lparr>vi_Ports := AList.delete hp (vi_Ports info)\<rparr>;
           bindE (wrapE (vminfo_Write vm info')) (\<lambda>_. do {
             syncPortsCache vm (vi_Ports info');
             port_Release hp;
             ret (Inr ()) }) }))"

section \<open>Live resize\<close>

definition resize_err :: "resize_reason \<Rightarrow> fcerr" where
  "resize_err r = FromDomain (ProviderResizeError r)"

definition cpu_ceiling :: "vminfo \<Rightarrow> int" where
  "cpu_ceiling v = (if vi_CeilingCPU v = 0 then vi_VcpuCount v else vi_CeilingCPU v)"

definition mem_ceiling :: "vminfo \<Rightarrow> int" where
  "mem_ceiling v = (if vi_CeilingMemMib v = 0 then vi_MemSizeMib v else vi_CeilingMemMib v)"

definition prior_mem :: "vminfo \<Rightarrow> int" where
  "prior_mem v = (if vi_LimitMemMib v = 0 then vi_MemSizeMib v else vi_LimitMemMib v)"

definition prior_balloon :: "int \<Rightarrow> vminfo \<Rightarrow> int" where
  "prior_balloon memCeiling v = (if memCeiling = 0 then 0 else memCeiling - prior_mem v)"

definition resize_check :: "update_req \<Rightarrow> vminfo \<Rightarrow> unit fres" where
  "resize_check req v =
     (case ur_CPULimit req of
        Some c \<Rightarrow> if c > cpu_ceiling v then Inl (resize_err ExceedsCeiling)
                  else if \<not> vi_CgroupActive v then Inl (resize_err CgroupUnavailable)
                  else (case ur_MemoryLimitMB req of
                     Some m \<Rightarrow> if m > mem_ceiling v then Inl (resize_err ExceedsCeiling) else Inr () | None \<Rightarrow> Inr ())
      | None \<Rightarrow> (case ur_MemoryLimitMB req of
                     Some m \<Rightarrow> if m > mem_ceiling v then Inl (resize_err ExceedsCeiling) else Inr () | None \<Rightarrow> Inr ()))"

definition resized :: "update_req \<Rightarrow> vminfo \<Rightarrow> vminfo" where
  "resized req v = v\<lparr>vi_LimitCPU := limit_or (ur_CPULimit req) (vi_LimitCPU v),
     vi_LimitMemMib := limit_or (ur_MemoryLimitMB req) (vi_LimitMemMib v)\<rparr>"

definition err_list :: "unit fres \<Rightarrow> fcerr list" where
  "err_list r = (case r of Inl e \<Rightarrow> [Wrapped e] | Inr _ \<Rightarrow> [])"

text \<open>The two live changes and the persisting write, from the state after the checks.\<close>

definition resize_apply :: "string \<Rightarrow> update_req \<Rightarrow> vminfo \<Rightarrow> unit fres H" where
  "resize_apply vm req info = do {
     let revertCPU = writeCPUMax vm (effectiveCPULimit info * cpuPeriod);
     c \<leftarrow> (case ur_CPULimit req of Some n \<Rightarrow> writeCPUMax vm (n * cpuPeriod) | None \<Rightarrow> ret (Inr ()));
     if isl c then ret (Inl (resize_err CgroupWriteFailed))
     else do {
       m \<leftarrow> (case ur_MemoryLimitMB req of Some n \<Rightarrow> patchBalloon vm (mem_ceiling info - n) | None \<Rightarrow> ret (Inr ()));
       case m of
         Inl e \<Rightarrow> do {
           (if ur_CPULimit req \<noteq> None then ignore revertCPU else ret ());
           ret (Inl (Wrapped e)) }
       | Inr _ \<Rightarrow> do {
           w \<leftarrow> vminfo_Write vm (resized req info);
           case w of
             Inl e \<Rightarrow> do {
               r1 \<leftarrow> (if ur_CPULimit req \<noteq> None then revertCPU else ret (Inr ()));
               r2 \<leftarrow> (if ur_MemoryLimitMB req \<noteq> None then patchBalloon vm (prior_balloon (mem_ceiling info) info) else ret (Inr ()));
               ret (Inl (JoinedErrs (Wrapped e # err_list r1 @ err_list r2))) }
           | Inr _ \<Rightarrow> do {
               alter (\<lambda>h. h\<lparr>p_vms := (case p_vms h vm of
                 Some v \<Rightarrow> (p_vms h)(vm \<mapsto> resized req v) | None \<Rightarrow> p_vms h)\<rparr>);
               ret (Inr ()) } } } }"

definition fc_UpdateResources :: "string \<Rightarrow> update_req \<Rightarrow> unit fres H" where
  "fc_UpdateResources vm req =
     (if ur_CPULimit req = None \<and> ur_MemoryLimitMB req = None then ret (Inr ())
      else do {
        l \<leftarrow> lockFor vm;
        case l of
          Inl _ \<Rightarrow> ret (Inl (resize_err VmStopped))
        | Inr _ \<Rightarrow> do {
            reg \<leftarrow> ask (\<lambda>h. p_vms h vm);
            if reg = None then ret (Inl (Wrapped (FromDomain NotFound)))
            else bindE (wrapE (ReadVMInfo vm)) (\<lambda>info.
              bindE (ret (resize_check req info)) (\<lambda>_. resize_apply vm req info)) } })"

section \<open>Recovery\<close>

text \<open>\<open>recover\<close> over the readable \<open>vminfo\<close> files in the order of the scan.\<close>

definition recover_vm :: "vminfo \<Rightarrow> unit H" where
  "recover_vm info = do {
     let vm = vi_ID info;
     alter (\<lambda>h. h\<lparr>p_vms := (p_vms h)(vm \<mapsto> info), p_locks := (p_locks h)(vm \<mapsto> False),
       p_subnets := (if vi_TapDevice info \<noteq> [] then al_InitPast (vi_SubnetIdx info) (p_subnets h) else p_subnets h),
       p_uids := uid_InitPast (vi_UID info) (p_uids h),
       p_cidNext := (if vi_CID info \<ge> p_cidNext h then vi_CID info + 1 else p_cidNext h)\<rparr>);
     (if vi_Ports info = [] then ret ()
      else do {
        alive \<leftarrow> processAlive (vi_PID info);
        if vi_PID info > 0 \<and> alive \<and> vi_TapDevice info \<noteq> []
        then forM (vi_Ports info) (\<lambda>(hp, tp). do {
            alter (\<lambda>h. h\<lparr>p_ports := pa_MarkUsed hp (p_ports h)\<rparr>);
            ignore (AddDNAT hp (GuestIP (vi_SubnetIdx info)) tp) })
        else do {
          (if vi_TapDevice info \<noteq> []
           then forM (vi_Ports info) (\<lambda>(hp, tp). RemoveDNAT hp (GuestIP (vi_SubnetIdx info)) tp) else ret ());
          syncPortsCache vm [];
          ignore (vminfo_Write vm (info\<lparr>vi_Ports := []\<rparr>)) } }) }"

fun ScanVMDirs :: "string list \<Rightarrow> vminfo list H" where
  "ScanVMDirs [] = ret []"
| "ScanVMDirs (vm # vms) = do {
     r \<leftarrow> ReadVMInfo vm;
     infos \<leftarrow> ScanVMDirs vms;
     ret (case r of Inl _ \<Rightarrow> infos | Inr i \<Rightarrow> i # infos) }"

definition fc_recover :: "string list \<Rightarrow> string list \<Rightarrow> unit H" where
  "fc_recover vms fps = do {
     infos \<leftarrow> ScanVMDirs vms;
     forM infos recover_vm;
     ignore (recoverForkPoints fps) }"

end
