(* ===== verification/Machines.thy ===== *)
theory Machines imports Vm begin

text \<open>
  What the Firecracker provider guarantees of single calls: live resize under a fault, the
  states reported along the life of a VM, and what a stop and a destroy leave behind.
\<close>

section \<open>Faults\<close>

definition calm :: "host \<Rightarrow> bool" where
  "calm h \<longleftrightarrow> (\<forall>t\<ge>h_tick h. he_fail (h_env h) t = None)"

definition one_fault :: "host \<Rightarrow> bool" where
  "one_fault h \<longleftrightarrow> (\<forall>t t'. he_fail (h_env h) t \<noteq> None \<and> he_fail (h_env h) t' \<noteq> None \<longrightarrow> t = t')"

lemma calm_now: "calm h \<Longrightarrow> he_fail (h_env h) (h_tick h) = None"
  by (simp add: calm_def)

lemma calm_later: "calm h \<Longrightarrow> h_env h' = h_env h \<Longrightarrow> h_tick h \<le> h_tick h' \<Longrightarrow> calm h'"
  by (auto simp: calm_def)

lemma fault_calm: "one_fault h \<Longrightarrow> he_fail (h_env h) t = Some m \<Longrightarrow> h_env h' = h_env h \<Longrightarrow> t < h_tick h' \<Longrightarrow> calm h'"
  unfolding calm_def one_fault_def by (metis option.distinct(1) not_le)

lemma run_patchBalloon_calm:
  "calm h \<Longrightarrow> run_state (patchBalloon vm a) h = (Inr (), hticked h\<lparr>h_balloon := (h_balloon h)(vm := a)\<rparr>)"
  by (simp add: patchBalloon_def eval_nat_numeral runs calm_now)

lemma run_patchBalloon_fault:
  assumes "one_fault h"
  shows "(\<exists>k. run_state (patchBalloon vm a) h = (Inr (), h\<lparr>h_tick := k, h_balloon := (h_balloon h)(vm := a)\<rparr>)) \<or>
    (\<exists>e. run_state (patchBalloon vm a) h = (Inl e, hticked h) \<and> calm (hticked h))"
proof (cases "he_fail (h_env h) (h_tick h)")
  case None
  then show ?thesis by (simp add: patchBalloon_def eval_nat_numeral runs) blast
next
  case (Some m)
  have c: "calm (hticked h)" by (rule fault_calm [OF assms Some]) simp_all
  show ?thesis
  proof (cases "m = ''not activated''")
    case True
    then have "run_state (patchBalloon vm a) h = run_state (patchBalloon_from 9 (EIO m) vm a) (hticked h)"
      using Some by (simp add: patchBalloon_def eval_nat_numeral runs)
    also have "\<dots> = (Inr (), hticked (hticked h)\<lparr>h_balloon := (h_balloon h)(vm := a)\<rparr>)"
      using calm_now [OF c] by (simp add: eval_nat_numeral runs)
    finally show ?thesis by auto
  next
    case False
    then show ?thesis using Some c by (simp add: patchBalloon_def eval_nat_numeral runs)
  qed
qed

lemma run_writeCPUMax: "\<not> fc_cgroupV1 (h_conf h) \<Longrightarrow> run_state (writeCPUMax vm q) h =
    (case he_fail (h_env h) (h_tick h) of
       Some m \<Rightarrow> (Inl (Wrapped (EIO m)), hticked h)
     | None \<Rightarrow> if h_cgroup h vm = None then (Inl (Wrapped NotExist), hticked h)
               else (Inr (), hticked h\<lparr>h_cgroup := (h_cgroup h)(vm \<mapsto> q)\<rparr>))"
  by (simp add: writeCPUMax_def runs split: option.splits)

lemma run_ReadVMInfo: "run_state (ReadVMInfo vm) h =
    (case he_fail (h_env h) (h_tick h) of
       Some m \<Rightarrow> (Inl (Wrapped (EIO m)), hticked h)
     | None \<Rightarrow> (case h_vminfo h vm of None \<Rightarrow> (Inl (Wrapped NotExist), hticked h) | Some v \<Rightarrow> (Inr v, hticked h)))"
  by (simp add: ReadVMInfo_def runs split: option.splits)

lemma run_vminfo_Write: "run_state (vminfo_Write vm v) h =
    (case he_fail (h_env h) (h_tick h) of
       Some m \<Rightarrow> (Inl (Wrapped (EIO m)), hticked h)
     | None \<Rightarrow> if VmDir vm \<in> h_dirs h then (Inr (), hticked h\<lparr>h_vminfo := (h_vminfo h)(vm \<mapsto> v)\<rparr>)
               else (Inl (Wrapped NotExist), hticked h))"
  by (simp add: vminfo_Write_def runs split: option.splits)

lemma run_lockFor: "run_state (lockFor vm) h = (case p_locks h vm of
     Some True \<Rightarrow> (Inl (Wrapped (FromDomain (Sentinel ErrVMStopped))), h)
   | Some False \<Rightarrow> (Inr (), h)
   | None \<Rightarrow> (Inr (), h\<lparr>p_locks := (p_locks h)(vm \<mapsto> False)\<rparr>))"
  by (simp add: lockFor_def split: option.splits bool.splits)

lemma run_processAlive [runs]: "run_state (processAlive pid) h = (pid \<in> h_procs h, h)"
  by (simp add: processAlive_def runs)

section \<open>A concrete host\<close>

definition demo_conf :: fcconf where
  "demo_conf = \<lparr>fc_EnableJailer = False, fc_cgroupV1 = False, fc_DefaultVcpuCount = 1, fc_DefaultMemoryMib = 256,
     fc_VcpuHeadroomMult = 1, fc_MemHeadroomMult = 1, fc_hostIface = ''eth0'', fc_storageBackend = ''reflink'',
     fc_boostHandler = True\<rparr>"

definition demo_henv :: "(nat \<Rightarrow> string option) \<Rightarrow> henv" where
  "demo_henv fails = \<lparr>he_fail = fails, he_uuid = (\<lambda>t. pad 12 (int t)), he_pid = (\<lambda>t. 100 + int t), he_agent = (\<lambda>_. True),
     he_obeys = (\<lambda>_. True), he_now = (\<lambda>t. int t)\<rparr>"

definition demo_vm :: vminfo where
  "demo_vm = no_vminfo\<lparr>vi_ID := ''v'', vi_PID := 7, vi_TapDevice := ''fc-v'', vi_SubnetIdx := 3, vi_VcpuCount := 4,
     vi_MemSizeMib := 1024, vi_LimitCPU := 1, vi_LimitMemMib := 256, vi_CeilingCPU := 4, vi_CeilingMemMib := 1024,
     vi_CgroupActive := True\<rparr>"

text \<open>One running VM \<open>v\<close> with a root file system.\<close>

definition demo_host :: "(nat \<Rightarrow> string option) \<Rightarrow> host" where
  "demo_host fails = \<lparr>h_conf = demo_conf, h_env = demo_henv fails, h_tick = 0, h_dirs = {VmDir ''v''},
     h_blobs = [InDir (VmDir ''v'') Rootfs \<mapsto> ''disk'', ImageExt ''debian'' \<mapsto> ''debian''], h_vminfo = [''v'' \<mapsto> demo_vm],
     h_snapinfo = Map.empty, h_fpinfo = Map.empty, h_imageinfo = Map.empty, h_procs = {7}, h_paused = {},
     h_taps = [''fc-v'' \<mapsto> HostIP 3], h_rules = [], h_cgroup = [''v'' \<mapsto> cpuPeriod], h_balloon = (\<lambda>_. 0)(''v'' := 768),
     p_vms = [''v'' \<mapsto> demo_vm], p_locks = [''v'' \<mapsto> False], p_subnets = \<lparr>al_next = 4, al_inUse = {3}\<rparr>, p_uids = 10000,
     p_ports = NewPortAllocator, p_cidNext = 100, p_listeners = []\<rparr>"

section \<open>Live resize\<close>

text \<open>The limits on record are the ones in force on the VM.\<close>

definition in_force :: "string \<Rightarrow> vminfo \<Rightarrow> host \<Rightarrow> bool" where
  "in_force vm v h \<longleftrightarrow> h_vminfo h vm = Some v \<and> VmDir vm \<in> h_dirs h \<and> p_locks h vm = Some False \<and>
     (vi_CgroupActive v \<longrightarrow> h_cgroup h vm = Some (effectiveCPULimit v * cpuPeriod)) \<and>
     h_balloon h vm = prior_balloon (mem_ceiling v) v"

definition apply_limits :: "string \<Rightarrow> update_req \<Rightarrow> vminfo \<Rightarrow> host \<Rightarrow> host" where
  "apply_limits vm req v h = h\<lparr>
     h_vminfo := (h_vminfo h)(vm \<mapsto> resized req v),
     h_cgroup := (case ur_CPULimit req of Some n \<Rightarrow> (h_cgroup h)(vm \<mapsto> n * cpuPeriod) | None \<Rightarrow> h_cgroup h),
     h_balloon := (case ur_MemoryLimitMB req of Some n \<Rightarrow> (h_balloon h)(vm := mem_ceiling v - n) | None \<Rightarrow> h_balloon h),
     p_vms := (case p_vms h vm of Some c \<Rightarrow> (p_vms h)(vm \<mapsto> resized req c) | None \<Rightarrow> p_vms h)\<rparr>"

lemma keep_upd: "m k = Some x \<Longrightarrow> m(k \<mapsto> x) = m" "f k = y \<Longrightarrow> f(k := y) = f"
  by auto

text \<open>The same host at another moment.\<close>

definition agree :: "host \<Rightarrow> host \<Rightarrow> bool" where
  "agree a b \<longleftrightarrow>
     h_conf a = h_conf b \<and> h_env a = h_env b \<and> h_dirs a = h_dirs b \<and>
     h_blobs a = h_blobs b \<and> h_vminfo a = h_vminfo b \<and> h_snapinfo a = h_snapinfo b \<and>
     h_fpinfo a = h_fpinfo b \<and> h_imageinfo a = h_imageinfo b \<and> h_procs a = h_procs b \<and>
     h_paused a = h_paused b \<and> h_taps a = h_taps b \<and> h_rules a = h_rules b \<and>
     h_cgroup a = h_cgroup b \<and> h_balloon a = h_balloon b \<and> p_vms a = p_vms b \<and>
     p_locks a = p_locks b \<and> p_subnets a = p_subnets b \<and> p_uids a = p_uids b \<and>
     p_ports a = p_ports b \<and> p_cidNext a = p_cidNext b \<and> p_listeners a = p_listeners b"

lemma run_resize_apply:
  assumes "one_fault h" "\<not> fc_cgroupV1 (h_conf h)" "in_force vm v h"
    and "ur_CPULimit req \<noteq> None \<Longrightarrow> vi_CgroupActive v"
  shows "case run_state (resize_apply vm req v) h of
    (Inl e, h') \<Rightarrow> agree h' h | (Inr _, h') \<Rightarrow> agree h' (apply_limits vm req v h)"
proof -
  note f = assms(3)[unfolded in_force_def]
  have dir: "VmDir vm \<in> h_dirs h" using f by simp
  let ?persist = "\<lambda>h. run_state (vminfo_Write vm (resized req v)) h"
  show ?thesis
  proof (cases "ur_CPULimit req")
    case None
    show ?thesis
    proof (cases "ur_MemoryLimitMB req")
      case None
      then show ?thesis using \<open>ur_CPULimit req = None\<close> dir
        by (auto simp: resize_apply_def Let_def agree_def runs run_vminfo_Write apply_limits_def err_list_def split: option.splits)
    next
      case (Some m)
      from run_patchBalloon_fault [OF assms(1), of vm "mem_ceiling v - m"] show ?thesis
      proof (elim disjE exE conjE)
        fix k assume b: "run_state (patchBalloon vm (mem_ceiling v - m)) h = (Inr (), h\<lparr>h_tick := k, h_balloon := (h_balloon h)(vm := mem_ceiling v - m)\<rparr>)"
        show ?thesis
        proof (cases "he_fail (h_env h) k")
          case None
          then show ?thesis using b Some \<open>ur_CPULimit req = None\<close> dir
            by (auto simp: resize_apply_def Let_def agree_def runs run_vminfo_Write apply_limits_def split: option.splits)
        next
          case (Some x)
          let ?h = "h\<lparr>h_balloon := (h_balloon h)(vm := mem_ceiling v - m), h_tick := Suc k\<rparr>"
          have "calm ?h" by (rule fault_calm [OF assms(1) Some]) simp_all
          then show ?thesis using b Some \<open>ur_MemoryLimitMB req = Some m\<close> \<open>ur_CPULimit req = None\<close> dir f
            by (auto simp: resize_apply_def Let_def agree_def runs run_vminfo_Write run_patchBalloon_calm keep_upd)
        qed
      next
        fix e assume "run_state (patchBalloon vm (mem_ceiling v - m)) h = (Inl e, hticked h)"
        then show ?thesis using Some \<open>ur_CPULimit req = None\<close> by (auto simp: resize_apply_def Let_def agree_def runs)
      qed
    qed
  next
    case (Some n)
    then have quota: "h_cgroup h vm = Some (effectiveCPULimit v * cpuPeriod)" using f assms(4) by simp
    show ?thesis
    proof (cases "he_fail (h_env h) (h_tick h)")
      case (Some x)
      then show ?thesis using \<open>ur_CPULimit req = Some n\<close> assms(2)
        by (auto simp: resize_apply_def Let_def agree_def runs run_writeCPUMax)
    next
      case None
      let ?h1 = "hticked h\<lparr>h_cgroup := (h_cgroup h)(vm \<mapsto> n * cpuPeriod)\<rparr>"
      have one: "one_fault ?h1" using assms(1) by (simp add: one_fault_def)
      have c: "run_state (writeCPUMax vm (n * cpuPeriod)) h = (Inr (), ?h1)"
        using None quota assms(2) by (simp add: run_writeCPUMax)
      show ?thesis
      proof (cases "ur_MemoryLimitMB req")
        case None
        show ?thesis
        proof (cases "he_fail (h_env h) (Suc (h_tick h))")
          case None
          then show ?thesis using c \<open>ur_CPULimit req = Some n\<close> \<open>ur_MemoryLimitMB req = None\<close> dir
            by (auto simp: resize_apply_def Let_def agree_def runs run_vminfo_Write apply_limits_def split: option.splits)
        next
          case (Some x)
          have "calm (h\<lparr>h_tick := Suc (Suc (h_tick h))\<rparr>)" by (rule fault_calm [OF assms(1) Some]) simp_all
          from calm_now [OF this] show ?thesis
            using c Some \<open>ur_CPULimit req = Some n\<close> \<open>ur_MemoryLimitMB req = None\<close> dir assms(2) quota
            by (auto simp: resize_apply_def Let_def agree_def runs run_vminfo_Write run_writeCPUMax keep_upd)
        qed
      next
        case (Some m)
        from run_patchBalloon_fault [OF one, of vm "mem_ceiling v - m"] show ?thesis
        proof (elim disjE exE conjE)
          fix k assume b: "run_state (patchBalloon vm (mem_ceiling v - m)) ?h1 = (Inr (), ?h1\<lparr>h_tick := k, h_balloon := (h_balloon ?h1)(vm := mem_ceiling v - m)\<rparr>)"
          show ?thesis
          proof (cases "he_fail (h_env h) k")
            case None
            then show ?thesis using b c Some \<open>ur_CPULimit req = Some n\<close> dir
              by (auto simp: resize_apply_def Let_def agree_def runs run_vminfo_Write apply_limits_def split: option.splits)
          next
            case (Some x)
            let ?h2 = "h\<lparr>h_balloon := (h_balloon h)(vm := mem_ceiling v - m), h_tick := Suc (Suc k)\<rparr>"
            have now: "he_fail (h_env h) (Suc k) = None"
              using calm_now [OF fault_calm [OF assms(1) Some, of "h\<lparr>h_tick := Suc k\<rparr>"]] by simp
            have "calm ?h2" by (rule fault_calm [OF assms(1) Some]) simp_all
            then show ?thesis
              using b c now Some \<open>ur_MemoryLimitMB req = Some m\<close> \<open>ur_CPULimit req = Some n\<close> dir f quota assms(2)
              by (auto simp: resize_apply_def Let_def agree_def runs run_vminfo_Write run_writeCPUMax run_patchBalloon_calm keep_upd)
          qed
        next
          fix e assume b: "run_state (patchBalloon vm (mem_ceiling v - m)) ?h1 = (Inl e, hticked ?h1)" "calm (hticked ?h1)"
          then have "he_fail (h_env h) (Suc (Suc (h_tick h))) = None" using calm_now by fastforce
          then show ?thesis using b c Some \<open>ur_CPULimit req = Some n\<close> assms(2) quota
            by (auto simp: resize_apply_def Let_def agree_def runs run_writeCPUMax keep_upd)
        qed
      qed
    qed
  qed
qed

definition within_ceilings :: "update_req \<Rightarrow> vminfo \<Rightarrow> bool" where
  "within_ceilings req v \<longleftrightarrow> (case ur_CPULimit req of Some c \<Rightarrow> c \<le> cpu_ceiling v \<and> vi_CgroupActive v | None \<Rightarrow> True) \<and>
     (case ur_MemoryLimitMB req of Some m \<Rightarrow> m \<le> mem_ceiling v | None \<Rightarrow> True)"

lemma resize_check_cases: "(\<exists>e. resize_check req v = Inl e \<and> \<not> within_ceilings req v) \<or> resize_check req v = Inr () \<and> within_ceilings req v"
  by (auto simp: resize_check_def within_ceilings_def split: option.splits)

lemma agree_refl: "agree h h" "agree (hticked h) h" "agree (hticked h) g = agree h g" "agree g (hticked h) = agree g h"
  by (simp_all add: agree_def)

lemma agree_apply: "agree h' (apply_limits vm req v (hticked h)) = agree h' (apply_limits vm req v h)"
  by (cases "ur_CPULimit req"; cases "ur_MemoryLimitMB req"; cases "p_vms h vm") (simp_all add: agree_def apply_limits_def)

lemma run_UpdateResources:
  assumes "in_force vm v h" "p_vms h vm \<noteq> None" "ur_CPULimit req \<noteq> None \<or> ur_MemoryLimitMB req \<noteq> None"
  shows "run_state (fc_UpdateResources vm req) h =
    (case he_fail (h_env h) (h_tick h) of
       Some m \<Rightarrow> (Inl (Wrapped (Wrapped (EIO m))), hticked h)
     | None \<Rightarrow> (case resize_check req v of
         Inl e \<Rightarrow> (Inl e, hticked h) | Inr _ \<Rightarrow> run_state (resize_apply vm req v) (hticked h)))"
  using assms by (auto simp: fc_UpdateResources_def runs run_lockFor run_ReadVMInfo in_force_def split: option.splits sum.splits)

text \<open>
  C9: on a host with cgroup v2, and for a running VM whose record holds the limits in force, the live
  resize of the Firecracker backend is all or nothing when at most one call to the host fails on
  the way and the call that fails has no effect: it either returns an error with the VM, its record
  and the cache as they were, every change made before the failure reverted, or it has set the
  cgroup quota, the balloon, \<open>vminfo.json\<close> and the cache to the new limits, which are within
  the boot-time ceilings.  On cgroup v1, where the quota is two files, it is not.
\<close>

theorem live_resize_atomic:
  assumes "one_fault h" "\<not> fc_cgroupV1 (h_conf h)" "in_force vm v h" "p_vms h vm \<noteq> None"
  shows "case run_state (fc_UpdateResources vm req) h of
      (Inl e, h') \<Rightarrow> agree h' h
    | (Inr _, h') \<Rightarrow> agree h' (apply_limits vm req v h) \<and> within_ceilings req v"
proof (cases "ur_CPULimit req = None \<and> ur_MemoryLimitMB req = None")
  case True
  then show ?thesis using assms(3,4)
    by (auto simp: fc_UpdateResources_def agree_def apply_limits_def within_ceilings_def resized_def limit_or_def in_force_def keep_upd)
next
  case False
  note run = run_UpdateResources [OF assms(3,4), of req]
  show ?thesis
  proof (cases "he_fail (h_env h) (h_tick h)")
    case (Some m)
    then show ?thesis using run False by (simp add: agree_refl)
  next
    case None
    from resize_check_cases [of req v] show ?thesis
    proof (elim disjE exE conjE)
      assume ok: "resize_check req v = Inr ()" "within_ceilings req v"
      have h: "one_fault (hticked h)" "in_force vm v (hticked h)" "\<not> fc_cgroupV1 (h_conf (hticked h))"
        using assms by (simp_all add: one_fault_def in_force_def)
      have act: "vi_CgroupActive v" if "ur_CPULimit req \<noteq> None" using ok(2) that by (auto simp: within_ceilings_def)
      show ?thesis using run_resize_apply [OF h(1,3,2) act, of req] run None ok False
        by (auto simp: agree_apply agree_refl split: sum.splits prod.splits)
    qed (use run None False in \<open>simp add: agree_refl\<close>)
  qed
qed

lemma live_resize_atomic_witness:
  "case run_state (fc_UpdateResources ''v'' \<lparr>ur_CPULimit = Some 2, ur_MemoryLimitMB = Some 512\<rparr>)
      (demo_host (\<lambda>t. if t = 3 then Some ''ENOSPC'' else None)) of
      (Inl e, h') \<Rightarrow> agree h' (demo_host (\<lambda>t. if t = 3 then Some ''ENOSPC'' else None))
    | (Inr _, h') \<Rightarrow> agree h' (apply_limits ''v'' \<lparr>ur_CPULimit = Some 2, ur_MemoryLimitMB = Some 512\<rparr> demo_vm
        (demo_host (\<lambda>t. if t = 3 then Some ''ENOSPC'' else None)))"
proof -
  let ?h = "demo_host (\<lambda>t. if t = 3 then Some ''ENOSPC'' else None)"
  have f: "one_fault ?h" "\<not> fc_cgroupV1 (h_conf ?h)" "in_force ''v'' demo_vm ?h" "p_vms ?h ''v'' \<noteq> None"
    by (auto simp: one_fault_def in_force_def demo_host_def demo_henv_def demo_conf_def demo_vm_def no_vminfo_def
      effectiveCPULimit_def prior_balloon_def mem_ceiling_def prior_mem_def)
  show ?thesis using live_resize_atomic [OF f, of "\<lparr>ur_CPULimit = Some 2, ur_MemoryLimitMB = Some 512\<rparr>"]
    by (auto split: prod.splits sum.splits)
qed

section \<open>Stopping, destroying and the reported state\<close>

definition no_fault :: "host \<Rightarrow> bool" where
  "no_fault h \<longleftrightarrow> he_fail (h_env h) = (\<lambda>_. None)"

lemma no_faultD [simp]: "no_fault h \<Longrightarrow> he_fail (h_env h) t = None"
  by (simp add: no_fault_def)

lemma noop_upd: "h\<lparr>h_tick := k\<rparr> = h\<lparr>h_tick := k, h_rules := h_rules h\<rparr>"
  by simp

lemma frame_iptables: "\<exists>k rs. snd (run_state (iptables a) h) = h\<lparr>h_tick := k, h_rules := rs\<rparr>"
proof (cases "he_fail (h_env h) (h_tick h) \<noteq> None \<or> (''-A'' \<notin> set a \<and> rule_spec a \<notin> set (h_rules h))")
  case True
  then have "snd (run_state (iptables a) h) = h\<lparr>h_tick := Suc (h_tick h), h_rules := h_rules h\<rparr>"
    by (auto simp: iptables_def runs noop_upd [symmetric] split: option.splits)
  then show ?thesis by blast
next
  case False
  then show ?thesis by (auto simp: iptables_def runs)
qed

lemma frame_RemoveDNAT: "\<exists>k rs. snd (run_state (RemoveDNAT hp ip tp) h) = h\<lparr>h_tick := k, h_rules := rs\<rparr>"
proof -
  have loop: "\<exists>k rs. snd (run_state (forM as (\<lambda>a. ignore (iptables a))) h) = h\<lparr>h_tick := k, h_rules := rs\<rparr>" for as h
  proof (induction as arbitrary: h)
    case Nil
    show ?case by (intro exI [of _ "h_tick h"] exI [of _ "h_rules h"]) simp
  next
    case (Cons a as)
    obtain k rs where "snd (run_state (iptables a) h) = h\<lparr>h_tick := k, h_rules := rs\<rparr>" using frame_iptables by blast
    then show ?case using Cons [of "h\<lparr>h_tick := k, h_rules := rs\<rparr>"] by (auto simp: runs case_prod_unfold)
  qed
  show ?thesis unfolding RemoveDNAT_def by (rule loop)
qed

lemma frame_drop_ports: "\<exists>k rs. run_state (drop_ports v) h = ((), h\<lparr>h_tick := k, h_rules := rs,
    p_ports := (if vi_TapDevice v \<noteq> [] then fold pa_Release (map fst (vi_Ports v)) (p_ports h) else p_ports h)\<rparr>)"
proof -
  have loop: "\<exists>k rs. snd (run_state (forM ps (\<lambda>(hp, tp). do { RemoveDNAT hp ip tp; port_Release hp })) h) =
      h\<lparr>h_tick := k, h_rules := rs, p_ports := fold pa_Release (map fst ps) (p_ports h)\<rparr>" for ps ip h
  proof (induction ps arbitrary: h)
    case Nil
    show ?case by (intro exI [of _ "h_tick h"] exI [of _ "h_rules h"]) simp
  next
    case (Cons x ps)
    obtain hp tp where x: "x = (hp, tp)" by (cases x)
    obtain k rs where "snd (run_state (RemoveDNAT hp ip tp) h) = h\<lparr>h_tick := k, h_rules := rs\<rparr>" using frame_RemoveDNAT by blast
    then show ?case using Cons [of "h\<lparr>h_tick := k, h_rules := rs, p_ports := pa_Release hp (p_ports h)\<rparr>"] x
      by (auto simp: runs case_prod_unfold port_Release_def)
  qed
  show ?thesis
  proof (cases "vi_Ports v \<noteq> [] \<and> vi_TapDevice v \<noteq> []")
    case True
    from loop [of "vi_Ports v" "GuestIP (vi_SubnetIdx v)" h] obtain k rs where
      "snd (run_state (forM (vi_Ports v) (\<lambda>(hp, tp). do { RemoveDNAT hp (GuestIP (vi_SubnetIdx v)) tp; port_Release hp })) h) =
        h\<lparr>h_tick := k, h_rules := rs, p_ports := fold pa_Release (map fst (vi_Ports v)) (p_ports h)\<rparr>" by blast
    then show ?thesis using True by (intro exI [of _ k] exI [of _ rs]) (simp add: drop_ports_def prod_eq_iff)
  next
    case False
    have "run_state (drop_ports v) h = ((), h)" unfolding drop_ports_def if_not_P [OF False] by simp
    moreover have "(if vi_TapDevice v \<noteq> [] then fold pa_Release (map fst (vi_Ports v)) (p_ports h) else p_ports h) = p_ports h"
      using False by (cases "vi_TapDevice v = []") simp_all
    ultimately show ?thesis by (intro exI [of _ "h_tick h"] exI [of _ "h_rules h"]) simp
  qed
qed

lemma frame_masquerade: "\<exists>k rs. snd (run_state (masquerade op ip) h) = h\<lparr>h_tick := k, h_rules := rs\<rparr>"
proof -
  let ?a = "[''iptables'', ''-t'', ''nat'', op, ''POSTROUTING'', ''-s'', ip_String ip @ ''/32'', ''-o'', fc_hostIface (h_conf h), ''-j'', ''MASQUERADE'']"
  obtain k rs where "snd (run_state (iptables ?a) h) = h\<lparr>h_tick := k, h_rules := rs\<rparr>" using frame_iptables by blast
  then show ?thesis by (intro exI [of _ k] exI [of _ rs]) (auto simp: masquerade_def runs split: prod.splits sum.splits)
qed

lemma run_DeleteTap: "no_fault h \<Longrightarrow> snd (run_state (DeleteTap t) h) = hticked h\<lparr>h_taps := (h_taps h)(t := None)\<rparr>"
  by (auto simp: DeleteTap_def runs fun_upd_idem split: option.splits)

lemma frame_drop_network:
  assumes "no_fault h"
  shows "\<exists>k rs. run_state (drop_network v) h = ((), h\<lparr>h_tick := k, h_rules := rs,
      h_taps := (if vi_TapDevice v \<noteq> [] then (h_taps h)(vi_TapDevice v := None) else h_taps h),
      p_subnets := (if vi_TapDevice v \<noteq> [] then al_Release (vi_SubnetIdx v) (p_subnets h) else p_subnets h)\<rparr>)"
proof (cases "vi_TapDevice v = []")
  case True
  then show ?thesis by (intro exI [of _ "h_tick h"] exI [of _ "h_rules h"]) (simp add: drop_network_def)
next
  case False
  let ?h = "hticked h\<lparr>h_taps := (h_taps h)(vi_TapDevice v := None)\<rparr>"
  obtain k rs where m: "snd (run_state (masquerade ''-D'' (GuestIP (vi_SubnetIdx v))) ?h) = ?h\<lparr>h_tick := k, h_rules := rs\<rparr>"
    using frame_masquerade by blast
  show ?thesis
  proof (cases "vi_NetworkMode v = NetworkPublished")
    case True
    then show ?thesis using False m run_DeleteTap [OF assms]
      by (intro exI [of _ k] exI [of _ rs]) (simp add: drop_network_def runs subnet_Release_def)
  next
    case no: False
    then show ?thesis using False run_DeleteTap [OF assms]
      by (intro exI [of _ "Suc (h_tick h)"] exI [of _ "h_rules h"]) (simp add: drop_network_def runs subnet_Release_def)
  qed
qed

lemma frame_stop_process:
  "no_fault h \<Longrightarrow> \<exists>k. snd (run_state (stop_process force pid) h) = h\<lparr>h_tick := k, h_procs := h_procs h - {pid}\<rparr>"
  by (cases force; cases "pid \<in> h_procs h"; cases "he_obeys (h_env h) (Suc (h_tick h))")
    (auto simp: stop_process_def sigkill_def runs)

lemma used_fold_Release: "pa_used (fold pa_Release ps a) = pa_used a - set ps"
  by (induction ps arbitrary: a) (auto simp: pa_Release_def)

text \<open>What \<open>GetSandboxState\<close> answers, read off the record.\<close>

definition state_on_record :: "string \<Rightarrow> bool \<Rightarrow> host \<Rightarrow> sandbox_state" where
  "state_on_record vm agent h = (if VmDir vm \<notin> h_dirs h then SandboxDestroyed
     else (case h_vminfo h vm of
         None \<Rightarrow> SandboxDestroyed
       | Some v \<Rightarrow>
           if vi_Stopping v then SandboxStopping
           else if vi_PID v = 0 then SandboxStopped
           else if vi_PID v \<in> h_procs h then (if agent then SandboxRunning else SandboxStarting)
           else if vi_PID v > 0 then SandboxFailed else SandboxStopped))"

lemma run_GetSandboxState:
  "no_fault h \<Longrightarrow> run_state (fc_GetSandboxState vm) h =
     (Inr (state_on_record vm (he_agent (h_env h) (Suc (Suc (h_tick h)))) h), snd (run_state (fc_GetSandboxState vm) h))"
  by (auto simp: prod_eq_iff fc_GetSandboxState_def state_on_record_def runs run_ReadVMInfo split: option.splits)

lemma obtain_drop_ports:
  assumes "ps = (if vi_TapDevice v \<noteq> [] then fold pa_Release (map fst (vi_Ports v)) (p_ports h) else p_ports h)"
  obtains k rs where "run_state (drop_ports v) h = ((), h\<lparr>h_tick := k, h_rules := rs, p_ports := ps\<rparr>)"
  using frame_drop_ports [of v h, folded assms] that by blast

lemma obtain_drop_network:
  assumes "no_fault h" "taps = (if vi_TapDevice v \<noteq> [] then (h_taps h)(vi_TapDevice v := None) else h_taps h)"
    and "subs = (if vi_TapDevice v \<noteq> [] then al_Release (vi_SubnetIdx v) (p_subnets h) else p_subnets h)"
  obtains k rs where "run_state (drop_network v) h = ((), h\<lparr>h_tick := k, h_rules := rs, h_taps := taps, p_subnets := subs\<rparr>)"
  using frame_drop_network [OF assms(1), of v, folded assms(2,3)] that by blast

text \<open>The host after a stop that met no fault, up to the clock and the rules.\<close>

definition stopped :: "string \<Rightarrow> vminfo \<Rightarrow> host \<Rightarrow> host \<Rightarrow> bool" where
  "stopped vm v h h' \<longleftrightarrow> h_env h' = h_env h \<and> h_conf h' = h_conf h \<and> h_dirs h' = h_dirs h \<and> h_blobs h' = h_blobs h \<and>
    h_fpinfo h' = h_fpinfo h \<and> h_cgroup h' = h_cgroup h \<and>
    h_vminfo h' = (h_vminfo h)(vm \<mapsto> ClearRuntime v) \<and>
    h_procs h' = (if vi_PID v > 0 then h_procs h - {vi_PID v} else h_procs h) \<and>
    h_taps h' = (if vi_TapDevice v \<noteq> [] then (h_taps h)(vi_TapDevice v := None) else h_taps h) \<and>
    al_inUse (p_subnets h') = (if vi_TapDevice v \<noteq> [] then al_inUse (p_subnets h) - {vi_SubnetIdx v} else al_inUse (p_subnets h)) \<and>
    pa_used (p_ports h') = (if vi_TapDevice v \<noteq> [] then pa_used (p_ports h) - fst ` set (vi_Ports v) else pa_used (p_ports h)) \<and>
    p_vms h' = (p_vms h)(vm := None) \<and> p_locks h' = (p_locks h)(vm := None) \<and>
    p_listeners h' = removeAll vm (p_listeners h)"

lemma run_StopSandbox:
  assumes "no_fault h" "h_vminfo h vm = Some v" "VmDir vm \<in> h_dirs h"
  shows "\<exists>h'. run_state (fc_StopSandbox vm force) h = (Inr (), h') \<and> stopped vm v h h'"
proof -
  let ?h0 = "h\<lparr>p_locks := (p_locks h)(vm \<mapsto> True), p_listeners := removeAll vm (p_listeners h), h_tick := Suc (h_tick h)\<rparr>"
  let ?kill = "if vi_PID v > 0 \<and> vi_PID v \<in> h_procs h
      then do { ignore (vminfo_Write vm (v\<lparr>vi_Stopping := True\<rparr>)); stop_process force (vi_PID v) } else ret ()"
  define vi where "vi = (if vi_PID v > 0 \<and> vi_PID v \<in> h_procs h then (h_vminfo h)(vm \<mapsto> v\<lparr>vi_Stopping := True\<rparr>) else h_vminfo h)"
  define procs where "procs = (if vi_PID v > 0 then h_procs h - {vi_PID v} else h_procs h)"
  define taps where "taps = (if vi_TapDevice v \<noteq> [] then (h_taps h)(vi_TapDevice v := None) else h_taps h)"
  define subs where "subs = (if vi_TapDevice v \<noteq> [] then al_Release (vi_SubnetIdx v) (p_subnets h) else p_subnets h)"
  define ports where "ports = (if vi_TapDevice v \<noteq> [] then fold pa_Release (map fst (vi_Ports v)) (p_ports h) else p_ports h)"
  have env: "no_fault h'" if "h_env h' = h_env h" for h' using assms(1) that by (simp add: no_fault_def)
  obtain k1 where k1: "snd (run_state ?kill ?h0) = ?h0\<lparr>h_tick := k1, h_vminfo := vi, h_procs := procs\<rparr>"
  proof (cases "vi_PID v > 0 \<and> vi_PID v \<in> h_procs h")
    case True
    let ?h1 = "?h0\<lparr>h_tick := Suc (h_tick ?h0), h_vminfo := vi\<rparr>"
    obtain k where "snd (run_state (stop_process force (vi_PID v)) ?h1) = ?h1\<lparr>h_tick := k, h_procs := h_procs ?h1 - {vi_PID v}\<rparr>"
      using frame_stop_process [OF env, of ?h1] by auto
    then show ?thesis using True assms that [of k] by (simp add: runs run_vminfo_Write vi_def procs_def)
  next
    case False
    then have "vi = h_vminfo h" "procs = h_procs h" by (auto simp: vi_def procs_def)
    moreover have "run_state ?kill ?h0 = ((), ?h0)" unfolding if_not_P [OF False] by simp
    ultimately show ?thesis using that [of "Suc (h_tick h)"] by simp
  qed
  let ?h2 = "?h0\<lparr>h_tick := k1, h_vminfo := vi, h_procs := procs\<rparr>"
  obtain k3 r3 where k3: "run_state (drop_ports v) ?h2 = ((), ?h2\<lparr>h_tick := k3, h_rules := r3, p_ports := ports\<rparr>)"
    by (rule obtain_drop_ports [of ports v ?h2]) (simp_all add: ports_def)
  let ?h3 = "?h2\<lparr>h_tick := k3, h_rules := r3, p_ports := ports\<rparr>"
  obtain k4 r4 where k4: "run_state (drop_network v) ?h3 = ((), ?h3\<lparr>h_tick := k4, h_rules := r4, h_taps := taps, p_subnets := subs\<rparr>)"
    by (rule obtain_drop_network [OF env, of ?h3 taps v subs]) (simp_all add: taps_def subs_def)
  have k1': "run_state ?kill ?h0 = ((), ?h2)" using k1 by (simp add: prod_eq_iff)
  have vi: "vi(vm \<mapsto> c) = (h_vminfo h)(vm \<mapsto> c)" for c by (simp add: vi_def)
  have r: "run_state (fc_StopSandbox vm force) h =
      run_state (do { drop_ports v; drop_network v;
       bindE (wrapE (vminfo_Write vm (ClearRuntime v))) (\<lambda>_. do { forget_vm vm; ret (Inr ()) }) }) ?h2"
    unfolding fc_StopSandbox_def using k1'
    by (simp add: runs run_ReadVMInfo stopBoostListener_def assms)
  show ?thesis unfolding r
    using k3 k4 by (simp add: runs run_vminfo_Write forget_vm_def assms vi stopped_def procs_def taps_def subs_def ports_def
      al_Release_def used_fold_Release)
qed

section \<open>Starting\<close>

text \<open>Everything but the clock, the caches, the rules, the cgroups and the balloons.\<close>

definition same :: "host \<Rightarrow> host \<Rightarrow> bool" where
  "same a b \<longleftrightarrow> h_env b = h_env a \<and> h_conf b = h_conf a \<and> h_dirs b = h_dirs a \<and> h_vminfo b = h_vminfo a \<and>
    h_fpinfo b = h_fpinfo a \<and> h_procs b = h_procs a \<and> h_taps b = h_taps a \<and> p_subnets b = p_subnets a \<and>
    p_ports b = p_ports a \<and> p_locks b = p_locks a"

lemma same_refl [simp]: "same h h"
  by (simp add: same_def)

lemma keeps_hio [pres]: "keeps (same a) (hio f)" "keeps (same a) (ask g)"
  by (simp_all add: valid_def same_def runs)

lemma keeps_os:
  assumes "\<And>h x h'. f h = Inr (x, h') \<Longrightarrow> same h h'"
  shows "keeps (same a) (os f)"
proof (rule validI)
  fix h r h' assume h: "same a h" "run_state (os f) h = (r, h')"
  show "same a h'"
  proof (cases "he_fail (h_env h) (h_tick h) = None \<and> \<not> isl (f (hticked h))")
    case True
    then obtain x where "f (hticked h) = Inr (x, h')" using h(2) by (cases "f (hticked h)") (auto simp: runs)
    then show ?thesis using assms [of "hticked h"] h(1) by (auto simp: same_def)
  next
    case False
    then have "h' = hticked h" using h(2) by (auto simp: runs split: option.splits sum.splits prod.splits)
    then show ?thesis using h(1) by (simp add: same_def)
  qed
qed

lemma keeps_wrapE [pres]: "keeps I m \<Longrightarrow> keeps I (wrapE m)"
  unfolding wrapE_def by (intro pres)

lemma keeps_iptables [pres]: "keeps (same a) (iptables args)"
  unfolding iptables_def by (rule keeps_os) (auto simp: same_def split: if_splits)

lemma keeps_cgroup [pres]: "keeps (same a) (writeCPUMax vm q)" "keeps (same a) (setupCgroup vm n)"
proof -
  show w: "keeps (same a) (writeCPUMax vm q)" for q
    unfolding writeCPUMax_def by (intro pres keeps_os) (auto simp: same_def split: if_splits)
  show "keeps (same a) (setupCgroup vm n)"
    unfolding setupCgroup_def by (intro pres keeps_os w) (auto simp: same_def split: if_splits)
qed

lemma keeps_masquerade [pres]: "keeps (same a) (masquerade op ip)"
  unfolding masquerade_def by (intro pres)

lemma keeps_listener [pres]: "keeps (same a) (startBoostListener vm)"
  unfolding startBoostListener_def by (intro pres keeps_os) (auto simp: same_def)

lemma keeps_os_Remove [pres]: "keeps (same a) (os_Remove p)"
  unfolding os_Remove_def by (rule keeps_os) (auto simp: same_def split: if_splits)

lemma same_run: "keeps (same h) m \<Longrightarrow> run_state m h = (r, h') \<Longrightarrow> same h h'"
  using validD [of "same h" m "\<lambda>_. same h" h] by simp

text \<open>The result of a launch that met no fault.\<close>

definition launched :: "bool \<Rightarrow> string \<Rightarrow> vminfo \<Rightarrow> string \<Rightarrow> int \<Rightarrow> host \<Rightarrow> host \<Rightarrow> bool" where
  "launched restore vm info tap idx h h' \<longleftrightarrow> h_env h' = h_env h \<and> h_dirs h' = h_dirs h \<and> h_taps h' = h_taps h \<and>
    p_subnets h' = p_subnets h \<and> p_ports h' = p_ports h \<and>
    (\<exists>pid active. pid > 0 \<and> pid \<in> range (he_pid (h_env h)) \<and> h_procs h' = insert pid (h_procs h) \<and>
      h_vminfo h' = (h_vminfo h)(vm \<mapsto> started_info restore pid tap idx active info))"

lemma run_launch:
  assumes "no_fault h" "\<And>t. he_pid (h_env h) t > 0" "VmDir vm \<in> h_dirs h"
  shows "\<exists>r h'. run_state (launch restore vm info tap idx) h = (r, h') \<and> launched restore vm info tap idx h h' \<and>
    r \<in> {Inr (), Inl (Wrapped (EIO ''agent timeout''))}"
proof -
  let ?b = "if restore then None else boot_balloon info"
  let ?pid = "he_pid (h_env h) (Suc (h_tick h))"
  obtain h1 where h1: "run_state (machine_Start vm ?b) (hticked h) = (Inr ?pid, h1)" "h_procs h1 = insert ?pid (h_procs h)"
    "h_env h1 = h_env h" "h_conf h1 = h_conf h" "h_dirs h1 = h_dirs h" "h_vminfo h1 = h_vminfo h" "h_taps h1 = h_taps h"
    "p_subnets h1 = p_subnets h" "p_ports h1 = p_ports h"
    using assms by (simp add: machine_Start_def runs)
  obtain c h2 where h2: "run_state (limit_cpu vm ?pid info) h1 = (c, h2)" by (cases "run_state (limit_cpu vm ?pid info) h1")
  have s2: "same h1 h2" by (rule same_run [OF _ h2]) (unfold limit_cpu_def, intro pres)
  define v where "v = started_info restore ?pid tap idx (\<not> isl c) info"
  let ?h3 = "hticked h2\<lparr>h_vminfo := (h_vminfo h2)(vm \<mapsto> v), p_vms := (p_vms h2)(vm \<mapsto> v)\<rparr>"
  have commit: "run_state (commitStartedVM vm v ?pid tap idx) h2 = (Inr (), ?h3)"
    using s2 h1 assms by (simp add: commitStartedVM_def runs run_vminfo_Write same_def no_fault_def)
  obtain r h4 where h4: "run_state (after_start restore vm info idx) ?h3 = (r, h4)"
    by (cases "run_state (after_start restore vm info idx) ?h3")
  have "same ?h3 h4" by (rule same_run [OF _ h4]) (unfold after_start_def, intro pres)
  moreover have "r \<in> {Inr (), Inl (Wrapped (EIO ''agent timeout''))}"
    using h4 by (auto simp: after_start_def runs split: prod.splits if_splits)
  moreover have "run_state (launch restore vm info tap idx) h = (r, h4)"
    using h1(1) h2 commit [unfolded v_def] h4 [unfolded v_def] assms(1) by (simp add: launch_def Let_def runs)
  ultimately show ?thesis using s2 h1 assms(2)
    by (auto simp: launched_def same_def v_def)
qed

lemma run_CreateTap: "no_fault h \<Longrightarrow> run_state (CreateTap t ip) h =
    (if h_taps h t \<noteq> None then (Inl (Wrapped (EIO ''EBUSY'')), hticked h)
     else (Inr (), h\<lparr>h_tick := Suc (Suc (Suc (h_tick h))), h_taps := (h_taps h)(t \<mapsto> ip)\<rparr>))"
  by (simp add: CreateTap_def runs)

text \<open>
  A start that met no fault: nothing to do for a live VM, an error with nothing started when the
  tap name is taken, else a launch on the subnet on record (restore) or a new one.
\<close>

lemma run_StartSandbox:
  assumes "no_fault h" "\<And>t. he_pid (h_env h) t > 0" "VmDir vm \<in> h_dirs h" "h_vminfo h vm = Some v"
    and "p_locks h vm \<noteq> Some True" "\<not> (vi_PID v > 0 \<and> vi_PID v \<in> h_procs h)" "h_taps h (TapName vm) = None"
    and idx: "idx = (if vi_RestoreFromSnapshot v then vi_RestoreSubnetIdx v else al_next (p_subnets h))"
    and info: "info = (if vi_RestoreFromSnapshot v then v else sized (h_conf h) v)"
  shows "\<exists>r h' h1. run_state (fc_StartSandbox vm) h = (r, h') \<and> r \<in> {Inr (), Inl (Wrapped (EIO ''agent timeout''))} \<and>
    launched (vi_RestoreFromSnapshot v) vm info (TapName vm) idx h1 h' \<and>
    h_env h1 = h_env h \<and> h_dirs h1 = h_dirs h \<and> h_vminfo h1 = h_vminfo h \<and> h_procs h1 = h_procs h \<and>
    h_taps h1 = (h_taps h)(TapName vm \<mapsto> HostIP idx) \<and> p_ports h1 = p_ports h \<and> al_inUse (p_subnets h1) = insert idx (al_inUse (p_subnets h))"
proof -
  define ls where "ls = (if p_locks h vm = None then (p_locks h)(vm \<mapsto> False) else p_locks h)"
  define subs where "subs = (if vi_RestoreFromSnapshot v then al_Reserve idx (p_subnets h) else snd (al_Allocate (p_subnets h)))"
  let ?h0 = "h\<lparr>p_locks := ls, h_tick := Suc (h_tick h)\<rparr>"
  let ?h1 = "h\<lparr>p_locks := ls, p_subnets := subs, h_tick := Suc (Suc (Suc (Suc (h_tick h)))),
      h_taps := (h_taps h)(TapName vm \<mapsto> HostIP idx)\<rparr>"
  have nf: "no_fault h'" if "h_env h' = h_env h" for h' using assms(1) that by (simp add: no_fault_def)
  have lock: "run_state (lockFor vm) h = (Inr (), h\<lparr>p_locks := ls\<rparr>)"
    using assms(5) by (auto simp: run_lockFor ls_def split: option.splits)
  have dead: "(0 < vi_PID v \<and> vi_PID v \<in> h_procs h) = False" using assms(6) by simp
  obtain r h' where l: "run_state (launch (vi_RestoreFromSnapshot v) vm info (TapName vm) idx) ?h1 = (r, h')"
    "launched (vi_RestoreFromSnapshot v) vm info (TapName vm) idx ?h1 h'" "r \<in> {Inr (), Inl (Wrapped (EIO ''agent timeout''))}"
    using run_launch [OF nf, of ?h1 vm "vi_RestoreFromSnapshot v" info "TapName vm" idx] assms(2,3) by auto
  have "run_state (fc_StartSandbox vm) h = (r, h')"
  proof (cases "vi_RestoreFromSnapshot v")
    case True
    then show ?thesis using assms(1,4,7) idx info lock l(1) nf
      by (simp add: fc_StartSandbox_def runs run_ReadVMInfo run_CreateTap dead startFromSnapshot_def subnet_Reserve_def subs_def)
  next
    case False
    then have "al_Allocate (p_subnets h) = (idx, subs)" using idx by (simp add: subs_def al_Allocate_def Let_def)
    then show ?thesis using False assms(1,4,7) info lock l(1) nf
      by (simp add: fc_StartSandbox_def runs run_ReadVMInfo run_CreateTap dead subnet_Allocate_def)
  qed
  moreover have "al_inUse subs = insert idx (al_inUse (p_subnets h))" using idx by (simp add: subs_def al_Reserve_def al_Allocate_def Let_def)
  ultimately show ?thesis using l(2,3) by (intro exI [of _ r] exI [of _ h'] exI [of _ ?h1]) simp
qed

end
