(* ===== verification/Guests.thy ===== *)
theory Guests imports Complex_Main Machines begin

text \<open>
  The life of a microVM on the host: what starting, stopping, destroying and reporting do to the
  resources it holds, with and without faults of the host.
\<close>

text \<open>The state the provider reports, whatever the clock.\<close>

definition reports :: "string \<Rightarrow> host \<Rightarrow> sandbox_state \<Rightarrow> bool" where
  "reports vm h s \<longleftrightarrow> fst (run_state (fc_GetSandboxState vm) h) = Inr s"

text \<open>Two hosts whose guests hold the same resources.\<close>

definition same_resources :: "host \<Rightarrow> host \<Rightarrow> bool" where
  "same_resources a b \<longleftrightarrow> h_procs b = h_procs a \<and> h_taps b = h_taps a \<and>
     al_inUse (p_subnets b) = al_inUse (p_subnets a) \<and> pa_used (p_ports b) = pa_used (p_ports a)"

lemma reports_iff: "no_fault h \<Longrightarrow> reports vm h s \<longleftrightarrow> state_on_record vm (he_agent (h_env h) (Suc (Suc (h_tick h)))) h = s"
  using run_GetSandboxState [of h vm] by (auto simp: reports_def prod_eq_iff)

lemma no_fault_env: "no_fault h \<Longrightarrow> h_env h' = h_env h \<Longrightarrow> no_fault h'"
  by (simp add: no_fault_def)

text \<open>
  C6: on a host where no call fails, starting a stopped microVM and then stopping it leaks nothing:
  afterwards the host runs the same processes, has the same tap devices, and the provider has the
  same subnets and ports in use as before; while it runs it is reported running, or starting when
  the agent is silent, and afterwards stopped.  The VM is one with no process on record, with no
  port published, not in the middle of a stop, and booted, not resumed from a snapshot; nobody
  holds its lock, its tap device does not exist yet, and the host gives the new process an
  identifier that is not in use.  What is left behind when a call of the host fails on the way is
  another matter: there a tap device does leak.
\<close>

theorem start_stop_roundtrip:
  assumes "no_fault h" "\<And>t. he_pid (h_env h) t > 0 \<and> he_pid (h_env h) t \<notin> h_procs h"
    and "VmDir vm \<in> h_dirs h" "h_vminfo h vm = Some v" "p_locks h vm \<noteq> Some True"
    and "vi_PID v = 0" "vi_Ports v = []" "\<not> vi_Stopping v" "\<not> vi_RestoreFromSnapshot v"
    and "TapName vm \<noteq> []" "h_taps h (TapName vm) = None" "al_ok (p_subnets h)"
  shows "\<exists>h1 h2. snd (run_state (fc_StartSandbox vm) h) = h1 \<and>
    (reports vm h1 SandboxRunning \<or> reports vm h1 SandboxStarting) \<and>
    run_state (fc_StopSandbox vm force) h1 = (Inr (), h2) \<and> reports vm h2 SandboxStopped \<and> same_resources h h2"
proof -
  let ?idx = "al_next (p_subnets h)" and ?tap = "TapName vm" and ?info = "sized (h_conf h) v"
  obtain r h1 h0 where s: "run_state (fc_StartSandbox vm) h = (r, h1)" and l: "launched False vm ?info ?tap ?idx h0 h1"
    and h0: "h_env h0 = h_env h" "h_dirs h0 = h_dirs h" "h_vminfo h0 = h_vminfo h" "h_procs h0 = h_procs h"
      "h_taps h0 = (h_taps h)(?tap \<mapsto> HostIP ?idx)" "p_ports h0 = p_ports h"
      "al_inUse (p_subnets h0) = insert ?idx (al_inUse (p_subnets h))"
    using run_StartSandbox [of h vm v ?idx ?info] assms by auto
  obtain pid active where pid: "pid > 0" "pid \<in> range (he_pid (h_env h))" "h_procs h1 = insert pid (h_procs h)"
    and vi: "h_vminfo h1 vm = Some (started_info False pid ?tap ?idx active ?info)"
    using l h0 by (auto simp: launched_def)
  have fresh: "pid \<notin> h_procs h" using pid(2) assms(2) by auto
  have e1: "h_env h1 = h_env h" "VmDir vm \<in> h_dirs h1" using l h0 assms(3) by (auto simp: launched_def)
  have n1: "no_fault h1" by (rule no_fault_env [OF assms(1) e1(1)])
  obtain h2 where h2: "run_state (fc_StopSandbox vm force) h1 = (Inr (), h2)"
    and st: "stopped vm (started_info False pid ?tap ?idx active ?info) h1 h2"
    using run_StopSandbox [OF n1 vi e1(2)] by blast
  have n2: "no_fault h2" using st n1 by (auto simp: stopped_def no_fault_def)
  have "reports vm h1 SandboxRunning \<or> reports vm h1 SandboxStarting"
    using e1 vi pid(1,3) assms(8) by (auto simp: reports_iff [OF n1] state_on_record_def started_info_def sized_def)
  moreover have "reports vm h2 SandboxStopped"
    using st e1(2) by (auto simp: reports_iff [OF n2] state_on_record_def stopped_def ClearRuntime_def)
  moreover have "same_resources h h2"
    using st l h0 pid(1,3) fresh assms(7,10-12)
    by (auto simp: same_resources_def stopped_def launched_def started_info_def sized_def al_ok_def)
  ultimately show ?thesis using s h2 by auto
qed

text \<open>A host whose only VM is stopped.\<close>

definition idle_host :: "(nat \<Rightarrow> string option) \<Rightarrow> host" where
  "idle_host fails = (demo_host fails)\<lparr>h_vminfo := [''v'' \<mapsto> ClearRuntime demo_vm], h_procs := {}, h_taps := Map.empty,
     p_vms := Map.empty, p_subnets := \<lparr>al_next = 4, al_inUse = {}\<rparr>\<rparr>"

lemmas idle_simps = idle_host_def demo_host_def demo_henv_def demo_conf_def demo_vm_def no_vminfo_def ClearRuntime_def no_fault_def
  al_ok_def TapName_def HasPrefix_def

lemma start_stop_roundtrip_witness:
  "\<exists>h1 h2. snd (run_state (fc_StartSandbox ''v'') (idle_host (\<lambda>_. None))) = h1 \<and>
    (reports ''v'' h1 SandboxRunning \<or> reports ''v'' h1 SandboxStarting) \<and>
    run_state (fc_StopSandbox ''v'' False) h1 = (Inr (), h2) \<and> reports ''v'' h2 SandboxStopped \<and>
    same_resources (idle_host (\<lambda>_. None)) h2"
  by (rule start_stop_roundtrip [where v = "ClearRuntime demo_vm"]) (simp_all add: idle_simps)

text \<open>
  destroying a microVM whose directory has lost its \<open>vminfo.json\<close> fails, although the provider
  reports that VM as destroyed and the code means to ignore a missing record: the error of the
  stop is wrapped twice and only one layer is looked through.  The directory stays, and every
  later destroy fails the same way.
\<close>

theorem destroy_without_record_fails:
  assumes "no_fault h" "h_vminfo h vm = None"
  shows "\<exists>h'. run_state (fc_DestroySandbox vm) h = (Inl (Wrapped (Wrapped (Wrapped NotExist))), h') \<and>
    h_dirs h' = h_dirs h \<and> reports vm h' SandboxDestroyed \<and>
    fst (run_state (fc_DestroySandbox vm) h') = Inl (Wrapped (Wrapped (Wrapped NotExist)))"
proof -
  let ?h' = "h\<lparr>p_locks := (p_locks h)(vm \<mapsto> True), p_listeners := removeAll vm (p_listeners h), h_tick := Suc (h_tick h)\<rparr>"
  have r: "fst (run_state (fc_DestroySandbox vm) g) = Inl (Wrapped (Wrapped (Wrapped NotExist)))"
    if "no_fault g" "h_vminfo g vm = None" for g
    using that by (simp add: fc_DestroySandbox_def fc_StopSandbox_def stopBoostListener_def runs run_ReadVMInfo)
  have n: "no_fault ?h'" using assms(1) by (simp add: no_fault_def)
  have "run_state (fc_DestroySandbox vm) h = (Inl (Wrapped (Wrapped (Wrapped NotExist))), ?h')"
    using assms by (simp add: fc_DestroySandbox_def fc_StopSandbox_def stopBoostListener_def runs run_ReadVMInfo)
  moreover have "reports vm ?h' SandboxDestroyed"
    using assms(2) by (simp add: reports_iff [OF n] state_on_record_def)
  ultimately show ?thesis using r [OF n] assms(2) by (intro exI [of _ ?h']) simp
qed

lemma destroy_without_record_fails_witness:
  "\<exists>h'. run_state (fc_DestroySandbox ''w'') (idle_host (\<lambda>_. None)) = (Inl (Wrapped (Wrapped (Wrapped NotExist))), h') \<and>
    h_dirs h' = h_dirs (idle_host (\<lambda>_. None)) \<and> reports ''w'' h' SandboxDestroyed \<and>
    fst (run_state (fc_DestroySandbox ''w'') h') = Inl (Wrapped (Wrapped (Wrapped NotExist)))"
  by (rule destroy_without_record_fails) (simp_all add: idle_simps)

text \<open>
  a start whose tap device is created but cannot be given its address leaves the tap behind:
  the start fails with nothing running and the subnet given back, and every later start of that VM
  is refused because the name is taken.
\<close>

theorem failed_tap_blocks_later_starts:
  assumes "he_fail (h_env h) = (\<lambda>_. None)(Suc (Suc (h_tick h)) := Some m)"
    and "h_vminfo h vm = Some v" "vi_PID v = 0" "\<not> vi_RestoreFromSnapshot v" "p_locks h vm \<noteq> Some True"
    and "h_taps h (TapName vm) = None" "al_ok (p_subnets h)"
  shows "\<exists>h1. run_state (fc_StartSandbox vm) h = (Inl (Wrapped (Wrapped (EIO m))), h1) \<and>
    h_vminfo h1 = h_vminfo h \<and> h_procs h1 = h_procs h \<and> al_inUse (p_subnets h1) = al_inUse (p_subnets h) \<and>
    fst (run_state (fc_StartSandbox vm) h1) = Inl (Wrapped (Wrapped (EIO ''EBUSY'')))"
proof -
  define ls where "ls = (if p_locks h vm = None then (p_locks h)(vm \<mapsto> False) else p_locks h)"
  define subs where "subs = al_Release (al_next (p_subnets h)) (snd (al_Allocate (p_subnets h)))"
  let ?h1 = "h\<lparr>p_locks := ls, p_subnets := subs, h_taps := (h_taps h)(TapName vm \<mapsto> (0, 0, 0, 0)),
      h_tick := Suc (Suc (Suc (h_tick h)))\<rparr>"
  have lock: "run_state (lockFor vm) h = (Inr (), h\<lparr>p_locks := ls\<rparr>)" "ls vm = Some False"
    using assms(5) by (auto simp: run_lockFor ls_def split: option.splits)
  have "run_state (fc_StartSandbox vm) h = (Inl (Wrapped (Wrapped (EIO m))), ?h1)"
    using assms(1-4,6) lock(1)
    by (simp add: fc_StartSandbox_def runs run_ReadVMInfo CreateTap_def subnet_Allocate_def subnet_Release_def al_Allocate_def
      Let_def subs_def)
  moreover have "al_inUse subs = al_inUse (p_subnets h)"
    using assms(7) by (auto simp: subs_def al_Release_def al_Allocate_def Let_def al_ok_def)
  moreover have "fst (run_state (fc_StartSandbox vm) ?h1) = Inl (Wrapped (Wrapped (EIO ''EBUSY'')))"
    using assms(1-4) lock(2)
    by (simp add: fc_StartSandbox_def runs run_lockFor run_ReadVMInfo CreateTap_def subnet_Allocate_def subnet_Release_def
      al_Allocate_def Let_def)
  ultimately show ?thesis by (intro exI [of _ ?h1]) simp
qed

lemma failed_tap_blocks_later_starts_witness:
  "\<exists>h1. run_state (fc_StartSandbox ''v'') (idle_host ((\<lambda>_. None)(2 := Some ''EPERM''))) = (Inl (Wrapped (Wrapped (EIO ''EPERM''))), h1) \<and>
    h_vminfo h1 = h_vminfo (idle_host ((\<lambda>_. None)(2 := Some ''EPERM''))) \<and>
    h_procs h1 = h_procs (idle_host ((\<lambda>_. None)(2 := Some ''EPERM''))) \<and>
    al_inUse (p_subnets h1) = al_inUse (p_subnets (idle_host ((\<lambda>_. None)(2 := Some ''EPERM'')))) \<and>
    fst (run_state (fc_StartSandbox ''v'') h1) = Inl (Wrapped (Wrapped (EIO ''EBUSY'')))"
  by (rule failed_tap_blocks_later_starts [where v = "ClearRuntime demo_vm"]) (simp_all add: idle_simps numeral_2_eq_2)

end
