(* ===== verification/Ports.thy ===== *)
theory Ports imports Complex_Main Guests begin

text \<open>
  Published ports: what publishing and unpublishing do to the record of a VM and to the port
  allocator when any call to the host may fail, and that over every sequence of operations no
  two VMs have the same host port on record.
\<close>

section \<open>Assertions on the records and the port allocator\<close>

abbreviation mem :: "((string \<Rightarrow> vminfo option) \<Rightarrow> port_allocator \<Rightarrow> bool) \<Rightarrow> host \<Rightarrow> bool" where
  "mem P \<equiv> \<lambda>h. P (h_vminfo h) (p_ports h)"

lemma keeps_mem:
  assumes "\<And>a. keeps (same a) m"
  shows "keeps (mem P) m"
proof (rule validI)
  fix h r h' assume "P (h_vminfo h) (p_ports h)" "run_state m h = (r, h')"
  moreover have "same h h'" using same_run [OF assms calculation(2)] .
  ultimately show "P (h_vminfo h') (p_ports h')" by (simp add: same_def)
qed

lemma keeps_mem_os: "(\<And>h x h'. f h = Inr (x, h') \<Longrightarrow> h_vminfo h' = h_vminfo h \<and> p_ports h' = p_ports h) \<Longrightarrow> keeps (mem P) (os f)"
  by (rule validI) (auto simp: runs split: option.splits sum.splits prod.splits)

lemma keeps_mem_alter: "(\<And>h. h_vminfo (f h) = h_vminfo h \<and> p_ports (f h) = p_ports h) \<Longrightarrow> keeps (mem P) (alter f)"
  by (simp add: valid_def runs)

lemma keeps_mem_basic [pres]:
  "keeps (mem P) (hio f1)" "keeps (mem P) (ask f2)" "keeps (mem P) (processAlive pid)" "keeps (mem P) (lockFor vm)"
  "keeps (mem P) (syncPortsCache vm ps)" "keeps (mem P) (subnet_Allocate)" "keeps (mem P) (subnet_Release i)"
  "keeps (mem P) (subnet_Reserve i)" "keeps (mem P) (stopBoostListener vm)" "keeps (mem P) (forget_vm vm)"
  by (auto simp: valid_def runs processAlive_def lockFor_def syncPortsCache_def subnet_Allocate_def subnet_Release_def
    subnet_Reserve_def stopBoostListener_def forget_vm_def split: option.splits prod.splits bool.splits)

lemma keeps_mem_or_undo [pres]: "keeps I m \<Longrightarrow> keeps I undo \<Longrightarrow> keeps I (or_undo m undo)"
  unfolding or_undo_def by (intro pres)

lemma keeps_mem_host [pres]:
  "keeps (mem P) (iptables args)" "keeps (mem P) (ReadVMInfo vm)" "keeps (mem P) (sigkill pid)"
  "keeps (mem P) (CreateTap t ip)" "keeps (mem P) (DeleteTap t)" "keeps (mem P) (writeCPUMax vm q)"
  "keeps (mem P) (setupCgroup vm n)" "keeps (mem P) (startBoostListener vm)" "keeps (mem P) (os_Remove p)"
  "keeps (mem P) (masquerade op ip)" "keeps (mem P) (machine_Start vm b)"
proof -
  note os = keeps_mem_os
  show "keeps (mem P) (ReadVMInfo vm)" unfolding ReadVMInfo_def by (intro pres os) (auto split: option.splits)
  show "keeps (mem P) (sigkill pid)" unfolding sigkill_def by (intro pres os) (auto split: if_splits)
  show "keeps (mem P) (CreateTap t ip)" unfolding CreateTap_def by (intro pres os) (auto split: if_splits)
  show "keeps (mem P) (DeleteTap t)" unfolding DeleteTap_def by (intro pres os) (auto split: if_splits)
  show "keeps (mem P) (machine_Start vm b)" unfolding machine_Start_def by (intro pres os) auto
qed (rule keeps_mem, intro pres)+

lemma keeps_mem_cgroup [pres]: "keeps (mem P) (removeCgroup_from n e vm)" "keeps (mem P) (removeCgroup vm)"
  "keeps (mem P) (patchBalloon_from n e vm a)" "keeps (mem P) (patchBalloon vm a)"
proof -
  show r: "keeps (mem P) (removeCgroup_from n e vm)" for n e
    by (induction n arbitrary: e) (auto intro!: pres keeps_mem_os split: if_splits)
  show "keeps (mem P) (removeCgroup vm)" unfolding removeCgroup_def by (intro pres r)
  show b: "keeps (mem P) (patchBalloon_from n e vm a)" for n e
    by (induction n arbitrary: e) (auto intro!: pres keeps_mem_os)
  show "keeps (mem P) (patchBalloon vm a)" unfolding patchBalloon_def by (rule b)
qed

lemma keeps_mem_dnat [pres]: "keeps (mem P) (RemoveDNAT hp ip tp)" "keeps (mem P) (AddDNAT hp ip tp)"
proof -
  show r: "keeps (mem P) (RemoveDNAT hp ip tp)" unfolding RemoveDNAT_def by (intro pres)
  show "keeps (mem P) (AddDNAT hp ip tp)" unfolding AddDNAT_def by (intro pres r)
qed

section \<open>Publishing\<close>

lemma valid_or_undo:
  assumes "valid P m R" "\<And>e. valid (R (Inl e)) undo (\<lambda>_. Q (Inl (Wrapped e)))" "\<And>x s. R (Inr x) s \<Longrightarrow> Q (Inr x) s"
  shows "valid P (or_undo m undo) Q"
  unfolding or_undo_def
proof (rule valid_bind [OF assms(1)])
  fix r show "valid (R r) (case r of Inl e \<Rightarrow> do { undo; ret (Inl (Wrapped e)) } | Inr x \<Rightarrow> ret (Inr x)) Q"
    by (cases r) (auto intro: valid_bind [OF assms(2)] valid_return assms(3))
qed

lemma valid_wrapE: "valid P m R \<Longrightarrow> (\<And>e s. R (Inl e) s \<Longrightarrow> Q (Inl (Wrapped e)) s) \<Longrightarrow> (\<And>x s. R (Inr x) s \<Longrightarrow> Q (Inr x) s) \<Longrightarrow>
    valid P (wrapE m) Q"
  by (fastforce simp: valid_def runs split: prod.splits sum.splits)

lemma read_valid: "valid (mem P) (ReadVMInfo vm) (\<lambda>r h. mem P h \<and> (\<forall>v. r = Inr v \<longrightarrow> h_vminfo h vm = Some v))"
  by (auto simp: valid_def run_ReadVMInfo split: option.splits)

lemma write_valid: "valid (mem P) (vminfo_Write vm v) (\<lambda>r. case r of Inl _ \<Rightarrow> mem P
    | Inr _ \<Rightarrow> mem (\<lambda>m a. \<exists>m'. P m' a \<and> m = m'(vm \<mapsto> v)))"
  by (auto simp: valid_def run_vminfo_Write split: option.splits)

definition unbooked :: "(string \<Rightarrow> vminfo option) \<Rightarrow> int set \<Rightarrow> (string \<Rightarrow> vminfo option) \<Rightarrow> port_allocator \<Rightarrow> bool" where
  "unbooked M U m a \<longleftrightarrow> m = M \<and> pa_used a = U \<and> pa_ok a"

definition held :: "(string \<Rightarrow> vminfo option) \<Rightarrow> int set \<Rightarrow> int \<Rightarrow> (string \<Rightarrow> vminfo option) \<Rightarrow> port_allocator \<Rightarrow> bool" where
  "held M U p m a \<longleftrightarrow> m = M \<and> pa_used a = insert p U \<and> p \<notin> U \<and> pa_ok a"

lemma allocate_valid: "valid (mem (unbooked M U)) port_Allocate (\<lambda>r. case r of Inl _ \<Rightarrow> mem (unbooked M U) | Inr p \<Rightarrow> mem (held M U p))"
proof (rule validI)
  fix h r h' assume P: "unbooked M U (h_vminfo h) (p_ports h)" and r: "run_state port_Allocate h = (r, h')"
  then have ok: "pa_ok (p_ports h)" by (simp add: unbooked_def)
  from ok show "(case r of Inl _ \<Rightarrow> mem (unbooked M U) | Inr p \<Rightarrow> mem (held M U p)) h'"
  proof (cases rule: pa_Allocate_cases)
    case (port i)
    then show ?thesis using P r pa_ok_Allocate [OF ok port(4)] by (auto simp: port_Allocate_def unbooked_def held_def)
  next
    case full
    then show ?thesis using P r pa_ok_Allocate [OF ok full(2)] by (auto simp: port_Allocate_def unbooked_def)
  qed
qed

lemma release_valid: "valid (mem (held M U p)) (port_Release p) (\<lambda>_. mem (unbooked M U))"
  by (auto simp: valid_def port_Release_def runs held_def unbooked_def pa_Release_def pa_ok_def)

lemma valid_pure: "(p \<Longrightarrow> valid P m Q) \<Longrightarrow> valid (\<lambda>s. P s \<and> p) m Q"
  by (auto simp: valid_def)

text \<open>What publishing leaves: the old record and ports in use, or both with one new port.\<close>

definition published :: "string \<Rightarrow> int \<Rightarrow> (string \<Rightarrow> vminfo option) \<Rightarrow> int set \<Rightarrow> endpoint fres \<Rightarrow>
    (string \<Rightarrow> vminfo option) \<Rightarrow> port_allocator \<Rightarrow> bool" where
  "published vm tp M U r m a \<longleftrightarrow> (case r of
     Inl _ \<Rightarrow> unbooked M U m a
   | Inr ep \<Rightarrow> \<exists>v p. ep = \<lparr>ep_HostAddress = ''0.0.0.0'', ep_PublishedPort = p\<rparr> \<and> p \<notin> U \<and> M vm = Some v \<and>
       m = M(vm \<mapsto> v\<lparr>vi_Ports := AList.update p tp (vi_Ports v)\<rparr>) \<and> pa_used a = insert p U \<and> pa_ok a)"

text \<open>The outcome of one guarded step: on failure the port has been given back.\<close>

abbreviation or_unbooked :: "(string \<Rightarrow> vminfo option) \<Rightarrow> int set \<Rightarrow> ('a \<Rightarrow> host \<Rightarrow> bool) \<Rightarrow> 'a fres \<Rightarrow> host \<Rightarrow> bool" where
  "or_unbooked M U S r \<equiv> (case r of Inl _ \<Rightarrow> mem (unbooked M U) | Inr x \<Rightarrow> S x)"

lemma guard_valid:
  assumes "valid P m (\<lambda>r. case r of Inl _ \<Rightarrow> mem (held M U p) | Inr x \<Rightarrow> S x)" "valid (mem (held M U p)) undo (\<lambda>_. mem (unbooked M U))"
  shows "valid P (or_undo m undo) (or_unbooked M U S)"
  by (rule valid_or_undo [OF assms(1)]) (use assms(2) in auto)

lemma guard_keeps:
  assumes "keeps (mem (held M U p)) m" "valid (mem (held M U p)) undo (\<lambda>_. mem (unbooked M U))"
  shows "valid (mem (held M U p)) (or_undo m undo) (or_unbooked M U (\<lambda>_. mem (held M U p)))"
  by (rule guard_valid [OF valid_post [OF assms(1)] assms(2)]) (simp split: sum.splits)

lemma then_valid:
  assumes "valid P m (or_unbooked M U S)" "\<And>x. valid (S x) (f x) (\<lambda>r. mem (published vm tp M U r))"
  shows "valid P (bindE m f) (\<lambda>r. mem (published vm tp M U r))"
  by (rule valid_bindE [OF assms(1)]) (use assms(2) in \<open>auto simp: published_def\<close>)

lemma publish_valid: "valid (mem (unbooked M U)) (fc_PublishPort vm tp) (\<lambda>r. mem (published vm tp M U r))"
proof -
  let ?Q = "\<lambda>r. mem (published vm tp M U r)"
  note rel = release_valid [of M U]
  have undo: "valid (mem (held M U p)) (do { RemoveDNAT p ip t; port_Release p }) (\<lambda>_. mem (unbooked M U))" for p ip t
    by (rule valid_bind [OF keeps_mem_dnat(1) rel])
  have commit: "valid (\<lambda>h. mem (\<lambda>m a. \<exists>m'. held M U p m' a \<and> m = m'(vm \<mapsto> v')) h)
      (do { syncPortsCache vm ps; ret (Inr \<lparr>ep_HostAddress = ''0.0.0.0'', ep_PublishedPort = p\<rparr>) }) ?Q"
    if "M vm = Some v" "v' = v\<lparr>vi_Ports := AList.update p tp (vi_Ports v)\<rparr>" for p v v' ps
    using that by (intro valid_bind [OF keeps_mem_basic(5)] valid_return) (auto simp: published_def held_def)
  have book: "valid (mem (held M U p)) (bindE (or_undo (AddDNAT p ip tp) (port_Release p)) (\<lambda>_.
      bindE (or_undo (vminfo_Write vm v') (do { RemoveDNAT p ip tp; port_Release p })) (\<lambda>_. do {
        syncPortsCache vm ps; ret (Inr \<lparr>ep_HostAddress = ''0.0.0.0'', ep_PublishedPort = p\<rparr>) }))) ?Q"
    if "M vm = Some v" "v' = v\<lparr>vi_Ports := AList.update p tp (vi_Ports v)\<rparr>" for p ip v v' ps
    by (rule then_valid [OF guard_keeps [OF keeps_mem_dnat(2) rel]],
        rule then_valid [OF guard_valid [OF write_valid undo]], rule commit [OF that])
  have rest: "valid (\<lambda>h. mem (held M U p) h \<and> M vm = Some v) (do {
       alive \<leftarrow> processAlive (vi_PID v);
       if vi_PID v = 0 \<or> \<not> alive \<or> vi_TapDevice v = []
       then do { port_Release p; ret (Inl (EIO ''sandbox is not running'')) }
       else do {
         let ip = GuestIP (vi_SubnetIdx v);
         let info' = v\<lparr>vi_Ports := AList.update p tp (vi_Ports v)\<rparr>;
         bindE (or_undo (AddDNAT p ip tp) (port_Release p)) (\<lambda>_.
         bindE (or_undo (vminfo_Write vm info') (do { RemoveDNAT p ip tp; port_Release p })) (\<lambda>_. do {
           syncPortsCache vm (vi_Ports info');
           ret (Inr \<lparr>ep_HostAddress = ''0.0.0.0'', ep_PublishedPort = p\<rparr>) })) } }) ?Q" for p v
  proof (rule valid_pure, rule valid_bind [OF keeps_mem_basic(3)])
    fix alive assume v: "M vm = Some v"
    have "valid (mem (held M U p)) (do { port_Release p; ret (Inl (EIO ''sandbox is not running'')) }) ?Q"
      by (rule valid_bind [OF rel valid_return]) (simp add: published_def)
    then show "valid (mem (held M U p)) (if vi_PID v = 0 \<or> \<not> alive \<or> vi_TapDevice v = []
       then do { port_Release p; ret (Inl (EIO ''sandbox is not running'')) }
       else do {
         let ip = GuestIP (vi_SubnetIdx v);
         let info' = v\<lparr>vi_Ports := AList.update p tp (vi_Ports v)\<rparr>;
         bindE (or_undo (AddDNAT p ip tp) (port_Release p)) (\<lambda>_.
         bindE (or_undo (vminfo_Write vm info') (do { RemoveDNAT p ip tp; port_Release p })) (\<lambda>_. do {
           syncPortsCache vm (vi_Ports info');
           ret (Inr \<lparr>ep_HostAddress = ''0.0.0.0'', ep_PublishedPort = p\<rparr>) })) }) ?Q"
      using book [OF v refl] by (simp add: Let_def)
  qed
  have read: "valid (mem (held M U p)) (ReadVMInfo vm) (\<lambda>r. case r of Inl _ \<Rightarrow> mem (held M U p)
      | Inr v \<Rightarrow> \<lambda>h. mem (held M U p) h \<and> M vm = Some v)" for p
    by (rule valid_post [OF read_valid]) (auto simp: held_def split: sum.splits)
  have alloc: "valid (mem (unbooked M U)) (wrapE port_Allocate) (or_unbooked M U (\<lambda>p. mem (held M U p)))"
    by (rule valid_wrapE [OF allocate_valid]) auto
  show ?thesis unfolding fc_PublishPort_def
    by (rule then_valid [OF alloc], rule then_valid [OF guard_keeps [OF keeps_mem_basic(4) rel]],
        rule then_valid [OF guard_valid [OF read rel]], rule rest)
qed

text \<open>
  C15: publishing a port is all or nothing, whichever calls to the host fail: on an error the records
  of all VMs and the set of ports in use are as before, on success the returned port was free,
  is in use, and is on record for that VM, and nothing else has changed.
\<close>

theorem publish_all_or_nothing:
  assumes "pa_ok (p_ports h)" "run_state (fc_PublishPort vm tp) h = (r, h')"
  shows "case r of
      Inl _ \<Rightarrow> h_vminfo h' = h_vminfo h \<and> pa_used (p_ports h') = pa_used (p_ports h)
    | Inr ep \<Rightarrow> ep_PublishedPort ep \<notin> pa_used (p_ports h) \<and>
        pa_used (p_ports h') = insert (ep_PublishedPort ep) (pa_used (p_ports h)) \<and>
        (\<exists>v v'. h_vminfo h vm = Some v \<and> h_vminfo h' = (h_vminfo h)(vm \<mapsto> v') \<and>
          map_of (vi_Ports v') = (map_of (vi_Ports v))(ep_PublishedPort ep \<mapsto> tp))"
proof -
  have q: "published vm tp (h_vminfo h) (pa_used (p_ports h)) r (h_vminfo h') (p_ports h')"
    by (rule validD [OF publish_valid _ assms(2)]) (simp add: unbooked_def assms(1))
  show ?thesis
  proof (cases r)
    case (Inl e)
    then show ?thesis using q by (simp add: published_def unbooked_def)
  next
    case (Inr ep)
    then obtain v p where ep: "ep = \<lparr>ep_HostAddress = ''0.0.0.0'', ep_PublishedPort = p\<rparr>"
      and v: "p \<notin> pa_used (p_ports h)" "pa_used (p_ports h') = insert p (pa_used (p_ports h))" "h_vminfo h vm = Some v"
        "h_vminfo h' = (h_vminfo h)(vm \<mapsto> v\<lparr>vi_Ports := AList.update p tp (vi_Ports v)\<rparr>)"
      using q by (auto simp: published_def)
    define v' where "v' = v\<lparr>vi_Ports := AList.update p tp (vi_Ports v)\<rparr>"
    have "map_of (vi_Ports v') = (map_of (vi_Ports v))(p \<mapsto> tp)" by (simp add: update_conv' v'_def)
    then have "\<exists>v v'. h_vminfo h vm = Some v \<and> h_vminfo h' = (h_vminfo h)(vm \<mapsto> v') \<and> map_of (vi_Ports v') = (map_of (vi_Ports v))(p \<mapsto> tp)"
      using v(3) v(4) [folded v'_def] by blast
    then show ?thesis unfolding Inr ep using v(1,2) by (simp del: fun_upd_apply)
  qed
qed

lemma publish_all_or_nothing_witness:
  "case run_state (fc_PublishPort ''v'' 80) (demo_host ((\<lambda>_. None)(2 := Some ''EPERM''))) of (r, h') \<Rightarrow> (case r of
      Inl _ \<Rightarrow> h_vminfo h' = h_vminfo (demo_host ((\<lambda>_. None)(2 := Some ''EPERM''))) \<and> pa_used (p_ports h') = {}
    | Inr ep \<Rightarrow> ep_PublishedPort ep \<notin> {})"
proof -
  let ?h = "demo_host ((\<lambda>_. None)(2 := Some ''EPERM''))"
  obtain r h' where r: "run_state (fc_PublishPort ''v'' 80) ?h = (r, h')" by (cases "run_state (fc_PublishPort ''v'' 80) ?h")
  have "pa_ok (p_ports ?h)" "pa_used (p_ports ?h) = {}" using pa_keeps_ok(1) by (simp_all add: demo_host_def NewPortAllocator_def)
  then show ?thesis using publish_all_or_nothing [OF _ r] r by (simp split: sum.splits)
qed

section \<open>Ports on record\<close>

text \<open>The host ports on record of each VM, and the invariant of the records and the allocator.\<close>

definition booked :: "(string \<Rightarrow> vminfo option) \<Rightarrow> string \<Rightarrow> int list" where
  "booked m vm = (case m vm of None \<Rightarrow> [] | Some v \<Rightarrow> map fst (vi_Ports v))"

definition ports_ok :: "(string \<Rightarrow> int list) \<Rightarrow> port_allocator \<Rightarrow> bool" where
  "ports_ok b a \<longleftrightarrow> pa_ok a \<and> (\<forall>vm. distinct (b vm) \<and> set (b vm) \<subseteq> pa_used a) \<and>
     (\<forall>vm vm'. vm \<noteq> vm' \<longrightarrow> set (b vm) \<inter> set (b vm') = {})"

abbreviation bk :: "((string \<Rightarrow> int list) \<Rightarrow> port_allocator \<Rightarrow> bool) \<Rightarrow> host \<Rightarrow> bool" where
  "bk P \<equiv> mem (\<lambda>m a. P (booked m) a)"

lemma booked_upd: "booked (m(vm \<mapsto> v)) = (booked m)(vm := map fst (vi_Ports v))"
  by (auto simp: booked_def fun_eq_iff)

lemma booked_same: "m vm = Some v \<Longrightarrow> vi_Ports v' = vi_Ports v \<Longrightarrow> booked (m(vm \<mapsto> v')) = booked m"
  by (auto simp: booked_def fun_eq_iff)

lemma ports_okD: "ports_ok b a \<Longrightarrow> p \<in> set (b vm) \<Longrightarrow> p \<in> set (b vm') \<Longrightarrow> vm = vm'"
  unfolding ports_ok_def by blast

lemma ports_ok_grow: "ports_ok b a \<Longrightarrow> pa_ok a' \<Longrightarrow> p \<notin> pa_used a \<Longrightarrow> pa_used a' = insert p (pa_used a) \<Longrightarrow>
    set ps = insert p (set (b vm)) \<Longrightarrow> distinct ps \<Longrightarrow> ports_ok (b(vm := ps)) a'"
  unfolding ports_ok_def by (auto; blast)

lemma ports_ok_shrink: "ports_ok b a \<Longrightarrow> set ps \<subseteq> set (b vm) \<Longrightarrow> distinct ps \<Longrightarrow> ports_ok (b(vm := ps)) a"
  unfolding ports_ok_def by (auto; blast)

lemma ports_ok_Release: "ports_ok b a \<Longrightarrow> \<forall>vm. p \<notin> set (b vm) \<Longrightarrow> ports_ok b (pa_Release p a)"
  using pa_keeps_ok(2) unfolding ports_ok_def by (auto simp: pa_Release_def pa_ok_def)

lemma keeps_weaken: "valid P m (\<lambda>_. Q) \<Longrightarrow> (\<And>s. P' s \<Longrightarrow> P s) \<Longrightarrow> (\<And>s. Q s \<Longrightarrow> Q' s) \<Longrightarrow> valid P' m (\<lambda>_. Q')"
  by (fastforce simp: valid_def split: prod.splits)

abbreviation booked_as :: "((string \<Rightarrow> int list) \<Rightarrow> port_allocator \<Rightarrow> bool) \<Rightarrow> string \<Rightarrow> vminfo \<Rightarrow> host \<Rightarrow> bool" where
  "booked_as P vm v \<equiv> bk (\<lambda>b a. P b a \<and> b vm = map fst (vi_Ports v))"

lemma keeps_write_same: "vi_Ports v' = vi_Ports v \<Longrightarrow> keeps (booked_as P vm v) (vminfo_Write vm v')"
  by (auto simp: valid_def run_vminfo_Write booked_upd fun_upd_idem split: option.splits)

lemma valid_read_then:
  assumes "\<And>v. valid (booked_as P vm v) (f v) Q" "\<And>e s. bk P s \<Longrightarrow> Q (Inl e) s"
  shows "valid (bk P) (bindE (wrapE (ReadVMInfo vm)) f) Q"
proof (rule valid_bindE [where R = "\<lambda>r h. bk P h \<and> (\<forall>v. r = Inr v \<longrightarrow> h_vminfo h vm = Some v)"])
  show "valid (bk P) (wrapE (ReadVMInfo vm)) (\<lambda>r h. bk P h \<and> (\<forall>v. r = Inr v \<longrightarrow> h_vminfo h vm = Some v))"
    by (rule valid_wrapE [OF read_valid]) auto
  show "valid (\<lambda>h. bk P h \<and> (\<forall>v. Inr x = Inr v \<longrightarrow> h_vminfo h vm = Some v)) (f x) Q" for x
    by (rule valid_pre [OF assms(1)]) (simp add: booked_def)
qed (use assms(2) in auto)

lemma booked_as_weak: "keeps (booked_as P vm v) m \<Longrightarrow> valid (booked_as P vm v) m (\<lambda>_. bk P)"
  by (erule valid_post) simp

subsection \<open>Starting and resizing\<close>

lemma keeps_bk_cleanup [pres]: "keeps (mem P) (cleanupStartFailure vm pid tap idx)"
  unfolding cleanupStartFailure_def Let_def by (intro pres keeps_mem_os) auto

lemma keeps_launch: "keeps (booked_as P vm info) (launch restore vm info tap idx)"
proof -
  have c: "keeps (booked_as P vm info) (commitStartedVM vm (started_info restore pid tap idx act info) pid tap idx)" for pid act
    unfolding commitStartedVM_def
    by (intro pres keeps_write_same keeps_mem_alter) (simp_all add: started_info_def)
  show ?thesis unfolding launch_def limit_cpu_def after_start_def Let_def
    by (intro pres c keeps_mem_os keeps_mem_alter) auto
qed

lemma keeps_StartSandbox: "keeps (bk P) (fc_StartSandbox vm)"
proof -
  have r: "keeps (booked_as P vm v) (startFromSnapshot vm v)" for v
    unfolding startFromSnapshot_def by (intro pres keeps_launch)
  have l: "keeps (booked_as P vm v) (launch False vm (sized conf v) (TapName vm) idx)" for v conf idx
    using keeps_launch [of P vm "sized conf v"] by (simp add: sized_def)
  have b: "keeps (booked_as P vm v) (do {
       alive \<leftarrow> processAlive (vi_PID v);
       if vi_PID v > 0 \<and> alive then ret (Inr ())
       else if vi_RestoreFromSnapshot v then startFromSnapshot vm v
       else do {
         idx \<leftarrow> subnet_Allocate;
         bindE (or_undo (CreateTap (TapName vm) (HostIP idx)) (subnet_Release idx)) (\<lambda>_. do {
           conf \<leftarrow> ask h_conf;
           launch False vm (sized conf v) (TapName vm) idx }) } })" for v
    by (intro pres r l)
  show ?thesis unfolding fc_StartSandbox_def
    by (intro keeps_bindE keeps_wrapE keeps_mem_basic(4) valid_read_then booked_as_weak b) auto
qed

lemma keeps_fc_UpdateResources: "keeps (bk P) (fc_UpdateResources vm req)"
proof -
  have a: "keeps (booked_as P vm v) (resize_apply vm req v)" for v
    unfolding resize_apply_def Let_def
    by (intro pres keeps_write_same keeps_mem_alter) (simp_all add: resized_def)
  have b: "keeps (booked_as P vm v) (bindE (ret (resize_check req v)) (\<lambda>_. resize_apply vm req v))" for v
    by (intro pres a)
  show ?thesis unfolding fc_UpdateResources_def
    by (intro pres keeps_mem_basic valid_read_then booked_as_weak b) auto
qed

subsection \<open>Creating, unpublishing, stopping and destroying\<close>

lemma keeps_RemoveAll: "keeps (bk ports_ok) (RemoveAll (VmDir vm))"
proof -
  have "ports_ok (booked (drop_info (VmDir vm) m VmDir)) a" if "ports_ok (booked m) a" for m a
  proof -
    have "booked (drop_info (VmDir vm) m VmDir) = (booked m)(vm := [])" by (auto simp: booked_def drop_info_def fun_eq_iff)
    then show ?thesis using ports_ok_shrink [OF that, of "[]" vm] by simp
  qed
  then show ?thesis by (simp add: valid_def RemoveAll_def runs split: option.splits)
qed

lemma keeps_CreateSandbox: "keeps (bk ports_ok) (fc_CreateSandbox req)"
proof -
  have w: "keeps (bk ports_ok) (vminfo_Write vm v)" if "vi_Ports v = []" for vm v
    using ports_ok_shrink [of _ _ "[]" vm] that by (simp add: valid_def run_vminfo_Write booked_upd split: option.splits)
  have m: "vi_Ports (machine_info conf req vm cid uid) = []" for conf vm cid uid
    by (simp add: machine_info_def no_vminfo_def Let_def)
  show ?thesis unfolding fc_CreateSandbox_def new_vm_def MkdirAll_def cloneFile_def allocateCID_def uid_alloc_def Let_def
    by (intro pres keeps_RemoveAll w keeps_mem_os) (auto simp: m valid_def split: option.splits if_splits prod.splits)
qed

lemma keeps_UnpublishPort: "keeps (bk ports_ok) (fc_UnpublishPort vm hp)"
proof -
  let ?free = "bk (\<lambda>b a. ports_ok b a \<and> (\<forall>k. hp \<notin> set (b k)))"
  have free: "ports_ok (b(vm := map fst (AList.delete hp ps))) a \<and> (\<forall>k. hp \<notin> set ((b(vm := map fst (AList.delete hp ps))) k))"
    if b: "ports_ok b a" "b vm = map fst ps" "hp \<in> fst ` set ps" for b a ps
  proof
    have "set (map fst (AList.delete hp ps)) \<subseteq> set (b vm)" using b(2) by (auto simp: AList.delete_eq)
    moreover have "distinct (map fst (AList.delete hp ps))"
      using b(1,2) by (metis distinct_delete ports_ok_def)
    ultimately show "ports_ok (b(vm := map fst (AList.delete hp ps))) a" using ports_ok_shrink [OF b(1)] by blast
    have "hp \<in> set (b vm)" using b(2,3) by simp
    then show "\<forall>k. hp \<notin> set ((b(vm := map fst (AList.delete hp ps))) k)"
      using b(1) ports_okD [OF b(1)] by (auto simp: AList.delete_eq)
  qed
  have rel: "valid ?free (port_Release hp) (\<lambda>_. bk ports_ok)"
    using ports_ok_Release by (auto simp: valid_def port_Release_def runs)
  have w: "valid (booked_as ports_ok vm v) (wrapE (vminfo_Write vm (v\<lparr>vi_Ports := AList.delete hp (vi_Ports v)\<rparr>)))
      (\<lambda>r. case r of Inl _ \<Rightarrow> bk ports_ok | Inr _ \<Rightarrow> ?free)" if "hp \<in> fst ` set (vi_Ports v)" for v
    using free [OF _ _ that]
    by (auto simp: valid_def runs run_vminfo_Write booked_upd simp del: fun_upd_apply split: option.splits)
  have fin: "valid ?free (do { syncPortsCache vm ps; port_Release hp; ret (Inr ()) }) (\<lambda>_. bk ports_ok)" for ps
    by (intro valid_bind [OF keeps_mem_basic(5)] valid_bind [OF rel] valid_return)
  have "valid (booked_as ports_ok vm v) (case map_of (vi_Ports v) hp of
         None \<Rightarrow> ret (Inr ())
       | Some tp \<Rightarrow> do {
           RemoveDNAT hp (GuestIP (vi_SubnetIdx v)) tp;
           let info' = v\<lparr>vi_Ports := AList.delete hp (vi_Ports v)\<rparr>;
           bindE (wrapE (vminfo_Write vm info')) (\<lambda>_. do {
             syncPortsCache vm (vi_Ports info');
             port_Release hp;
             ret (Inr ()) }) }) (\<lambda>_. bk ports_ok)" for v
  proof (cases "map_of (vi_Ports v) hp")
    case None
    have "valid (booked_as ports_ok vm v) (ret (Inr ())) (\<lambda>_. bk ports_ok)" by (rule valid_return) simp
    then show ?thesis using None by simp
  next
    case (Some tp)
    then have hp: "hp \<in> fst ` set (vi_Ports v)" by (metis image_eqI fst_conv map_of_SomeD)
    show ?thesis unfolding Some option.case Let_def
      by (rule valid_bind [OF keeps_mem_dnat(1)], rule valid_bindE [OF w [OF hp]]) (use fin in auto)
  qed
  then show ?thesis unfolding fc_UnpublishPort_def
    by (intro keeps_bindE keeps_wrapE keeps_mem_basic(4) valid_read_then) auto
qed

lemma keeps_PublishPort: "keeps (bk ports_ok) (fc_PublishPort vm tp)"
proof (rule validI)
  fix h r h' assume ok: "ports_ok (booked (h_vminfo h)) (p_ports h)" and r: "run_state (fc_PublishPort vm tp) h = (r, h')"
  have q: "published vm tp (h_vminfo h) (pa_used (p_ports h)) r (h_vminfo h') (p_ports h')"
    by (rule validD [OF publish_valid _ r]) (use ok in \<open>simp add: unbooked_def ports_ok_def\<close>)
  show "ports_ok (booked (h_vminfo h')) (p_ports h')"
  proof (cases r)
    case (Inl e)
    then show ?thesis using ok q by (simp add: published_def unbooked_def ports_ok_def)
  next
    case (Inr ep)
    then obtain v p where v: "p \<notin> pa_used (p_ports h)" "h_vminfo h vm = Some v"
      "h_vminfo h' = (h_vminfo h)(vm \<mapsto> v\<lparr>vi_Ports := AList.update p tp (vi_Ports v)\<rparr>)"
      "pa_used (p_ports h') = insert p (pa_used (p_ports h))" "pa_ok (p_ports h')"
      using q by (auto simp: published_def)
    have b: "booked (h_vminfo h) vm = map fst (vi_Ports v)" using v(2) by (simp add: booked_def)
    then have "distinct (map fst (vi_Ports v))" using ok unfolding ports_ok_def by metis
    then have d: "distinct (map fst (AList.update p tp (vi_Ports v)))" by (rule distinct_update)
    have "set (map fst (AList.update p tp (vi_Ports v))) = insert p (set (booked (h_vminfo h) vm))"
      by (simp add: b dom_update)
    then show ?thesis using ports_ok_grow [OF ok v(5,1,4) _ d] v(3) by (simp add: booked_upd del: fun_upd_apply)
  qed
qed

text \<open>
  A stop gives the ports back before it clears the record: what it keeps on the way is the
  invariant of the other VMs.
\<close>

lemma ok_StopSandbox: "valid (bk ports_ok) (fc_StopSandbox vm force) (\<lambda>r h. \<not> isl r \<longrightarrow> bk ports_ok h)"
proof -
  let ?others = "\<lambda>ps b a. ports_ok (b(vm := [])) a \<and> (\<forall>k. k \<noteq> vm \<longrightarrow> set (b k) \<inter> ps = {})"
  have dp: "keeps (bk (?others (fst ` set (vi_Ports v)))) (drop_ports v)" for v
  proof -
    have "keeps (bk (?others (fst ` set (vi_Ports v)))) (port_Release (fst x))" if "x \<in> set (vi_Ports v)" for x
    proof -
      have "ports_ok (b(vm := [])) (pa_Release (fst x) a)" if "?others (fst ` set (vi_Ports v)) b a" for b a
        by (rule ports_ok_Release) (use that \<open>x \<in> _\<close> in auto)
      then show ?thesis by (simp add: valid_def port_Release_def runs)
    qed
    then show ?thesis unfolding drop_ports_def case_prod_unfold by (intro pres keeps_mem_dnat)
  qed
  have others: "?others (fst ` set (vi_Ports v)) b a" if "ports_ok b a" "b vm = map fst (vi_Ports v)" for b a v
  proof -
    have "set (b k) \<inter> fst ` set (vi_Ports v) = {}" if "k \<noteq> vm" for k
      using \<open>ports_ok b a\<close> that \<open>b vm = _\<close> unfolding ports_ok_def by (metis list.set_map)
    then show ?thesis using ports_ok_shrink [OF that(1), of "[]" vm] by simp
  qed
  have dn: "keeps (bk P) (drop_network v)" for P v
    unfolding drop_network_def by (intro pres)
  have sp: "keeps (bk P) (stop_process force pid)" for P pid
    unfolding stop_process_def by (intro pres keeps_mem_os keeps_mem_alter) auto
  have cl: "valid (bk (?others ps)) (bindE (wrapE (vminfo_Write vm (ClearRuntime v))) (\<lambda>_. do { forget_vm vm; ret (Inr ()) }))
      (\<lambda>r h. \<not> isl r \<longrightarrow> bk ports_ok h)" for ps v
    by (auto simp: valid_def runs run_vminfo_Write forget_vm_def booked_upd ClearRuntime_def split: option.splits)
  have w: "keeps (booked_as ports_ok vm v) (vminfo_Write vm (v\<lparr>vi_Stopping := True\<rparr>))" for v
    by (rule keeps_write_same) simp
  have b: "valid (booked_as ports_ok vm v) (do {
       alive \<leftarrow> processAlive (vi_PID v);
       (if vi_PID v > 0 \<and> alive
        then do { ignore (vminfo_Write vm (v\<lparr>vi_Stopping := True\<rparr>)); stop_process force (vi_PID v) }
        else ret ());
       drop_ports v;
       drop_network v;
       bindE (wrapE (vminfo_Write vm (ClearRuntime v))) (\<lambda>_. do { forget_vm vm; ret (Inr ()) }) })
      (\<lambda>r h. \<not> isl r \<longrightarrow> bk ports_ok h)" for v
  proof (rule valid_bind [OF keeps_mem_basic(3)], rule valid_bind)
    fix alive
    show "keeps (booked_as ports_ok vm v) (if vi_PID v > 0 \<and> alive
        then do { ignore (vminfo_Write vm (v\<lparr>vi_Stopping := True\<rparr>)); stop_process force (vi_PID v) }
        else ret ())" by (intro pres w sp)
    show "valid (booked_as ports_ok vm v) (do { drop_ports v; drop_network v;
       bindE (wrapE (vminfo_Write vm (ClearRuntime v))) (\<lambda>_. do { forget_vm vm; ret (Inr ()) }) })
      (\<lambda>r h. \<not> isl r \<longrightarrow> bk ports_ok h)"
      by (rule valid_pre, rule valid_bind [OF dp], rule valid_bind [OF dn cl], rule others) auto
  qed
  show ?thesis unfolding fc_StopSandbox_def
    by (rule valid_bind [OF keeps_mem_alter], simp, rule valid_bind [OF keeps_mem_basic(9)],
        rule valid_read_then [OF b]) simp
qed

text \<open>Both errors of a stop are wrapped twice, so destroying never goes on after a failed stop.\<close>

lemma stop_error: "valid (\<lambda>_. True) (fc_StopSandbox vm force) (\<lambda>r _. \<forall>e. r = Inl e \<longrightarrow> \<not> unwrapped_NotExist e)"
proof -
  have any: "valid (\<lambda>_. True) m (\<lambda>_ _. True)" for m :: "'b H" by (simp add: valid_def)
  have r: "valid (\<lambda>_. True) (wrapE (ReadVMInfo vm)) (\<lambda>r _. \<forall>e. r = Inl e \<longrightarrow> \<not> unwrapped_NotExist e)"
    by (auto simp: valid_def ReadVMInfo_def runs split: prod.splits sum.splits option.splits)
  have w: "valid (\<lambda>_. True) (wrapE (vminfo_Write vm v)) (\<lambda>r _. \<forall>e. r = Inl e \<longrightarrow> \<not> unwrapped_NotExist e)" for v
    by (auto simp: valid_def vminfo_Write_def runs split: prod.splits sum.splits option.splits)
  have fin: "valid P (do { forget_vm vm; ret (Inr ()) }) (\<lambda>r _. \<forall>e. r = Inl e \<longrightarrow> \<not> unwrapped_NotExist e)" for P
    by (simp add: valid_def runs forget_vm_def)
  have c: "valid (\<lambda>_. True) (bindE (wrapE (vminfo_Write vm v)) (\<lambda>_. do { forget_vm vm; ret (Inr ()) }))
      (\<lambda>r _. \<forall>e. r = Inl e \<longrightarrow> \<not> unwrapped_NotExist e)" for v
    by (rule valid_bindE [OF w fin]) simp
  show ?thesis unfolding fc_StopSandbox_def
    by (rule valid_bind [OF any], rule valid_bind [OF any], rule valid_bindE [OF r], rule valid_pre [where P = "\<lambda>_. True"],
        rule valid_bind [OF any], rule valid_bind [OF any], rule valid_bind [OF any], rule valid_bind [OF any], rule c) simp_all
qed

lemma ok_DestroySandbox: "valid (bk ports_ok) (fc_DestroySandbox vm) (\<lambda>r h. \<not> isl r \<longrightarrow> bk ports_ok h)"
proof -
  have fp: "keeps (bk P) (ReleaseForkPointDescendant fp d)" for P fp d
    unfolding ReleaseForkPointDescendant_def updateFPInfo_def readFPInfo_def put_fpinfo_def RemoveAll_def
    by (intro pres keeps_mem_os) (auto simp: drop_info_def split: option.splits if_splits)
  have rest: "keeps (bk ports_ok) (do {
       v \<leftarrow> ReadVMInfo vm;
       bindE (wrapE (RemoveAll (VmDir vm))) (\<lambda>_. do {
         ignore (removeCgroup vm);
         alter (\<lambda>h. h\<lparr>p_vms := (p_vms h)(vm := None)\<rparr>);
         (case v of
            Inr i \<Rightarrow> if vi_ForkPointID i \<noteq> [] then ignore (ReleaseForkPointDescendant (vi_ForkPointID i) vm) else ret ()
          | Inl _ \<Rightarrow> ret ());
         ret (Inr ()) }) })"
    by (intro pres keeps_RemoveAll fp keeps_mem_alter) auto
  have fin: "valid (\<lambda>h. \<not> isl s \<longrightarrow> bk ports_ok h) (if (case s of Inl e \<Rightarrow> \<not> unwrapped_NotExist e | Inr _ \<Rightarrow> False)
     then ret (case s of Inl e \<Rightarrow> Inl (Wrapped e) | Inr _ \<Rightarrow> Inr ())
     else do {
       v \<leftarrow> ReadVMInfo vm;
       bindE (wrapE (RemoveAll (VmDir vm))) (\<lambda>_. do {
         ignore (removeCgroup vm);
         alter (\<lambda>h. h\<lparr>p_vms := (p_vms h)(vm := None)\<rparr>);
         (case v of
            Inr i \<Rightarrow> if vi_ForkPointID i \<noteq> [] then ignore (ReleaseForkPointDescendant (vi_ForkPointID i) vm) else ret ()
          | Inl _ \<Rightarrow> ret ());
         ret (Inr ()) }) }) (\<lambda>r h. \<not> isl r \<longrightarrow> bk ports_ok h)" if "isl s \<Longrightarrow> \<not> unwrapped_NotExist (projl s)" for s :: "unit fres"
    using that by (cases s) (auto intro: valid_return valid_post [OF rest])
  have stop: "valid (bk ports_ok) (fc_StopSandbox vm True)
      (\<lambda>s h. (\<not> isl s \<longrightarrow> bk ports_ok h) \<and> (\<forall>e. s = Inl e \<longrightarrow> \<not> unwrapped_NotExist e))"
    using valid_conj [OF ok_StopSandbox stop_error] by simp
  show ?thesis unfolding fc_DestroySandbox_def
    by (rule valid_bind [OF keeps_mem_basic(9)], rule valid_bind [OF stop], rule valid_pure, rule fin) auto
qed

section \<open>Sequences of operations\<close>

datatype vm_op = Create create_req | Start string | Stop string bool | Destroy string
  | Publish string int | Unpublish string int | Resize string update_req

definition perform :: "vm_op \<Rightarrow> unit fres H" where
  "perform opn = (case opn of
     Create req \<Rightarrow> bindE (fc_CreateSandbox req) (\<lambda>_. ret (Inr ()))
   | Start vm \<Rightarrow> fc_StartSandbox vm
   | Stop vm force \<Rightarrow> fc_StopSandbox vm force
   | Destroy vm \<Rightarrow> fc_DestroySandbox vm
   | Publish vm tp \<Rightarrow> bindE (fc_PublishPort vm tp) (\<lambda>_. ret (Inr ()))
   | Unpublish vm hp \<Rightarrow> fc_UnpublishPort vm hp
   | Resize vm req \<Rightarrow> fc_UpdateResources vm req)"

fun tears_down :: "vm_op \<Rightarrow> bool" where
  "tears_down (Stop _ _) = True"
| "tears_down (Destroy _) = True"
| "tears_down _ = False"

text \<open>Hosts after a sequence of operations, of which only a stop and a destroy have to succeed.\<close>

inductive after_ops :: "host \<Rightarrow> host \<Rightarrow> bool" for h0 :: host where
  after_none: "after_ops h0 h0"
| after_op: "after_ops h0 h \<Longrightarrow> run_state (perform opn) h = (r, h') \<Longrightarrow> tears_down opn \<longrightarrow> \<not> isl r \<Longrightarrow> after_ops h0 h'"

lemma ok_perform: "valid (bk ports_ok) (perform opn) (\<lambda>r h. (tears_down opn \<longrightarrow> \<not> isl r) \<longrightarrow> bk ports_ok h)"
proof (cases opn)
  case (Create req)
  then show ?thesis unfolding perform_def by (simp) (intro pres keeps_CreateSandbox)
next
  case (Publish vm tp)
  then show ?thesis unfolding perform_def by (simp) (intro pres keeps_PublishPort)
qed (simp_all add: perform_def keeps_StartSandbox keeps_UnpublishPort keeps_fc_UpdateResources ok_StopSandbox ok_DestroySandbox)

lemma after_ops_ok: "after_ops h0 h \<Longrightarrow> bk ports_ok h0 \<Longrightarrow> bk ports_ok h"
proof (induction rule: after_ops.induct)
  case (after_op h opn r h')
  then show ?case using validD [OF ok_perform, of h opn r h'] by blast
qed

text \<open>
  C5: from a provider without VMs, after any sequence of creating, starting, stopping, destroying,
  publishing, unpublishing and resizing in which any call to the host may fail and only the stops
  and destroys have to succeed, every host port on record is marked in use, no VM has a port
  twice and no two VMs have the same one.
\<close>

theorem published_ports_exclusive:
  assumes "after_ops h0 h" "h_vminfo h0 = Map.empty" "p_ports h0 = NewPortAllocator"
  shows "set (booked (h_vminfo h) vm) \<subseteq> pa_used (p_ports h) \<and> distinct (booked (h_vminfo h) vm) \<and>
    (\<forall>vm'. vm' \<noteq> vm \<longrightarrow> set (booked (h_vminfo h) vm) \<inter> set (booked (h_vminfo h) vm') = {})"
proof -
  have "bk ports_ok h0" using assms(2,3) pa_keeps_ok(1) by (simp add: ports_ok_def booked_def)
  from after_ops_ok [OF assms(1) this] show ?thesis by (auto simp: ports_ok_def)
qed

definition empty_host :: "(nat \<Rightarrow> string option) \<Rightarrow> host" where
  "empty_host fails = (demo_host fails)\<lparr>h_dirs := {}, h_vminfo := Map.empty, h_procs := {}, h_taps := Map.empty, p_vms := Map.empty,
     p_locks := Map.empty\<rparr>"

definition after_perform :: "vm_op \<Rightarrow> host \<Rightarrow> host" where
  "after_perform opn h = snd (run_state (perform opn) h)"

lemma published_ports_exclusive_witness:
  "let h = after_perform (Publish ''w'' 80) (after_perform (Publish ''v'' 80) (after_perform (Start ''v'')
      (after_perform (Create (empty_req\<lparr>cr_ImageRef := ''debian''\<rparr>)) (empty_host (\<lambda>_. None))))) in
    set (booked (h_vminfo h) ''v'') \<inter> set (booked (h_vminfo h) ''w'') = {}"
proof -
  have step: "after_ops h0 (after_perform opn h)" if "after_ops h0 h" "\<not> tears_down opn" for h0 opn h
    by (rule after_op [OF that(1) prod.collapse [symmetric], of opn, folded after_perform_def]) (use that(2) in simp)
  define h where "h = after_perform (Publish ''w'' 80) (after_perform (Publish ''v'' 80) (after_perform (Start ''v'')
      (after_perform (Create (empty_req\<lparr>cr_ImageRef := ''debian''\<rparr>)) (empty_host (\<lambda>_. None)))))"
  have "after_ops (empty_host (\<lambda>_. None)) h" unfolding h_def by (intro step after_none) simp_all
  from published_ports_exclusive [OF this, of "''v''"] show ?thesis
    unfolding h_def [symmetric] Let_def by (simp add: empty_host_def demo_host_def)
qed

end
