(* ===== verification/Copies.thy ===== *)
theory Copies imports Complex_Main Ports begin

text \<open>
  Copies of a microVM: snapshots and their restore, the pause of a live snapshot, and forks.
\<close>

section \<open>Live snapshots\<close>



section \<open>Snapshots and their restore\<close>

lemma stopped_not_live [simp]: "ConsistencyStopped \<noteq> ConsistencyLive" "ConsistencyLive \<noteq> ConsistencyStopped"
  by (simp_all add: ConsistencyStopped_def ConsistencyLive_def)

definition snapshot_of :: "string \<Rightarrow> vminfo \<Rightarrow> string \<Rightarrow> consistency_mode \<Rightarrow> string \<Rightarrow> host \<Rightarrow> bool" where
  "snapshot_of vm v disk mode snap h \<longleftrightarrow> h_blobs h (InDir (SnapDir snap) Rootfs) = Some disk \<and>
    (\<exists>si. h_snapinfo h snap = Some si \<and> si_Mode si = mode \<and>
      (mode = ConsistencyLive \<longrightarrow> si_SubnetIdx si = vi_SubnetIdx v \<and> h_blobs h (InDir (SnapDir snap) VmState) \<noteq> None \<and>
        h_blobs h (InDir (SnapDir snap) SnapMeta) \<noteq> None))"

lemma run_CreateSnapshot:
  assumes "no_fault h" "mode = ConsistencyStopped \<or> mode = ConsistencyLive" "h_vminfo h vm = Some v"
    and "mode = ConsistencyLive \<longrightarrow> vi_PID v \<in> h_procs h" "h_blobs h (InDir (VmDir vm) Rootfs) = Some disk"
  shows "\<exists>snap h'. run_state (fc_CreateSnapshot vm label mode) h = (Inr (fc_ref snap), h') \<and> snapshot_of vm v disk mode snap h'"
  using assms(2)
proof
  assume "mode = ConsistencyStopped"
  then show ?thesis using assms
    by (simp add: fc_CreateSnapshot_def createStoppedSnapshot_def MkdirAll_def cloneFile_def writeSnapInfo_def runs Let_def
      snapshot_of_def fc_ref_def)
next
  assume "mode = ConsistencyLive"
  then show ?thesis using assms
    by (simp add: fc_CreateSnapshot_def createLiveSnapshot_def pause_vm_def dump_vm_def resume_vm_def os_Remove_def MkdirAll_def
      cloneFile_def writeSnapInfo_def run_ReadVMInfo runs Let_def snapshot_of_def fc_ref_def)
qed

text \<open>
  C14: on a host where no call fails, a snapshot restores what it was taken of.  A stopped snapshot
  needs the VM's record and root file system, a live one also its process; taking it succeeds.
  Whatever happens to the VM then, as long as the files of the snapshots and the VM's directory and
  record survive and nobody holds the VM's lock, restoring it succeeds and puts back the root file
  system of the time of the snapshot, and after a live snapshot the VM is marked to be resumed on
  the subnet it was running on.
\<close>

theorem snapshot_restore_roundtrip:
  assumes "no_fault h" "mode = ConsistencyStopped \<or> mode = ConsistencyLive" "h_vminfo h vm = Some v"
    and "mode = ConsistencyLive \<longrightarrow> vi_PID v \<in> h_procs h" "h_blobs h (InDir (VmDir vm) Rootfs) = Some disk" "run_state (fc_CreateSnapshot vm label mode) h = (r, h')"
    and "no_fault g" "VmDir vm \<in> h_dirs g" "h_vminfo g vm = Some w" "p_locks g vm \<noteq> Some True"
    and "h_snapinfo g = h_snapinfo h'" "\<And>k f. h_blobs g (InDir (SnapDir k) f) = h_blobs h' (InDir (SnapDir k) f)"
  shows "\<exists>snap g'. r = Inr (fc_ref snap) \<and> run_state (fc_RestoreSnapshot vm snap) g = (Inr (), g') \<and>
    h_blobs g' (InDir (VmDir vm) Rootfs) = Some disk \<and>
    (mode = ConsistencyLive \<longrightarrow> h_vminfo g' vm = Some (w\<lparr>vi_RestoreFromSnapshot := True, vi_RestoreSubnetIdx := vi_SubnetIdx v\<rparr>))"
proof -
  obtain snap where r: "r = Inr (fc_ref snap)" and s: "snapshot_of vm v disk mode snap h'"
    using run_CreateSnapshot [OF assms(1-5), of label] assms(6) by auto
  have s': "snapshot_of vm v disk mode snap g" using s assms(11,12) by (simp add: snapshot_of_def)
  obtain si where si: "h_blobs g (InDir (SnapDir snap) Rootfs) = Some disk" "h_snapinfo g snap = Some si" "si_Mode si = mode"
    and live: "mode = ConsistencyLive \<longrightarrow> si_SubnetIdx si = vi_SubnetIdx v \<and> h_blobs g (InDir (SnapDir snap) VmState) \<noteq> None \<and>
        h_blobs g (InDir (SnapDir snap) SnapMeta) \<noteq> None" using s' by (auto simp: snapshot_of_def)
  note defs = fc_RestoreSnapshot_def readSnapInfo_def cloneFile_def MkdirAll_def runs
  have "\<exists>g'. run_state (fc_RestoreSnapshot vm snap) g = (Inr (), g') \<and> h_blobs g' (InDir (VmDir vm) Rootfs) = Some disk \<and>
    (mode = ConsistencyLive \<longrightarrow> h_vminfo g' vm = Some (w\<lparr>vi_RestoreFromSnapshot := True, vi_RestoreSubnetIdx := vi_SubnetIdx v\<rparr>))"
  proof (cases "mode = ConsistencyLive")
    case False
    then show ?thesis using si assms(7,8) by (simp add: defs)
  next
    case True
    then obtain b1 b2 where b: "h_blobs g (InDir (SnapDir snap) VmState) = Some b1" "h_blobs g (InDir (SnapDir snap) SnapMeta) = Some b2"
      "si_SubnetIdx si = vi_SubnetIdx v" using live by blast
    have "p_locks g vm = None \<or> p_locks g vm = Some False" using assms(10) by (cases "p_locks g vm") auto
    then show ?thesis using True si b assms(7-9)
      by (elim disjE) (simp_all add: defs run_lockFor run_ReadVMInfo run_vminfo_Write)
  qed
  then show ?thesis using r by blast
qed

text \<open>
  The disk is overwritten between the snapshot and the restore: once of a running VM, once of one
  that has no process.
\<close>

definition stopped_host :: host where
  "stopped_host = (demo_host (\<lambda>_. None))\<lparr>h_vminfo := [''v'' \<mapsto> demo_vm\<lparr>vi_PID := 0\<rparr>]\<rparr>"

definition overwritten :: "host \<Rightarrow> host \<Rightarrow> host" where
  "overwritten h h' = h\<lparr>h_snapinfo := h_snapinfo h', h_blobs := (h_blobs h')(InDir (VmDir ''v'') Rootfs \<mapsto> ''overwritten'')\<rparr>"

lemma snapshot_restore_roundtrip_witness:
  "(\<exists>snap h' g'. run_state (fc_CreateSnapshot ''v'' ''nightly'' ConsistencyLive) (demo_host (\<lambda>_. None)) = (Inr (fc_ref snap), h') \<and>
    run_state (fc_RestoreSnapshot ''v'' snap) (overwritten (demo_host (\<lambda>_. None)) h') = (Inr (), g') \<and>
    h_blobs g' (InDir (VmDir ''v'') Rootfs) = Some ''disk'') \<and>
   (\<exists>snap h' g'. run_state (fc_CreateSnapshot ''v'' ''nightly'' ConsistencyStopped) stopped_host = (Inr (fc_ref snap), h') \<and>
    run_state (fc_RestoreSnapshot ''v'' snap) (overwritten stopped_host h') = (Inr (), g') \<and>
    h_blobs g' (InDir (VmDir ''v'') Rootfs) = Some ''disk'')"
proof
  obtain r h' where c: "run_state (fc_CreateSnapshot ''v'' ''nightly'' ConsistencyLive) (demo_host (\<lambda>_. None)) = (r, h')"
    by (cases "run_state (fc_CreateSnapshot ''v'' ''nightly'' ConsistencyLive) (demo_host (\<lambda>_. None))")
  have "\<exists>snap g'. r = Inr (fc_ref snap) \<and>
    run_state (fc_RestoreSnapshot ''v'' snap) (overwritten (demo_host (\<lambda>_. None)) h') = (Inr (), g') \<and>
    h_blobs g' (InDir (VmDir ''v'') Rootfs) = Some ''disk'' \<and> (ConsistencyLive = ConsistencyLive \<longrightarrow>
      h_vminfo g' ''v'' = Some (demo_vm\<lparr>vi_RestoreFromSnapshot := True, vi_RestoreSubnetIdx := vi_SubnetIdx demo_vm\<rparr>))"
    by (rule snapshot_restore_roundtrip [OF _ _ _ _ _ c]) (simp_all add: idle_simps overwritten_def)
  then show "\<exists>snap h' g'. run_state (fc_CreateSnapshot ''v'' ''nightly'' ConsistencyLive) (demo_host (\<lambda>_. None)) = (Inr (fc_ref snap), h') \<and>
    run_state (fc_RestoreSnapshot ''v'' snap) (overwritten (demo_host (\<lambda>_. None)) h') = (Inr (), g') \<and>
    h_blobs g' (InDir (VmDir ''v'') Rootfs) = Some ''disk''" using c by blast
next
  let ?v = "demo_vm\<lparr>vi_PID := 0\<rparr>"
  obtain r h' where c: "run_state (fc_CreateSnapshot ''v'' ''nightly'' ConsistencyStopped) stopped_host = (r, h')"
    by (cases "run_state (fc_CreateSnapshot ''v'' ''nightly'' ConsistencyStopped) stopped_host")
  have "\<exists>snap g'. r = Inr (fc_ref snap) \<and>
    run_state (fc_RestoreSnapshot ''v'' snap) (overwritten stopped_host h') = (Inr (), g') \<and>
    h_blobs g' (InDir (VmDir ''v'') Rootfs) = Some ''disk'' \<and> (ConsistencyStopped = ConsistencyLive \<longrightarrow>
      h_vminfo g' ''v'' = Some (?v\<lparr>vi_RestoreFromSnapshot := True, vi_RestoreSubnetIdx := vi_SubnetIdx ?v\<rparr>))"
    by (rule snapshot_restore_roundtrip [OF _ _ _ _ _ c]) (simp_all add: idle_simps overwritten_def stopped_host_def no_fault_def)
  then show "\<exists>snap h' g'. run_state (fc_CreateSnapshot ''v'' ''nightly'' ConsistencyStopped) stopped_host = (Inr (fc_ref snap), h') \<and>
    run_state (fc_RestoreSnapshot ''v'' snap) (overwritten stopped_host h') = (Inr (), g') \<and>
    h_blobs g' (InDir (VmDir ''v'') Rootfs) = Some ''disk''" using c by blast
qed

section \<open>Forks\<close>

lemma run_updateFPInfo: "no_fault h \<Longrightarrow> FpDir fp \<in> h_dirs h \<Longrightarrow> h_fpinfo h fp = Some i \<Longrightarrow>
    run_state (updateFPInfo fp f) h = (Inr (f i), h\<lparr>h_tick := Suc (Suc (h_tick h)), h_fpinfo := (h_fpinfo h)(fp \<mapsto> f i)\<rparr>)"
  by (simp add: updateFPInfo_def readFPInfo_def put_fpinfo_def runs)

text \<open>What a spawned child has on record, whatever failed on the way to success.\<close>

definition resumes_on_subnet_0 :: "string \<Rightarrow> (string \<Rightarrow> vminfo option) \<Rightarrow> bool" where
  "resumes_on_subnet_0 vm m \<longleftrightarrow> (\<exists>v. m vm = Some v \<and> vi_RestoreFromSnapshot v \<and> vi_RestoreSubnetIdx v = 0 \<and> vi_PID v = 0)"

abbreviation child_done :: "backend_ref fres \<Rightarrow> host \<Rightarrow> bool" where
  "child_done r h \<equiv> \<forall>ref. r = Inr ref \<longrightarrow> resumes_on_subnet_0 (ref_Ref ref) (h_vminfo h)"

lemma valid_or_err:
  assumes "\<And>x. valid (\<lambda>_. True) (f x) child_done"
  shows "valid (\<lambda>_. True) (bindE m f) child_done" "valid (\<lambda>_. True) (State_Monad.bind n f) child_done"
proof -
  show "valid (\<lambda>_. True) (bindE m f) child_done"
    by (rule valid_bindE [where R = "\<lambda>_ _. True"]) (simp_all add: assms, simp add: valid_def)
  show "valid (\<lambda>_. True) (State_Monad.bind n f) child_done"
    by (rule valid_bind [where R = "\<lambda>_ _. True"]) (simp_all add: assms, simp add: valid_def)
qed

lemma spawned_child: "valid (\<lambda>_. True) (SpawnFromForkPoint fp req) child_done"
proof -
  have upd: "keeps (mem P) (updateFPInfo fp f)" for P f
    unfolding updateFPInfo_def readFPInfo_def put_fpinfo_def
    by (intro pres keeps_mem_os) (auto split: option.splits if_splits)
  have fin: "valid (\<lambda>_. True) (bindE (or_undo (vminfo_Write vm v) undo) (\<lambda>_. do {
      ignore (updateFPInfo fp (add_descendant vm)); ret (Inr (fc_ref vm)) })) child_done"
    if "vi_RestoreFromSnapshot v" "vi_RestoreSubnetIdx v = 0" "vi_PID v = 0" for vm v undo
  proof (rule valid_bindE [where R = "\<lambda>r. case r of Inl _ \<Rightarrow> \<lambda>_. True | Inr _ \<Rightarrow> mem (\<lambda>m _. resumes_on_subnet_0 vm m)"])
    show "valid (\<lambda>_. True) (or_undo (vminfo_Write vm v) undo)
        (\<lambda>r. case r of Inl _ \<Rightarrow> \<lambda>_. True | Inr _ \<Rightarrow> mem (\<lambda>m _. resumes_on_subnet_0 vm m))"
      using that by (auto simp: valid_def runs run_vminfo_Write resumes_on_subnet_0_def split: option.splits)
    show "valid ((\<lambda>r. case r of Inl _ \<Rightarrow> \<lambda>_. True | Inr _ \<Rightarrow> mem (\<lambda>m _. resumes_on_subnet_0 vm m)) (Inr x))
        (do { ignore (updateFPInfo fp (add_descendant vm)); ret (Inr (fc_ref vm)) }) child_done" for x
      unfolding sum.case by (rule valid_bind [OF keeps_ignore [OF upd] valid_return]) (simp add: fc_ref_def)
  qed simp
  show ?thesis unfolding SpawnFromForkPoint_def Let_def
    by (intro valid_or_err fin) (simp_all add: no_vminfo_def)
qed

text \<open>
  every child of a fork comes up on subnet 0: its record is flagged for a restore but carries no
  subnet, so whenever it is started for the first time its tap device gets the first address of
  the range and its record says subnet 0, whatever subnet its parent runs on and whoever holds
  subnet 0 already; two children of one fork end up with the same host address.
\<close>

theorem forked_children_on_subnet_0:
  assumes "run_state (SpawnFromForkPoint fp req) h = (Inr ref, h')" "h_vminfo g (ref_Ref ref) = h_vminfo h' (ref_Ref ref)"
    and "no_fault g" "\<And>t. he_pid (h_env g) t > 0" "VmDir (ref_Ref ref) \<in> h_dirs g" "p_locks g (ref_Ref ref) \<noteq> Some True"
    and "h_taps g (TapName (ref_Ref ref)) = None"
  shows "\<exists>r g' v. run_state (fc_StartSandbox (ref_Ref ref)) g = (r, g') \<and> h_taps g' (TapName (ref_Ref ref)) = Some (HostIP 0) \<and>
    h_vminfo g' (ref_Ref ref) = Some v \<and> vi_SubnetIdx v = 0 \<and> vi_PID v \<in> h_procs g'"
proof -
  let ?vm = "ref_Ref ref"
  have "resumes_on_subnet_0 ?vm (h_vminfo g)"
    using validD [OF spawned_child TrueI assms(1)] assms(2) by (simp add: resumes_on_subnet_0_def)
  then obtain v where v: "h_vminfo g ?vm = Some v" "vi_RestoreFromSnapshot v" "vi_RestoreSubnetIdx v = 0" "vi_PID v = 0"
    by (auto simp: resumes_on_subnet_0_def)
  obtain r g' g1 where s: "run_state (fc_StartSandbox ?vm) g = (r, g')" "launched True ?vm v (TapName ?vm) 0 g1 g'"
    "h_taps g1 = (h_taps g)(TapName ?vm \<mapsto> HostIP 0)"
    using run_StartSandbox [of g ?vm v 0 v] assms(3-7) v by auto
  then show ?thesis by (auto simp: launched_def started_info_def)
qed

text \<open>A host with a fork-point of \<open>v\<close>.\<close>

definition fork_host :: host where
  "fork_host = (demo_host (\<lambda>_. None))\<lparr>h_dirs := {VmDir ''v'', FpDir ''fp''},
     h_blobs := [InDir (FpDir ''fp'') Rootfs \<mapsto> ''disk'', InDir (FpDir ''fp'') VmState \<mapsto> ''mem'', InDir (FpDir ''fp'') SnapMeta \<mapsto> ''dev''],
     h_fpinfo := [''fp'' \<mapsto> \<lparr>fp_ForkPointID = ''fp'', fp_ParentVMID = ''v'', fp_Mode = ''live'', fp_CreatedAt = 0, fp_SpawnPending = 2,
       fp_Descendants = [], fp_VcpuCount = 1, fp_MemSizeMib = 256\<rparr>]\<rparr>"

lemma forked_children_on_subnet_0_witness:
  "\<exists>ref h' r g' v. run_state (SpawnFromForkPoint ''fp'' empty_req) fork_host = (Inr ref, h') \<and>
    run_state (fc_StartSandbox (ref_Ref ref)) h' = (r, g') \<and> h_taps g' (TapName (ref_Ref ref)) = Some (HostIP 0) \<and>
    h_vminfo g' (ref_Ref ref) = Some v \<and> vi_SubnetIdx v = 0"
proof -
  let ?vm = "''nvrs-fc-00000000''"
  have u: "take 8 (pad 12 1) = ''00000000''" "take 8 (pad 12 0) = ''00000000''" by code_simp+
  obtain h' where s: "run_state (SpawnFromForkPoint ''fp'' empty_req) fork_host = (Inr (fc_ref ?vm), h')"
    and h': "h_env h' = demo_henv (\<lambda>_. None)" "VmDir ?vm \<in> h_dirs h'" "p_locks h' ?vm = Some False" "h_taps h' = [''fc-v'' \<mapsto> HostIP 3]"
    by (simp add: SpawnFromForkPoint_def readFPInfo_def MkdirAll_def cloneFile_def allocateCID_def uid_alloc_def uid_Allocate_def
      run_lockFor run_vminfo_Write updateFPInfo_def put_fpinfo_def runs Let_def fork_host_def demo_host_def demo_henv_def demo_conf_def u fc_ref_def)
  have "\<exists>r g' v. run_state (fc_StartSandbox (ref_Ref (fc_ref ?vm))) h' = (r, g') \<and>
      h_taps g' (TapName (ref_Ref (fc_ref ?vm))) = Some (HostIP 0) \<and>
      h_vminfo g' (ref_Ref (fc_ref ?vm)) = Some v \<and> vi_SubnetIdx v = 0 \<and> vi_PID v \<in> h_procs g'"
    by (rule forked_children_on_subnet_0 [OF s refl]) (simp_all add: h' idle_simps fc_ref_def)
  then show ?thesis using s by blast
qed

lemma run_spawn_stopped:
  assumes "no_fault h" "FpDir fp \<in> h_dirs h" "h_fpinfo h fp = Some i" "h_blobs h (InDir (FpDir fp) Rootfs) = Some disk"
    and "h_blobs h (InDir (FpDir fp) VmState) = None"
  shows "\<exists>h'. run_state (SpawnFromForkPoint fp req) h = (Inl (Wrapped (Wrapped NotExist)), h') \<and>
    h_env h' = h_env h \<and> FpDir fp \<in> h_dirs h' \<and> h_fpinfo h' fp = Some i"
  using assms
  by (simp add: SpawnFromForkPoint_def readFPInfo_def MkdirAll_def cloneFile_def RemoveAll_def drop_info_def runs Let_def)

text \<open>
  forking a stopped VM fails for every count: the fork-point of a stopped parent has no memory
  file, and spawning insists on cloning one, so no child is ever made although the code documents
  that such children boot fresh.  The fork-point stays on disk, with \<open>count - 1\<close> spawns pending
  that nobody will perform.
\<close>

theorem stopped_fork_fails:
  assumes "no_fault h" "h_vminfo h vm = Some v" "\<not> (vi_PID v > 0 \<and> vi_PID v \<in> h_procs h)" "validateRef vm" "1 \<le> n" "n \<le> 64"
    and "h_blobs h (InDir (VmDir vm) Rootfs) = Some disk" "fp = ''fp-'' @ take 12 (he_uuid (h_env h) (h_tick h))"
    and "h_blobs h (InDir (FpDir fp) VmState) = None"
  shows "\<exists>h' i. run_state (fc_ForkSandbox vm n) h = (([], Some (Wrapped (Wrapped (Wrapped NotExist)))), h') \<and>
    h_fpinfo h' fp = Some i \<and> fp_SpawnPending i = n - 1 \<and> fp_Descendants i = []"
proof -
  have dead: "(0 < vi_PID v \<and> vi_PID v \<in> h_procs h) = False" using assms(3) by blast
  obtain h1 i where c: "run_state (CreateForkPoint vm) h = (Inr fp, h1)" and h1: "no_fault h1" "FpDir fp \<in> h_dirs h1"
    "h_fpinfo h1 fp = Some i" "h_blobs h1 (InDir (FpDir fp) Rootfs) = Some disk" "h_blobs h1 (InDir (FpDir fp) VmState) = None"
    "fp_Descendants i = []"
    using assms(1,2,7-9)
    by (simp add: dead CreateForkPoint_def createStoppedSnapshot_def writeFPInfo_def put_fpinfo_def MkdirAll_def cloneFile_def
      run_ReadVMInfo runs Let_def no_fault_def)
  let ?i = "i\<lparr>fp_SpawnPending := n\<rparr>"
  let ?h2 = "h1\<lparr>h_tick := Suc (Suc (h_tick h1)), h_fpinfo := (h_fpinfo h1)(fp \<mapsto> ?i)\<rparr>"
  have u: "run_state (updateFPInfo fp (\<lambda>i. i\<lparr>fp_SpawnPending := n\<rparr>)) h1 = (Inr ?i, ?h2)" using h1 by (simp add: run_updateFPInfo)
  obtain h3 where s: "run_state (SpawnFromForkPoint fp empty_req) ?h2 = (Inl (Wrapped (Wrapped NotExist)), h3)"
    and h3: "h_env h3 = h_env ?h2" "FpDir fp \<in> h_dirs h3" "h_fpinfo h3 fp = Some ?i"
    using run_spawn_stopped [of ?h2 fp ?i disk empty_req] h1 by (auto simp: no_fault_def)
  obtain k where k: "nat n = Suc k" using assms(5) by (cases "nat n") auto
  have n3: "no_fault h3" using h1(1) h3(1) by (simp add: no_fault_def)
  show ?thesis
    using assms(4-6) h1(6) n3 h3
    by (simp add: fc_ForkSandbox_def runs c u k s run_updateFPInfo pending_down_def)
qed

lemma stopped_fork_fails_witness:
  "\<exists>h' i. run_state (fc_ForkSandbox ''v'' 3) (idle_host (\<lambda>_. None)) = (([], Some (Wrapped (Wrapped (Wrapped NotExist)))), h') \<and>
    h_fpinfo h' (''fp-'' @ take 12 (he_uuid (demo_henv (\<lambda>_. None)) 0)) = Some i \<and> fp_SpawnPending i = 3 - 1 \<and> fp_Descendants i = []"
proof (rule stopped_fork_fails [where v = "ClearRuntime demo_vm" and disk = "''disk''"])
  show "validateRef ''v''" by code_simp
qed (simp_all add: idle_simps)

end
