(* ===== verification/Setup.thy ===== *)
theory Setup imports Complex_Main Machines Resize begin

text \<open>
  Setting up the provider (\<open>Config\<close> and \<open>New\<close> of \<open>internal/provider/firecracker/firecracker.go\<close>, the
  probes of \<open>network/tap.go\<close>): defaults, validation, and the machine sizes that a valid
  configuration gives to the requests the service layer lets through.
\<close>

section \<open>Configuration\<close>

record fc_Config =
  cf_FirecrackerBin :: string
  cf_JailerBin :: string
  cf_KernelPath :: string
  cf_ImageDir :: string
  cf_ChrootBase :: string
  cf_VsockCIDBase :: "32 word"
  cf_HostInterface :: string
  cf_SnapshotDir :: string
  cf_EnableJailer :: bool
  cf_CgroupRoot :: string
  cf_Storage :: "string option"  \<comment> \<open>the registry, known by the name of its backend; \<open>None\<close> for nil\<close>
  cf_DefaultVcpuCount :: int
  cf_DefaultMemoryMib :: int
  cf_VcpuHeadroomMult :: rat
  cf_MemHeadroomMult :: rat

definition or_default :: "'a \<Rightarrow> 'a \<Rightarrow> 'a \<Rightarrow> 'a" where
  "or_default zero d x = (if x = zero then d else x)"

definition config_defaults :: "fc_Config \<Rightarrow> fc_Config" where
  "config_defaults c = c\<lparr>
     cf_ChrootBase := or_default [] ''/srv/firecracker'' (cf_ChrootBase c),
     cf_VsockCIDBase := or_default 0 100 (cf_VsockCIDBase c),
     cf_SnapshotDir := or_default [] ''/srv/firecracker/snapshots'' (cf_SnapshotDir c),
     cf_CgroupRoot := or_default [] ''/sys/fs/cgroup/navaris-fc'' (cf_CgroupRoot c),
     cf_DefaultVcpuCount := or_default 0 1 (cf_DefaultVcpuCount c),
     cf_DefaultMemoryMib := or_default 0 256 (cf_DefaultMemoryMib c),
     cf_VcpuHeadroomMult := or_default 0 1 (cf_VcpuHeadroomMult c),
     cf_MemHeadroomMult := or_default 0 1 (cf_MemHeadroomMult c)\<rparr>"

definition defaultMinVcpu :: int where "defaultMinVcpu = 1"
definition defaultMinMemMB :: int where "defaultMinMemMB = 128"

definition validateDefaults :: "fc_Config \<Rightarrow> unit fres" where
  "validateDefaults c =
     (if cf_DefaultVcpuCount c < defaultMinVcpu \<or> cf_DefaultVcpuCount c > defaultMaxVcpu then Inl (EIO ''default-vcpu'')
      else if cf_DefaultMemoryMib c < defaultMinMemMB \<or> cf_DefaultMemoryMib c > defaultMaxMemMB then Inl (EIO ''default-memory-mb'')
      else if cf_VcpuHeadroomMult c < 1 then Inl (EIO ''vcpu-headroom-mult'')
      else if cf_MemHeadroomMult c < 1 then Inl (EIO ''mem-headroom-mult'')
      else if \<not> cf_EnableJailer c \<and> cf_CgroupRoot c \<noteq> [] \<and> cf_CgroupRoot c \<noteq> ''/sys/fs/cgroup'' \<and>
              \<not> HasPrefix (cf_CgroupRoot c) ''/sys/fs/cgroup/'' then Inl (EIO ''cgroup-root'')
      else Inr ())"

section \<open>Probes of the host\<close>

definition Fields :: "string \<Rightarrow> string list" where
  "Fields s = filter (\<lambda>w. w \<noteq> []) (split_on (CHR '' '') (map (\<lambda>c. if is_space c then CHR '' '' else c) s))"

fun after_dev :: "string list \<Rightarrow> string option" where
  "after_dev (f # g # fs) = (if f = ''dev'' then Some g else after_dev (g # fs))"
| "after_dev _ = None"

text \<open>The outputs of \<open>ip route get\<close> and \<open>sysctl\<close> are given.\<close>

definition DetectDefaultInterface :: "string fres \<Rightarrow> string fres" where
  "DetectDefaultInterface out = (case out of
     Inl e \<Rightarrow> Inl (Wrapped e)
   | Inr text \<Rightarrow> (case after_dev (Fields text) of Some i \<Rightarrow> Inr i | None \<Rightarrow> Inl (EIO ''dev not found'')))"

definition CheckIPForward :: "string fres \<Rightarrow> unit fres" where
  "CheckIPForward out = (case out of
     Inl e \<Rightarrow> Inl (Wrapped e)
   | Inr text \<Rightarrow> if TrimSpace text \<noteq> ''1'' then Inl (EIO ''ip_forward is not enabled'') else Inr ())"

section \<open>The constructor\<close>

definition required :: "fc_Config \<Rightarrow> unit fres" where
  "required c =
     (if cf_FirecrackerBin c = [] \<or> cf_KernelPath c = [] \<or> cf_ImageDir c = [] then Inl (EIO ''required'')
      else if cf_EnableJailer c \<and> cf_JailerBin c = [] then Inl (EIO ''jailer-bin is required'')
      else if cf_Storage c = None then Inl (EIO ''Storage registry is required'')
      else Inr ())"

definition conf_of :: "fc_Config \<Rightarrow> string \<Rightarrow> bool \<Rightarrow> bool \<Rightarrow> fcconf" where
  "conf_of c iface v1 boost = \<lparr>fc_EnableJailer = cf_EnableJailer c, fc_cgroupV1 = v1, fc_DefaultVcpuCount = cf_DefaultVcpuCount c,
     fc_DefaultMemoryMib = cf_DefaultMemoryMib c, fc_VcpuHeadroomMult = cf_VcpuHeadroomMult c, fc_MemHeadroomMult = cf_MemHeadroomMult c,
     fc_hostIface = iface, fc_storageBackend = (case cf_Storage c of Some b \<Rightarrow> b | None \<Rightarrow> []), fc_boostHandler = boost\<rparr>"

text \<open>The boost handler is registered later, by \<open>SetBoostHandler\<close>.\<close>

definition SetBoostHandler :: "unit H" where
  "SetBoostHandler = alter (\<lambda>h. h\<lparr>h_conf := (h_conf h)\<lparr>fc_boostHandler := True\<rparr>\<rparr>)"

definition fc_New :: "fc_Config \<Rightarrow> string fres \<Rightarrow> string fres \<Rightarrow> bool \<Rightarrow> string list \<Rightarrow> string list \<Rightarrow> unit fres H" where
  "fc_New cfg route sysctl v1 vms fps = (let c = config_defaults cfg in
     bindE (wrapE (ret (validateDefaults c))) (\<lambda>_.
     bindE (wrapE (os_do (\<lambda>h. h))) (\<lambda>_.  \<comment> \<open>\<open>MkdirAll(SnapshotDir)\<close>\<close>
     bindE (ret (required c)) (\<lambda>_.
     bindE (if cf_HostInterface c = [] then wrapE (ret (DetectDefaultInterface route)) else ret (Inr (cf_HostInterface c))) (\<lambda>iface.
     bindE (wrapE (ret (CheckIPForward sysctl))) (\<lambda>_. do {
       alter (\<lambda>h. h\<lparr>h_conf := conf_of c iface v1 False, p_vms := Map.empty, p_locks := Map.empty, p_subnets := NewAllocator,
         p_uids := 10000, p_ports := NewPortAllocator, p_cidNext := cf_VsockCIDBase c, p_listeners := []\<rparr>);
       fc_recover vms fps;
       ret (Inr ()) }))))))"

section \<open>Machine sizes\<close>

lemma boot_ceiling_bounds:
  assumes "1 \<le> mult" "1 \<le> limit" "limit \<le> cap"
  shows "limit \<le> boot_ceiling mult cap limit" "boot_ceiling mult cap limit \<le> cap"
proof -
  have "(of_int limit :: rat) \<le> of_int limit * mult" using mult_left_mono [OF assms(1), of "of_int limit"] assms(2) by simp
  then have "limit \<le> \<lceil>of_int limit * mult\<rceil>" by linarith
  then show "limit \<le> boot_ceiling mult cap limit" "boot_ceiling mult cap limit \<le> cap"
    using assms(3) by (auto simp: boot_ceiling_def Let_def)
qed

text \<open>
  whatever configuration the constructor accepts and whatever limits the service layer lets
  through for this backend, a new machine has a limit between the policy's minimum and its boot
  size and a boot size within the policy's maximum (32 CPUs, 8192 MiB); the balloon attached at
  boot leaves the guest exactly its memory limit; and a multiplier of one gives no headroom.
\<close>

theorem machine_sizes_in_bounds:
  assumes "validateDefaults (config_defaults c) = Inr ()"
    and "validateResourceBounds (cr_CPULimit req) (cr_MemoryLimitMB req) backendFirecracker = Inr ()"
    and "v = machine_info (conf_of (config_defaults c) iface v1 boost) req vm cid uid"
  shows "1 \<le> vi_LimitCPU v \<and> vi_LimitCPU v \<le> vi_CeilingCPU v \<and> vi_CeilingCPU v \<le> 32 \<and> vi_VcpuCount v = vi_CeilingCPU v \<and>
    128 \<le> vi_LimitMemMib v \<and> vi_LimitMemMib v \<le> vi_CeilingMemMib v \<and> vi_CeilingMemMib v \<le> 8192 \<and>
    vi_MemSizeMib v = vi_CeilingMemMib v \<and> (\<exists>b\<ge>0. boot_balloon v = Some b \<and> vi_MemSizeMib v - b = vi_LimitMemMib v) \<and>
    (cf_VcpuHeadroomMult c = 1 \<longrightarrow> vi_CeilingCPU v = vi_LimitCPU v) \<and>
    (cf_MemHeadroomMult c = 1 \<longrightarrow> vi_CeilingMemMib v = vi_LimitMemMib v)"
proof -
  let ?c = "config_defaults c"
  have c: "1 \<le> cf_DefaultVcpuCount ?c" "cf_DefaultVcpuCount ?c \<le> 32" "128 \<le> cf_DefaultMemoryMib ?c" "cf_DefaultMemoryMib ?c \<le> 8192"
    "1 \<le> cf_VcpuHeadroomMult ?c" "1 \<le> cf_MemHeadroomMult ?c"
    using assms(1) by (auto simp: validateDefaults_def defaultMinVcpu_def defaultMaxVcpu_def defaultMinMemMB_def defaultMaxMemMB_def
      split: if_splits)
  have r: "cpu_in_bounds backendFirecracker (cr_CPULimit req)" "mem_in_bounds backendFirecracker (cr_MemoryLimitMB req)"
    using assms(2) by (simp_all add: validate_iff)
  define cpu where "cpu = limit_or (cr_CPULimit req) (cf_DefaultVcpuCount ?c)"
  define mem where "mem = limit_or (cr_MemoryLimitMB req) (cf_DefaultMemoryMib ?c)"
  have l: "1 \<le> cpu" "cpu \<le> 32" "128 \<le> mem" "mem \<le> 8192"
    using c r by (auto simp: cpu_def mem_def limit_or_def cpu_in_bounds_def mem_in_bounds_def split: option.splits)
  define ccpu where "ccpu = boot_ceiling (cf_VcpuHeadroomMult ?c) 32 cpu"
  define cmem where "cmem = boot_ceiling (cf_MemHeadroomMult ?c) 8192 mem"
  have b: "cpu \<le> ccpu" "ccpu \<le> 32" "mem \<le> cmem" "cmem \<le> 8192"
    using boot_ceiling_bounds [OF c(5) l(1,2)] boot_ceiling_bounds [OF c(6) _ l(4)] l(3) by (simp_all add: ccpu_def cmem_def)
  have one: "cf_VcpuHeadroomMult c = 1 \<longrightarrow> ccpu = cpu" "cf_MemHeadroomMult c = 1 \<longrightarrow> cmem = mem"
    using l by (simp_all add: ccpu_def cmem_def boot_ceiling_def Let_def config_defaults_def or_default_def)
  have v: "vi_LimitCPU v = cpu" "vi_CeilingCPU v = ccpu" "vi_VcpuCount v = ccpu" "vi_LimitMemMib v = mem" "vi_CeilingMemMib v = cmem"
    "vi_MemSizeMib v = cmem"
    by (simp_all add: assms(3) machine_info_def conf_of_def Let_def cpu_def mem_def ccpu_def cmem_def defaultMaxVcpu_def defaultMaxMemMB_def)
  have "boot_balloon v = Some (cmem - mem)" using b l by (simp add: boot_balloon_def v)
  then show ?thesis using b l one by (simp add: v)
qed

text \<open>The defaults with a memory multiplier of 3/2 and a request for 3 CPUs.\<close>

definition demo_Config :: fc_Config where
  "demo_Config = \<lparr>cf_FirecrackerBin = ''/usr/bin/firecracker'', cf_JailerBin = [], cf_KernelPath = ''/k'', cf_ImageDir = ''/i'',
     cf_ChrootBase = [], cf_VsockCIDBase = 0, cf_HostInterface = ''eth0'', cf_SnapshotDir = [], cf_EnableJailer = False, cf_CgroupRoot = [],
     cf_Storage = Some ''reflink'', cf_DefaultVcpuCount = 0, cf_DefaultMemoryMib = 0, cf_VcpuHeadroomMult = 0, cf_MemHeadroomMult = 3 / 2\<rparr>"

lemma machine_sizes_in_bounds_witness:
  "let v = machine_info (conf_of (config_defaults demo_Config) ''eth0'' False False) (empty_req\<lparr>cr_CPULimit := Some 3\<rparr>) ''v'' 100 10000 in
    vi_LimitCPU v \<le> vi_CeilingCPU v \<and> vi_LimitMemMib v \<le> vi_CeilingMemMib v \<and> vi_CeilingMemMib v \<le> 8192"
proof -
  let ?req = "empty_req\<lparr>cr_CPULimit := Some 3\<rparr>"
  have "validateDefaults (config_defaults demo_Config) = Inr ()"
    by (simp add: validateDefaults_def config_defaults_def demo_Config_def or_default_def HasPrefix_def defaultMinVcpu_def
      defaultMaxVcpu_def defaultMinMemMB_def defaultMaxMemMB_def)
  moreover have "validateResourceBounds (cr_CPULimit ?req) (cr_MemoryLimitMB ?req) backendFirecracker = Inr ()"
    by (simp add: validate_iff cpu_in_bounds_def mem_in_bounds_def empty_req_def)
  ultimately show ?thesis using machine_sizes_in_bounds [OF _ _ refl] unfolding Let_def by blast
qed

end
