(* ===== verification/Access.thy ===== *)
theory Access imports Complex_Main GoText begin

text \<open>
  Who may call: the session cookies of the web UI (\<open>internal/webui/session.go\<close>), its login
  handlers and their rate limiter (\<open>handlers.go\<close>, \<open>ratelimit.go\<close>), the authentication of the
  REST API (\<open>internal/api/middleware.go\<close>) and the rate limiter of the boost channel
  (\<open>internal/api/ratelimit.go\<close>).  Byte strings are \<open>string\<close>s; instants are nanoseconds since the
  epoch.  HMAC-SHA256 is the parameter \<open>mac\<close>, a function of key and message; \<open>url.Parse\<close> with
  \<open>Hostname\<close> is the parameter \<open>hostname\<close>.  The token counts, \<open>float64\<close> in the source, are
  exact rationals.
\<close>

section \<open>Signed session values\<close>

definition unix_seconds :: "int \<Rightarrow> int" where
  "unix_seconds t = t div d_second"

text \<open>\<open>time.Unix(sec, 0)\<close> counts from year 1 in an int64, which wraps around for absurd seconds.\<close>

definition unixToInternal :: int where "unixToInternal = 62135596800"

definition time_Unix :: "int \<Rightarrow> int" where
  "time_Unix sec = (wrap64 (sec + unixToInternal) - unixToInternal) * d_second"

definition session_payload :: "int \<Rightarrow> int \<Rightarrow> string" where
  "session_payload iat ex = itoa (unix_seconds iat) @ CHR ''|'' # itoa (unix_seconds ex)"

definition Sign :: "(string \<Rightarrow> string \<Rightarrow> string) \<Rightarrow> string \<Rightarrow> int \<Rightarrow> int \<Rightarrow> string option" where
  "Sign mac key issuedAt expiresAt =
     (if key = [] then None
      else (let encPayload = b64_encode (session_payload issuedAt expiresAt);
                sig = b64_encode (mac key encPayload) in
        Some (encPayload @ CHR ''.'' # sig)))"

datatype session_error = NoKey | Malformed | BadSignature | Expired

definition Verify :: "(string \<Rightarrow> string \<Rightarrow> string) \<Rightarrow> string \<Rightarrow> int \<Rightarrow> string \<Rightarrow> session_error + int \<times> int" where
  "Verify mac key now value =
     (if key = [] then Inl NoKey
      else (case split_on (CHR ''.'') value of
        [p, s] \<Rightarrow>
          if p = [] \<or> s = [] then Inl Malformed
          else (case b64_decode s of
            None \<Rightarrow> Inl Malformed
          | Some got \<Rightarrow>
              if mac key p \<noteq> got then Inl BadSignature
              else (case b64_decode p of
                None \<Rightarrow> Inl Malformed
              | Some payload \<Rightarrow> (case split_on (CHR ''|'') payload of
                  [a, b] \<Rightarrow> (case (parse_int a, parse_int b) of
                      (Some iat, Some ex) \<Rightarrow>
                        if now > time_Unix ex then Inl Expired else Inr (time_Unix iat, time_Unix ex)
                    | _ \<Rightarrow> Inl Malformed)
                | _ \<Rightarrow> Inl Malformed)))
      | _ \<Rightarrow> Inl Malformed))"

section \<open>The token bucket of the login page\<close>

record bucket =
  bk_tokens :: rat
  bk_last :: int

record rate_limiter =
  rl_capacity :: rat
  rl_refill :: rat
  rl_interval :: int
  rl_buckets :: "string \<Rightarrow> bucket option"

definition newRateLimiter :: "rat \<Rightarrow> rat \<Rightarrow> int \<Rightarrow> rate_limiter" where
  "newRateLimiter capacity refillPerInterval interval =
     \<lparr>rl_capacity = capacity, rl_refill = refillPerInterval, rl_interval = interval, rl_buckets = Map.empty\<rparr>"

definition rl_rate :: "rate_limiter \<Rightarrow> rat" where
  "rl_rate r = rl_refill r / of_int (rl_interval r)"

definition topped_up :: "rate_limiter \<Rightarrow> int \<Rightarrow> bucket \<Rightarrow> bucket" where
  "topped_up r now b = (let elapsed = t_Sub (utc now) (utc (bk_last b)) in
     if elapsed > 0 then \<lparr>bk_tokens = min (rl_capacity r) (bk_tokens b + of_int elapsed * rl_rate r), bk_last = now\<rparr> else b)"

definition consume :: "string \<Rightarrow> int \<Rightarrow> rate_limiter \<Rightarrow> bool \<times> rate_limiter" where
  "consume key now r =
     (let b = topped_up r now (case rl_buckets r key of Some b \<Rightarrow> b | None \<Rightarrow> \<lparr>bk_tokens = rl_capacity r, bk_last = now\<rparr>) in
      if bk_tokens b < 1 then (False, r\<lparr>rl_buckets := (rl_buckets r)(key \<mapsto> b)\<rparr>)
      else (True, r\<lparr>rl_buckets := (rl_buckets r)(key \<mapsto> b\<lparr>bk_tokens := bk_tokens b - 1\<rparr>)\<rparr>))"

definition refund :: "string \<Rightarrow> rate_limiter \<Rightarrow> rate_limiter" where
  "refund key r = (case rl_buckets r key of
     None \<Rightarrow> r
   | Some b \<Rightarrow> r\<lparr>rl_buckets := (rl_buckets r)(key \<mapsto> b\<lparr>bk_tokens := min (rl_capacity r) (bk_tokens b + 1)\<rparr>)\<rparr>)"

definition rl_gc :: "int \<Rightarrow> int \<Rightarrow> rate_limiter \<Rightarrow> rate_limiter" where
  "rl_gc idleTTL now r = r\<lparr>rl_buckets := (\<lambda>k. case rl_buckets r k of
     Some b \<Rightarrow> if bk_last b < now - idleTTL then None else Some b | None \<Rightarrow> None)\<rparr>"

section \<open>The handlers of the web UI\<close>

record ui_config =
  ui_Password :: string
  ui_SessionKey :: string
  ui_SessionTTL :: int
  ui_RateCapacity :: rat
  ui_RateRefill :: rat
  ui_RateInterval :: int

definition NewHandlers :: "ui_config \<Rightarrow> rate_limiter" where
  "NewHandlers cfg = newRateLimiter
     (if ui_RateCapacity cfg = 0 then 5 else ui_RateCapacity cfg)
     (if ui_RateRefill cfg = 0 then 5 else ui_RateRefill cfg)
     (if ui_RateInterval cfg = 0 then d_minute else ui_RateInterval cfg)"

record cookie =
  ck_Value :: string
  ck_MaxAge :: int
  ck_Secure :: bool

record login_request =
  lr_ip :: string                     \<comment> \<open>\<open>clientIP\<close>\<close>
  lr_password :: "string option"      \<comment> \<open>the decoded body; \<open>None\<close> when it is not JSON\<close>
  lr_https :: bool                    \<comment> \<open>\<open>X-Forwarded-Proto: https\<close>\<close>

text \<open>\<open>t\<close> is the clock at the rate limiter, \<open>t'\<close> after the delay.\<close>

definition Login :: "(string \<Rightarrow> string \<Rightarrow> string) \<Rightarrow> ui_config \<Rightarrow> int \<Rightarrow> int \<Rightarrow> login_request \<Rightarrow> rate_limiter \<Rightarrow>
    (int \<times> cookie option) \<times> rate_limiter" where
  "Login mac cfg t t' req rl = (case consume (lr_ip req) t rl of
     (False, rl') \<Rightarrow> ((429, None), rl')
   | (True, rl') \<Rightarrow> (case lr_password req of
       None \<Rightarrow> ((400, None), rl')
     | Some pw \<Rightarrow>
         if pw \<noteq> ui_Password cfg then ((401, None), rl')
         else (let rl'' = refund (lr_ip req) rl'; ttl = (if ui_SessionTTL cfg = 0 then 24 * d_hour else ui_SessionTTL cfg) in
           case Sign mac (ui_SessionKey cfg) t' (t' + ttl) of
             None \<Rightarrow> ((500, None), rl'')
           | Some v \<Rightarrow> ((200, Some \<lparr>ck_Value = v, ck_MaxAge = ttl div d_second, ck_Secure = lr_https req\<rparr>), rl''))))"

definition valid_cookie :: "(string \<Rightarrow> string \<Rightarrow> string) \<Rightarrow> string \<Rightarrow> int \<Rightarrow> string option \<Rightarrow> bool" where
  "valid_cookie mac key now c = (case c of None \<Rightarrow> False | Some v \<Rightarrow> v \<noteq> [] \<and> \<not> isl (Verify mac key now v))"

definition Logout :: "(string \<Rightarrow> string \<Rightarrow> string) \<Rightarrow> ui_config \<Rightarrow> int \<Rightarrow> string option \<Rightarrow> int \<times> cookie option" where
  "Logout mac cfg now c = (if valid_cookie mac (ui_SessionKey cfg) now c
     then (200, Some \<lparr>ck_Value = [], ck_MaxAge = -1, ck_Secure = False\<rparr>) else (401, None))"

definition Me :: "(string \<Rightarrow> string \<Rightarrow> string) \<Rightarrow> ui_config \<Rightarrow> int \<Rightarrow> string option \<Rightarrow> int \<times> bool" where
  "Me mac cfg now c = (200, valid_cookie mac (ui_SessionKey cfg) now c)"

definition uiPathMethods :: "string \<Rightarrow> string option" where
  "uiPathMethods = [''/ui/login'' \<mapsto> ''POST'', ''/ui/logout'' \<mapsto> ''POST'', ''/ui/me'' \<mapsto> ''GET'']"

definition NotAllowed :: "string \<Rightarrow> int \<times> string option" where
  "NotAllowed path = (case uiPathMethods path of None \<Rightarrow> (404, None) | Some a \<Rightarrow> (405, Some a))"

section \<open>Authentication of the REST API\<close>

record http_request =
  rq_Method :: string
  rq_Path :: string
  rq_Host :: string
  rq_Authorization :: string
  rq_Cookie :: "string option"
  rq_Origin :: string
  rq_Referer :: string
  rq_token :: string            \<comment> \<open>the \<open>token\<close> query parameter\<close>

datatype verdict = Pass | Unauthorized401 | Forbidden403

definition extractBearerToken :: "http_request \<Rightarrow> string" where
  "extractBearerToken r = (if HasPrefix (rq_Authorization r) ''Bearer '' then TrimPrefix (rq_Authorization r) ''Bearer '' else [])"

definition isUnsafeMethod :: "string \<Rightarrow> bool" where
  "isUnsafeMethod m \<longleftrightarrow> m \<notin> {''GET'', ''HEAD'', ''OPTIONS''}"

definition lower :: "string \<Rightarrow> string" where
  "lower = map (\<lambda>c. let v = (of_char c :: nat) in if 65 \<le> v \<and> v \<le> 90 then char_of (v + 32) else c)"

text \<open>\<open>net.SplitHostPort\<close>, as far as the host: at the last colon, with the brackets of an IPv6 literal.\<close>

fun split_last :: "char \<Rightarrow> string \<Rightarrow> (string \<times> string) option" where
  "split_last c [] = None"
| "split_last c (x # xs) = (case split_last c xs of
     Some (a, b) \<Rightarrow> Some (x # a, b) | None \<Rightarrow> if x = c then Some ([], xs) else None)"

definition SplitHostPort :: "string \<Rightarrow> string option" where
  "SplitHostPort hostport = (case split_last (CHR '':'') hostport of
     None \<Rightarrow> None
   | Some (h, port) \<Rightarrow>
       if h \<noteq> [] \<and> hd h = CHR ''['' then
         (if length h > 1 \<and> List.last h = CHR '']'' \<and> CHR '']'' \<notin> set (butlast h) \<and> CHR ''['' \<notin> set (tl h @ port) \<and> CHR '']'' \<notin> set port
          then Some (tl (butlast h)) else None)
       else if CHR '':'' \<notin> set h \<and> CHR ''['' \<notin> set (h @ port) \<and> CHR '']'' \<notin> set (h @ port) then Some h else None)"

definition hostnameOnly :: "string \<Rightarrow> string" where
  "hostnameOnly host = (case SplitHostPort host of Some h \<Rightarrow> h | None \<Rightarrow> host)"

text \<open>
  The key of a client in the rate limiter.  \<open>net.ParseIP\<close> is the parameter \<open>parse\<close>, the canonical text
  of an address \<open>canon\<close>, and the trusted networks are their membership tests.
\<close>

definition isTrustedPeer :: "(string \<Rightarrow> 'ip option) \<Rightarrow> string \<Rightarrow> ('ip \<Rightarrow> bool) list \<Rightarrow> bool" where
  "isTrustedPeer parse remoteAddr trusted = (case parse (TrimSpace (hostnameOnly remoteAddr)) of
     None \<Rightarrow> False | Some ip \<Rightarrow> list_ex (\<lambda>net. net ip) trusted)"

definition clientIP :: "(string \<Rightarrow> 'ip option) \<Rightarrow> ('ip \<Rightarrow> string) \<Rightarrow> ('ip \<Rightarrow> bool) list \<Rightarrow> string \<Rightarrow> string \<Rightarrow> string" where
  "clientIP parse canon trusted remoteAddr xff =
     (if isTrustedPeer parse remoteAddr trusted \<and> xff \<noteq> []
      then (case parse (TrimSpace (takeWhile (\<lambda>c. c \<noteq> CHR '','') xff)) of
              Some ip \<Rightarrow> canon ip | None \<Rightarrow> hostnameOnly remoteAddr)
      else hostnameOnly remoteAddr)"

text \<open>\<open>hostname\<close> is the host name of a URL text, \<open>None\<close> when it cannot be parsed.  Case is folded as ASCII.\<close>

definition sameHost :: "(string \<Rightarrow> string option) \<Rightarrow> string \<Rightarrow> string \<Rightarrow> bool" where
  "sameHost hostname rawURL host = (case hostname rawURL of
     None \<Rightarrow> False | Some h \<Rightarrow> h \<noteq> [] \<and> lower h = lower (hostnameOnly host))"

definition originMatchesHost :: "(string \<Rightarrow> string option) \<Rightarrow> http_request \<Rightarrow> bool" where
  "originMatchesHost hostname r =
     (if rq_Origin r \<noteq> [] then sameHost hostname (rq_Origin r) (rq_Host r)
      else if rq_Referer r \<noteq> [] then sameHost hostname (rq_Referer r) (rq_Host r)
      else False)"

definition isWebSocketRoute :: "string \<Rightarrow> bool" where
  "isWebSocketRoute path \<longleftrightarrow> path = ''/v1/events'' \<or> HasPrefix path ''/v1/sandboxes/'' \<and> HasSuffix path ''/attach''"

definition authMiddleware :: "(string \<Rightarrow> string \<Rightarrow> string) \<Rightarrow> (string \<Rightarrow> string option) \<Rightarrow>
    string \<Rightarrow> string \<Rightarrow> int \<Rightarrow> http_request \<Rightarrow> verdict" where
  "authMiddleware mac hostname token sessionKey now r =
     (if token = [] \<and> sessionKey = [] then Pass
      else if extractBearerToken r \<noteq> [] then
        (if token = [] \<or> extractBearerToken r \<noteq> token then Unauthorized401 else Pass)
      else if sessionKey \<noteq> [] \<and> rq_Cookie r \<noteq> None \<and> rq_Cookie r \<noteq> Some [] then
        (case Verify mac sessionKey now (the (rq_Cookie r)) of
           Inl _ \<Rightarrow> Unauthorized401
         | Inr _ \<Rightarrow> if isUnsafeMethod (rq_Method r) \<and> \<not> originMatchesHost hostname r then Forbidden403 else Pass)
      else if token \<noteq> [] \<and> isWebSocketRoute (rq_Path r) \<and> rq_token r \<noteq> [] then
        (if rq_token r \<noteq> token then Unauthorized401 else Pass)
      else Unauthorized401)"

section \<open>The rate limiter of the boost channel\<close>

record RateLimiterConfig =
  rc_Burst :: int
  rc_RefillPerSec :: rat
  rc_IdleTTL :: int

definition NewRateLimiterDefault :: RateLimiterConfig where
  "NewRateLimiterDefault = \<lparr>rc_Burst = 10, rc_RefillPerSec = 1, rc_IdleTTL = d_hour\<rparr>"

definition Seconds :: "int \<Rightarrow> rat" where
  "Seconds d = of_int d / of_int d_second"

type_synonym rate_buckets = "string \<Rightarrow> bucket option"

definition Allow :: "RateLimiterConfig \<Rightarrow> string \<Rightarrow> int \<Rightarrow> rate_buckets \<Rightarrow> bool \<times> rate_buckets" where
  "Allow cfg sandboxID now bs =
     (let b = (case bs sandboxID of
          None \<Rightarrow> \<lparr>bk_tokens = of_int (rc_Burst cfg), bk_last = now\<rparr>
        | Some b \<Rightarrow> \<lparr>bk_tokens = min (of_int (rc_Burst cfg))
              (bk_tokens b + Seconds (t_Sub (utc now) (utc (bk_last b))) * rc_RefillPerSec cfg), bk_last = now\<rparr>) in
      if bk_tokens b \<ge> 1 then (True, bs(sandboxID \<mapsto> b\<lparr>bk_tokens := bk_tokens b - 1\<rparr>))
      else (False, bs(sandboxID \<mapsto> b)))"

definition RetryAfter :: "RateLimiterConfig \<Rightarrow> string \<Rightarrow> rate_buckets \<Rightarrow> int" where
  "RetryAfter cfg sandboxID bs = (case bs sandboxID of
     None \<Rightarrow> 0
   | Some b \<Rightarrow> if bk_tokens b \<ge> 1 then 0
       else (let missing = 1 - bk_tokens b; secs = missing / rc_RefillPerSec cfg in \<lfloor>secs * of_int d_second\<rfloor>))"

definition rate_GC :: "RateLimiterConfig \<Rightarrow> int \<Rightarrow> rate_buckets \<Rightarrow> rate_buckets" where
  "rate_GC cfg now bs = (\<lambda>k. case bs k of
     Some b \<Rightarrow> if bk_last b < now - rc_IdleTTL cfg then None else Some b | None \<Rightarrow> None)"

section \<open>Sessions\<close>

lemma verify_own:
  assumes "key \<noteq> []" "- (2 ^ 63) \<le> unix_seconds iat" "unix_seconds iat < 2 ^ 63 - unixToInternal"
    and "- (2 ^ 63) \<le> unix_seconds ex" "unix_seconds ex < 2 ^ 63 - unixToInternal" "\<And>k m. mac k m \<noteq> []"
  shows "\<exists>v. Sign mac key iat ex = Some v \<and> Verify mac key now v =
    (if now > unix_seconds ex * d_second then Inl Expired else Inr (unix_seconds iat * d_second, unix_seconds ex * d_second))"
proof -
  let ?p = "b64_encode (session_payload iat ex)" and ?s = "b64_encode (mac key (b64_encode (session_payload iat ex)))"
  have s: "split_on (CHR ''.'') (?p @ CHR ''.'' # ?s) = [?p, ?s]"
    using b64_encode_plain by (simp add: split_on_two split_on_plain) (metis insertI1 insertI2 split_on_plain split_on_two)
  have f: "split_on (CHR ''|'') (session_payload iat ex) = [itoa (unix_seconds iat), itoa (unix_seconds ex)]"
    using itoa_plain by (simp add: session_payload_def split_on_two split_on_plain)
  have t: "time_Unix (unix_seconds x) = unix_seconds x * d_second"
    if "- (2 ^ 63) \<le> unix_seconds x" "unix_seconds x < 2 ^ 63 - unixToInternal" for x
    using that by (simp add: time_Unix_def unixToInternal_def wrap64_id)
  have p: "session_payload iat ex \<noteq> []" by (simp add: session_payload_def)
  have i: "parse_int (itoa (unix_seconds iat)) = Some (unix_seconds iat)" "parse_int (itoa (unix_seconds ex)) = Some (unix_seconds ex)"
    using assms(2-5) by (simp_all add: parse_int_itoa unixToInternal_def)
  show ?thesis using assms(1,6) p
    by (simp add: Sign_def Verify_def Let_def s b64_round f i t [OF assms(2,3)] t [OF assms(4,5)])
qed

text \<open>
  a login hands out a session that works until it expires and no longer: the value of the
  cookie is accepted by the API for a safe request, and by the page's own check, exactly up to the
  second in which the login's time to live ends.
\<close>

theorem login_session_roundtrip:
  assumes "Login mac cfg t t' req rl = ((200, Some c), rl')" "\<And>k m. mac k m \<noteq> []"
    and "0 \<le> t'" "ttl = (if ui_SessionTTL cfg = 0 then 24 * d_hour else ui_SessionTTL cfg)" "0 < ttl" "t' + ttl < 2 ^ 80"
    and "rq_Cookie r = Some (ck_Value c)" "extractBearerToken r = []" "\<not> isUnsafeMethod (rq_Method r)"
  shows "authMiddleware mac hostname token (ui_SessionKey cfg) now r =
      (if now \<le> unix_seconds (t' + ttl) * d_second then Pass else Unauthorized401) \<and>
    Me mac cfg now (rq_Cookie r) = (200, now \<le> unix_seconds (t' + ttl) * d_second)"
proof -
  have s: "Sign mac (ui_SessionKey cfg) t' (t' + ttl) = Some (ck_Value c)"
    using assms(1) unfolding Login_def assms(4) [symmetric] Let_def
    by (auto split: prod.splits bool.splits option.splits if_splits)
  then have k: "ui_SessionKey cfg \<noteq> []" by (auto simp: Sign_def)
  have b: "0 \<le> unix_seconds x \<and> unix_seconds x < 2 ^ 63 - unixToInternal" if "0 \<le> x" "x < 2 ^ 80" for x
    using that by (auto simp: unix_seconds_def d_second_def unixToInternal_def)
  have "0 \<le> t' + ttl" "t' < 2 ^ 80" using assms(3,5,6) by simp_all
  note b' = b [OF assms(3) this(2)] b [OF this(1) assms(6)]
  have v: "Verify mac (ui_SessionKey cfg) now (ck_Value c) =
      (if now > unix_seconds (t' + ttl) * d_second then Inl Expired
       else Inr (unix_seconds t' * d_second, unix_seconds (t' + ttl) * d_second))"
    using verify_own [of "ui_SessionKey cfg" t' "t' + ttl" mac now] k b' assms(2) s by auto
  have n: "ck_Value c \<noteq> []" using s k by (auto simp: Sign_def Let_def)
  show ?thesis using v n k assms(7-9)
    by (auto simp: authMiddleware_def Me_def valid_cookie_def)
qed

definition demo_mac :: "string \<Rightarrow> string \<Rightarrow> string" where
  "demo_mac k m = CHR ''m'' # k @ take 4 (rev m)"

definition demo_ui :: ui_config where
  "demo_ui = \<lparr>ui_Password = ''secret'', ui_SessionKey = ''key'', ui_SessionTTL = 0, ui_RateCapacity = 0, ui_RateRefill = 0, ui_RateInterval = 0\<rparr>"

definition demo_login :: login_request where
  "demo_login = \<lparr>lr_ip = ''10.0.0.1'', lr_password = Some ''secret'', lr_https = True\<rparr>"

definition demo_get :: "string \<Rightarrow> http_request" where
  "demo_get v = \<lparr>rq_Method = ''GET'', rq_Path = ''/v1/sandboxes'', rq_Host = ''localhost:8080'', rq_Authorization = [], rq_Cookie = Some v,
     rq_Origin = [], rq_Referer = [], rq_token = []\<rparr>"

lemma login_session_roundtrip_witness:
  "\<exists>c rl'. Login demo_mac demo_ui 0 d_second demo_login (NewHandlers demo_ui) = ((200, Some c), rl') \<and>
    authMiddleware demo_mac (\<lambda>_. None) ''token'' ''key'' d_hour (demo_get (ck_Value c)) = Pass \<and>
    authMiddleware demo_mac (\<lambda>_. None) ''token'' ''key'' (25 * d_hour) (demo_get (ck_Value c)) = Unauthorized401"
proof -
  let ?v = "the (Sign demo_mac ''key'' d_second (d_second + 24 * d_hour))"
  let ?c = "\<lparr>ck_Value = ?v, ck_MaxAge = 86400, ck_Secure = True\<rparr>"
  have l: "Login demo_mac demo_ui 0 d_second demo_login (NewHandlers demo_ui) = ((200, Some ?c),
      refund ''10.0.0.1'' (snd (consume ''10.0.0.1'' 0 (NewHandlers demo_ui))))"
    by (simp add: Login_def consume_def topped_up_def NewHandlers_def newRateLimiter_def t_Sub_def utc_def demo_ui_def demo_login_def
      Let_def Sign_def d_hour_def d_minute_def d_second_def)
  have "authMiddleware demo_mac (\<lambda>_. None) ''token'' ''key'' now (demo_get ?v) =
      (if now \<le> unix_seconds (d_second + 24 * d_hour) * d_second then Pass else Unauthorized401)" for now
    using login_session_roundtrip [OF l, of "24 * d_hour" "demo_get ?v" "\<lambda>_. None" "''token''" now]
    by (simp add: demo_mac_def demo_ui_def demo_get_def d_second_def d_hour_def d_minute_def extractBearerToken_def HasPrefix_def isUnsafeMethod_def)
  then show ?thesis using l by (intro exI [of _ ?c]) (simp add: unix_seconds_def d_second_def d_hour_def d_minute_def)
qed

section \<open>The gate of the API\<close>

lemma split_on_single: "split_on c xs = [a] \<Longrightarrow> xs = a"
  by (induction xs arbitrary: a) (auto split: if_splits list.splits)

lemma split_on_pair: "split_on c xs = [a, b] \<Longrightarrow> xs = a @ c # b"
proof (induction xs arbitrary: a)
  case (Cons x xs)
  then show ?case using split_on_single [of c xs b] by (cases "x = c") (auto split: list.splits)
qed simp

text \<open>A session value that was signed under the key and has not expired.\<close>

definition live_session :: "(string \<Rightarrow> string \<Rightarrow> string) \<Rightarrow> string \<Rightarrow> int \<Rightarrow> string \<Rightarrow> bool" where
  "live_session mac key now v \<longleftrightarrow> (\<exists>p s a b iat ex. v = p @ CHR ''.'' # s \<and> b64_decode s = Some (mac key p) \<and>
     b64_decode p = Some (a @ CHR ''|'' # b) \<and> parse_int a = Some iat \<and> parse_int b = Some ex \<and> now \<le> time_Unix ex)"

lemma verify_sound:
  assumes "Verify mac key now value = Inr ie"
  shows "live_session mac key now value"
proof -
  obtain p s where ps: "split_on (CHR ''.'') value = [p, s]" "b64_decode s = Some (mac key p)"
    and rest: "(case b64_decode p of None \<Rightarrow> Inl Malformed
              | Some payload \<Rightarrow> (case split_on (CHR ''|'') payload of
                  [a, b] \<Rightarrow> (case (parse_int a, parse_int b) of
                      (Some iat, Some ex) \<Rightarrow>
                        if now > time_Unix ex then Inl Expired else Inr (time_Unix iat, time_Unix ex)
                    | _ \<Rightarrow> Inl Malformed)
                | _ \<Rightarrow> Inl Malformed)) = Inr ie"
    using assms unfolding Verify_def by (auto split: if_splits list.splits option.splits)
  then obtain a b iat ex where "b64_decode p = Some (a @ CHR ''|'' # b)" "parse_int a = Some iat" "parse_int b = Some ex" "now \<le> time_Unix ex"
    using split_on_pair by (fastforce split: if_splits list.splits option.splits)
  then show ?thesis using ps split_on_pair [OF ps(1)] unfolding live_session_def by blast
qed

lemma Bearer_eq: "HasPrefix s ''Bearer '' \<Longrightarrow> TrimPrefix s ''Bearer '' = t \<Longrightarrow> s = ''Bearer '' @ t"
  unfolding HasPrefix_def TrimPrefix_def by (metis append_take_drop_id)

text \<open>
  C13: with authentication configured, a request passes the gate only if it carries the API token (in
  the Authorization header, or as a query parameter of a WebSocket route) or a session value
  whose signature is the MAC of its payload under the session key and which has not expired; a
  request with a session that changes state must also come from a page of the same host.  A
  request with the right bearer token always passes.
\<close>

theorem auth_gate:
  assumes "token \<noteq> [] \<or> key \<noteq> []"
  shows "(authMiddleware mac hostname token key now r = Pass \<longrightarrow>
      token \<noteq> [] \<and> (rq_Authorization r = ''Bearer '' @ token \<or> rq_token r = token \<and> isWebSocketRoute (rq_Path r)) \<or>
      key \<noteq> [] \<and> (\<exists>v. rq_Cookie r = Some v \<and> live_session mac key now v) \<and>
        (isUnsafeMethod (rq_Method r) \<longrightarrow> originMatchesHost hostname r)) \<and>
    (token \<noteq> [] \<and> rq_Authorization r = ''Bearer '' @ token \<longrightarrow> authMiddleware mac hostname token key now r = Pass)"
proof (intro conjI impI)
  assume pass: "authMiddleware mac hostname token key now r = Pass"
  consider (bearer) "extractBearerToken r \<noteq> []" "extractBearerToken r = token"
    | (cookie) v x where "extractBearerToken r = []" "key \<noteq> []" "rq_Cookie r = Some v" "Verify mac key now v = Inr x"
        "isUnsafeMethod (rq_Method r) \<longrightarrow> originMatchesHost hostname r"
    | (query) "token \<noteq> []" "rq_token r = token" "isWebSocketRoute (rq_Path r)"
    using pass assms unfolding authMiddleware_def by (auto split: if_splits sum.splits)
  then show "token \<noteq> [] \<and> (rq_Authorization r = ''Bearer '' @ token \<or> rq_token r = token \<and> isWebSocketRoute (rq_Path r)) \<or>
      key \<noteq> [] \<and> (\<exists>v. rq_Cookie r = Some v \<and> live_session mac key now v) \<and>
        (isUnsafeMethod (rq_Method r) \<longrightarrow> originMatchesHost hostname r)"
  proof cases
    case bearer
    then have "rq_Authorization r = ''Bearer '' @ token"
      by (intro Bearer_eq) (auto simp: extractBearerToken_def split: if_splits)
    then show ?thesis using bearer by auto
  next
    case cookie
    then show ?thesis using verify_sound by blast
  qed auto
next
  assume b: "token \<noteq> [] \<and> rq_Authorization r = ''Bearer '' @ token"
  then have "extractBearerToken r = token"
    using HasPrefix_append [of "''Bearer ''" token] unfolding extractBearerToken_def by metis
  then show "authMiddleware mac hostname token key now r = Pass" using b by (simp add: authMiddleware_def)
qed

lemma auth_gate_witness:
  "authMiddleware demo_mac (\<lambda>_. None) ''t'' ''key'' 0 ((demo_get [])\<lparr>rq_Authorization := ''Bearer t''\<rparr>) = Pass \<and>
    authMiddleware demo_mac (\<lambda>_. None) ''t'' ''key'' 0 ((demo_get [])\<lparr>rq_Authorization := ''Bearer u''\<rparr>) \<noteq> Pass"
proof -
  have "''t'' \<noteq> [] \<or> ''key'' \<noteq> []" by simp
  note g = auth_gate [OF this, of demo_mac "\<lambda>_. None" 0]
  show ?thesis
    using g [of "(demo_get [])\<lparr>rq_Authorization := ''Bearer t''\<rparr>"] g [of "(demo_get [])\<lparr>rq_Authorization := ''Bearer u''\<rparr>"]
    by (auto simp: demo_get_def live_session_def)
qed

section \<open>The throttle of the login page\<close>

text \<open>\<open>Handlers.GC\<close>, which the daemon runs every five minutes.\<close>

definition Handlers_GC :: "int \<Rightarrow> rate_limiter \<Rightarrow> rate_limiter" where
  "Handlers_GC now r = rl_gc d_hour now r"

text \<open>A run of the page: login requests and sweeps, with the client and the status of each answer.\<close>

datatype page_event = LoginAt int int login_request | SweepAt int

primrec happens :: "page_event \<Rightarrow> int" where
  "happens (LoginAt t t' req) = t"
| "happens (SweepAt t) = t"

fun logins :: "(string \<Rightarrow> string \<Rightarrow> string) \<Rightarrow> ui_config \<Rightarrow> page_event list \<Rightarrow> rate_limiter \<Rightarrow> (string \<times> int) list \<times> rate_limiter" where
  "logins mac cfg [] rl = ([], rl)"
| "logins mac cfg (SweepAt t # es) rl = logins mac cfg es (Handlers_GC t rl)"
| "logins mac cfg (LoginAt t t' req # es) rl = (case Login mac cfg t t' req rl of ((st, _), rl') \<Rightarrow>
     (case logins mac cfg es rl' of (sts, rl'') \<Rightarrow> ((lr_ip req, st) # sts, rl'')))"

definition failed_guesses :: "string \<Rightarrow> (string \<times> int) list \<Rightarrow> nat" where
  "failed_guesses ip sts = length (filter (\<lambda>(i, st). i = ip \<and> st \<in> {400, 401}) sts)"

text \<open>An hour refills every bucket: what a sweep forgets would be full again anyway.\<close>

definition rl_ok :: "rate_limiter \<Rightarrow> bool" where
  "rl_ok r \<longleftrightarrow> 0 \<le> rl_capacity r \<and> 0 \<le> rl_refill r \<and> 0 < rl_interval r \<and>
     rl_capacity r \<le> rl_refill r * of_int d_hour / of_int (rl_interval r) \<and>
     (\<forall>k b. rl_buckets r k = Some b \<longrightarrow> 0 \<le> bk_tokens b \<and> bk_tokens b \<le> rl_capacity r)"

text \<open>What a client can still spend from the instant \<open>c\<close> up to the instant \<open>E\<close>.\<close>

definition full_at :: "rate_limiter \<Rightarrow> int \<Rightarrow> int \<Rightarrow> rat" where
  "full_at r c E = rl_capacity r + rl_rate r * of_int (E - c)"

definition worth :: "rate_limiter \<Rightarrow> int \<Rightarrow> bucket \<Rightarrow> rat" where
  "worth r E b = bk_tokens b + rl_rate r * of_int (max 0 (E - bk_last b))"

definition budget :: "rate_limiter \<Rightarrow> int \<Rightarrow> int \<Rightarrow> string \<Rightarrow> rat" where
  "budget r c E k = (case rl_buckets r k of None \<Rightarrow> full_at r c E | Some b \<Rightarrow> min (worth r E b) (full_at r c E))"

lemma budget_frame [simp]: "rl_rate (r\<lparr>rl_buckets := m\<rparr>) = rl_rate r" "full_at (r\<lparr>rl_buckets := m\<rparr>) = full_at r"
  "worth (r\<lparr>rl_buckets := m\<rparr>) = worth r"
  by (simp_all add: full_at_def worth_def rl_rate_def fun_eq_iff)

lemma rate_nonneg: "rl_ok r \<Longrightarrow> 0 \<le> rl_rate r"
  by (auto simp: rl_ok_def rl_rate_def)

lemma full_later: "rl_ok r \<Longrightarrow> c \<le> c' \<Longrightarrow> full_at r c' E \<le> full_at r c E"
  using rate_nonneg [of r] by (auto simp: full_at_def intro!: mult_left_mono)

lemma budget_later: "rl_ok r \<Longrightarrow> c \<le> c' \<Longrightarrow> budget r c' E k \<le> budget r c E k"
  using full_later [of r c c' E] by (auto simp: budget_def min_def split: option.splits)

lemma topped_up_worth:
  assumes "rl_ok r" "0 \<le> bk_tokens b" "bk_tokens b \<le> rl_capacity r" "now \<le> E"
  shows "0 \<le> bk_tokens (topped_up r now b)" "bk_tokens (topped_up r now b) \<le> rl_capacity r"
    "worth r E (topped_up r now b) \<le> worth r E b" "worth r E (topped_up r now b) \<le> full_at r now E"
proof -
  note r0 = rate_nonneg [OF assms(1)]
  have c: "0 \<le> rl_capacity r" using assms(1) by (simp add: rl_ok_def)
  have m: "rl_rate r * of_int (max 0 (E - l)) \<le> rl_rate r * of_int (E - now)" if "now \<le> l" for l
    using r0 that assms(4) by (intro mult_left_mono) auto
  have "0 \<le> bk_tokens (topped_up r now b) \<and> bk_tokens (topped_up r now b) \<le> rl_capacity r \<and>
      worth r E (topped_up r now b) \<le> worth r E b \<and> worth r E (topped_up r now b) \<le> full_at r now E"
  proof (cases "bk_last b < now")
    case True
    define e where "e = t_Sub (utc now) (utc (bk_last b))"
    have e: "0 < e" "e \<le> now - bk_last b" using True by (auto simp: e_def t_Sub_def utc_def)
    have t: "topped_up r now b = \<lparr>bk_tokens = min (rl_capacity r) (bk_tokens b + of_int e * rl_rate r), bk_last = now\<rparr>"
      using e(1) by (simp add: topped_up_def e_def [symmetric])
    have "of_int e * rl_rate r \<le> of_int (now - bk_last b) * rl_rate r" using e r0 by (intro mult_right_mono) auto
    moreover have "0 \<le> of_int e * rl_rate r" using e r0 by simp
    moreover have "rl_rate r * of_int (E - bk_last b) = of_int (now - bk_last b) * rl_rate r + rl_rate r * of_int (E - now)"
      by (simp add: algebra_simps)
    ultimately show ?thesis
      using True assms c by (auto simp: t worth_def full_at_def)
  next
    case False
    then have t: "topped_up r now b = b" by (simp add: topped_up_def t_Sub_def utc_def Let_def max_def)
    show ?thesis
      using False assms m [of "bk_last b"] by (simp add: t worth_def full_at_def)
  qed
  then show "0 \<le> bk_tokens (topped_up r now b)" "bk_tokens (topped_up r now b) \<le> rl_capacity r"
    "worth r E (topped_up r now b) \<le> worth r E b" "worth r E (topped_up r now b) \<le> full_at r now E"
    by blast+
qed

lemma login_budget:
  assumes "rl_ok r" "c \<le> t" "t \<le> E" "Login mac cfg t t' req r = ((st, ck), r')"
  shows "rl_ok r' \<and> budget r' t E k + (if lr_ip req = k \<and> st \<in> {400, 401} then 1 else 0) \<le> budget r c E k"
proof -
  define b0 where "b0 = (case rl_buckets r (lr_ip req) of Some b \<Rightarrow> b | None \<Rightarrow> \<lparr>bk_tokens = rl_capacity r, bk_last = t\<rparr>)"
  define b where "b = topped_up r t b0"
  have b0: "0 \<le> bk_tokens b0" "bk_tokens b0 \<le> rl_capacity r"
    using assms(1) by (auto simp: b0_def rl_ok_def split: option.splits)
  note w = topped_up_worth [OF assms(1) b0 assms(3), folded b_def]
  have c: "consume (lr_ip req) t r = (if bk_tokens b < 1 then (False, r\<lparr>rl_buckets := (rl_buckets r)(lr_ip req \<mapsto> b)\<rparr>)
      else (True, r\<lparr>rl_buckets := (rl_buckets r)(lr_ip req \<mapsto> b\<lparr>bk_tokens := bk_tokens b - 1\<rparr>)\<rparr>))"
    by (simp add: consume_def b_def b0_def Let_def)
  define n where "n = (if st \<in> {400, 401} then bk_tokens b - 1 else bk_tokens b)"
  have r': "r' = r\<lparr>rl_buckets := (rl_buckets r)(lr_ip req \<mapsto> b\<lparr>bk_tokens := n\<rparr>)\<rparr>" and n: "0 \<le> n" "n \<le> rl_capacity r"
    using assms(4) w(1,2) unfolding Login_def c n_def
    by (auto simp: refund_def Let_def split: if_splits option.splits)
  have ok: "rl_ok r'" using assms(1) n by (auto simp: r' rl_ok_def)
  have e: "worth r E (b\<lparr>bk_tokens := n\<rparr>) + (if st \<in> {400, 401} then 1 else 0) = worth r E b"
    by (simp add: worth_def n_def)
  have g: "worth r E b \<le> budget r c E (lr_ip req)"
    using w(3,4) full_later [OF assms(1,2), of E] by (auto simp: budget_def b0_def split: option.splits)
  have "budget r' t E k + (if lr_ip req = k \<and> st \<in> {400, 401} then 1 else 0) \<le> budget r c E k"
  proof (cases "lr_ip req = k")
    case True
    then have "budget r' t E k \<le> worth r E (b\<lparr>bk_tokens := n\<rparr>)" by (simp add: budget_def r')
    then show ?thesis using e g True by (auto split: if_splits)
  next
    case False
    then have "budget r' t E k = budget r t E k" by (cases "rl_buckets r k") (simp_all add: budget_def r')
    then show ?thesis using False budget_later [OF assms(1,2), of E k] by simp
  qed
  then show ?thesis using ok by simp
qed

text \<open>A sweep forgets only buckets that are full again.\<close>

lemma sweep_budget:
  assumes "rl_ok r" "c \<le> t" "t \<le> E"
  shows "rl_ok (Handlers_GC t r) \<and> budget (Handlers_GC t r) t E k \<le> budget r c E k"
proof -
  have ok: "rl_ok (Handlers_GC t r)"
    using assms(1) by (auto simp: rl_ok_def Handlers_GC_def rl_gc_def split: option.splits if_splits)
  have "full_at r t E \<le> worth r E b" if b: "rl_buckets r k = Some b" "bk_last b < t - d_hour" for b
  proof -
    have cap: "rl_capacity r \<le> rl_rate r * of_int d_hour" and pos: "0 \<le> bk_tokens b"
      using assms(1) b(1) by (auto simp: rl_ok_def rl_rate_def)
    have "rl_rate r * of_int (E - t + d_hour) \<le> rl_rate r * of_int (max 0 (E - bk_last b))"
      using rate_nonneg [OF assms(1)] b(2) by (intro mult_left_mono) auto
    moreover have "rl_rate r * of_int (E - t + d_hour) = rl_rate r * of_int (E - t) + rl_rate r * of_int d_hour"
      by (simp add: algebra_simps)
    ultimately show ?thesis using cap pos unfolding full_at_def worth_def by linarith
  qed
  then have "budget (Handlers_GC t r) t E k \<le> budget r t E k"
    by (auto simp: budget_def Handlers_GC_def rl_gc_def split: option.splits)
  then show ?thesis using ok budget_later [OF assms(1,2), of E k] by simp
qed

lemma budget_nonneg: "rl_ok r \<Longrightarrow> c \<le> E \<Longrightarrow> 0 \<le> budget r c E k"
  using rate_nonneg [of r] by (auto simp: budget_def worth_def full_at_def rl_ok_def split: option.splits)

lemma logins_budget:
  "rl_ok r \<Longrightarrow> c \<le> E \<Longrightarrow> sorted (map happens es) \<Longrightarrow> \<forall>e\<in>set es. c \<le> happens e \<and> happens e \<le> E \<Longrightarrow>
    of_nat (failed_guesses k (fst (logins mac cfg es r))) \<le> budget r c E k"
proof (induction mac cfg es r arbitrary: c rule: logins.induct)
  case (1 mac cfg rl)
  then show ?case using budget_nonneg [of rl c E k] by (simp add: failed_guesses_def)
next
  case (2 mac cfg t es rl)
  have b: "rl_ok (Handlers_GC t rl)" "budget (Handlers_GC t rl) t E k \<le> budget rl c E k"
    using sweep_budget [OF "2.prems"(1), of c t E k] "2.prems" by auto
  have "of_nat (failed_guesses k (fst (logins mac cfg es (Handlers_GC t rl)))) \<le> budget (Handlers_GC t rl) t E k"
    using "2.prems" by (intro "2.IH" b) auto
  then show ?case using b(2) by simp
next
  case (3 mac cfg t t' req es rl)
  obtain st ck r' where l: "Login mac cfg t t' req rl = ((st, ck), r')" by (cases "Login mac cfg t t' req rl") auto
  have b: "rl_ok r'" "budget r' t E k + (if lr_ip req = k \<and> st \<in> {400, 401} then 1 else 0) \<le> budget rl c E k"
    using login_budget [OF "3.prems"(1) _ _ l, of c E k] "3.prems" by auto
  have h: "failed_guesses k (fst (logins mac cfg (LoginAt t t' req # es) rl)) =
      (if lr_ip req = k \<and> st \<in> {400, 401} then 1 else 0) + failed_guesses k (fst (logins mac cfg es r'))"
    by (simp add: l failed_guesses_def split: prod.splits)
  have "of_nat (failed_guesses k (fst (logins mac cfg es r'))) \<le> budget r' t E k"
    using "3.prems" l by (intro "3.IH" [OF l [symmetric] refl] b) auto
  then show ?case using b(2) h by (auto split: if_splits)
qed

text \<open>
  C17: passwords cannot be guessed faster than the token bucket refills.  Whatever requests arrive, in
  whatever mixture of clients, good and bad passwords and malformed bodies, and whenever the sweep of
  idle buckets runs in between, in every window of length \<open>T\<close> one client gets at most
  \<open>capacity + refill * T / interval\<close> answers that tell it a guess was wrong (401) or was not even a
  guess (400); every further attempt is a 429.  The clock does not go back, and an hour, after which
  the sweep forgets an idle bucket, is enough to refill one: as it is with the limits the daemon uses,
  five tokens and five a minute.
\<close>

theorem login_guesses_bounded:
  assumes "rl_ok rl" "0 \<le> T" "sorted (map happens es)" "\<forall>e\<in>set es. t0 \<le> happens e \<and> happens e \<le> t0 + T"
  shows "of_nat (failed_guesses ip (fst (logins mac cfg es rl))) \<le>
    rl_capacity rl + rl_refill rl * of_int T / of_int (rl_interval rl)"
proof -
  have "budget rl t0 (t0 + T) ip \<le> full_at rl t0 (t0 + T)" by (auto simp: budget_def split: option.splits)
  then show ?thesis using logins_budget [OF assms(1) _ assms(3,4), of ip mac cfg] assms(2) by (simp add: full_at_def rl_rate_def)
qed

definition guessing :: "page_event list" where
  "guessing = replicate 50 (LoginAt 7 7 (demo_login\<lparr>lr_password := Some ''guess''\<rparr>)) @ [SweepAt 8] @
     replicate 50 (LoginAt 9 9 (demo_login\<lparr>lr_password := Some ''guess''\<rparr>))"

lemma login_guesses_bounded_witness:
  "rl_ok (NewHandlers demo_ui) \<and>
   of_nat (failed_guesses ''10.0.0.1'' (fst (logins demo_mac demo_ui guessing (NewHandlers demo_ui)))) \<le> (10 :: rat)"
proof -
  have ok: "rl_ok (NewHandlers demo_ui)"
    by (simp add: rl_ok_def NewHandlers_def newRateLimiter_def demo_ui_def d_hour_def d_minute_def d_second_def)
  have s: "sorted (map happens guessing)"
    by (auto simp: guessing_def sorted_append sorted_replicate)
  have "of_nat (failed_guesses ''10.0.0.1'' (fst (logins demo_mac demo_ui guessing (NewHandlers demo_ui)))) \<le>
      rl_capacity (NewHandlers demo_ui) + rl_refill (NewHandlers demo_ui) * of_int d_minute / of_int (rl_interval (NewHandlers demo_ui))"
    by (rule login_guesses_bounded [where ?t0.0 = 0, OF ok _ s]) (auto simp: guessing_def d_minute_def d_second_def)
  then show ?thesis using ok by (simp add: NewHandlers_def newRateLimiter_def demo_ui_def d_minute_def d_second_def)
qed

end
