(* ===== verification/Paths.thy ===== *)
theory Paths imports GoText begin

text \<open>
  Lists of texts and paths: \<open>sort.Strings\<close>, \<open>strings.Join\<close>, and \<open>filepath.Clean\<close> of Unix paths,
  which is idempotent and turns the ancestors of a path into its prefixes.
\<close>

section \<open>Sorting and joining\<close>

definition sort_texts :: "string list \<Rightarrow> string list" where
  "sort_texts = order_by text_le"

lemma sort_texts_sorted: "sorted_wrt text_le (sort_texts xs)"
  unfolding sort_texts_def using text_le_linear text_le_trans by (rule sorted_order_by)

fun join :: "string \<Rightarrow> string list \<Rightarrow> string" where
  "join sep [] = []"
| "join sep [x] = x"
| "join sep (x # y # ys) = x @ sep @ join sep (y # ys)"

lemma split_join: "xs \<noteq> [] \<Longrightarrow> \<forall>x\<in>set xs. c \<notin> set x \<Longrightarrow> split_on c (join [c] xs) = xs"
  by (induction "[c]" xs rule: join.induct) (simp_all add: split_on_plain split_on_two)

lemma split_on_append: "split_on c (xs @ c # ys) = split_on c xs @ split_on c ys"
  by (induction xs) (auto split: list.splits)

lemma split_on_parts: "x \<in> set (split_on c xs) \<Longrightarrow> c \<notin> set x"
  by (induction xs arbitrary: x) (auto split: if_splits list.splits)

lemma HasPrefix_iff: "HasPrefix s p \<longleftrightarrow> (\<exists>t. s = p @ t)"
proof
  assume h: "HasPrefix s p"
  have "take (length p) s @ drop (length p) s = s" by (rule append_take_drop_id)
  moreover have "take (length p) s = p" using h by (simp add: HasPrefix_def)
  ultimately have "s = p @ drop (length p) s" by simp
  then show "\<exists>t. s = p @ t" ..
qed auto

section \<open>Cleaning a path\<close>

text \<open>
  One element of the path after the other, onto the cleaned elements in reverse order:
  \<open>.\<close> and empty elements go, \<open>..\<close> takes the last element off, unless there is none to take; at
  the root it then goes too.
\<close>

fun clean_step :: "bool \<Rightarrow> string list \<Rightarrow> string \<Rightarrow> string list" where
  "clean_step rooted out e =
     (if e = [] \<or> e = ''.'' then out
      else if e = ''..'' then
        (case out of [] \<Rightarrow> if rooted then [] else [e] | q # rest \<Rightarrow> if q = ''..'' then e # out else rest)
      else e # out)"

definition rooted :: "string \<Rightarrow> bool" where
  "rooted p = HasPrefix p ''/''"

definition elements :: "string \<Rightarrow> string list" where
  "elements p = rev (foldl (clean_step (rooted p)) [] (split_on (CHR ''/'') p))"

definition render :: "bool \<Rightarrow> string list \<Rightarrow> string" where
  "render r es = (if r then CHR ''/'' # join ''/'' es else if es = [] then ''.'' else join ''/'' es)"

definition Clean :: "string \<Rightarrow> string" where
  "Clean p = render (rooted p) (elements p)"

text \<open>What cleaned elements look like, in reverse: plain names over a block of \<open>..\<close>, which only a relative path has.\<close>

definition plain_element :: "string \<Rightarrow> bool" where
  "plain_element e \<longleftrightarrow> e \<noteq> [] \<and> e \<noteq> ''.'' \<and> CHR ''/'' \<notin> set e"

fun cleaned :: "bool \<Rightarrow> string list \<Rightarrow> bool" where
  "cleaned r [] = True"
| "cleaned r (e # es) = (plain_element e \<and> cleaned r es \<and>
     (e = ''..'' \<longrightarrow> \<not> r \<and> set es \<subseteq> {''..''}))"

lemma cleaned_plain: "cleaned r es \<Longrightarrow> e \<in> set es \<Longrightarrow> plain_element e"
  by (induction es) auto

lemma cleaned_append: "cleaned r (ys @ zs) \<Longrightarrow> cleaned r zs"
  by (induction ys) auto

lemma clean_step_cleaned: "cleaned r out \<Longrightarrow> CHR ''/'' \<notin> set e \<Longrightarrow> cleaned r (clean_step r out e)"
  by (cases out) (auto simp: plain_element_def)

lemma elements_cleaned: "cleaned (rooted p) (rev (elements p))"
proof -
  have "cleaned r (foldl (clean_step r) out es)" if "cleaned r out" "\<forall>e\<in>set es. CHR ''/'' \<notin> set e" for r out es
    using that
  proof (induction es arbitrary: out)
    case (Cons e es)
    then show ?case using clean_step_cleaned [of r out e] by (simp del: clean_step.simps)
  qed simp
  then show ?thesis using split_on_parts [of _ "CHR ''/''" p] by (simp add: elements_def)
qed

lemma clean_step_id: "cleaned r (e # out) \<Longrightarrow> clean_step r out e = e # out"
  by (cases out) (auto simp: plain_element_def)

lemma cleaned_fold: "cleaned r (rev es @ out) \<Longrightarrow> foldl (clean_step r) out es = rev es @ out"
proof (induction es arbitrary: out)
  case (Cons e es)
  have "cleaned r (rev es @ e # out)" using Cons.prems by simp
  then have "clean_step r out e = e # out" by (rule clean_step_id [OF cleaned_append])
  then show ?case using Cons by (simp del: clean_step.simps)
qed simp

lemma rooted_render: "cleaned r (rev es) \<Longrightarrow> rooted (render r es) = r"
proof -
  assume c: "cleaned r (rev es)"
  show ?thesis
  proof (cases es)
    case (Cons e es')
    then have "plain_element e" using c cleaned_plain [of r "rev es" e] by simp
    then obtain x xs where "e = x # xs" "x \<noteq> CHR ''/''" by (cases e) (auto simp: plain_element_def)
    then show ?thesis using Cons by (cases es') (simp_all add: render_def rooted_def HasPrefix_def)
  qed (simp add: render_def rooted_def HasPrefix_def)
qed

lemma split_render:
  assumes "cleaned r (rev es)" "es \<noteq> []"
  shows "split_on (CHR ''/'') (render r es) = (if r then [] # es else es)"
  using split_join [OF assms(2), of "CHR ''/''"] cleaned_plain [OF assms(1)] assms(2)
  by (auto simp: render_def plain_element_def)

lemma elements_render:
  assumes "cleaned r (rev es)"
  shows "elements (render r es) = es"
proof -
  have f: "foldl (clean_step r) [] es = rev es" using cleaned_fold [of r es "[]"] assms by simp
  show ?thesis
  proof (cases "es = []")
    case False
    then show ?thesis using f rooted_render [OF assms] split_render [OF assms False] by (cases r) (simp_all add: elements_def)
  qed (use rooted_render [OF assms] in \<open>cases r; simp add: elements_def render_def\<close>)
qed

lemma elements_Clean [simp]: "elements (Clean p) = elements p"
  unfolding Clean_def by (rule elements_render [OF elements_cleaned])

lemma rooted_Clean [simp]: "rooted (Clean p) = rooted p"
  unfolding Clean_def by (rule rooted_render [OF elements_cleaned])

lemma Clean_idem [simp]: "Clean (Clean p) = Clean p"
  unfolding Clean_def [of "Clean p"] rooted_Clean elements_Clean by (simp add: Clean_def)

lemma Clean_inj: "Clean p = Clean q \<longleftrightarrow> rooted p = rooted q \<and> elements p = elements q"
proof
  assume "Clean p = Clean q"
  then show "rooted p = rooted q \<and> elements p = elements q" by (metis elements_Clean rooted_Clean)
qed (simp add: Clean_def)

text \<open>An element more is a separator and its name more, except at the root and at the dot.\<close>

lemma render_append:
  assumes "es \<noteq> []" "fs \<noteq> []"
  shows "render r (es @ fs) = render r es @ ''/'' @ join ''/'' fs"
proof -
  have "join ''/'' (es @ fs) = join ''/'' es @ ''/'' @ join ''/'' fs"
    using assms by (induction "''/''" es rule: join.induct) (auto simp: neq_Nil_conv)
  then show ?thesis using assms by (simp add: render_def)
qed

lemma render_prefix:
  assumes "cleaned r (rev es)" "cleaned r (rev ds)" "ds \<noteq> []"
  shows "(render r es = render r ds \<or> HasPrefix (render r es) (render r ds @ ''/'')) \<longleftrightarrow> take (length ds) es = ds"
proof
  assume a: "take (length ds) es = ds"
  then obtain fs where es: "es = ds @ fs" by (metis append_take_drop_id)
  show "render r es = render r ds \<or> HasPrefix (render r es) (render r ds @ ''/'')"
  proof (cases "fs = []")
    case False
    then show ?thesis using es render_append [OF assms(3) False] by (simp add: HasPrefix_iff)
  qed (use es in simp)
next
  assume "render r es = render r ds \<or> HasPrefix (render r es) (render r ds @ ''/'')"
  then show "take (length ds) es = ds"
  proof
    assume "render r es = render r ds"
    then have "elements (render r es) = elements (render r ds)" by (rule arg_cong)
    then have "es = ds" unfolding elements_render [OF assms(1)] elements_render [OF assms(2)] .
    then show ?thesis by simp
  next
    assume "HasPrefix (render r es) (render r ds @ ''/'')"
    then have "\<exists>t. render r es = render r ds @ CHR ''/'' # t" unfolding HasPrefix_iff by simp
    then obtain t where t: "render r es = render r ds @ CHR ''/'' # t" ..
    have s: "split_on (CHR ''/'') (render r es) = (if r then [] # ds else ds) @ split_on (CHR ''/'') t"
      using split_render [OF assms(2,3)] by (simp add: t split_on_append)
    moreover have "es \<noteq> []"
    proof
      assume "es = []"
      then have "length (split_on (CHR ''/'') (render r es)) = (if r then 2 else 1)" by (simp add: render_def)
      then show False using s assms(3) by (cases ds; cases "split_on (CHR ''/'') t") (auto split: if_splits)
    qed
    moreover note split_render [OF assms(1) \<open>es \<noteq> []\<close>]
    ultimately have "es = ds @ split_on (CHR ''/'') t" by (auto split: if_splits)
    then show ?thesis by simp
  qed
qed

end
