(* ===== verification/Backends.thy ===== *)
theory Backends imports Complex_Main Catalog Ports Paths begin

text \<open>
  The provider registry (\<open>internal/provider/registry.go\<close>), which the services see as their
  provider: it looks up the backend a request or a reference names and passes the call on.  The
  map of providers is an association list in which \<open>Register\<close> replaces an entry.  At the end the
  registry, the image service and the Firecracker provider meet: what becomes of a promoted image.
\<close>

record registry =
  rg_providers :: "(string \<times> provider) list"
  rg_fallback :: string

definition NewRegistry :: registry where
  "NewRegistry = \<lparr>rg_providers = [], rg_fallback = []\<rparr>"

definition Register :: "string \<Rightarrow> provider \<Rightarrow> registry \<Rightarrow> registry" where
  "Register name p r = r\<lparr>rg_providers := AList.update name p (rg_providers r)\<rparr>"

definition Len :: "registry \<Rightarrow> nat" where
  "Len r = length (rg_providers r)"

definition Has :: "string \<Rightarrow> registry \<Rightarrow> bool" where
  "Has name r = (map_of (rg_providers r) name \<noteq> None)"

definition SetFallback :: "string \<Rightarrow> registry \<Rightarrow> registry" where
  "SetFallback name r = r\<lparr>rg_fallback := name\<rparr>"

definition Fallback :: "registry \<Rightarrow> string" where
  "Fallback r = rg_fallback r"

definition not_available :: "string \<Rightarrow> goerr" where
  "not_available b = Opaque (''provider '' @ b @ '' not available'')"

definition resolve :: "registry \<Rightarrow> string \<Rightarrow> provider res" where
  "resolve r backend = (let b = (if backend = [] then rg_fallback r else backend) in
     case map_of (rg_providers r) b of None \<Rightarrow> Inl (not_available b) | Some p \<Rightarrow> Inr p)"

text \<open>\<open>p, err := r.resolve(..); if err != nil { return err }; return p.Call(..)\<close>.\<close>

definition via :: "registry \<Rightarrow> string \<Rightarrow> (provider \<Rightarrow> 'a res) \<Rightarrow> 'a res" where
  "via r backend call = (case resolve r backend of Inl e \<Rightarrow> Inl e | Inr p \<Rightarrow> call p)"

definition rg_CreateSandbox where
  "rg_CreateSandbox r t req = via r (cr_Backend req) (\<lambda>p. pv_CreateSandbox p t req)"

definition rg_StartSandbox where
  "rg_StartSandbox r t ref = via r (ref_Backend ref) (\<lambda>p. pv_StartSandbox p t ref)"

definition rg_StopSandbox where
  "rg_StopSandbox r t ref force = via r (ref_Backend ref) (\<lambda>p. pv_StopSandbox p t ref force)"

definition rg_DestroySandbox where
  "rg_DestroySandbox r t ref = via r (ref_Backend ref) (\<lambda>p. pv_DestroySandbox p t ref)"

definition rg_GetSandboxState where
  "rg_GetSandboxState r t ref = via r (ref_Backend ref) (\<lambda>p. pv_GetSandboxState p t ref)"

definition rg_Exec where
  "rg_Exec r t ref cmd = via r (ref_Backend ref) (\<lambda>p. pv_Exec p t ref cmd)"

definition rg_CreateSnapshot where
  "rg_CreateSnapshot r t ref label mode = via r (ref_Backend ref) (\<lambda>p. pv_CreateSnapshot p t ref label mode)"

text \<open>The backend of the sandbox decides, whatever backend the snapshot is of.\<close>

definition rg_RestoreSnapshot where
  "rg_RestoreSnapshot r t sbx snap = via r (ref_Backend sbx) (\<lambda>p. pv_RestoreSnapshot p t sbx snap)"

definition rg_DeleteSnapshot where
  "rg_DeleteSnapshot r t snap = via r (ref_Backend snap) (\<lambda>p. pv_DeleteSnapshot p t snap)"

definition rg_CreateSandboxFromSnapshot where
  "rg_CreateSandboxFromSnapshot r t snap req = via r (ref_Backend snap) (\<lambda>p. pv_CreateSandboxFromSnapshot p t snap req)"

text \<open>A fork answers with the children made so far and the error; without a provider, with none.\<close>

definition rg_ForkSandbox where
  "rg_ForkSandbox r t parent n = (case resolve r (ref_Backend parent) of
     Inl e \<Rightarrow> ([], Some e) | Inr p \<Rightarrow> pv_ForkSandbox p t parent n)"

definition rg_UpdateResources where
  "rg_UpdateResources r t ref req = via r (ref_Backend ref) (\<lambda>p. pv_UpdateResources p t ref req)"

definition rg_PublishSnapshotAsImage where
  "rg_PublishSnapshotAsImage r t snap name version =
     via r (ref_Backend snap) (\<lambda>p. pv_PublishSnapshotAsImage p t snap name version)"

definition rg_DeleteImage where
  "rg_DeleteImage r t img = via r (ref_Backend img) (\<lambda>p. pv_DeleteImage p t img)"

definition rg_GetImageInfo where
  "rg_GetImageInfo r t img = via r (ref_Backend img) (\<lambda>p. pv_GetImageInfo p t img)"

definition rg_PublishPort where
  "rg_PublishPort r t ref port = via r (ref_Backend ref) (\<lambda>p. pv_PublishPort p t ref port)"

definition rg_UnpublishPort where
  "rg_UnpublishPort r t ref port = via r (ref_Backend ref) (\<lambda>p. pv_UnpublishPort p t ref port)"

text \<open>\<open>Health\<close> asks every provider in the order of the names.\<close>

definition rg_names :: "registry \<Rightarrow> string list" where
  "rg_names r = sort_texts (map fst (rg_providers r))"

definition rg_healths :: "registry \<Rightarrow> nat \<Rightarrow> health list" where
  "rg_healths r t = map (\<lambda>n. pv_Health (the (map_of (rg_providers r) n)) t) (rg_names r)"

definition rg_Health :: "registry \<Rightarrow> nat \<Rightarrow> health" where
  "rg_Health r t = \<lparr>hl_Backend = join '','' (rg_names r),
     hl_Healthy = list_ex hl_Healthy (rg_healths r t),
     hl_Error = join ''; '' (filter (\<lambda>e. e \<noteq> []) (map hl_Error (rg_healths r t)))\<rparr>"

text \<open>The registry as the provider of the services (\<open>var _ domain.Provider = (*Registry)(nil)\<close>).\<close>

definition registry_provider :: "registry \<Rightarrow> provider" where
  "registry_provider r = \<lparr>
     pv_CreateSandbox = rg_CreateSandbox r, pv_StartSandbox = rg_StartSandbox r, pv_StopSandbox = rg_StopSandbox r,
     pv_DestroySandbox = rg_DestroySandbox r, pv_GetSandboxState = rg_GetSandboxState r, pv_Exec = rg_Exec r,
     pv_CreateSnapshot = rg_CreateSnapshot r, pv_RestoreSnapshot = rg_RestoreSnapshot r,
     pv_DeleteSnapshot = rg_DeleteSnapshot r, pv_CreateSandboxFromSnapshot = rg_CreateSandboxFromSnapshot r,
     pv_PublishSnapshotAsImage = rg_PublishSnapshotAsImage r, pv_DeleteImage = rg_DeleteImage r,
     pv_GetImageInfo = rg_GetImageInfo r, pv_ForkSandbox = rg_ForkSandbox r,
     pv_UpdateResources = rg_UpdateResources r, pv_PublishPort = rg_PublishPort r,
     pv_UnpublishPort = rg_UnpublishPort r, pv_Health = rg_Health r\<rparr>"

lemmas rg_calls = rg_CreateSandbox_def rg_StartSandbox_def rg_StopSandbox_def rg_DestroySandbox_def
  rg_GetSandboxState_def rg_Exec_def rg_CreateSnapshot_def rg_RestoreSnapshot_def rg_DeleteSnapshot_def
  rg_CreateSandboxFromSnapshot_def rg_PublishSnapshotAsImage_def rg_DeleteImage_def rg_GetImageInfo_def
  rg_ForkSandbox_def rg_UpdateResources_def rg_PublishPort_def rg_UnpublishPort_def


section \<open>The mock provider\<close>

text \<open>\<open>u t i\<close> is the \<open>i\<close>-th UUID made by the call at \<open>t\<close>.\<close>

definition NewMock :: "(nat \<Rightarrow> int \<Rightarrow> string) \<Rightarrow> provider" where
  "NewMock u = (let made = (\<lambda>t prefix. Inr \<lparr>ref_Backend = ''mock'', ref_Ref = prefix @ take 8 (u t 0)\<rparr>) in \<lparr>
     pv_CreateSandbox = \<lambda>t _. made t ''mock-'',
     pv_StartSandbox = \<lambda>_ _. Inr (), pv_StopSandbox = \<lambda>_ _ _. Inr (), pv_DestroySandbox = \<lambda>_ _. Inr (),
     pv_GetSandboxState = \<lambda>_ _. Inr SandboxRunning, pv_Exec = \<lambda>_ _ _. Inr 0,
     pv_CreateSnapshot = \<lambda>t _ _ _. made t ''snap-'',
     pv_RestoreSnapshot = \<lambda>_ _ _. Inr (), pv_DeleteSnapshot = \<lambda>_ _. Inr (),
     pv_CreateSandboxFromSnapshot = \<lambda>t _ _. made t ''mock-'',
     pv_PublishSnapshotAsImage = \<lambda>t _ _ _. made t ''img-'',
     pv_DeleteImage = \<lambda>_ _. Inr (), pv_GetImageInfo = \<lambda>_ _. Inr ''amd64'',
     pv_ForkSandbox = \<lambda>t parent n. if n < 1 then ([], Some (Opaque ''mock fork: count must be >= 1''))
       else (map (\<lambda>i. \<lparr>ref_Backend = ref_Backend parent,
                         ref_Ref = ''mock-fork-'' @ take 8 (u t i) @ ''-'' @ itoa i\<rparr>) [0..n - 1], None),
     pv_UpdateResources = \<lambda>_ _ _. Inr (),
     pv_PublishPort = \<lambda>_ _ p. Inr \<lparr>ep_HostAddress = ''0.0.0.0'', ep_PublishedPort = 40000 + p\<rparr>,
     pv_UnpublishPort = \<lambda>_ _ _. Inr (),
     pv_Health = \<lambda>_. \<lparr>hl_Backend = ''mock'', hl_Healthy = True, hl_Error = []\<rparr>\<rparr>)"

section \<open>Wiring the backends (\<open>cmd/navarisd/main.go\<close>)\<close>

text \<open>A backend that is not configured is \<open>None\<close>; one whose constructor fails ends the daemon.\<close>

definition add_backend :: "string \<Rightarrow> provider res option \<Rightarrow> registry \<Rightarrow> registry res" where
  "add_backend name built r = (case built of
     None \<Rightarrow> Inr r | Some (Inl e) \<Rightarrow> Inl e | Some (Inr p) \<Rightarrow> Inr (Register name p r))"

definition mock_aliases :: "provider \<Rightarrow> registry \<Rightarrow> registry" where
  "mock_aliases mock r = (if Len r = 0
     then Register ''firecracker'' mock (Register ''incus'' mock (Register ''mock'' mock r)) else r)"

definition choose_default :: "registry \<Rightarrow> registry" where
  "choose_default r = (case find (\<lambda>n. Has n r) [''incus'', ''firecracker'', ''mock''] of
     None \<Rightarrow> r | Some n \<Rightarrow> SetFallback n r)"

definition wire_backends :: "provider res option \<Rightarrow> provider res option \<Rightarrow> bool \<Rightarrow> provider \<Rightarrow> registry res" where
  "wire_backends incus firecracker kvm mock =
     (case add_backend ''incus'' incus NewRegistry of Inl e \<Rightarrow> Inl e | Inr r1 \<Rightarrow>
      case add_backend ''firecracker'' (if kvm then firecracker else None) r1 of Inl e \<Rightarrow> Inl e | Inr r2 \<Rightarrow>
      Inr (choose_default (mock_aliases mock r2)))"

lemmas wiring = wire_backends_def add_backend_def mock_aliases_def choose_default_def NewRegistry_def Register_def
  Len_def Has_def SetFallback_def Fallback_def

lemma wired_names:
  "wire_backends i f k m = Inr r \<Longrightarrow> map_of (rg_providers r) n = Some p \<Longrightarrow> n \<in> {''incus'', ''firecracker'', ''mock''}"
  by (auto simp: wiring split: if_splits option.splits sum.splits)

text \<open>Whatever backends are configured, the daemon that starts has a default backend, so a
  request that names none is served; and with no backend configured every known name, and the
  empty one, is served by the mock.\<close>

theorem wired_default_serves:
  assumes "wire_backends incus firecracker kvm mock = Inr r"
  shows "(\<exists>p. resolve r [] = Inr p \<and> map_of (rg_providers r) (Fallback r) = Some p) \<and>
    (incus = None \<and> (firecracker = None \<or> \<not> kvm) \<longrightarrow>
      (\<forall>b\<in>{[], ''mock'', ''incus'', ''firecracker''}. resolve r b = Inr mock))"
  using assms by (auto simp: wiring resolve_def split: if_splits option.splits sum.splits)

lemma wired_default_serves_witness:
  "case wire_backends None (Some (Inr demo_provider)) False (NewMock (\<lambda>_ _. [])) of
     Inl _ \<Rightarrow> False | Inr r \<Rightarrow> resolve r ''incus'' = Inr (NewMock (\<lambda>_ _. []))"
proof -
  obtain r where r: "wire_backends None (Some (Inr demo_provider)) False (NewMock (\<lambda>_ _. [])) = Inr r"
    by (simp add: wire_backends_def add_backend_def)
  show ?thesis using wired_default_serves [OF r] r by simp
qed

text \<open>A reference to a backend that is not registered reaches no provider.\<close>

lemma unknown_backend:
  assumes "map_of (rg_providers r) b = None" "b \<noteq> []" "ref_Backend ref = b"
  shows "pv_StartSandbox (registry_provider r) t ref = Inl (not_available b)"
    and "pv_StopSandbox (registry_provider r) t ref force = Inl (not_available b)"
    and "pv_DestroySandbox (registry_provider r) t ref = Inl (not_available b)"
    and "pv_GetSandboxState (registry_provider r) t ref = Inl (not_available b)"
    and "pv_DeleteSnapshot (registry_provider r) t ref = Inl (not_available b)"
    and "pv_ForkSandbox (registry_provider r) t ref n = ([], Some (not_available b))"
    and "pv_DeleteImage (registry_provider r) t ref = Inl (not_available b)"
    and "pv_GetImageInfo (registry_provider r) t ref = Inl (not_available b)"
  using assms by (simp_all add: registry_provider_def rg_calls via_def resolve_def)

text \<open>The health of the registry: healthy when some provider is, whatever the order of registration.\<close>

lemma registry_healthy:
  "hl_Healthy (rg_Health r t) \<longleftrightarrow> (\<exists>n p. map_of (rg_providers r) n = Some p \<and> hl_Healthy (pv_Health p t))"
proof -
  have "set (rg_healths r t) = (\<lambda>n. pv_Health (the (map_of (rg_providers r) n)) t) ` dom (map_of (rg_providers r))"
    by (simp add: rg_healths_def rg_names_def sort_texts_def dom_map_of_conv_image_fst)
  then show ?thesis by (force simp: rg_Health_def list_ex_iff dom_def)
qed

section \<open>The Firecracker provider behind the registry\<close>

text \<open>
  The Firecracker operations as a \<open>provider\<close>: \<open>hs t\<close> is the host when the call at \<open>t\<close> begins.
  What the guest's commands answer and the health check are parameters.
\<close>

definition on_host :: "(nat \<Rightarrow> host) \<Rightarrow> nat \<Rightarrow> 'a fres H \<Rightarrow> 'a res" where
  "on_host hs t m = (case fst (run_state m (hs t)) of Inl e \<Rightarrow> Inl (goerr_of e) | Inr x \<Rightarrow> Inr x)"

definition fc_provider ::
    "(nat \<Rightarrow> host) \<Rightarrow> (nat \<Rightarrow> backend_ref \<Rightarrow> string list \<Rightarrow> int res) \<Rightarrow> string \<Rightarrow> (nat \<Rightarrow> health) \<Rightarrow> provider" where
  "fc_provider hs exec goarch hl = \<lparr>
     pv_CreateSandbox = \<lambda>t req. on_host hs t (fc_CreateSandbox req),
     pv_StartSandbox = \<lambda>t ref. on_host hs t (fc_StartSandbox (ref_Ref ref)),
     pv_StopSandbox = \<lambda>t ref force. on_host hs t (fc_StopSandbox (ref_Ref ref) force),
     pv_DestroySandbox = \<lambda>t ref. on_host hs t (fc_DestroySandbox (ref_Ref ref)),
     pv_GetSandboxState = \<lambda>t ref. on_host hs t (fc_GetSandboxState (ref_Ref ref)),
     pv_Exec = exec,
     pv_CreateSnapshot = \<lambda>t ref label mode. on_host hs t (fc_CreateSnapshot (ref_Ref ref) label mode),
     pv_RestoreSnapshot = \<lambda>t ref snap. on_host hs t (fc_RestoreSnapshot (ref_Ref ref) (ref_Ref snap)),
     pv_DeleteSnapshot = \<lambda>t snap. on_host hs t (fc_DeleteSnapshot (ref_Ref snap)),
     pv_CreateSandboxFromSnapshot = \<lambda>t snap req. on_host hs t (fc_CreateSandboxFromSnapshot (ref_Ref snap) req),
     pv_PublishSnapshotAsImage = \<lambda>t snap name version. on_host hs t (fc_PublishSnapshotAsImage (ref_Ref snap) name version),
     pv_DeleteImage = \<lambda>t img. on_host hs t (fc_DeleteImage (ref_Ref img)),
     pv_GetImageInfo = \<lambda>t img. map_sum id (\<lambda>_. goarch) (on_host hs t (fc_GetImageInfo (ref_Ref img))),
     pv_ForkSandbox = \<lambda>t ref n. map_prod id (map_option goerr_of) (fst (run_state (fc_ForkSandbox (ref_Ref ref) n) (hs t))),
     pv_UpdateResources = \<lambda>t ref req. on_host hs t (fc_UpdateResources (ref_Ref ref) req),
     pv_PublishPort = \<lambda>t ref p. on_host hs t (fc_PublishPort (ref_Ref ref) p),
     pv_UnpublishPort = \<lambda>t ref p. on_host hs t (fc_UnpublishPort (ref_Ref ref) p),
     pv_Health = hl\<rparr>"

abbreviation conf :: "fcconf \<Rightarrow> host \<Rightarrow> bool" where
  "conf c \<equiv> (\<lambda>h. h_conf h = c)"

lemma keeps_conf_os: "(\<And>h x h'. f h = Inr (x, h') \<Longrightarrow> h_conf h' = h_conf h) \<Longrightarrow> keeps (conf c) (os f)"
  by (auto simp: valid_def run_os split: option.splits sum.splits)

lemma keeps_conf [pres]:
  "keeps (conf c) (hio f)" "keeps (conf c) (cloneFile p q)" "keeps (conf c) (os_Remove p)"
  by (auto simp: valid_def runs cloneFile_def os_Remove_def intro!: keeps_conf_os split: option.splits if_splits)

text \<open>The reference of a promoted image names the storage backend that cloned the file.\<close>

lemma published_backend:
  assumes "run_state (fc_PublishSnapshotAsImage snap n v) h = (Inr ref, h')"
  shows "ref_Backend ref = fc_storageBackend (h_conf h)"
proof -
  let ?Q = "\<lambda>c r (_ :: host). case r of Inl _ \<Rightarrow> True | Inr ref \<Rightarrow> ref_Backend ref = fc_storageBackend c"
  have last: "valid (conf c) (do { b \<leftarrow> ask (fc_storageBackend \<circ> h_conf); ret (Inr \<lparr>ref_Backend = b, ref_Ref = img\<rparr>) }) (?Q c)" for c img
    by (simp add: valid_def runs)
  have seq: "valid (conf c) (bindE m f) (?Q c)" if "keeps (conf c) m" "\<And>x. valid (conf c) (f x) (?Q c)"
    for c and m :: "'b fres H" and f using that by (rule valid_bindE) simp
  have "valid (conf c) (fc_PublishSnapshotAsImage snap n v) (?Q c)" for c
    unfolding fc_PublishSnapshotAsImage_def Let_def
    by (simp add: valid_return) (intro impI valid_bind [OF keeps_conf(1)] seq last keeps_wrapE keeps_mem_or_undo keeps_ignore keeps_conf,
       auto intro!: keeps_conf_os simp: put_imageinfo_def split: if_splits)
  from validD [OF this refl assms] show ?thesis by simp
qed

text \<open>An image promoted from a Firecracker snapshot is ready but has lost its architecture:
  the reference the provider returns names the storage backend, which no registry of the daemon
  knows, so asking for the image's details fails, and the handler ignores that.\<close>

theorem promoted_image_loses_architecture:
  assumes "wire_backends i f k mock = Inr r" and "map_of (rg_providers r) ''firecracker'' = Some (fc_provider hs exec goarch hl)"
    and "\<forall>t. fc_storageBackend (h_conf (hs t)) \<in> {''copy'', ''reflink''}"
    and "env_provider (w_env w) = registry_provider r" and "no_db_failure w"
    and "image_Get (op_ResourceID p) (w_db w) = Some img" and "snapshot_Get (img_SourceSnapshotID img) (w_db w) = Some snap"
    and "snp_Backend snap = ''firecracker''" and "run_state (image_handlePromote p) w = (Inr (), w')"
  shows "\<exists>img'. image_Get (op_ResourceID p) (w_db w') = Some img' \<and> img_State img' = ImageReady \<and> img_Architecture img' = []"
proof -
  have stored: "ref_Backend ref \<in> {''copy'', ''reflink''}"
    if q: "pv_PublishSnapshotAsImage (registry_provider r) t (snp_ref snap) n v = Inr ref" for t n v ref
  proof -
    obtain h' where "run_state (fc_PublishSnapshotAsImage (ref_Ref (snp_ref snap)) n v) (hs t) = (Inr ref, h')"
      using q assms(2,8) by (auto simp: registry_provider_def rg_PublishSnapshotAsImage_def via_def resolve_def snp_ref_def
        fc_provider_def on_host_def split: sum.splits) (metis prod.collapse)
    then show ?thesis using published_backend assms(3) by metis
  qed
  have unknown: "\<exists>e. pv_GetImageInfo (registry_provider r) t ref = Inl e" if "ref_Backend ref \<in> {''copy'', ''reflink''}" for t ref
    using that wired_names [OF assms(1), of "ref_Backend ref"]
    by (auto simp: registry_provider_def rg_GetImageInfo_def via_def resolve_def Let_def split: option.splits)
  have key: "op_ResourceID p = img_ImageID img" using imgs.look_key [OF assms(6)] by simp
  let ?t = "Suc (Suc (w_tick w))"
  obtain ref where ref: "pv_PublishSnapshotAsImage (registry_provider r) ?t (snp_ref snap) (img_Name img) (img_Version img) = Inr ref"
    using assms(4-9) by (cases "pv_PublishSnapshotAsImage (registry_provider r) ?t (snp_ref snap) (img_Name img) (img_Version img)")
      (auto simp: image_handlePromote_def runs)
  obtain e where e: "pv_GetImageInfo (registry_provider r) (Suc ?t) ref = Inl e" using unknown [OF stored [OF ref]] by blast
  have "image_Update (img\<lparr>img_BackendRef := ref_Ref ref, img_Architecture := [], img_State := ImageReady\<rparr>) (w_db w) = Inr (w_db w')"
    using assms(4-9) ref e by (auto simp: image_handlePromote_def runs split: sum.splits)
  from imgs.put_read [OF this, of img] show ?thesis using assms(6) by (simp add: key merged_image_def)
qed

text \<open>A snapshot \<open>s\<close> on a host without faults, and an image of it that waits for its promotion.\<close>

definition demo_fc :: provider where
  "demo_fc = fc_provider (\<lambda>_. (demo_host (\<lambda>_. None))\<lparr>h_blobs := [InDir (SnapDir ''s'') Rootfs \<mapsto> ''disk'']\<rparr>)
     (\<lambda>_ _ _. Inr 0) ''amd64'' (\<lambda>_. \<lparr>hl_Backend = ''firecracker'', hl_Healthy = True, hl_Error = []\<rparr>)"

definition demo_promotion :: database where
  "demo_promotion = empty_db\<lparr>
     db_snapshots := [\<lparr>snp_SnapshotID = ''s1'', snp_SandboxID = ''a'', snp_Backend = ''firecracker'', snp_BackendRef = ''s'',
       snp_Label = [], snp_State = SnapshotReady, snp_CreatedAt = utc 0, snp_UpdatedAt = utc 0, snp_ParentImageID = [],
       snp_Publishable = True, snp_ConsistencyMode = ConsistencyStopped, snp_Metadata = None\<rparr>],
     db_images := [\<lparr>img_ImageID = ''i'', img_ProjectScope = [], img_Name = ''n'', img_Version = ''v'',
       img_SourceType = SourceSnapshotPromoted, img_SourceSnapshotID = ''s1'', img_Backend = ''firecracker'', img_BackendRef = [],
       img_Architecture = ''amd64'', img_State = ImagePending, img_CreatedAt = utc 0, img_Metadata = None\<rparr>]\<rparr>"

definition demo_promote :: operation where
  "demo_promote = \<lparr>op_OperationID = ''o'', op_ResourceType = ''image'', op_ResourceID = ''i'', op_SandboxID = [],
     op_SnapshotID = ''s1'', op_Type = ''promote_snapshot'', op_State = OpRunning, op_StartedAt = utc 0,
     op_FinishedAt = None, op_Error = None, op_Metadata = None\<rparr>"

lemma promoted_image_loses_architecture_witness:
  "\<exists>r img'. wire_backends None (Some (Inr demo_fc)) True demo_provider = Inr r \<and>
     image_Get ''i'' (w_db (snd (run_state (image_handlePromote demo_promote)
       ((demo_world demo_promotion)\<lparr>w_env := demo_env\<lparr>env_provider := registry_provider r\<rparr>\<rparr>)))) = Some img' \<and>
     img_State img' = ImageReady \<and> img_Architecture img' = []"
proof -
  obtain r where r: "wire_backends None (Some (Inr demo_fc)) True demo_provider = Inr r"
    by (simp add: wire_backends_def add_backend_def)
  then have m: "map_of (rg_providers r) ''firecracker'' = Some demo_fc" by (auto simp: wiring)
  define w where "w = (demo_world demo_promotion)\<lparr>w_env := demo_env\<lparr>env_provider := registry_provider r\<rparr>\<rparr>"
  have v: "validateRef ''s''" by code_simp
  obtain img where img: "image_Get ''i'' (w_db w) = Some img" "img_SourceSnapshotID img = ''s1''" "img_ImageID img = ''i''"
      "img_Name img = ''n''" "img_Version img = ''v''"
    by (simp add: w_def demo_promotion_def image_Get_def row_find_def)
  obtain snap where snap: "snapshot_Get ''s1'' (w_db w) = Some snap" "snp_Backend snap = ''firecracker''" "snp_BackendRef snap = ''s''"
    by (simp add: w_def demo_promotion_def snapshot_Get_def row_find_def)
  have pub: "\<exists>ref. pv_PublishSnapshotAsImage (registry_provider r) t (snp_ref snap) n ver = Inr ref" for t n ver
    using m snap v by (simp add: registry_provider_def rg_PublishSnapshotAsImage_def via_def resolve_def snp_ref_def demo_fc_def
      fc_provider_def on_host_def fc_PublishSnapshotAsImage_def runs Let_def demo_host_def demo_henv_def cloneFile_def)
  have upd: "\<exists>d. image_Update (img\<lparr>img_BackendRef := b, img_Architecture := a, img_State := st\<rparr>) (w_db w) = Inr d" for b a st
    using img by (simp add: w_def demo_promotion_def image_Update_def image_Get_def row_find_def row_defs row_update_def)
  have nf: "no_db_failure w" by (simp add: w_def no_db_failure_def demo_env_def)
  have env: "env_provider (w_env w) = registry_provider r" by (simp add: w_def)
  obtain ref where ref: "pv_PublishSnapshotAsImage (registry_provider r) (Suc (Suc (w_tick w))) (snp_ref snap) ''n'' ''v'' = Inr ref"
    using pub by blast
  obtain d where d: "image_Update (img\<lparr>img_BackendRef := ref_Ref ref,
      img_Architecture := (case pv_GetImageInfo (registry_provider r) (Suc (Suc (Suc (w_tick w)))) ref of Inl e \<Rightarrow> [] | Inr a \<Rightarrow> a),
      img_State := ImageReady\<rparr>) (w_db w) = Inr d" using upd by blast
  obtain w' where run: "run_state (image_handlePromote demo_promote) w = (Inr (), w')"
    using img snap ref d nf env by (simp add: image_handlePromote_def runs demo_promote_def)
  from promoted_image_loses_architecture [OF r m [unfolded demo_fc_def] _ env nf _ _ snap(2) run] img snap(1)
  obtain img' where "image_Get ''i'' (w_db w') = Some img'" "img_State img' = ImageReady" "img_Architecture img' = []"
    by (auto simp: demo_promote_def demo_host_def demo_conf_def)
  then show ?thesis using r run by (auto simp: w_def)
qed

end
