(* ===== verification/Storage.thy ===== *)
theory Storage imports Paths "HOL-Library.AList" begin

text \<open>
  The storage package (\<open>internal/storage\<close>): backends that clone a file through a temporary file
  and a rename, the probe for reflinks, and the registry that chooses a backend by the longest
  registered prefix of the destination.  The disk maps paths to contents; every system call
  consumes a tick and fails when the environment says so.  The contract of \<open>Backend\<close> is the locale
  \<open>clone_backend\<close>, interpreted for the backends and for the registry with its fallback.
\<close>

section \<open>The disk\<close>

datatype errno = EOPNOTSUPP | EXDEV | ENOTTY | EINVAL | OtherErrno nat

text \<open>\<open>Wrap\<close> is \<open>fmt.Errorf\<close> with \<open>%w\<close>, \<open>Both\<close> is \<open>errors.Join\<close>.\<close>

datatype serr = ErrUnsupported | Enoent | Errno errno | Sys string | Wrap serr | Both serr serr

fun is_unsupported :: "serr \<Rightarrow> bool" where  \<comment> \<open>\<open>errors.Is(err, ErrUnsupported)\<close>\<close>
  "is_unsupported ErrUnsupported = True"
| "is_unsupported (Wrap e) = is_unsupported e"
| "is_unsupported (Both e e') = (is_unsupported e \<or> is_unsupported e')"
| "is_unsupported _ = False"

record diskenv =
  de_fail :: "nat \<Rightarrow> string option"    \<comment> \<open>the system call at this tick fails\<close>
  de_ficlone :: "nat \<Rightarrow> errno option"  \<comment> \<open>the \<open>FICLONE\<close> at this tick fails\<close>
  de_short :: "nat \<Rightarrow> nat"             \<comment> \<open>how many bytes a failing copy has written\<close>
  de_temp :: "nat \<Rightarrow> string"           \<comment> \<open>the random part of a \<open>CreateTemp\<close> name\<close>

record disk =
  dk_env :: diskenv
  dk_tick :: nat
  dk_files :: "string \<Rightarrow> string option"
  dk_dirs :: "string set"

type_synonym 'a dres = "serr + 'a"
type_synonym 'a D = "(disk, 'a) state"

abbreviation dticked :: "disk \<Rightarrow> disk" where
  "dticked d \<equiv> d\<lparr>dk_tick := Suc (dk_tick d)\<rparr>"

definition sys :: "(disk \<Rightarrow> serr + 'a \<times> disk) \<Rightarrow> 'a dres D" where
  "sys f = State (\<lambda>d. case de_fail (dk_env d) (dk_tick d) of
     Some m \<Rightarrow> (Inl (Sys m), dticked d)
   | None \<Rightarrow> (case f (dticked d) of Inl e \<Rightarrow> (Inl e, dticked d) | Inr (x, d') \<Rightarrow> (Inr x, d')))"

definition wrapS :: "'a dres D \<Rightarrow> 'a dres D" where
  "wrapS m = do { r \<leftarrow> m; ret (case r of Inl e \<Rightarrow> Inl (Wrap e) | Inr x \<Rightarrow> Inr x) }"

definition put_file :: "string \<Rightarrow> string option \<Rightarrow> disk \<Rightarrow> disk" where
  "put_file p c d = d\<lparr>dk_files := (dk_files d)(p := c)\<rparr>"

definition open_file :: "string \<Rightarrow> string dres D" where  \<comment> \<open>the contents behind the descriptor\<close>
  "open_file p = sys (\<lambda>d. case dk_files d p of None \<Rightarrow> Inl Enoent | Some c \<Rightarrow> Inr (c, d))"

definition create_excl :: "string \<Rightarrow> unit dres D" where  \<comment> \<open>\<open>O_CREATE|O_EXCL\<close>\<close>
  "create_excl p = sys (\<lambda>d. if dk_files d p \<noteq> None then Inl (Sys ''EEXIST'') else Inr ((), put_file p (Some []) d))"

definition remove_file :: "string \<Rightarrow> unit dres D" where
  "remove_file p = sys (\<lambda>d. if dk_files d p = None then Inl Enoent else Inr ((), put_file p None d))"

definition rename_file :: "string \<Rightarrow> string \<Rightarrow> unit dres D" where
  "rename_file p q = sys (\<lambda>d. case dk_files d p of None \<Rightarrow> Inl Enoent
     | Some c \<Rightarrow> Inr ((), put_file q (Some c) (put_file p None d)))"

text \<open>\<open>io.Copy\<close> into the open file \<open>p\<close>: a failing one has written some of the bytes.\<close>

definition copy_into :: "string \<Rightarrow> string \<Rightarrow> unit dres D" where
  "copy_into p c = State (\<lambda>d. case de_fail (dk_env d) (dk_tick d) of
     Some m \<Rightarrow> (Inl (Sys m), put_file p (Some (take (de_short (dk_env d) (dk_tick d)) c)) (dticked d))
   | None \<Rightarrow> (Inr (), put_file p (Some c) (dticked d)))"

definition ficlone_into :: "string \<Rightarrow> string \<Rightarrow> unit dres D" where
  "ficlone_into p c = State (\<lambda>d. case de_ficlone (dk_env d) (dk_tick d) of
     Some e \<Rightarrow> (Inl (Errno e), dticked d) | None \<Rightarrow> (Inr (), put_file p (Some c) (dticked d)))"

section \<open>The backends\<close>

definition tmp_of :: "string \<Rightarrow> string" where
  "tmp_of dst = dst @ ''.tmp''"

text \<open>\<open>ctx.Err()\<close>, the open source, and a fresh \<open>dst.tmp\<close> in place of a stale one.\<close>

definition prepare_tmp :: "string \<Rightarrow> string \<Rightarrow> string dres D" where
  "prepare_tmp src dst = bindE (sys (\<lambda>d. Inr ((), d))) (\<lambda>_. bindE (wrapS (open_file src)) (\<lambda>c. do {
     r \<leftarrow> remove_file (tmp_of dst);
     case r of
       Inl e \<Rightarrow> if e \<noteq> Enoent then ret (Inl (Wrap e))
                else bindE (wrapS (create_excl (tmp_of dst))) (\<lambda>_. ret (Inr c))
     | Inr _ \<Rightarrow> bindE (wrapS (create_excl (tmp_of dst))) (\<lambda>_. ret (Inr c)) }))"

text \<open>\<open>Close\<close> and \<open>Rename\<close>; when one fails the temporary file is removed, if that succeeds.\<close>

definition or_remove :: "'a dres D \<Rightarrow> string \<Rightarrow> 'a dres D" where
  "or_remove m p = do { r \<leftarrow> m; case r of Inl e \<Rightarrow> do { ignore (remove_file p); ret (Inl (Wrap e)) } | Inr x \<Rightarrow> ret (Inr x) }"

definition commit_tmp :: "string \<Rightarrow> unit dres D" where
  "commit_tmp dst = bindE (or_remove (sys (\<lambda>d. Inr ((), d))) (tmp_of dst)) (\<lambda>_.
     or_remove (rename_file (tmp_of dst) dst) (tmp_of dst))"

definition copy_bytes :: "string \<Rightarrow> string \<Rightarrow> unit dres D" where
  "copy_bytes dst c = do {
     r \<leftarrow> copy_into (tmp_of dst) c;
     case r of
       Inl e \<Rightarrow> do { ignore (sys (\<lambda>d. Inr ((), d))); ignore (remove_file (tmp_of dst)); ret (Inl (Wrap e)) }
     | Inr _ \<Rightarrow> ret (Inr ()) }"

definition copy_CloneFile :: "string \<Rightarrow> string \<Rightarrow> unit dres D" where
  "copy_CloneFile src dst = bindE (prepare_tmp src dst) (\<lambda>c. bindE (copy_bytes dst c) (\<lambda>_. commit_tmp dst))"

fun isReflinkUnsupported :: "serr \<Rightarrow> bool" where
  "isReflinkUnsupported (Errno e) = (e \<in> {EOPNOTSUPP, EXDEV, ENOTTY, EINVAL})"
| "isReflinkUnsupported (Wrap e) = isReflinkUnsupported e"
| "isReflinkUnsupported (Both e e') = (isReflinkUnsupported e \<or> isReflinkUnsupported e')"
| "isReflinkUnsupported _ = False"

definition reflink_bytes :: "string \<Rightarrow> string \<Rightarrow> unit dres D" where
  "reflink_bytes dst c = do {
     r \<leftarrow> ficlone_into (tmp_of dst) c;
     case r of
       Inl e \<Rightarrow> do {
         ignore (sys (\<lambda>d. Inr ((), d)));
         ignore (remove_file (tmp_of dst));
         ret (Inl (if isReflinkUnsupported e then Both ErrUnsupported (Wrap e) else Wrap e)) }
     | Inr _ \<Rightarrow> ret (Inr ()) }"

definition reflink_CloneFile :: "string \<Rightarrow> string \<Rightarrow> unit dres D" where
  "reflink_CloneFile src dst = bindE (prepare_tmp src dst) (\<lambda>c. bindE (reflink_bytes dst c) (\<lambda>_. commit_tmp dst))"

definition stub_CloneFile :: "string \<Rightarrow> string \<Rightarrow> unit dres D" where
  "stub_CloneFile src dst = ret (Inl (Both ErrUnsupported (Sys ''not wired in v1'')))"

datatype backend = CopyBackend | ReflinkBackend | BtrfsSubvolBackend | ZfsBackend

fun backend_Name :: "backend \<Rightarrow> string" where
  "backend_Name CopyBackend = ''copy''"
| "backend_Name ReflinkBackend = ''reflink''"
| "backend_Name BtrfsSubvolBackend = ''btrfs-subvol''"
| "backend_Name ZfsBackend = ''zfs''"

fun backend_CloneFile :: "backend \<Rightarrow> string \<Rightarrow> string \<Rightarrow> unit dres D" where
  "backend_CloneFile CopyBackend = copy_CloneFile"
| "backend_CloneFile ReflinkBackend = reflink_CloneFile"
| "backend_CloneFile BtrfsSubvolBackend = stub_CloneFile"
| "backend_CloneFile ZfsBackend = stub_CloneFile"

section \<open>The probe\<close>

definition path_join :: "string \<Rightarrow> string \<Rightarrow> string" where
  "path_join root name = Clean (root @ ''/'' @ name)"

text \<open>A failed write closes the file and drops the error of that.\<close>

definition probe_write :: "string \<Rightarrow> unit dres D" where
  "probe_write p = do {
     r \<leftarrow> sys (\<lambda>d. Inr ((), put_file p (Some [CHR 0x00]) d));
     case r of Inl e \<Rightarrow> do { ignore (sys (\<lambda>d. Inr ((), d))); ret (Inl (Wrap e)) } | Inr _ \<Rightarrow> ret (Inr ()) }"

text \<open>The deferred removals run in reverse order and drop their errors.\<close>

definition probe_at :: "string \<Rightarrow> string \<Rightarrow> unit dres D" where
  "probe_at srcPath dstPath = bindE (wrapS (create_excl srcPath)) (\<lambda>_. do {
     r \<leftarrow> bindE (probe_write srcPath) (\<lambda>_. bindE (wrapS (sys (\<lambda>d. Inr ((), d)))) (\<lambda>_. do {
            c \<leftarrow> reflink_CloneFile srcPath dstPath;
            ignore (remove_file dstPath);
            ret (case c of Inl e \<Rightarrow> Inl (if is_unsupported e then ErrUnsupported else e) | Inr _ \<Rightarrow> Inr ()) }));
     ignore (remove_file srcPath);
     ret r })"

definition probe_name :: "disk \<Rightarrow> string" where
  "probe_name d = ''navaris-storage-'' @ de_temp (dk_env d) (dk_tick d) @ ''.probe''"

definition probeReflink :: "string \<Rightarrow> unit dres D" where
  "probeReflink root = do {
     name \<leftarrow> State (\<lambda>d. (probe_name d, d));
     probe_at (path_join root name) (path_join root (name @ ''.probe-clone'')) }"

definition Detect :: "string \<Rightarrow> backend dres D" where
  "Detect root = bindE (wrapS (sys (\<lambda>d. if root \<in> dk_dirs d then Inr (True, d)
       else if dk_files d root \<noteq> None then Inr (False, d) else Inl Enoent))) (\<lambda>isdir.
     if \<not> isdir then ret (Inl (Sys ''not a directory''))
     else do { r \<leftarrow> probeReflink root; ret (Inr (case r of Inl _ \<Rightarrow> CopyBackend | Inr _ \<Rightarrow> ReflinkBackend)) })"

section \<open>The contract of a backend\<close>

text \<open>What a fact about the disk needs not look at: the clock.\<close>

definition same_but :: "string set \<Rightarrow> disk \<Rightarrow> disk \<Rightarrow> bool" where
  "same_but ps d d' \<longleftrightarrow> dk_env d' = dk_env d \<and> dk_dirs d' = dk_dirs d \<and> (\<forall>p. p \<notin> ps \<longrightarrow> dk_files d' p = dk_files d p)"

lemma same_but_refl [simp]: "same_but ps d d"
  by (simp add: same_but_def)

lemma same_but_trans: "same_but ps d d' \<Longrightarrow> same_but ps d' d'' \<Longrightarrow> same_but ps d d''"
  by (simp add: same_but_def)

lemma same_but_mono: "same_but ps d d' \<Longrightarrow> ps \<subseteq> qs \<Longrightarrow> same_but qs d d'"
  by (auto simp: same_but_def)

lemma same_but_put [simp]: "same_but {p} d (put_file p c (dticked d))" "same_but ps d (dticked d)"
  by (simp_all add: same_but_def put_file_def)

lemma tmp_of_neq [simp]: "tmp_of dst \<noteq> dst" "dst \<noteq> tmp_of dst"
  by (simp_all add: tmp_of_def)

text \<open>
  A clone that succeeds has put the contents of the source at the destination and left no
  temporary file; one that fails has changed at most the temporary file.  The source must not
  be that temporary file itself, which every backend removes first.
\<close>

locale clone_backend =
  fixes clone :: "string \<Rightarrow> string \<Rightarrow> (disk, serr + 'b) state"
  assumes clone_done: "run_state (clone src dst) d = (Inr b, d') \<Longrightarrow> src \<noteq> tmp_of dst \<Longrightarrow>
      \<exists>c. dk_files d src = Some c \<and> dk_files d' = (dk_files d)(tmp_of dst := None, dst \<mapsto> c)"
    and clone_failed: "run_state (clone src dst) d = (Inl e, d') \<Longrightarrow> same_but {tmp_of dst} d d'"
    and clone_frame: "run_state (clone src dst) d = (r, d') \<Longrightarrow> same_but {tmp_of dst, dst} d d'"
begin

lemma clone_contents: "run_state (clone src dst) d = (Inr b, d') \<Longrightarrow> src \<noteq> tmp_of dst \<Longrightarrow> dk_files d' dst = dk_files d src"
  using clone_done by fastforce

lemma clone_source: "run_state (clone src dst) d = (r, d') \<Longrightarrow> src \<noteq> dst \<Longrightarrow> src \<noteq> tmp_of dst \<Longrightarrow> dk_files d' src = dk_files d src"
  using clone_frame by (fastforce simp: same_but_def)

lemma clone_destination: "run_state (clone src dst) d = (Inl e, d') \<Longrightarrow> dk_files d' dst = dk_files d dst"
  using clone_failed by (fastforce simp: same_but_def)

end

lemma run_sys [runs]: "run_state (sys f) d = (case de_fail (dk_env d) (dk_tick d) of
     Some m \<Rightarrow> (Inl (Sys m), dticked d)
   | None \<Rightarrow> (case f (dticked d) of Inl e \<Rightarrow> (Inl e, dticked d) | Inr (x, d') \<Rightarrow> (Inr x, d')))"
  by (simp add: sys_def)

lemma run_wrapS [runs]: "run_state (wrapS m) d =
    (case run_state m d of (Inl e, d') \<Rightarrow> (Inl (Wrap e), d') | (Inr x, d') \<Rightarrow> (Inr x, d'))"
  by (simp add: wrapS_def split: prod.splits sum.splits)

lemma run_or_remove [runs]: "run_state (or_remove m p) d =
    (case run_state m d of (Inl e, d') \<Rightarrow> (Inl (Wrap e), snd (run_state (remove_file p) d')) | (Inr x, d') \<Rightarrow> (Inr x, d'))"
  by (simp add: or_remove_def runs split: prod.splits sum.splits)

lemma remove_frame: "same_but {p} d (snd (run_state (remove_file p) d))"
  by (simp add: remove_file_def runs same_but_def put_file_def split: option.splits)

lemma sys_frame: "same_but ps d (snd (run_state (sys (\<lambda>d. Inr ((), d))) d))"
  by (simp add: runs same_but_def split: option.splits)

text \<open>The three steps of a clone.\<close>

lemma prepare_cases:
  assumes "run_state (prepare_tmp src dst) d = (r, d')"
  shows "same_but {tmp_of dst} d d' \<and> (\<forall>c. r = Inr c \<longrightarrow> dk_files d src = Some c \<and> dk_files d' (tmp_of dst) = Some [])"
  using assms
  by (auto simp: prepare_tmp_def runs open_file_def remove_file_def create_excl_def put_file_def same_but_def
      split: option.splits sum.splits if_splits)

lemma commit_cases:
  assumes "run_state (commit_tmp dst) d = (r, d')"
  shows "(\<forall>e. r = Inl e \<longrightarrow> same_but {tmp_of dst} d d') \<and>
    (r = Inr () \<longrightarrow> same_but {tmp_of dst, dst} d d' \<and>
      (\<exists>c. dk_files d (tmp_of dst) = Some c \<and> dk_files d' = (dk_files d)(tmp_of dst := None, dst \<mapsto> c)))"
  using assms
  by (auto simp: commit_tmp_def runs rename_file_def remove_file_def put_file_def same_but_def
      split: option.splits sum.splits if_splits)

lemma copy_bytes_cases:
  "run_state (copy_bytes dst c) d = (r, d') \<Longrightarrow> same_but {tmp_of dst} d d' \<and> (r = Inr () \<longrightarrow> dk_files d' (tmp_of dst) = Some c)"
  by (auto simp: copy_bytes_def copy_into_def runs remove_file_def put_file_def same_but_def split: option.splits)

lemma reflink_bytes_cases:
  "run_state (reflink_bytes dst c) d = (r, d') \<Longrightarrow> same_but {tmp_of dst} d d' \<and> (r = Inr () \<longrightarrow> dk_files d' (tmp_of dst) = Some c)"
  by (auto simp: reflink_bytes_def ficlone_into_def runs remove_file_def put_file_def same_but_def split: option.splits if_splits)

lemma clone_via_tmp:
  assumes fill: "\<And>dst c d r d'. run_state (fill dst c) d = (r, d') \<Longrightarrow>
      same_but {tmp_of dst} d d' \<and> (r = Inr () \<longrightarrow> dk_files d' (tmp_of dst) = Some c)"
  shows "clone_backend (\<lambda>src dst. bindE (prepare_tmp src dst) (\<lambda>c. bindE (fill dst c) (\<lambda>_. commit_tmp dst)))"
proof
  fix src dst d and e :: serr and d'
  assume run: "run_state (bindE (prepare_tmp src dst) (\<lambda>c. bindE (fill dst c) (\<lambda>_. commit_tmp dst))) d = (Inl e, d')"
  then show "same_but {tmp_of dst} d d'"
    by (auto simp: run_bindE split: prod.splits sum.splits dest!: prepare_cases fill commit_cases intro: same_but_trans)
next
  fix src dst d and b :: unit and d'
  assume run: "run_state (bindE (prepare_tmp src dst) (\<lambda>c. bindE (fill dst c) (\<lambda>_. commit_tmp dst))) d = (Inr b, d')"
  then obtain c d1 d2 where p: "run_state (prepare_tmp src dst) d = (Inr c, d1)" and f: "run_state (fill dst c) d1 = (Inr (), d2)"
    and t: "run_state (commit_tmp dst) d2 = (Inr (), d')"
    by (auto simp: run_bindE split: prod.splits sum.splits)
  have s: "same_but {tmp_of dst} d d2" "dk_files d2 (tmp_of dst) = Some c" "dk_files d src = Some c"
    using prepare_cases [OF p] fill [OF f] same_but_trans by auto
  have "dk_files d' = (dk_files d2)(tmp_of dst := None, dst \<mapsto> c)" using commit_cases [OF t] s(2) by auto
  also have "\<dots> = (dk_files d)(tmp_of dst := None, dst \<mapsto> c)" using s(1) by (auto simp: same_but_def fun_eq_iff)
  finally show "\<exists>c. dk_files d src = Some c \<and> dk_files d' = (dk_files d)(tmp_of dst := None, dst \<mapsto> c)" using s(3) by blast
next
  fix src dst d and r :: "unit dres" and d'
  assume run: "run_state (bindE (prepare_tmp src dst) (\<lambda>c. bindE (fill dst c) (\<lambda>_. commit_tmp dst))) d = (r, d')"
  have m: "same_but {tmp_of dst} x y \<Longrightarrow> same_but {tmp_of dst, dst} x y" for x y by (erule same_but_mono) auto
  have seq: "same_but {tmp_of dst} x y \<Longrightarrow> same_but {tmp_of dst} y z \<Longrightarrow> same_but {tmp_of dst, dst} z u \<Longrightarrow>
      same_but {tmp_of dst, dst} x u" for x y z u using m same_but_trans by blast
  have c: "same_but {tmp_of dst, dst} x y" if "run_state (commit_tmp dst) x = (q, y)" for x q y
    using commit_cases [OF that] m by (cases q) auto
  show "same_but {tmp_of dst, dst} d d'"
    using run by (auto simp: run_bindE split: prod.splits sum.splits dest!: prepare_cases fill c intro: same_but_trans m seq)
qed

interpretation copied: clone_backend copy_CloneFile
  unfolding copy_CloneFile_def using copy_bytes_cases by (rule clone_via_tmp)

interpretation reflinked: clone_backend reflink_CloneFile
  unfolding reflink_CloneFile_def using reflink_bytes_cases by (rule clone_via_tmp)

interpretation stub: clone_backend stub_CloneFile
  by unfold_locales (simp_all add: stub_CloneFile_def)

lemma backend_contract: "clone_backend (backend_CloneFile b)"
  by (cases b) (simp_all add: copied.clone_backend_axioms reflinked.clone_backend_axioms stub.clone_backend_axioms)

section \<open>The registry\<close>

record routes =
  rt_prefixes :: "string list"
  rt_byPrefix :: "(string \<times> backend) list"
  rt_fallback :: "backend option"

definition routes_New :: routes where
  "routes_New = \<lparr>rt_prefixes = [], rt_byPrefix = [], rt_fallback = None\<rparr>"

definition longer_first :: "string \<Rightarrow> string \<Rightarrow> bool" where
  "longer_first p q \<longleftrightarrow> length p > length q \<or> length p = length q \<and> text_le p q"

definition routes_Set :: "string \<Rightarrow> backend \<Rightarrow> routes \<Rightarrow> routes" where
  "routes_Set p b r = (let q = Clean p in
     r\<lparr>rt_prefixes := (if map_of (rt_byPrefix r) q = None then order_by longer_first (rt_prefixes r @ [q]) else rt_prefixes r),
       rt_byPrefix := AList.update q b (rt_byPrefix r)\<rparr>)"

definition routes_SetFallback :: "backend \<Rightarrow> routes \<Rightarrow> routes" where
  "routes_SetFallback b r = r\<lparr>rt_fallback := Some b\<rparr>"

definition covers :: "string \<Rightarrow> string \<Rightarrow> bool" where
  "covers p path \<longleftrightarrow> path = p \<or> HasPrefix path (p @ ''/'')"

text \<open>\<open>None\<close> is the panic of a registry without a fallback.\<close>

definition routes_For :: "routes \<Rightarrow> string \<Rightarrow> backend option" where
  "routes_For r path = (case find (\<lambda>p. covers p (Clean path)) (rt_prefixes r) of
     Some p \<Rightarrow> map_of (rt_byPrefix r) p | None \<Rightarrow> rt_fallback r)"

definition routes_CloneFile :: "routes \<Rightarrow> string \<Rightarrow> string \<Rightarrow> backend dres D" where
  "routes_CloneFile r src dst = (case routes_For r dst of
     None \<Rightarrow> ret (Inl (Sys ''panic''))
   | Some b \<Rightarrow> do {
       x \<leftarrow> backend_CloneFile b src dst;
       case x of
         Inr _ \<Rightarrow> ret (Inr b)
       | Inl e \<Rightarrow> if is_unsupported e then bindE (wrapS (copy_CloneFile src dst)) (\<lambda>_. ret (Inr CopyBackend))
                  else ret (Inl e) })"

definition resolveMode :: "string \<Rightarrow> string \<Rightarrow> backend dres D" where
  "resolveMode mode root =
     (if mode = ''auto'' \<or> mode = [] then Detect root
      else if mode = ''copy'' then ret (Inr CopyBackend)
      else if mode = ''reflink'' then bindE (wrapS (probeReflink root)) (\<lambda>_. ret (Inr ReflinkBackend))
      else if mode = ''btrfs-subvol'' \<or> mode = ''zfs'' then ret (Inl (Both ErrUnsupported (Sys ''not wired in v1'')))
      else ret (Inl (Sys ''unknown storage mode'')))"

text \<open>The overrides in the order in which Go iterates over their map; an empty one is none.\<close>

definition clean_overrides :: "(string \<times> string) list \<Rightarrow> (string \<times> string) list" where
  "clean_overrides ovs = foldl (\<lambda>m (k, v). AList.update (Clean k) v m) [] ovs"

definition root_mode :: "string \<Rightarrow> (string \<times> string) list \<Rightarrow> string \<Rightarrow> string" where
  "root_mode mode ovs root = (case map_of (clean_overrides ovs) (Clean root) of
     Some ov \<Rightarrow> if ov \<noteq> [] then ov else if mode = [] then ''auto'' else mode
   | None \<Rightarrow> if mode = [] then ''auto'' else mode)"

fun set_roots :: "string \<Rightarrow> (string \<times> string) list \<Rightarrow> string list \<Rightarrow> routes \<Rightarrow> routes dres D" where
  "set_roots mode ovs [] r = ret (Inr r)"
| "set_roots mode ovs (root # roots) r = bindE (wrapS (resolveMode (root_mode mode ovs root) root))
     (\<lambda>b. set_roots mode ovs roots (routes_Set root b r))"

definition BuildRegistry :: "string \<Rightarrow> string list \<Rightarrow> (string \<times> string) list \<Rightarrow> routes dres D" where
  "BuildRegistry mode roots ovs = set_roots mode ovs roots (routes_SetFallback CopyBackend routes_New)"

text \<open>\<open>buildStorageRegistry\<close> of the daemon, over the roots that are configured.\<close>

definition os_MkdirAll :: "string \<Rightarrow> unit dres D" where
  "os_MkdirAll p = sys (\<lambda>d. Inr ((), d\<lparr>dk_dirs := insert p (dk_dirs d)\<rparr>))"

definition buildStorageRegistry :: "string \<Rightarrow> string list \<Rightarrow> routes dres D" where
  "buildStorageRegistry mode roots = (let rs = filter (\<lambda>p. p \<noteq> []) roots in
     bindE (forE rs (\<lambda>p. wrapS (os_MkdirAll p))) (\<lambda>_. BuildRegistry mode rs []))"

section \<open>The registry keeps the contract\<close>

locale fallback_pair = first: clone_backend f + second: clone_backend g
  for f :: "string \<Rightarrow> string \<Rightarrow> unit dres D" and g :: "string \<Rightarrow> string \<Rightarrow> unit dres D"
begin

lemma with_fallback:
  "clone_backend (\<lambda>src dst. do {
     x \<leftarrow> f src dst;
     case x of
       Inr _ \<Rightarrow> ret (Inr b)
     | Inl e \<Rightarrow> if u e then bindE (wrapS (g src dst)) (\<lambda>_. ret (Inr c)) else ret (Inl e) })"
  (is "clone_backend ?clone")
proof
  fix src dst d and e and d'
  assume "run_state (?clone src dst) d = (Inl e, d')"
  then show "same_but {tmp_of dst} d d'"
    by (auto simp: runs split: prod.splits sum.splits if_splits dest!: first.clone_failed second.clone_failed intro: same_but_trans)
next
  fix src dst d and x and d'
  assume run: "run_state (?clone src dst) d = (Inr x, d')" and src: "src \<noteq> tmp_of dst"
  show "\<exists>c. dk_files d src = Some c \<and> dk_files d' = (dk_files d)(tmp_of dst := None, dst \<mapsto> c)"
  proof (cases "run_state (f src dst) d")
    case (Pair y d1)
    show ?thesis
    proof (cases y)
      case (Inr z)
      then show ?thesis using Pair run first.clone_done [of src dst d z d1] src by (simp add: runs)
    next
      case (Inl e)
      have s: "same_but {tmp_of dst} d d1" using first.clone_failed Pair Inl by simp
      have "\<exists>z. run_state (g src dst) d1 = (Inr z, d')"
        using run Pair Inl by (auto simp: runs split: if_splits prod.splits sum.splits)
      then obtain c where c: "dk_files d1 src = Some c" "dk_files d' = (dk_files d1)(tmp_of dst := None, dst \<mapsto> c)"
        using second.clone_done src by blast
      have "dk_files d' = (dk_files d)(tmp_of dst := None, dst \<mapsto> c)"
        using s unfolding c(2) by (auto simp: same_but_def fun_eq_iff)
      then show ?thesis using s c(1) src by (auto simp: same_but_def)
    qed
  qed
next
  fix src dst d and r and d'
  assume "run_state (?clone src dst) d = (r, d')"
  moreover have m: "same_but {tmp_of dst} x y \<Longrightarrow> same_but {tmp_of dst, dst} x y" for x y by (erule same_but_mono) auto
  ultimately show "same_but {tmp_of dst, dst} d d'"
    by (auto simp: runs split: prod.splits sum.splits if_splits dest!: first.clone_frame second.clone_frame intro: same_but_trans)
qed

end

interpretation pair: fallback_pair "backend_CloneFile b" copy_CloneFile for b
  by (rule fallback_pair.intro [OF backend_contract copied.clone_backend_axioms])

lemma routes_contract: "clone_backend (routes_CloneFile r)"
proof -
  have "clone_backend (\<lambda>src dst. case routes_For r dst of None \<Rightarrow> ret (Inl (Sys ''panic''))
    | Some b \<Rightarrow> do { x \<leftarrow> backend_CloneFile b src dst;
       case x of Inr _ \<Rightarrow> ret (Inr b)
       | Inl e \<Rightarrow> if is_unsupported e then bindE (wrapS (copy_CloneFile src dst)) (\<lambda>_. ret (Inr CopyBackend)) else ret (Inl e) })"
    (is "clone_backend ?clone")
  proof
    fix src dst
    let ?c = "\<lambda>b src dst. do { x \<leftarrow> backend_CloneFile b src dst;
       case x of Inr _ \<Rightarrow> ret (Inr b)
       | Inl e \<Rightarrow> if is_unsupported e then bindE (wrapS (copy_CloneFile src dst)) (\<lambda>_. ret (Inr CopyBackend)) else ret (Inl e) }"
    have c: "clone_backend (?c b)" for b by (rule pair.with_fallback)
    fix d d'
    show "run_state (?clone src dst) d = (Inl e, d') \<Longrightarrow> same_but {tmp_of dst} d d'" for e
      using clone_backend.clone_failed [OF c] by (auto split: option.splits)
    show "run_state (?clone src dst) d = (Inr b, d') \<Longrightarrow> src \<noteq> tmp_of dst \<Longrightarrow>
        \<exists>c. dk_files d src = Some c \<and> dk_files d' = (dk_files d)(tmp_of dst := None, dst \<mapsto> c)" for b
      using clone_backend.clone_done [OF c] by (auto split: option.splits)
    show "run_state (?clone src dst) d = (x, d') \<Longrightarrow> same_but {tmp_of dst, dst} d d'" for x
      using clone_backend.clone_frame [OF c] by (auto split: option.splits)
  qed
  then show ?thesis by (simp add: routes_CloneFile_def [abs_def])
qed

interpretation routed: clone_backend "routes_CloneFile r" for r
  by (rule routes_contract)

text \<open>C23: Whatever system call fails, a clone through the registry, with its fallback to a plain copy,
  either puts the whole source at the destination and leaves no temporary file, or leaves the
  destination as it was; no other file changes, the source included.\<close>

theorem clone_all_or_nothing:
  assumes "run_state (routes_CloneFile r src dst) d = (x, d')" "src \<noteq> tmp_of dst"
  shows "(\<forall>p. p \<noteq> dst \<and> p \<noteq> tmp_of dst \<longrightarrow> dk_files d' p = dk_files d p) \<and>
    (case x of
       Inl _ \<Rightarrow> dk_files d' dst = dk_files d dst
     | Inr b \<Rightarrow> dk_files d src \<noteq> None \<and> dk_files d' dst = dk_files d src \<and> dk_files d' (tmp_of dst) = None)"
proof -
  have "\<forall>p. p \<noteq> dst \<and> p \<noteq> tmp_of dst \<longrightarrow> dk_files d' p = dk_files d p"
    using routed.clone_frame [OF assms(1)] by (simp add: same_but_def)
  moreover have "case x of Inl _ \<Rightarrow> dk_files d' dst = dk_files d dst
     | Inr b \<Rightarrow> dk_files d src \<noteq> None \<and> dk_files d' dst = dk_files d src \<and> dk_files d' (tmp_of dst) = None"
  proof (cases x)
    case (Inl e)
    then show ?thesis using routed.clone_destination assms(1) by simp
  next
    case (Inr b)
    then show ?thesis using routed.clone_done [OF assms(1) [unfolded Inr] assms(2)] by auto
  qed
  ultimately show ?thesis ..
qed

definition demo_disk :: "(nat \<Rightarrow> string option) \<Rightarrow> (nat \<Rightarrow> errno option) \<Rightarrow> disk" where
  "demo_disk fails ioctl = \<lparr>dk_env = \<lparr>de_fail = fails, de_ficlone = ioctl, de_short = (\<lambda>_. 1), de_temp = (\<lambda>_. ''7'')\<rparr>, dk_tick = 0,
     dk_files = [''/img/a'' \<mapsto> ''disk'', ''/vm/b.tmp'' \<mapsto> ''stale''], dk_dirs = {''/img'', ''/vm''}\<rparr>"

definition demo_routes :: routes where
  "demo_routes = routes_Set ''/vm/'' ReflinkBackend (routes_SetFallback CopyBackend routes_New)"

lemma clone_all_or_nothing_witness:
  "case run_state (routes_CloneFile demo_routes ''/img/a'' ''/vm/b'') (demo_disk (\<lambda>_. None) (\<lambda>_. Some EXDEV)) of (x, d') \<Rightarrow>
     x = Inr CopyBackend \<and> dk_files d' ''/vm/b'' = Some ''disk''"
proof -
  let ?d = "demo_disk (\<lambda>_. None) (\<lambda>_. Some EXDEV)"
  obtain x d' where r: "run_state (routes_CloneFile demo_routes ''/img/a'' ''/vm/b'') ?d = (x, d')" by (cases "run_state (routes_CloneFile demo_routes ''/img/a'' ''/vm/b'') ?d")
  have "routes_For demo_routes ''/vm/b'' = Some ReflinkBackend" by code_simp
  then have "x = Inr CopyBackend"
    using r by (simp add: routes_CloneFile_def reflink_CloneFile_def copy_CloneFile_def prepare_tmp_def reflink_bytes_def copy_bytes_def
      commit_tmp_def runs open_file_def remove_file_def create_excl_def ficlone_into_def copy_into_def rename_file_def put_file_def
      tmp_of_def demo_disk_def)
  then show ?thesis using clone_all_or_nothing [OF r] r by (simp add: tmp_of_def demo_disk_def)
qed

section \<open>The longest prefix wins\<close>

text \<open>\<open>p\<close> is \<open>q\<close> or a directory above it: the elements of \<open>q\<close> are those of \<open>p\<close> and then names that lead
  further down.\<close>

definition ancestor :: "string \<Rightarrow> string \<Rightarrow> bool" where
  "ancestor p q \<longleftrightarrow> rooted p = rooted q \<and> take (length (elements p)) (elements q) = elements p \<and>
     ''..'' \<notin> set (drop (length (elements p)) (elements q))"

text \<open>A directory with a name: not the root, not the current directory, not one written with \<open>..\<close> at the end.\<close>

definition has_name :: "string \<Rightarrow> bool" where
  "has_name p \<longleftrightarrow> elements p \<noteq> [] \<and> last (elements p) \<noteq> ''..''"

text \<open>What the search compares, in elements; for the root and the dot the separator that \<open>For\<close> appends doubles,
  and they match nothing but themselves.\<close>

definition matched :: "string \<Rightarrow> string \<Rightarrow> bool" where
  "matched p q \<longleftrightarrow> rooted p = rooted q \<and>
     (elements p = elements q \<or> elements p \<noteq> [] \<and> take (length (elements p)) (elements q) = elements p)"

lemma Clean_nonempty: "Clean p \<noteq> []"
proof
  assume "Clean p = []"
  then have "split_on (CHR ''/'') (render (rooted p) (elements p)) = [[]]" by (simp add: Clean_def)
  moreover have "elements p \<noteq> []" "\<not> rooted p" using \<open>Clean p = []\<close> by (auto simp: Clean_def render_def split: if_splits)
  ultimately have "elements p = [[]]" using split_render [OF elements_cleaned \<open>elements p \<noteq> []\<close>] by simp
  then show False using cleaned_plain [OF elements_cleaned, of "[]" p] by (simp add: plain_element_def)
qed

text \<open>Nothing is below a path without elements.\<close>

lemma below_no_elements:
  assumes "elements p = []" "Clean q = Clean p @ CHR ''/'' # t" "rooted q = rooted p"
  shows False
proof -
  have "elements q \<noteq> []" using assms by (auto simp: Clean_def render_def split: if_splits)
  then have "split_on (CHR ''/'') (Clean q) = (if rooted p then [] # elements q else elements q)"
    using split_render [OF elements_cleaned, of q] assms(3) by (simp add: Clean_def)
  moreover have "split_on (CHR ''/'') (Clean q) = split_on (CHR ''/'') (Clean p) @ split_on (CHR ''/'') t"
    unfolding assms(2) by (rule split_on_append)
  moreover have "Clean p = (if rooted p then ''/'' else ''.'')" using assms(1) by (simp add: Clean_def render_def)
  ultimately have "elements q = (if rooted p then [] else ''.'') # split_on (CHR ''/'') t" by (cases "rooted p") simp_all
  then have "(if rooted p then [] else ''.'') \<in> set (rev (elements q))" by simp
  then show False using cleaned_plain [OF elements_cleaned] by (auto simp: plain_element_def split: if_splits)
qed

lemma covers_matched: "covers (Clean p) (Clean q) \<longleftrightarrow> matched p q"
proof (cases "rooted p = rooted q \<and> elements p \<noteq> []")
  case True
  then show ?thesis using render_prefix [of "rooted q" "elements q" "elements p"] elements_cleaned [of p] elements_cleaned [of q]
    by (auto simp: covers_def matched_def Clean_def)
next
  case False
  have r: "rooted (Clean p @ s) = rooted (Clean p)" for s
    using Clean_nonempty [of p] by (cases "Clean p") (simp_all add: rooted_def HasPrefix_def)
  have "\<not> HasPrefix (Clean q) (Clean p @ ''/'')"
  proof
    assume "HasPrefix (Clean q) (Clean p @ ''/'')"
    then obtain t where t: "Clean q = Clean p @ CHR ''/'' # t" by (auto simp: HasPrefix_iff)
    then have "rooted q = rooted p" using r [of "CHR ''/'' # t"] by (metis rooted_Clean)
    then show False using below_no_elements [OF _ t] False by simp
  qed
  then show ?thesis using False by (auto simp: covers_def matched_def Clean_inj)
qed

lemma cleaned_descends: "cleaned r (xs @ e # ys) \<Longrightarrow> e \<noteq> ''..'' \<Longrightarrow> ''..'' \<notin> set xs"
  by (induction xs) auto

lemma matched_ancestor: "has_name p \<Longrightarrow> matched p q \<longleftrightarrow> ancestor p q"
proof -
  assume p: "has_name p"
  have "''..'' \<notin> set (drop (length (elements p)) (elements q))" if t: "take (length (elements p)) (elements q) = elements p"
  proof -
    define ds where "ds = drop (length (elements p)) (elements q)"
    obtain as a where a: "elements p = as @ [a]" "a \<noteq> ''..''"
      using p by (cases "elements p" rule: rev_cases) (auto simp: has_name_def)
    have "elements q = elements p @ ds" using t unfolding ds_def by (metis append_take_drop_id)
    then have "rev (elements q) = rev ds @ a # rev as" by (simp add: a(1))
    then have "cleaned (rooted q) (rev ds @ a # rev as)" using elements_cleaned [of q] by simp
    from cleaned_descends [OF this a(2)] show ?thesis by (simp add: ds_def)
  qed
  then show ?thesis using p by (auto simp: matched_def ancestor_def has_name_def)
qed

text \<open>The invariant of the registry: the prefixes are the keys, cleaned, longest first.\<close>

definition routes_ok :: "routes \<Rightarrow> bool" where
  "routes_ok r \<longleftrightarrow> sorted_wrt longer_first (rt_prefixes r) \<and> set (rt_prefixes r) = dom (map_of (rt_byPrefix r)) \<and>
     (\<forall>p\<in>set (rt_prefixes r). Clean p = p)"

lemma longer_first_order: "longer_first a b \<or> longer_first b a" "longer_first a b \<Longrightarrow> longer_first b c \<Longrightarrow> longer_first a c"
  using text_le_linear by (auto simp: longer_first_def intro: text_le_trans)

lemma routes_ok_keeps:
  "routes_ok routes_New" "routes_ok r \<Longrightarrow> routes_ok (routes_SetFallback b r)" "routes_ok r \<Longrightarrow> routes_ok (routes_Set p b r)"
proof -
  show "routes_ok (routes_Set p b r)" if ok: "routes_ok r"
    using ok sorted_order_by [of longer_first "rt_prefixes r @ [Clean p]"] longer_first_order
    by (auto simp: routes_ok_def routes_Set_def Let_def update_conv')
qed (simp_all add: routes_ok_def routes_New_def routes_SetFallback_def)

lemma find_first:
  assumes "find P xs = Some x" "sorted_wrt R xs" "y \<in> set xs" "P y" "y \<noteq> x"
  shows "R x y"
  using assms by (induction xs) (auto split: if_splits)

text \<open>Of two matcheds of a path the one with the longer text has at least as many elements.\<close>

lemma longer_deeper:
  assumes "matched p s" "matched q s" "Clean p = p" "Clean q = q" "length q \<le> length p"
  shows "length (elements q) \<le> length (elements p)"
proof (rule ccontr)
  assume n: "\<not> ?thesis"
  then have "elements q \<noteq> []" by auto
  then have q: "take (length (elements q)) (elements s) = elements q" using assms(2) by (auto simp: matched_def)
  have ep: "elements p \<noteq> []"
    using assms(1,2) n q by (auto simp: matched_def)
  then have "take (length (elements p)) (elements s) = elements p" using assms(1) by (auto simp: matched_def)
  then have "take (length (elements p)) (elements q) = elements p" using q n by (metis min.absorb1 nat_le_linear take_take)
  then obtain fs where fs: "elements q = elements p @ fs" by (metis append_take_drop_id)
  then have "fs \<noteq> []" using n by auto
  have "rooted p = rooted q" using assms(1,2) by (simp add: matched_def)
  then have "Clean q = Clean p @ ''/'' @ join ''/'' fs" using render_append [OF ep \<open>fs \<noteq> []\<close>] fs by (simp add: Clean_def)
  then have "length q > length p" using assms(3,4) by simp
  then show False using assms(5) by simp
qed

text \<open>C24: A registry whose directories all have a name (none is the root or the current directory, and
  none ends in \<open>..\<close>) gives a path the backend of the nearest registered directory above it, by path elements
  and not by text, and the fallback when there is none.\<close>

theorem nearest_root_wins:
  assumes "routes_ok r" and "\<forall>p\<in>set (rt_prefixes r). has_name p"
  shows "case routes_For r path of b \<Rightarrow>
    (\<exists>p. p \<in> set (rt_prefixes r) \<and> ancestor p path \<and> b = map_of (rt_byPrefix r) p \<and> b \<noteq> None \<and>
       (\<forall>q\<in>set (rt_prefixes r). ancestor q path \<longrightarrow> length (elements q) \<le> length (elements p))) \<or>
    (\<forall>q\<in>set (rt_prefixes r). \<not> ancestor q path) \<and> b = rt_fallback r"
proof -
  have cov: "covers p (Clean path) \<longleftrightarrow> ancestor p path" if "p \<in> set (rt_prefixes r)" for p
    using covers_matched [of p path] matched_ancestor [of p path] that assms by (simp add: routes_ok_def)
  show ?thesis
  proof (cases "find (\<lambda>p. covers p (Clean path)) (rt_prefixes r)")
    case None
    then have "\<forall>q\<in>set (rt_prefixes r). \<not> ancestor q path" using cov by (simp add: find_None_iff)
    then show ?thesis by (simp add: routes_For_def None)
  next
    case (Some p)
    then have p: "p \<in> set (rt_prefixes r)" "covers p (Clean path)" using find_Some_iff2 by fast+
    have "length (elements q) \<le> length (elements p)" if q: "q \<in> set (rt_prefixes r)" "ancestor q path" for q
    proof (cases "q = p")
      case False
      then have "longer_first p q" using find_first [OF Some _ q(1)] q cov assms by (auto simp: routes_ok_def)
      then show ?thesis using longer_deeper [of p path q] matched_ancestor [of _ path] p q cov assms by (auto simp: longer_first_def routes_ok_def)
    qed simp
    moreover have "map_of (rt_byPrefix r) p \<noteq> None" using p assms by (auto simp: routes_ok_def)
    ultimately show ?thesis using p cov Some by (auto simp: routes_For_def)
  qed
qed

lemma nearest_root_wins_witness:
  "routes_For (routes_Set ''/srv/vm'' CopyBackend (routes_Set ''/srv/'' ReflinkBackend (routes_SetFallback CopyBackend routes_New)))
     ''/srv/vmx/../a'' = Some ReflinkBackend"
proof -
  let ?r = "routes_Set ''/srv/vm'' CopyBackend (routes_Set ''/srv/'' ReflinkBackend (routes_SetFallback CopyBackend routes_New))"
  define r where "r = ?r"
  define path where "path = ''/srv/vmx/../a''"
  have "routes_ok r" unfolding r_def by (intro routes_ok_keeps)
  have dom: "set (rt_prefixes r) = {''/srv'', ''/srv/vm''}" unfolding r_def by code_simp
  have named: "\<forall>p\<in>set (rt_prefixes r). has_name p" unfolding dom by code_simp
  have up: "ancestor ''/srv'' path" "\<not> ancestor ''/srv/vm'' path" unfolding path_def by code_simp+
  have at: "map_of (rt_byPrefix r) ''/srv'' = Some ReflinkBackend" unfolding r_def by code_simp
  from nearest_root_wins [OF \<open>routes_ok r\<close> named, of path] consider
      p where "p \<in> set (rt_prefixes r)" "ancestor p path" "routes_For r path = map_of (rt_byPrefix r) p"
    | "\<forall>q\<in>set (rt_prefixes r). \<not> ancestor q path" by auto
  then have "routes_For r path = Some ReflinkBackend"
  proof cases
    case 1
    then have "p = ''/srv''" using dom up(2) by auto
    then show ?thesis using 1(3) at by simp
  qed (use dom up in simp)
  then show ?thesis by (simp only: r_def path_def)
qed

text \<open>A registered root directory is above every rooted path, and the dot above every path that stays below it;
  neither is found for any of them but itself.\<close>

lemma root_covers_nothing: "elements q \<noteq> [] \<Longrightarrow> \<not> covers (Clean ''/'') (Clean q)" "elements q \<noteq> [] \<Longrightarrow> \<not> covers (Clean ''.'') (Clean q)"
proof -
  have "elements ''/'' = []" "elements ''.'' = []" by code_simp+
  then show "elements q \<noteq> [] \<Longrightarrow> \<not> covers (Clean ''/'') (Clean q)" "elements q \<noteq> [] \<Longrightarrow> \<not> covers (Clean ''.'') (Clean q)"
    by (auto simp: covers_matched matched_def)
qed

lemma root_is_above: "rooted q \<Longrightarrow> ancestor ''/'' q"
proof -
  assume r: "rooted q"
  have "elements ''/'' = []" "rooted ''/''" by code_simp+
  moreover have "''..'' \<notin> set xs" if "cleaned True xs" for xs using that by (induction xs) auto
  ultimately show ?thesis using elements_cleaned [of q] r by (metis ancestor_def drop0 length_0_conv set_rev take_0)
qed

section \<open>On a disk without faults\<close>

lemmas clone_defs = routes_CloneFile_def reflink_CloneFile_def copy_CloneFile_def prepare_tmp_def reflink_bytes_def copy_bytes_def
  commit_tmp_def runs open_file_def remove_file_def create_excl_def ficlone_into_def copy_into_def rename_file_def put_file_def

text \<open>Whatever the backend, a clone succeeds, by reflink or by copying, when only reflinks can be refused.\<close>

lemma clone_succeeds:
  assumes "de_fail (dk_env d) = (\<lambda>_. None)" "dk_files d src = Some c" "src \<noteq> tmp_of dst" "routes_For r dst = Some b"
    and refused: "\<And>t e. de_ficlone (dk_env d) t = Some e \<Longrightarrow> e \<in> {EOPNOTSUPP, EXDEV, ENOTTY, EINVAL}"
  shows "\<exists>b'\<in>{b, CopyBackend}. \<exists>d'. run_state (routes_CloneFile r src dst) d = (Inr b', d')"
proof (cases b)
  case ReflinkBackend
  show ?thesis
  proof (cases "dk_files d (tmp_of dst) = None")
    case True
    then show ?thesis using assms(1-4) refused ReflinkBackend
      by (cases "de_ficlone (dk_env d) (Suc (Suc (Suc (Suc (dk_tick d)))))") (auto simp: clone_defs)
  next
    case False
    then show ?thesis using assms(1-4) refused ReflinkBackend
      by (cases "de_ficlone (dk_env d) (Suc (Suc (Suc (Suc (dk_tick d)))))") (auto simp: clone_defs)
  qed
qed (use assms(1-4) in \<open>cases "dk_files d (tmp_of dst) = None"; auto simp: clone_defs stub_CloneFile_def\<close>)+

text \<open>Probing a root leaves its files as they were.\<close>

lemma reflink_calm:
  assumes "de_fail (dk_env d) = (\<lambda>_. None)" "dk_files d s = Some c" "dk_files d t = None" "dk_files d (tmp_of t) = None" "s \<noteq> tmp_of t"
    and run: "run_state (reflink_CloneFile s t) d = (x, d')"
  shows "dk_env d' = dk_env d" "(dk_files d')(t := None) = dk_files d"
proof -
  show "dk_env d' = dk_env d" using reflinked.clone_frame [OF run] by (simp add: same_but_def)
  show "(dk_files d')(t := None) = dk_files d"
    using run assms(1-5) by (cases "de_ficlone (dk_env d) (Suc (Suc (Suc (Suc (dk_tick d)))))")
      (auto simp: clone_defs fun_eq_iff)
qed

lemma run_remove_calm: "de_fail (dk_env d) = (\<lambda>_. None) \<Longrightarrow>
    snd (run_state (remove_file p) d) = (dticked d)\<lparr>dk_files := (dk_files d)(p := None)\<rparr>"
  by (cases d) (simp add: remove_file_def runs put_file_def fun_upd_idem)

lemma probe_leaves_nothing:
  assumes calm: "de_fail (dk_env d) = (\<lambda>_. None)"
    and fresh: "dk_files d s = None" "dk_files d t = None" "dk_files d (tmp_of t) = None" "s \<noteq> t" "s \<noteq> tmp_of t"
  shows "dk_files (snd (run_state (probe_at s t) d)) = dk_files d"
proof -
  define d2 where "d2 = d\<lparr>dk_files := (dk_files d)(s \<mapsto> [CHR 0x00]), dk_tick := Suc (Suc (Suc (dk_tick d)))\<rparr>"
  obtain x d3 where r: "run_state (reflink_CloneFile s t) d2 = (x, d3)" by (cases "run_state (reflink_CloneFile s t) d2")
  have e: "dk_env d3 = dk_env d" "(dk_files d3)(t := None) = (dk_files d)(s \<mapsto> [CHR 0x00])"
    using reflink_calm [OF _ _ _ _ _ r, of "[CHR 0x00]"] calm fresh by (simp_all add: d2_def)
  have "dk_files (snd (run_state (probe_at s t) d)) = ((dk_files d3)(t := None))(s := None)"
    using calm e(1) r fresh(1)
    by (simp add: probe_at_def probe_write_def runs create_excl_def put_file_def run_remove_calm d2_def [symmetric])
  then show ?thesis using e(2) fresh(1) by (simp add: fun_upd_idem)
qed

end
