(* ===== verification/Json.thy ===== *)
theory Json imports GoText begin

text \<open>
  The part of Go's \<open>encoding/json\<close> that the guest protocol uses: values, the compact text that
  \<open>Marshal\<close> writes, and the parser behind \<open>Unmarshal\<close>.  Numbers are integers; a text is a list of
  bytes, of which those from 128 on stand for themselves (valid UTF-8 without the two line
  separators that \<open>Marshal\<close> escapes).  At the end, padded base64 for byte slices.
\<close>

datatype json = JNull | JBool bool | JInt int | JStr string | JArr "json list" | JObj "(string \<times> json) list"

section \<open>Strings\<close>

definition hex :: "nat \<Rightarrow> char" where
  "hex v = (if v < 10 then char_of (48 + v) else char_of (87 + v))"

definition hex_value :: "char \<Rightarrow> nat option" where
  "hex_value c = (let v = (of_char c :: nat) in
     if 48 \<le> v \<and> v \<le> 57 then Some (v - 48) else if 97 \<le> v \<and> v \<le> 102 then Some (v - 87)
     else if 65 \<le> v \<and> v \<le> 70 then Some (v - 55) else None)"

text \<open>\<open>Marshal\<close> escapes quotes, backslashes, control characters, and \<open><\<close>, \<open>>\<close> and \<open>&\<close>.\<close>

definition escape :: "char \<Rightarrow> string" where
  "escape c = (let v = (of_char c :: nat) in
     if v = 34 \<or> v = 92 then [CHR 0x5C, c]
     else if v = 8 then [CHR 0x5C, CHR ''b''] else if v = 12 then [CHR 0x5C, CHR ''f'']
     else if v = 10 then [CHR 0x5C, CHR ''n''] else if v = 13 then [CHR 0x5C, CHR ''r'']
     else if v = 9 then [CHR 0x5C, CHR ''t'']
     else if v < 32 \<or> v = 60 \<or> v = 62 \<or> v = 38
       then [CHR 0x5C, CHR ''u'', CHR ''0'', CHR ''0'', hex (v div 16), hex (v mod 16)]
     else [c])"

definition print_string :: "string \<Rightarrow> string" where
  "print_string s = CHR 0x22 # concat (map escape s) @ [CHR 0x22]"

text \<open>The UTF-8 bytes of a code point below the surrogates; pairs of surrogates are not modelled.\<close>

definition utf8 :: "nat \<Rightarrow> string option" where
  "utf8 n = (if n < 128 then Some [char_of n]
     else if n < 2048 then Some [char_of (192 + n div 64), char_of (128 + n mod 64)]
     else if 55296 \<le> n \<and> n < 57344 then None
     else Some [char_of (224 + n div 4096), char_of (128 + n div 64 mod 64), char_of (128 + n mod 64)])"

definition simple_escape :: "char \<Rightarrow> char option" where
  "simple_escape c = (if c \<in> {CHR 0x22, CHR 0x5C, CHR ''/''} then Some c
     else if c = CHR ''b'' then Some (CHR 0x08) else if c = CHR ''f'' then Some (CHR 0x0C)
     else if c = CHR ''n'' then Some (CHR 0x0A) else if c = CHR ''r'' then Some (CHR 0x0D)
     else if c = CHR ''t'' then Some (CHR 0x09) else None)"

definition hex4 :: "string \<Rightarrow> nat option" where
  "hex4 hs = foldl (\<lambda>acc h. case (acc, hex_value h) of (Some a, Some v) \<Rightarrow> Some (a * 16 + v) | _ \<Rightarrow> None) (Some 0) hs"

text \<open>What a backslash introduces, and the text behind it.\<close>

definition unescape :: "string \<Rightarrow> (string \<times> string) option" where
  "unescape s = (case s of [] \<Rightarrow> None
     | d # rest \<Rightarrow>
         if d = CHR ''u'' then
           (if length rest < 4 then None
            else (case hex4 (take 4 rest) of None \<Rightarrow> None
                  | Some n \<Rightarrow> map_option (\<lambda>u. (u, drop 4 rest)) (utf8 n)))
         else map_option (\<lambda>x. ([x], rest)) (simple_escape d))"

text \<open>The rest of a string after its opening quote; every round takes at least one character.\<close>

fun parse_chars :: "nat \<Rightarrow> string \<Rightarrow> (string \<times> string) option" where
  "parse_chars 0 s = None"
| "parse_chars (Suc n) s = (case s of [] \<Rightarrow> None
     | c # cs \<Rightarrow>
         if c = CHR 0x22 then Some ([], cs)
         else if c = CHR 0x5C then
           (case unescape cs of None \<Rightarrow> None
            | Some (u, rest) \<Rightarrow> map_option (map_prod ((@) u) id) (parse_chars n rest))
         else if (of_char c :: nat) < 32 then None
         else map_option (map_prod (Cons c) id) (parse_chars n cs))"

lemma hex_value_hex: "v < 16 \<Longrightarrow> hex_value (hex v) = Some v"
  by (auto simp: hex_value_def hex_def Let_def)

lemma length_escape: "1 \<le> length (escape c)"
  by (simp add: escape_def Let_def)

lemma unescape_u: "v < 32 \<or> v = 60 \<or> v = 62 \<or> v = 38 \<Longrightarrow>
    unescape (CHR ''u'' # CHR ''0'' # CHR ''0'' # hex (v div 16) # hex (v mod 16) # rest) = Some ([char_of v], rest)"
proof -
  assume v: "v < 32 \<or> v = 60 \<or> v = 62 \<or> v = 38"
  have "hex_value (CHR ''0'') = Some 0" by (simp add: hex_value_def)
  moreover have "hex_value (hex (v div 16)) = Some (v div 16)" "hex_value (hex (v mod 16)) = Some (v mod 16)"
    using v by (intro hex_value_hex; linarith)+
  ultimately have "hex4 [CHR ''0'', CHR ''0'', hex (v div 16), hex (v mod 16)] = Some v" by (simp add: hex4_def)
  moreover have "v < 128" using v by linarith
  ultimately show ?thesis by (simp add: unescape_def utf8_def)
qed

lemma parse_escape:
  "parse_chars (Suc n) (escape c @ s) = map_option (map_prod (Cons c) id) (parse_chars n s)"
proof -
  define v where "v = (of_char c :: nat)"
  have c: "c = char_of v" by (simp add: v_def)
  have [simp]: "map_prod ((@) [x]) id = map_prod (Cons x) (id :: string \<Rightarrow> string)" for x by (auto simp: fun_eq_iff)
  have simple: "parse_chars (Suc n) (CHR 0x5C # d # s) = map_option (map_prod (Cons c) id) (parse_chars n s)"
    if "d \<noteq> CHR ''u''" "simple_escape d = Some c" for d using that by (simp add: unescape_def)
  have esc: ?thesis if "c = k" "escape k = [CHR 0x5C, d]" "d \<noteq> CHR ''u''" "simple_escape d = Some k" for k d
    using simple [of d] that by simp
  consider "v = 34" | "v = 92" | "v = 8" | "v = 12" | "v = 10" | "v = 13" | "v = 9"
    | (hex) "v < 32 \<or> v = 60 \<or> v = 62 \<or> v = 38" "v \<notin> {8, 9, 10, 12, 13, 34, 92}"
    | (plain) "32 \<le> v" "v \<notin> {34, 38, 60, 62, 92}" by fastforce
  then show ?thesis
  proof cases
    case hex
    then have "escape c = [CHR 0x5C, CHR ''u'', CHR ''0'', CHR ''0'', hex (v div 16), hex (v mod 16)]"
      by (simp add: escape_def Let_def v_def [symmetric])
    then show ?thesis using unescape_u [OF hex(1)] c by simp
  next
    case plain
    then have "escape c = [c]" by (simp add: escape_def Let_def v_def [symmetric])
    moreover have "c \<noteq> CHR 0x22" "c \<noteq> CHR 0x5C" using plain by (auto simp: v_def)
    ultimately show ?thesis using plain by (simp add: v_def [symmetric])
  next
    case 1
    have "char_of (34 :: nat) = CHR 0x22" by code_simp
    then have "c = CHR 0x22" using 1 by (simp add: c)
    then show ?thesis by (rule esc [of _ "CHR 0x22"]) (simp_all add: escape_def simple_escape_def)
  next
    case 2
    have "char_of (92 :: nat) = CHR 0x5C" by code_simp
    then have "c = CHR 0x5C" using 2 by (simp add: c)
    then show ?thesis by (rule esc [of _ "CHR 0x5C"]) (simp_all add: escape_def simple_escape_def)
  next
    case 3
    have "char_of (8 :: nat) = CHR 0x08" by code_simp
    then have "c = CHR 0x08" using 3 by (simp add: c)
    then show ?thesis by (rule esc [of _ "CHR ''b''"]) (simp_all add: escape_def simple_escape_def)
  next
    case 4
    have "char_of (12 :: nat) = CHR 0x0C" by code_simp
    then have "c = CHR 0x0C" using 4 by (simp add: c)
    then show ?thesis by (rule esc [of _ "CHR ''f''"]) (simp_all add: escape_def simple_escape_def)
  next
    case 5
    have "char_of (10 :: nat) = CHR 0x0A" by code_simp
    then have "c = CHR 0x0A" using 5 by (simp add: c)
    then show ?thesis by (rule esc [of _ "CHR ''n''"]) (simp_all add: escape_def simple_escape_def)
  next
    case 6
    have "char_of (13 :: nat) = CHR 0x0D" by code_simp
    then have "c = CHR 0x0D" using 6 by (simp add: c)
    then show ?thesis by (rule esc [of _ "CHR ''r''"]) (simp_all add: escape_def simple_escape_def)
  next
    case 7
    have "char_of (9 :: nat) = CHR 0x09" by code_simp
    then have "c = CHR 0x09" using 7 by (simp add: c)
    then show ?thesis by (rule esc [of _ "CHR ''t''"]) (simp_all add: escape_def simple_escape_def)
  qed
qed

lemma parse_print_string:
  "length s < n \<Longrightarrow> parse_chars n (concat (map escape s) @ CHR 0x22 # rest) = Some (s, rest)"
proof (induction s arbitrary: n)
  case (Cons c s)
  then obtain m where "n = Suc m" "length s < m" by (cases n) auto
  then show ?case using Cons.IH [of m] by (simp only: list.map concat.simps append_assoc parse_escape) simp
qed (auto simp: gr0_conv_Suc)

section \<open>Values\<close>

text \<open>The compact text of \<open>Marshal\<close>.\<close>

fun print_json :: "json \<Rightarrow> string"
  and print_elems :: "json list \<Rightarrow> string"
  and print_members :: "(string \<times> json) list \<Rightarrow> string" where
  "print_json JNull = ''null''"
| "print_json (JBool b) = (if b then ''true'' else ''false'')"
| "print_json (JInt i) = itoa i"
| "print_json (JStr s) = print_string s"
| "print_json (JArr vs) = CHR ''['' # print_elems vs @ '']''"
| "print_json (JObj ms) = CHR ''{'' # print_members ms @ ''}''"
| "print_elems [] = []"
| "print_elems [v] = print_json v"
| "print_elems (v # w # vs) = print_json v @ '','' @ print_elems (w # vs)"
| "print_members [] = []"
| "print_members [(k, v)] = print_string k @ '':'' @ print_json v"
| "print_members ((k, v) # m # ms) = print_string k @ '':'' @ print_json v @ '','' @ print_members (m # ms)"

definition skip :: "string \<Rightarrow> string" where
  "skip s = dropWhile (\<lambda>c. c \<in> {CHR '' '', CHR 0x09, CHR 0x0A, CHR 0x0D}) s"

text \<open>An integer; a leading zero is not JSON, a fraction or an exponent is not an integer.\<close>

definition parse_number :: "string \<Rightarrow> (json \<times> string) option" where
  "parse_number s = (let
     neg = HasPrefix s ''-''; t = (if neg then tl s else s);
     ds = takeWhile (\<lambda>c. digit_value c \<noteq> None) t; rest = dropWhile (\<lambda>c. digit_value c \<noteq> None) t in
     if ds = [] \<or> 1 < length ds \<and> hd ds = CHR ''0'' \<or> rest \<noteq> [] \<and> hd rest \<in> {CHR ''.'', CHR ''e'', CHR ''E''} then None
     else (case parse_digits 0 ds of None \<Rightarrow> None | Some n \<Rightarrow> Some (JInt (if neg then - int n else int n), rest)))"

definition parse_literal :: "string \<Rightarrow> (json \<times> string) option" where
  "parse_literal s = (if HasPrefix s ''null'' then Some (JNull, drop 4 s)
     else if HasPrefix s ''true'' then Some (JBool True, drop 4 s)
     else if HasPrefix s ''false'' then Some (JBool False, drop 5 s)
     else parse_number s)"

definition parse_string :: "string \<Rightarrow> (string \<times> string) option" where
  "parse_string cs = parse_chars (Suc (length cs)) cs"

fun parse_value :: "nat \<Rightarrow> string \<Rightarrow> (json \<times> string) option"
  and parse_elems :: "nat \<Rightarrow> string \<Rightarrow> (json list \<times> string) option"
  and parse_members :: "nat \<Rightarrow> string \<Rightarrow> ((string \<times> json) list \<times> string) option" where
  "parse_value 0 s = None"
| "parse_value (Suc n) s = (case skip s of [] \<Rightarrow> None | c # cs \<Rightarrow>
     if c = CHR 0x22 then map_option (map_prod JStr id) (parse_string cs)
     else if c = CHR ''['' then
       (case skip cs of [] \<Rightarrow> None | d # ds \<Rightarrow>
          if d = CHR '']'' then Some (JArr [], ds) else map_option (map_prod JArr id) (parse_elems n (d # ds)))
     else if c = CHR ''{'' then
       (case skip cs of [] \<Rightarrow> None | d # ds \<Rightarrow>
          if d = CHR ''}'' then Some (JObj [], ds) else map_option (map_prod JObj id) (parse_members n (d # ds)))
     else parse_literal (c # cs))"
| "parse_elems 0 s = None"
| "parse_elems (Suc n) s = (case parse_value n s of None \<Rightarrow> None | Some (v, rest) \<Rightarrow>
     (case skip rest of [] \<Rightarrow> None | c # cs \<Rightarrow>
        if c = CHR '']'' then Some ([v], cs)
        else if c = CHR '','' then map_option (map_prod (Cons v) id) (parse_elems n cs) else None))"
| "parse_members 0 s = None"
| "parse_members (Suc n) s = (case skip s of [] \<Rightarrow> None | q # qs \<Rightarrow>
     if q \<noteq> CHR 0x22 then None
     else (case parse_string qs of None \<Rightarrow> None | Some (k, ks) \<Rightarrow>
       (case skip ks of [] \<Rightarrow> None | e # es \<Rightarrow>
          if e \<noteq> CHR '':'' then None
          else (case parse_value n es of None \<Rightarrow> None | Some (v, rest) \<Rightarrow>
            (case skip rest of [] \<Rightarrow> None | c # cs \<Rightarrow>
               if c = CHR ''}'' then Some ([(k, v)], cs)
               else if c = CHR '','' then map_option (map_prod (Cons (k, v)) id) (parse_members n cs) else None)))))"

definition parse_json :: "string \<Rightarrow> json option" where
  "parse_json s = (case parse_value (Suc (length s)) s of None \<Rightarrow> None
     | Some (v, rest) \<Rightarrow> if skip rest = [] then Some v else None)"

section \<open>What is printed is read back\<close>

text \<open>What may follow a value: nothing that would lengthen a number.\<close>

definition ends_value :: "string \<Rightarrow> bool" where
  "ends_value rest \<longleftrightarrow> rest = [] \<or> digit_value (hd rest) = None \<and> hd rest \<notin> {CHR ''.'', CHR ''e'', CHR ''E''}"

lemma skip_other [simp]: "c \<notin> {CHR '' '', CHR 0x09, CHR 0x0A, CHR 0x0D} \<Longrightarrow> skip (c # cs) = c # cs"
  by (simp add: skip_def)

lemma digit_value_Some: "digit_value c = Some v \<Longrightarrow> c = digit (int v) \<and> v < 10"
  by (auto simp: Let_def digit_def nat_add_distrib split: if_splits)

lemma dec_digit_values: "c \<in> set (dec n) \<Longrightarrow> digit_value c \<noteq> None"
  using dec_digits digit_value_digit by force

lemma dec_no_leading_zero: "1 < length (dec n) \<Longrightarrow> hd (dec n) \<noteq> CHR ''0''"
proof (induction n rule: dec.induct)
  case (1 n)
  show ?case
  proof (cases "n < 10")
    case False
    show ?thesis
    proof (cases "n div 10 < 10")
      case True
      then have "dec n = [digit (int (n div 10)), digit (int (n mod 10))]"
        using False by (simp add: dec.simps [of n] dec.simps [of "n div 10"])
      moreover have "of_char (digit (int (n div 10))) \<noteq> (48 :: nat)" using of_char_digit [of "n div 10"] True False by simp
      moreover have "of_char (CHR ''0'') = (48 :: nat)" by simp
      ultimately show ?thesis by (metis list.sel(1))
    next
      case big: False
      then have "1 < length (dec (n div 10))" by (simp add: dec.simps [of "n div 10"])
      then have "hd (dec (n div 10)) \<noteq> CHR ''0''" using 1(1) False by simp
      then show ?thesis using False by (simp add: dec.simps [of n])
    qed
  qed (use 1(2) in \<open>simp add: dec.simps [of n]\<close>)
qed

lemma parse_number_dec:
  assumes "ends_value rest" shows "parse_number (dec n @ rest) = Some (JInt (int n), rest)"
    "parse_number (CHR ''-'' # dec n @ rest) = Some (JInt (- int n), rest)"
proof -
  have all: "\<forall>c\<in>set (dec n). digit_value c \<noteq> None" using dec_digit_values by blast
  have split: "takeWhile (\<lambda>c. digit_value c \<noteq> None) (dec n @ rest) = dec n" "dropWhile (\<lambda>c. digit_value c \<noteq> None) (dec n @ rest) = rest"
    using all assms by (cases rest; simp add: takeWhile_append2 dropWhile_append2 ends_value_def)+
  have pos: "\<not> HasPrefix (dec n @ rest) ''-''"
  proof
    assume "HasPrefix (dec n @ rest) ''-''"
    then have "CHR ''-'' \<in> set (dec n)" by (cases "dec n") (auto simp: HasPrefix_def)
    then show False using dec_plain by blast
  qed
  have no: "\<not> (dec n = [] \<or> 1 < length (dec n) \<and> hd (dec n) = CHR ''0'' \<or> rest \<noteq> [] \<and> hd rest \<in> {CHR ''.'', CHR ''e'', CHR ''E''})"
    using dec_no_leading_zero assms by (auto simp: ends_value_def)
  show "parse_number (dec n @ rest) = Some (JInt (int n), rest)"
    unfolding parse_number_def Let_def using pos split no by (simp add: parse_digits_dec del: digit_value.simps)
  have "HasPrefix (CHR ''-'' # dec n @ rest) ''-''" by (simp add: HasPrefix_def)
  then show "parse_number (CHR ''-'' # dec n @ rest) = Some (JInt (- int n), rest)"
    unfolding parse_number_def Let_def using split no by (simp add: parse_digits_dec del: digit_value.simps)
qed

lemma itoa_head: "\<exists>c cs. itoa i = c # cs \<and> (c = CHR ''-'' \<or> (\<exists>v<10. c = digit (int v)))"
proof (cases "i < 0")
  case False
  obtain c cs where "dec (nat i) = c # cs" by (cases "dec (nat i)") auto
  then show ?thesis using dec_digits [of c "nat i"] False by (simp add: itoa_def)
qed (simp add: itoa_def)

lemma digit_range: "v < 10 \<Longrightarrow> 48 \<le> (of_char (digit (int v)) :: nat) \<and> (of_char (digit (int v)) :: nat) \<le> 57"
  using of_char_digit [of v] by simp

lemma number_head:
  assumes "c = CHR ''-'' \<or> (\<exists>v<10. c = digit (int v))"
  shows "c \<notin> {CHR '' '', CHR 0x09, CHR 0x0A, CHR 0x0D, CHR 0x22, CHR ''['', CHR '']'', CHR ''{'', CHR ''}'', CHR ''n'', CHR ''t'', CHR ''f''}"
proof -
  have "(of_char c :: nat) \<in> insert 45 {48..57}" using assms digit_range by auto
  then show ?thesis by auto
qed

lemma parse_literal_itoa: "ends_value rest \<Longrightarrow> parse_literal (itoa i @ rest) = Some (JInt i, rest)"
proof -
  assume r: "ends_value rest"
  obtain c cs where c: "itoa i = c # cs" "c = CHR ''-'' \<or> (\<exists>v<10. c = digit (int v))" using itoa_head by blast
  have "parse_literal (itoa i @ rest) = parse_number (itoa i @ rest)"
    using number_head [OF c(2)] c(1) by (simp add: parse_literal_def HasPrefix_def)
  then show ?thesis using parse_number_dec [OF r] by (cases "i < 0") (simp_all add: itoa_def)
qed

lemma parse_string_print: "parse_string (tl (print_string s) @ rest) = Some (s, rest)"
proof -
  have "length s \<le> length (concat (map escape s))"
  proof (induction s)
    case (Cons c s)
    then show ?case using length_escape [of c] by simp
  qed simp
  then show ?thesis by (simp add: parse_string_def print_string_def parse_print_string del: parse_chars.simps)
qed

text \<open>A printed value starts with none of the characters that close a list or separate tokens.\<close>

lemma print_head: "\<exists>c cs. print_json v = c # cs \<and> c \<notin> {CHR '' '', CHR 0x09, CHR 0x0A, CHR 0x0D, CHR '']'', CHR ''}''}"
proof (cases v)
  case (JInt i)
  then show ?thesis using itoa_head [of i] number_head by fastforce
qed (simp_all add: print_string_def)

lemma print_elems_head: "vs \<noteq> [] \<Longrightarrow> \<exists>c cs. print_elems vs = c # cs \<and> c \<notin> {CHR '' '', CHR 0x09, CHR 0x0A, CHR 0x0D, CHR '']'', CHR ''}''}"
proof -
  assume "vs \<noteq> []"
  then obtain v ws where vs: "vs = v # ws" by (cases vs) auto
  obtain c cs where "print_json v = c # cs" "c \<notin> {CHR '' '', CHR 0x09, CHR 0x0A, CHR 0x0D, CHR '']'', CHR ''}''}" using print_head by blast
  then show ?thesis using vs by (cases ws) simp_all
qed

lemma print_members_head: "ms \<noteq> [] \<Longrightarrow> \<exists>cs. print_members ms = CHR 0x22 # cs"
  by (cases ms rule: print_members.cases) (simp_all add: print_string_def)

lemma skip_head: "\<exists>c cs. s = c # cs \<and> c \<notin> {CHR '' '', CHR 0x09, CHR 0x0A, CHR 0x0D, CHR '']'', CHR ''}''} \<Longrightarrow> skip (s @ t) = s @ t"
  by auto

lemma ends_value_simps [simp]: "ends_value []" "ends_value (CHR '','' # s)" "ends_value (CHR '']'' # s)" "ends_value (CHR ''}'' # s)"
  by (simp_all add: ends_value_def)

lemma parse_print:
  "ends_value rest \<Longrightarrow> length (print_json v) < n \<Longrightarrow> parse_value n (print_json v @ rest) = Some (v, rest)"
  "vs \<noteq> [] \<Longrightarrow> length (print_elems vs) + 1 < n \<Longrightarrow> parse_elems n (print_elems vs @ CHR '']'' # rest) = Some (vs, rest)"
  "ms \<noteq> [] \<Longrightarrow> length (print_members ms) + 1 < n \<Longrightarrow> parse_members n (print_members ms @ CHR ''}'' # rest) = Some (ms, rest)"
proof (induction v and vs and ms arbitrary: n rest and n rest and n rest rule: print_json_print_elems_print_members.induct)
  case (3 i)
  obtain c cs where c: "itoa i = c # cs" "c = CHR ''-'' \<or> (\<exists>v<10. c = digit (int v))" using itoa_head by blast
  then show ?case using 3 number_head [OF c(2)] parse_literal_itoa [OF 3(1), of i] by (cases n) simp_all
next
  case (4 s)
  then show ?case using parse_string_print [of s rest] by (cases n) (simp_all add: print_string_def)
next
  case (5 vs)
  then show ?case
  proof (cases n)
    case (Suc m)
    show ?thesis
    proof (cases "vs = []")
      case False
      then obtain c cs where c: "print_elems vs = c # cs" "c \<notin> {CHR '' '', CHR 0x09, CHR 0x0A, CHR 0x0D, CHR '']'', CHR ''}''}"
        using print_elems_head by blast
      then show ?thesis using 5 Suc False 5(1) [of m rest] by simp
    qed (simp add: Suc)
  qed simp
next
  case (6 ms)
  then show ?case
  proof (cases n)
    case (Suc m)
    show ?thesis
    proof (cases "ms = []")
      case False
      then obtain cs where c: "print_members ms = CHR 0x22 # cs" using print_members_head by blast
      then show ?thesis using 6 Suc False 6(1) [of m rest] by simp
    qed (simp add: Suc)
  qed simp
next
  case (8 v)
  then show ?case by (cases n) simp_all
next
  case (9 v w vs)
  then show ?case by (cases n) simp_all
next
  case (11 k v)
  then show ?case
  proof (cases n)
    case (Suc m)
    obtain ks where k: "print_string k = CHR 0x22 # ks" by (simp add: print_string_def)
    then have "parse_string (ks @ t) = Some (k, t)" for t using parse_string_print [of k t] by simp
    then show ?thesis using 11 Suc k by simp
  qed simp
next
  case (12 k v m ms)
  then show ?case
  proof (cases n)
    case (Suc j)
    obtain ks where k: "print_string k = CHR 0x22 # ks" by (simp add: print_string_def)
    then have "parse_string (ks @ t) = Some (k, t)" for t using parse_string_print [of k t] by simp
    then show ?thesis using 12 Suc k by simp
  qed simp
qed (auto simp: parse_literal_def HasPrefix_def gr0_conv_Suc split: if_splits elim: lessE)

theorem parse_print_json: "parse_json (print_json v) = Some v"
  using parse_print(1) [of "[]" v "Suc (length (print_json v))"] by (simp add: parse_json_def skip_def)

end
