(* ===== verification/Wire.thy ===== *)
theory Wire imports Json "HOL-Library.AList" begin

text \<open>
  The protocol between the daemon and the agent in the guest
  (\<open>internal/provider/firecracker/vsock/protocol.go\<close>): frames of a four-byte length and a JSON body,
  and the payloads of the messages.  A text is a list of bytes; a reader is what it has left to
  deliver before the end of the stream.
\<close>

section \<open>Structs\<close>

definition lower :: "char \<Rightarrow> char" where
  "lower c = (let v = (of_char c :: nat) in if 65 \<le> v \<and> v \<le> 90 then char_of (v + 32) else c)"

text \<open>A member sets the field whose name it has, up to the case of the letters.\<close>

definition names :: "string \<Rightarrow> string \<Rightarrow> bool" where
  "names key field \<longleftrightarrow> map lower key = map lower field"

text \<open>\<open>Unmarshal\<close> into a struct: \<open>null\<close> leaves it, members are taken in order, unknown ones skipped.\<close>

fun set_members :: "(string \<Rightarrow> json \<Rightarrow> 'r \<Rightarrow> 'r option) \<Rightarrow> (string \<times> json) list \<Rightarrow> 'r \<Rightarrow> 'r option" where
  "set_members put [] r = Some r"
| "set_members put ((k, v) # ms) r = (case put k v r of None \<Rightarrow> None | Some r' \<Rightarrow> set_members put ms r')"

definition unmarshal :: "(string \<Rightarrow> json \<Rightarrow> 'r \<Rightarrow> 'r option) \<Rightarrow> 'r \<Rightarrow> json \<Rightarrow> 'r option" where
  "unmarshal put r j = (case j of JNull \<Rightarrow> Some r | JObj ms \<Rightarrow> set_members put ms r | _ \<Rightarrow> None)"

text \<open>Values of the basic types; \<open>null\<close> keeps what is there.\<close>

definition json_text :: "json \<Rightarrow> string \<Rightarrow> string option" where
  "json_text j old = (case j of JNull \<Rightarrow> Some old | JStr s \<Rightarrow> Some s | _ \<Rightarrow> None)"

definition json_int :: "int \<Rightarrow> int \<Rightarrow> json \<Rightarrow> int \<Rightarrow> int option" where
  "json_int lo hi j old = (case j of JNull \<Rightarrow> Some old | JInt i \<Rightarrow> if lo \<le> i \<and> i \<le> hi then Some i else None | _ \<Rightarrow> None)"

definition json_int64 :: "json \<Rightarrow> int \<Rightarrow> int option" where
  "json_int64 = json_int (- (2 ^ 63)) (2 ^ 63 - 1)"

fun all_some :: "'a option list \<Rightarrow> 'a list option" where
  "all_some [] = Some []"
| "all_some (x # xs) = (case x of None \<Rightarrow> None | Some y \<Rightarrow> map_option (Cons y) (all_some xs))"

definition json_texts :: "json \<Rightarrow> string list \<Rightarrow> string list option" where
  "json_texts j old = (case j of JNull \<Rightarrow> Some [] | JArr vs \<Rightarrow> all_some (map (\<lambda>v. json_text v []) vs) | _ \<Rightarrow> None)"

section \<open>Byte slices\<close>

definition std_char :: "nat \<Rightarrow> char" where
  "std_char v = (if v = 62 then CHR ''+'' else if v = 63 then CHR ''/'' else b64_char v)"

definition std_value :: "char \<Rightarrow> nat option" where
  "std_value c = (if c = CHR ''+'' then Some 62 else if c = CHR ''/'' then Some 63
     else if c \<in> {CHR ''-'', CHR ''_''} then None else b64_value c)"

definition std_encode :: "string \<Rightarrow> string" where
  "std_encode s = map std_char (b64_sextets (map of_char s)) @ replicate ((3 - length s mod 3) mod 3) (CHR ''='')"

text \<open>At most two padding characters, and only at the end; line ends are skipped.\<close>

definition strip_padding :: "string \<Rightarrow> string" where
  "strip_padding s = (if HasSuffix s ''=='' then take (length s - 2) s
     else if HasSuffix s ''='' then take (length s - 1) s else s)"

definition std_decode :: "string \<Rightarrow> string option" where
  "std_decode s = (let cs = filter (\<lambda>c. c \<noteq> CHR 0x0A \<and> c \<noteq> CHR 0x0D) s in
     if length cs mod 4 \<noteq> 0 then None
     else (case all_some (map std_value (strip_padding cs)) of None \<Rightarrow> None
           | Some vs \<Rightarrow> map_option (map char_of) (b64_bytes vs)))"

definition json_bytes :: "json \<Rightarrow> string \<Rightarrow> string option" where
  "json_bytes j old = (case j of JNull \<Rightarrow> Some [] | JStr s \<Rightarrow> std_decode s | _ \<Rightarrow> None)"

lemma std_value_char: "v < 64 \<Longrightarrow> std_value (std_char v) = Some v"
proof -
  assume v: "v < 64"
  show ?thesis
  proof (cases "v = 62 \<or> v = 63")
    case False
    then have "b64_char v \<notin> {CHR ''+'', CHR ''/'', CHR ''-'', CHR ''_''}"
    proof -
      have "(of_char (b64_char v) :: nat) \<notin> {43, 47, 45, 95}" using v False
        by (auto simp: b64_char_def take_bit_nat_eq_self)
      then show ?thesis by auto
    qed
    then show ?thesis using False b64_value_char [OF v] by (simp add: std_value_def std_char_def)
  qed (auto simp: std_value_def std_char_def)
qed

lemma std_char_plain: "v < 64 \<Longrightarrow> std_char v \<notin> {CHR 0x0A, CHR 0x0D, CHR ''=''}"
proof -
  assume v: "v < 64"
  have "(of_char (std_char v) :: nat) \<notin> {10, 13, 61}" using v by (auto simp: std_char_def b64_char_def take_bit_nat_eq_self)
  then show ?thesis by auto
qed

lemma all_some_map: "(\<And>x. x \<in> set xs \<Longrightarrow> f x = Some (g x)) \<Longrightarrow> all_some (map f xs) = Some (map g xs)"
  by (induction xs) auto

lemma padded_length: "(length (b64_sextets bs) + (3 - length bs mod 3) mod 3) mod 4 = 0"
proof (induction bs rule: b64_sextets.induct)
  case (4 a b c rest)
  have "length (a # b # c # rest) mod 3 = length rest mod 3" by simp
  moreover have "length (b64_sextets (a # b # c # rest)) = 4 + length (b64_sextets rest)" by simp
  moreover have "(4 + m + k) mod 4 = (m + k) mod 4" for m k :: nat by (metis add.assoc mod_add_self1)
  ultimately show ?case using 4 by simp
qed simp_all

lemma strip_padding_simps:
  assumes "\<not> HasSuffix xs ''=''"
  shows "strip_padding xs = xs" "strip_padding (xs @ ''='') = xs" "strip_padding (xs @ ''=='') = xs"
proof -
  have two: "HasSuffix zs ''=='' \<Longrightarrow> HasSuffix zs ''=''" for zs
    by (cases zs rule: rev_cases) (auto simp: HasSuffix_def drop_Suc tl_append split: list.splits)
  show "strip_padding xs = xs" using assms two by (auto simp: strip_padding_def)
  have "HasSuffix (xs @ ''='') ''=='' \<Longrightarrow> HasSuffix xs ''=''"
    by (cases xs rule: rev_cases) (auto simp: HasSuffix_def)
  then show "strip_padding (xs @ ''='') = xs" using assms by (auto simp: strip_padding_def HasSuffix_def)
  show "strip_padding (xs @ ''=='') = xs" by (simp add: strip_padding_def HasSuffix_def)
qed

lemma std_round: "std_decode (std_encode s) = Some s"
proof -
  let ?vs = "b64_sextets (map of_char s)"
  let ?p = "(3 - length s mod 3) mod 3"
  have b: "v < 64" if "v \<in> set ?vs" for v using b64_sextets_bound [OF _ that] of_char_bound by auto
  have plain: "c \<notin> {CHR 0x0A, CHR 0x0D, CHR ''=''}" if "c \<in> set (map std_char ?vs)" for c
    using that b std_char_plain by auto
  have f: "filter (\<lambda>c. c \<noteq> CHR 0x0A \<and> c \<noteq> CHR 0x0D) (std_encode s) = std_encode s"
    using plain by (intro filter_True) (auto simp: std_encode_def)
  have l: "length (std_encode s) mod 4 = 0"
    using padded_length [of "map of_char s"] by (simp add: std_encode_def)
  have last: "\<not> HasSuffix (map std_char ?vs) ''=''"
    using plain by (cases "map std_char ?vs" rule: rev_cases) (auto simp: HasSuffix_def)
  define p where "p = ?p"
  have "p < 3" by (simp add: p_def)
  then consider "p = 0" | "p = 1" | "p = 2" by linarith
  then have "strip_padding (map std_char ?vs @ replicate p (CHR ''='')) = map std_char ?vs"
    using strip_padding_simps [OF last] by cases (simp_all add: numeral_2_eq_2)
  then have "strip_padding (std_encode s) = map std_char ?vs" by (simp add: std_encode_def p_def)
  moreover have "all_some (map std_value (map std_char ?vs)) = Some ?vs"
    unfolding map_map by (subst all_some_map [where g = id]) (use b std_value_char in auto)
  moreover have "b64_bytes ?vs = Some (map of_char s)" using of_char_bound by (intro b64_bytes_sextets) auto
  ultimately show ?thesis using f l by (simp add: std_decode_def o_def)
qed

section \<open>Messages\<close>

definition ProtocolVersion :: int where "ProtocolVersion = 1"

text \<open>A raw payload is a JSON value, \<open>None\<close> when it is absent (and left out).\<close>

record message =
  mg_Version :: int
  mg_Type :: string
  mg_ID :: string
  mg_Payload :: "json option"

definition message_json :: "message \<Rightarrow> json" where
  "message_json m = JObj ([(''v'', JInt (mg_Version m)), (''type'', JStr (mg_Type m)), (''id'', JStr (mg_ID m))]
     @ (case mg_Payload m of None \<Rightarrow> [] | Some p \<Rightarrow> [(''payload'', p)]))"

definition set_message :: "string \<Rightarrow> json \<Rightarrow> message \<Rightarrow> message option" where
  "set_message k j m =
     (if names k ''v'' then map_option (\<lambda>x. m\<lparr>mg_Version := x\<rparr>) (json_int 0 255 j (mg_Version m))
      else if names k ''type'' then map_option (\<lambda>x. m\<lparr>mg_Type := x\<rparr>) (json_text j (mg_Type m))
      else if names k ''id'' then map_option (\<lambda>x. m\<lparr>mg_ID := x\<rparr>) (json_text j (mg_ID m))
      else if names k ''payload'' then Some (m\<lparr>mg_Payload := Some j\<rparr>)
      else Some m)"

definition zero_message :: message where
  "zero_message = \<lparr>mg_Version = 0, mg_Type = [], mg_ID = [], mg_Payload = None\<rparr>"

section \<open>Frames\<close>

definition be32 :: "nat \<Rightarrow> string" where
  "be32 n = [char_of (n div 2 ^ 24 mod 256), char_of (n div 2 ^ 16 mod 256), char_of (n div 2 ^ 8 mod 256), char_of (n mod 256)]"

definition be32_value :: "string \<Rightarrow> nat" where
  "be32_value bs = foldl (\<lambda>a c. a * 256 + of_char c) 0 bs"

text \<open>\<open>uint32(len(data))\<close> wraps; the two writes of a frame are one step under the write lock.\<close>

definition Encode :: "message \<Rightarrow> string" where
  "Encode m = (let data = print_json (message_json m) in be32 (length data mod 2 ^ 32) @ data)"

datatype decode_error = EOF | UnexpectedEOF | TooLarge nat | BadJSON

definition maxFrame :: nat where "maxFrame = 4 * 1024 * 1024"

text \<open>\<open>io.ReadFull\<close> of \<open>n\<close> bytes.\<close>

definition read_full :: "nat \<Rightarrow> string \<Rightarrow> decode_error + string \<times> string" where
  "read_full n bs = (if n \<le> length bs then Inr (take n bs, drop n bs) else if bs = [] then Inl EOF else Inl UnexpectedEOF)"

definition Decode :: "string \<Rightarrow> decode_error + message \<times> string" where
  "Decode bs = (case read_full 4 bs of
     Inl e \<Rightarrow> Inl e
   | Inr (hdr, bs') \<Rightarrow>
       let n = be32_value hdr in
       if n > maxFrame then Inl (TooLarge n)
       else (case read_full n bs' of
         Inl e \<Rightarrow> Inl e
       | Inr (data, rest) \<Rightarrow>
           (case parse_json data of
              None \<Rightarrow> Inl BadJSON
            | Some j \<Rightarrow> (case unmarshal set_message zero_message j of None \<Rightarrow> Inl BadJSON | Some m \<Rightarrow> Inr (m, rest)))))"

lemma be32_value_be32: "n < 2 ^ 32 \<Longrightarrow> be32_value (be32 n) = n"
proof -
  assume n: "n < 2 ^ 32"
  have join: "a div 256 * 256 + a mod 256 = a" for a :: nat by simp
  have "n div 2 ^ 8 div 256 = n div 2 ^ 16" "n div 2 ^ 16 div 256 = n div 2 ^ 24"
    by (simp_all flip: div_mult2_eq)
  moreover have "n div 2 ^ 24 mod 256 = n div 2 ^ 24" using n by (simp add: div_less_iff_less_mult)
  ultimately have sum: "((n div 2 ^ 24 mod 256 * 256 + n div 2 ^ 16 mod 256) * 256 + n div 2 ^ 8 mod 256) * 256 + n mod 256 = n"
    using join [of "n div 2 ^ 16"] join [of "n div 2 ^ 8"] join [of n] by simp
  have "be32_value (be32 n) = ((n div 2 ^ 24 mod 256 * 256 + n div 2 ^ 16 mod 256) * 256 + n div 2 ^ 8 mod 256) * 256 + n mod 256"
    by (simp add: be32_value_def be32_def)
  then show ?thesis unfolding sum .
qed

lemma length_be32 [simp]: "length (be32 n) = 4"
  by (simp add: be32_def)

definition valid_message :: "message \<Rightarrow> bool" where
  "valid_message m \<longleftrightarrow> 0 \<le> mg_Version m \<and> mg_Version m \<le> 255 \<and> length (print_json (message_json m)) \<le> maxFrame"

lemma names_simps [simp]: "names ''v'' ''v''" "names ''type'' ''type''" "names ''id'' ''id''" "names ''payload'' ''payload''"
  "\<not> names ''type'' ''v''" "\<not> names ''id'' ''v''" "\<not> names ''payload'' ''v''" "\<not> names ''id'' ''type''"
  "\<not> names ''payload'' ''type''" "\<not> names ''payload'' ''id''"
  by code_simp+

lemma unmarshal_message: "valid_message m \<Longrightarrow> unmarshal set_message zero_message (message_json m) = Some m"
  by (cases m) (auto simp: valid_message_def unmarshal_def message_json_def set_message_def json_int_def json_text_def zero_message_def
      split: option.splits)

lemma Decode_Encode: "valid_message m \<Longrightarrow> Decode (Encode m @ rest) = Inr (m, rest)"
proof -
  assume v: "valid_message m"
  let ?d = "print_json (message_json m)"
  have l: "length ?d \<le> maxFrame" using v by (simp add: valid_message_def)
  then have "length ?d < 2 ^ 32" by (simp add: maxFrame_def)
  then have "be32_value (be32 (length ?d mod 2 ^ 32)) = length ?d" by (simp add: be32_value_be32)
  then show ?thesis using l v by (simp add: Decode_def Encode_def Let_def read_full_def parse_print_json unmarshal_message)
qed

text \<open>The loop that decodes until the first error, and what it has left.\<close>

lemma Decode_shorter: "Decode bs = Inr (m, rest) \<Longrightarrow> length rest < length bs"
  by (auto simp: Decode_def Let_def read_full_def split: sum.splits option.splits if_splits) linarith+

function decode_stream :: "string \<Rightarrow> message list \<times> decode_error" where
  "decode_stream bs = (case Decode bs of Inl e \<Rightarrow> ([], e)
     | Inr (m, rest) \<Rightarrow> (case decode_stream rest of (ms, e) \<Rightarrow> (m # ms, e)))"
  by pat_completeness auto
termination by (relation "measure length") (auto dest: Decode_shorter)

declare decode_stream.simps [simp del]

text \<open>C27: What is written into the connection is what is read out of it: a sequence of messages
  whose bodies fit the limit decodes to the same sequence, however the frames follow each other, up
  to the end of the stream or an incomplete last frame.\<close>

theorem frames_roundtrip:
  assumes "\<forall>m\<in>set ms. valid_message m"
  shows "decode_stream (concat (map Encode ms) @ rest) = map_prod ((@) ms) id (decode_stream rest)"
  using assms
proof (induction ms)
  case (Cons m ms)
  define bs where "bs = concat (map Encode (m # ms)) @ rest"
  have "Decode bs = Inr (m, concat (map Encode ms) @ rest)" using Cons.prems by (simp add: bs_def Decode_Encode)
  then have "decode_stream bs = map_prod ((@) (m # ms)) id (decode_stream rest)"
    using Cons by (cases "decode_stream rest") (simp add: decode_stream.simps [of bs])
  then show ?case by (simp add: bs_def map_prod_def id_def split: prod.splits)
qed (cases "decode_stream rest", simp)

lemma frames_roundtrip_witness:
  "let m = \<lparr>mg_Version = 1, mg_Type = ''ping'', mg_ID = ''a'', mg_Payload = None\<rparr> in
     decode_stream (concat (map Encode [m, m]) @ ''xy'') = ([m, m], UnexpectedEOF)"
proof -
  define m where "m = \<lparr>mg_Version = 1, mg_Type = ''ping'', mg_ID = ''a'', mg_Payload = None\<rparr>"
  have "length (print_json (message_json m)) < 100" unfolding m_def by code_simp
  then have v: "\<forall>x\<in>set [m, m]. valid_message x" by (simp add: valid_message_def maxFrame_def) (simp add: m_def)
  have "Decode ''xy'' = Inl UnexpectedEOF" by code_simp
  then have "decode_stream ''xy'' = ([], UnexpectedEOF)" by (subst decode_stream.simps) simp
  then have "decode_stream (concat (map Encode [m, m]) @ ''xy'') = ([m, m], UnexpectedEOF)"
    using frames_roundtrip [OF v, of "''xy''"] by simp
  then show ?thesis unfolding Let_def m_def .
qed

section \<open>Payloads\<close>

text \<open>\<open>DataPayload\<close> is its bytes, \<open>ExitPayload\<close> its code.\<close>

definition data_json :: "string \<Rightarrow> json" where
  "data_json d = JObj [(''data'', JStr (std_encode d))]"

definition set_data :: "string \<Rightarrow> json \<Rightarrow> string \<Rightarrow> string option" where
  "set_data k j d = (if names k ''data'' then json_bytes j d else Some d)"

definition exit_json :: "int \<Rightarrow> json" where
  "exit_json code = JObj [(''code'', JInt code)]"

definition set_exit :: "string \<Rightarrow> json \<Rightarrow> int \<Rightarrow> int option" where
  "set_exit k j code = (if names k ''code'' then json_int64 j code else Some code)"

definition resize_json :: "int \<times> int \<Rightarrow> json" where
  "resize_json wh = JObj [(''w'', JInt (fst wh)), (''h'', JInt (snd wh))]"

definition set_resize :: "string \<Rightarrow> json \<Rightarrow> int \<times> int \<Rightarrow> (int \<times> int) option" where
  "set_resize k j wh =
     (if names k ''w'' then map_option (\<lambda>w. (w, snd wh)) (json_int64 j (fst wh))
      else if names k ''h'' then map_option (\<lambda>h. (fst wh, h)) (json_int64 j (snd wh))
      else Some wh)"

record exec_payload =
  xp_Command :: "string list"
  xp_Env :: "(string \<times> string) list"
  xp_WorkDir :: string

text \<open>\<open>Marshal\<close> writes a map in the order of its keys; \<open>Unmarshal\<close> adds to the map that is there.\<close>

definition sorted_env :: "(string \<times> string) list \<Rightarrow> (string \<times> string) list" where
  "sorted_env = order_by (\<lambda>a b. text_le (fst a) (fst b))"

definition env_json :: "(string \<times> string) list \<Rightarrow> json" where
  "env_json env = JObj (map (\<lambda>(k, v). (k, JStr v)) (sorted_env env))"

fun set_env :: "(string \<times> json) list \<Rightarrow> (string \<times> string) list \<Rightarrow> (string \<times> string) list option" where
  "set_env [] env = Some env"
| "set_env ((k, j) # ms) env = (case json_text j [] of None \<Rightarrow> None | Some v \<Rightarrow> set_env ms (AList.update k v env))"

definition json_env :: "json \<Rightarrow> (string \<times> string) list \<Rightarrow> (string \<times> string) list option" where
  "json_env j env = (case j of JNull \<Rightarrow> Some [] | JObj ms \<Rightarrow> set_env ms env | _ \<Rightarrow> None)"

definition exec_json :: "exec_payload \<Rightarrow> json" where
  "exec_json p = JObj ([(''command'', JArr (map JStr (xp_Command p)))]
     @ (if xp_Env p = [] then [] else [(''env'', env_json (xp_Env p))])
     @ (if xp_WorkDir p = [] then [] else [(''workdir'', JStr (xp_WorkDir p))]))"

definition set_exec :: "string \<Rightarrow> json \<Rightarrow> exec_payload \<Rightarrow> exec_payload option" where
  "set_exec k j p =
     (if names k ''command'' then map_option (\<lambda>x. p\<lparr>xp_Command := x\<rparr>) (json_texts j (xp_Command p))
      else if names k ''env'' then map_option (\<lambda>x. p\<lparr>xp_Env := x\<rparr>) (json_env j (xp_Env p))
      else if names k ''workdir'' then map_option (\<lambda>x. p\<lparr>xp_WorkDir := x\<rparr>) (json_text j (xp_WorkDir p))
      else Some p)"

definition zero_exec :: exec_payload where
  "zero_exec = \<lparr>xp_Command = [], xp_Env = [], xp_WorkDir = []\<rparr>"

record shell_payload =
  sp_Shell :: string
  sp_Command :: "string list"

definition session_json :: "shell_payload \<Rightarrow> json" where
  "session_json p = JObj ([(''shell'', JStr (sp_Shell p))]
     @ (if sp_Command p = [] then [] else [(''command'', JArr (map JStr (sp_Command p)))]))"

definition set_session :: "string \<Rightarrow> json \<Rightarrow> shell_payload \<Rightarrow> shell_payload option" where
  "set_session k j p =
     (if names k ''shell'' then map_option (\<lambda>x. p\<lparr>sp_Shell := x\<rparr>) (json_text j (sp_Shell p))
      else if names k ''command'' then map_option (\<lambda>x. p\<lparr>sp_Command := x\<rparr>) (json_texts j (sp_Command p))
      else Some p)"

definition zero_session :: shell_payload where
  "zero_session = \<lparr>sp_Shell = [], sp_Command = []\<rparr>"

lemma payload_names [simp]: "names ''data'' ''data''" "names ''code'' ''code''" "names ''w'' ''w''" "names ''h'' ''h''"
  "\<not> names ''h'' ''w''" "names ''command'' ''command''" "names ''env'' ''env''" "names ''workdir'' ''workdir''"
  "names ''shell'' ''shell''" "\<not> names ''env'' ''command''" "\<not> names ''workdir'' ''command''" "\<not> names ''workdir'' ''env''"
  "\<not> names ''command'' ''shell''"
  by code_simp+

lemma data_round [simp]: "unmarshal set_data d' (data_json d) = Some d"
  by (simp add: unmarshal_def data_json_def set_data_def json_bytes_def std_round)

lemma exit_round [simp]: "- (2 ^ 63) \<le> code \<Longrightarrow> code < 2 ^ 63 \<Longrightarrow> unmarshal set_exit c (exit_json code) = Some code"
  by (simp add: unmarshal_def exit_json_def set_exit_def json_int64_def json_int_def)

lemma json_texts_round [simp]: "json_texts (JArr (map JStr xs)) old = Some xs"
  by (simp add: json_texts_def all_some_map [where g = id] json_text_def o_def)

lemma session_round [simp]: "unmarshal set_session zero_session (session_json p) = Some p"
  by (cases p) (auto simp: unmarshal_def session_json_def set_session_def zero_session_def json_text_def)

lemma set_env_texts:
  "distinct (map fst env) \<Longrightarrow> fst ` set env \<inter> fst ` set old = {} \<Longrightarrow>
   set_env (map (\<lambda>(k, v). (k, JStr v)) env) old = Some (old @ env)"
proof (induction env arbitrary: old)
  case (Cons kv env)
  have "AList.update (fst kv) (snd kv) old = old @ [kv]"
    using Cons.prems(2) by (induction old) (auto split: prod.splits)
  then show ?case using Cons.prems Cons.IH [of "old @ [kv]"] by (auto simp: json_text_def split: prod.splits)
qed simp

lemma distinct_map_insert_by: "distinct (map f (insert_by le r xs)) \<longleftrightarrow> f r \<notin> f ` set xs \<and> distinct (map f xs)"
  by (induction xs) auto

lemma distinct_map_order_by: "distinct (map f (order_by le xs)) = distinct (map f xs)"
  unfolding order_by_def by (induction xs) (auto simp: distinct_map_insert_by set_order_by [unfolded order_by_def])

lemma map_of_same_set: "distinct (map fst xs) \<Longrightarrow> distinct (map fst ys) \<Longrightarrow> set xs = set ys \<Longrightarrow> map_of xs = map_of ys"
  by (metis map_of_eqI map_of_eq_Some_iff ext not_Some_eq set_map)

lemma exec_round:
  assumes "distinct (map fst (xp_Env p))"
  shows "\<exists>e. unmarshal set_exec zero_exec (exec_json p) = Some (p\<lparr>xp_Env := e\<rparr>) \<and> map_of e = map_of (xp_Env p)"
proof -
  let ?e = "sorted_env (xp_Env p)"
  have d: "distinct (map fst ?e)" using assms by (simp add: sorted_env_def distinct_map_order_by)
  have "json_env (env_json (xp_Env p)) [] = Some ?e"
    using set_env_texts [OF d, of "[]"] by (simp add: json_env_def env_json_def)
  moreover have "map_of ?e = map_of (xp_Env p)" using d assms by (rule map_of_same_set) (simp add: sorted_env_def)
  ultimately show ?thesis
    by (intro exI [of _ "if xp_Env p = [] then [] else ?e"])
       (cases p; auto simp: unmarshal_def exec_json_def set_exec_def zero_exec_def json_text_def)
qed

text \<open>Output is sent in pieces of 32 KiB, and a frame with one is far below the limit.\<close>

lemma length_b64: "3 * length (b64_sextets bs) \<le> 4 * length bs + 2"
  by (induction bs rule: b64_sextets.induct) auto

lemma length_print_string: "length (print_string s) \<le> 6 * length s + 2"
proof -
  have "length (escape c) \<le> 6" for c by (simp add: escape_def Let_def)
  then have "length (concat (map escape s)) \<le> 6 * length s"
    by (induction s) (auto simp: add_mono)
  then show ?thesis by (simp add: print_string_def)
qed

definition data_message :: "string \<Rightarrow> string \<Rightarrow> string \<Rightarrow> message" where
  "data_message t i d = \<lparr>mg_Version = ProtocolVersion, mg_Type = t, mg_ID = i, mg_Payload = Some (data_json d)\<rparr>"

lemma data_frame_fits:
  assumes "length d \<le> 32 * 1024" "length i \<le> 64" "length t \<le> 8"
  shows "valid_message (data_message t i d)"
proof -
  have "length (std_encode d) \<le> 44000"
    using length_b64 [of "map of_char d"] assms(1) mod_less_divisor [of 3 "3 - length d mod 3"]
    unfolding std_encode_def by (simp only: length_append length_map length_replicate)
  then have "length (print_string (std_encode d)) \<le> 264002" using length_print_string [of "std_encode d"] by linarith
  moreover have "length (print_string i) \<le> 386" using length_print_string [of i] assms(2) by linarith
  moreover have "length (print_string t) \<le> 50" using length_print_string [of t] assms(3) by linarith
  moreover have "length (print_string ''v'') = 3" "length (print_string ''type'') = 6" "length (print_string ''id'') = 4"
    "length (print_string ''payload'') = 9" "length (print_string ''data'') = 6" "length (itoa 1) = 1" by code_simp+
  ultimately show ?thesis
    by (simp add: valid_message_def data_message_def message_json_def data_json_def ProtocolVersion_def maxFrame_def)
qed

end
