(* ===== verification/Mux.thy ===== *)
theory Mux imports Wire "HOL-Library.Sublist" begin

text \<open>
  The daemon's end of a guest connection (\<open>internal/provider/firecracker/vsock/client.go\<close>): one
  read loop hands every message to the channel of its operation, one goroutine per operation takes
  messages out of the channel and passes output on to one goroutine per stream, which writes it into
  a pipe for the caller.  Each goroutine is a program counter, each channel a list with its
  capacity, and an event is one atomic step; a step that would block is not enabled.
\<close>

section \<open>Message types\<close>

definition TypePing :: string where "TypePing = ''ping''"
definition TypePong :: string where "TypePong = ''pong''"
definition TypeExec :: string where "TypeExec = ''exec''"
definition TypeSession :: string where "TypeSession = ''session''"
definition TypeStdout :: string where "TypeStdout = ''stdout''"
definition TypeStderr :: string where "TypeStderr = ''stderr''"
definition TypeStdin :: string where "TypeStdin = ''stdin''"
definition TypeExit :: string where "TypeExit = ''exit''"
definition TypeResize :: string where "TypeResize = ''resize''"
definition TypeSignal :: string where "TypeSignal = ''signal''"

lemmas message_types = TypePing_def TypePong_def TypeExec_def TypeSession_def TypeStdout_def TypeStderr_def TypeStdin_def
  TypeExit_def TypeResize_def TypeSignal_def

text \<open>\<open>Unmarshal\<close> of a payload; an absent one is the empty text, which is no JSON.\<close>

definition payload :: "(string \<Rightarrow> json \<Rightarrow> 'r \<Rightarrow> 'r option) \<Rightarrow> 'r \<Rightarrow> message \<Rightarrow> 'r option" where
  "payload put z m = (case mg_Payload m of None \<Rightarrow> None | Some j \<Rightarrow> unmarshal put z j)"

section \<open>The writer of a stream\<close>

text \<open>
  The channel of 256 pieces, whether it is closed, the goroutine, whether the caller has closed its
  end of the pipe, and what the caller has read.  \<open>pm_taken\<close> is history: the pieces that have left
  the channel.
\<close>

datatype writer = Idle | Writing string | Draining | Closed

record pump =
  pm_queue :: "string list"
  pm_shut :: bool
  pm_writer :: writer
  pm_gone :: bool
  pm_read :: string
  pm_taken :: "string list"

definition new_pump :: pump where
  "new_pump = \<lparr>pm_queue = [], pm_shut = False, pm_writer = Idle, pm_gone = False, pm_read = [], pm_taken = []\<rparr>"

definition dataCap :: nat where "dataCap = 256"

definition pump_put :: "string \<Rightarrow> pump \<Rightarrow> pump option" where
  "pump_put d p = (if length (pm_queue p) < dataCap then Some (p\<lparr>pm_queue := pm_queue p @ [d]\<rparr>) else None)"

text \<open>\<open>for data := range stdoutData\<close>: take a piece, or see that the channel is closed and empty.\<close>

definition pump_take :: "pump \<Rightarrow> pump option" where
  "pump_take p =
     (if pm_writer p \<noteq> Idle \<and> pm_writer p \<noteq> Draining then None
      else (case pm_queue p of
        d # q \<Rightarrow> Some (p\<lparr>pm_queue := q, pm_taken := pm_taken p @ [d],
                   pm_writer := (if pm_writer p = Idle then Writing d else Draining)\<rparr>)
      | [] \<Rightarrow> if pm_shut p then Some (p\<lparr>pm_writer := Closed\<rparr>) else None))"

text \<open>A pipe hands over at most what the caller asks for; the write returns when all is read.\<close>

definition pump_read :: "nat \<Rightarrow> pump \<Rightarrow> pump option" where
  "pump_read k p = (case pm_writer p of
     Writing d \<Rightarrow>
       if pm_gone p \<or> k = 0 then None
       else Some (p\<lparr>pm_read := pm_read p @ take k d, pm_writer := (if length d \<le> k then Idle else Writing (drop k d))\<rparr>)
   | _ \<Rightarrow> None)"

text \<open>After the caller has closed its end, a write fails and the rest is drained.\<close>

definition pump_fail :: "pump \<Rightarrow> pump option" where
  "pump_fail p = (case pm_writer p of
     Writing d \<Rightarrow> if pm_gone p then Some (p\<lparr>pm_writer := Draining\<rparr>) else None
   | _ \<Rightarrow> None)"

datatype pump_event = Take | Read nat | Fail

fun pump_fire :: "pump_event \<Rightarrow> pump \<Rightarrow> pump option" where
  "pump_fire Take p = pump_take p"
| "pump_fire (Read k) p = pump_read k p"
| "pump_fire Fail p = pump_fail p"

section \<open>An operation\<close>

datatype op_kind = Ping | Exec | Session
datatype dispatch = Waiting | PutOut string | PutErr string | Ended
datatype op_error = ConnectionLost | ClientClosed | TimedOut | BadExit | Unexpected string

text \<open>
  \<open>op_reg\<close>: the handler map has the channel; \<open>op_lost\<close>: the channel is closed.  The result is what
  \<open>Ping\<close> returns or \<open>Wait\<close> finds.  \<open>op_seen\<close> is history: the messages taken out of the channel.
\<close>

record op =
  op_kind :: op_kind
  op_id :: string
  op_chan :: "message list"
  op_reg :: bool
  op_lost :: bool
  op_state :: dispatch
  op_out :: pump
  op_err :: pump
  op_result :: "(op_error + int) option"
  op_seen :: "message list"

definition chanCap :: nat where "chanCap = 32"

definition new_op :: "op_kind \<Rightarrow> string \<Rightarrow> op" where
  "new_op k i = \<lparr>op_kind = k, op_id = i, op_chan = [], op_reg = True, op_lost = False, op_state = Waiting,
     op_out = new_pump, op_err = new_pump, op_result = None, op_seen = []\<rparr>"

text \<open>The deferred calls of the dispatching goroutine: both channels are closed, then the handler goes; receiving
  the message that ends the operation and taking the handler away are one step here.\<close>

definition op_end :: "(op_error + int) option \<Rightarrow> op \<Rightarrow> op" where
  "op_end r p = p\<lparr>op_state := Ended, op_result := r, op_reg := False,
     op_out := (op_out p)\<lparr>pm_shut := True\<rparr>, op_err := (op_err p)\<lparr>pm_shut := True\<rparr>\<rparr>"

fun ping_recv :: "message \<Rightarrow> op \<Rightarrow> op" where
  "ping_recv m p = op_end (Some (if mg_Type m = TypePong then Inr 0 else Inl (Unexpected (mg_Type m)))) p"

fun exec_recv :: "message \<Rightarrow> op \<Rightarrow> op" where
  "exec_recv m p =
     (if mg_Type m = TypeStdout then
        (case payload set_data [] m of None \<Rightarrow> p | Some d \<Rightarrow> p\<lparr>op_state := PutOut d\<rparr>)
      else if mg_Type m = TypeStderr then
        (case payload set_data [] m of None \<Rightarrow> p | Some d \<Rightarrow> p\<lparr>op_state := PutErr d\<rparr>)
      else if mg_Type m = TypeExit then
        (case payload set_exit 0 m of None \<Rightarrow> op_end (Some (Inl BadExit)) p | Some c \<Rightarrow> op_end (Some (Inr c)) p)
      else p)"

fun session_recv :: "message \<Rightarrow> op \<Rightarrow> op" where
  "session_recv m p =
     (if mg_Type m = TypeStdout then
        (case payload set_data [] m of None \<Rightarrow> p | Some d \<Rightarrow> p\<lparr>op_state := PutOut d\<rparr>)
      else if mg_Type m = TypeExit then op_end None p
      else p)"

definition recv :: "message \<Rightarrow> op \<Rightarrow> op" where
  "recv m p = (case op_kind p of Ping \<Rightarrow> ping_recv m p | Exec \<Rightarrow> exec_recv m p | Session \<Rightarrow> session_recv m p)"

definition op_recv :: "op \<Rightarrow> op option" where
  "op_recv p = (if op_state p \<noteq> Waiting then None
     else (case op_chan p of [] \<Rightarrow> None
           | m # ms \<Rightarrow> Some (recv m (p\<lparr>op_chan := ms, op_seen := op_seen p @ [m]\<rparr>))))"

text \<open>The other ways out of the select: the channel is closed and empty, the client is closed, time is up.\<close>

definition give_up :: "op_error \<Rightarrow> op \<Rightarrow> op" where
  "give_up e p = op_end (if op_kind p = Session then None else Some (Inl e)) p"

definition op_disconnect :: "op \<Rightarrow> op option" where
  "op_disconnect p = (if op_state p = Waiting \<and> op_chan p = [] \<and> op_lost p then Some (give_up ConnectionLost p) else None)"

definition op_done :: "bool \<Rightarrow> op \<Rightarrow> op option" where
  "op_done closed p = (if op_state p = Waiting \<and> closed then Some (give_up ClientClosed p) else None)"

definition op_timeout :: "op \<Rightarrow> op option" where
  "op_timeout p = (if op_state p = Waiting \<and> op_kind p = Ping then Some (give_up TimedOut p) else None)"

definition op_put :: "op \<Rightarrow> op option" where
  "op_put p = (case op_state p of
     PutOut d \<Rightarrow> map_option (\<lambda>q. p\<lparr>op_out := q, op_state := Waiting\<rparr>) (pump_put d (op_out p))
   | PutErr d \<Rightarrow> map_option (\<lambda>q. p\<lparr>op_err := q, op_state := Waiting\<rparr>) (pump_put d (op_err p))
   | _ \<Rightarrow> None)"

datatype op_event = Recv | Disconnect | SeeDone | Timeout | Put | OnOut pump_event | OnErr pump_event | CloseOut | CloseErr

fun op_fire :: "bool \<Rightarrow> op_event \<Rightarrow> op \<Rightarrow> op option" where
  "op_fire closed Recv p = op_recv p"
| "op_fire closed Disconnect p = op_disconnect p"
| "op_fire closed SeeDone p = op_done closed p"
| "op_fire closed Timeout p = op_timeout p"
| "op_fire closed Put p = op_put p"
| "op_fire closed (OnOut e) p = map_option (\<lambda>q. p\<lparr>op_out := q\<rparr>) (pump_fire e (op_out p))"
| "op_fire closed (OnErr e) p = map_option (\<lambda>q. p\<lparr>op_err := q\<rparr>) (pump_fire e (op_err p))"
| "op_fire closed CloseOut p = Some (p\<lparr>op_out := (op_out p)\<lparr>pm_gone := True\<rparr>\<rparr>)"
| "op_fire closed CloseErr p = Some (p\<lparr>op_err := (op_err p)\<lparr>pm_gone := True\<rparr>\<rparr>)"

section \<open>The client\<close>

text \<open>\<open>Holding i m\<close>: the loop is at its send of \<open>m\<close> into the channel of operation \<open>i\<close>.\<close>

datatype loop = Reading | Decoded message | Holding nat message | Stopped

text \<open>
  What the connection will still deliver and whether it ends after that, the read loop, whether
  \<open>Close\<close> was called, and the operations in the order they were started.  \<open>mx_arrived\<close> is history:
  all that ever came in.
\<close>

record mux =
  mx_in :: "message list"
  mx_ended :: bool
  mx_loop :: loop
  mx_closed :: bool
  mx_ops :: "op list"
  mx_arrived :: "message list"

definition NewClientFromConn :: mux where
  "NewClientFromConn = \<lparr>mx_in = [], mx_ended = False, mx_loop = Reading, mx_closed = False, mx_ops = [], mx_arrived = []\<rparr>"

definition find_op :: "string \<Rightarrow> op list \<Rightarrow> nat option" where
  "find_op i ps = find (\<lambda>n. op_reg (ps ! n) \<and> op_id (ps ! n) = i) [0..<length ps]"

definition loop_read :: "mux \<Rightarrow> mux option" where
  "loop_read s = (if mx_loop s \<noteq> Reading then None
     else (case mx_in s of [] \<Rightarrow> None | m # ms \<Rightarrow> Some (s\<lparr>mx_in := ms, mx_loop := Decoded m\<rparr>)))"

definition loop_lookup :: "mux \<Rightarrow> mux option" where
  "loop_lookup s = (case mx_loop s of
     Decoded m \<Rightarrow> Some (s\<lparr>mx_loop := (case find_op (mg_ID m) (mx_ops s) of None \<Rightarrow> Reading | Some i \<Rightarrow> Holding i m)\<rparr>)
   | _ \<Rightarrow> None)"

definition loop_deliver :: "mux \<Rightarrow> mux option" where
  "loop_deliver s = (case mx_loop s of
     Holding i m \<Rightarrow>
       let p = mx_ops s ! i in
       if length (op_chan p) < chanCap
       then Some (s\<lparr>mx_ops := (mx_ops s)[i := p\<lparr>op_chan := op_chan p @ [m]\<rparr>], mx_loop := Reading\<rparr>)
       else None
   | _ \<Rightarrow> None)"

text \<open>The deferred \<open>closeAllHandlers\<close>.\<close>

definition closeAllHandlers :: "op list \<Rightarrow> op list" where
  "closeAllHandlers = map (\<lambda>p. if op_reg p then p\<lparr>op_reg := False, op_lost := True\<rparr> else p)"

definition loop_stop :: "mux \<Rightarrow> mux option" where
  "loop_stop s = (if (case mx_loop s of Holding i m \<Rightarrow> mx_closed s | Reading \<Rightarrow> mx_in s = [] \<and> mx_ended s | _ \<Rightarrow> False)
     then Some (s\<lparr>mx_loop := Stopped, mx_ops := closeAllHandlers (mx_ops s)\<rparr>) else None)"

text \<open>
  Events of the loop and the operations; then what comes from outside: a request is registered and
  sent under an id that is new (a UUID), the peer sends a message or hangs up, \<open>Close\<close> is called.
\<close>

datatype event = LoopRead | LoopLookup | LoopDeliver | LoopStop | OnOp nat op_event
  | Start op_kind string | Arrive message | HangUp | CloseClient

fun fire :: "event \<Rightarrow> mux \<Rightarrow> mux option" where
  "fire LoopRead s = loop_read s"
| "fire LoopLookup s = loop_lookup s"
| "fire LoopDeliver s = loop_deliver s"
| "fire LoopStop s = loop_stop s"
| "fire (OnOp i e) s = (if i < length (mx_ops s)
     then map_option (\<lambda>p. s\<lparr>mx_ops := (mx_ops s)[i := p]\<rparr>) (op_fire (mx_closed s) e (mx_ops s ! i)) else None)"
| "fire (Start k i) s = (if i \<in> op_id ` set (mx_ops s) \<or> i \<in> mg_ID ` set (mx_arrived s) then None
     else Some (s\<lparr>mx_ops := mx_ops s @ [new_op k i]\<rparr>))"
| "fire (Arrive m) s = (if mx_ended s then None else Some (s\<lparr>mx_in := mx_in s @ [m], mx_arrived := mx_arrived s @ [m]\<rparr>))"
| "fire HangUp s = Some (s\<lparr>mx_ended := True\<rparr>)"
| "fire CloseClient s = Some (s\<lparr>mx_closed := True, mx_ended := True, mx_in := []\<rparr>)"

inductive reached :: "mux \<Rightarrow> bool" where
  New: "reached NewClientFromConn"
| Step: "reached s \<Longrightarrow> fire e s = Some s' \<Longrightarrow> reached s'"

fun fires :: "event list \<Rightarrow> mux \<Rightarrow> mux option" where
  "fires [] s = Some s"
| "fires (e # es) s = (case fire e s of None \<Rightarrow> None | Some s' \<Rightarrow> fires es s')"

lemma reached_fires: "reached s \<Longrightarrow> fires es s = Some s' \<Longrightarrow> reached s'"
  by (induction es arbitrary: s) (auto split: option.splits intro: reached.Step)

section \<open>Streams\<close>

text \<open>What a pump has been fed, and what of it is not read: nothing is lost while the caller reads.\<close>

definition fed :: "pump \<Rightarrow> string list" where
  "fed p = pm_taken p @ pm_queue p"

definition pump_ok :: "pump \<Rightarrow> bool" where
  "pump_ok p \<longleftrightarrow> length (pm_queue p) \<le> dataCap \<and> prefix (pm_read p) (concat (pm_taken p)) \<and>
     (case pm_writer p of
        Idle \<Rightarrow> pm_read p = concat (pm_taken p)
      | Writing d \<Rightarrow> pm_read p @ d = concat (pm_taken p) \<and> (pm_read p = [] \<longrightarrow> pm_taken p \<noteq> [] \<and> concat (butlast (pm_taken p)) = [])
      | Draining \<Rightarrow> pm_gone p
      | Closed \<Rightarrow> pm_shut p \<and> pm_queue p = [] \<and> (pm_gone p \<or> pm_read p = concat (pm_taken p)))"

lemma pump_ok_new [simp]: "pump_ok new_pump" "fed new_pump = []" "\<not> pm_shut new_pump"
  by (simp_all add: pump_ok_def new_pump_def fed_def)

lemma pump_ok_flags [simp]: "pump_ok p \<Longrightarrow> pump_ok (p\<lparr>pm_shut := True\<rparr>)" "pump_ok p \<Longrightarrow> pump_ok (p\<lparr>pm_gone := True\<rparr>)"
  "fed (p\<lparr>pm_shut := True\<rparr>) = fed p" "fed (p\<lparr>pm_gone := True\<rparr>) = fed p"
  by (auto simp: pump_ok_def fed_def split: writer.splits)

lemma pump_put: "pump_put d p = Some q \<Longrightarrow> pump_ok p \<Longrightarrow> \<not> pm_shut p \<Longrightarrow> pump_ok q \<and> fed q = fed p @ [d] \<and> \<not> pm_shut q"
  by (auto simp: pump_put_def pump_ok_def fed_def dataCap_def split: if_splits writer.splits)

lemma pump_take: "pump_take p = Some q \<Longrightarrow> pump_ok p \<Longrightarrow> pump_ok q \<and> fed q = fed p \<and> pm_shut q = pm_shut p"
  by (auto simp: pump_take_def pump_ok_def fed_def prefix_def split: if_splits list.splits writer.splits)

lemma pump_read: "pump_read k p = Some q \<Longrightarrow> pump_ok p \<Longrightarrow> pump_ok q \<and> fed q = fed p \<and> pm_shut q = pm_shut p"
proof -
  assume a: "pump_read k p = Some q" "pump_ok p"
  then obtain d where d: "pm_writer p = Writing d" "pm_read p @ d = concat (pm_taken p)" "k \<noteq> 0"
    and q: "q = p\<lparr>pm_read := pm_read p @ take k d, pm_writer := (if length d \<le> k then Idle else Writing (drop k d))\<rparr>"
    by (auto simp: pump_read_def pump_ok_def split: writer.splits if_splits)
  have "pm_read p @ take k d @ drop k d = concat (pm_taken p)" using d by simp
  then have "prefix (pm_read p @ take k d) (concat (pm_taken p))" by (metis append.assoc prefixI)
  then show ?thesis using a(2) d by (auto simp: q pump_ok_def fed_def)
qed

lemma pump_fail: "pump_fail p = Some q \<Longrightarrow> pump_ok p \<Longrightarrow> pump_ok q \<and> fed q = fed p \<and> pm_shut q = pm_shut p"
  by (auto simp: pump_fail_def pump_ok_def fed_def split: if_splits writer.splits)

lemma pump_fire: "pump_fire e p = Some q \<Longrightarrow> pump_ok p \<Longrightarrow> pump_ok q \<and> fed q = fed p \<and> pm_shut q = pm_shut p"
  by (cases e) (simp_all add: pump_take pump_read pump_fail)

text \<open>A writer that has something to do has a step, and one that has none has closed the pipe.\<close>

definition pump_idle :: "pump \<Rightarrow> bool" where
  "pump_idle p \<longleftrightarrow> pump_take p = None \<and> (\<forall>k. pump_read k p = None) \<and> pump_fail p = None"

lemma pump_idle_empty: "pump_idle p \<Longrightarrow> pump_ok p \<Longrightarrow> pm_queue p = []"
  by (auto simp: pump_idle_def pump_take_def pump_read_def pump_fail_def pump_ok_def split: writer.splits list.splits if_splits)

lemma pump_idle_shut: "pump_idle p \<Longrightarrow> pump_ok p \<Longrightarrow> pm_shut p \<Longrightarrow> pm_writer p = Closed"
  by (auto simp: pump_idle_def pump_take_def pump_read_def pump_fail_def pump_ok_def split: writer.splits list.splits if_splits)

lemma pump_closed: "pump_ok p \<Longrightarrow> pm_writer p = Closed \<Longrightarrow> \<not> pm_gone p \<Longrightarrow> pm_read p = concat (fed p)"
  by (auto simp: pump_ok_def fed_def)

lemma pump_prefix: "pump_ok p \<Longrightarrow> prefix (pm_read p) (concat (fed p))"
  by (auto simp: pump_ok_def fed_def prefix_def)

text \<open>Of pieces that are not empty, none read means one taken and a full channel at most.\<close>

lemma pump_unread:
  assumes "pump_ok p" "pm_read p = []" "\<not> pm_gone p" "\<forall>d\<in>set (fed p). d \<noteq> []"
  shows "length (fed p) \<le> Suc dataCap"
proof -
  have "length (pm_taken p) \<le> 1"
  proof (cases "pm_taken p" rule: rev_cases)
    case (snoc ds d)
    have "ds \<noteq> [] \<Longrightarrow> concat ds \<noteq> []" using assms(4) snoc by (cases ds) (auto simp: fed_def)
    moreover have "d \<noteq> []" using assms(4) snoc by (simp add: fed_def)
    ultimately show ?thesis using assms snoc by (auto simp: pump_ok_def split: writer.splits)
  qed simp
  then show ?thesis using assms(1) by (auto simp: pump_ok_def fed_def)
qed

section \<open>What an operation has made of its messages\<close>

definition before_exit :: "message list \<Rightarrow> message list" where
  "before_exit = takeWhile (\<lambda>m. mg_Type m \<noteq> TypeExit)"

definition outputs :: "string \<Rightarrow> message list \<Rightarrow> string list" where
  "outputs t ms = List.map_filter (\<lambda>m. if mg_Type m = t then payload set_data [] m else None) (before_exit ms)"

definition exited :: "message list \<Rightarrow> bool" where
  "exited ms \<longleftrightarrow> TypeExit \<in> mg_Type ` set ms"

definition verdict :: "message list \<Rightarrow> (op_error + int) option" where
  "verdict ms = map_option (\<lambda>m. case payload set_exit 0 m of None \<Rightarrow> Inl BadExit | Some c \<Rightarrow> Inr c)
     (find (\<lambda>m. mg_Type m = TypeExit) ms)"

lemma exited_simps [simp]: "\<not> exited []" "exited (ms @ ns) \<longleftrightarrow> exited ms \<or> exited ns"
  by (auto simp: exited_def)

lemma verdict_exited: "verdict ms \<noteq> None \<longleftrightarrow> exited ms"
  by (induction ms) (auto simp: verdict_def exited_def)

lemma verdict_append [simp]: "verdict (ms @ ns) = (if exited ms then verdict ms else verdict ns)"
  by (induction ms) (auto simp: verdict_def exited_def)

lemma outputs_append [simp]: "outputs t (ms @ ns) = outputs t ms @ (if exited ms then [] else outputs t ns)"
  by (induction ms) (auto simp: outputs_def before_exit_def exited_def List.map_filter_def)

lemma outputs_single: "t \<noteq> TypeExit \<Longrightarrow> outputs t [m] = (if mg_Type m = t then (case payload set_data [] m of None \<Rightarrow> [] | Some d \<Rightarrow> [d]) else [])"
  by (auto simp: outputs_def before_exit_def List.map_filter_def split: option.splits)

lemma outputs_Nil [simp]: "outputs t [] = []"
  by (simp add: outputs_def before_exit_def List.map_filter_def)

definition out_pending :: "op \<Rightarrow> string list" where
  "out_pending p = (case op_state p of PutOut d \<Rightarrow> [d] | _ \<Rightarrow> [])"

definition err_pending :: "op \<Rightarrow> string list" where
  "err_pending p = (case op_state p of PutErr d \<Rightarrow> [d] | _ \<Rightarrow> [])"

definition settled :: "(op_error + int) option \<Rightarrow> message list \<Rightarrow> bool" where
  "settled r ms \<longleftrightarrow> (if r \<in> {None, Some (Inl ConnectionLost), Some (Inl ClientClosed)} then \<not> exited ms else r = verdict ms)"

definition op_ok :: "op \<Rightarrow> bool" where
  "op_ok p \<longleftrightarrow> pump_ok (op_out p) \<and> pump_ok (op_err p) \<and>
     pm_shut (op_out p) = (op_state p = Ended) \<and> pm_shut (op_err p) = (op_state p = Ended) \<and>
     (op_state p \<noteq> Ended \<longrightarrow> op_result p = None \<and> (op_kind p \<noteq> Ping \<longrightarrow> \<not> exited (op_seen p))) \<and>
     (op_kind p \<noteq> Ping \<longrightarrow> outputs TypeStdout (op_seen p) = fed (op_out p) @ out_pending p) \<and>
     (op_kind p = Exec \<longrightarrow> outputs TypeStderr (op_seen p) = fed (op_err p) @ err_pending p \<and>
        (op_state p = Ended \<longrightarrow> op_result p \<noteq> None) \<and>
        settled (op_result p) (op_seen p))"

lemma type_distinct [simp]: "TypeStdout \<noteq> TypeExit" "TypeStderr \<noteq> TypeExit" "TypeStdout \<noteq> TypeStderr" "TypeStderr \<noteq> TypeStdout"
  "TypeExit \<noteq> TypeStdout" "TypeExit \<noteq> TypeStderr"
  by (simp_all add: message_types)

lemma exited_single [simp]: "exited [m] \<longleftrightarrow> mg_Type m = TypeExit"
  by (simp add: exited_def eq_commute)

lemma verdict_single: "mg_Type m = TypeExit \<Longrightarrow> verdict [m] = Some (case payload set_exit 0 m of None \<Rightarrow> Inl BadExit | Some c \<Rightarrow> Inr c)"
  by (simp add: verdict_def)

lemma op_ok_new: "op_ok (new_op k i)"
  by (simp add: op_ok_def new_op_def out_pending_def err_pending_def settled_def)

lemma settled_simps [simp]: "settled None ms \<longleftrightarrow> \<not> exited ms" "settled (Some (Inr c)) ms \<longleftrightarrow> verdict ms = Some (Inr c)"
  "settled (Some (Inl BadExit)) ms \<longleftrightarrow> verdict ms = Some (Inl BadExit)"
  "settled (Some (Inl ConnectionLost)) ms \<longleftrightarrow> \<not> exited ms" "settled (Some (Inl ClientClosed)) ms \<longleftrightarrow> \<not> exited ms"
  by (auto simp: settled_def)

lemma op_ok_give_up:
  "op_ok p \<Longrightarrow> op_state p = Waiting \<Longrightarrow> e = ConnectionLost \<or> e = ClientClosed \<or> op_kind p = Ping \<Longrightarrow> op_ok (give_up e p)"
  by (auto simp: op_ok_def op_end_def out_pending_def err_pending_def give_up_def)

lemma op_ok_recv: "op_ok p \<Longrightarrow> op_recv p = Some q \<Longrightarrow> op_ok q"
proof -
  assume a: "op_ok p" "op_recv p = Some q"
  then obtain m ms where p: "op_state p = Waiting" "op_chan p = m # ms" and q: "q = recv m (p\<lparr>op_chan := ms, op_seen := op_seen p @ [m]\<rparr>)"
    by (auto simp: op_recv_def split: if_splits list.splits)
  note unfolded = op_ok_def op_end_def out_pending_def err_pending_def outputs_single verdict_single recv_def
  show ?thesis
  proof (cases "op_kind p")
    case Exec
    then show ?thesis using a(1) p by (simp add: q unfolded split: option.split)
  qed (use a(1) p in \<open>simp_all add: q unfolded split: option.split\<close>)
qed

lemma op_ok_put: "op_ok p \<Longrightarrow> op_put p = Some q \<Longrightarrow> op_ok q"
proof -
  assume a: "op_ok p" "op_put p = Some q"
  then consider (out) d x where "op_state p = PutOut d" "pump_put d (op_out p) = Some x" "q = p\<lparr>op_out := x, op_state := Waiting\<rparr>"
    | (err) d x where "op_state p = PutErr d" "pump_put d (op_err p) = Some x" "q = p\<lparr>op_err := x, op_state := Waiting\<rparr>"
    by (auto simp: op_put_def split: dispatch.splits)
  then show ?thesis
  proof cases
    case out
    then show ?thesis using a(1) pump_put [OF out(2)] by (simp add: op_ok_def out_pending_def err_pending_def)
  next
    case err
    then show ?thesis using a(1) pump_put [OF err(2)] by (simp add: op_ok_def out_pending_def err_pending_def)
  qed
qed

lemma op_ok_fire: "op_ok p \<Longrightarrow> op_fire c e p = Some q \<Longrightarrow> op_ok q"
proof (induction e)
  case (OnOut x)
  then obtain y where "pump_fire x (op_out p) = Some y" "q = p\<lparr>op_out := y\<rparr>" by auto
  then show ?case using OnOut.prems(1) pump_fire [of x "op_out p" y] by (simp add: op_ok_def out_pending_def err_pending_def)
next
  case (OnErr x)
  then obtain y where "pump_fire x (op_err p) = Some y" "q = p\<lparr>op_err := y\<rparr>" by auto
  then show ?case using OnErr.prems(1) pump_fire [of x "op_err p" y] by (simp add: op_ok_def out_pending_def err_pending_def)
next
  case CloseOut
  then have "q = p\<lparr>op_out := (op_out p)\<lparr>pm_gone := True\<rparr>\<rparr>" by simp
  then show ?case using CloseOut.prems(1) by (simp add: op_ok_def out_pending_def err_pending_def)
next
  case CloseErr
  then have "q = p\<lparr>op_err := (op_err p)\<lparr>pm_gone := True\<rparr>\<rparr>" by simp
  then show ?case using CloseErr.prems(1) by (simp add: op_ok_def out_pending_def err_pending_def)
next
  case Disconnect
  then show ?case using op_ok_give_up [of p ConnectionLost] by (simp add: op_disconnect_def split: if_splits)
next
  case SeeDone
  then show ?case using op_ok_give_up [of p ClientClosed] by (simp add: op_done_def split: if_splits)
next
  case Timeout
  then show ?case using op_ok_give_up [of p TimedOut] by (simp add: op_timeout_def split: if_splits)
next
  case Recv
  then show ?case using op_ok_recv [of p q] by simp
next
  case Put
  then show ?case using op_ok_put [of p q] by simp
qed

section \<open>The connection\<close>

definition decoded :: "loop \<Rightarrow> message list" where
  "decoded l = (case l of Decoded m \<Rightarrow> [m] | _ \<Rightarrow> [])"

lemma decoded_simps [simp]: "decoded (Decoded m) = [m]" "decoded Reading = []" "decoded Stopped = []" "decoded (Holding i m) = []"
  by (simp_all add: decoded_def)

definition pending :: "mux \<Rightarrow> message list" where
  "pending s = decoded (mx_loop s) @ mx_in s"

definition held :: "loop \<Rightarrow> nat \<Rightarrow> message list" where
  "held l i = (case l of Holding j m \<Rightarrow> if j = i then [m] else [] | _ \<Rightarrow> [])"

text \<open>All that the peer has sent for an id.\<close>

definition sent :: "string \<Rightarrow> message list \<Rightarrow> message list" where
  "sent i ms = filter (\<lambda>m. mg_ID m = i) ms"

definition due :: "loop \<Rightarrow> op \<Rightarrow> message list" where
  "due l p = (if op_reg p then sent (op_id p) (decoded l) else [])"

definition op_flags :: "bool \<Rightarrow> loop \<Rightarrow> op \<Rightarrow> bool" where
  "op_flags closed l p \<longleftrightarrow> (op_reg p \<longrightarrow> op_state p \<noteq> Ended) \<and> (\<not> op_reg p \<and> \<not> op_lost p \<longrightarrow> op_state p = Ended) \<and>
     (op_lost p \<longrightarrow> \<not> op_reg p \<and> l = Stopped) \<and> length (op_chan p) \<le> chanCap \<and>
     (op_result p = Some (Inl ConnectionLost) \<longrightarrow> op_lost p \<and> op_chan p = []) \<and>
     (op_result p = Some (Inl ClientClosed) \<longrightarrow> closed) \<and>
     (op_kind p = Session \<and> op_state p = Ended \<longrightarrow> exited (op_seen p) \<or> op_lost p \<and> op_chan p = [] \<or> closed)"

definition op_flow :: "mux \<Rightarrow> nat \<Rightarrow> op \<Rightarrow> bool" where
  "op_flow s i p \<longleftrightarrow> (let got = op_seen p @ op_chan p @ held (mx_loop s) i in
     prefix (got @ due (mx_loop s) p) (sent (op_id p) (mx_arrived s)) \<and>
     (\<not> mx_closed s \<and> (op_reg p \<or> op_lost p) \<longrightarrow> sent (op_id p) (mx_arrived s) = got @ sent (op_id p) (pending s)))"

definition mux_ok :: "mux \<Rightarrow> bool" where
  "mux_ok s \<longleftrightarrow> distinct (map op_id (mx_ops s)) \<and>
     (\<forall>i<length (mx_ops s). op_ok (mx_ops s ! i) \<and> op_flags (mx_closed s) (mx_loop s) (mx_ops s ! i) \<and> op_flow s i (mx_ops s ! i)) \<and>
     (\<forall>i m. mx_loop s = Holding i m \<longrightarrow> i < length (mx_ops s) \<and> mg_ID m = op_id (mx_ops s ! i)) \<and>
     (mx_closed s \<longrightarrow> mx_ended s \<and> mx_in s = []) \<and> (mx_loop s = Stopped \<longrightarrow> mx_ended s \<and> mx_in s = []) \<and>
     suffix (mx_in s) (mx_arrived s) \<and> set (pending s) \<subseteq> set (mx_arrived s)"

lemma sent_simps [simp]: "sent i [] = []" "sent i (ms @ ns) = sent i ms @ sent i ns"
  "sent i (m # ms) = (if mg_ID m = i then m # sent i ms else sent i ms)"
  by (simp_all add: sent_def)

lemma sent_none: "i \<notin> mg_ID ` set ms \<Longrightarrow> sent i ms = []"
  by (auto simp: sent_def filter_empty_conv)

lemma due_simps [simp]: "due Reading p = []" "due Stopped p = []" "due (Holding i m) p = []" "\<not> op_reg p \<Longrightarrow> due l p = []"
  "due (Decoded m) p = (if op_reg p \<and> mg_ID m = op_id p then [m] else [])"
  by (simp_all add: due_def)

lemma due_chan [simp]: "due l (p\<lparr>op_chan := ms\<rparr>) = due l p"
  by (simp add: due_def)

lemma held_simps [simp]: "held Reading i = []" "held Stopped i = []" "held (Decoded m) i = []"
  "held (Holding j m) i = (if j = i then [m] else [])"
  by (simp_all add: held_def)

lemma op_end_frame [simp]: "op_id (op_end r p) = op_id p" "op_kind (op_end r p) = op_kind p" "op_lost (op_end r p) = op_lost p"
  "op_chan (op_end r p) = op_chan p" "op_seen (op_end r p) = op_seen p" "\<not> op_reg (op_end r p)"
  "op_state (op_end r p) = Ended" "op_result (op_end r p) = r"
  by (simp_all add: op_end_def)

lemma recv_frame: "op_state p = Waiting \<Longrightarrow> op_id (recv m p) = op_id p \<and> op_kind (recv m p) = op_kind p \<and> op_lost (recv m p) = op_lost p \<and> op_chan (recv m p) = op_chan p \<and>
    op_seen (recv m p) = op_seen p \<and> (op_reg (recv m p) \<longleftrightarrow> op_reg p \<and> op_state (recv m p) \<noteq> Ended) \<and>
    (op_result (recv m p) = op_result p \<or> op_result (recv m p) \<notin> {Some (Inl ConnectionLost), Some (Inl ClientClosed)}) \<and>
    (op_kind p = Session \<and> op_state (recv m p) = Ended \<longrightarrow> mg_Type m = TypeExit)"
  by (auto simp: recv_def split: op_kind.split option.split)

lemma op_fire_frame:
  assumes "op_fire c e p = Some q" "op_flags c l p"
  shows "op_id q = op_id p \<and> op_kind q = op_kind p \<and> op_lost q = op_lost p \<and> (op_reg q \<longrightarrow> op_reg p) \<and>
    op_seen q @ op_chan q = op_seen p @ op_chan p \<and> op_flags c l q"
proof (cases e)
  case Recv
  then obtain m ms where p: "op_state p = Waiting" "op_chan p = m # ms" and q: "q = recv m (p\<lparr>op_chan := ms, op_seen := op_seen p @ [m]\<rparr>)"
    using assms(1) by (auto simp: op_recv_def split: if_splits list.splits)
  define r where "r = p\<lparr>op_chan := ms, op_seen := op_seen p @ [m]\<rparr>"
  have r: "op_state r = Waiting" "op_id r = op_id p" "op_kind r = op_kind p" "op_lost r = op_lost p" "op_reg r = op_reg p" "op_result r = op_result p"
    "op_chan r = ms" "op_seen r = op_seen p @ [m]" using p(1) by (simp_all add: r_def)
  have f: "op_id q = op_id r" "op_kind q = op_kind r" "op_lost q = op_lost r" "op_chan q = op_chan r" "op_seen q = op_seen r"
    "op_reg q \<longleftrightarrow> op_reg r \<and> op_state q \<noteq> Ended"
    "op_result q = op_result r \<or> op_result q \<notin> {Some (Inl ConnectionLost), Some (Inl ClientClosed)}"
    "op_kind r = Session \<and> op_state q = Ended \<longrightarrow> mg_Type m = TypeExit"
    using recv_frame [OF r(1), of m] unfolding q r_def [symmetric] by simp_all
  have "op_flags c l q" using assms(2) p f r unfolding op_flags_def by (auto simp: p)
  then show ?thesis using f r p by simp
next
  case Put
  then obtain y z where "q = p\<lparr>op_out := y, op_state := Waiting\<rparr> \<or> q = p\<lparr>op_err := z, op_state := Waiting\<rparr>" "op_state p \<noteq> Ended"
    using assms(1) by (auto simp: op_put_def split: dispatch.splits)
  then show ?thesis using assms(2) by (elim disjE) (simp_all add: op_flags_def)
next
  case (OnOut x)
  then obtain y where "q = p\<lparr>op_out := y\<rparr>" using assms(1) by auto
  then show ?thesis using assms(2) by (simp add: op_flags_def)
next
  case (OnErr x)
  then obtain y where "q = p\<lparr>op_err := y\<rparr>" using assms(1) by auto
  then show ?thesis using assms(2) by (simp add: op_flags_def)
next
  case Disconnect
  then have "op_chan p = []" "op_lost p" "q = give_up ConnectionLost p" using assms(1) by (auto simp: op_disconnect_def split: if_splits)
  then show ?thesis using assms(2) by (simp add: op_flags_def give_up_def)
next
  case SeeDone
  then have "c" "q = give_up ClientClosed p" using assms(1) by (auto simp: op_done_def split: if_splits)
  then show ?thesis using assms(2) by (simp add: op_flags_def give_up_def)
next
  case Timeout
  then have "q = give_up TimedOut p" "op_kind p = Ping" using assms(1) by (auto simp: op_timeout_def split: if_splits)
  then show ?thesis using assms(2) by (simp add: op_flags_def give_up_def)
next
  case CloseOut
  then have "q = p\<lparr>op_out := (op_out p)\<lparr>pm_gone := True\<rparr>\<rparr>" using assms(1) by simp
  then show ?thesis using assms(2) by (simp add: op_flags_def)
next
  case CloseErr
  then have "q = p\<lparr>op_err := (op_err p)\<lparr>pm_gone := True\<rparr>\<rparr>" using assms(1) by simp
  then show ?thesis using assms(2) by (simp add: op_flags_def)
qed

lemma mux_ok_New: "mux_ok NewClientFromConn"
  by (simp add: mux_ok_def NewClientFromConn_def pending_def)

lemma mux_ok_opsD: "mux_ok s \<Longrightarrow> i < length (mx_ops s) \<Longrightarrow>
    op_ok (mx_ops s ! i) \<and> op_flags (mx_closed s) (mx_loop s) (mx_ops s ! i) \<and> op_flow s i (mx_ops s ! i)"
  by (simp add: mux_ok_def)

lemma op_flow_frame:
  assumes "op_flow s i p" "op_id q = op_id p" "op_lost q = op_lost p" "op_reg q \<longrightarrow> op_reg p"
    "op_seen q @ op_chan q = op_seen p @ op_chan p"
  shows "op_flow (s\<lparr>mx_ops := ps\<rparr>) i q"
proof -
  have *: "op_seen q @ op_chan q @ xs = op_seen p @ op_chan p @ xs" for xs using assms(5) by (metis append.assoc)
  have "due (mx_loop s) q = due (mx_loop s) p \<or> due (mx_loop s) q = []" using assms by (simp add: due_def)
  moreover have "prefix (op_seen p @ op_chan p @ held (mx_loop s) i) (sent (op_id p) (mx_arrived s))"
    using assms(1) unfolding op_flow_def Let_def by (metis append.assoc append_prefixD)
  ultimately show ?thesis using assms(1-4) unfolding op_flow_def Let_def append.assoc * by (auto simp: pending_def)
qed

lemma mux_ok_OnOp:
  assumes ok: "mux_ok s" and i: "i < length (mx_ops s)" and e: "op_fire (mx_closed s) e (mx_ops s ! i) = Some q"
  shows "mux_ok (s\<lparr>mx_ops := (mx_ops s)[i := q]\<rparr>)"
proof -
  let ?p = "mx_ops s ! i"
  have p: "op_ok ?p" "op_flags (mx_closed s) (mx_loop s) ?p" "op_flow s i ?p" using ok i by (simp_all add: mux_ok_def)
  note q = op_fire_frame [OF e p(2)] op_ok_fire [OF p(1) e]
  have "map op_id ((mx_ops s)[i := q]) = map op_id (mx_ops s)" using q i by (simp add: map_update list_update_same_conv)
  moreover have "op_flow (s\<lparr>mx_ops := (mx_ops s)[i := q]\<rparr>) j ((mx_ops s)[i := q] ! j)" if "j < length (mx_ops s)" for j
    using op_flow_frame [of s j "mx_ops s ! j" "(mx_ops s)[i := q] ! j"] that mux_ok_opsD [OF ok that] q by (cases "j = i") auto
  ultimately show ?thesis using ok q i by (auto simp: mux_ok_def nth_list_update pending_def)
qed

lemma find_op_Some: "find_op i ps = Some n \<Longrightarrow> n < length ps \<and> op_id (ps ! n) = i \<and> op_reg (ps ! n)"
  by (auto simp: find_op_def find_Some_iff)

lemma find_op_None: "find_op i ps = None \<Longrightarrow> n < length ps \<Longrightarrow> op_reg (ps ! n) \<Longrightarrow> op_id (ps ! n) \<noteq> i"
  by (auto simp: find_op_def find_None_iff)

lemma op_flags_lost: "op_flags c l p \<Longrightarrow> l \<noteq> Stopped \<Longrightarrow> \<not> op_lost p \<and> op_result p \<noteq> Some (Inl ConnectionLost)"
  by (auto simp: op_flags_def)

lemma op_flags_move: "op_flags c l p \<Longrightarrow> l \<noteq> Stopped \<Longrightarrow> op_flags c l' p"
  by (auto simp: op_flags_def)

lemma mux_ok_read: "mux_ok s \<Longrightarrow> loop_read s = Some s' \<Longrightarrow> mux_ok s'"
proof -
  assume ok: "mux_ok s" and "loop_read s = Some s'"
  then obtain m ms where l: "mx_loop s = Reading" "mx_in s = m # ms" and s': "s' = s\<lparr>mx_in := ms, mx_loop := Decoded m\<rparr>"
    by (auto simp: loop_read_def split: if_splits list.splits)
  have c: "\<not> mx_closed s" using ok l by (auto simp: mux_ok_def)
  have "op_flags False (Decoded m) p \<and> op_flow s' j p" if "j < length (mx_ops s)" "p = mx_ops s ! j" for j p
  proof -
    have o: "op_flags False Reading p" "op_flow s j p" using mux_ok_opsD [OF ok that(1)] that(2) l c by simp_all
    then have "\<not> op_lost p" "op_flags False (Decoded m) p" using op_flags_lost op_flags_move by blast+
    then show ?thesis using o(2) c l by (cases "op_reg p") (simp_all add: op_flow_def s' pending_def Let_def)
  qed
  then show ?thesis using ok c l by (auto simp: mux_ok_def s' pending_def suffix_def)
qed

lemma mux_ok_lookup: "mux_ok s \<Longrightarrow> loop_lookup s = Some s' \<Longrightarrow> mux_ok s'"
proof -
  assume ok: "mux_ok s" and "loop_lookup s = Some s'"
  then obtain m where m: "mx_loop s = Decoded m"
    and s': "s' = s\<lparr>mx_loop := (case find_op (mg_ID m) (mx_ops s) of None \<Rightarrow> Reading | Some i \<Rightarrow> Holding i m)\<rparr>"
    by (auto simp: loop_lookup_def split: loop.splits)
  let ?l = "mx_loop s'"
  have d: "distinct (map op_id (mx_ops s))" using ok by (simp add: mux_ok_def)
  have "op_flags (mx_closed s) ?l (mx_ops s ! j) \<and> op_flow s' j (mx_ops s ! j)" if j: "j < length (mx_ops s)" for j
  proof -
    let ?p = "mx_ops s ! j"
    have p: "op_flags (mx_closed s) (Decoded m) ?p" "op_flow s j ?p" using mux_ok_opsD [OF ok j] m by simp_all
    note lost = op_flags_lost [OF p(1)] and f = op_flags_move [OF p(1), of ?l]
    show ?thesis
    proof (cases "find_op (mg_ID m) (mx_ops s)")
      case None
      then have "op_reg ?p \<Longrightarrow> op_id ?p \<noteq> mg_ID m" using find_op_None [OF None j] by blast
      then show ?thesis using p(2) lost f None
        by (cases "op_reg ?p") (simp_all add: s' op_flow_def pending_def m Let_def)
    next
      case (Some n)
      note n = find_op_Some [OF Some]
      have "op_id ?p = mg_ID m \<longleftrightarrow> j = n" using n j nth_eq_iff_index_eq [OF d, of j n] by auto
      then show ?thesis using p(2) lost f n Some
        by (cases "j = n") (simp_all add: s' op_flow_def pending_def m Let_def)
    qed
  qed
  then show ?thesis using ok find_op_Some
    by (auto simp: mux_ok_def s' m pending_def split: option.splits)
qed

lemma op_flags_deliver: "op_flags c (Holding i m) p \<Longrightarrow> length (op_chan p) < chanCap \<Longrightarrow> op_flags c Reading (p\<lparr>op_chan := op_chan p @ [m]\<rparr>)"
  by (auto simp: op_flags_def)

lemma op_ok_chan [simp]: "op_ok (p\<lparr>op_chan := ms\<rparr>) = op_ok p"
  by (simp add: op_ok_def out_pending_def err_pending_def)

lemma mux_ok_deliver: "mux_ok s \<Longrightarrow> loop_deliver s = Some s' \<Longrightarrow> mux_ok s'"
proof -
  assume ok: "mux_ok s" and "loop_deliver s = Some s'"
  then obtain i m where l: "mx_loop s = Holding i m" "length (op_chan (mx_ops s ! i)) < chanCap"
    and s': "s' = s\<lparr>mx_loop := Reading, mx_ops := (mx_ops s)[i := (mx_ops s ! i)\<lparr>op_chan := op_chan (mx_ops s ! i) @ [m]\<rparr>]\<rparr>"
    by (auto simp: loop_deliver_def Let_def split: loop.splits if_splits)
  let ?p = "mx_ops s ! i" let ?q = "?p\<lparr>op_chan := op_chan ?p @ [m]\<rparr>"
  have i: "i < length (mx_ops s)" using ok l by (simp add: mux_ok_def)
  have "map op_id ((mx_ops s)[i := ?q]) = map op_id (mx_ops s)" using i by (simp add: map_update list_update_same_conv)
  moreover have "op_ok ((mx_ops s)[i := ?q] ! j) \<and> op_flags (mx_closed s) Reading ((mx_ops s)[i := ?q] ! j) \<and> op_flow s' j ((mx_ops s)[i := ?q] ! j)"
    if j: "j < length (mx_ops s)" for j
  proof (cases "j = i")
    case True
    have "op_ok ?p" "op_flags (mx_closed s) (mx_loop s) ?p" "op_flow s i ?p" using mux_ok_opsD [OF ok i] by simp_all
    then show ?thesis using True i l op_flags_deliver [of "mx_closed s" i m ?p]
      by (simp add: s' op_flow_def pending_def Let_def)
  next
    case False
    then show ?thesis using mux_ok_opsD [OF ok j] op_flags_move [of "mx_closed s" "mx_loop s" "mx_ops s ! j" Reading] l
      by (simp add: s' op_flow_def pending_def Let_def)
  qed
  ultimately show ?thesis using ok by (auto simp: mux_ok_def s' pending_def)
qed

lemma mux_ok_stop: "mux_ok s \<Longrightarrow> loop_stop s = Some s' \<Longrightarrow> mux_ok s'"
proof -
  assume ok: "mux_ok s" and st: "loop_stop s = Some s'"
  then have s': "s' = s\<lparr>mx_loop := Stopped, mx_ops := closeAllHandlers (mx_ops s)\<rparr>"
    and l: "mx_closed s \<or> mx_loop s = Reading" "mx_ended s \<and> mx_in s = []" "\<forall>m. mx_loop s \<noteq> Decoded m" "mx_loop s \<noteq> Stopped"
    by (auto simp: loop_stop_def mux_ok_def split: if_splits loop.splits)
  let ?q = "\<lambda>p. if op_reg p then p\<lparr>op_reg := False, op_lost := True\<rparr> else p"
  have d: "decoded (mx_loop s) = []" using l(3) by (auto simp: decoded_def split: loop.splits)
  have due: "due (mx_loop s) p = []" for p using d by (simp add: due_def)
  have ids: "map op_id (closeAllHandlers (mx_ops s)) = map op_id (mx_ops s)" by (simp add: closeAllHandlers_def)
  have "op_ok (?q p) \<and> op_flags (mx_closed s) Stopped (?q p) \<and> op_flow s' j (?q p)"
    if j: "j < length (mx_ops s)" and p: "p = mx_ops s ! j" for j p
  proof -
    have o: "op_ok p" "op_flags (mx_closed s) (mx_loop s) p" "op_flow s j p" using mux_ok_opsD [OF ok j] p by simp_all
    have "prefix (op_seen p @ op_chan p) (sent (op_id p) (mx_arrived s))"
      using o(3) unfolding op_flow_def Let_def by (metis append.assoc append_prefixD)
    moreover have "mx_closed s \<or> held (mx_loop s) j = []" using l(1) by auto
    moreover have "op_ok (p\<lparr>op_reg := False, op_lost := True\<rparr>)" using o(1) by (simp add: op_ok_def out_pending_def err_pending_def)
    moreover have "op_flags (mx_closed s) Stopped (?q p)" using o(2) op_flags_lost [OF o(2) l(4)] by (auto simp: op_flags_def)
    ultimately show ?thesis using o l d due by (cases "op_reg p") (auto simp: s' op_flow_def pending_def Let_def)
  qed
  then have "\<forall>j<length (mx_ops s'). op_ok (mx_ops s' ! j) \<and> op_flags (mx_closed s') (mx_loop s') (mx_ops s' ! j) \<and> op_flow s' j (mx_ops s' ! j)"
    by (simp add: s' closeAllHandlers_def)
  then show ?thesis using ok l unfolding mux_ok_def by (auto simp: s' ids pending_def)
qed

lemma mux_ok_start: "mux_ok s \<Longrightarrow> fire (Start k i) s = Some s' \<Longrightarrow> mux_ok s'"
proof -
  assume ok: "mux_ok s" and "fire (Start k i) s = Some s'"
  then have i: "i \<notin> op_id ` set (mx_ops s)" "i \<notin> mg_ID ` set (mx_arrived s)" and s': "s' = s\<lparr>mx_ops := mx_ops s @ [new_op k i]\<rparr>"
    by (auto split: if_splits)
  have n: "sent i (mx_arrived s) = []" "sent i (pending s) = []" using ok i by (auto simp: mux_ok_def intro!: sent_none)
  have h: "held (mx_loop s) (length (mx_ops s)) = []" using ok by (auto simp: mux_ok_def held_def split: loop.splits)
  have "op_ok ((mx_ops s @ [new_op k i]) ! j) \<and> op_flags (mx_closed s) (mx_loop s) ((mx_ops s @ [new_op k i]) ! j)
     \<and> op_flow s' j ((mx_ops s @ [new_op k i]) ! j)" if "j < Suc (length (mx_ops s))" for j
  proof (cases "j = length (mx_ops s)")
    case True
    have "op_flags (mx_closed s) (mx_loop s) (new_op k i)" by (simp add: op_flags_def new_op_def)
    moreover have "op_flow s' j (new_op k i)" using n h True by (simp add: op_flow_def s' new_op_def pending_def due_def Let_def)
    ultimately show ?thesis using True by (simp add: op_ok_new)
  next
    case False
    then have j: "j < length (mx_ops s)" using that by simp
    then show ?thesis using mux_ok_opsD [OF ok j] by (simp add: nth_append op_flow_def s' pending_def)
  qed
  then show ?thesis using ok i unfolding mux_ok_def by (auto simp: s' nth_append pending_def new_op_def)
qed

lemma mux_ok_arrive: "mux_ok s \<Longrightarrow> \<not> mx_ended s \<Longrightarrow> mux_ok (s\<lparr>mx_in := mx_in s @ [m], mx_arrived := mx_arrived s @ [m]\<rparr>)"
proof -
  let ?s = "s\<lparr>mx_in := mx_in s @ [m], mx_arrived := mx_arrived s @ [m]\<rparr>"
  assume ok: "mux_ok s" and e: "\<not> mx_ended s"
  have "op_flow ?s j p" if "op_flow s j p" for j p
    using that by (auto simp: op_flow_def Let_def pending_def)
  then show ?thesis using ok e by (auto simp: mux_ok_def pending_def suffix_def)
qed

lemma mux_ok_close: "mux_ok s \<Longrightarrow> mux_ok (s\<lparr>mx_closed := True, mx_ended := True, mx_in := []\<rparr>)"
  by (auto simp: mux_ok_def op_flow_def op_flags_def pending_def Let_def)

lemma mux_ok_hangup: "mux_ok s \<Longrightarrow> mux_ok (s\<lparr>mx_ended := True\<rparr>)"
  by (auto simp: mux_ok_def op_flow_def pending_def Let_def)

lemma mux_ok_fire: "mux_ok s \<Longrightarrow> fire e s = Some s' \<Longrightarrow> mux_ok s'"
proof (induction e)
  case LoopRead
  then show ?case using mux_ok_read by simp
next
  case LoopLookup
  then show ?case using mux_ok_lookup by simp
next
  case LoopDeliver
  then show ?case using mux_ok_deliver by simp
next
  case LoopStop
  then show ?case using mux_ok_stop by simp
next
  case (OnOp i x)
  then show ?case using mux_ok_OnOp by (auto split: if_splits)
next
  case (Start k i)
  then show ?case using mux_ok_start by blast
next
  case (Arrive m)
  then show ?case using mux_ok_arrive [of s m] by (simp split: if_splits)
next
  case HangUp
  then show ?case using mux_ok_hangup [of s] by simp
next
  case CloseClient
  then show ?case using mux_ok_close [of s] by simp
qed

lemma reached_ok: "reached s \<Longrightarrow> mux_ok s"
  by (induction rule: reached.induct) (auto intro: mux_ok_New mux_ok_fire)

section \<open>A reader that does not read\<close>

definition plain_output :: "message \<Rightarrow> bool" where
  "plain_output m \<longleftrightarrow> mg_Type m = TypeStdout \<and> payload set_data [] m \<notin> {None, Some []}"

lemma outputs_plain:
  "\<forall>m\<in>set ms. plain_output m \<Longrightarrow> length (outputs TypeStdout ms) = length ms \<and> (\<forall>d\<in>set (outputs TypeStdout ms). d \<noteq> [])"
proof (induction ms rule: rev_induct)
  case (snoc m ms)
  have "\<not> exited ms" using snoc.prems by (auto simp: exited_def plain_output_def image_iff)
  then show ?case using snoc by (auto simp: plain_output_def outputs_single)
qed simp

lemma unread_bound:
  assumes ok: "op_ok p" "op_flags c l p" "op_kind p \<noteq> Ping"
    and unread: "pm_read (op_out p) = []" "\<not> pm_gone (op_out p)"
    and out: "\<forall>m\<in>set (op_seen p). plain_output m"
  shows "length (op_seen p) + length (op_chan p) \<le> 2 + dataCap + chanCap"
proof -
  have f: "outputs TypeStdout (op_seen p) = fed (op_out p) @ out_pending p" using ok by (simp add: op_ok_def)
  then have "length (fed (op_out p)) \<le> Suc dataCap"
    using outputs_plain [OF out] ok(1) unread by (intro pump_unread) (auto simp: op_ok_def)
  moreover have "length (out_pending p) \<le> 1" by (simp add: out_pending_def split: dispatch.splits)
  moreover have "length (op_seen p) = length (fed (op_out p)) + length (out_pending p)"
    using outputs_plain [OF out] f by (metis length_append)
  moreover have "length (op_chan p) \<le> chanCap" using ok(2) by (simp add: op_flags_def)
  ultimately show ?thesis by linarith
qed

section \<open>Progress\<close>

text \<open>The steps of the goroutines and of callers that read; the rest comes from outside.\<close>

fun internal :: "event \<Rightarrow> bool" where
  "internal (OnOp i e) \<longleftrightarrow> e \<notin> {Timeout, CloseOut, CloseErr}"
| "internal (Start k i) \<longleftrightarrow> False"
| "internal (Arrive m) \<longleftrightarrow> False"
| "internal HangUp \<longleftrightarrow> False"
| "internal CloseClient \<longleftrightarrow> False"
| "internal e \<longleftrightarrow> True"

definition quiescent :: "mux \<Rightarrow> bool" where
  "quiescent s \<longleftrightarrow> (\<forall>e. internal e \<longrightarrow> fire e s = None)"

text \<open>The guest ends an exec or session with its exit message, and answers a ping once.\<close>

definition polite :: "op \<Rightarrow> message list \<Rightarrow> bool" where
  "polite p ms \<longleftrightarrow> (if op_kind p = Ping then length ms \<le> 1 else \<not> exited (butlast ms))"

definition op_idle :: "bool \<Rightarrow> op \<Rightarrow> bool" where
  "op_idle c p \<longleftrightarrow> op_recv p = None \<and> op_disconnect p = None \<and> op_done c p = None \<and> op_put p = None \<and>
     pump_idle (op_out p) \<and> pump_idle (op_err p)"

lemma quiescent_op: "quiescent s \<Longrightarrow> i < length (mx_ops s) \<Longrightarrow> op_idle (mx_closed s) (mx_ops s ! i)"
proof -
  assume q: "quiescent s" and i: "i < length (mx_ops s)"
  have "op_fire (mx_closed s) e (mx_ops s ! i) = None" if "e \<notin> {Timeout, CloseOut, CloseErr}" for e
    using q i that by (auto simp: quiescent_def dest!: spec [of _ "OnOp i e"])
  from this [of Recv] this [of Disconnect] this [of SeeDone] this [of Put] this [of "OnOut Take"] this [of "OnOut (Read _)"]
    this [of "OnOut Fail"] this [of "OnErr Take"] this [of "OnErr (Read _)"] this [of "OnErr Fail"]
  show ?thesis by (simp add: op_idle_def pump_idle_def)
qed

lemma op_idle_waits: "op_idle c p \<Longrightarrow> op_ok p \<Longrightarrow> op_state p \<noteq> Ended \<Longrightarrow> op_state p = Waiting \<and> op_chan p = []"
proof -
  assume a: "op_idle c p" "op_ok p" "op_state p \<noteq> Ended"
  have "pm_queue (op_out p) = []" "pm_queue (op_err p) = []"
    using a pump_idle_empty by (auto simp: op_idle_def op_ok_def)
  then have "op_state p = Waiting"
    using a by (auto simp: op_idle_def op_put_def pump_put_def dataCap_def split: dispatch.splits)
  then show ?thesis using a by (auto simp: op_idle_def op_recv_def split: list.splits)
qed

lemma ended_drained:
  assumes "op_ok p" "op_flags False l p" "op_flow s i p" "mx_loop s = l" "op_state p = Ended"
    and "polite p (sent (op_id p) (mx_arrived s))"
  shows "length (op_chan p @ held l i) \<le> 1"
proof -
  obtain rest where A: "sent (op_id p) (mx_arrived s) = op_seen p @ (op_chan p @ held l i) @ rest"
    using assms(3,4) by (auto simp: op_flow_def Let_def prefix_def)
  consider (ping) "op_kind p = Ping" | (lost) "op_lost p" "op_chan p = []" | (exit) "op_kind p \<noteq> Ping" "exited (op_seen p)"
  proof (cases "op_kind p")
    case Exec
    then have "op_result p \<noteq> None" "settled (op_result p) (op_seen p)" using assms(1,5) by (auto simp: op_ok_def)
    then show ?thesis using that assms(2) Exec verdict_exited [of "op_seen p"]
      by (cases "op_result p \<in> {Some (Inl ConnectionLost), Some (Inl ClientClosed)}") (auto simp: settled_def op_flags_def)
  qed (use that assms(2,5) in \<open>auto simp: op_flags_def\<close>)
  then show ?thesis
  proof cases
    case ping
    then have "length (sent (op_id p) (mx_arrived s)) \<le> 1" using assms(6) by (simp add: polite_def)
    then show ?thesis by (simp add: A)
  next
    case lost
    then have "l = Stopped" using assms(2) by (simp add: op_flags_def)
    then show ?thesis using lost by simp
  next
    case exit
    have "op_chan p @ held l i = []"
    proof (rule ccontr)
      assume x: "op_chan p @ held l i \<noteq> []"
      have "butlast (a @ b @ c) = a @ butlast (b @ c)" if "b \<noteq> []" for a b c :: "message list"
        using that by (simp add: butlast_append)
      then have "butlast (sent (op_id p) (mx_arrived s)) = op_seen p @ butlast ((op_chan p @ held l i) @ rest)"
        unfolding A using x .
      then show False using exit assms(6) by (simp add: polite_def)
    qed
    then show ?thesis by simp
  qed
qed

text \<open>In a state where nothing moves, the loop has handed out all that has arrived.\<close>

lemma quiescent_drained:
  assumes "mux_ok s" "\<not> mx_closed s" "quiescent s" "\<forall>p\<in>set (mx_ops s). polite p (sent (op_id p) (mx_arrived s))"
  shows "mx_in s = [] \<and> (mx_loop s = Reading \<or> mx_loop s = Stopped)"
proof -
  have none: "loop_read s = None" "loop_lookup s = None" "loop_deliver s = None" "loop_stop s = None"
    using assms(3) by (auto simp: quiescent_def dest: spec [of _ LoopRead] spec [of _ LoopLookup] spec [of _ LoopDeliver] spec [of _ LoopStop])
  show ?thesis
  proof (cases "mx_loop s")
    case (Holding i m)
    then have i: "i < length (mx_ops s)" using assms(1) by (simp add: mux_ok_def)
    let ?p = "mx_ops s ! i"
    have full: "chanCap \<le> length (op_chan ?p)" using none(3) Holding by (simp add: loop_deliver_def Let_def split: if_splits)
    note o = mux_ok_opsD [OF assms(1) i]
    have "op_state ?p = Ended"
    proof (rule ccontr)
      assume "op_state ?p \<noteq> Ended"
      then have "op_chan ?p = []" using op_idle_waits [OF quiescent_op [OF assms(3) i]] o by blast
      then show False using full by (simp add: chanCap_def)
    qed
    then have "length (op_chan ?p @ held (mx_loop s) i) \<le> 1"
      using o assms(2,4) i by (intro ended_drained [of ?p _ s]) auto
    then show ?thesis using full by (simp add: chanCap_def)
  next
    case Reading
    then show ?thesis using none(1) by (simp add: loop_read_def split: list.splits)
  next
    case Stopped
    then show ?thesis using assms(1) by (simp add: mux_ok_def)
  qed (use none(2) in \<open>simp add: loop_lookup_def\<close>)
qed

lemma exec_settles:
  assumes ok: "mux_ok s" and opn: "\<not> mx_closed s" and q: "quiescent s"
    and pol: "\<forall>p\<in>set (mx_ops s). polite p (sent (op_id p) (mx_arrived s))"
    and p: "p \<in> set (mx_ops s)" "op_kind p = Exec" "exited (sent (op_id p) (mx_arrived s))"
  shows "op_result p = verdict (sent (op_id p) (mx_arrived s)) \<and> pm_writer (op_out p) = Closed \<and> pm_writer (op_err p) = Closed"
proof -
  obtain i where i: "i < length (mx_ops s)" "p = mx_ops s ! i" using p(1) by (auto simp: in_set_conv_nth)
  have o: "op_ok p" "op_flags False (mx_loop s) p" "op_flow s i p" using mux_ok_opsD [OF ok i(1)] i opn by auto
  have idle: "op_idle False p" using quiescent_op [OF q i(1)] opn i by simp
  let ?A = "sent (op_id p) (mx_arrived s)"
  note l = quiescent_drained [OF ok opn q pol]
  have h: "held (mx_loop s) i = []" "pending s = []" using l by (auto simp: pending_def)
  have whole: "?A = op_seen p @ op_chan p" if "op_reg p \<or> op_lost p"
    using o(3) that opn h by (simp add: op_flow_def Let_def)
  have waiting: "op_state p \<noteq> Ended \<Longrightarrow> False"
    using op_idle_waits [OF idle o(1)] whole p o(1,2) by (auto simp: op_ok_def op_flags_def)
  then have e: "op_state p = Ended" by blast
  have k: "op_result p \<noteq> None" "settled (op_result p) (op_seen p)" "pump_ok (op_out p)" "pump_ok (op_err p)"
    "pm_shut (op_out p)" "pm_shut (op_err p)" using o(1) p(2) e by (auto simp: op_ok_def)
  have "op_result p \<noteq> Some (Inl ConnectionLost)" using whole p(3) o(2) k(2) by (auto simp: op_flags_def)
  moreover have "op_result p \<noteq> Some (Inl ClientClosed)" using o(2) by (auto simp: op_flags_def)
  ultimately have v: "op_result p = verdict (op_seen p)" using k(1,2) by (auto simp: settled_def split: if_splits)
  then have "exited (op_seen p)" using k(1) verdict_exited by metis
  then have "verdict ?A = verdict (op_seen p)" using o(3) by (auto simp: op_flow_def Let_def prefix_def)
  then show ?thesis using v idle k pump_idle_shut by (simp add: op_idle_def)
qed

text \<open>Work left: every step of a goroutine takes some of it.\<close>

definition size_of :: "message \<Rightarrow> nat" where
  "size_of m = (case payload set_data [] m of None \<Rightarrow> 0 | Some d \<Rightarrow> length d)"

fun writer_work :: "writer \<Rightarrow> nat" where
  "writer_work Idle = 1"
| "writer_work (Writing d) = 2 + length d"
| "writer_work Draining = 1"
| "writer_work Closed = 0"

definition pump_work :: "pump \<Rightarrow> nat" where
  "pump_work p = writer_work (pm_writer p) + sum_list (map (\<lambda>d. 3 + length d) (pm_queue p))"

fun dispatch_work :: "dispatch \<Rightarrow> nat" where
  "dispatch_work Waiting = 1"
| "dispatch_work (PutOut d) = 5 + length d"
| "dispatch_work (PutErr d) = 5 + length d"
| "dispatch_work Ended = 0"

definition op_work :: "op \<Rightarrow> nat" where
  "op_work p = dispatch_work (op_state p) + pump_work (op_out p) + pump_work (op_err p) +
     sum_list (map (\<lambda>m. 5 + size_of m) (op_chan p))"

fun loop_work :: "loop \<Rightarrow> nat" where
  "loop_work Reading = 1"
| "loop_work (Decoded m) = 8 + size_of m"
| "loop_work (Holding i m) = 7 + size_of m"
| "loop_work Stopped = 0"

definition work :: "mux \<Rightarrow> nat" where
  "work s = loop_work (mx_loop s) + sum_list (map (\<lambda>m. 8 + size_of m) (mx_in s)) + sum_list (map op_work (mx_ops s))"

lemma pump_work_simps [simp]: "pump_work (p\<lparr>pm_shut := b\<rparr>) = pump_work p"
  by (simp add: pump_work_def)

lemma pump_work_put: "pump_put d p = Some q \<Longrightarrow> pump_work q = 3 + length d + pump_work p"
  by (auto simp: pump_put_def pump_work_def split: if_splits)

lemma pump_work_fire: "pump_fire e p = Some q \<Longrightarrow> pump_work q < pump_work p"
  by (cases e) (auto simp: pump_take_def pump_read_def pump_fail_def pump_work_def split: if_splits list.splits writer.splits)

lemma op_work_end: "op_state p \<noteq> Ended \<Longrightarrow> op_work (op_end r p) < op_work p"
  by (cases "op_state p") (simp_all add: op_work_def op_end_def)

lemma op_work_recv: "op_recv p = Some q \<Longrightarrow> op_work q < op_work p"
proof -
  assume "op_recv p = Some q"
  then obtain m ms where p: "op_state p = Waiting" "op_chan p = m # ms" and q: "q = recv m (p\<lparr>op_chan := ms, op_seen := op_seen p @ [m]\<rparr>)"
    by (auto simp: op_recv_def split: if_splits list.splits)
  let ?r = "p\<lparr>op_chan := ms, op_seen := op_seen p @ [m]\<rparr>"
  have r: "op_work ?r + 5 + size_of m = op_work p" "op_state ?r = Waiting" using p by (simp_all add: op_work_def)
  have e: "op_work (op_end x ?r) < op_work p" for x using op_work_end [of ?r x] r by simp
  have put: "op_work (?r\<lparr>op_state := PutOut d\<rparr>) < op_work p" "op_work (?r\<lparr>op_state := PutErr d\<rparr>) < op_work p"
    if "payload set_data [] m = Some d" for d
    using r that by (simp_all add: op_work_def size_of_def)
  show ?thesis using r e put unfolding q recv_def
    by (cases "op_kind p") (simp_all split: option.split)
qed

lemma op_work_put: "op_put p = Some q \<Longrightarrow> op_work q < op_work p"
  by (auto simp: op_put_def op_work_def dest: pump_work_put split: dispatch.splits)

lemma op_work_fire: "op_fire c e p = Some q \<Longrightarrow> e \<notin> {Timeout, CloseOut, CloseErr} \<Longrightarrow> op_work q < op_work p"
proof (induction e)
  case Recv
  then show ?case using op_work_recv by simp
next
  case Put
  then show ?case using op_work_put by simp
next
  case (OnOut x)
  then obtain y where "pump_fire x (op_out p) = Some y" "q = p\<lparr>op_out := y\<rparr>" by auto
  then show ?case using pump_work_fire [of x "op_out p" y] by (simp add: op_work_def)
next
  case (OnErr x)
  then obtain y where "pump_fire x (op_err p) = Some y" "q = p\<lparr>op_err := y\<rparr>" by auto
  then show ?case using pump_work_fire [of x "op_err p" y] by (simp add: op_work_def)
qed (auto simp: op_disconnect_def op_done_def give_up_def op_work_end split: if_splits)

lemma work_update: "i < length ps \<Longrightarrow> op_work q + n \<le> op_work (ps ! i) + m \<Longrightarrow>
    sum_list (map op_work (ps[i := q])) + n \<le> sum_list (map op_work ps) + m"
  by (induction ps arbitrary: i) (auto split: nat.splits)

lemma work_fire: "mux_ok s \<Longrightarrow> internal e \<Longrightarrow> fire e s = Some s' \<Longrightarrow> work s' < work s"
proof (induction e)
  case LoopRead
  then show ?case by (auto simp: loop_read_def work_def split: if_splits list.splits)
next
  case LoopLookup
  then show ?case by (auto simp: loop_lookup_def work_def split: loop.splits option.splits)
next
  case LoopDeliver
  then obtain i m where l: "mx_loop s = Holding i m"
    and s': "s' = s\<lparr>mx_ops := (mx_ops s)[i := (mx_ops s ! i)\<lparr>op_chan := op_chan (mx_ops s ! i) @ [m]\<rparr>], mx_loop := Reading\<rparr>"
    by (auto simp: loop_deliver_def Let_def split: loop.splits if_splits)
  have o: "mx_ops s' = (mx_ops s)[i := (mx_ops s ! i)\<lparr>op_chan := op_chan (mx_ops s ! i) @ [m]\<rparr>]" by (simp add: s')
  have "i < length (mx_ops s)" using LoopDeliver.prems(1) l by (simp add: mux_ok_def)
  then have "sum_list (map op_work (mx_ops s')) + 0 \<le> sum_list (map op_work (mx_ops s)) + (5 + size_of m)"
    unfolding o by (intro work_update) (simp_all add: op_work_def)
  then show ?case using l by (simp add: work_def s')
next
  case LoopStop
  have "op_work (if op_reg p then p\<lparr>op_reg := False, op_lost := True\<rparr> else p) = op_work p" for p by (simp add: op_work_def)
  then have "map op_work (closeAllHandlers ps) = map op_work ps" for ps by (simp add: closeAllHandlers_def)
  then show ?case using LoopStop.prems by (auto simp: loop_stop_def work_def split: if_splits loop.splits)
next
  case (OnOp i x)
  then obtain q where q: "i < length (mx_ops s)" "op_fire (mx_closed s) x (mx_ops s ! i) = Some q" "s' = s\<lparr>mx_ops := (mx_ops s)[i := q]\<rparr>"
    by (auto split: if_splits)
  then have "op_work q < op_work (mx_ops s ! i)" using OnOp.prems(2) op_work_fire by simp
  then have "sum_list (map op_work (mx_ops s')) + 1 \<le> sum_list (map op_work (mx_ops s)) + 0"
    using work_update [of i "mx_ops s" q 1 0] q by simp
  then show ?case by (simp add: work_def q)
qed simp_all

lemma fires_work: "mux_ok s \<Longrightarrow> list_all internal es \<Longrightarrow> fires es s = Some s' \<Longrightarrow> length es + work s' \<le> work s"
proof (induction es arbitrary: s)
  case (Cons e es)
  then obtain t where t: "fire e s = Some t" "fires es t = Some s'" by (auto split: option.splits)
  have "length es + work s' \<le> work t" using Cons t mux_ok_fire [of s e t] by auto
  then show ?case using work_fire [of s e t] Cons.prems t by simp
qed simp

section \<open>An exec from start to end\<close>

definition sample_run :: "event list" where
  "sample_run = [Start Exec ''a'', Arrive (data_message TypeStdout ''a'' ''hi''),
     Arrive \<lparr>mg_Version = 1, mg_Type = TypeExit, mg_ID = ''a'', mg_Payload = Some (exit_json 3)\<rparr>,
     LoopRead, LoopLookup, LoopDeliver, LoopRead, LoopLookup, LoopDeliver, OnOp 0 Recv, OnOp 0 Put, OnOp 0 Recv,
     OnOp 0 (OnOut Take), OnOp 0 (OnOut (Read 10)), OnOp 0 (OnOut Take), OnOp 0 (OnErr Take)]"

definition sample :: mux where
  "sample = the (fires sample_run NewClientFromConn)"

definition sample_op :: op where
  "sample_op = hd (mx_ops sample)"

lemma sample_facts: "mx_ops sample = [sample_op]" "op_kind sample_op = Exec" "op_result sample_op = Some (Inr 3)"
  "mx_loop sample = Reading" "mx_in sample = []" "\<not> mx_ended sample" "\<not> mx_closed sample"
  "pm_writer (op_out sample_op) = Closed" "pm_writer (op_err sample_op) = Closed" "\<not> pm_gone (op_out sample_op)" "\<not> pm_gone (op_err sample_op)"
  "op_state sample_op = Ended" "exited (sent (op_id sample_op) (mx_arrived sample))"
  "\<not> exited (butlast (sent (op_id sample_op) (mx_arrived sample)))"
  "concat (outputs TypeStdout (sent (op_id sample_op) (mx_arrived sample))) = ''hi''"
  "verdict (sent (op_id sample_op) (mx_arrived sample)) = Some (Inr 3)"
  by code_simp+

lemma sample_reached: "reached sample"
proof -
  have "fires sample_run NewClientFromConn \<noteq> None" by code_simp
  then have "fires sample_run NewClientFromConn = Some sample" by (auto simp: sample_def)
  then show ?thesis by (rule reached_fires [OF reached.New])
qed

lemma sample_quiescent: "quiescent sample"
proof -
  have "op_fire False e sample_op = None" if "e \<notin> {Timeout, CloseOut, CloseErr}" for e
  proof (cases e)
    case (OnOut x)
    then show ?thesis by (cases x) (simp_all add: sample_facts pump_take_def pump_read_def pump_fail_def)
  next
    case (OnErr x)
    then show ?thesis by (cases x) (simp_all add: sample_facts pump_take_def pump_read_def pump_fail_def)
  qed (use that in \<open>simp_all add: sample_facts op_recv_def op_disconnect_def op_done_def op_put_def\<close>)
  then have "fire e sample = None" if "internal e" for e
    using that by (cases e) (auto simp: sample_facts loop_read_def loop_lookup_def loop_deliver_def loop_stop_def)
  then show ?thesis by (simp add: quiescent_def)
qed

text \<open>C25: What a caller reads from an exec is what the guest has sent for it: at any moment a prefix of the
  pieces that arrived under its id before the exit message, in order and unmixed with other
  operations; and once \<open>Wait\<close> has given a code and the reader is at the end of the stream, all of
  them, and the code is that of the exit message.\<close>

theorem exec_output_exact:
  assumes "reached s" "p \<in> set (mx_ops s)" "op_kind p = Exec"
  shows "prefix (pm_read (op_out p)) (concat (outputs TypeStdout (sent (op_id p) (mx_arrived s)))) \<and>
    prefix (pm_read (op_err p)) (concat (outputs TypeStderr (sent (op_id p) (mx_arrived s)))) \<and>
    (\<forall>c. op_result p = Some (Inr c) \<longrightarrow> verdict (sent (op_id p) (mx_arrived s)) = Some (Inr c) \<and>
       (pm_writer (op_out p) = Closed \<and> \<not> pm_gone (op_out p) \<longrightarrow>
          pm_read (op_out p) = concat (outputs TypeStdout (sent (op_id p) (mx_arrived s)))) \<and>
       (pm_writer (op_err p) = Closed \<and> \<not> pm_gone (op_err p) \<longrightarrow>
          pm_read (op_err p) = concat (outputs TypeStderr (sent (op_id p) (mx_arrived s)))))"
proof -
  obtain i where "i < length (mx_ops s)" "p = mx_ops s ! i" using assms(2) by (auto simp: in_set_conv_nth)
  then have o: "op_ok p" and fl: "op_flow s i p" using mux_ok_opsD [OF reached_ok [OF assms(1)]] by auto
  let ?A = "sent (op_id p) (mx_arrived s)"
  obtain rest where A: "?A = op_seen p @ rest" using fl by (auto simp: op_flow_def Let_def prefix_def)
  have k: "pump_ok (op_out p)" "pump_ok (op_err p)" "outputs TypeStdout (op_seen p) = fed (op_out p) @ out_pending p"
    "outputs TypeStderr (op_seen p) = fed (op_err p) @ err_pending p" "settled (op_result p) (op_seen p)"
    using o assms(3) by (auto simp: op_ok_def)
  have pre: "prefix (concat (fed (op_out p))) (concat (outputs TypeStdout ?A))" "prefix (concat (fed (op_err p))) (concat (outputs TypeStderr ?A))"
    by (simp_all add: A k)
  have fin: "verdict ?A = Some (Inr c) \<and> outputs TypeStdout ?A = fed (op_out p) \<and> outputs TypeStderr ?A = fed (op_err p)"
    if "op_result p = Some (Inr c)" for c
  proof -
    have v: "verdict (op_seen p) = Some (Inr c)" using k(5) that by simp
    then have "exited (op_seen p)" using verdict_exited by force
    moreover have "op_state p = Ended" using o that by (auto simp: op_ok_def)
    ultimately show ?thesis using v k by (simp add: A out_pending_def err_pending_def)
  qed
  have "prefix (pm_read (op_out p)) (concat (outputs TypeStdout ?A))" "prefix (pm_read (op_err p)) (concat (outputs TypeStderr ?A))"
    using pre pump_prefix [OF k(1)] pump_prefix [OF k(2)] prefix_order.trans by blast+
  moreover have "pm_writer (op_out p) = Closed \<and> \<not> pm_gone (op_out p) \<longrightarrow> pm_read (op_out p) = concat (fed (op_out p))"
    "pm_writer (op_err p) = Closed \<and> \<not> pm_gone (op_err p) \<longrightarrow> pm_read (op_err p) = concat (fed (op_err p))"
    using pump_closed [OF k(1)] pump_closed [OF k(2)] by simp_all
  ultimately show ?thesis using fin by simp
qed

lemma exec_output_exact_witness: "reached sample \<and> pm_read (op_out sample_op) = ''hi''"
  using exec_output_exact [OF sample_reached, of sample_op] sample_reached by (simp add: sample_facts)

text \<open>C26: As long as the client is not closed and the guest is polite, sending nothing for an exec or a session
  after its exit message and answering a ping once, the client comes to rest: from any moment on, the
  goroutines and the callers that read take a bounded number of steps; and when none of them can move,
  every exec whose exit message has arrived has given its result to \<open>Wait\<close> and closed both of its
  streams.  The reads of the callers are among the steps: a caller that stops reading is a step that
  never comes, and the client then stands still with its other operations unfinished.\<close>

theorem exec_finishes:
  assumes "reached s" "\<not> mx_closed s" "\<forall>p\<in>set (mx_ops s). polite p (sent (op_id p) (mx_arrived s))"
  shows "(\<forall>es s'. list_all internal es \<and> fires es s = Some s' \<longrightarrow> length es \<le> work s) \<and>
    (quiescent s \<longrightarrow> (\<forall>p\<in>set (mx_ops s). op_kind p = Exec \<and> exited (sent (op_id p) (mx_arrived s)) \<longrightarrow>
       op_result p = verdict (sent (op_id p) (mx_arrived s)) \<and> pm_writer (op_out p) = Closed \<and> pm_writer (op_err p) = Closed))"
  using exec_settles [OF reached_ok [OF assms(1)] assms(2) _ assms(3)] fires_work [OF reached_ok [OF assms(1)]]
  by (fastforce dest: le_trans [OF le_add1])

lemma exec_finishes_witness: "quiescent sample \<and> op_result sample_op = Some (Inr 3)"
proof -
  have "\<forall>p\<in>set (mx_ops sample). polite p (sent (op_id p) (mx_arrived sample))"
    by (simp add: sample_facts(1)) (simp add: polite_def sample_facts)
  then have "op_result sample_op = verdict (sent (op_id sample_op) (mx_arrived sample))"
    using exec_finishes [OF sample_reached] sample_quiescent sample_facts(1,2,7,13) by simp
  then show ?thesis using sample_quiescent sample_facts(16) by simp
qed

text \<open>The streams are not decoupled from the connection: as long as nothing of an exec's (or session's)
  standard output is read, at most 291 of its messages leave the connection, and whatever has
  arrived behind the 292nd, for this or for any other operation, stays unread, so a reply or an
  exit there is not seen.\<close>

theorem unread_output_blocks_connection:
  assumes "reached s" "\<not> mx_closed s" "p \<in> set (mx_ops s)" "op_kind p \<noteq> Ping" "op_reg p"
    and "pm_read (op_out p) = []" "\<not> pm_gone (op_out p)"
    and "\<forall>m\<in>set (sent (op_id p) (mx_arrived s)). plain_output m"
    and "mx_arrived s = front @ behind" "291 < length (sent (op_id p) front)"
  shows "suffix behind (mx_in s)"
proof (rule ccontr)
  assume no: "\<not> suffix behind (mx_in s)"
  obtain i where i: "i < length (mx_ops s)" "p = mx_ops s ! i" using assms(3) by (auto simp: in_set_conv_nth)
  note ok = reached_ok [OF assms(1)]
  have o: "op_ok p" "op_flags False (mx_loop s) p" "op_flow s i p" using mux_ok_opsD [OF ok i(1)] i assms(2) by auto
  let ?id = "op_id p" let ?got = "op_seen p @ op_chan p @ held (mx_loop s) i @ sent ?id (decoded (mx_loop s))"
  have A: "sent ?id (mx_arrived s) = ?got @ sent ?id (mx_in s)"
    using o(3) assms(2,5) by (simp add: op_flow_def Let_def pending_def)
  have "suffix (mx_in s) (mx_arrived s)" using ok by (simp add: mux_ok_def)
  then have "suffix (mx_in s) behind" using no assms(9) by (metis suffixI suffix_same_cases)
  then obtain x where "behind = x @ mx_in s" by (auto simp: suffix_def)
  then have "sent ?id front @ sent ?id x = ?got" using A assms(9) by simp
  then have "length (sent ?id front) \<le> length ?got" by (metis length_append le_add1)
  moreover have "length (held (mx_loop s) i @ sent ?id (decoded (mx_loop s))) \<le> 1"
    by (cases "mx_loop s") simp_all
  moreover have "\<forall>m\<in>set (op_seen p). plain_output m" using A assms(8) by simp
  then have "length (op_seen p) + length (op_chan p) \<le> 2 + dataCap + chanCap"
    using unread_bound [OF o(1,2) assms(4,6,7)] by blast
  ultimately show False using assms(10) by (simp add: dataCap_def chanCap_def)
qed

lemma reached_arrivals:
  "reached s \<Longrightarrow> \<not> mx_ended s \<Longrightarrow> reached (s\<lparr>mx_in := mx_in s @ ms, mx_arrived := mx_arrived s @ ms\<rparr>)"
proof (induction ms rule: rev_induct)
  case (snoc m ms)
  then show ?case using reached.Step [of "s\<lparr>mx_in := mx_in s @ ms, mx_arrived := mx_arrived s @ ms\<rparr>" "Arrive m"] by simp
qed simp

lemma unread_output_blocks_connection_witness:
  "let m = data_message TypeStdout ''a'' ''hi''; p = new_op Exec ''a'';
       s = \<lparr>mx_in = replicate 292 m @ [m], mx_ended = False, mx_loop = Reading, mx_closed = False, mx_ops = [p],
            mx_arrived = replicate 292 m @ [m]\<rparr> in reached s \<and> suffix [m] (mx_in s)"
proof -
  define m where "m = data_message TypeStdout ''a'' ''hi''"
  define p where "p = new_op Exec ''a''"
  define s where "s = NewClientFromConn\<lparr>mx_ops := [p]\<rparr>"
  define t where "t = s\<lparr>mx_in := mx_in s @ replicate 292 m @ [m], mx_arrived := mx_arrived s @ replicate 292 m @ [m]\<rparr>"
  have "fire (Start Exec ''a'') NewClientFromConn = Some s" by (simp add: s_def p_def NewClientFromConn_def)
  then have "reached s" using reached.Step [OF reached.New] by blast
  then have r: "reached t" unfolding t_def by (rule reached_arrivals) (simp add: s_def NewClientFromConn_def)
  have t: "t = \<lparr>mx_in = replicate 292 m @ [m], mx_ended = False, mx_loop = Reading, mx_closed = False, mx_ops = [p],
            mx_arrived = replicate 292 m @ [m]\<rparr>" by (simp add: t_def s_def NewClientFromConn_def)
  have m: "mg_ID m = ''a''" "plain_output m" unfolding m_def by code_simp+
  have p: "op_id p = ''a''" "op_kind p \<noteq> Ping" "op_reg p" "pm_read (op_out p) = []" "\<not> pm_gone (op_out p)"
    by (simp_all add: p_def new_op_def new_pump_def)
  have "suffix [m] (mx_in t)"
    by (rule unread_output_blocks_connection [OF r, of p "replicate 292 m" "[m]"])
       (use m p in \<open>auto simp: t sent_def filter_replicate\<close>)
  then show ?thesis using r unfolding t m_def p_def Let_def by blast
qed

end
