(* ===== verification/Agent.thy ===== *)
theory Agent imports Mux begin

text \<open>
  The guest's end of a connection (\<open>cmd/navaris-agent/agent\<close>): the decode loop of \<open>server.go\<close> with its
  message router, and the goroutines of \<open>exec.go\<close> and \<open>session.go\<close>, as atomic steps in every order.
  Processes and terminals belong to the environment: what they write, when they end and with which
  code, whether they start.
\<close>

section \<open>A stream of a process\<close>

text \<open>
  \<open>streamOutput\<close>: what is in the pipe or terminal, whether its writing end is open, and the goroutine
  that reads and sends.  \<open>st_wrote\<close> is history: all that was ever written.
\<close>

datatype reader = Reads | Sends string | Over

record stream =
  st_pipe :: string
  st_open :: bool
  st_state :: reader
  st_wrote :: string

definition new_stream :: stream where
  "new_stream = \<lparr>st_pipe = [], st_open = True, st_state = Reads, st_wrote = []\<rparr>"

definition chunk :: int where "chunk = 32 * 1024"

datatype stream_event = Write string | CloseEnd | ReadSome nat | SeeEnd

fun stream_fire :: "stream_event \<Rightarrow> stream \<Rightarrow> stream option" where
  "stream_fire (Write d) s = (if st_open s then Some (s\<lparr>st_pipe := st_pipe s @ d, st_wrote := st_wrote s @ d\<rparr>) else None)"
| "stream_fire CloseEnd s = Some (s\<lparr>st_open := False\<rparr>)"
| "stream_fire (ReadSome n) s = (if st_state s = Reads \<and> st_pipe s \<noteq> [] \<and> 0 < n \<and> int n \<le> chunk
     then Some (s\<lparr>st_pipe := drop n (st_pipe s), st_state := Sends (take n (st_pipe s))\<rparr>) else None)"
| "stream_fire SeeEnd s = (if st_state s = Reads \<and> st_pipe s = [] \<and> \<not> st_open s then Some (s\<lparr>st_state := Over\<rparr>) else None)"

text \<open>A send that fails ends the loop.\<close>

definition stream_send :: "bool \<Rightarrow> string \<Rightarrow> string \<Rightarrow> stream \<Rightarrow> (message list \<times> stream) option" where
  "stream_send broken t i s = (case st_state s of
     Sends d \<Rightarrow> Some (if broken then ([], s\<lparr>st_state := Over\<rparr>) else ([data_message t i d], s\<lparr>st_state := Reads\<rparr>))
   | _ \<Rightarrow> None)"

section \<open>Commands\<close>

text \<open>\<open>ex_code\<close>: the process has ended with that code (-1 for a signal).\<close>

datatype exec_phase = Refused | Running | Finished

record guest_exec =
  ex_id :: string
  ex_phase :: exec_phase
  ex_out :: stream
  ex_err :: stream
  ex_code :: "int option"

definition exit_message :: "string \<Rightarrow> int \<Rightarrow> message" where
  "exit_message i c = \<lparr>mg_Version = ProtocolVersion, mg_Type = TypeExit, mg_ID = i, mg_Payload = Some (exit_json c)\<rparr>"

definition sendExit :: "bool \<Rightarrow> string \<Rightarrow> int \<Rightarrow> message list" where
  "sendExit broken i c = (if broken then [] else [exit_message i c])"

text \<open>
  \<open>HandleExec\<close>: a payload that does not decode, an empty command and a process that does not start
  (\<open>starts\<close>) are refused with code -1.
\<close>

definition HandleExec :: "bool \<Rightarrow> message \<Rightarrow> guest_exec" where
  "HandleExec starts req = \<lparr>ex_id = mg_ID req,
     ex_phase = (case payload set_exec zero_exec req of None \<Rightarrow> Refused
       | Some p \<Rightarrow> if xp_Command p = [] \<or> \<not> starts then Refused else Running),
     ex_out = new_stream, ex_err = new_stream, ex_code = None\<rparr>"

datatype exec_event = Refuse | OnStdout stream_event | OnStderr stream_event | SendStdout | SendStderr | Ends int | Report

definition exec_fire :: "bool \<Rightarrow> exec_event \<Rightarrow> guest_exec \<Rightarrow> (message list \<times> guest_exec) option" where
  "exec_fire broken e x = (case e of
     Refuse \<Rightarrow> if ex_phase x = Refused then Some (sendExit broken (ex_id x) (- 1), x\<lparr>ex_phase := Finished\<rparr>) else None
   | OnStdout f \<Rightarrow> if ex_phase x = Running then map_option (\<lambda>s. ([], x\<lparr>ex_out := s\<rparr>)) (stream_fire f (ex_out x)) else None
   | OnStderr f \<Rightarrow> if ex_phase x = Running then map_option (\<lambda>s. ([], x\<lparr>ex_err := s\<rparr>)) (stream_fire f (ex_err x)) else None
   | SendStdout \<Rightarrow> if ex_phase x = Running
       then map_option (\<lambda>(ms, s). (ms, x\<lparr>ex_out := s\<rparr>)) (stream_send broken TypeStdout (ex_id x) (ex_out x)) else None
   | SendStderr \<Rightarrow> if ex_phase x = Running
       then map_option (\<lambda>(ms, s). (ms, x\<lparr>ex_err := s\<rparr>)) (stream_send broken TypeStderr (ex_id x) (ex_err x)) else None
   | Ends c \<Rightarrow> if ex_phase x = Running \<and> ex_code x = None \<and> - (2 ^ 63) \<le> c \<and> c < 2 ^ 63
       then Some ([], x\<lparr>ex_code := Some c\<rparr>) else None
   | Report \<Rightarrow> (case ex_code x of None \<Rightarrow> None
       | Some c \<Rightarrow> if ex_phase x = Running \<and> st_state (ex_out x) = Over \<and> st_state (ex_err x) = Over
           then Some (sendExit broken (ex_id x) c, x\<lparr>ex_phase := Finished\<rparr>) else None))"

section \<open>Sessions\<close>

text \<open>
  \<open>se_chan\<close> is the inbox, of 64 messages; \<open>se_routed\<close> says whether the router has it, \<open>se_shut\<close>
  whether it is closed.  \<open>se_typed\<close> and \<open>se_size\<close> are what the terminal got; \<open>se_failed\<close> records a write
  to it that failed.
\<close>

datatype session_phase = NoTerminal | Declined | Bridging | Cleaning | Gone

record guest_session =
  se_id :: string
  se_phase :: session_phase
  se_chan :: "message list"
  se_routed :: bool
  se_shut :: bool
  se_out :: stream
  se_code :: "int option"
  se_typed :: string
  se_size :: "(int \<times> int) option"
  se_failed :: bool

definition inboxCap :: nat where "inboxCap = 64"

text \<open>The command of the session; an empty shell is \<open>/bin/sh\<close>.\<close>

definition session_command :: "shell_payload \<Rightarrow> string list" where
  "session_command p = (if sp_Command p \<noteq> [] then sp_Command p else [if sp_Shell p = [] then ''/bin/sh'' else sp_Shell p])"

definition HandleSession :: "(string list \<Rightarrow> bool) \<Rightarrow> message \<Rightarrow> guest_session" where
  "HandleSession starts req = \<lparr>se_id = mg_ID req,
     se_phase = (case payload set_session zero_session req of None \<Rightarrow> NoTerminal
       | Some p \<Rightarrow> if starts (session_command p) then Bridging else NoTerminal),
     se_chan = [], se_routed = True, se_shut = False, se_out = new_stream, se_code = None,
     se_typed = [], se_size = None, se_failed = False\<rparr>"

text \<open>One message of the inbox; \<open>ok\<close>: the write to the terminal succeeds.\<close>

definition session_message :: "bool \<Rightarrow> message \<Rightarrow> guest_session \<Rightarrow> guest_session" where
  "session_message ok m x =
     (if mg_Type m = TypeStdin then
        (case payload set_data [] m of None \<Rightarrow> x
         | Some d \<Rightarrow> if ok then x\<lparr>se_typed := se_typed x @ d\<rparr> else x\<lparr>se_phase := Cleaning, se_failed := True\<rparr>)
      else if mg_Type m = TypeResize then
        (case payload set_resize (0, 0) m of None \<Rightarrow> x | Some wh \<Rightarrow> x\<lparr>se_size := Some wh\<rparr>)
      else if mg_Type m = TypeSignal then x\<lparr>se_phase := Cleaning\<rparr>
      else x)"

text \<open>
  The events of a session: a message is taken, the closed inbox or the ended connection is seen; the
  shell ends; output is read and sent; once the terminal is closed, reading from it ends; the exit is
  sent with the code of the shell, -1 when it had to be killed, and the deferred \<open>unregister\<close> runs.
\<close>

datatype session_event = NoTerm | Take_in bool | SeeShut | SeeCancel | Shell_ends int | OnTty stream_event | SendTty | TtyGone | Leave

definition session_fire :: "bool \<Rightarrow> bool \<Rightarrow> session_event \<Rightarrow> guest_session \<Rightarrow> (message list \<times> guest_session) option" where
  "session_fire broken cancelled e x = (case e of
     NoTerm \<Rightarrow> if se_phase x = NoTerminal
       then Some (sendExit broken (se_id x) (- 1), x\<lparr>se_phase := Declined, se_routed := False, se_shut := True\<rparr>) else None
   | Take_in ok \<Rightarrow> if se_phase x \<noteq> Bridging then None
       else (case se_chan x of [] \<Rightarrow> None | m # ms \<Rightarrow> Some ([], session_message ok m (x\<lparr>se_chan := ms\<rparr>)))
   | SeeShut \<Rightarrow> if se_phase x = Bridging \<and> se_chan x = [] \<and> se_shut x then Some ([], x\<lparr>se_phase := Cleaning\<rparr>) else None
   | SeeCancel \<Rightarrow> if se_phase x = Bridging \<and> cancelled then Some ([], x\<lparr>se_phase := Cleaning\<rparr>) else None
   | Shell_ends c \<Rightarrow> if se_phase x = Bridging \<and> se_code x = None \<and> - (2 ^ 63) \<le> c \<and> c < 2 ^ 63
       then Some ([], x\<lparr>se_code := Some c\<rparr>) else None
   | OnTty f \<Rightarrow> if se_phase x = Bridging then map_option (\<lambda>s. ([], x\<lparr>se_out := s\<rparr>)) (stream_fire f (se_out x)) else None
   | SendTty \<Rightarrow> if se_phase x = Bridging \<or> se_phase x = Cleaning
       then map_option (\<lambda>(ms, s). (ms, x\<lparr>se_out := s\<rparr>)) (stream_send broken TypeStdout (se_id x) (se_out x)) else None
   | TtyGone \<Rightarrow> if se_phase x = Cleaning \<and> st_state (se_out x) = Reads
       then Some ([], x\<lparr>se_out := (se_out x)\<lparr>st_state := Over\<rparr>\<rparr>) else None
   | Leave \<Rightarrow> if se_phase x = Cleaning \<and> st_state (se_out x) = Over
       then Some (sendExit broken (se_id x) (case se_code x of None \<Rightarrow> - 1 | Some c \<Rightarrow> c),
              x\<lparr>se_phase := Gone, se_routed := False, se_shut := True\<rparr>) else None)"

section \<open>The connection\<close>

record conn =
  cn_in :: "message list"
  cn_ended :: bool
  cn_left :: bool
  cn_broken :: bool
  cn_execs :: "guest_exec list"
  cn_sessions :: "guest_session list"
  cn_sent :: "message list"
  cn_arrived :: "message list"

definition handleConn :: conn where
  "handleConn = \<lparr>cn_in = [], cn_ended = False, cn_left = False, cn_broken = False, cn_execs = [], cn_sessions = [],
     cn_sent = [], cn_arrived = []\<rparr>"

text \<open>\<open>route\<close>: to the inbox that has the id, or dropped when that is full.\<close>

fun route :: "message \<Rightarrow> guest_session list \<Rightarrow> guest_session list option" where
  "route m [] = None"
| "route m (x # xs) = (if se_routed x \<and> se_id x = mg_ID m
     then Some ((if length (se_chan x) < inboxCap then x\<lparr>se_chan := se_chan x @ [m]\<rparr> else x) # xs)
     else map_option (Cons x) (route m xs))"

definition closeAll :: "guest_session list \<Rightarrow> guest_session list" where
  "closeAll = map (\<lambda>x. if se_routed x then x\<lparr>se_routed := False, se_shut := True\<rparr> else x)"

text \<open>The deferred calls when the loop returns: inboxes are closed, the context cancelled, the connection closed.\<close>

definition leave :: "conn \<Rightarrow> conn" where
  "leave s = s\<lparr>cn_left := True, cn_broken := True, cn_sessions := closeAll (cn_sessions s)\<rparr>"

definition emit :: "message list \<Rightarrow> conn \<Rightarrow> conn" where
  "emit ms s = s\<lparr>cn_sent := cn_sent s @ ms\<rparr>"

text \<open>One message: routed, or a new request, or answered with code -1.\<close>

definition serve_message :: "(string list \<Rightarrow> bool) \<Rightarrow> message \<Rightarrow> conn \<Rightarrow> conn" where
  "serve_message starts m s = (case route m (cn_sessions s) of
     Some xs \<Rightarrow> s\<lparr>cn_sessions := xs\<rparr>
   | None \<Rightarrow>
       if mg_Type m = TypePing then
         (if cn_broken s then leave s
          else emit [\<lparr>mg_Version = ProtocolVersion, mg_Type = TypePong, mg_ID = mg_ID m, mg_Payload = None\<rparr>] s)
       else if mg_Type m = TypeExec then
         s\<lparr>cn_execs := cn_execs s @ [HandleExec (case payload set_exec zero_exec m of None \<Rightarrow> False | Some p \<Rightarrow> starts (xp_Command p)) m]\<rparr>
       else if mg_Type m = TypeSession then s\<lparr>cn_sessions := cn_sessions s @ [HandleSession starts m]\<rparr>
       else emit (sendExit (cn_broken s) (mg_ID m) (- 1)) s)"

datatype conn_event = Serve "string list \<Rightarrow> bool" | SeeEOF | OnExec nat exec_event | OnSession nat session_event
  | Comes message | PeerGone | Breaks

fun cfire :: "conn_event \<Rightarrow> conn \<Rightarrow> conn option" where
  "cfire (Serve starts) s = (if cn_left s then None
     else (case cn_in s of [] \<Rightarrow> None | m # ms \<Rightarrow> Some (serve_message starts m (s\<lparr>cn_in := ms\<rparr>))))"
| "cfire SeeEOF s = (if \<not> cn_left s \<and> cn_in s = [] \<and> cn_ended s then Some (leave s) else None)"
| "cfire (OnExec i e) s = (if i < length (cn_execs s)
     then map_option (\<lambda>(ms, x). emit ms (s\<lparr>cn_execs := (cn_execs s)[i := x]\<rparr>)) (exec_fire (cn_broken s) e (cn_execs s ! i))
     else None)"
| "cfire (OnSession i e) s = (if i < length (cn_sessions s)
     then map_option (\<lambda>(ms, x). emit ms (s\<lparr>cn_sessions := (cn_sessions s)[i := x]\<rparr>))
       (session_fire (cn_broken s) (cn_left s) e (cn_sessions s ! i))
     else None)"
| "cfire (Comes m) s = (if cn_ended s then None else Some (s\<lparr>cn_in := cn_in s @ [m], cn_arrived := cn_arrived s @ [m]\<rparr>))"
| "cfire PeerGone s = Some (s\<lparr>cn_ended := True\<rparr>)"
| "cfire Breaks s = Some (s\<lparr>cn_broken := True\<rparr>)"

inductive served :: "conn \<Rightarrow> bool" where
  Accepted: "served handleConn"
| Event: "served s \<Longrightarrow> cfire e s = Some s' \<Longrightarrow> served s'"

fun cfires :: "conn_event list \<Rightarrow> conn \<Rightarrow> conn option" where
  "cfires [] s = Some s"
| "cfires (e # es) s = (case cfire e s of None \<Rightarrow> None | Some s' \<Rightarrow> cfires es s')"

lemma served_cfires: "served s \<Longrightarrow> cfires es s = Some s' \<Longrightarrow> served s'"
  by (induction es arbitrary: s) (auto split: option.splits intro: served.Event)

section \<open>What a command has sent\<close>

definition holding :: "stream \<Rightarrow> string" where
  "holding s = (case st_state s of Sends d \<Rightarrow> d | _ \<Rightarrow> [])"

text \<open>What was sent of a stream is a prefix of what was written, and no more is missing than is under way.\<close>

definition stream_ok :: "bool \<Rightarrow> stream \<Rightarrow> string list \<Rightarrow> bool" where
  "stream_ok broken s ds \<longleftrightarrow> prefix (concat ds) (st_wrote s) \<and>
     (\<not> broken \<longrightarrow> concat ds @ holding s @ st_pipe s = st_wrote s \<and> (st_state s = Over \<longrightarrow> st_pipe s = [] \<and> \<not> st_open s))"

lemma stream_ok_fire: "stream_fire e s = Some t \<Longrightarrow> stream_ok b s ds \<Longrightarrow> stream_ok b t ds"
proof (cases e)
  case (Write d)
  then show "stream_fire e s = Some t \<Longrightarrow> stream_ok b s ds \<Longrightarrow> stream_ok b t ds"
    by (auto simp: stream_ok_def holding_def split: if_splits reader.splits simp flip: append_assoc)
qed (auto simp: stream_ok_def holding_def split: if_splits)

lemma stream_ok_send: "stream_send b ty i s = Some (ms, t) \<Longrightarrow> stream_ok b s ds \<Longrightarrow>
    (b \<longrightarrow> ms = [] \<and> stream_ok b t ds) \<and> (\<not> b \<longrightarrow> ms = [data_message ty i (holding s)] \<and> stream_ok b t (ds @ [holding s]))"
proof -
  assume a: "stream_send b ty i s = Some (ms, t)" "stream_ok b s ds"
  then have "\<not> b \<Longrightarrow> st_wrote s = (concat ds @ holding s) @ st_pipe s" by (simp add: stream_ok_def)
  then have "\<not> b \<Longrightarrow> prefix (concat ds @ holding s) (st_wrote s)" by (metis prefixI)
  then show ?thesis using a by (auto simp: stream_ok_def stream_send_def holding_def split: reader.splits if_splits)
qed

lemma stream_ok_new: "stream_ok b new_stream []"
  by (simp add: stream_ok_def new_stream_def holding_def)

lemma stream_ok_break: "stream_ok b s ds \<Longrightarrow> stream_ok True s ds"
  by (simp add: stream_ok_def)

lemma data_message_simps [simp]: "mg_Type (data_message t i d) = t" "mg_ID (data_message t i d) = i"
  "payload set_data [] (data_message t i d) = Some d"
  by (simp_all add: data_message_def payload_def)

lemma exit_message_simps [simp]: "mg_Type (exit_message i c) = TypeExit" "mg_ID (exit_message i c) = i"
  "- (2 ^ 63) \<le> c \<Longrightarrow> c < 2 ^ 63 \<Longrightarrow> payload set_exit 0 (exit_message i c) = Some c"
  by (simp_all add: exit_message_def payload_def)

lemma verdict_exit: "- (2 ^ 63) \<le> c \<Longrightarrow> c < 2 ^ 63 \<Longrightarrow> verdict (exit_message i c # ms) = Some (Inr c)"
  by (simp add: verdict_def)

definition final_code :: "int option \<Rightarrow> int" where
  "final_code c = (case c of None \<Rightarrow> - 1 | Some x \<Rightarrow> x)"

definition exec_ok :: "bool \<Rightarrow> guest_exec \<Rightarrow> message list \<Rightarrow> bool" where
  "exec_ok broken x ms \<longleftrightarrow>
     \<not> exited (butlast ms) \<and> - (2 ^ 63) \<le> final_code (ex_code x) \<and> final_code (ex_code x) < 2 ^ 63 \<and>
     stream_ok (broken \<or> ex_phase x = Finished) (ex_out x) (outputs TypeStdout ms) \<and>
     stream_ok (broken \<or> ex_phase x = Finished) (ex_err x) (outputs TypeStderr ms) \<and>
     (exited ms \<longrightarrow> ex_phase x = Finished \<and> verdict ms = Some (Inr (final_code (ex_code x))) \<and>
        concat (outputs TypeStdout ms) = st_wrote (ex_out x) \<and> concat (outputs TypeStderr ms) = st_wrote (ex_err x)) \<and>
     (ex_phase x = Refused \<longrightarrow> ms = [] \<and> st_wrote (ex_out x) = [] \<and> st_wrote (ex_err x) = [] \<and> ex_code x = None) \<and>
     (ex_phase x = Finished \<and> \<not> broken \<longrightarrow> exited ms)"

lemma exec_ok_fire:
  assumes "exec_fire b e x = Some (ms, y)" "exec_ok b x sn"
  shows "exec_ok b y (sn @ ms)"
proof (cases e)
  case Refuse
  then have y: "ex_phase x = Refused" "y = x\<lparr>ex_phase := Finished\<rparr>" "ms = sendExit b (ex_id x) (- 1)"
    using assms(1) by (auto simp: exec_fire_def split: if_splits)
  then have "sn = []" "ex_code x = None" "st_wrote (ex_out x) = []" "st_wrote (ex_err x) = []" using assms(2) by (auto simp: exec_ok_def)
  then show ?thesis using y
    by (simp add: exec_ok_def stream_ok_def final_code_def sendExit_def verdict_single outputs_single)
next
  case (OnStdout f)
  then obtain t where "stream_fire f (ex_out x) = Some t" "y = x\<lparr>ex_out := t\<rparr>" "ms = []" "ex_phase x = Running"
    using assms(1) by (auto simp: exec_fire_def split: if_splits)
  then show ?thesis using assms(2) stream_ok_fire [of f "ex_out x" t] by (simp add: exec_ok_def)
next
  case (OnStderr f)
  then obtain t where "stream_fire f (ex_err x) = Some t" "y = x\<lparr>ex_err := t\<rparr>" "ms = []" "ex_phase x = Running"
    using assms(1) by (auto simp: exec_fire_def split: if_splits)
  then show ?thesis using assms(2) stream_ok_fire [of f "ex_err x" t] by (simp add: exec_ok_def)
next
  case SendStdout
  then obtain t where t: "stream_send b TypeStdout (ex_id x) (ex_out x) = Some (ms, t)" "y = x\<lparr>ex_out := t\<rparr>" "ex_phase x = Running"
    using assms(1) by (auto simp: exec_fire_def split: if_splits)
  have "\<not> exited sn" "stream_ok b (ex_out x) (outputs TypeStdout sn)" using assms(2) t(3) by (auto simp: exec_ok_def)
  then show ?thesis using assms(2) t stream_ok_send [OF t(1), of "outputs TypeStdout sn"]
    by (cases b) (auto simp: exec_ok_def outputs_single)
next
  case SendStderr
  then obtain t where t: "stream_send b TypeStderr (ex_id x) (ex_err x) = Some (ms, t)" "y = x\<lparr>ex_err := t\<rparr>" "ex_phase x = Running"
    using assms(1) by (auto simp: exec_fire_def split: if_splits)
  have "\<not> exited sn" "stream_ok b (ex_err x) (outputs TypeStderr sn)" using assms(2) t(3) by (auto simp: exec_ok_def)
  then show ?thesis using assms(2) t stream_ok_send [OF t(1), of "outputs TypeStderr sn"]
    by (cases b) (auto simp: exec_ok_def outputs_single)
next
  case (Ends c)
  then have "ms = []" "y = x\<lparr>ex_code := Some c\<rparr>" "ex_phase x = Running" "- (2 ^ 63) \<le> c" "c < 2 ^ 63"
    using assms(1) by (auto simp: exec_fire_def split: if_splits)
  then show ?thesis using assms(2) by (simp add: exec_ok_def final_code_def)
next
  case Report
  then obtain c where c: "ex_code x = Some c" "ex_phase x = Running" "st_state (ex_out x) = Over" "st_state (ex_err x) = Over"
    "ms = sendExit b (ex_id x) c" "y = x\<lparr>ex_phase := Finished\<rparr>"
    using assms(1) by (auto simp: exec_fire_def split: if_splits option.splits)
  then have "\<not> exited sn" using assms(2) by (auto simp: exec_ok_def)
  then show ?thesis using assms(2) c
    by (cases b) (auto simp: exec_ok_def stream_ok_def holding_def sendExit_def final_code_def verdict_single outputs_single)
qed

section \<open>Ids on the connection\<close>

definition with_id :: "('a \<Rightarrow> string) \<Rightarrow> string \<Rightarrow> 'a list \<Rightarrow> 'a list" where
  "with_id f i xs = filter (\<lambda>x. f x = i) xs"

lemma with_id_simps [simp]: "with_id f i [] = []" "with_id f i (xs @ ys) = with_id f i xs @ with_id f i ys"
  "with_id f i (x # xs) = (if f x = i then x # with_id f i xs else with_id f i xs)"
  by (simp_all add: with_id_def)

lemma length_with_id_update: "f y = f (xs ! k) \<Longrightarrow> length (with_id f i (xs[k := y])) = length (with_id f i xs)"
  by (induction xs arbitrary: k) (auto split: nat.splits)

lemma exec_fire_id: "exec_fire b e x = Some (ms, y) \<Longrightarrow> ex_id y = ex_id x \<and> (\<forall>m\<in>set ms. mg_ID m = ex_id x)"
  by (cases e) (auto simp: exec_fire_def sendExit_def stream_send_def split: if_splits option.splits reader.splits)

lemma session_message_frame [simp]: "se_id (session_message ok m x) = se_id x" "se_chan (session_message ok m x) = se_chan x"
  "se_routed (session_message ok m x) = se_routed x" "se_shut (session_message ok m x) = se_shut x"
  by (auto simp: session_message_def split: option.split)

lemma stream_send_id: "stream_send b t i s = Some (ms, y) \<Longrightarrow> m \<in> set ms \<Longrightarrow> mg_ID m = i"
  by (auto simp: stream_send_def split: reader.splits if_splits)

lemma session_fire_id: "session_fire b c e x = Some (ms, y) \<Longrightarrow> se_id y = se_id x \<and> (\<forall>m\<in>set ms. mg_ID m = se_id x)"
proof (cases e)
  case (Take_in ok)
  then show "session_fire b c e x = Some (ms, y) \<Longrightarrow> ?thesis" by (auto simp: session_fire_def split: if_splits list.splits)
next
  case SendTty
  then show "session_fire b c e x = Some (ms, y) \<Longrightarrow> ?thesis"
    by (auto simp: session_fire_def split: if_splits dest: stream_send_id)
qed (auto simp: session_fire_def sendExit_def split: if_splits)

lemma route_ids: "route m xs = Some ys \<Longrightarrow> map se_id ys = map se_id xs"
  by (induction xs arbitrary: ys) (auto split: if_splits)

lemma route_some: "route m xs = Some ys \<Longrightarrow> \<exists>x\<in>set xs. se_routed x \<and> se_id x = mg_ID m"
  by (induction xs arbitrary: ys) (auto split: if_splits)

lemma route_none: "route m xs = None \<Longrightarrow> x \<in> set xs \<Longrightarrow> se_routed x \<Longrightarrow> se_id x \<noteq> mg_ID m"
  by (induction xs) (auto split: if_splits)

lemma length_with_id: "length (with_id f i xs) = length (filter (\<lambda>j. j = i) (map f xs))"
  by (induction xs) simp_all

lemma length_with_id_map: "map f xs = map f ys \<Longrightarrow> length (with_id f i xs) = length (with_id f i ys)"
  by (simp add: length_with_id)

text \<open>Every request, operation and message belongs to a message that came in.\<close>

definition ids_ok :: "conn \<Rightarrow> bool" where
  "ids_ok s \<longleftrightarrow> (\<forall>i.
     length (with_id ex_id i (cn_execs s)) + length (with_id se_id i (cn_sessions s)) + length (sent i (cn_in s)) \<le> length (sent i (cn_arrived s)) \<and>
     (sent i (cn_sent s) \<noteq> [] \<longrightarrow> length (sent i (cn_in s)) < length (sent i (cn_arrived s))))"

lemma with_id_pos: "k < length xs \<Longrightarrow> f (xs ! k) = i \<Longrightarrow> 0 < length (with_id f i xs)"
  by (metis (mono_tags) filter_empty_conv length_greater_0_conv nth_mem with_id_def)

lemma sent_all: "\<forall>m\<in>set ms. mg_ID m = i \<Longrightarrow> sent j ms = (if j = i then ms else [])"
  by (auto simp: sent_def filter_empty_conv filter_id_conv)

lemma ids_ok_serve: "ids_ok (s\<lparr>cn_in := m # ms\<rparr>) \<Longrightarrow> ids_ok (serve_message starts m (s\<lparr>cn_in := ms\<rparr>))"
proof -
  assume ok: "ids_ok (s\<lparr>cn_in := m # ms\<rparr>)"
  have c: "length (with_id se_id i (closeAll xs)) = length (with_id se_id i xs)" for i xs
    by (rule length_with_id_map) (simp add: closeAll_def)
  have at: "length (with_id ex_id i (cn_execs s)) + length (with_id se_id i (cn_sessions s)) + length (sent i (m # ms)) \<le> length (sent i (cn_arrived s))"
    "sent i (cn_sent s) \<noteq> [] \<longrightarrow> length (sent i (m # ms)) < length (sent i (cn_arrived s))" for i
    using ok by (simp_all add: ids_ok_def)
  have "length (with_id ex_id i (cn_execs t)) + length (with_id se_id i (cn_sessions t)) + length (sent i (cn_in t)) \<le> length (sent i (cn_arrived t)) \<and>
     (sent i (cn_sent t) \<noteq> [] \<longrightarrow> length (sent i (cn_in t)) < length (sent i (cn_arrived t)))" if t: "t = serve_message starts m (s\<lparr>cn_in := ms\<rparr>)" for i t
  proof (cases "route m (cn_sessions s)")
    case (Some xs)
    have "length (with_id se_id i xs) = length (with_id se_id i (cn_sessions s))" using route_ids [OF Some] by (rule length_with_id_map)
    then show ?thesis using at [of i] Some by (cases "mg_ID m = i") (simp_all add: t serve_message_def)
  next
    case None
    consider "mg_Type m = TypePing" | "mg_Type m = TypeExec" | "mg_Type m = TypeSession" | "mg_Type m \<notin> {TypePing, TypeExec, TypeSession}" by blast
    then show ?thesis using at [of i] None
      by cases (cases "mg_ID m = i"; cases "cn_broken s"; simp add: t serve_message_def emit_def leave_def sendExit_def HandleExec_def HandleSession_def c message_types)+
  qed
  then show ?thesis by (simp add: ids_ok_def)
qed

lemma two_with_id: "j < length xs \<Longrightarrow> k < length xs \<Longrightarrow> j \<noteq> k \<Longrightarrow> f (xs ! j) = i \<Longrightarrow> f (xs ! k) = i \<Longrightarrow> 2 \<le> length (with_id f i xs)"
proof -
  assume a: "j < length xs" "k < length xs" "j \<noteq> k" "f (xs ! j) = i" "f (xs ! k) = i"
  have "{j, k} \<subseteq> {n. n < length xs \<and> f (xs ! n) = i}" using a by auto
  then have "card {j, k} \<le> card {n. n < length xs \<and> f (xs ! n) = i}" by (intro card_mono) auto
  then show ?thesis using a(3) by (simp add: with_id_def length_filter_conv_card)
qed

definition sole :: "string \<Rightarrow> conn \<Rightarrow> bool" where
  "sole i s \<longleftrightarrow> length (sent i (cn_arrived s)) \<le> 1"

definition execs_ok :: "conn \<Rightarrow> bool" where
  "execs_ok s \<longleftrightarrow> (\<forall>k<length (cn_execs s). sole (ex_id (cn_execs s ! k)) s \<longrightarrow>
     exec_ok (cn_broken s) (cn_execs s ! k) (sent (ex_id (cn_execs s ! k)) (cn_sent s)))"

lemma exec_ok_break: "exec_ok b x ms \<Longrightarrow> exec_ok True x ms"
proof -
  assume e: "exec_ok b x ms"
  then have "stream_ok True (ex_out x) (outputs TypeStdout ms)" "stream_ok True (ex_err x) (outputs TypeStderr ms)"
    unfolding exec_ok_def by (blast intro: stream_ok_break)+
  then show ?thesis using e unfolding exec_ok_def simp_thms by blast
qed

lemma exec_ok_new: "exec_ok b (HandleExec starts m) []"
proof -
  have "st_wrote new_stream = []" by (simp add: new_stream_def)
  then show ?thesis by (simp add: exec_ok_def HandleExec_def stream_ok_new final_code_def split: option.split)
qed

text \<open>What an id has to itself: when one message has come with it, nothing else on the connection has it.\<close>

lemma sole_exec:
  assumes "ids_ok s" "k < length (cn_execs s)" "i = ex_id (cn_execs s ! k)" "sole i s"
  shows "sent i (cn_in s) = []" "with_id se_id i (cn_sessions s) = []"
    "\<And>j. j < length (cn_execs s) \<Longrightarrow> ex_id (cn_execs s ! j) = i \<Longrightarrow> j = k"
proof -
  have c: "length (with_id ex_id i (cn_execs s)) + length (with_id se_id i (cn_sessions s)) + length (sent i (cn_in s)) \<le> 1"
    using assms(1,4) unfolding ids_ok_def sole_def by (meson le_trans)
  have "0 < length (with_id ex_id i (cn_execs s))" using with_id_pos [OF assms(2), of ex_id i] assms(3) by simp
  then have "length (sent i (cn_in s)) = 0" "length (with_id se_id i (cn_sessions s)) = 0" using c by linarith+
  then show "sent i (cn_in s) = []" "with_id se_id i (cn_sessions s) = []" by simp_all
  show "j = k" if "j < length (cn_execs s)" "ex_id (cn_execs s ! j) = i" for j
    using two_with_id [of j "cn_execs s" k ex_id i] that assms(2,3) c by fastforce
qed

lemma serve_frame: "mg_ID m \<noteq> i \<Longrightarrow> sent i (cn_sent (serve_message st m s)) = sent i (cn_sent s)"
  "cn_arrived (serve_message st m s) = cn_arrived s" "cn_broken s \<Longrightarrow> cn_broken (serve_message st m s)"
  "cn_execs (serve_message st m s) = cn_execs s \<or> (\<exists>b. cn_execs (serve_message st m s) = cn_execs s @ [HandleExec b m] \<and> cn_sent (serve_message st m s) = cn_sent s)"
  by (auto simp: serve_message_def emit_def leave_def sendExit_def split: option.split)

lemma execs_ok_serve:
  assumes "ids_ok (s\<lparr>cn_in := m # ms\<rparr>)" "execs_ok (s\<lparr>cn_in := m # ms\<rparr>)"
  shows "execs_ok (serve_message st m (s\<lparr>cn_in := ms\<rparr>))"
  unfolding execs_ok_def
proof (intro allI impI)
  fix k
  let ?s = "s\<lparr>cn_in := m # ms\<rparr>" and ?t = "serve_message st m (s\<lparr>cn_in := ms\<rparr>)"
  let ?x = "cn_execs ?t ! k" let ?i = "ex_id ?x"
  assume k: "k < length (cn_execs ?t)" and sole: "sole ?i ?t"
  have so: "sole ?i ?s" using sole by (simp add: sole_def serve_frame)
  have brk: "exec_ok (cn_broken s) x l \<Longrightarrow> exec_ok (cn_broken ?t) x l" for x l
    using exec_ok_break serve_frame(3) [of "s\<lparr>cn_in := ms\<rparr>" st m] by (cases "cn_broken s"; cases "cn_broken ?t") auto
  show "exec_ok (cn_broken ?t) ?x (sent ?i (cn_sent ?t))"
  proof (cases "k < length (cn_execs s)")
    case True
    have x: "?x = cn_execs s ! k" using serve_frame(4) [of st m "s\<lparr>cn_in := ms\<rparr>"] True by (auto simp: nth_append)
    have "sent ?i (m # ms) = []" using sole_exec(1) [OF assms(1), of k ?i] True so x by simp
    then have "mg_ID m \<noteq> ?i" by (auto split: if_splits)
    then have "sent ?i (cn_sent ?t) = sent ?i (cn_sent s)" using serve_frame(1) [of m ?i st "s\<lparr>cn_in := ms\<rparr>"] by simp
    moreover have "exec_ok (cn_broken s) (cn_execs s ! k) (sent (ex_id (cn_execs s ! k)) (cn_sent s))"
      using assms(2) True so x by (simp add: execs_ok_def)
    ultimately show ?thesis using brk x by simp
  next
    case False
    then obtain b where b: "cn_execs ?t = cn_execs s @ [HandleExec b m]" "cn_sent ?t = cn_sent s"
      using k serve_frame(4) [of st m "s\<lparr>cn_in := ms\<rparr>"] by auto
    then have x: "?x = HandleExec b m" using k False by (simp add: nth_append)
    then have i: "?i = mg_ID m" by (simp add: HandleExec_def)
    have l: "length (sent ?i (cn_arrived s)) \<le> 1" using so by (simp add: sole_def)
    have "sent ?i (cn_sent s) = []"
    proof (rule ccontr)
      assume "sent ?i (cn_sent s) \<noteq> []"
      then have "length (sent ?i (m # ms)) < length (sent ?i (cn_arrived s))" using assms(1) by (simp add: ids_ok_def)
      then show False using l i by simp
    qed
    then show ?thesis using b x exec_ok_new by simp
  qed
qed

text \<open>The other events change neither ids nor what has come in.\<close>

lemma ids_ok_update:
  assumes "ids_ok s" "cn_in t = cn_in s" "cn_arrived t = cn_arrived s"
    "map ex_id (cn_execs t) = map ex_id (cn_execs s)" "map se_id (cn_sessions t) = map se_id (cn_sessions s)"
    "cn_sent t = cn_sent s @ ms"
    "\<forall>m\<in>set ms. mg_ID m \<in> ex_id ` set (cn_execs s) \<union> se_id ` set (cn_sessions s)"
  shows "ids_ok t"
proof -
  have l: "length (with_id ex_id i (cn_execs t)) = length (with_id ex_id i (cn_execs s))"
    "length (with_id se_id i (cn_sessions t)) = length (with_id se_id i (cn_sessions s))" for i
    using length_with_id_map assms(4,5) by blast+
  have "length (sent i (cn_in s)) < length (sent i (cn_arrived s))" if "sent i ms \<noteq> []" for i
  proof -
    have "i \<in> ex_id ` set (cn_execs s) \<union> se_id ` set (cn_sessions s)"
      using that assms(7) by (auto simp: sent_def filter_empty_conv)
    then have "with_id ex_id i (cn_execs s) \<noteq> [] \<or> with_id se_id i (cn_sessions s) \<noteq> []"
      by (auto simp: with_id_def filter_empty_conv)
    then have "0 < length (with_id ex_id i (cn_execs s)) + length (with_id se_id i (cn_sessions s))" by auto
    moreover have "length (with_id ex_id i (cn_execs s)) + length (with_id se_id i (cn_sessions s)) + length (sent i (cn_in s)) \<le> length (sent i (cn_arrived s))"
      using assms(1) by (simp add: ids_ok_def)
    ultimately show ?thesis by linarith
  qed
  then show ?thesis using assms(1,2,3,6) by (auto simp: ids_ok_def l)
qed

lemma ids_ok_left: "ids_ok s \<Longrightarrow> ids_ok (leave s)"
  by (rule ids_ok_update [of s _ "[]"]) (simp_all add: leave_def closeAll_def)

lemma ids_ok_fire: "ids_ok s \<Longrightarrow> cfire e s = Some t \<Longrightarrow> ids_ok t"
proof (induction e)
  case (Serve st)
  then obtain m ms where m: "cn_in s = m # ms" and t: "t = serve_message st m (s\<lparr>cn_in := ms\<rparr>)" by (auto split: if_splits list.splits)
  have "s\<lparr>cn_in := m # ms\<rparr> = s" using m by (cases s) simp
  then show ?case unfolding t using Serve.prems(1) by (intro ids_ok_serve) simp
next
  case (OnExec k e)
  then obtain ms x where k: "k < length (cn_execs s)" and x: "exec_fire (cn_broken s) e (cn_execs s ! k) = Some (ms, x)"
    and t: "t = emit ms (s\<lparr>cn_execs := (cn_execs s)[k := x]\<rparr>)" by (auto split: if_splits)
  show ?case using exec_fire_id [OF x] k OnExec.prems(1)
    by (intro ids_ok_update [of s t ms]) (simp_all add: t emit_def map_update list_update_same_conv)
next
  case (OnSession k e)
  then obtain ms x where k: "k < length (cn_sessions s)" and x: "session_fire (cn_broken s) (cn_left s) e (cn_sessions s ! k) = Some (ms, x)"
    and t: "t = emit ms (s\<lparr>cn_sessions := (cn_sessions s)[k := x]\<rparr>)" by (auto split: if_splits)
  show ?case using session_fire_id [OF x] k OnSession.prems(1)
    by (intro ids_ok_update [of s t ms]) (simp_all add: t emit_def map_update list_update_same_conv)
next
  case (Comes m)
  then have "t = s\<lparr>cn_in := cn_in s @ [m], cn_arrived := cn_arrived s @ [m]\<rparr>" by (simp split: if_splits)
  then show ?case using Comes.prems(1) by (auto simp: ids_ok_def) (metis add.assoc)
next
  case SeeEOF
  then have "t = leave s" by (auto split: if_splits)
  then show ?case using ids_ok_left SeeEOF.prems(1) by simp
qed (auto intro: ids_ok_update [of s _ "[]"])

lemma execs_ok_same:
  assumes "execs_ok s" "cn_execs t = cn_execs s" "cn_sent t = cn_sent s" "cn_broken t = cn_broken s \<or> cn_broken t"
    "\<And>i. sole i t \<Longrightarrow> sole i s"
  shows "execs_ok t"
  using assms exec_ok_break unfolding execs_ok_def by (metis (full_types))

lemma execs_ok_fire: "ids_ok s \<Longrightarrow> execs_ok s \<Longrightarrow> cfire e s = Some t \<Longrightarrow> execs_ok t"
proof (induction e)
  case (Serve st)
  then obtain m ms where m: "cn_in s = m # ms" and t: "t = serve_message st m (s\<lparr>cn_in := ms\<rparr>)" by (auto split: if_splits list.splits)
  have "s\<lparr>cn_in := m # ms\<rparr> = s" using m by (cases s) simp
  then show ?case unfolding t using Serve.prems(1,2) by (intro execs_ok_serve) simp_all
next
  case (OnExec k e)
  then obtain ms x where k: "k < length (cn_execs s)" and x: "exec_fire (cn_broken s) e (cn_execs s ! k) = Some (ms, x)"
    and t: "t = emit ms (s\<lparr>cn_execs := (cn_execs s)[k := x]\<rparr>)" by (auto split: if_splits)
  note id = exec_fire_id [OF x]
  have "exec_ok (cn_broken s) ((cn_execs s)[k := x] ! j) (sent (ex_id ((cn_execs s)[k := x] ! j)) (cn_sent s @ ms))"
    if j: "j < length (cn_execs s)" "sole (ex_id ((cn_execs s)[k := x] ! j)) s" for j
  proof (cases "j = k")
    case True
    have "exec_ok (cn_broken s) (cn_execs s ! k) (sent (ex_id (cn_execs s ! k)) (cn_sent s))"
      using OnExec.prems(2) j k id True by (simp add: execs_ok_def)
    then show ?thesis using exec_ok_fire [OF x] id k True sent_all [of ms "ex_id (cn_execs s ! k)"] by simp
  next
    case False
    then have "ex_id (cn_execs s ! j) \<noteq> ex_id (cn_execs s ! k)"
      using sole_exec(3) [OF OnExec.prems(1) k refl, of j] j by auto
    then have "sent (ex_id (cn_execs s ! j)) ms = []" using sent_all [of ms "ex_id (cn_execs s ! k)"] id by simp
    then show ?thesis using OnExec.prems(2) j False by (simp add: execs_ok_def)
  qed
  then show ?case by (simp add: execs_ok_def t emit_def sole_def)
next
  case (OnSession k e)
  then obtain ms x where k: "k < length (cn_sessions s)" and x: "session_fire (cn_broken s) (cn_left s) e (cn_sessions s ! k) = Some (ms, x)"
    and t: "t = emit ms (s\<lparr>cn_sessions := (cn_sessions s)[k := x]\<rparr>)" by (auto split: if_splits)
  have "sent (ex_id (cn_execs s ! j)) ms = []" if j: "j < length (cn_execs s)" "sole (ex_id (cn_execs s ! j)) s" for j
  proof -
    have "se_id (cn_sessions s ! k) \<noteq> ex_id (cn_execs s ! j)"
      using sole_exec(2) [OF OnSession.prems(1) j(1) refl j(2)] k by (auto simp: with_id_def filter_empty_conv)
    then show ?thesis using sent_all [of ms "se_id (cn_sessions s ! k)"] session_fire_id [OF x] by auto
  qed
  then show ?case using OnSession.prems(2) by (simp add: execs_ok_def t emit_def sole_def)
next
  case (Comes m)
  then have t: "t = s\<lparr>cn_in := cn_in s @ [m], cn_arrived := cn_arrived s @ [m]\<rparr>" by (simp split: if_splits)
  show ?case using Comes.prems(2) by (rule execs_ok_same) (auto simp: t sole_def split: if_splits)
next
  case SeeEOF
  then have t: "t = leave s" by (simp split: if_splits)
  show ?case using SeeEOF.prems(2) by (rule execs_ok_same) (auto simp: t leave_def sole_def)
next
  case PeerGone
  then have t: "t = s\<lparr>cn_ended := True\<rparr>" by simp
  show ?case using PeerGone.prems(2) by (rule execs_ok_same) (auto simp: t sole_def)
next
  case Breaks
  then have t: "t = s\<lparr>cn_broken := True\<rparr>" by simp
  show ?case using Breaks.prems(2) by (rule execs_ok_same) (auto simp: t sole_def)
qed

lemma served_ok: "served s \<Longrightarrow> ids_ok s \<and> execs_ok s"
proof (induction rule: served.induct)
  case Accepted
  then show ?case by (simp add: handleConn_def ids_ok_def execs_ok_def)
qed (use ids_ok_fire execs_ok_fire in blast)

lemma served_exec: "served s \<Longrightarrow> x \<in> set (cn_execs s) \<Longrightarrow> sole (ex_id x) s \<Longrightarrow> exec_ok (cn_broken s) x (sent (ex_id x) (cn_sent s))"
  using served_ok by (auto simp: execs_ok_def in_set_conv_nth)

section \<open>From the process to the caller\<close>

text \<open>C28: End to end, the caller of an exec without input reads what the command has written.  The exec is one
  for whose id the connection has carried exactly one message, the request, so no stdin, signal or
  resize was sent to it.  When the client gets, in order, a first part of the messages the agent has
  sent, then at any moment the caller has read a prefix of each stream of the process; and when
  \<open>Wait\<close> has given a code and the reader is at the end, it has read everything the process wrote, and
  the code is the one the process ended with, or -1 when it could not be started.\<close>

theorem exec_end_to_end:
  assumes "served c" "x \<in> set (cn_execs c)" "length (sent (ex_id x) (cn_arrived c)) = 1"
    and "reached s" "p \<in> set (mx_ops s)" "op_kind p = Exec" "op_id p = ex_id x" "prefix (mx_arrived s) (cn_sent c)"
  shows "prefix (pm_read (op_out p)) (st_wrote (ex_out x)) \<and> prefix (pm_read (op_err p)) (st_wrote (ex_err x)) \<and>
    (\<forall>code. op_result p = Some (Inr code) \<longrightarrow> code = final_code (ex_code x) \<and>
      (pm_writer (op_out p) = Closed \<and> \<not> pm_gone (op_out p) \<longrightarrow> pm_read (op_out p) = st_wrote (ex_out x)) \<and>
      (pm_writer (op_err p) = Closed \<and> \<not> pm_gone (op_err p) \<longrightarrow> pm_read (op_err p) = st_wrote (ex_err x)))"
proof -
  let ?A = "sent (op_id p) (mx_arrived s)" and ?M = "sent (ex_id x) (cn_sent c)"
  have e: "exec_ok (cn_broken c) x ?M" using served_exec [OF assms(1,2)] assms(3) by (simp add: sole_def)
  obtain more where M: "?M = ?A @ more" using assms(7,8) by (auto simp: prefix_def)
  have w: "prefix (concat (outputs TypeStdout ?A)) (st_wrote (ex_out x))" "prefix (concat (outputs TypeStderr ?A)) (st_wrote (ex_err x))"
  proof -
    have "prefix (concat (outputs TypeStdout ?M)) (st_wrote (ex_out x))" "prefix (concat (outputs TypeStderr ?M)) (st_wrote (ex_err x))"
      using e unfolding exec_ok_def stream_ok_def by blast+
    then show "prefix (concat (outputs TypeStdout ?A)) (st_wrote (ex_out x))" "prefix (concat (outputs TypeStderr ?A)) (st_wrote (ex_err x))"
      unfolding M outputs_append concat_append by (blast dest: append_prefixD)+
  qed
  note c = exec_output_exact [OF assms(4-6)]
  have whole: "verdict ?A = Some (Inr (final_code (ex_code x))) \<and> concat (outputs TypeStdout ?A) = st_wrote (ex_out x) \<and>
    concat (outputs TypeStderr ?A) = st_wrote (ex_err x)" if "verdict ?A = Some r" for r
  proof -
    have x: "exited ?A" using that verdict_exited by force
    then have "verdict ?M = verdict ?A" "outputs t ?M = outputs t ?A" "exited ?M" for t by (simp_all add: M)
    then show ?thesis using e by (simp add: exec_ok_def)
  qed
  have "prefix (pm_read (op_out p)) (st_wrote (ex_out x))" "prefix (pm_read (op_err p)) (st_wrote (ex_err x))"
    using c w prefix_order.trans by blast+
  moreover have "code = final_code (ex_code x) \<and> concat (outputs TypeStdout ?A) = st_wrote (ex_out x) \<and>
    concat (outputs TypeStderr ?A) = st_wrote (ex_err x)" if "op_result p = Some (Inr code)" for code
    using c that whole by auto
  ultimately show ?thesis using c by auto
qed

definition guest_run :: "conn_event list" where
  "guest_run = [Comes \<lparr>mg_Version = 1, mg_Type = TypeExec, mg_ID = ''a'', mg_Payload = Some (exec_json (zero_exec\<lparr>xp_Command := [''echo'']\<rparr>))\<rparr>,
     Serve (\<lambda>_. True), OnExec 0 (OnStdout (Write ''hi'')), OnExec 0 (OnStdout (ReadSome 10)), OnExec 0 SendStdout,
     OnExec 0 (OnStdout CloseEnd), OnExec 0 (OnStderr CloseEnd), OnExec 0 (OnStdout SeeEnd), OnExec 0 (OnStderr SeeEnd),
     OnExec 0 (Ends 3), OnExec 0 Report]"

definition guest :: conn where
  "guest = the (cfires guest_run handleConn)"

lemma served_run: "cfires es handleConn \<noteq> None \<Longrightarrow> served (the (cfires es handleConn))"
  using served_cfires [OF served.Accepted] by auto

lemma exec_end_to_end_witness:
  "served guest \<and> reached sample \<and> prefix (mx_arrived sample) (cn_sent guest) \<and> pm_read (op_out sample_op) = st_wrote (ex_out (hd (cn_execs guest)))"
proof -
  let ?x = "hd (cn_execs guest)"
  have g: "served guest" unfolding guest_def by (rule served_run) code_simp
  have f: "cn_execs guest \<noteq> []" "length (sent (ex_id ?x) (cn_arrived guest)) = 1" "op_id sample_op = ex_id ?x" "mx_arrived sample = cn_sent guest"
    by code_simp+
  have p: "prefix (mx_arrived sample) (cn_sent guest)" using f(4) by simp
  have "?x \<in> set (cn_execs guest)" using f(1) by simp
  then have "pm_read (op_out sample_op) = st_wrote (ex_out ?x)"
    using exec_end_to_end [OF g _ f(2) sample_reached _ sample_facts(2) f(3) p] by (simp add: sample_facts)
  then show ?thesis using g p sample_reached by simp
qed

section \<open>A session whose shell has ended\<close>

text \<open>Why a session may close its terminal: a signal came, a write failed, or the connection is gone.\<close>

definition session_ok :: "conn \<Rightarrow> guest_session \<Rightarrow> bool" where
  "session_ok s x \<longleftrightarrow> set (se_chan x) \<subseteq> set (sent (se_id x) (cn_arrived s)) \<and>
     (se_shut x \<longrightarrow> cn_left s \<or> se_phase x \<in> {Declined, Gone}) \<and>
     (se_phase x \<in> {Cleaning, Gone} \<longrightarrow>
        (\<exists>m\<in>set (sent (se_id x) (cn_arrived s)). mg_Type m = TypeSignal) \<or> se_failed x \<or> cn_left s)"

definition sessions_ok :: "conn \<Rightarrow> bool" where
  "sessions_ok s \<longleftrightarrow> set (cn_in s) \<subseteq> set (cn_arrived s) \<and> (\<forall>x\<in>set (cn_sessions s). session_ok s x)"

lemma session_ok_fire:
  "session_fire (cn_broken s) (cn_left s) e x = Some (ms, y) \<Longrightarrow> session_ok s x \<Longrightarrow> session_ok s y"
proof (cases e)
  case (Take_in ok)
  assume a: "session_fire (cn_broken s) (cn_left s) e x = Some (ms, y)" "session_ok s x"
  then obtain m l where "se_phase x = Bridging" "se_chan x = m # l" "y = session_message ok m (x\<lparr>se_chan := l\<rparr>)"
    using Take_in by (auto simp: session_fire_def split: if_splits list.splits)
  then show ?thesis using a(2) by (auto simp: session_ok_def session_message_def split: option.split)
next
  case SendTty
  assume a: "session_fire (cn_broken s) (cn_left s) e x = Some (ms, y)" "session_ok s x"
  then obtain t where "y = x\<lparr>se_out := t\<rparr>" using SendTty by (auto simp: session_fire_def split: if_splits)
  then show ?thesis using a(2) by (simp add: session_ok_def)
next
  case (OnTty f)
  assume a: "session_fire (cn_broken s) (cn_left s) e x = Some (ms, y)" "session_ok s x"
  then obtain t where "y = x\<lparr>se_out := t\<rparr>" using OnTty by (auto simp: session_fire_def split: if_splits)
  then show ?thesis using a(2) by (simp add: session_ok_def)
qed (auto simp: session_fire_def session_ok_def split: if_splits)

lemma session_ok_mono:
  "session_ok s x \<Longrightarrow> set (cn_arrived s) \<subseteq> set (cn_arrived t) \<Longrightarrow> (cn_left s \<longrightarrow> cn_left t) \<Longrightarrow> session_ok t x"
  by (auto simp: session_ok_def sent_def)

lemma session_ok_chan:
  "session_ok s x \<Longrightarrow> m \<in> set (cn_arrived s) \<Longrightarrow> se_id x = mg_ID m \<Longrightarrow> session_ok s (x\<lparr>se_chan := se_chan x @ [m]\<rparr>)"
  by (simp add: session_ok_def sent_def)

lemma session_ok_route: "route m xs = Some ys \<Longrightarrow> m \<in> set (cn_arrived s) \<Longrightarrow> \<forall>x\<in>set xs. session_ok s x \<Longrightarrow> \<forall>y\<in>set ys. session_ok s y"
proof (induction xs arbitrary: ys)
  case (Cons x xs)
  then show ?case using session_ok_chan [of s x m] by (cases "se_routed x \<and> se_id x = mg_ID m") auto
qed simp

lemma session_ok_closed: "session_ok s x \<Longrightarrow> cn_left t \<Longrightarrow> cn_arrived t = cn_arrived s \<Longrightarrow>
    session_ok t (if se_routed x then x\<lparr>se_routed := False, se_shut := True\<rparr> else x)"
  by (simp add: session_ok_def)

lemma sessions_ok_leave: "sessions_ok s \<Longrightarrow> sessions_ok (leave s)"
proof -
  assume ok: "sessions_ok s"
  have "session_ok (leave s) (if se_routed x then x\<lparr>se_routed := False, se_shut := True\<rparr> else x)" if "x \<in> set (cn_sessions s)" for x
    using ok that by (intro session_ok_closed [of s]) (simp_all add: sessions_ok_def leave_def)
  then have "\<forall>y\<in>set (closeAll (cn_sessions s)). session_ok (leave s) y" unfolding closeAll_def set_map by blast
  then show ?thesis using ok by (simp add: sessions_ok_def leave_def)
qed

lemma sessions_ok_serve:
  assumes "sessions_ok (s\<lparr>cn_in := m # ms\<rparr>)" shows "sessions_ok (serve_message st m (s\<lparr>cn_in := ms\<rparr>))"
proof -
  have s: "sessions_ok (s\<lparr>cn_in := ms\<rparr>)" "m \<in> set (cn_arrived s)"
    using assms session_ok_mono [of "s\<lparr>cn_in := m # ms\<rparr>" _ "s\<lparr>cn_in := ms\<rparr>"] by (auto simp: sessions_ok_def)
  have mono: "session_ok t x" if "session_ok (s\<lparr>cn_in := ms\<rparr>) x" "cn_arrived t = cn_arrived s" "cn_left t = cn_left s" for t x
    using session_ok_mono [OF that(1), of t] that by simp
  show ?thesis
  proof (cases "route m (cn_sessions s)")
    case (Some ys)
    then have "\<forall>y\<in>set ys. session_ok (s\<lparr>cn_in := ms\<rparr>) y"
      using session_ok_route [OF Some, of "s\<lparr>cn_in := ms\<rparr>"] s by (simp add: sessions_ok_def)
    then show ?thesis using s Some mono by (auto simp: serve_message_def sessions_ok_def)
  next
    case None
    have "session_ok t (HandleSession st m)" for t
      by (auto simp: session_ok_def HandleSession_def split: option.split)
    then show ?thesis using s None mono sessions_ok_leave [OF s(1)]
      by (auto simp: serve_message_def sessions_ok_def emit_def)
  qed
qed

lemma sessions_ok_same:
  assumes "sessions_ok s" "set (cn_in t) \<subseteq> set (cn_arrived t)" "cn_sessions t = cn_sessions s" "set (cn_arrived s) \<subseteq> set (cn_arrived t)" "cn_left t = cn_left s"
  shows "sessions_ok t"
  using assms session_ok_mono [of s _ t] by (simp add: sessions_ok_def)

lemma sessions_ok_fire: "sessions_ok s \<Longrightarrow> cfire e s = Some t \<Longrightarrow> sessions_ok t"
proof (induction e)
  case (Serve st)
  then obtain m ms where m: "cn_in s = m # ms" and t: "t = serve_message st m (s\<lparr>cn_in := ms\<rparr>)" by (auto split: if_splits list.splits)
  have "s\<lparr>cn_in := m # ms\<rparr> = s" using m by (cases s) simp
  then show ?case unfolding t using Serve.prems(1) by (intro sessions_ok_serve) simp
next
  case (OnExec k e)
  then obtain ms x where t: "t = emit ms (s\<lparr>cn_execs := (cn_execs s)[k := x]\<rparr>)" by (auto split: if_splits)
  show ?case using OnExec.prems(1) by (rule sessions_ok_same) (use OnExec.prems(1) in \<open>simp_all add: t emit_def sessions_ok_def\<close>)
next
  case (OnSession k e)
  then obtain ms x where k: "k < length (cn_sessions s)" and x: "session_fire (cn_broken s) (cn_left s) e (cn_sessions s ! k) = Some (ms, x)"
    and t: "t = emit ms (s\<lparr>cn_sessions := (cn_sessions s)[k := x]\<rparr>)" by (auto split: if_splits)
  have "session_ok s x" using session_ok_fire [OF x] OnSession.prems(1) k by (simp add: sessions_ok_def)
  then have "\<forall>y\<in>set ((cn_sessions s)[k := x]). session_ok s y"
    using OnSession.prems(1) set_update_subset_insert [of "cn_sessions s" k x] by (auto simp: sessions_ok_def)
  then show ?case using OnSession.prems(1) session_ok_mono [of s _ t] by (auto simp: sessions_ok_def t emit_def)
next
  case SeeEOF
  then have "t = leave s" by (auto split: if_splits)
  then show ?case using sessions_ok_leave SeeEOF.prems(1) by simp
next
  case (Comes m)
  then have t: "t = s\<lparr>cn_in := cn_in s @ [m], cn_arrived := cn_arrived s @ [m]\<rparr>" by (simp split: if_splits)
  show ?case using Comes.prems(1) by (rule sessions_ok_same) (use Comes.prems(1) in \<open>auto simp: t sessions_ok_def\<close>)
next
  case PeerGone
  then have t: "t = s\<lparr>cn_ended := True\<rparr>" by simp
  show ?case using PeerGone.prems(1) by (rule sessions_ok_same) (use PeerGone.prems(1) in \<open>auto simp: t sessions_ok_def\<close>)
next
  case Breaks
  then have t: "t = s\<lparr>cn_broken := True\<rparr>" by simp
  show ?case using Breaks.prems(1) by (rule sessions_ok_same) (use Breaks.prems(1) in \<open>auto simp: t sessions_ok_def\<close>)
qed

lemma served_sessions: "served s \<Longrightarrow> sessions_ok s"
proof (induction rule: served.induct)
  case Accepted
  then show ?case by (simp add: handleConn_def sessions_ok_def)
qed (use sessions_ok_fire in blast)

text \<open>An id that a session request was the first to use: no exit is sent for it before its session is over.\<close>

definition over :: "string \<Rightarrow> conn \<Rightarrow> bool" where
  "over i s \<longleftrightarrow> (\<exists>x\<in>set (cn_sessions s). se_id x = i \<and> se_phase x \<in> {Declined, Gone})"

definition routed :: "string \<Rightarrow> conn \<Rightarrow> bool" where
  "routed i s \<longleftrightarrow> (\<exists>x\<in>set (cn_sessions s). se_id x = i \<and> se_routed x)"

definition silent :: "string \<Rightarrow> conn \<Rightarrow> bool" where
  "silent i s \<longleftrightarrow> with_id ex_id i (cn_execs s) = [] \<and> \<not> exited (sent i (cn_sent s)) \<and>
     (cn_left s \<or> with_id se_id i (cn_sessions s) = [] \<and> sent i (cn_in s) = sent i (cn_arrived s) \<or> routed i s)"

definition session_first :: "string \<Rightarrow> conn \<Rightarrow> bool" where
  "session_first i s \<longleftrightarrow> (\<forall>m ms. sent i (cn_arrived s) = m # ms \<longrightarrow> mg_Type m = TypeSession)"

abbreviation keys :: "guest_session list \<Rightarrow> (string \<times> session_phase \<times> bool) list" where
  "keys xs \<equiv> map (\<lambda>x. (se_id x, se_phase x, se_routed x)) xs"

lemma route_keys: "route m xs = Some ys \<Longrightarrow> keys ys = keys xs"
  by (induction xs arbitrary: ys) (auto split: if_splits)

lemma over_keys: "over i s \<longleftrightarrow> (\<exists>r p. (i, p, r) \<in> set (keys (cn_sessions s)) \<and> p \<in> {Declined, Gone})"
  by (auto simp: over_def image_iff)

lemma routed_keys: "routed i s \<longleftrightarrow> (\<exists>p. (i, p, True) \<in> set (keys (cn_sessions s)))"
  by (auto simp: routed_def image_iff)

lemma with_id_keys: "with_id se_id i xs = [] \<longleftrightarrow> (\<forall>p r. (i, p, r) \<notin> set (keys xs))"
  by (auto simp: with_id_def filter_empty_conv image_iff)

lemma same_keys:
  assumes "keys (cn_sessions t) = keys (cn_sessions s)"
  shows "over i t = over i s" "routed i t = routed i s" "(with_id se_id i (cn_sessions t) = []) = (with_id se_id i (cn_sessions s) = [])"
  unfolding over_keys routed_keys with_id_keys assms by (rule refl)+

lemma over_leave: "over i (leave s) = over i s"
proof -
  have o: "over i u \<longleftrightarrow> (i, Declined) \<in> set (map (\<lambda>x. (se_id x, se_phase x)) (cn_sessions u)) \<or>
    (i, Gone) \<in> set (map (\<lambda>x. (se_id x, se_phase x)) (cn_sessions u))" for u by (auto simp: over_def)
  have k: "map (\<lambda>x. (se_id x, se_phase x)) (cn_sessions (leave s)) = map (\<lambda>x. (se_id x, se_phase x)) (cn_sessions s)"
    by (simp add: leave_def closeAll_def)
  show ?thesis unfolding o k by (rule refl)
qed

lemma silent_serve:
  assumes "over i s \<or> silent i (s\<lparr>cn_in := m # ms\<rparr>)" "session_first i s" "\<not> cn_left s"
  shows "over i (serve_message st m (s\<lparr>cn_in := ms\<rparr>)) \<or> silent i (serve_message st m (s\<lparr>cn_in := ms\<rparr>))"
proof (cases "route m (cn_sessions s)")
  case (Some ys)
  let ?t = "s\<lparr>cn_in := ms, cn_sessions := ys\<rparr>"
  have t: "serve_message st m (s\<lparr>cn_in := ms\<rparr>) = ?t" using Some by (simp add: serve_message_def)
  note k = same_keys [of ?t s i] and keys = route_keys [OF Some]
  have r: "routed (mg_ID m) s" using route_some [OF Some] by (auto simp: routed_def)
  have "routed i (s\<lparr>cn_in := m # ms\<rparr>) = routed i s" by (simp add: routed_def)
  then show ?thesis using assms(1,3) k keys r unfolding t by (cases "mg_ID m = i") (auto simp: silent_def)
next
  case None
  then have no: "\<not> routed (mg_ID m) s" using route_none [OF None] by (auto simp: routed_def)
  let ?t = "serve_message st m (s\<lparr>cn_in := ms\<rparr>)"
  consider (over) "over i s" | (other) "silent i (s\<lparr>cn_in := m # ms\<rparr>)" "mg_ID m \<noteq> i" | (same) "silent i (s\<lparr>cn_in := m # ms\<rparr>)" "mg_ID m = i"
    using assms(1) by blast
  then show ?thesis
  proof cases
    case over
    then have "over i ?t" using None over_leave [of i "s\<lparr>cn_in := ms\<rparr>"] by (auto simp: serve_message_def emit_def over_def)
    then show ?thesis ..
  next
    case other
    have "silent i (s\<lparr>cn_in := ms\<rparr>)" using other by (auto simp: silent_def routed_def)
    then have "silent i ?t" using None other(2)
      by (auto simp: serve_message_def silent_def routed_def emit_def leave_def sendExit_def HandleExec_def HandleSession_def)
    then show ?thesis ..
  next
    case same
    then have "sent i (cn_arrived s) = m # sent i ms" using no assms(3) by (auto simp: silent_def routed_def)
    then have "mg_Type m = TypeSession" using assms(2) by (simp add: session_first_def)
    then have "?t = s\<lparr>cn_in := ms, cn_sessions := cn_sessions s @ [HandleSession st m]\<rparr>"
      using None by (simp add: serve_message_def message_types)
    then have "silent i ?t" using same by (auto simp: silent_def routed_def HandleSession_def)
    then show ?thesis ..
  qed
qed

lemma session_fire_phase: "session_fire b c e x = Some (ms, y) \<Longrightarrow>
    se_phase x \<notin> {Declined, Gone} \<and> (se_phase y \<in> {Declined, Gone} \<or> \<not> exited ms \<and> se_routed y = se_routed x)"
proof (cases e)
  case (Take_in ok)
  then show "session_fire b c e x = Some (ms, y) \<Longrightarrow> ?thesis" by (auto simp: session_fire_def split: if_splits list.splits)
next
  case SendTty
  assume "session_fire b c e x = Some (ms, y)"
  then obtain t where t: "stream_send b TypeStdout (se_id x) (se_out x) = Some (ms, t)" "y = x\<lparr>se_out := t\<rparr>" "se_phase x \<in> {Bridging, Cleaning}"
    using SendTty by (auto simp: session_fire_def split: if_splits)
  then have "\<not> exited ms" by (auto simp: stream_send_def split: reader.splits if_splits)
  then show ?thesis using t by auto
next
  case (OnTty f)
  assume "session_fire b c e x = Some (ms, y)"
  then obtain t where "y = x\<lparr>se_out := t\<rparr>" "se_phase x = Bridging" "ms = []" using OnTty by (auto simp: session_fire_def split: if_splits)
  then show ?thesis by simp
qed (auto simp: session_fire_def split: if_splits)

lemma silent_session:
  assumes k: "k < length (cn_sessions s)" and x: "session_fire b c e (cn_sessions s ! k) = Some (ms, x)" and "over i s \<or> silent i s"
  shows "over i (emit ms (s\<lparr>cn_sessions := (cn_sessions s)[k := x]\<rparr>)) \<or> silent i (emit ms (s\<lparr>cn_sessions := (cn_sessions s)[k := x]\<rparr>))"
proof -
  let ?xs = "(cn_sessions s)[k := x]" let ?t = "emit ms (s\<lparr>cn_sessions := ?xs\<rparr>)"
  note id = session_fire_id [OF x] and ph = session_fire_phase [OF x]
  have ids: "map se_id ?xs = map se_id (cn_sessions s)" using id k by (simp add: map_update list_update_same_conv)
  have in_x: "x \<in> set ?xs" using k by (simp add: set_update_memI)
  have keep: "y \<in> set ?xs" if "y \<in> set (cn_sessions s)" "y \<noteq> cn_sessions s ! k" for y
    using that k by (auto simp: in_set_conv_nth nth_list_update)
  show ?thesis
  proof (cases "over i s")
    case True
    then obtain y where "y \<in> set (cn_sessions s)" "se_id y = i" "se_phase y \<in> {Declined, Gone}" by (auto simp: over_def)
    moreover from this have "y \<noteq> cn_sessions s ! k" using ph by auto
    ultimately have "over i ?t" using keep by (auto simp: over_def emit_def)
    then show ?thesis ..
  next
    case False
    then have s: "silent i s" using assms(3) by simp
    show ?thesis
    proof (cases "se_id x = i \<and> se_phase x \<in> {Declined, Gone}")
      case True
      then have "over i ?t" using in_x by (auto simp: over_def emit_def)
      then show ?thesis ..
    next
      case no: False
      have "\<not> exited (sent i ms)" using no ph id sent_all [of ms "se_id (cn_sessions s ! k)" i] by auto
      moreover have "routed i s \<Longrightarrow> routed i ?t" using no ph id in_x keep unfolding routed_def emit_def by simp metis
      moreover have "(with_id se_id i ?xs = []) = (with_id se_id i (cn_sessions s) = [])"
        using length_with_id_map [OF ids, of i] by auto
      ultimately have "silent i ?t" using s by (auto simp: silent_def emit_def)
      then show ?thesis ..
    qed
  qed
qed

lemma silent_fire:
  assumes "ids_ok s" "cfire e s = Some t" "session_first i s \<longrightarrow> over i s \<or> silent i s" "session_first i t"
  shows "over i t \<or> silent i t"
proof (cases e)
  case (Serve st)
  then obtain m ms where m: "cn_in s = m # ms" "\<not> cn_left s" and t: "t = serve_message st m (s\<lparr>cn_in := ms\<rparr>)"
    using assms(2) by (auto split: if_splits list.splits)
  have eq: "s\<lparr>cn_in := m # ms\<rparr> = s" using m by (cases s) simp
  have f: "session_first i s" using assms(4) by (simp add: t session_first_def serve_frame)
  then show ?thesis unfolding t using assms(3) m(2) by (intro silent_serve) (simp_all only: eq simp_thms)
next
  case (OnExec k e)
  then obtain ms x where k: "k < length (cn_execs s)" and x: "exec_fire (cn_broken s) e (cn_execs s ! k) = Some (ms, x)"
    and t: "t = emit ms (s\<lparr>cn_execs := (cn_execs s)[k := x]\<rparr>)" using assms(2) by (auto split: if_splits)
  have f: "session_first i s" using assms(4) by (simp add: t session_first_def emit_def)
  have "silent i s \<Longrightarrow> silent i t"
  proof -
    assume s: "silent i s"
    then have "ex_id (cn_execs s ! k) \<noteq> i" using k by (auto simp: silent_def with_id_def filter_empty_conv)
    then have "sent i ms = []" "length (with_id ex_id i ((cn_execs s)[k := x])) = length (with_id ex_id i (cn_execs s))"
      using exec_fire_id [OF x] sent_all [of ms "ex_id (cn_execs s ! k)" i] by (auto simp: length_with_id_update)
    then show ?thesis using s by (auto simp: t silent_def emit_def routed_def)
  qed
  then show ?thesis using assms(3) f by (auto simp: t over_def emit_def)
next
  case (OnSession k e)
  then obtain ms x where k: "k < length (cn_sessions s)" and x: "session_fire (cn_broken s) (cn_left s) e (cn_sessions s ! k) = Some (ms, x)"
    and t: "t = emit ms (s\<lparr>cn_sessions := (cn_sessions s)[k := x]\<rparr>)" using assms(2) by (auto split: if_splits)
  have "session_first i s" using assms(4) by (simp add: t session_first_def emit_def)
  then show ?thesis unfolding t using assms(3) by (intro silent_session [OF k x]) simp
next
  case (Comes m)
  then have t: "t = s\<lparr>cn_in := cn_in s @ [m], cn_arrived := cn_arrived s @ [m]\<rparr>" using assms(2) by (simp split: if_splits)
  have "session_first i s" using assms(4) by (auto simp: t session_first_def)
  then show ?thesis using assms(3) by (auto simp: t over_def silent_def routed_def)
next
  case SeeEOF
  then have t: "t = leave s" using assms(2) by (auto split: if_splits)
  have "session_first i s" using assms(4) by (auto simp: t session_first_def leave_def)
  then show ?thesis using assms(3) over_leave [of i s] by (auto simp: t silent_def leave_def)
qed (use assms in \<open>auto simp: session_first_def over_def silent_def routed_def\<close>)

lemma served_silent: "served s \<Longrightarrow> session_first i s \<longrightarrow> over i s \<or> silent i s"
proof (induction rule: served.induct)
  case Accepted
  then show ?case by (simp add: handleConn_def silent_def)
next
  case (Event s e s')
  then show ?case using silent_fire [of s e s' i] served_ok by blast
qed

text \<open>C29: A session outlives its shell: the loop of \<open>HandleSession\<close> does not wait for the end of the output, so as
  long as the client sends no signal, no write to the terminal fails and the connection lasts, the
  session stays in its loop and no exit message is sent for it, even when its shell has ended and all
  its output was sent.\<close>

theorem session_outlives_shell:
  assumes "served s" "\<not> cn_left s"
    and "sent i (cn_arrived s) = req # ms" "mg_Type req = TypeSession" "\<forall>m\<in>set ms. mg_Type m \<noteq> TypeSignal"
    and "\<forall>x\<in>set (cn_sessions s). se_id x = i \<longrightarrow> se_phase x \<noteq> Declined \<and> \<not> se_failed x"
  shows "(\<forall>x\<in>set (cn_sessions s). se_id x = i \<longrightarrow> se_phase x \<in> {NoTerminal, Bridging}) \<and> \<not> exited (sent i (cn_sent s))"
proof -
  have "se_phase x \<in> {NoTerminal, Bridging}" if x: "x \<in> set (cn_sessions s)" "se_id x = i" for x
  proof -
    have "session_ok s x" using served_sessions [OF assms(1)] x by (simp add: sessions_ok_def)
    moreover have "\<forall>m\<in>set (sent i (cn_arrived s)). mg_Type m \<noteq> TypeSignal" using assms(3-5) by (simp add: message_types)
    ultimately have "se_phase x \<notin> {Cleaning, Gone}" using assms(2,6) x unfolding session_ok_def by blast
    then show ?thesis using assms(6) x by (cases "se_phase x") auto
  qed
  moreover from this have "\<not> over i s" by (force simp: over_def)
  moreover have "session_first i s" using assms(3,4) by (simp add: session_first_def)
  ultimately show ?thesis using served_silent [OF assms(1), of i] by (auto simp: silent_def)
qed

definition shell_run :: "conn_event list" where
  "shell_run = [Comes \<lparr>mg_Version = 1, mg_Type = TypeSession, mg_ID = ''a'', mg_Payload = Some (session_json zero_session)\<rparr>,
     Serve (\<lambda>_. True), OnSession 0 (OnTty (Write ''bye'')), OnSession 0 (OnTty CloseEnd), OnSession 0 (Shell_ends 0),
     OnSession 0 (OnTty (ReadSome 10)), OnSession 0 SendTty, OnSession 0 (OnTty SeeEnd)]"

lemma session_outlives_shell_witness:
  "\<exists>s x. served s \<and> cn_sessions s = [x] \<and> se_code x = Some 0 \<and> st_state (se_out x) = Over \<and> \<not> exited (sent ''a'' (cn_sent s))"
proof -
  let ?s = "the (cfires shell_run handleConn)"
  let ?x = "hd (cn_sessions ?s)"
  have s: "served ?s" by (rule served_run) code_simp
  have f: "cn_sessions ?s = [?x]" "se_code ?x = Some 0" "st_state (se_out ?x) = Over" "\<not> cn_left ?s" "se_phase ?x \<noteq> Declined" "\<not> se_failed ?x"
    "sent ''a'' (cn_arrived ?s) = [\<lparr>mg_Version = 1, mg_Type = TypeSession, mg_ID = ''a'', mg_Payload = Some (session_json zero_session)\<rparr>]"
    by code_simp+
  have x: "\<forall>x\<in>set (cn_sessions ?s). se_id x = ''a'' \<longrightarrow> se_phase x \<noteq> Declined \<and> \<not> se_failed x"
    by (subst f(1)) (use f(5,6) in simp)
  have "\<not> exited (sent ''a'' (cn_sent ?s))"
    using session_outlives_shell [OF s f(4,7) _ _ x] by simp
  then show ?thesis using s f by blast
qed

section \<open>Standard input of a command\<close>

text \<open>C30: Standard input of an exec ends it for its caller: the router knows sessions only, so the first
  \<open>stdin\<close> message that the client sends for a running exec is answered like an unknown request, with
  an exit message of code -1, and from then on -1 is the only code that the caller's \<open>Wait\<close> can find.\<close>

theorem exec_stdin_ends_exec:
  assumes "served c" "x \<in> set (cn_execs c)" "length (sent (ex_id x) (cn_arrived c)) = 2" "cn_in c = m # rest"
    and "mg_ID m = ex_id x" "mg_Type m = TypeStdin" "\<not> exited (sent (ex_id x) (cn_sent c))" "\<not> cn_broken c" "cfire (Serve st) c = Some c'"
    and "reached s" "p \<in> set (mx_ops s)" "op_kind p = Exec" "op_id p = ex_id x" "mx_arrived s = cn_sent c' @ later"
    and "op_result p = Some (Inr code)"
  shows "code = - 1"
proof -
  let ?i = "ex_id x"
  have c': "c' = serve_message st m (c\<lparr>cn_in := rest\<rparr>)" using assms(4,9) by (auto split: if_splits)
  have "x \<in> set (with_id ex_id ?i (cn_execs c))" using assms(2) by (simp add: with_id_def)
  then have "0 < length (with_id ex_id ?i (cn_execs c))" by (rule length_pos_if_in_set)
  moreover have "length (with_id ex_id ?i (cn_execs c)) + length (with_id se_id ?i (cn_sessions c)) + length (sent ?i (cn_in c)) \<le> 2"
    using served_ok [OF assms(1)] assms(3) unfolding ids_ok_def by metis
  moreover have "1 \<le> length (sent ?i (cn_in c))" using assms(4,5) by simp
  ultimately have "length (with_id se_id ?i (cn_sessions c)) = 0" by linarith
  then have "with_id se_id ?i (cn_sessions c) = []" by simp
  then have "route m (cn_sessions c) = None"
    using route_some [of m "cn_sessions c"] assms(5) by (cases "route m (cn_sessions c)") (auto simp: with_id_def filter_empty_conv)
  then have "cn_sent c' = cn_sent c @ [exit_message ?i (- 1)]"
    using assms(5,6,8) by (simp add: c' serve_message_def message_types emit_def sendExit_def)
  then have "verdict (sent ?i (mx_arrived s)) = Some (Inr (- 1))" using assms(7,14) by (simp add: verdict_exit)
  then show ?thesis using exec_output_exact [OF assms(10-12)] assms(13,15) by simp
qed

definition stdin_run :: "conn_event list" where
  "stdin_run = [Comes \<lparr>mg_Version = 1, mg_Type = TypeExec, mg_ID = ''a'', mg_Payload = Some (exec_json (zero_exec\<lparr>xp_Command := [''cat'']\<rparr>))\<rparr>,
     Comes (data_message TypeStdin ''a'' ''hi''), Serve (\<lambda>_. True)]"

lemma exec_stdin_ends_exec_witness:
  "\<exists>c s p code. served c \<and> reached s \<and> mx_ops s = [p] \<and> op_kind p = Exec \<and> op_result p = Some (Inr code) \<and> code = - 1"
proof -
  let ?c = "the (cfires stdin_run handleConn)"
  let ?x = "hd (cn_execs ?c)" and ?m = "data_message TypeStdin ''a'' ''hi''"
  let ?c' = "the (cfire (Serve (\<lambda>_. True)) ?c)"
  let ?r = "[Start Exec ''a'', Arrive (exit_message ''a'' (- 1)), LoopRead, LoopLookup, LoopDeliver, OnOp 0 Recv]"
  let ?s = "the (fires ?r NewClientFromConn)"
  let ?p = "hd (mx_ops ?s)"
  have c: "served ?c" by (rule served_run) code_simp
  have f: "cn_execs ?c \<noteq> []" "length (sent (ex_id ?x) (cn_arrived ?c)) = 2" "cn_in ?c = [?m]" "mg_ID ?m = ex_id ?x"
    "mg_Type ?m = TypeStdin" "\<not> exited (sent (ex_id ?x) (cn_sent ?c))" "\<not> cn_broken ?c" by code_simp+
  have "cfire (Serve (\<lambda>_. True)) ?c \<noteq> None" by code_simp
  then have c': "cfire (Serve (\<lambda>_. True)) ?c = Some ?c'" by (metis option.collapse)
  have "fires ?r NewClientFromConn \<noteq> None" by code_simp
  then have "fires ?r NewClientFromConn = Some ?s" by (metis option.collapse)
  then have s: "reached ?s" by (rule reached_fires [OF reached.New])
  have p: "mx_ops ?s = [?p]" "op_kind ?p = Exec" "op_id ?p = ex_id ?x" "mx_arrived ?s = cn_sent ?c' @ []" by code_simp+
  have "op_result ?p \<noteq> None" "(case op_result ?p of Some (Inr _) \<Rightarrow> True | _ \<Rightarrow> False)" by code_simp+
  then obtain code where r: "op_result ?p = Some (Inr code)" by (auto split: option.splits sum.splits)
  have "code = - 1"
    by (rule exec_stdin_ends_exec [OF c _ f(2-7) c' s _ p(2-4) r]) (use f(1) p(1) in \<open>metis list.set_intros(1) list.set_sel(1)\<close>)+
  then show ?thesis using c s p(1,2) r by blast
qed

end
