(* ===== verification/Dial.thy ===== *)
theory Dial imports GoText begin

text \<open>
  The daemon's connection to the agent of a VM (\<open>internal/provider/firecracker/exec.go\<close>): up to thirty
  attempts of dialling the Unix socket and Firecracker's \<open>CONNECT\<close> handshake.
\<close>

text \<open>What the environment does with one attempt; a read that gives no byte is an error or the deadline.\<close>

record attempt =
  at_dial :: bool
  at_write :: bool
  at_reads :: "char option list"

datatype connect_error = DialFailed | ConnectMsg | AckRead | AckUnexpected string

text \<open>The acknowledgement, byte by byte up to a newline or 32 bytes, and whether a read failed.\<close>

fun read_ack :: "string \<Rightarrow> char option list \<Rightarrow> string \<times> bool" where
  "read_ack ack [] = (ack, length ack < 32)"
| "read_ack ack (r # rs) =
     (if \<not> length ack < 32 then (ack, False)
      else (case r of None \<Rightarrow> (ack, True)
        | Some c \<Rightarrow> if c = CHR 0x0A then (ack @ [c], False) else read_ack (ack @ [c]) rs))"

text \<open>
  The loop over the attempts, with \<open>lastErr\<close> and the connections that were opened and are neither
  closed nor returned, by the number of their attempt.
\<close>

fun connect_loop :: "connect_error option \<Rightarrow> nat list \<Rightarrow> nat \<Rightarrow> attempt list \<Rightarrow> (connect_error option + nat) \<times> nat list" where
  "connect_loop lastErr leaked i [] = (Inl lastErr, leaked)"
| "connect_loop lastErr leaked i (a # as) =
     (if \<not> at_dial a then connect_loop (Some DialFailed) leaked (Suc i) as
      else if \<not> at_write a then connect_loop (Some ConnectMsg) leaked (Suc i) as
      else (case read_ack [] (at_reads a) of
        (ack, True) \<Rightarrow> connect_loop (Some AckRead) leaked (Suc i) as
      | (ack, False) \<Rightarrow>
          if lastErr \<noteq> None then connect_loop lastErr (leaked @ [i]) (Suc i) as
          else if length ack < 3 \<or> take 3 ack \<noteq> ''OK '' then connect_loop (Some (AckUnexpected ack)) leaked (Suc i) as
          else (Inr i, leaked)))"

definition connectAgent :: "attempt list \<Rightarrow> (connect_error option + nat) \<times> nat list" where
  "connectAgent as = connect_loop None [] 0 (take 30 as)"

text \<open>An attempt whose handshake runs to an acknowledgement, and one whose acknowledgement is good.\<close>

definition acknowledged :: "attempt \<Rightarrow> bool" where
  "acknowledged a \<longleftrightarrow> at_dial a \<and> at_write a \<and> \<not> snd (read_ack [] (at_reads a))"

definition handshake :: "attempt \<Rightarrow> bool" where
  "handshake a \<longleftrightarrow> acknowledged a \<and> HasPrefix (fst (read_ack [] (at_reads a))) ''OK ''"

text \<open>The attempts of a list, counted from \<open>i\<close>, that get as far as an acknowledgement.\<close>

fun acknowledgements :: "nat \<Rightarrow> attempt list \<Rightarrow> nat list" where
  "acknowledgements i [] = []"
| "acknowledgements i (a # as) = (if acknowledged a then [i] else []) @ acknowledgements (Suc i) as"

lemma connect_loop_failed:
  "\<exists>e. connect_loop (Some e0) leaked i as = (Inl (Some e), leaked @ acknowledgements i as)"
proof (induction as arbitrary: e0 leaked i)
  case (Cons a as)
  obtain ack failed where r: "read_ack [] (at_reads a) = (ack, failed)" by (cases "read_ack [] (at_reads a)")
  show ?case
  proof (cases "acknowledged a")
    case True
    then show ?thesis using Cons.IH [of e0 "leaked @ [i]" "Suc i"] r by (simp add: acknowledged_def)
  next
    case False
    then have "\<exists>e1. connect_loop (Some e0) leaked i (a # as) = connect_loop (Some e1) leaked (Suc i) as"
      using r by (cases failed) (auto simp: acknowledged_def)
    then show ?thesis using Cons.IH [of _ leaked "Suc i"] False by auto
  qed
qed simp

text \<open>Only the first attempt counts: \<open>connectAgent\<close> returns a connection exactly when its first attempt
  completes the handshake.  \<open>lastErr\<close> is never reset, so after one failure every later attempt is
  given up after its acknowledgement, even a good one, and its connection stays open.\<close>

theorem connect_only_first_attempt:
  "if handshake a then connectAgent (a # as) = (Inr 0, [])
   else \<exists>e. connectAgent (a # as) = (Inl (Some e), acknowledgements 1 (take 29 as))"
proof -
  obtain ack failed where r: "read_ack [] (at_reads a) = (ack, failed)" by (cases "read_ack [] (at_reads a)")
  have c: "connectAgent (a # as) = connect_loop None [] 0 (a # take 29 as)" by (simp add: connectAgent_def numeral_eq_Suc)
  have ok: "HasPrefix ack ''OK '' \<longleftrightarrow> \<not> (length ack < 3 \<or> take 3 ack \<noteq> ''OK '')"
  proof -
    have "take 3 ack = ''OK '' \<Longrightarrow> \<not> length ack < 3" by (drule arg_cong [of _ _ length]) simp
    then show ?thesis by (auto simp: HasPrefix_def numeral_3_eq_3)
  qed
  show ?thesis
  proof (cases "handshake a")
    case True
    then show ?thesis using r by (simp add: c handshake_def acknowledged_def ok)
  next
    case False
    then have "\<exists>e1. connect_loop None [] 0 (a # take 29 as) = connect_loop (Some e1) [] 1 (take 29 as)"
      using r by (cases failed) (auto simp: handshake_def acknowledged_def ok)
    then show ?thesis using connect_loop_failed [of _ "[]" 1 "take 29 as"] False by (auto simp: c)
  qed
qed

end
