(* ===== verification/Terminal.thy ===== *)
theory Terminal imports GoText begin

text \<open>
  The texts that \<open>session.go\<close> of the agent builds for a new terminal: the number of the slave device,
  written without \<open>fmt\<close> into a buffer of twenty bytes from its end, and the environment of the shell.
\<close>

section \<open>itoa\<close>

text \<open>Negation of an int64 wraps at its minimum.\<close>

definition neg64 :: "int \<Rightarrow> int" where
  "neg64 n = (if n = - (2 ^ 63) then n else - n)"

text \<open>The loop: the part of the buffer that is filled grows to the left; \<open>None\<close> is a write before its start.\<close>

function fill :: "int \<Rightarrow> string \<Rightarrow> string option" where
  "fill n buf = (if n > 0 then (if length buf < 20 then fill (n div 10) (digit (n mod 10) # buf) else None) else Some buf)"
  by pat_completeness auto
termination by (relation "measure (\<lambda>(n, buf). nat n)") auto

declare fill.simps [simp del]

definition agent_itoa :: "int \<Rightarrow> string option" where
  "agent_itoa n = (if n = 0 then Some ''0''
     else if n < 0 then
       (case fill (neg64 n) [] of None \<Rightarrow> None
        | Some buf \<Rightarrow> if length buf < 20 then Some (CHR ''-'' # buf) else None)
     else fill n [])"

lemma fill_dec: "0 < n \<Longrightarrow> n < 10 ^ k \<Longrightarrow> length buf + k \<le> 20 \<Longrightarrow> fill (int n) buf = Some (dec n @ buf)"
proof (induction n arbitrary: k buf rule: less_induct)
  case (less n)
  then obtain j where k: "k = Suc j" by (cases k) auto
  have step: "fill (int n) buf = fill (int (n div 10)) (digit (int (n mod 10)) # buf)"
    using less.prems k by (subst fill.simps) (simp add: zdiv_int zmod_int)
  show ?case
  proof (cases "n < 10")
    case True
    then show ?thesis using step by (simp add: fill.simps dec.simps [of n])
  next
    case False
    then have "fill (int (n div 10)) (digit (int (n mod 10)) # buf) = Some (dec (n div 10) @ digit (int (n mod 10)) # buf)"
      using less.prems k by (intro less.IH [of _ j]) (auto simp: less_mult_imp_div_less)
    then show ?thesis using step False by (simp add: dec.simps [of n])
  qed
qed

text \<open>The hand-written \<open>itoa\<close> agrees with the decimal notation on every int64 and never leaves its
  buffer, but for the least one, which has no negation and becomes a bare minus sign.\<close>

theorem agent_itoa_decimal:
  assumes "- (2 ^ 63) \<le> n" "n < 2 ^ 63"
  shows "agent_itoa n = (if n = - (2 ^ 63) then Some ''-'' else Some (itoa n))"
proof -
  have up: "fill n [] = Some (dec (nat n))" if "0 < n" using fill_dec [of "nat n" 19 "[]"] that assms(2) by simp
  have neg: "fill (- n) [] = Some (dec (nat (- n))) \<and> length (dec (nat (- n))) < 20" if "n < 0" "n \<noteq> - (2 ^ 63)"
  proof -
    have f: "fill (- n) [] = Some (dec (nat (- n)))" using fill_dec [of "nat (- n)" 19 "[]"] that assms(1) by simp
    have "length (dec m) \<le> k" if "m < 10 ^ k" "0 < k" for m k
      using that
    proof (induction m arbitrary: k rule: less_induct)
      case (less m)
      then obtain j where k: "k = Suc j" by (cases k) auto
      show ?case
      proof (cases "m < 10")
        case False
        then have "0 < j" using less.prems k by (cases j) auto
        then have "length (dec (m div 10)) \<le> j" using False less.prems k by (intro less.IH) (auto simp: less_mult_imp_div_less)
        then show ?thesis using False k by (simp add: dec.simps [of m])
      qed (use k in \<open>simp add: dec.simps [of m]\<close>)
    qed
    from this [of "nat (- n)" 19] have "length (dec (nat (- n))) \<le> 19" using that assms(1) by simp
    then show ?thesis using f by simp
  qed
  have zero: "dec 0 = ''0''" by code_simp
  show ?thesis
  proof (cases "n = - (2 ^ 63)")
    case True
    then show ?thesis by (simp add: agent_itoa_def neg64_def fill.simps)
  next
    case False
    then show ?thesis using up neg zero by (cases "n < 0"; cases "n = 0") (auto simp: agent_itoa_def neg64_def itoa_def)
  qed
qed

lemma agent_itoa_decimal_witness: "agent_itoa (- 1207) = Some ''-1207''"
proof -
  have "itoa (- 1207) = ''-1207''" by code_simp
  then show ?thesis using agent_itoa_decimal [of "- 1207"] by simp
qed

section \<open>The environment of the shell\<close>

text \<open>The first \<open>TERM\<close> is replaced, and one is added when there is none.\<close>

fun with_term :: "string list \<Rightarrow> string list" where
  "with_term [] = [''TERM=xterm-256color'']"
| "with_term (e # es) = (if HasPrefix e ''TERM='' then ''TERM=xterm-256color'' # es else e # with_term es)"

definition slave_path :: "int \<Rightarrow> string option" where
  "slave_path n = map_option ((@) ''/dev/pts/'') (agent_itoa n)"

lemma with_term_keeps: "filter (\<lambda>e. \<not> HasPrefix e ''TERM='') (with_term es) = filter (\<lambda>e. \<not> HasPrefix e ''TERM='') es"
  by (induction es) (auto simp: HasPrefix_def)

lemma with_term_first: "find (\<lambda>e. HasPrefix e ''TERM='') (with_term es) = Some ''TERM=xterm-256color''"
  by (induction es) (auto simp: HasPrefix_def)

lemma with_term_idem: "with_term (with_term es) = with_term es"
  by (induction es) (auto simp: HasPrefix_def)

end
