(* ===== verification/Incus.thy ===== *)
theory Incus imports World Paths "HOL-Library.AList" begin

text \<open>
  The Incus backend (\<open>internal/provider/incus\<close>).  The Incus server, the UUID generator and the host's
  sockets are one parameter \<open>outside\<close> with a state of its own; the provider's state is its port
  counter and its boost listeners.
\<close>

section \<open>The outside\<close>

text \<open>An instance as Incus reports and accepts it; a map of Go is a list of pairs.\<close>

record instance_data =
  in_Config :: "(string \<times> string) list"
  in_Devices :: "(string \<times> (string \<times> string) list) list"
  in_Restore :: string

text \<open>A request fails when it is made, or later when the caller waits for its operation.\<close>

datatype fault = AtCall string | AtWait string

record 's outside =
  ou_uuid :: "'s \<Rightarrow> string \<times> 's"
  ou_CreateInstance :: "string \<Rightarrow> string \<Rightarrow> (string \<times> string) list \<Rightarrow> 's \<Rightarrow> fault option \<times> 's"
  ou_CopySnapshot :: "string \<Rightarrow> string \<Rightarrow> string \<Rightarrow> 's \<Rightarrow> fault option \<times> 's"
  ou_GetState :: "string \<Rightarrow> 's \<Rightarrow> (string + string) \<times> 's"
  ou_PutState :: "string \<Rightarrow> string \<Rightarrow> bool \<Rightarrow> 's \<Rightarrow> fault option \<times> 's"
  ou_DeleteInstance :: "string \<Rightarrow> 's \<Rightarrow> fault option \<times> 's"
  ou_GetInstance :: "string \<Rightarrow> 's \<Rightarrow> (string + instance_data \<times> string) \<times> 's"  \<comment> \<open>with its etag\<close>
  ou_UpdateInstance :: "string \<Rightarrow> instance_data \<Rightarrow> string \<Rightarrow> 's \<Rightarrow> fault option \<times> 's"
  ou_CreateSnapshot :: "string \<Rightarrow> string \<Rightarrow> bool \<Rightarrow> 's \<Rightarrow> fault option \<times> 's"
  ou_GetSnapshot :: "string \<Rightarrow> string \<Rightarrow> 's \<Rightarrow> string option \<times> 's"
  ou_DeleteSnapshot :: "string \<Rightarrow> string \<Rightarrow> 's \<Rightarrow> fault option \<times> 's"
  ou_CreateImage :: "string \<Rightarrow> 's \<Rightarrow> (fault + string) \<times> 's"  \<comment> \<open>the fingerprint, empty when the metadata has none\<close>
  ou_CreateAlias :: "string \<Rightarrow> string \<Rightarrow> 's \<Rightarrow> string option \<times> 's"
  ou_DeleteImage :: "string \<Rightarrow> 's \<Rightarrow> fault option \<times> 's"
  ou_GetImage :: "string \<Rightarrow> 's \<Rightarrow> (string + string) \<times> 's"  \<comment> \<open>the architecture\<close>
  ou_GetServer :: "'s \<Rightarrow> string option \<times> 's"
  ou_Test :: "string \<Rightarrow> string list \<Rightarrow> 's \<Rightarrow> (fault + int option) \<times> 's"  \<comment> \<open>run a command for its code\<close>
  ou_Mkdir :: "string \<Rightarrow> 's \<Rightarrow> string option \<times> 's"
  ou_Listen :: "string \<Rightarrow> 's \<Rightarrow> string option \<times> 's"

section \<open>The provider\<close>

record iconf =
  ic_Socket :: string
  ic_PortRangeMin :: int
  ic_PortRangeMax :: int
  ic_Pool :: string
  ic_StrictPoolCoW :: bool
  ic_BoostChannelDir :: string

definition iconf_defaults :: "iconf \<Rightarrow> iconf" where
  "iconf_defaults c = c\<lparr>
     ic_Socket := (if ic_Socket c = [] then ''/var/lib/incus/unix.socket'' else ic_Socket c),
     ic_PortRangeMin := (if ic_PortRangeMin c = 0 then 40000 else ic_PortRangeMin c),
     ic_PortRangeMax := (if ic_PortRangeMax c = 0 then 49999 else ic_PortRangeMax c),
     ic_Pool := (if ic_Pool c = [] then ''default'' else ic_Pool c)\<rparr>"

text \<open>
  A listener runs its requests under a context derived from \<open>il_Ctx\<close>; \<open>il_Open\<close> says whether it still
  accepts.
\<close>

record ilistener =
  il_Sandbox :: string
  il_Path :: string
  il_Ctx :: nat
  il_Open :: bool

record 's inc =
  ip_conf :: iconf
  ip_nextPort :: int
  ip_handler :: bool
  ip_listeners :: "(string \<times> ilistener) list"
  ip_out :: 's

type_synonym ('s, 'a) I = "('s inc, 'a) state"

definition outer :: "('s \<Rightarrow> 'a \<times> 's) \<Rightarrow> ('s, 'a) I" where
  "outer f = State (\<lambda>p. case f (ip_out p) of (a, s) \<Rightarrow> (a, p\<lparr>ip_out := s\<rparr>))"

definition inner :: "('s inc \<Rightarrow> 'a \<times> 's inc) \<Rightarrow> ('s, 'a) I" where
  "inner f = State f"

lemma run_outer [runs]: "run_state (outer f) p = (case f (ip_out p) of (a, s) \<Rightarrow> (a, p\<lparr>ip_out := s\<rparr>))"
  by (simp add: outer_def)

lemma run_inner [runs]: "run_state (inner f) p = f p"
  by (simp add: inner_def)

text \<open>A request and the wait for its operation; an answer or its error.\<close>

fun fault_error :: "fault \<Rightarrow> goerr" where
  "fault_error (AtCall e) = Opaque e"
| "fault_error (AtWait e) = Opaque e"

definition request :: "('s \<Rightarrow> fault option \<times> 's) \<Rightarrow> ('s, unit res) I" where
  "request f = do { r \<leftarrow> outer f; ret (case r of None \<Rightarrow> Inr () | Some x \<Rightarrow> Inl (fault_error x)) }"

definition answer :: "('s \<Rightarrow> (string + 'a) \<times> 's) \<Rightarrow> ('s, 'a res) I" where
  "answer f = do { r \<leftarrow> outer f; ret (map_sum Opaque id r) }"

definition done_or :: "('s \<Rightarrow> string option \<times> 's) \<Rightarrow> ('s, unit res) I" where
  "done_or f = do { r \<leftarrow> outer f; ret (case r of None \<Rightarrow> Inr () | Some e \<Rightarrow> Inl (Opaque e)) }"

lemma run_request [runs]: "run_state (request f) p =
    (case f (ip_out p) of (None, s) \<Rightarrow> (Inr (), p\<lparr>ip_out := s\<rparr>) | (Some x, s) \<Rightarrow> (Inl (fault_error x), p\<lparr>ip_out := s\<rparr>))"
  by (simp add: request_def runs split: prod.split option.split)

lemma run_answer [runs]: "run_state (answer f) p =
    (case f (ip_out p) of (Inr a, s) \<Rightarrow> (Inr a, p\<lparr>ip_out := s\<rparr>) | (Inl e, s) \<Rightarrow> (Inl (Opaque e), p\<lparr>ip_out := s\<rparr>))"
  by (simp add: answer_def runs split: prod.split sum.split)

lemma run_done_or [runs]: "run_state (done_or f) p =
    (case f (ip_out p) of (None, s) \<Rightarrow> (Inr (), p\<lparr>ip_out := s\<rparr>) | (Some e, s) \<Rightarrow> (Inl (Opaque e), p\<lparr>ip_out := s\<rparr>))"
  by (simp add: done_or_def runs split: prod.split option.split)

abbreviation incus_ref :: "string \<Rightarrow> backend_ref" where
  "incus_ref n \<equiv> \<lparr>ref_Backend = ''incus'', ref_Ref = n\<rparr>"

section \<open>Copy-on-write check\<close>

definition isCowDriver :: "string \<Rightarrow> bool" where
  "isCowDriver d \<longleftrightarrow> d \<notin> {''dir'', ''lvm'', ''lvmcluster'', []}"

text \<open>Only a driver that was read, cannot clone, and meets strict mode stops the daemon.\<close>

definition CheckPool :: "string + string \<Rightarrow> bool \<Rightarrow> unit res" where
  "CheckPool driver strict = (case driver of Inl _ \<Rightarrow> Inr ()
     | Inr d \<Rightarrow> if isCowDriver d then Inr () else if strict then Inl (Opaque d) else Inr ())"

section \<open>Ports\<close>

definition allocatePort :: "('s, int res) I" where
  "allocatePort = inner (\<lambda>p. if ip_nextPort p > ic_PortRangeMax (ip_conf p) then (Inl (Sentinel ErrCapacityExceeded), p)
     else (Inr (ip_nextPort p), p\<lparr>ip_nextPort := ip_nextPort p + 1\<rparr>))"

definition proxy_name :: "int \<Rightarrow> string" where
  "proxy_name target = ''proxy-'' @ itoa target"

definition listen_on :: "int \<Rightarrow> string" where
  "listen_on port = ''tcp:0.0.0.0:'' @ itoa port"

definition proxy_device :: "int \<Rightarrow> int \<Rightarrow> (string \<times> string) list" where
  "proxy_device host target = [(''type'', ''proxy''), (''listen'', listen_on host), (''connect'', ''tcp:127.0.0.1:'' @ itoa target)]"

definition inc_PublishPort :: "'s outside \<Rightarrow> string \<Rightarrow> int \<Rightarrow> ('s, endpoint res) I" where
  "inc_PublishPort u name target =
     bindE allocatePort (\<lambda>host.
     bindE (answer (ou_GetInstance u name)) (\<lambda>(i, etag).
     bindE (request (ou_UpdateInstance u name
        (i\<lparr>in_Devices := AList.update (proxy_name target) (proxy_device host target) (in_Devices i)\<rparr>) etag)) (\<lambda>_.
     ret (Inr \<lparr>ep_HostAddress = ''0.0.0.0'', ep_PublishedPort = host\<rparr>))))"

text \<open>The device that listens on the port; Go's map order is free, the list has one.\<close>

definition listens :: "int \<Rightarrow> (string \<times> string) list \<Rightarrow> bool" where
  "listens port dev \<longleftrightarrow> map_of dev ''type'' = Some ''proxy'' \<and> map_of dev ''listen'' = Some (listen_on port)"

definition inc_UnpublishPort :: "'s outside \<Rightarrow> string \<Rightarrow> int \<Rightarrow> ('s, unit res) I" where
  "inc_UnpublishPort u name port =
     bindE (answer (ou_GetInstance u name)) (\<lambda>(i, etag).
     case find (\<lambda>(n, dev). listens port dev) (in_Devices i) of
       None \<Rightarrow> ret (Inl (Opaque ''no proxy device''))
     | Some (found, _) \<Rightarrow>
         if found = [] then ret (Inl (Opaque ''no proxy device''))
         else request (ou_UpdateInstance u name (i\<lparr>in_Devices := AList.delete found (in_Devices i)\<rparr>) etag))"

section \<open>The boost channel\<close>

definition boostDeviceName :: string where "boostDeviceName = ''navaris-boost''"

definition boost_device :: "string \<Rightarrow> (string \<times> string) list" where
  "boost_device path = [(''type'', ''unix-socket''), (''source'', path), (''path'', ''/var/run/navaris-guest.sock'')]"

definition boost_path :: "'s inc \<Rightarrow> string \<Rightarrow> string" where
  "boost_path p sandbox = Clean (ic_BoostChannelDir (ip_conf p) @ ''/'' @ sandbox @ ''.sock'')"

definition shut :: "string \<Rightarrow> ('s, unit) I" where
  "shut name = inner (\<lambda>p. ((), p\<lparr>ip_listeners := map (\<lambda>(n, l). (n, if n = name then l\<lparr>il_Open := False\<rparr> else l)) (ip_listeners p)\<rparr>))"

text \<open>A failed update closes the socket; the entry in the map stays.\<close>

definition or_shut :: "string \<Rightarrow> ('s, 'a res) I \<Rightarrow> ('s, 'a res) I" where
  "or_shut name m = do { r \<leftarrow> m; case r of Inl e \<Rightarrow> do { shut name; ret (Inl e) } | Inr x \<Rightarrow> ret (Inr x) }"

definition startBoostChannel :: "'s outside \<Rightarrow> nat \<Rightarrow> string \<Rightarrow> string \<Rightarrow> ('s, unit res) I" where
  "startBoostChannel u ctx name sandbox = do {
     p \<leftarrow> inner (\<lambda>p. (p, p));
     let path = boost_path p sandbox in
     if \<not> ip_handler p \<or> ic_BoostChannelDir (ip_conf p) = [] then ret (Inr ())
     else
       bindE (done_or (ou_Mkdir u (ic_BoostChannelDir (ip_conf p)))) (\<lambda>_.
       bindE (done_or (ou_Listen u path)) (\<lambda>_. do {
         inner (\<lambda>p. ((), p\<lparr>ip_listeners :=
           AList.update name \<lparr>il_Sandbox = sandbox, il_Path = path, il_Ctx = ctx, il_Open = True\<rparr> (ip_listeners p)\<rparr>));
         bindE (or_shut name (answer (ou_GetInstance u name))) (\<lambda>(i, etag).
           or_shut name (request (ou_UpdateInstance u name
             (i\<lparr>in_Devices := AList.update boostDeviceName (boost_device path) (in_Devices i)\<rparr>) etag)))
       })) }"

definition removeBoostDevice :: "'s outside \<Rightarrow> string \<Rightarrow> ('s, unit) I" where
  "removeBoostDevice u name = do {
     r \<leftarrow> answer (ou_GetInstance u name);
     case r of Inl _ \<Rightarrow> ret ()
     | Inr (i, etag) \<Rightarrow>
         if map_of (in_Devices i) boostDeviceName = None then ret ()
         else ignore (request (ou_UpdateInstance u name (i\<lparr>in_Devices := AList.delete boostDeviceName (in_Devices i)\<rparr>) etag)) }"

definition RestartBoostChannel :: "'s outside \<Rightarrow> nat \<Rightarrow> string \<Rightarrow> string \<Rightarrow> ('s, unit res) I" where
  "RestartBoostChannel u ctx name sandbox = do { removeBoostDevice u name; startBoostChannel u ctx name sandbox }"

definition stopBoostChannel :: "'s outside \<Rightarrow> string \<Rightarrow> ('s, unit) I" where
  "stopBoostChannel u name = do {
     l \<leftarrow> inner (\<lambda>p. (map_of (ip_listeners p) name, p\<lparr>ip_listeners := AList.delete name (ip_listeners p)\<rparr>));
     case l of None \<Rightarrow> ret () | Some _ \<Rightarrow> removeBoostDevice u name }"

section \<open>Sandboxes\<close>

definition containerName :: "'s outside \<Rightarrow> ('s, string) I" where
  "containerName u = do { x \<leftarrow> outer (ou_uuid u); ret (''nvrs-'' @ take 8 x) }"

definition limits :: "int option \<Rightarrow> int option \<Rightarrow> (string \<times> string) list" where
  "limits cpu mem = (case cpu of None \<Rightarrow> [] | Some c \<Rightarrow> [(''limits.cpu'', itoa c)])
     @ (case mem of None \<Rightarrow> [] | Some m \<Rightarrow> [(''limits.memory'', itoa m @ ''MB'')])"

text \<open>\<open>for k, v := range m { config[k] = v }\<close>.\<close>

definition put_all :: "(string \<times> string) list \<Rightarrow> (string \<times> string) list \<Rightarrow> (string \<times> string) list" where
  "put_all kvs m = foldl (\<lambda>m (k, v). AList.update k v m) m kvs"

definition inc_CreateSandbox :: "'s outside \<Rightarrow> nat \<Rightarrow> create_req \<Rightarrow> ('s, backend_ref res) I" where
  "inc_CreateSandbox u ctx req = do {
     name \<leftarrow> containerName u;
     bindE (request (ou_CreateInstance u name (cr_ImageRef req) (limits (cr_CPULimit req) (cr_MemoryLimitMB req)))) (\<lambda>_. do {
       (if cr_EnableBoostChannel req = Some True \<and> cr_SandboxID req \<noteq> []
        then ignore (startBoostChannel u ctx name (cr_SandboxID req)) else ret ());
       ret (Inr (incus_ref name)) }) }"

definition upper :: "char \<Rightarrow> char" where
  "upper c = (let v = (of_char c :: nat) in if 97 \<le> v \<and> v \<le> 122 then char_of (v - 32) else c)"

definition mapIncusStatus :: "string \<Rightarrow> sandbox_state" where
  "mapIncusStatus status = (let t = map upper status in
     if t = ''RUNNING'' then SandboxRunning
     else if t \<in> {''STOPPED'', ''STOP''} then SandboxStopped
     else if t = ''STARTING'' then SandboxStarting
     else if t = ''STOPPING'' then SandboxStopping
     else if t \<in> {''ERROR'', ''BROKEN''} then SandboxFailed
     else if t \<in> {''FROZEN'', ''FREEZING'', ''THAWED''} then SandboxRunning
     else SandboxPending)"

text \<open>A state that could not be read does not keep the request from being made.\<close>

definition inc_StartSandbox :: "'s outside \<Rightarrow> string \<Rightarrow> ('s, unit res) I" where
  "inc_StartSandbox u name = do {
     st \<leftarrow> outer (ou_GetState u name);
     if map_sum id mapIncusStatus st = Inr SandboxRunning then ret (Inr ())
     else request (ou_PutState u name ''start'' False) }"

definition inc_StopSandbox :: "'s outside \<Rightarrow> string \<Rightarrow> bool \<Rightarrow> ('s, unit res) I" where
  "inc_StopSandbox u name force = do {
     st \<leftarrow> outer (ou_GetState u name);
     if map_sum id mapIncusStatus st = Inr SandboxStopped then ret (Inr ())
     else request (ou_PutState u name ''stop'' force) }"

definition inc_DestroySandbox :: "'s outside \<Rightarrow> string \<Rightarrow> ('s, unit res) I" where
  "inc_DestroySandbox u name = do { stopBoostChannel u name; request (ou_DeleteInstance u name) }"

fun Contains :: "string \<Rightarrow> string \<Rightarrow> bool" where
  "Contains [] sub \<longleftrightarrow> sub = []"
| "Contains (c # cs) sub \<longleftrightarrow> HasPrefix (c # cs) sub \<or> Contains cs sub"

definition inc_GetSandboxState :: "'s outside \<Rightarrow> string \<Rightarrow> ('s, sandbox_state res) I" where
  "inc_GetSandboxState u name = do {
     st \<leftarrow> outer (ou_GetState u name);
     ret (case st of Inl e \<Rightarrow> if Contains e ''not found'' then Inr SandboxDestroyed else Inl (Opaque e)
          | Inr status \<Rightarrow> Inr (mapIncusStatus status)) }"

definition inc_UpdateResources :: "'s outside \<Rightarrow> string \<Rightarrow> update_req \<Rightarrow> ('s, unit res) I" where
  "inc_UpdateResources u name req =
     (if ur_CPULimit req = None \<and> ur_MemoryLimitMB req = None then ret (Inr ())
      else bindE (answer (ou_GetInstance u name)) (\<lambda>(i, etag).
        request (ou_UpdateInstance u name
          (i\<lparr>in_Config := put_all (limits (ur_CPULimit req) (ur_MemoryLimitMB req)) (in_Config i)\<rparr>) etag)))"

section \<open>Snapshots\<close>

text \<open>\<open>strings.SplitN(ref, "/", 2)\<close>: \<open>None\<close> when there is no slash.\<close>

fun split_ref :: "string \<Rightarrow> (string \<times> string) option" where
  "split_ref [] = None"
| "split_ref (c # cs) = (if c = CHR ''/'' then Some ([], cs) else map_option (\<lambda>(a, b). (c # a, b)) (split_ref cs))"

definition inc_CreateSnapshot :: "'s outside \<Rightarrow> string \<Rightarrow> string \<Rightarrow> consistency_mode \<Rightarrow> ('s, backend_ref res) I" where
  "inc_CreateSnapshot u name label mode =
     bindE (request (ou_CreateSnapshot u name label (mode = ConsistencyLive))) (\<lambda>_. ret (Inr (incus_ref (name @ ''/'' @ label))))"

definition inc_RestoreSnapshot :: "'s outside \<Rightarrow> string \<Rightarrow> string \<Rightarrow> ('s, unit res) I" where
  "inc_RestoreSnapshot u name snap = (case split_ref snap of
     None \<Rightarrow> ret (Inl (Opaque ''invalid snapshot ref''))
   | Some (_, label) \<Rightarrow>
       bindE (answer (ou_GetInstance u name)) (\<lambda>(i, etag).
         request (ou_UpdateInstance u name (i\<lparr>in_Restore := label\<rparr>) etag)))"

definition inc_DeleteSnapshot :: "'s outside \<Rightarrow> string \<Rightarrow> ('s, unit res) I" where
  "inc_DeleteSnapshot u snap = (case split_ref snap of
     None \<Rightarrow> ret (Inl (Opaque ''invalid snapshot ref''))
   | Some (c, l) \<Rightarrow> request (ou_DeleteSnapshot u c l))"

definition hwaddr_key :: "string \<Rightarrow> bool" where
  "hwaddr_key k \<longleftrightarrow> HasPrefix k ''volatile.'' \<and> HasSuffix k ''.hwaddr''"

definition inc_CreateSandboxFromSnapshot :: "'s outside \<Rightarrow> string \<Rightarrow> create_req \<Rightarrow> ('s, backend_ref res) I" where
  "inc_CreateSandboxFromSnapshot u snap req = do {
     name \<leftarrow> containerName u;
     case split_ref snap of None \<Rightarrow> ret (Inl (Opaque ''invalid snapshot ref''))
     | Some (c, l) \<Rightarrow>
         bindE (done_or (ou_GetSnapshot u c l)) (\<lambda>_.
         bindE (request (ou_CopySnapshot u name c l)) (\<lambda>_.
         bindE (answer (ou_GetInstance u name)) (\<lambda>(i, etag).
         bindE (request (ou_UpdateInstance u name
           (i\<lparr>in_Config := filter (\<lambda>(k, v). \<not> hwaddr_key k) (put_all (limits (cr_CPULimit req) (cr_MemoryLimitMB req)) (in_Config i))\<rparr>) etag)) (\<lambda>_.
         ret (Inr (incus_ref name)))))) }"

section \<open>Images, shells, health\<close>

definition inc_PublishSnapshotAsImage :: "'s outside \<Rightarrow> string \<Rightarrow> string \<Rightarrow> string \<Rightarrow> ('s, backend_ref res) I" where
  "inc_PublishSnapshotAsImage u snap name version = (case split_ref snap of
     None \<Rightarrow> ret (Inl (Opaque ''invalid snapshot ref''))
   | Some _ \<Rightarrow> do {
       r \<leftarrow> outer (ou_CreateImage u snap);
       case r of Inl x \<Rightarrow> ret (Inl (fault_error x))
       | Inr fp \<Rightarrow>
           if fp = [] then ret (Inl (Opaque ''missing fingerprint''))
           else do {
             ignore (done_or (ou_CreateAlias u (if version = [] then name else name @ '':'' @ version) fp));
             ret (Inr (incus_ref fp)) } })"

definition inc_DeleteImage :: "'s outside \<Rightarrow> string \<Rightarrow> ('s, unit res) I" where
  "inc_DeleteImage u fp = request (ou_DeleteImage u fp)"

definition inc_GetImageInfo :: "'s outside \<Rightarrow> string \<Rightarrow> ('s, string res) I" where
  "inc_GetImageInfo u fp = answer (ou_GetImage u fp)"

definition inc_ForkSandbox :: "string \<Rightarrow> int \<Rightarrow> ('s, backend_ref list res) I" where
  "inc_ForkSandbox name n = ret (Inl (Sentinel ErrNotSupported))"

definition inc_Health :: "'s outside \<Rightarrow> ('s, health) I" where
  "inc_Health u = do {
     r \<leftarrow> outer (ou_GetServer u);
     ret \<lparr>hl_Backend = ''incus'', hl_Healthy = (r = None), hl_Error = (case r of None \<Rightarrow> [] | Some e \<Rightarrow> e)\<rparr> }"

definition detectShell :: "'s outside \<Rightarrow> string \<Rightarrow> ('s, string) I" where
  "detectShell u name = do {
     r \<leftarrow> outer (ou_Test u name [''test'', ''-x'', ''/bin/bash'']);
     ret (if r = Inr (Some 0) then ''/bin/bash'' else ''/bin/sh'') }"

text \<open>What \<open>AttachSession\<close> runs.\<close>

definition attach_command :: "'s outside \<Rightarrow> string \<Rightarrow> string \<Rightarrow> string list \<Rightarrow> ('s, string list) I" where
  "attach_command u name shell command = do {
     sh \<leftarrow> (if shell = [] then detectShell u name else ret shell);
     ret (if command = [] then [sh] else command) }"

text \<open>\<open>ExecDetached\<close> gives the command a terminal type when the caller named none.\<close>

definition detached_env :: "(string \<times> string) list \<Rightarrow> (string \<times> string) list" where
  "detached_env env = (if map_of env ''TERM'' \<in> {None, Some []} then AList.update ''TERM'' ''xterm-256color'' env else env)"

text \<open>The exit code that \<open>Wait\<close> of an exec reports: 0 when the operation ended well without one.\<close>

definition exec_code :: "fault + int option \<Rightarrow> int res" where
  "exec_code r = (case r of Inl x \<Rightarrow> Inl (fault_error x) | Inr None \<Rightarrow> Inr 0 | Inr (Some c) \<Rightarrow> Inr c)"

text \<open>The counts of the gauge, by the status of each instance.\<close>

definition gauge_state :: "string \<Rightarrow> string" where
  "gauge_state status = (if status = ''Running'' then ''running''
     else if status \<in> {''Stopping'', ''Aborting'', ''Freezing''} then ''stopping'' else ''stopped'')"

definition inc_New :: "iconf \<Rightarrow> bool \<Rightarrow> (string \<Rightarrow> string + string) \<Rightarrow> 's \<Rightarrow> 's inc res" where
  "inc_New cfg connected driver s = (let c = iconf_defaults cfg in
     if \<not> connected then Inl (Opaque ''incus connect'')
     else (case CheckPool (driver (ic_Pool c)) (ic_StrictPoolCoW c) of Inl e \<Rightarrow> Inl e
       | Inr _ \<Rightarrow> Inr \<lparr>ip_conf = c, ip_nextPort = ic_PortRangeMin c, ip_handler = False, ip_listeners = [], ip_out = s\<rparr>))"

section \<open>Texts\<close>

lemma dec_inj: "dec m = dec n \<longleftrightarrow> m = n"
  by (metis option.inject parse_digits_dec)

lemma dec_not_minus: "dec n \<noteq> CHR ''-'' # cs"
proof
  assume "dec n = CHR ''-'' # cs"
  then have "parse_digits 0 (dec n) = None" by (simp add: Let_def)
  then show False by (simp add: parse_digits_dec)
qed

lemma itoa_inj [simp]: "itoa i = itoa j \<longleftrightarrow> i = j"
  using dec_not_minus dec_not_minus [symmetric] by (auto simp: itoa_def dec_inj)

lemma listen_on_inj [simp]: "listen_on i = listen_on j \<longleftrightarrow> i = j"
  by (simp add: listen_on_def)

lemma proxy_name_nonempty [simp]: "proxy_name t \<noteq> []"
  by (simp add: proxy_name_def)

lemma listens_proxy [simp]: "listens port (proxy_device host target) \<longleftrightarrow> port = host"
  by (auto simp: listens_def proxy_device_def)

section \<open>The port counter\<close>



definition published :: "endpoint res list \<Rightarrow> int list" where
  "published rs = concat (map (\<lambda>r. case r of Inl _ \<Rightarrow> [] | Inr e \<Rightarrow> [ep_PublishedPort e]) rs)"

lemma published_simps [simp]:
  "published [] = []" "published (Inl e # rs) = published rs" "published (Inr x # rs) = ep_PublishedPort x # published rs"
  by (simp_all add: published_def)


lemma publish_counts:
  assumes "ip_nextPort p \<le> ic_PortRangeMax (ip_conf p)" and "run_state (inc_PublishPort u n t) p = (r, q)"
  shows "ip_nextPort q = ip_nextPort p + 1 \<and> ip_conf q = ip_conf p"
    and "r = Inr ep \<Longrightarrow> ep_PublishedPort ep = ip_nextPort p"
  using assms by (auto simp: inc_PublishPort_def allocatePort_def runs split: prod.splits sum.splits option.splits if_splits)





section \<open>Devices of an instance\<close>

text \<open>
  What the development relies on of the Incus API: reading an instance changes nothing and shows its
  devices, an accepted update sets them, an update refused when it is made changes nothing.
\<close>

definition lawful :: "'s outside \<Rightarrow> ('s \<Rightarrow> string \<Rightarrow> (string \<times> (string \<times> string) list) list) \<Rightarrow> bool" where
  "lawful u devs \<longleftrightarrow>
     (\<forall>n s. case ou_GetInstance u n s of (r, s') \<Rightarrow> devs s' = devs s \<and> (\<forall>i e. r = Inr (i, e) \<longrightarrow> in_Devices i = devs s n))
   \<and> (\<forall>n i e s. case ou_UpdateInstance u n i e s of (r, s') \<Rightarrow>
        (r = None \<longrightarrow> devs s' = (devs s)(n := in_Devices i)) \<and> (\<forall>x. r = Some (AtCall x) \<longrightarrow> devs s' = devs s))"

lemma lawful_get:
  assumes "lawful u devs" and "ou_GetInstance u n s = (r, s')"
  shows "devs s' = devs s \<and> (\<forall>i e. r = Inr (i, e) \<longrightarrow> in_Devices i = devs s n)"
  using spec [OF spec [OF conjunct1 [OF assms(1) [unfolded lawful_def]], of n], of s] unfolding assms(2) prod.case .

lemma lawful_update:
  assumes "lawful u devs" and "ou_UpdateInstance u n i e s = (None, s')"
  shows "devs s' = (devs s)(n := in_Devices i)"
  using spec [OF spec [OF spec [OF spec [OF conjunct2 [OF assms(1) [unfolded lawful_def]], of n], of i], of e], of s] assms(2) by simp

lemma publish_devices:
  assumes "lawful u devs" and "run_state (inc_PublishPort u n t) p = (Inr ep, q)"
  shows "devs (ip_out q) = (devs (ip_out p))(n := AList.update (proxy_name t) (proxy_device (ep_PublishedPort ep) t) (devs (ip_out p) n))"
    and "ip_nextPort p \<le> ic_PortRangeMax (ip_conf p)"
  using assms(2) lawful_get [OF assms(1)] lawful_update [OF assms(1)]
  by (auto simp: inc_PublishPort_def allocatePort_def runs split: prod.splits sum.splits option.splits if_splits)

lemma unpublish_devices:
  assumes "lawful u devs" and "run_state (inc_UnpublishPort u n port) p = (Inr (), q)"
  obtains m d where "find (\<lambda>(n, dev). listens port dev) (devs (ip_out p) n) = Some (m, d)"
    and "devs (ip_out q) = (devs (ip_out p))(n := AList.delete m (devs (ip_out p) n))"
proof -
  have "\<exists>m d. find (\<lambda>(n, dev). listens port dev) (devs (ip_out p) n) = Some (m, d)
      \<and> devs (ip_out q) = (devs (ip_out p))(n := AList.delete m (devs (ip_out p) n))"
    using assms(2) lawful_get [OF assms(1)] lawful_update [OF assms(1)]
    by (auto simp: inc_UnpublishPort_def runs split: prod.splits sum.splits option.splits if_splits)
  then show thesis using that by blast
qed

lemma unpublish_unknown:
  assumes "lawful u devs" and "\<forall>(m, d)\<in>set (devs (ip_out p) n). \<not> listens port d"
  shows "\<exists>e. fst (run_state (inc_UnpublishPort u n port) p) = Inl e"
proof -
  have "find (\<lambda>(n, dev). listens port dev) (devs (ip_out p) n) = None" using assms(2) by (auto simp: find_None_iff)
  then show ?thesis using lawful_get [OF assms(1)]
    by (auto simp: inc_UnpublishPort_def runs split: prod.splits sum.splits)
qed

lemma update_new: "k \<notin> fst ` set al \<Longrightarrow> AList.update k v al = al @ [(k, v)]"
  by (induction al) auto

lemma delete_new: "k \<notin> fst ` set al \<Longrightarrow> AList.delete k (al @ [(k, v)]) = al"
  by (induction al) auto

lemma find_append: "find P (xs @ ys) = (case find P xs of None \<Rightarrow> find P ys | Some x \<Rightarrow> Some x)"
  by (induction xs) auto

lemma update_twice: "k \<notin> fst ` set al \<Longrightarrow> AList.update k w (al @ [(k, v)]) = al @ [(k, w)]"
  by (induction al) auto

text \<open>
  Publishing a port of a container and then unpublishing it leaves the devices of every instance as
  they were, when the container had no device of that name or port and no call failed.
\<close>

theorem incus_publish_roundtrip:
  assumes "lawful u devs" and "proxy_name t \<notin> fst ` set (devs (ip_out p) n)"
    and "\<forall>(m, d)\<in>set (devs (ip_out p) n). \<not> listens (ip_nextPort p) d"
    and "run_state (inc_PublishPort u n t) p = (Inr ep, q)"
    and "run_state (inc_UnpublishPort u n (ep_PublishedPort ep)) q = (Inr (), r)"
  shows "devs (ip_out r) = devs (ip_out p)"
proof -
  let ?d = "devs (ip_out p) n"
  have port: "ep_PublishedPort ep = ip_nextPort p"
    using publish_counts(2) [OF publish_devices(2) [OF assms(1,4)] assms(4)] by simp
  have q: "devs (ip_out q) = (devs (ip_out p))(n := ?d @ [(proxy_name t, proxy_device (ip_nextPort p) t)])"
    using publish_devices(1) [OF assms(1,4)] update_new [OF assms(2)] port by simp
  obtain m d where m: "find (\<lambda>(n, dev). listens (ip_nextPort p) dev) (devs (ip_out q) n) = Some (m, d)"
    and r: "devs (ip_out r) = (devs (ip_out q))(n := AList.delete m (devs (ip_out q) n))"
    using unpublish_devices [OF assms(1,5)] port by metis
  have "find (\<lambda>(n, dev). listens (ip_nextPort p) dev) ?d = None" using assms(3) by (auto simp: find_None_iff)
  then have "m = proxy_name t" using m q by (simp add: find_append)
  then show ?thesis using r q delete_new [OF assms(2)] by simp
qed

text \<open>
  publishing the same target port a second time replaces the first proxy device: the port published
  first has no device any more and cannot be unpublished, and once the second is unpublished (as the API
  does when the binding cannot be stored) the container listens on neither.
\<close>

theorem incus_republish_loses_first:
  assumes "lawful u devs" and "proxy_name t \<notin> fst ` set (devs (ip_out p) n)"
    and "\<forall>(m, d)\<in>set (devs (ip_out p) n). \<not> listens (ip_nextPort p) d \<and> \<not> listens (ip_nextPort p + 1) d"
    and "run_state (inc_PublishPort u n t) p = (Inr ep, q)"
    and "run_state (inc_PublishPort u n t) q = (Inr ep', r)"
  shows "(\<forall>(m, d)\<in>set (devs (ip_out r) n). \<not> listens (ep_PublishedPort ep) d)
    \<and> (\<exists>e. fst (run_state (inc_UnpublishPort u n (ep_PublishedPort ep)) r) = Inl e)
    \<and> (run_state (inc_UnpublishPort u n (ep_PublishedPort ep')) r = (Inr (), w) \<longrightarrow> devs (ip_out w) = devs (ip_out p))"
proof -
  let ?d = "devs (ip_out p) n"
  note full = publish_devices(2) [OF assms(1,4)] publish_devices(2) [OF assms(1,5)]
  have port: "ep_PublishedPort ep = ip_nextPort p" "ep_PublishedPort ep' = ip_nextPort p + 1"
    using publish_counts [OF full(1) assms(4)] publish_counts [OF full(2) assms(5)] by simp_all
  have q: "devs (ip_out q) = (devs (ip_out p))(n := ?d @ [(proxy_name t, proxy_device (ip_nextPort p) t)])"
    using publish_devices(1) [OF assms(1,4)] update_new [OF assms(2)] port by simp
  have r: "devs (ip_out r) = (devs (ip_out p))(n := ?d @ [(proxy_name t, proxy_device (ip_nextPort p + 1) t)])"
    using publish_devices(1) [OF assms(1,5)] q update_twice [OF assms(2)] port by simp
  have gone: "\<forall>(m, d)\<in>set (devs (ip_out r) n). \<not> listens (ep_PublishedPort ep) d"
    using r port assms(3) by auto
  have "devs (ip_out w) = devs (ip_out p)" if w: "run_state (inc_UnpublishPort u n (ep_PublishedPort ep')) r = (Inr (), w)"
  proof -
    obtain m d where m: "find (\<lambda>(n, dev). listens (ip_nextPort p + 1) dev) (devs (ip_out r) n) = Some (m, d)"
      and dw: "devs (ip_out w) = (devs (ip_out r))(n := AList.delete m (devs (ip_out r) n))"
      using unpublish_devices [OF assms(1) w] port by metis
    have "find (\<lambda>(n, dev). listens (ip_nextPort p + 1) dev) ?d = None" using assms(3) by (auto simp: find_None_iff)
    then have "m = proxy_name t" using m r by (simp add: find_append)
    then show ?thesis using dw r delete_new [OF assms(2)] by simp
  qed
  then show ?thesis using gone unpublish_unknown [OF assms(1) gone] by blast
qed

section \<open>Snapshot references\<close>

lemma split_ref_join: "CHR ''/'' \<notin> set c \<Longrightarrow> split_ref (c @ CHR ''/'' # l) = Some (c, l)"
  by (induction c) auto

lemma restore_after_create:
  assumes "run_state (inc_CreateSnapshot u n label mode) p = (Inr r, q)" and "CHR ''/'' \<notin> set n"
  shows "inc_RestoreSnapshot u m (ref_Ref r) = bindE (answer (ou_GetInstance u m)) (\<lambda>(i, etag).
           request (ou_UpdateInstance u m (i\<lparr>in_Restore := label\<rparr>) etag))"
    and "inc_DeleteSnapshot u (ref_Ref r) = request (ou_DeleteSnapshot u n label)"
  using assms split_ref_join [OF assms(2), of label]
  by (auto simp: inc_CreateSnapshot_def inc_RestoreSnapshot_def inc_DeleteSnapshot_def runs split: prod.splits option.splits)

section \<open>Limits in the configuration\<close>

lemma map_of_put_all: "map_of (put_all kvs m) = map_of m ++ map_of (rev kvs)"
  by (induction kvs arbitrary: m) (auto simp: put_all_def update_conv' map_add_def fun_eq_iff split: option.splits)

lemma limits_keys: "set (map fst (limits c m)) \<subseteq> {''limits.cpu'', ''limits.memory''}"
  by (auto simp: limits_def split: option.splits)

lemma limits_keep_others:
  assumes "k \<notin> {''limits.cpu'', ''limits.memory''}"
  shows "map_of (put_all (limits c m) cfg) k = map_of cfg k"
  using assms by (auto simp: map_of_put_all limits_def map_add_def split: option.splits)

lemma limits_set:
  "map_of (put_all (limits (Some c) m) cfg) ''limits.cpu'' = Some (itoa c)"
  "map_of (put_all (limits c' (Some m')) cfg) ''limits.memory'' = Some (itoa m' @ ''MB'')"
  by (auto simp: map_of_put_all limits_def map_add_def split: option.splits)

lemma map_of_filter_key: "map_of (filter (\<lambda>(k, v). P k) xs) k = (if P k then map_of xs k else None)"
  by (induction xs) auto

text \<open>A copy keeps the source's configuration without its MAC addresses, and has the limits asked for.\<close>

lemma copied_config:
  "map_of (filter (\<lambda>(k, v). \<not> hwaddr_key k) (put_all (limits c m) cfg)) k =
     (if hwaddr_key k then None else map_of (put_all (limits c m) cfg) k)"
  by (simp add: map_of_filter_key [of "\<lambda>k. \<not> hwaddr_key k"])

section \<open>Starting twice\<close>

text \<open>A start or stop whose state the server already reports changes nothing and makes no request.\<close>

lemma start_running:
  "ou_GetState u n (ip_out p) = (Inr st, s) \<Longrightarrow> mapIncusStatus st = SandboxRunning
    \<Longrightarrow> run_state (inc_StartSandbox u n) p = (Inr (), p\<lparr>ip_out := s\<rparr>)"
  by (simp add: inc_StartSandbox_def runs)

lemma stop_stopped:
  "ou_GetState u n (ip_out p) = (Inr st, s) \<Longrightarrow> mapIncusStatus st = SandboxStopped
    \<Longrightarrow> run_state (inc_StopSandbox u n force) p = (Inr (), p\<lparr>ip_out := s\<rparr>)"
  by (simp add: inc_StopSandbox_def runs)

lemma start_unreadable:
  "ou_GetState u n (ip_out p) = (Inl e, s)
    \<Longrightarrow> run_state (inc_StartSandbox u n) p = run_state (request (ou_PutState u n ''start'' False)) (p\<lparr>ip_out := s\<rparr>)"
  by (simp add: inc_StartSandbox_def runs)

section \<open>Life of the boost channel\<close>

text \<open>
  A listener serves a request when its socket is open and the context it derives from is not among the
  \<open>gone\<close> ones: every step of a request is a query that runs under that context.
\<close>

definition serving :: "nat set \<Rightarrow> ilistener \<Rightarrow> bool" where
  "serving gone l \<longleftrightarrow> il_Open l \<and> il_Ctx l \<notin> gone"

text \<open>
  The daemon's start: each running sandbox of the Incus backend that has a channel gets a fresh one,
  under the background context.
\<close>

definition replay_channels :: "'s outside \<Rightarrow> nat \<Rightarrow> sandbox list \<Rightarrow> ('s, unit) I" where
  "replay_channels u background rows = forM rows (\<lambda>r.
     if sbx_State r \<noteq> SandboxRunning \<or> \<not> sbx_EnableBoostChannel r then ret ()
     else ignore (RestartBoostChannel u background (sbx_BackendRef r) (sbx_SandboxID r)))"

lemma map_of_shut:
  "map_of (map (\<lambda>(n, l). (n, if n = name then f l else l)) ls) m = (if m = name then map_option f (map_of ls m) else map_of ls m)"
  by (induction ls) auto

text \<open>What a start of the channel leaves in the map: an entry under the caller's context, or nothing new.\<close>

lemma startBoostChannel_entry:
  assumes "run_state (startBoostChannel u ctx n sid) p = (r, q)"
  shows "map_of (ip_listeners q) m = map_of (ip_listeners p) m
    \<or> (m = n \<and> (\<exists>b. map_of (ip_listeners q) m = Some \<lparr>il_Sandbox = sid, il_Path = boost_path p sid, il_Ctx = ctx, il_Open = b\<rparr>))"
  using assms
  by (auto simp: startBoostChannel_def or_shut_def shut_def Let_def runs map_of_shut update_conv'
      split: prod.splits sum.splits option.splits if_splits)

lemma removeBoostDevice_keeps:
  "ip_listeners (snd (run_state (removeBoostDevice u n) p)) = ip_listeners p \<and> ip_conf (snd (run_state (removeBoostDevice u n) p)) = ip_conf p
    \<and> ip_handler (snd (run_state (removeBoostDevice u n) p)) = ip_handler p"
  by (auto simp: removeBoostDevice_def runs split: prod.splits sum.splits option.splits)

text \<open>A destroyed sandbox has no entry, whatever the server answers.\<close>

lemma destroy_removes_listener:
  "map_of (ip_listeners (snd (run_state (inc_DestroySandbox u n) p))) n = None"
proof -
  let ?q = "snd (run_state (stopBoostChannel u n) p)"
  have "map_of (ip_listeners ?q) n = None"
    using removeBoostDevice_keeps [of u n "p\<lparr>ip_listeners := AList.delete n (ip_listeners p)\<rparr>"]
    by (auto simp: stopBoostChannel_def runs delete_conv' split: option.splits)
  then show ?thesis by (auto simp: inc_DestroySandbox_def runs split: prod.splits option.splits)
qed

text \<open>A server that has every instance and never refuses.\<close>

definition obliging :: "'s outside \<Rightarrow> bool" where
  "obliging u \<longleftrightarrow> (\<forall>d s. fst (ou_Mkdir u d s) = None) \<and> (\<forall>d s. fst (ou_Listen u d s) = None)
     \<and> (\<forall>n s. \<exists>i e. fst (ou_GetInstance u n s) = Inr (i, e)) \<and> (\<forall>n i e s. fst (ou_UpdateInstance u n i e s) = None)"

lemma startBoostChannel_obliging:
  assumes "obliging u" and "ip_handler p" and "ic_BoostChannelDir (ip_conf p) \<noteq> []"
  shows "\<exists>s. run_state (startBoostChannel u ctx n sid) p = (Inr (), p\<lparr>ip_listeners :=
    AList.update n \<lparr>il_Sandbox = sid, il_Path = boost_path p sid, il_Ctx = ctx, il_Open = True\<rparr> (ip_listeners p), ip_out := s\<rparr>)"
proof -
  let ?d = "ic_BoostChannelDir (ip_conf p)" and ?path = "boost_path p sid"
  obtain s1 where mk: "ou_Mkdir u ?d (ip_out p) = (None, s1)" using assms(1) by (metis obliging_def prod.collapse)
  obtain s2 where ls: "ou_Listen u ?path s1 = (None, s2)" using assms(1) by (metis obliging_def prod.collapse)
  obtain i e s3 where gt: "ou_GetInstance u n s2 = (Inr (i, e), s3)" using assms(1) by (metis obliging_def prod.collapse)
  obtain s4 where up: "ou_UpdateInstance u n (i\<lparr>in_Devices := AList.update boostDeviceName (boost_device ?path) (in_Devices i)\<rparr>) e s3 = (None, s4)"
    using assms(1) by (metis obliging_def prod.collapse)
  show ?thesis using assms(2,3) mk ls gt up
    by (auto simp: startBoostChannel_def or_shut_def Let_def runs)
qed

lemma RestartBoostChannel_obliging:
  assumes "obliging u" and "ip_handler p" and "ic_BoostChannelDir (ip_conf p) \<noteq> []"
  shows "\<exists>q. run_state (RestartBoostChannel u ctx n sid) p = (Inr (), q)
    \<and> ip_handler q \<and> ip_conf q = ip_conf p
    \<and> ip_listeners q = AList.update n \<lparr>il_Sandbox = sid, il_Path = boost_path p sid, il_Ctx = ctx, il_Open = True\<rparr> (ip_listeners p)"
proof -
  obtain p1 where r1: "run_state (removeBoostDevice u n) p = ((), p1)" by (cases "run_state (removeBoostDevice u n) p") auto
  then have p1: "ip_listeners p1 = ip_listeners p" "ip_conf p1 = ip_conf p" "ip_handler p1 = ip_handler p"
    using removeBoostDevice_keeps [of u n p] by simp_all
  obtain s where "run_state (startBoostChannel u ctx n sid) p1 = (Inr (), p1\<lparr>ip_listeners :=
      AList.update n \<lparr>il_Sandbox = sid, il_Path = boost_path p1 sid, il_Ctx = ctx, il_Open = True\<rparr> (ip_listeners p1), ip_out := s\<rparr>)"
    using startBoostChannel_obliging [OF assms(1), of p1 ctx n sid] p1 assms by auto
  then show ?thesis using r1 p1 assms(2) by (simp add: RestartBoostChannel_def runs boost_path_def)
qed

definition replayed :: "sandbox \<Rightarrow> bool" where
  "replayed r \<longleftrightarrow> sbx_State r = SandboxRunning \<and> sbx_EnableBoostChannel r"

lemma replay_entries:
  assumes "obliging u" and "ip_handler p" and "ic_BoostChannelDir (ip_conf p) \<noteq> []"
  shows "map_of (ip_listeners (snd (run_state (replay_channels u background rows) p))) n =
    (case find (\<lambda>r. replayed r \<and> sbx_BackendRef r = n) (rev rows) of None \<Rightarrow> map_of (ip_listeners p) n
     | Some r \<Rightarrow> Some \<lparr>il_Sandbox = sbx_SandboxID r, il_Path = boost_path p (sbx_SandboxID r), il_Ctx = background, il_Open = True\<rparr>)"
  using assms(2,3)
proof (induction rows arbitrary: p)
  case (Cons r rows)
  show ?case
  proof (cases "replayed r")
    case False
    then have "run_state (replay_channels u background (r # rows)) p = run_state (replay_channels u background rows) p"
      by (simp add: replay_channels_def replayed_def runs)
    then show ?thesis using Cons False by (simp add: find_append split: option.splits)
  next
    case True
    obtain q where q: "run_state (RestartBoostChannel u background (sbx_BackendRef r) (sbx_SandboxID r)) p = (Inr (), q)"
      "ip_handler q" "ip_conf q = ip_conf p"
      "ip_listeners q = AList.update (sbx_BackendRef r) \<lparr>il_Sandbox = sbx_SandboxID r,
         il_Path = boost_path p (sbx_SandboxID r), il_Ctx = background, il_Open = True\<rparr> (ip_listeners p)"
      using RestartBoostChannel_obliging [OF assms(1) Cons.prems] by blast
    have "run_state (replay_channels u background (r # rows)) p = run_state (replay_channels u background rows) q"
      using True q(1) by (simp add: replay_channels_def replayed_def runs)
    moreover have "boost_path q = boost_path p" using q(3) by (simp add: boost_path_def fun_eq_iff)
    ultimately show ?thesis using Cons.IH [of q] Cons.prems q True
      by (simp add: find_append update_conv' split: option.splits)
  qed
qed (simp add: replay_channels_def runs)

lemma replay_serves:
  assumes "obliging u" "ip_handler w" "ic_BoostChannelDir (ip_conf w) \<noteq> []" and w: "ip_listeners w = []" "background \<notin> gone"
  shows "(\<exists>l. map_of (ip_listeners (snd (run_state (replay_channels u background rows) w))) n = Some l \<and> serving gone l)
      \<longleftrightarrow> (\<exists>row\<in>set rows. replayed row \<and> sbx_BackendRef row = n)"
proof -
  note e = replay_entries [OF assms(1-3), of background rows n]
  show ?thesis
  proof (cases "find (\<lambda>r. replayed r \<and> sbx_BackendRef r = n) (rev rows)")
    case None
    then have "map_of (ip_listeners (snd (run_state (replay_channels u background rows) w))) n = None" using e w by simp
    then show ?thesis using None by (auto simp: find_None_iff)
  next
    case (Some row)
    then show ?thesis using e w find_Some_iff2 [OF Some] by (auto simp: serving_def)
  qed
qed

text \<open>
  C32: the channel that creating a sandbox starts derives from the context of the create operation, so
  once the operation has ended its listener serves no request; the daemon's next start serves every
  running sandbox with a channel again, and no other.
\<close>

theorem incus_boost_channel_until_restart:
  assumes "run_state (inc_CreateSandbox u ctx req) p = (Inr r, q)"
    and "map_of (ip_listeners p) (ref_Ref r) = None" and "map_of (ip_listeners q) (ref_Ref r) = Some l"
  shows "il_Sandbox l = cr_SandboxID req \<and> \<not> serving (insert ctx gone) l
    \<and> (obliging u \<and> ip_handler w \<and> ic_BoostChannelDir (ip_conf w) \<noteq> [] \<and> ip_listeners w = [] \<and> background \<notin> gone
      \<longrightarrow> (\<exists>l. map_of (ip_listeners (snd (run_state (replay_channels u background rows) w))) n = Some l \<and> serving gone l)
        = (\<exists>row\<in>set rows. replayed row \<and> sbx_BackendRef row = n))"
proof -
  obtain x s1 where x: "ou_uuid u (ip_out p) = (x, s1)" by fastforce
  let ?n = "''nvrs-'' @ take 8 x"
  have "ref_Ref r = ?n \<and> (\<exists>p1 z. ip_listeners p1 = ip_listeners p
      \<and> run_state (startBoostChannel u ctx ?n (cr_SandboxID req)) p1 = (z, q))"
  proof (cases "cr_EnableBoostChannel req = Some True \<and> cr_SandboxID req \<noteq> []")
    case True
    then obtain s2 where "snd (run_state (startBoostChannel u ctx ?n (cr_SandboxID req)) (p\<lparr>ip_out := s2\<rparr>)) = q" "ref_Ref r = ?n"
      using assms(1) x
      by (auto simp: inc_CreateSandbox_def containerName_def runs split: prod.splits sum.splits option.splits)
    then show ?thesis by (intro conjI exI [of _ "p\<lparr>ip_out := s2\<rparr>"] exI prod_eqI) simp_all
  next
    case False
    then have "ip_listeners q = ip_listeners p" "ref_Ref r = ?n"
      using assms(1) x
      by (auto simp: inc_CreateSandbox_def containerName_def runs split: prod.splits sum.splits option.splits if_splits)
    then show ?thesis using assms(2,3) by simp
  qed
  then obtain p1 z where n: "ref_Ref r = ?n" and p1: "ip_listeners p1 = ip_listeners p"
    and st: "run_state (startBoostChannel u ctx ?n (cr_SandboxID req)) p1 = (z, q)" by blast
  have "il_Sandbox l = cr_SandboxID req \<and> \<not> serving (insert ctx gone) l"
    using startBoostChannel_entry [OF st, of ?n] p1 n assms(2,3) by (auto simp: serving_def)
  then show ?thesis using replay_serves [of u w background gone rows n] by blast
qed

section \<open>An Incus server in memory\<close>

type_synonym server = "(string \<times> instance_data) list"

definition put_instance :: "string \<Rightarrow> instance_data \<Rightarrow> string \<Rightarrow> server \<Rightarrow> fault option \<times> server" where
  "put_instance n i e s = (if map_of s n = None then (Some (AtCall ''not found''), s) else (None, AList.update n i s))"

definition mem_incus :: "server outside" where
  "mem_incus = \<lparr>ou_uuid = (\<lambda>s. (''0123abcd-4567'', s)),
     ou_CreateInstance = (\<lambda>n img cfg s. (None, AList.update n \<lparr>in_Config = cfg, in_Devices = [], in_Restore = []\<rparr> s)),
     ou_CopySnapshot = (\<lambda>n c l s. (None, s)), ou_GetState = (\<lambda>n s. (Inr ''Running'', s)), ou_PutState = (\<lambda>n a f s. (None, s)),
     ou_DeleteInstance = (\<lambda>n s. (None, AList.delete n s)),
     ou_GetInstance = (\<lambda>n s. (case map_of s n of None \<Rightarrow> Inl ''not found'' | Some i \<Rightarrow> Inr (i, ''etag''), s)),
     ou_UpdateInstance = put_instance, ou_CreateSnapshot = (\<lambda>n l b s. (None, s)), ou_GetSnapshot = (\<lambda>c l s. (None, s)),
     ou_DeleteSnapshot = (\<lambda>c l s. (None, s)), ou_CreateImage = (\<lambda>x s. (Inr ''f00d'', s)), ou_CreateAlias = (\<lambda>a f s. (None, s)),
     ou_DeleteImage = (\<lambda>f s. (None, s)), ou_GetImage = (\<lambda>f s. (Inr ''x86_64'', s)), ou_GetServer = (\<lambda>s. (None, s)),
     ou_Test = (\<lambda>n c s. (Inr (Some 1), s)), ou_Mkdir = (\<lambda>d s. (None, s)), ou_Listen = (\<lambda>x s. (None, s))\<rparr>"

definition mem_devices :: "server \<Rightarrow> string \<Rightarrow> (string \<times> (string \<times> string) list) list" where
  "mem_devices s n = (case map_of s n of None \<Rightarrow> [] | Some i \<Rightarrow> in_Devices i)"

lemma mem_lawful: "lawful mem_incus mem_devices"
  by (auto simp: lawful_def mem_incus_def put_instance_def mem_devices_def update_conv' fun_eq_iff split: option.splits)

definition mem_inc :: "server inc" where
  "mem_inc = \<lparr>ip_conf = (iconf_defaults \<lparr>ic_Socket = [], ic_PortRangeMin = 7, ic_PortRangeMax = 8, ic_Pool = [],
       ic_StrictPoolCoW = False, ic_BoostChannelDir = ''/run/boost''\<rparr>),
     ip_nextPort = 7, ip_handler = True, ip_listeners = [],
     ip_out = [(''nvrs-1'', \<lparr>in_Config = [], in_Devices = [(''root'', [(''type'', ''disk'')])], in_Restore = []\<rparr>)]\<rparr>"

definition mem_published :: "server inc" where
  "mem_published = snd (run_state (inc_PublishPort mem_incus ''nvrs-1'' 80) mem_inc)"

definition kind_incus :: "server outside" where
  "kind_incus = mem_incus\<lparr>
     ou_GetInstance := (\<lambda>n s. (Inr (case map_of s n of None \<Rightarrow> \<lparr>in_Config = [], in_Devices = [], in_Restore = []\<rparr> | Some i \<Rightarrow> i, ''etag''), s)),
     ou_UpdateInstance := (\<lambda>n i e s. (None, AList.update n i s))\<rparr>"

lemma kind_obliging: "obliging kind_incus"
  by (simp add: obliging_def kind_incus_def mem_incus_def)

definition mem_request :: create_req where
  "mem_request = \<lparr>cr_Name = ''box'', cr_ImageRef = ''alpine'', cr_Backend = ''incus'', cr_CPULimit = Some 2, cr_MemoryLimitMB = None,
     cr_NetworkMode = NetworkIsolated, cr_EnableBoostChannel = Some True, cr_SandboxID = ''sbx-1'', cr_Metadata = None\<rparr>"


lemma incus_publish_roundtrip_witness:
  "mem_devices (ip_out (snd (run_state (inc_UnpublishPort mem_incus ''nvrs-1'' 7) mem_published))) = mem_devices (ip_out mem_inc)"
proof -
  have pub: "run_state (inc_PublishPort mem_incus ''nvrs-1'' 80) mem_inc
      = (Inr \<lparr>ep_HostAddress = ''0.0.0.0'', ep_PublishedPort = 7\<rparr>, mem_published)"
    unfolding mem_published_def by (rule prod_eqI) (code_simp, simp)
  have un: "run_state (inc_UnpublishPort mem_incus ''nvrs-1'' (ep_PublishedPort \<lparr>ep_HostAddress = ''0.0.0.0'', ep_PublishedPort = 7\<rparr>)) mem_published
      = (Inr (), snd (run_state (inc_UnpublishPort mem_incus ''nvrs-1'' 7) mem_published))"
    by (rule prod_eqI) (code_simp, simp)
  have free: "proxy_name 80 \<notin> fst ` set (mem_devices (ip_out mem_inc) ''nvrs-1'')"
    "\<forall>(m, d)\<in>set (mem_devices (ip_out mem_inc) ''nvrs-1''). \<not> listens (ip_nextPort mem_inc) d"
    by code_simp+
  show ?thesis by (rule incus_publish_roundtrip [OF mem_lawful free pub un])
qed

lemma incus_republish_loses_first_witness:
  "(\<forall>(m, d)\<in>set (mem_devices (ip_out (snd (run_state (inc_PublishPort mem_incus ''nvrs-1'' 80) mem_published))) ''nvrs-1''). \<not> listens 7 d)
   \<and> mem_devices (ip_out (snd (run_state (inc_UnpublishPort mem_incus ''nvrs-1'' 8)
        (snd (run_state (inc_PublishPort mem_incus ''nvrs-1'' 80) mem_published))))) = mem_devices (ip_out mem_inc)"
proof -
  let ?ep = "\<lambda>x. \<lparr>ep_HostAddress = ''0.0.0.0'', ep_PublishedPort = x\<rparr>"
  let ?r = "snd (run_state (inc_PublishPort mem_incus ''nvrs-1'' 80) mem_published)"
  have one: "run_state (inc_PublishPort mem_incus ''nvrs-1'' 80) mem_inc = (Inr (?ep 7), mem_published)"
    unfolding mem_published_def by (rule prod_eqI) (code_simp, simp)
  have two: "run_state (inc_PublishPort mem_incus ''nvrs-1'' 80) mem_published = (Inr (?ep 8), ?r)"
    by (rule prod_eqI) (code_simp, simp)
  have un: "run_state (inc_UnpublishPort mem_incus ''nvrs-1'' (ep_PublishedPort (?ep 8))) ?r
      = (Inr (), snd (run_state (inc_UnpublishPort mem_incus ''nvrs-1'' 8) ?r))"
    by (rule prod_eqI) (code_simp, simp)
  have free: "proxy_name 80 \<notin> fst ` set (mem_devices (ip_out mem_inc) ''nvrs-1'')"
    "\<forall>(m, d)\<in>set (mem_devices (ip_out mem_inc) ''nvrs-1''). \<not> listens (ip_nextPort mem_inc) d \<and> \<not> listens (ip_nextPort mem_inc + 1) d"
    by code_simp+
  show ?thesis
    using incus_republish_loses_first [OF mem_lawful free one two] un by simp
qed

definition mem_created :: "server inc" where
  "mem_created = snd (run_state (inc_CreateSandbox kind_incus 3 mem_request) mem_inc)"

text \<open>The device is in place and the socket is open, but nothing answers until the daemon starts again.\<close>

lemma incus_boost_channel_until_restart_witness:
  "map_of (mem_devices (ip_out mem_created) ''nvrs-0123abcd'') boostDeviceName = Some (boost_device ''/run/boost/sbx-1.sock'')
   \<and> (\<exists>l. map_of (ip_listeners mem_created) ''nvrs-0123abcd'' = Some l \<and> il_Open l \<and> \<not> serving {3} l)
   \<and> (\<exists>l. map_of (ip_listeners (snd (run_state (replay_channels kind_incus 0 [demo_sandbox ''a'' SandboxRunning\<lparr>sbx_EnableBoostChannel := True\<rparr>])
        mem_inc))) (sbx_BackendRef (demo_sandbox ''a'' SandboxRunning)) = Some l \<and> serving {3} l)"
proof -
  let ?n = "''nvrs-0123abcd''" and ?row = "demo_sandbox ''a'' SandboxRunning\<lparr>sbx_EnableBoostChannel := True\<rparr>"
  let ?l = "\<lparr>il_Sandbox = ''sbx-1'', il_Path = ''/run/boost/sbx-1.sock'', il_Ctx = 3, il_Open = True\<rparr>"
  have run: "run_state (inc_CreateSandbox kind_incus 3 mem_request) mem_inc = (Inr (incus_ref ?n), mem_created)"
    unfolding mem_created_def by (rule prod_eqI) (code_simp, simp)
  have old: "map_of (ip_listeners mem_inc) (ref_Ref (incus_ref ?n)) = None" by code_simp
  have new: "map_of (ip_listeners mem_created) (ref_Ref (incus_ref ?n)) = Some ?l" by code_simp
  have dev: "map_of (mem_devices (ip_out mem_created) ?n) boostDeviceName = Some (boost_device ''/run/boost/sbx-1.sock'')" by code_simp
  have w: "ip_handler mem_inc" "ic_BoostChannelDir (ip_conf mem_inc) \<noteq> []" "ip_listeners mem_inc = []" by code_simp+
  have row: "replayed ?row" by (simp add: replayed_def demo_sandbox_def)
  show ?thesis
    using incus_boost_channel_until_restart [OF run old new, where gone = "{3}" and w = mem_inc and background = 0 and rows = "[?row]" and n = "sbx_BackendRef ?row"]
      kind_obliging w dev new row
    by (simp add: mem_request_def)
qed

end
