(* ===== verification/Client.thy ===== *)
theory Client imports Wire Paths begin

text \<open>
  The client library (\<open>pkg/client\<close>): requests over a network that is a parameter, the errors of
  the API as the client reads them, and the loop that waits for an operation.  A context is the instant
  at which it ends and the error it then has; times are nanoseconds.
\<close>

section \<open>Requests\<close>

datatype client_error =
    DeadlineExceeded | Canceled
  | Transport string
  | APIError int int string  \<comment> \<open>status, code, message\<close>
  | Undecodable
  | OperationFailed string string | OperationCancelled string  \<comment> \<open>the operation and its error text\<close>
  | ClientFault string

record outgoing =
  hq_Method :: string
  hq_URL :: string
  hq_Body :: "json option"  \<comment> \<open>sent with \<open>Content-Type: application/json\<close>\<close>
  hq_Authorization :: "string option"

text \<open>
  The network: what a request made at an instant brings, a transport error or a status and a body,
  how long it takes, and the world behind it.
\<close>

type_synonym 'w net = "outgoing \<Rightarrow> int \<Rightarrow> 'w \<Rightarrow> (string + int \<times> string) \<times> nat \<times> 'w"

record 'w wire =
  wi_now :: int
  wi_sent :: "outgoing list"
  wi_world :: 'w

type_synonym ('w, 'a) C = "('w wire, client_error + 'a) state"

record client =
  cl_baseURL :: string
  cl_token :: string

text \<open>Options and the two environment variables; a client made without options takes the latter.\<close>

definition NewClient :: "(string \<Rightarrow> string) \<Rightarrow> (client \<Rightarrow> client) list \<Rightarrow> client" where
  "NewClient env opts = fold (\<lambda>f. f) opts \<lparr>
     cl_baseURL = (if env ''NAVARIS_API_URL'' \<noteq> [] then env ''NAVARIS_API_URL'' else ''http://localhost:8080''),
     cl_token = env ''NAVARIS_TOKEN''\<rparr>"

definition WithURL :: "string \<Rightarrow> client \<Rightarrow> client" where "WithURL u c = c\<lparr>cl_baseURL := u\<rparr>"
definition WithToken :: "string \<Rightarrow> client \<Rightarrow> client" where "WithToken t c = c\<lparr>cl_token := t\<rparr>"

type_synonym ctx = "(int \<times> client_error) option"

definition WithTimeout :: "ctx \<Rightarrow> int \<Rightarrow> int \<Rightarrow> ctx" where
  "WithTimeout c d now = (case c of None \<Rightarrow> Some (now + d, DeadlineExceeded)
     | Some (t, e) \<Rightarrow> if t \<le> now + d then Some (t, e) else Some (now + d, DeadlineExceeded))"

definition ended :: "ctx \<Rightarrow> int \<Rightarrow> client_error option" where
  "ended c now = (case c of None \<Rightarrow> None | Some (t, e) \<Rightarrow> if t \<le> now then Some e else None)"

text \<open>\<open>apiErrorBody\<close>: the code and the message below \<open>error\<close>.\<close>

definition set_inner :: "string \<Rightarrow> json \<Rightarrow> int \<times> string \<Rightarrow> (int \<times> string) option" where
  "set_inner k v r = (if names k ''code'' then map_option (\<lambda>c. (c, snd r)) (json_int64 v (fst r))
     else if names k ''message'' then map_option (\<lambda>m. (fst r, m)) (json_text v (snd r)) else Some r)"

definition set_error_body :: "string \<Rightarrow> json \<Rightarrow> int \<times> string \<Rightarrow> (int \<times> string) option" where
  "set_error_body k v r = (if names k ''error'' then unmarshal set_inner r v else Some r)"

definition api_error :: "int \<Rightarrow> string \<Rightarrow> client_error" where
  "api_error status body = (case Option.bind (parse_json body) (unmarshal set_error_body (0, [])) of
     Some (code, msg) \<Rightarrow> if code \<noteq> 0 then APIError status code msg else APIError status 0 body
   | None \<Rightarrow> APIError status 0 body)"

definition send :: "'w net \<Rightarrow> ctx \<Rightarrow> outgoing \<Rightarrow> ('w, int \<times> string) C" where
  "send net ctx q = State (\<lambda>s. case ended ctx (wi_now s) of Some e \<Rightarrow> (Inl e, s)
     | None \<Rightarrow> (case net q (wi_now s) (wi_world s) of (r, d, w) \<Rightarrow>
         let s1 = s\<lparr>wi_sent := wi_sent s @ [q], wi_world := w\<rparr>; t = wi_now s + int d in
         case ended ctx t of Some e \<Rightarrow> (Inl e, s1\<lparr>wi_now := fst (the ctx)\<rparr>)
         | None \<Rightarrow> (map_sum Transport id r, s1\<lparr>wi_now := t\<rparr>)))"

definition doRequest :: "'w net \<Rightarrow> client \<Rightarrow> ctx \<Rightarrow> string \<Rightarrow> string \<Rightarrow> json option \<Rightarrow> ('w, string) C" where
  "doRequest net c ctx meth path body =
     bindE (send net ctx \<lparr>hq_Method = meth, hq_URL = cl_baseURL c @ path, hq_Body = body,
         hq_Authorization = (if cl_token c = [] then None else Some (''Bearer '' @ cl_token c))\<rparr>) (\<lambda>(status, text).
     ret (if status \<ge> 400 then Inl (api_error status text) else Inr text))"

text \<open>\<open>Decode\<close> reads the first value of the body and leaves the rest.\<close>

definition first_value :: "string \<Rightarrow> json option" where
  "first_value s = map_option fst (parse_value (Suc (length s)) s)"

definition decoded :: "(json \<Rightarrow> 'a option) \<Rightarrow> string \<Rightarrow> client_error + 'a" where
  "decoded conv s = (case Option.bind (first_value s) conv of None \<Rightarrow> Inl Undecodable | Some x \<Rightarrow> Inr x)"

definition cl_get :: "'w net \<Rightarrow> client \<Rightarrow> ctx \<Rightarrow> string \<Rightarrow> (json \<Rightarrow> 'a option) \<Rightarrow> ('w, 'a) C" where
  "cl_get net c ctx path conv = bindE (doRequest net c ctx ''GET'' path None) (\<lambda>s. ret (decoded conv s))"

definition cl_send :: "'w net \<Rightarrow> client \<Rightarrow> ctx \<Rightarrow> string \<Rightarrow> string \<Rightarrow> json option \<Rightarrow> (json \<Rightarrow> 'a option) \<Rightarrow> ('w, 'a) C" where
  "cl_send net c ctx meth path body conv = bindE (doRequest net c ctx meth path body) (\<lambda>s. ret (decoded conv s))"

definition cl_del :: "'w net \<Rightarrow> client \<Rightarrow> ctx \<Rightarrow> string \<Rightarrow> ('w, unit) C" where
  "cl_del net c ctx path = bindE (doRequest net c ctx ''DELETE'' path None) (\<lambda>_. ret (Inr ()))"

text \<open>\<open>getList\<close>: the elements below \<open>data\<close>; a resource stays the JSON value it came as.\<close>

definition set_list :: "string \<Rightarrow> json \<Rightarrow> json list \<Rightarrow> json list option" where
  "set_list k v r = (if names k ''data'' then (case v of JNull \<Rightarrow> Some [] | JArr vs \<Rightarrow> Some vs | _ \<Rightarrow> None) else Some r)"

definition getList :: "'w net \<Rightarrow> client \<Rightarrow> ctx \<Rightarrow> string \<Rightarrow> ('w, json list) C" where
  "getList net c ctx path = cl_get net c ctx path (unmarshal set_list [])"

definition resource :: "json \<Rightarrow> json option" where
  "resource j = (case j of JObj _ \<Rightarrow> Some j | JNull \<Rightarrow> Some j | _ \<Rightarrow> None)"

section \<open>Operations\<close>

record client_op =
  co_OperationID :: string
  co_ResourceID :: string
  co_SandboxID :: string
  co_Type :: string
  co_State :: string
  co_ErrorText :: string

definition co_zero :: client_op where
  "co_zero = \<lparr>co_OperationID = [], co_ResourceID = [], co_SandboxID = [], co_Type = [], co_State = [], co_ErrorText = []\<rparr>"

definition set_op :: "string \<Rightarrow> json \<Rightarrow> client_op \<Rightarrow> client_op option" where
  "set_op k v r = (
     if names k ''OperationID'' then map_option (\<lambda>x. r\<lparr>co_OperationID := x\<rparr>) (json_text v (co_OperationID r))
     else if names k ''ResourceID'' then map_option (\<lambda>x. r\<lparr>co_ResourceID := x\<rparr>) (json_text v (co_ResourceID r))
     else if names k ''SandboxID'' then map_option (\<lambda>x. r\<lparr>co_SandboxID := x\<rparr>) (json_text v (co_SandboxID r))
     else if names k ''Type'' then map_option (\<lambda>x. r\<lparr>co_Type := x\<rparr>) (json_text v (co_Type r))
     else if names k ''State'' then map_option (\<lambda>x. r\<lparr>co_State := x\<rparr>) (json_text v (co_State r))
     else if names k ''ErrorText'' then map_option (\<lambda>x. r\<lparr>co_ErrorText := x\<rparr>) (json_text v (co_ErrorText r))
     else Some r)"

definition read_op :: "json \<Rightarrow> client_op option" where
  "read_op = unmarshal set_op co_zero"

definition co_Terminal :: "string \<Rightarrow> bool" where
  "co_Terminal s \<longleftrightarrow> s = ''succeeded'' \<or> s = ''failed'' \<or> s = ''cancelled''"

definition cl_GetOperation :: "'w net \<Rightarrow> client \<Rightarrow> ctx \<Rightarrow> string \<Rightarrow> ('w, client_op) C" where
  "cl_GetOperation net c ctx i = cl_get net c ctx (''/v1/operations/'' @ i) read_op"

section \<open>Waiting\<close>

definition second :: int where "second = 1000000000"

definition DefaultWaitTimeout :: int where "DefaultWaitTimeout = 300 * second"

text \<open>The pause after round \<open>k\<close>: half a second, doubled each time, at most five seconds.\<close>

fun backoff :: "nat \<Rightarrow> int" where
  "backoff 0 = second div 2"
| "backoff (Suc k) = min (2 * backoff k) (5 * second)"

text \<open>Between two requests the loop sleeps, unless the context ends before.\<close>

definition pause :: "ctx \<Rightarrow> int \<Rightarrow> ('w, unit) C" where
  "pause ctx d = State (\<lambda>s. case ended ctx (wi_now s) of Some e \<Rightarrow> (Inl e, s)
     | None \<Rightarrow> (case ended ctx (wi_now s + d) of Some e \<Rightarrow> (Inl e, s\<lparr>wi_now := fst (the ctx)\<rparr>)
       | None \<Rightarrow> (Inr (), s\<lparr>wi_now := wi_now s + d\<rparr>)))"

definition poll :: "'w net \<Rightarrow> client \<Rightarrow> ctx \<Rightarrow> string \<Rightarrow> int \<Rightarrow> ('w, client_op option) C" where
  "poll net c ctx i d = bindE (cl_GetOperation net c ctx i) (\<lambda>x.
     if co_Terminal (co_State x) then ret (Inr (Some x)) else bindE (pause ctx d) (\<lambda>_. ret (Inr None)))"

lemma backoff_bounds: "second div 2 \<le> backoff k" "backoff k \<le> 5 * second" "0 < backoff k"
proof -
  have "second div 2 \<le> backoff k \<and> backoff k \<le> 5 * second" by (induction k) (auto simp: second_def)
  then show "second div 2 \<le> backoff k" "backoff k \<le> 5 * second" "0 < backoff k" by (auto simp: second_def)
qed

lemma run_send: "run_state (send net ctx q) s = (case ended ctx (wi_now s) of Some e \<Rightarrow> (Inl e, s)
     | None \<Rightarrow> (case net q (wi_now s) (wi_world s) of (r, d, w) \<Rightarrow>
         (case ended ctx (wi_now s + int d) of Some e \<Rightarrow> (Inl e, s\<lparr>wi_now := fst (the ctx), wi_sent := wi_sent s @ [q], wi_world := w\<rparr>)
         | None \<Rightarrow> (map_sum Transport id r, s\<lparr>wi_now := wi_now s + int d, wi_sent := wi_sent s @ [q], wi_world := w\<rparr>))))"
  by (simp add: send_def Let_def split: prod.split option.split)

lemma run_pause: "run_state (pause ctx d) s = (case ended ctx (wi_now s) of Some e \<Rightarrow> (Inl e, s)
     | None \<Rightarrow> (case ended ctx (wi_now s + d) of Some e \<Rightarrow> (Inl e, s\<lparr>wi_now := fst (the ctx)\<rparr>)
       | None \<Rightarrow> (Inr (), s\<lparr>wi_now := wi_now s + d\<rparr>)))"
  by (simp add: pause_def)

text \<open>The clock never goes back and never passes the end of the context.\<close>

definition within :: "ctx \<Rightarrow> 'w wire \<Rightarrow> 'w wire \<Rightarrow> bool" where
  "within ctx s s' \<longleftrightarrow> wi_now s \<le> wi_now s' \<and> (\<forall>t e. ctx = Some (t, e) \<longrightarrow> wi_now s' \<le> max t (wi_now s))"

lemma send_within: "run_state (send net ctx q) s = (r, s') \<Longrightarrow> within ctx s s'"
  by (auto simp: run_send within_def ended_def split: prod.splits option.splits if_splits)

lemma pause_within: "run_state (pause ctx d) s = (r, s') \<Longrightarrow> 0 \<le> d \<Longrightarrow> within ctx s s'"
  by (auto simp: run_pause within_def ended_def split: prod.splits option.splits if_splits)

lemma run_cl_get:
  "run_state (cl_get net c ctx path conv) s = (case run_state (send net ctx \<lparr>hq_Method = ''GET'', hq_URL = cl_baseURL c @ path,
       hq_Body = None, hq_Authorization = (if cl_token c = [] then None else Some (''Bearer '' @ cl_token c))\<rparr>) s of
     (Inl e, s') \<Rightarrow> (Inl e, s')
   | (Inr (status, text), s') \<Rightarrow> (if status \<ge> 400 then Inl (api_error status text) else decoded conv text, s'))"
  by (auto simp: cl_get_def doRequest_def runs split: prod.splits sum.splits)

lemma poll_again:
  assumes "run_state (poll net c ctx i d) s = (Inr None, s')" and "0 < d"
  shows "wi_now s + d \<le> wi_now s' \<and> ended ctx (wi_now s') = None"
proof -
  obtain x s1 where g: "run_state (cl_GetOperation net c ctx i) s = (Inr x, s1)"
    and p: "run_state (pause ctx d) s1 = (Inr (), s')" "\<not> co_Terminal (co_State x)"
    using assms(1) by (auto simp: poll_def runs split: prod.splits sum.splits if_splits)
  obtain y where "run_state (send net ctx \<lparr>hq_Method = ''GET'', hq_URL = cl_baseURL c @ ''/v1/operations/'' @ i, hq_Body = None,
      hq_Authorization = (if cl_token c = [] then None else Some (''Bearer '' @ cl_token c))\<rparr>) s = (Inr y, s1)"
    using g by (auto simp: cl_GetOperation_def run_cl_get split: prod.splits sum.splits)
  from send_within [OF this] show ?thesis using p
    by (auto simp: run_pause within_def split: option.splits)
qed

lemma poll_again_measure:
  assumes "(Inr None, s') = run_state (poll net c (Some (t, e)) i (backoff k)) s"
  shows "nat (t - wi_now s') < nat (t - wi_now s)"
  using poll_again [OF assms [symmetric] backoff_bounds(3)] backoff_bounds(3) [of k] by (auto simp: ended_def split: if_splits)

function wait_loop :: "'w net \<Rightarrow> client \<Rightarrow> int \<times> client_error \<Rightarrow> string \<Rightarrow> nat \<Rightarrow> 'w wire \<Rightarrow> (client_error + client_op) \<times> 'w wire" where
  "wait_loop net c (t, e) i k s = (case run_state (poll net c (Some (t, e)) i (backoff k)) s of
     (Inl x, s') \<Rightarrow> (Inl x, s')
   | (Inr (Some op), s') \<Rightarrow> (Inr op, s')
   | (Inr None, s') \<Rightarrow> wait_loop net c (t, e) i (Suc k) s')"
  by pat_completeness auto
termination
  by (relation "measure (\<lambda>(net, c, (t, e), i, k, s). nat (t - wi_now s))") (auto dest!: poll_again_measure)

declare wait_loop.simps [simp del]

definition WaitForOperation :: "'w net \<Rightarrow> client \<Rightarrow> ctx \<Rightarrow> string \<Rightarrow> int option \<Rightarrow> ('w, client_op) C" where
  "WaitForOperation net c ctx i opts = State (\<lambda>s.
     let timeout = (case opts of Some d \<Rightarrow> if d > 0 then d else DefaultWaitTimeout | None \<Rightarrow> DefaultWaitTimeout) in
     wait_loop net c (the (WithTimeout ctx timeout (wi_now s))) i 0 s)"

section \<open>The wait is bounded\<close>

definition op_request :: "client \<Rightarrow> string \<Rightarrow> outgoing" where
  "op_request c i = \<lparr>hq_Method = ''GET'', hq_URL = cl_baseURL c @ ''/v1/operations/'' @ i, hq_Body = None,
     hq_Authorization = (if cl_token c = [] then None else Some (''Bearer '' @ cl_token c))\<rparr>"

lemma run_GetOperation:
  "run_state (cl_GetOperation net c ctx i) s = (case run_state (send net ctx (op_request c i)) s of
     (Inl e, s') \<Rightarrow> (Inl e, s')
   | (Inr (status, text), s') \<Rightarrow> (if status \<ge> 400 then Inl (api_error status text) else decoded read_op text, s'))"
  by (simp add: cl_GetOperation_def run_cl_get op_request_def)

lemma send_once:
  "run_state (send net ctx q) s = (r, s') \<Longrightarrow> wi_sent s' = wi_sent s @ [q] \<or> wi_sent s' = wi_sent s"
  by (auto simp: run_send split: prod.splits option.splits)

lemma poll_facts:
  assumes "run_state (poll net c ctx i d) s = (r, s')" and "0 \<le> d"
  shows "within ctx s s' \<and> (wi_sent s' = wi_sent s @ [op_request c i] \<or> wi_sent s' = wi_sent s)
    \<and> (\<forall>x. r = Inr (Some x) \<longrightarrow> co_Terminal (co_State x))"
proof -
  obtain y s1 where y: "run_state (send net ctx (op_request c i)) s = (y, s1)" by fastforce
  note facts = send_within [OF y] send_once [OF y]
  show ?thesis
  proof (cases "s' = s1")
    case True
    then show ?thesis using facts assms(1) y
      by (auto simp: poll_def run_GetOperation run_pause runs split: prod.splits sum.splits if_splits option.splits)
  next
    case False
    then obtain z where p: "run_state (pause ctx d) s1 = (z, s')" "\<forall>x. r \<noteq> Inr (Some x)"
      using assms(1) y by (auto simp: poll_def run_GetOperation runs split: prod.splits sum.splits if_splits)
    then have "wi_sent s' = wi_sent s1" by (auto simp: run_pause split: option.splits)
    then show ?thesis using facts p(2) pause_within [OF p(1) assms(2)] by (auto simp: within_def)
  qed
qed

lemma div_step:
  fixes t u v w :: int
  assumes "0 < w" "u + w \<le> v" "u + w \<le> t"
  shows "Suc (nat ((t - v) div w)) \<le> nat ((t - u) div w)"
proof -
  have "(t - v) div w \<le> (t - u - w) div w" using assms by (intro zdiv_mono1) auto
  also have "\<dots> + 1 = (t - u) div w" using assms(1) div_add_self2 [of w "t - u - w"] by simp
  finally have "(t - v) div w + 1 \<le> (t - u) div w" by simp
  moreover have "1 \<le> (t - u) div w" using assms(1,3) zdiv_mono1 [of w "t - u" w] by simp
  ultimately show ?thesis by linarith
qed

lemma backoff_late: "4 \<le> k \<Longrightarrow> backoff k = 5 * second"
proof (induction k)
  case (Suc k)
  then consider "Suc k = 4" | "4 \<le> k" by linarith
  then show ?case
  proof cases
    case 1
    then show ?thesis by (simp add: second_def eval_nat_numeral)
  qed (use Suc in \<open>simp add: second_def\<close>)
qed simp

lemma wait_loop_bounded:
  "wait_loop net c te i k s = (r, s') \<Longrightarrow>
     wi_now s \<le> wi_now s' \<and> wi_now s' \<le> max (fst te) (wi_now s)
   \<and> (\<exists>m. m \<le> nat ((fst te - wi_now s) div (5 * second)) + (4 - k) + 1 \<and> wi_sent s' = wi_sent s @ replicate m (op_request c i))
   \<and> (\<forall>x. r = Inr x \<longrightarrow> co_Terminal (co_State x))"
proof (induction net c te i k s rule: wait_loop.induct)
  case (1 net c t e i k s)
  obtain y s1 where y: "run_state (poll net c (Some (t, e)) i (backoff k)) s = (y, s1)" by fastforce
  have f: "within (Some (t, e)) s s1" "wi_sent s1 = wi_sent s @ [op_request c i] \<or> wi_sent s1 = wi_sent s"
    "\<And>x. y = Inr (Some x) \<Longrightarrow> co_Terminal (co_State x)"
    using poll_facts [OF y] backoff_bounds(3) [of k] by auto
  show ?case
  proof (cases "y = Inr None")
    case False
    then have "s' = s1 \<and> (\<forall>x. r = Inr x \<longrightarrow> y = Inr (Some x))"
      using "1.prems" y by (auto simp: wait_loop.simps [of net] split: sum.splits option.splits)
    moreover have "\<exists>m\<le>1. wi_sent s1 = wi_sent s @ replicate m (op_request c i)"
      using f(2) by (metis append.right_neutral le_numeral_extra(4) replicate_0 replicate_Suc zero_le_one One_nat_def)
    ultimately show ?thesis using f by (fastforce simp: within_def)
  next
    case True
    then have w: "wait_loop net c (t, e) i (Suc k) s1 = (r, s')"
      using "1.prems" y by (simp add: wait_loop.simps [of net _ _ _ _ k])
    note again = poll_again [OF y [unfolded True] backoff_bounds(3)]
    have t: "wi_now s + backoff k \<le> wi_now s1" "wi_now s1 < t" using again by (auto simp: ended_def split: if_splits)
    note ih = "1.IH" [OF y [symmetric] True refl w]
    obtain m where m: "m \<le> nat ((t - wi_now s1) div (5 * second)) + (4 - Suc k) + 1"
      "wi_sent s' = wi_sent s1 @ replicate m (op_request c i)" using ih by auto
    have "Suc m \<le> nat ((t - wi_now s) div (5 * second)) + (4 - k) + 1"
    proof (cases "4 \<le> k")
      case True
      then show ?thesis using m(1) t div_step [of "5 * second" "wi_now s" "wi_now s1" t] backoff_late [OF True]
        by (simp add: second_def)
    next
      case False
      have "nat ((t - wi_now s1) div (5 * second)) \<le> nat ((t - wi_now s) div (5 * second))"
        using t backoff_bounds(3) [of k] by (intro nat_mono zdiv_mono1) (auto simp: second_def)
      then show ?thesis using m(1) False by linarith
    qed
    then have "\<exists>m. m \<le> nat ((t - wi_now s) div (5 * second)) + (4 - k) + 1 \<and> wi_sent s' = wi_sent s @ replicate m (op_request c i)"
      using f(2) m(2) by (metis Suc_leD append_Cons append_Nil append_assoc replicate_Suc)
    then show ?thesis using ih t backoff_bounds(3) [of k] by (auto simp: within_def)
  qed
qed

definition wait_limit :: "int option \<Rightarrow> int" where
  "wait_limit opts = (case opts of Some d \<Rightarrow> if d > 0 then d else DefaultWaitTimeout | None \<Rightarrow> DefaultWaitTimeout)"

lemma wait_limit_pos: "0 < wait_limit opts"
  by (auto simp: wait_limit_def DefaultWaitTimeout_def second_def split: option.splits)

lemma run_Wait: "run_state (WaitForOperation net c ctx i opts) s = wait_loop net c (the (WithTimeout ctx (wait_limit opts) (wi_now s))) i 0 s"
  by (simp add: WaitForOperation_def wait_limit_def)

lemma WithTimeout_end: "fst (the (WithTimeout ctx d now)) \<le> now + d"
  by (auto simp: WithTimeout_def split: option.splits)

lemma wait_facts:
  assumes "run_state (WaitForOperation net c ctx i opts) s = (r, s')"
  shows "wi_now s \<le> wi_now s'" and "wi_now s' \<le> wi_now s + wait_limit opts"
    and "\<exists>m \<le> nat (wait_limit opts div (5 * second)) + 5. wi_sent s' = wi_sent s @ replicate m (op_request c i)"
    and "\<forall>x. r = Inr x \<longrightarrow> co_Terminal (co_State x)"
proof -
  let ?te = "the (WithTimeout ctx (wait_limit opts) (wi_now s))"
  note b = wait_loop_bounded [OF assms [unfolded run_Wait]]
  note e = WithTimeout_end [of ctx "wait_limit opts" "wi_now s"]
  show "wi_now s \<le> wi_now s'" "\<forall>x. r = Inr x \<longrightarrow> co_Terminal (co_State x)" using b by auto
  show "wi_now s' \<le> wi_now s + wait_limit opts" using b e wait_limit_pos [of opts] by linarith
  obtain m where m: "m \<le> nat ((fst ?te - wi_now s) div (5 * second)) + 5" "wi_sent s' = wi_sent s @ replicate m (op_request c i)"
    using b by auto
  have "nat ((fst ?te - wi_now s) div (5 * second)) \<le> nat (wait_limit opts div (5 * second))"
    using e by (intro nat_mono zdiv_mono1) (auto simp: second_def)
  then show "\<exists>m \<le> nat (wait_limit opts div (5 * second)) + 5. wi_sent s' = wi_sent s @ replicate m (op_request c i)"
    using m by (intro exI [of _ m]) auto
qed

text \<open>
  C33: whatever the server answers, and however long it takes, waiting for an operation returns within
  the timeout (five minutes when none is given), after at most one request per five seconds of it and
  five more; every request reads that operation, and an operation that is returned has ended.
\<close>

theorem wait_bounded:
  assumes "run_state (WaitForOperation net c ctx i opts) s = (r, s')"
  shows "wi_now s \<le> wi_now s' \<and> wi_now s' \<le> wi_now s + wait_limit opts
    \<and> (\<exists>m \<le> nat (wait_limit opts div (5 * second)) + 5. wi_sent s' = wi_sent s @ replicate m (op_request c i))
    \<and> (\<forall>x. r = Inr x \<longrightarrow> co_Terminal (co_State x))"
  using wait_facts [OF assms] by blast

section \<open>The wait notices the end\<close>

text \<open>Every read of the operation is answered within \<open>lag\<close>, from the instant \<open>done_at\<close> on with a final state.\<close>

definition answers :: "'w net \<Rightarrow> outgoing \<Rightarrow> int \<Rightarrow> int \<Rightarrow> bool" where
  "answers net q done_at lag \<longleftrightarrow> (\<forall>t w. case net q t w of (r, d, w') \<Rightarrow> int d \<le> lag \<and>
     (case r of Inl _ \<Rightarrow> False | Inr (status, text) \<Rightarrow> status < 400 \<and>
        (case decoded read_op text of Inl _ \<Rightarrow> False | Inr x \<Rightarrow> done_at \<le> t \<longrightarrow> co_Terminal (co_State x))))"

lemma answersE:
  assumes "answers net q done_at lag"
  obtains status body d w' x where "net q t w = (Inr (status, body), d, w')" "int d \<le> lag" "status < 400"
    "decoded read_op body = Inr x" "done_at \<le> t \<Longrightarrow> co_Terminal (co_State x)"
proof -
  obtain r d w' where n: "net q t w = (r, d, w')" by (cases "net q t w")
  have "int d \<le> lag \<and> (case r of Inl _ \<Rightarrow> False | Inr (status, text) \<Rightarrow> status < 400 \<and>
        (case decoded read_op text of Inl _ \<Rightarrow> False | Inr x \<Rightarrow> done_at \<le> t \<longrightarrow> co_Terminal (co_State x)))"
    using spec [OF spec [OF assms [unfolded answers_def], of t], of w] n by simp
  moreover from this obtain status body where r: "r = Inr (status, body)" by (cases r) auto
  ultimately show thesis using that n by (cases "decoded read_op body") auto
qed

lemma wait_loop_notices:
  "answers net (op_request c i) done_at lag \<Longrightarrow> start \<le> wi_now s \<Longrightarrow> wi_now s \<le> max start done_at + lag + 5 * second
      \<Longrightarrow> max start done_at + 2 * lag + 5 * second < fst te
      \<Longrightarrow> \<exists>x s'. wait_loop net c te i k s = (Inr x, s') \<and> wi_now s' \<le> max start done_at + 2 * lag + 5 * second"
proof (induction net c te i k s rule: wait_loop.induct)
  case (1 net c t e i k s)
  let ?q = "op_request c i" and ?M = "max start done_at"
  obtain status body d w' x where a: "net ?q (wi_now s) (wi_world s) = (Inr (status, body), d, w')" "int d \<le> lag" "status < 400"
    "decoded read_op body = Inr x" "done_at \<le> wi_now s \<Longrightarrow> co_Terminal (co_State x)"
    using answersE [OF "1.prems"(1)] by metis
  let ?s1 = "s\<lparr>wi_now := wi_now s + int d, wi_sent := wi_sent s @ [?q], wi_world := w'\<rparr>"
  have now: "wi_now s + int d < t" using a(2) "1.prems" by simp
  have g: "run_state (cl_GetOperation net c (Some (t, e)) i) s = (Inr x, ?s1)"
    using a now by (simp add: run_GetOperation run_send ended_def)
  show ?case
  proof (cases "co_Terminal (co_State x)")
    case True
    then have "wait_loop net c (t, e) i k s = (Inr x, ?s1)" using g by (simp add: wait_loop.simps [of net _ _ _ _ k] poll_def runs)
    then show ?thesis using a(2) "1.prems" by simp
  next
    case False
    then have early: "wi_now s < done_at" using a(5) by force
    let ?s2 = "?s1\<lparr>wi_now := wi_now s + int d + backoff k\<rparr>"
    have b: "wi_now s + int d + backoff k \<le> ?M + lag + 5 * second" using early a(2) backoff_bounds(2) [of k] by linarith
    have "0 \<le> lag" using a(2) by linarith
    then have "wi_now s + int d + backoff k < t" using b "1.prems"(4) by simp
    then have y: "run_state (poll net c (Some (t, e)) i (backoff k)) s = (Inr None, ?s2)"
      using g False now by (simp add: poll_def runs run_pause ended_def)
    have "wait_loop net c (t, e) i k s = wait_loop net c (t, e) i (Suc k) ?s2"
      using y by (simp add: wait_loop.simps [of net _ _ _ _ k])
    moreover have "\<exists>x s'. wait_loop net c (t, e) i (Suc k) ?s2 = (Inr x, s') \<and> wi_now s' \<le> ?M + 2 * lag + 5 * second"
      using "1.IH" [OF y [symmetric] refl refl "1.prems"(1)] "1.prems"(2,4) b backoff_bounds(3) [of k] by simp
    ultimately show ?thesis by simp
  qed
qed

text \<open>
  C34: when the server answers every read within \<open>lag\<close> and the operation has ended at \<open>done_at\<close>, the wait
  returns the ended operation at most five seconds and two round trips after that, if the deadline is later.
\<close>

theorem wait_notices:
  assumes "answers net (op_request c i) done_at lag"
    and "max (wi_now s) done_at + 2 * lag + 5 * second < fst (the (WithTimeout ctx (wait_limit opts) (wi_now s)))"
  shows "\<exists>x s'. run_state (WaitForOperation net c ctx i opts) s = (Inr x, s') \<and> co_Terminal (co_State x)
    \<and> wi_now s' \<le> max (wi_now s) done_at + 2 * lag + 5 * second"
proof -
  have "0 \<le> lag" using answersE [OF assms(1), of 0 "wi_world s"] by (metis of_nat_0_le_iff order_trans)
  then have "wi_now s \<le> max (wi_now s) done_at + lag + 5 * second" by (simp add: second_def)
  from wait_loop_notices [OF assms(1) order_refl this assms(2), of 0]
  show ?thesis unfolding run_Wait using wait_loop_bounded [of net c _ i 0 s] by blast
qed

text \<open>A server whose operation is running until second 7 and then has succeeded; a request takes a second.\<close>

definition op_body :: "string \<Rightarrow> string" where
  "op_body st = print_json (JObj [(''OperationID'', JStr ''op-1''), (''ResourceID'', JStr ''sbx-1''), (''State'', JStr st)])"

definition slow_net :: "unit net" where
  "slow_net q t w = (Inr (200, if t < 7 * second then op_body ''running'' else op_body ''succeeded''), nat second, ())"

definition slow_client :: client where "slow_client = NewClient (\<lambda>_. []) [WithURL ''http://h'', WithToken ''t'']"

lemma slow_decoded:
  "decoded read_op (op_body ''running'') = Inr (co_zero\<lparr>co_OperationID := ''op-1'', co_ResourceID := ''sbx-1'', co_State := ''running''\<rparr>)"
  "decoded read_op (op_body ''succeeded'') = Inr (co_zero\<lparr>co_OperationID := ''op-1'', co_ResourceID := ''sbx-1'', co_State := ''succeeded''\<rparr>)"
  by code_simp+

lemma slow_answers: "answers slow_net q (7 * second) second"
  by (auto simp: answers_def slow_net_def slow_decoded co_Terminal_def second_def)

definition fresh_wire :: "unit wire" where "fresh_wire = \<lparr>wi_now = 0, wi_sent = [], wi_world = ()\<rparr>"

abbreviation slow_wait :: "(client_error + client_op) \<times> unit wire" where
  "slow_wait \<equiv> run_state (WaitForOperation slow_net slow_client None ''op-1'' (Some (60 * second))) fresh_wire"

lemma wait_bounded_witness:
  "wi_now (snd slow_wait) \<le> 60 * second \<and> length (wi_sent (snd slow_wait)) \<le> 17
   \<and> hq_URL ` set (wi_sent (snd slow_wait)) \<subseteq> {''http://h/v1/operations/op-1''}"
proof -
  note b = wait_bounded [OF prod.collapse [symmetric, of slow_wait]]
  have u: "hq_URL (op_request slow_client ''op-1'') = ''http://h/v1/operations/op-1''" by code_simp
  show ?thesis using b u by (auto simp: wait_limit_def second_def fresh_wire_def)
qed

lemma wait_notices_witness:
  "\<exists>x s'. slow_wait = (Inr x, s') \<and> co_Terminal (co_State x) \<and> wi_now s' \<le> 14 * second"
  using wait_notices [OF slow_answers, where s = fresh_wire and ctx = None and opts = "Some (60 * second)" and c = slow_client and i = "''op-1''"]
  by (simp add: fresh_wire_def wait_limit_def WithTimeout_def second_def)

section \<open>Errors of the API\<close>

text \<open>The body \<open>respondError\<close> writes: the status again, and a message.\<close>

definition error_body :: "int \<Rightarrow> string \<Rightarrow> string" where
  "error_body code msg = print_json (JObj [(''error'', JObj [(''code'', JInt code), (''message'', JStr msg)])]) @ [CHR 0x0A]"

lemma parse_encoded: "parse_json (print_json v @ [CHR 0x0A]) = Some v" "first_value (print_json v @ [CHR 0x0A]) = Some v"
  using parse_print(1) [of "[CHR 0x0A]" v "Suc (length (print_json v @ [CHR 0x0A]))"]
  by (simp_all add: parse_json_def first_value_def skip_def ends_value_def)

lemma api_error_body:
  assumes "0 < code" "code < 1000"
  shows "api_error status (error_body code msg) = APIError status code msg"
  using assms by (simp add: api_error_def error_body_def parse_encoded unmarshal_def set_error_body_def set_inner_def
    names_def lower_def json_int64_def json_int_def json_text_def del: print_json.simps)

text \<open>A body that is not JSON, as \<open>http.Error\<close> writes it, becomes the message itself, with code 0.\<close>

lemma api_error_plain: "parse_json body = None \<Longrightarrow> api_error status body = APIError status 0 body"
  by (simp add: api_error_def)

section \<open>The calls\<close>

text \<open>\<open>omitempty\<close> leaves out empty texts and absent values.\<close>

definition opt_text :: "string \<Rightarrow> string \<Rightarrow> (string \<times> json) list" where
  "opt_text k v = (if v = [] then [] else [(k, JStr v)])"

definition opt_int :: "string \<Rightarrow> int option \<Rightarrow> (string \<times> json) list" where
  "opt_int k v = (case v of None \<Rightarrow> [] | Some i \<Rightarrow> [(k, JInt i)])"

definition opt_bool :: "string \<Rightarrow> bool option \<Rightarrow> (string \<times> json) list" where
  "opt_bool k v = (case v of None \<Rightarrow> [] | Some b \<Rightarrow> [(k, JBool b)])"

definition opt_json :: "string \<Rightarrow> json option \<Rightarrow> (string \<times> json) list" where
  "opt_json k v = (case v of None \<Rightarrow> [] | Some j \<Rightarrow> [(k, j)])"

definition opt_map :: "string \<Rightarrow> (string \<times> json) list \<Rightarrow> (string \<times> json) list" where
  "opt_map k ms = (if ms = [] then [] else [(k, JObj ms)])"

text \<open>\<open>url.QueryEscape\<close>.\<close>

definition hex_upper :: "nat \<Rightarrow> char" where
  "hex_upper v = (if v < 10 then char_of (48 + v) else char_of (55 + v))"

definition query_char :: "char \<Rightarrow> string" where
  "query_char c = (let v = (of_char c :: nat) in
     if 48 \<le> v \<and> v \<le> 57 \<or> 65 \<le> v \<and> v \<le> 90 \<or> 97 \<le> v \<and> v \<le> 122 \<or> c \<in> {CHR ''-'', CHR ''_'', CHR ''.'', CHR ''~''} then [c]
     else if c = CHR '' '' then ''+'' else [CHR ''%'', hex_upper (v div 16), hex_upper (v mod 16)])"

text \<open>\<open>Values.Encode\<close> of the parameters that are set, in the order of their names.\<close>

definition encode_query :: "(string \<times> string) list \<Rightarrow> string" where
  "encode_query ps = join ''&'' (map (\<lambda>(k, v). k @ ''='' @ concat (map query_char v)) ps)"

definition with_query :: "string \<Rightarrow> (string \<times> string) list \<Rightarrow> string" where
  "with_query path ps = (if ps = [] then path else path @ ''?'' @ encode_query ps)"

definition set_params :: "(string \<times> string) list \<Rightarrow> (string \<times> string) list" where
  "set_params ps = filter (\<lambda>(k, v). v \<noteq> []) ps"

definition cl_ListOperations :: "'w net \<Rightarrow> client \<Rightarrow> ctx \<Rightarrow> string \<Rightarrow> string \<Rightarrow> ('w, json list) C" where
  "cl_ListOperations net c ctx sandbox st =
     getList net c ctx (with_query ''/v1/operations'' (set_params [(''sandbox_id'', sandbox), (''state'', st)]))"

definition cl_CancelOperation :: "'w net \<Rightarrow> client \<Rightarrow> ctx \<Rightarrow> string \<Rightarrow> ('w, unit) C" where
  "cl_CancelOperation net c ctx i =
     bindE (doRequest net c ctx ''POST'' (''/v1/operations/'' @ i @ ''/cancel'') None) (\<lambda>_. ret (Inr ()))"

text \<open>The requests; an expiry is the JSON value its time is written as, metadata the members of its object.\<close>

record sandbox_request =
  sq_ProjectID :: string
  sq_Name :: string
  sq_ImageID :: string
  sq_Backend :: string
  sq_CPULimit :: "int option"
  sq_MemoryLimitMB :: "int option"
  sq_NetworkMode :: string
  sq_EnableBoostChannel :: "bool option"
  sq_ExpiresAt :: "json option"
  sq_Metadata :: "(string \<times> json) list"

record snapshot_request =
  fq_ProjectID :: string
  fq_Name :: string
  fq_SnapshotID :: string
  fq_CPULimit :: "int option"
  fq_MemoryLimitMB :: "int option"
  fq_NetworkMode :: string
  fq_ExpiresAt :: "json option"
  fq_Metadata :: "(string \<times> json) list"

definition sandbox_body :: "sandbox_request \<Rightarrow> json" where
  "sandbox_body q = JObj ([(''project_id'', JStr (sq_ProjectID q)), (''name'', JStr (sq_Name q))]
     @ opt_text ''image_id'' (sq_ImageID q) @ opt_text ''backend'' (sq_Backend q)
     @ opt_int ''cpu_limit'' (sq_CPULimit q) @ opt_int ''memory_limit_mb'' (sq_MemoryLimitMB q)
     @ opt_text ''network_mode'' (sq_NetworkMode q) @ opt_bool ''enable_boost_channel'' (sq_EnableBoostChannel q)
     @ opt_json ''expires_at'' (sq_ExpiresAt q) @ opt_map ''metadata'' (sq_Metadata q))"

definition from_snapshot_body :: "snapshot_request \<Rightarrow> json" where
  "from_snapshot_body q = JObj ([(''project_id'', JStr (fq_ProjectID q)), (''name'', JStr (fq_Name q)),
       (''snapshot_id'', JStr (fq_SnapshotID q))]
     @ opt_int ''cpu_limit'' (fq_CPULimit q) @ opt_int ''memory_limit_mb'' (fq_MemoryLimitMB q)
     @ opt_text ''network_mode'' (fq_NetworkMode q)
     @ opt_json ''expires_at'' (fq_ExpiresAt q) @ opt_map ''metadata'' (fq_Metadata q))"

definition cl_CreateSandbox :: "'w net \<Rightarrow> client \<Rightarrow> ctx \<Rightarrow> sandbox_request \<Rightarrow> ('w, client_op) C" where
  "cl_CreateSandbox net c ctx q = cl_send net c ctx ''POST'' ''/v1/sandboxes'' (Some (sandbox_body q)) read_op"

definition cl_CreateSandboxFromSnapshot :: "'w net \<Rightarrow> client \<Rightarrow> ctx \<Rightarrow> snapshot_request \<Rightarrow> ('w, client_op) C" where
  "cl_CreateSandboxFromSnapshot net c ctx q =
     cl_send net c ctx ''POST'' ''/v1/sandboxes/from-snapshot'' (Some (from_snapshot_body q)) read_op"

definition cl_GetSandbox :: "'w net \<Rightarrow> client \<Rightarrow> ctx \<Rightarrow> string \<Rightarrow> ('w, json) C" where
  "cl_GetSandbox net c ctx i = cl_get net c ctx (''/v1/sandboxes/'' @ i) resource"

definition cl_ListSandboxes :: "'w net \<Rightarrow> client \<Rightarrow> ctx \<Rightarrow> string \<Rightarrow> string \<Rightarrow> ('w, json list) C" where
  "cl_ListSandboxes net c ctx project st =
     getList net c ctx (with_query ''/v1/sandboxes'' ((''project_id'', project) # set_params [(''state'', st)]))"

definition cl_StartSandbox :: "'w net \<Rightarrow> client \<Rightarrow> ctx \<Rightarrow> string \<Rightarrow> ('w, client_op) C" where
  "cl_StartSandbox net c ctx i = cl_send net c ctx ''POST'' (''/v1/sandboxes/'' @ i @ ''/start'') None read_op"

definition cl_StopSandbox :: "'w net \<Rightarrow> client \<Rightarrow> ctx \<Rightarrow> string \<Rightarrow> bool \<Rightarrow> ('w, client_op) C" where
  "cl_StopSandbox net c ctx i force =
     cl_send net c ctx ''POST'' (''/v1/sandboxes/'' @ i @ ''/stop'') (Some (JObj [(''force'', JBool force)])) read_op"

definition cl_DestroySandbox :: "'w net \<Rightarrow> client \<Rightarrow> ctx \<Rightarrow> string \<Rightarrow> ('w, client_op) C" where
  "cl_DestroySandbox net c ctx i = cl_send net c ctx ''POST'' (''/v1/sandboxes/'' @ i @ ''/destroy'') None read_op"

definition cl_Fork :: "'w net \<Rightarrow> client \<Rightarrow> ctx \<Rightarrow> string \<Rightarrow> int \<Rightarrow> ('w, client_op) C" where
  "cl_Fork net c ctx i n = cl_send net c ctx ''POST'' (''/v1/sandboxes/'' @ i @ ''/fork'') (Some (JObj [(''count'', JInt n)])) read_op"

definition cl_UpdateSandboxResources :: "'w net \<Rightarrow> client \<Rightarrow> ctx \<Rightarrow> string \<Rightarrow> int option \<Rightarrow> int option \<Rightarrow> ('w, json) C" where
  "cl_UpdateSandboxResources net c ctx i cpu mem = cl_send net c ctx ''PATCH'' (''/v1/sandboxes/'' @ i @ ''/resources'')
     (Some (JObj (opt_int ''cpu_limit'' cpu @ opt_int ''memory_limit_mb'' mem))) resource"

record exec_result =
  er_ExitCode :: int
  er_Stdout :: string
  er_Stderr :: string

definition set_exec_result :: "string \<Rightarrow> json \<Rightarrow> exec_result \<Rightarrow> exec_result option" where
  "set_exec_result k v r = (
     if names k ''exit_code'' then map_option (\<lambda>x. r\<lparr>er_ExitCode := x\<rparr>) (json_int64 v (er_ExitCode r))
     else if names k ''stdout'' then map_option (\<lambda>x. r\<lparr>er_Stdout := x\<rparr>) (json_text v (er_Stdout r))
     else if names k ''stderr'' then map_option (\<lambda>x. r\<lparr>er_Stderr := x\<rparr>) (json_text v (er_Stderr r))
     else Some r)"

definition read_exec :: "json \<Rightarrow> exec_result option" where
  "read_exec = unmarshal set_exec_result \<lparr>er_ExitCode = 0, er_Stdout = [], er_Stderr = []\<rparr>"

definition cl_CreateSnapshot :: "'w net \<Rightarrow> client \<Rightarrow> ctx \<Rightarrow> string \<Rightarrow> string \<Rightarrow> string \<Rightarrow> ('w, client_op) C" where
  "cl_CreateSnapshot net c ctx i label mode =
     cl_send net c ctx ''POST'' (''/v1/sandboxes/'' @ i @ ''/snapshots'')
       (Some (JObj ((''label'', JStr label) # opt_text ''consistency_mode'' mode))) read_op"

definition cl_GetSnapshot :: "'w net \<Rightarrow> client \<Rightarrow> ctx \<Rightarrow> string \<Rightarrow> ('w, json) C" where
  "cl_GetSnapshot net c ctx i =
     cl_get net c ctx (''/v1/snapshots/'' @ i) resource"

definition cl_ListSnapshots :: "'w net \<Rightarrow> client \<Rightarrow> ctx \<Rightarrow> string \<Rightarrow> ('w, json list) C" where
  "cl_ListSnapshots net c ctx i =
     getList net c ctx (''/v1/sandboxes/'' @ i @ ''/snapshots'')"

definition cl_RestoreSnapshot :: "'w net \<Rightarrow> client \<Rightarrow> ctx \<Rightarrow> string \<Rightarrow> ('w, client_op) C" where
  "cl_RestoreSnapshot net c ctx i =
     cl_send net c ctx ''POST'' (''/v1/snapshots/'' @ i @ ''/restore'') None read_op"

definition cl_DeleteSnapshot :: "'w net \<Rightarrow> client \<Rightarrow> ctx \<Rightarrow> string \<Rightarrow> ('w, client_op) C" where
  "cl_DeleteSnapshot net c ctx i =
     cl_send net c ctx ''DELETE'' (''/v1/snapshots/'' @ i) None read_op"

definition cl_PromoteImage :: "'w net \<Rightarrow> client \<Rightarrow> ctx \<Rightarrow> string \<Rightarrow> string \<Rightarrow> string \<Rightarrow> ('w, client_op) C" where
  "cl_PromoteImage net c ctx snap name version =
     cl_send net c ctx ''POST'' ''/v1/images'' (Some (JObj [(''snapshot_id'', JStr snap), (''name'', JStr name), (''version'', JStr version)])) read_op"

definition cl_RegisterImage :: "'w net \<Rightarrow> client \<Rightarrow> ctx \<Rightarrow> string \<Rightarrow> string \<Rightarrow> string \<Rightarrow> string \<Rightarrow> string \<Rightarrow> ('w, json) C" where
  "cl_RegisterImage net c ctx name version backend ref arch =
     cl_send net c ctx ''POST'' ''/v1/images/register'' (Some (JObj ([(''name'', JStr name), (''version'', JStr version),
       (''backend'', JStr backend), (''backend_ref'', JStr ref)] @ opt_text ''architecture'' arch))) resource"

definition cl_GetImage :: "'w net \<Rightarrow> client \<Rightarrow> ctx \<Rightarrow> string \<Rightarrow> ('w, json) C" where
  "cl_GetImage net c ctx i =
     cl_get net c ctx (''/v1/images/'' @ i) resource"

definition cl_ListImages :: "'w net \<Rightarrow> client \<Rightarrow> ctx \<Rightarrow> string \<Rightarrow> string \<Rightarrow> ('w, json list) C" where
  "cl_ListImages net c ctx name arch =
     getList net c ctx (with_query ''/v1/images'' (set_params [(''architecture'', arch), (''name'', name)]))"

definition cl_DeleteImage :: "'w net \<Rightarrow> client \<Rightarrow> ctx \<Rightarrow> string \<Rightarrow> ('w, client_op) C" where
  "cl_DeleteImage net c ctx i =
     cl_send net c ctx ''DELETE'' (''/v1/images/'' @ i) None read_op"

definition cl_CreateSession :: "'w net \<Rightarrow> client \<Rightarrow> ctx \<Rightarrow> string \<Rightarrow> string \<Rightarrow> string \<Rightarrow> ('w, json) C" where
  "cl_CreateSession net c ctx i backing shell =
     cl_send net c ctx ''POST'' (''/v1/sandboxes/'' @ i @ ''/sessions'') (Some (JObj (opt_text ''backing'' backing @ opt_text ''shell'' shell))) resource"

definition cl_GetSession :: "'w net \<Rightarrow> client \<Rightarrow> ctx \<Rightarrow> string \<Rightarrow> ('w, json) C" where
  "cl_GetSession net c ctx i =
     cl_get net c ctx (''/v1/sessions/'' @ i) resource"

definition cl_ListSessions :: "'w net \<Rightarrow> client \<Rightarrow> ctx \<Rightarrow> string \<Rightarrow> ('w, json list) C" where
  "cl_ListSessions net c ctx i =
     getList net c ctx (''/v1/sandboxes/'' @ i @ ''/sessions'')"

definition cl_DestroySession :: "'w net \<Rightarrow> client \<Rightarrow> ctx \<Rightarrow> string \<Rightarrow> ('w, unit) C" where
  "cl_DestroySession net c ctx i =
     cl_del net c ctx (''/v1/sessions/'' @ i)"

definition cl_CreatePort :: "'w net \<Rightarrow> client \<Rightarrow> ctx \<Rightarrow> string \<Rightarrow> int \<Rightarrow> ('w, json) C" where
  "cl_CreatePort net c ctx i target =
     cl_send net c ctx ''POST'' (''/v1/sandboxes/'' @ i @ ''/ports'') (Some (JObj [(''target_port'', JInt target)])) resource"

definition cl_ListPorts :: "'w net \<Rightarrow> client \<Rightarrow> ctx \<Rightarrow> string \<Rightarrow> ('w, json list) C" where
  "cl_ListPorts net c ctx i =
     getList net c ctx (''/v1/sandboxes/'' @ i @ ''/ports'')"

definition cl_DeletePort :: "'w net \<Rightarrow> client \<Rightarrow> ctx \<Rightarrow> string \<Rightarrow> int \<Rightarrow> ('w, unit) C" where
  "cl_DeletePort net c ctx i target =
     cl_del net c ctx (''/v1/sandboxes/'' @ i @ ''/ports/'' @ itoa target)"

definition cl_CreateProject :: "'w net \<Rightarrow> client \<Rightarrow> ctx \<Rightarrow> string \<Rightarrow> (string \<times> json) list \<Rightarrow> ('w, json) C" where
  "cl_CreateProject net c ctx name meta =
     cl_send net c ctx ''POST'' ''/v1/projects'' (Some (JObj ((''name'', JStr name) # opt_map ''metadata'' meta))) resource"

definition cl_GetProject :: "'w net \<Rightarrow> client \<Rightarrow> ctx \<Rightarrow> string \<Rightarrow> ('w, json) C" where
  "cl_GetProject net c ctx i =
     cl_get net c ctx (''/v1/projects/'' @ i) resource"

definition cl_ListProjects :: "'w net \<Rightarrow> client \<Rightarrow> ctx \<Rightarrow> ('w, json list) C" where
  "cl_ListProjects net c ctx =
     getList net c ctx ''/v1/projects''"

definition cl_UpdateProject :: "'w net \<Rightarrow> client \<Rightarrow> ctx \<Rightarrow> string \<Rightarrow> string \<Rightarrow> (string \<times> json) list \<Rightarrow> ('w, json) C" where
  "cl_UpdateProject net c ctx i name meta =
     cl_send net c ctx ''PUT'' (''/v1/projects/'' @ i) (Some (JObj ((''name'', JStr name) # opt_map ''metadata'' meta))) resource"

definition cl_DeleteProject :: "'w net \<Rightarrow> client \<Rightarrow> ctx \<Rightarrow> string \<Rightarrow> ('w, unit) C" where
  "cl_DeleteProject net c ctx i =
     cl_del net c ctx (''/v1/projects/'' @ i)"

definition cl_StartBoost :: "'w net \<Rightarrow> client \<Rightarrow> ctx \<Rightarrow> string \<Rightarrow> int option \<Rightarrow> int option \<Rightarrow> int \<Rightarrow> ('w, json) C" where
  "cl_StartBoost net c ctx i cpu mem secs =
     cl_send net c ctx ''POST'' (''/v1/sandboxes/'' @ i @ ''/boost'')
       (Some (JObj (opt_int ''cpu_limit'' cpu @ opt_int ''memory_limit_mb'' mem @ [(''duration_seconds'', JInt secs)]))) resource"

definition cl_GetBoost :: "'w net \<Rightarrow> client \<Rightarrow> ctx \<Rightarrow> string \<Rightarrow> ('w, json) C" where
  "cl_GetBoost net c ctx i =
     cl_get net c ctx (''/v1/sandboxes/'' @ i @ ''/boost'') resource"

definition cl_CancelBoost :: "'w net \<Rightarrow> client \<Rightarrow> ctx \<Rightarrow> string \<Rightarrow> ('w, unit) C" where
  "cl_CancelBoost net c ctx i =
     cl_del net c ctx (''/v1/sandboxes/'' @ i @ ''/boost'')"

definition exec_body :: "string list \<Rightarrow> (string \<times> string) list \<Rightarrow> string \<Rightarrow> json" where
  "exec_body command env dir = JObj ((''command'', JArr (map JStr command)) #
     (if env = [] then [] else [(''env'', env_json env)]) @ opt_text ''work_dir'' dir)"

definition cl_Exec :: "'w net \<Rightarrow> client \<Rightarrow> ctx \<Rightarrow> string \<Rightarrow> string list \<Rightarrow> (string \<times> string) list \<Rightarrow> string \<Rightarrow> ('w, exec_result) C" where
  "cl_Exec net c ctx i command env dir =
     cl_send net c ctx ''POST'' (''/v1/sandboxes/'' @ i @ ''/exec'') (Some (exec_body command env dir)) read_exec"

definition cl_Health :: "'w net \<Rightarrow> client \<Rightarrow> ctx \<Rightarrow> ('w, json) C" where
  "cl_Health net c ctx =
     cl_get net c ctx ''/v1/health'' resource"

definition cl_CreateSandboxAndWait :: "'w net \<Rightarrow> client \<Rightarrow> ctx \<Rightarrow> sandbox_request \<Rightarrow> int option \<Rightarrow> ('w, client_op) C" where
  "cl_CreateSandboxAndWait net c ctx q opts =
     bindE (cl_CreateSandbox net c ctx q) (\<lambda>x. WaitForOperation net c ctx (co_OperationID x) opts)"

definition cl_StartSandboxAndWait :: "'w net \<Rightarrow> client \<Rightarrow> ctx \<Rightarrow> string \<Rightarrow> int option \<Rightarrow> ('w, client_op) C" where
  "cl_StartSandboxAndWait net c ctx i opts =
     bindE (cl_StartSandbox net c ctx i) (\<lambda>x. WaitForOperation net c ctx (co_OperationID x) opts)"

definition cl_StopSandboxAndWait :: "'w net \<Rightarrow> client \<Rightarrow> ctx \<Rightarrow> string \<Rightarrow> bool \<Rightarrow> int option \<Rightarrow> ('w, client_op) C" where
  "cl_StopSandboxAndWait net c ctx i force opts =
     bindE (cl_StopSandbox net c ctx i force) (\<lambda>x. WaitForOperation net c ctx (co_OperationID x) opts)"

definition cl_DestroySandboxAndWait :: "'w net \<Rightarrow> client \<Rightarrow> ctx \<Rightarrow> string \<Rightarrow> int option \<Rightarrow> ('w, client_op) C" where
  "cl_DestroySandboxAndWait net c ctx i opts =
     bindE (cl_DestroySandbox net c ctx i) (\<lambda>x. WaitForOperation net c ctx (co_OperationID x) opts)"

end
