(* ===== verification/Bodies.thy ===== *)
theory Bodies imports Client Paths begin

text \<open>
  What the REST API reads from a request before a handler runs: the JSON bodies
  (\<open>internal/api\<close>, the request structs), the query of a URL, and the match of a path against
  a pattern of the mux.
\<close>

section \<open>Bodies\<close>

definition json_opt_int :: "json \<Rightarrow> int option \<Rightarrow> int option option" where
  "json_opt_int v old = (case v of JNull \<Rightarrow> Some None | _ \<Rightarrow> map_option Some (json_int64 v 0))"

definition json_bool :: "json \<Rightarrow> bool \<Rightarrow> bool option" where
  "json_bool v old = (case v of JNull \<Rightarrow> Some old | JBool b \<Rightarrow> Some b | _ \<Rightarrow> None)"

definition json_opt_bool :: "json \<Rightarrow> bool option \<Rightarrow> bool option option" where
  "json_opt_bool v old = (case v of JNull \<Rightarrow> Some None | JBool b \<Rightarrow> Some (Some b) | _ \<Rightarrow> None)"

text \<open>The three create requests; the expiry and the metadata stay JSON here.\<close>

record create_body =
  cb_ProjectID :: string
  cb_Name :: string
  cb_ImageID :: string
  cb_SnapshotID :: string
  cb_CPULimit :: "int option"
  cb_MemoryLimitMB :: "int option"
  cb_NetworkMode :: string
  cb_EnableBoostChannel :: "bool option"
  cb_ExpiresAt :: json
  cb_Metadata :: json
  cb_Backend :: string

definition zero_create :: create_body where
  "zero_create = \<lparr>cb_ProjectID = [], cb_Name = [], cb_ImageID = [], cb_SnapshotID = [], cb_CPULimit = None,
     cb_MemoryLimitMB = None, cb_NetworkMode = [], cb_EnableBoostChannel = None, cb_ExpiresAt = JNull, cb_Metadata = JNull,
     cb_Backend = []\<rparr>"

text \<open>\<open>img\<close> and \<open>snap\<close> say whether the struct has the field.\<close>

definition set_create :: "bool \<Rightarrow> bool \<Rightarrow> string \<Rightarrow> json \<Rightarrow> create_body \<Rightarrow> create_body option" where
  "set_create img snap k v r = (
     if names k ''project_id'' then map_option (\<lambda>x. r\<lparr>cb_ProjectID := x\<rparr>) (json_text v (cb_ProjectID r))
     else if names k ''name'' then map_option (\<lambda>x. r\<lparr>cb_Name := x\<rparr>) (json_text v (cb_Name r))
     else if img \<and> names k ''image_id'' then map_option (\<lambda>x. r\<lparr>cb_ImageID := x\<rparr>) (json_text v (cb_ImageID r))
     else if snap \<and> names k ''snapshot_id'' then map_option (\<lambda>x. r\<lparr>cb_SnapshotID := x\<rparr>) (json_text v (cb_SnapshotID r))
     else if names k ''cpu_limit'' then map_option (\<lambda>x. r\<lparr>cb_CPULimit := x\<rparr>) (json_opt_int v (cb_CPULimit r))
     else if names k ''memory_limit_mb'' then map_option (\<lambda>x. r\<lparr>cb_MemoryLimitMB := x\<rparr>) (json_opt_int v (cb_MemoryLimitMB r))
     else if names k ''network_mode'' then map_option (\<lambda>x. r\<lparr>cb_NetworkMode := x\<rparr>) (json_text v (cb_NetworkMode r))
     else if names k ''enable_boost_channel'' then map_option (\<lambda>x. r\<lparr>cb_EnableBoostChannel := x\<rparr>) (json_opt_bool v (cb_EnableBoostChannel r))
     else if names k ''expires_at'' then Some (r\<lparr>cb_ExpiresAt := v\<rparr>)
     else if names k ''metadata'' then Some (r\<lparr>cb_Metadata := v\<rparr>)
     else if names k ''backend'' then map_option (\<lambda>x. r\<lparr>cb_Backend := x\<rparr>) (json_text v (cb_Backend r))
     else Some r)"

definition read_create :: "bool \<Rightarrow> bool \<Rightarrow> json \<Rightarrow> create_body option" where
  "read_create img snap = unmarshal (set_create img snap) zero_create"

definition read_force :: "json \<Rightarrow> bool option" where
  "read_force = unmarshal (\<lambda>k v r. if names k ''force'' then json_bool v r else Some r) False"

definition read_count :: "json \<Rightarrow> int option" where
  "read_count = unmarshal (\<lambda>k v r. if names k ''count'' then json_int64 v r else Some r) 0"

definition read_limits :: "json \<Rightarrow> (int option \<times> int option) option" where
  "read_limits = unmarshal (\<lambda>k v (c, m). if names k ''cpu_limit'' then map_option (\<lambda>x. (x, m)) (json_opt_int v c)
     else if names k ''memory_limit_mb'' then map_option (\<lambda>x. (c, x)) (json_opt_int v m) else Some (c, m)) (None, None)"

definition read_boost :: "json \<Rightarrow> (int option \<times> int option \<times> int) option" where
  "read_boost = unmarshal (\<lambda>k v (c, m, d). if names k ''cpu_limit'' then map_option (\<lambda>x. (x, m, d)) (json_opt_int v c)
     else if names k ''memory_limit_mb'' then map_option (\<lambda>x. (c, x, d)) (json_opt_int v m)
     else if names k ''duration_seconds'' then map_option (\<lambda>x. (c, m, x)) (json_int64 v d) else Some (c, m, d)) (None, None, 0)"

text \<open>Structs of texts: the fields in order, by name.\<close>

fun set_texts :: "string list \<Rightarrow> string \<Rightarrow> json \<Rightarrow> string list \<Rightarrow> string list option" where
  "set_texts (f # fs) k v (x # xs) = (if names k f then map_option (\<lambda>y. y # xs) (json_text v x)
     else map_option (Cons x) (set_texts fs k v xs))"
| "set_texts _ k v xs = Some xs"

definition read_texts :: "string list \<Rightarrow> json \<Rightarrow> string list option" where
  "read_texts fs = unmarshal (set_texts fs) (map (\<lambda>_. []) fs)"

definition read_project :: "json \<Rightarrow> (string \<times> json) option" where
  "read_project = unmarshal (\<lambda>k v (n, m). if names k ''name'' then map_option (\<lambda>x. (x, m)) (json_text v n)
     else if names k ''metadata'' then Some (n, v) else Some (n, m)) ([], JNull)"

definition read_port :: "json \<Rightarrow> int option" where
  "read_port = unmarshal (\<lambda>k v r. if names k ''target_port'' then json_int64 v r else Some r) 0"

text \<open>The command, the environment and the directory of an exec.\<close>

definition read_exec_request :: "json \<Rightarrow> (string list \<times> (string \<times> string) list \<times> string) option" where
  "read_exec_request = unmarshal (\<lambda>k v (c, e, d). if names k ''command'' then map_option (\<lambda>x. (x, e, d)) (json_texts v c)
     else if names k ''env'' then map_option (\<lambda>x. (c, x, d)) (json_env v e)
     else if names k ''work_dir'' then map_option (\<lambda>x. (c, e, x)) (json_text v d) else Some (c, e, d)) ([], [], [])"

section \<open>The query\<close>

fun query_unescape :: "string \<Rightarrow> string option" where
  "query_unescape [] = Some []"
| "query_unescape (c # cs) = (
     if c = CHR ''%'' then
       (case cs of a # b # ds \<Rightarrow> (case (hex_value a, hex_value b) of
           (Some x, Some y) \<Rightarrow> map_option (Cons (char_of (16 * x + y))) (query_unescape ds) | _ \<Rightarrow> None)
        | _ \<Rightarrow> None)
     else map_option (Cons (if c = CHR ''+'' then CHR '' '' else c)) (query_unescape cs))"

text \<open>\<open>ParseQuery\<close> skips a pair it cannot read; \<open>Get\<close> is the first value, or empty.\<close>

definition query_pair :: "string \<Rightarrow> (string \<times> string) option" where
  "query_pair s = (let k = takeWhile (\<lambda>c. c \<noteq> CHR ''='') s; v = drop (Suc (length k)) s in
     if s = [] \<or> CHR '';'' \<in> set s then None
     else (case (query_unescape k, query_unescape v) of (Some a, Some b) \<Rightarrow> Some (a, b) | _ \<Rightarrow> None))"

definition query_get :: "string \<Rightarrow> string \<Rightarrow> string" where
  "query_get q k = (case map_of (List.map_filter query_pair (split_on (CHR ''&'') q)) k of None \<Rightarrow> [] | Some v \<Rightarrow> v)"

section \<open>Patterns\<close>

datatype seg = Lit string | Hole

fun match_segs :: "seg list \<Rightarrow> string list \<Rightarrow> string list option" where
  "match_segs [] [] = Some []"
| "match_segs (Lit a # ps) (s # ss) = (if a = s then match_segs ps ss else None)"
| "match_segs (Hole # ps) (s # ss) = (if s = [] then None else map_option (Cons s) (match_segs ps ss))"
| "match_segs _ _ = None"

text \<open>\<open>GET /v1/sandboxes/{id}\<close> and the like, without the leading slash.\<close>

definition pattern :: "string \<Rightarrow> seg list" where
  "pattern p = map (\<lambda>s. if s \<noteq> [] \<and> hd s = CHR ''{'' then Hole else Lit s) (split_on (CHR ''/'') p)"

definition path_of :: "string \<Rightarrow> string" where
  "path_of target = takeWhile (\<lambda>c. c \<noteq> CHR ''?'') target"

definition query_of :: "string \<Rightarrow> string" where
  "query_of target = drop (Suc (length (path_of target))) target"

lemma path_of_query [simp]: "CHR ''?'' \<notin> set p \<Longrightarrow> path_of (p @ CHR ''?'' # q) = p"
  by (induction p) (auto simp: path_of_def)

lemma path_of_plain [simp]: "CHR ''?'' \<notin> set p \<Longrightarrow> path_of p = p"
  by (induction p) (auto simp: path_of_def)

lemma query_of_query [simp]: "CHR ''?'' \<notin> set p \<Longrightarrow> query_of (p @ CHR ''?'' # q) = q"
  by (simp add: query_of_def)

lemma query_of_plain [simp]: "CHR ''?'' \<notin> set p \<Longrightarrow> query_of p = []"
  by (simp add: query_of_def)

section \<open>What is escaped is read back\<close>

definition unsafe :: "char set" where
  "unsafe = {CHR ''&'', CHR '';'', CHR ''='', CHR ''?'', CHR ''%'', CHR ''+''}"

lemma alnum_safe:
  "(48 \<le> (of_char c :: nat) \<and> (of_char c :: nat) \<le> 57 \<or> 65 \<le> (of_char c :: nat) \<and> (of_char c :: nat) \<le> 90
     \<or> 97 \<le> (of_char c :: nat) \<and> (of_char c :: nat) \<le> 122 \<or> c \<in> {CHR ''-'', CHR ''_'', CHR ''.'', CHR ''~''}) \<Longrightarrow> c \<notin> unsafe"
  unfolding unsafe_def by auto

lemma hex_value_upper: "v < 16 \<Longrightarrow> hex_value (hex_upper v) = Some v"
  by (auto simp: hex_value_def hex_upper_def Let_def)

lemma hex_upper_facts: "v < 16 \<Longrightarrow> hex_value (hex_upper v) = Some v \<and> hex_upper v \<notin> unsafe"
proof (intro conjI alnum_safe)
  assume "v < 16"
  then show "hex_value (hex_upper v) = Some v" by (rule hex_value_upper)
  have "(of_char (hex_upper v) :: nat) = (if v < 10 then 48 + v else 55 + v)" using \<open>v < 16\<close> by (simp add: hex_upper_def)
  then show "48 \<le> (of_char (hex_upper v) :: nat) \<and> (of_char (hex_upper v) :: nat) \<le> 57
     \<or> 65 \<le> (of_char (hex_upper v) :: nat) \<and> (of_char (hex_upper v) :: nat) \<le> 90
     \<or> 97 \<le> (of_char (hex_upper v) :: nat) \<and> (of_char (hex_upper v) :: nat) \<le> 122
     \<or> hex_upper v \<in> {CHR ''-'', CHR ''_'', CHR ''.'', CHR ''~''}" using \<open>v < 16\<close> by auto
qed

lemma query_char_cases:
  obtains (safe) "query_char c = [c]" "c \<notin> unsafe"
  | (blank) "query_char c = ''+''" "c = CHR '' ''"
  | (other) "query_char c = [CHR ''%'', hex_upper (of_char c div 16), hex_upper (of_char c mod 16)]"
proof -
  let ?ok = "48 \<le> (of_char c :: nat) \<and> (of_char c :: nat) \<le> 57 \<or> 65 \<le> (of_char c :: nat) \<and> (of_char c :: nat) \<le> 90
     \<or> 97 \<le> (of_char c :: nat) \<and> (of_char c :: nat) \<le> 122 \<or> c \<in> {CHR ''-'', CHR ''_'', CHR ''.'', CHR ''~''}"
  consider "?ok" | "\<not> ?ok" "c = CHR '' ''" | "\<not> ?ok" "c \<noteq> CHR '' ''" by blast
  then show thesis
  proof cases
    case 1
    then show thesis using safe alnum_safe [OF 1] by (simp add: query_char_def Let_def)
  next
    case 2
    then show thesis using blank by (simp add: query_char_def)
  next
    case 3
    then show thesis using other unfolding query_char_def Let_def by (simp only: if_False) 
  qed
qed

lemma of_char_small: "(of_char c :: nat) < 256"
  by (cases c) (simp add: of_char_def horner_sum_simps)

lemma unescape_char: "query_unescape (query_char c @ s) = map_option (Cons c) (query_unescape s)"
proof (cases c rule: query_char_cases)
  case safe
  then show ?thesis by (simp add: unsafe_def)
next
  case blank
  then show ?thesis by simp
next
  case other
  have "of_char c div 16 < (16 :: nat)" "of_char c mod 16 < (16 :: nat)"
    using of_char_small [of c] less_mult_imp_div_less [of "of_char c" 16 16] by auto
  then have "hex_value (hex_upper (of_char c div 16)) = Some (of_char c div 16)"
    "hex_value (hex_upper (of_char c mod 16)) = Some (of_char c mod 16)" using hex_upper_facts by blast+
  then show ?thesis unfolding other by simp
qed

lemma unescape_escape: "query_unescape (concat (map query_char v)) = Some v"
  by (induction v) (simp_all add: unescape_char)

lemma escaped_plain: "c \<in> set (concat (map query_char v)) \<Longrightarrow> c \<notin> {CHR ''&'', CHR '';'', CHR ''=''}"
proof -
  assume "c \<in> set (concat (map query_char v))"
  then obtain x where "c \<in> set (query_char x)" by auto
  moreover have "of_char x div 16 < (16 :: nat)" "of_char x mod 16 < (16 :: nat)"
    using of_char_small [of x] less_mult_imp_div_less [of "of_char x" 16 16] by auto
  ultimately show ?thesis using hex_upper_facts
    by (cases x rule: query_char_cases) (auto simp: unsafe_def)
qed

lemma unescape_safe: "set k \<inter> unsafe = {} \<Longrightarrow> query_unescape k = Some k"
  by (induction k) (auto simp: unsafe_def)

lemma take_key: "CHR ''='' \<notin> set k \<Longrightarrow> takeWhile (\<lambda>c. c \<noteq> CHR ''='') (k @ CHR ''='' # v) = k"
  by (induction k) auto

lemma query_pair_encoded:
  assumes "set k \<inter> unsafe = {}"
  shows "query_pair (k @ ''='' @ concat (map query_char v)) = Some (k, v)"
proof -
  have "CHR ''='' \<notin> set k" "CHR '';'' \<notin> set k" using assms by (auto simp: unsafe_def)
  moreover have "CHR '';'' \<notin> set (concat (map query_char v))" using escaped_plain [of "CHR '';''" v] by blast
  ultimately show ?thesis
    using unescape_safe [OF assms] unescape_escape [of v] take_key [of k "concat (map query_char v)"]
    by (simp add: query_pair_def Let_def)
qed

lemma query_get_encoded:
  assumes "\<forall>(k, v)\<in>set ps. set k \<inter> unsafe = {}"
  shows "query_get (encode_query ps) k = (case map_of ps k of None \<Rightarrow> [] | Some v \<Rightarrow> v)"
proof (cases "ps = []")
  case True
  then show ?thesis by (simp add: query_get_def encode_query_def query_pair_def List.map_filter_def)
next
  case False
  let ?f = "\<lambda>(k, v). k @ ''='' @ concat (map query_char v)"
  have "\<forall>x\<in>set (map ?f ps). CHR ''&'' \<notin> set x"
    using assms escaped_plain [of "CHR ''&''"] by (fastforce simp: unsafe_def)
  then have s: "split_on (CHR ''&'') (encode_query ps) = map ?f ps"
    using split_join [of "map ?f ps" "CHR ''&''"] False by (simp add: encode_query_def)
  have "List.map_filter query_pair (map ?f ps) = ps"
    using assms
  proof (induction ps)
    case (Cons p ps)
    then show ?case using query_pair_encoded [of "fst p" "snd p"] by (cases p) (simp add: List.map_filter_simps)
  qed (simp add: List.map_filter_simps)
  then show ?thesis using s by (simp add: query_get_def)
qed

section \<open>Bodies read back what the client writes\<close>

lemmas reading = unmarshal_def names_def lower_def json_text_def json_int64_def json_int_def json_opt_int_def json_bool_def

definition int64 :: "int \<Rightarrow> bool" where "int64 i \<longleftrightarrow> - (2 ^ 63) \<le> i \<and> i < 2 ^ 63"

abbreviation opt_int64 :: "int option \<Rightarrow> bool" where "opt_int64 x \<equiv> (case x of None \<Rightarrow> True | Some i \<Rightarrow> int64 i)"

lemma read_limits_written:
  "opt_int64 c \<Longrightarrow> opt_int64 m \<Longrightarrow> read_limits (JObj (opt_int ''cpu_limit'' c @ opt_int ''memory_limit_mb'' m)) = Some (c, m)"
  by (auto simp: read_limits_def reading opt_int_def int64_def split: option.splits)

lemma read_boost_written:
  "opt_int64 c \<Longrightarrow> opt_int64 m \<Longrightarrow> int64 d \<Longrightarrow>
    read_boost (JObj (opt_int ''cpu_limit'' c @ opt_int ''memory_limit_mb'' m @ [(''duration_seconds'', JInt d)])) = Some (c, m, d)"
  by (auto simp: read_boost_def reading opt_int_def int64_def split: option.splits)

text \<open>A member of the body after the other: one that was left out leaves the zero it stands for.\<close>

definition json_or_null :: "json option \<Rightarrow> json" where
  "json_or_null v = (case v of None \<Rightarrow> JNull | Some j \<Rightarrow> j)"

definition map_or_null :: "(string \<times> json) list \<Rightarrow> json" where
  "map_or_null ms = (if ms = [] then JNull else JObj ms)"

lemma set_create_keys:
  "set_create img snap ''project_id'' v r = map_option (\<lambda>x. r\<lparr>cb_ProjectID := x\<rparr>) (json_text v (cb_ProjectID r))"
  "set_create img snap ''name'' v r = map_option (\<lambda>x. r\<lparr>cb_Name := x\<rparr>) (json_text v (cb_Name r))"
  "set_create True snap ''image_id'' v r = map_option (\<lambda>x. r\<lparr>cb_ImageID := x\<rparr>) (json_text v (cb_ImageID r))"
  "set_create img True ''snapshot_id'' v r = map_option (\<lambda>x. r\<lparr>cb_SnapshotID := x\<rparr>) (json_text v (cb_SnapshotID r))"
  "set_create img snap ''cpu_limit'' v r = map_option (\<lambda>x. r\<lparr>cb_CPULimit := x\<rparr>) (json_opt_int v (cb_CPULimit r))"
  "set_create img snap ''memory_limit_mb'' v r = map_option (\<lambda>x. r\<lparr>cb_MemoryLimitMB := x\<rparr>) (json_opt_int v (cb_MemoryLimitMB r))"
  "set_create img snap ''network_mode'' v r = map_option (\<lambda>x. r\<lparr>cb_NetworkMode := x\<rparr>) (json_text v (cb_NetworkMode r))"
  "set_create img snap ''enable_boost_channel'' v r = map_option (\<lambda>x. r\<lparr>cb_EnableBoostChannel := x\<rparr>) (json_opt_bool v (cb_EnableBoostChannel r))"
  "set_create img snap ''expires_at'' v r = Some (r\<lparr>cb_ExpiresAt := v\<rparr>)"
  "set_create img snap ''metadata'' v r = Some (r\<lparr>cb_Metadata := v\<rparr>)"
  "set_create img snap ''backend'' v r = map_option (\<lambda>x. r\<lparr>cb_Backend := x\<rparr>) (json_text v (cb_Backend r))"
  by (simp_all add: set_create_def names_def lower_def)

lemma unchanged_create: "cb_ImageID r = [] \<Longrightarrow> r\<lparr>cb_ImageID := []\<rparr> = r" "cb_Backend r = [] \<Longrightarrow> r\<lparr>cb_Backend := []\<rparr> = r"
  "cb_NetworkMode r = [] \<Longrightarrow> r\<lparr>cb_NetworkMode := []\<rparr> = r" "cb_CPULimit r = None \<Longrightarrow> r\<lparr>cb_CPULimit := None\<rparr> = r"
  "cb_MemoryLimitMB r = None \<Longrightarrow> r\<lparr>cb_MemoryLimitMB := None\<rparr> = r"
  "cb_EnableBoostChannel r = None \<Longrightarrow> r\<lparr>cb_EnableBoostChannel := None\<rparr> = r"
  "cb_ExpiresAt r = JNull \<Longrightarrow> r\<lparr>cb_ExpiresAt := JNull\<rparr> = r" "cb_Metadata r = JNull \<Longrightarrow> r\<lparr>cb_Metadata := JNull\<rparr> = r"
  by (cases r; simp)+

lemmas writing = set_create_keys unchanged_create json_text_def

lemma create_texts:
  "set_members (set_create img snap) ((''project_id'', JStr s) # ms) r = set_members (set_create img snap) ms (r\<lparr>cb_ProjectID := s\<rparr>)"
  "set_members (set_create img snap) ((''name'', JStr s) # ms) r = set_members (set_create img snap) ms (r\<lparr>cb_Name := s\<rparr>)"
  "set_members (set_create img True) ((''snapshot_id'', JStr s) # ms) r = set_members (set_create img True) ms (r\<lparr>cb_SnapshotID := s\<rparr>)"
  "cb_ImageID r = [] \<Longrightarrow> set_members (set_create True snap) (opt_text ''image_id'' s @ ms) r = set_members (set_create True snap) ms (r\<lparr>cb_ImageID := s\<rparr>)"
  "cb_Backend r = [] \<Longrightarrow> set_members (set_create img snap) (opt_text ''backend'' s @ ms) r = set_members (set_create img snap) ms (r\<lparr>cb_Backend := s\<rparr>)"
  "cb_NetworkMode r = [] \<Longrightarrow> set_members (set_create img snap) (opt_text ''network_mode'' s @ ms) r = set_members (set_create img snap) ms (r\<lparr>cb_NetworkMode := s\<rparr>)"
  by (simp_all add: writing opt_text_def)

lemma int64_reads: "int64 n \<Longrightarrow> json_opt_int (JInt n) old = Some (Some n)"
  by (simp add: json_opt_int_def json_int64_def json_int_def int64_def)

lemma create_numbers:
  "opt_int64 n \<Longrightarrow> cb_CPULimit r = None \<Longrightarrow>
    set_members (set_create img snap) (opt_int ''cpu_limit'' n @ ms) r = set_members (set_create img snap) ms (r\<lparr>cb_CPULimit := n\<rparr>)"
  "opt_int64 n \<Longrightarrow> cb_MemoryLimitMB r = None \<Longrightarrow>
    set_members (set_create img snap) (opt_int ''memory_limit_mb'' n @ ms) r = set_members (set_create img snap) ms (r\<lparr>cb_MemoryLimitMB := n\<rparr>)"
  by (cases n; simp add: writing opt_int_def int64_reads)+

lemma create_values:
  "cb_EnableBoostChannel r = None \<Longrightarrow>
    set_members (set_create img snap) (opt_bool ''enable_boost_channel'' b @ ms) r = set_members (set_create img snap) ms (r\<lparr>cb_EnableBoostChannel := b\<rparr>)"
  "cb_ExpiresAt r = JNull \<Longrightarrow>
    set_members (set_create img snap) (opt_json ''expires_at'' v @ ms) r = set_members (set_create img snap) ms (r\<lparr>cb_ExpiresAt := json_or_null v\<rparr>)"
  "cb_Metadata r = JNull \<Longrightarrow> set_members (set_create img snap) (opt_map ''metadata'' m) r = Some (r\<lparr>cb_Metadata := map_or_null m\<rparr>)"
  by (cases b; cases v; simp add: writing opt_bool_def json_opt_bool_def opt_json_def json_or_null_def opt_map_def map_or_null_def)+

lemma read_create_written:
  "opt_int64 (sq_CPULimit q) \<Longrightarrow> opt_int64 (sq_MemoryLimitMB q) \<Longrightarrow>
    read_create True True (sandbox_body q) = Some \<lparr>cb_ProjectID = sq_ProjectID q, cb_Name = sq_Name q, cb_ImageID = sq_ImageID q,
      cb_SnapshotID = [], cb_CPULimit = sq_CPULimit q, cb_MemoryLimitMB = sq_MemoryLimitMB q, cb_NetworkMode = sq_NetworkMode q,
      cb_EnableBoostChannel = sq_EnableBoostChannel q, cb_ExpiresAt = json_or_null (sq_ExpiresAt q),
      cb_Metadata = map_or_null (sq_Metadata q), cb_Backend = sq_Backend q\<rparr>"
  by (simp add: read_create_def unmarshal_def sandbox_body_def create_texts create_numbers create_values zero_create_def
      del: set_members.simps)

lemma read_from_snapshot_written:
  "opt_int64 (fq_CPULimit q) \<Longrightarrow> opt_int64 (fq_MemoryLimitMB q) \<Longrightarrow>
    read_create False True (from_snapshot_body q) = Some \<lparr>cb_ProjectID = fq_ProjectID q, cb_Name = fq_Name q, cb_ImageID = [],
      cb_SnapshotID = fq_SnapshotID q, cb_CPULimit = fq_CPULimit q, cb_MemoryLimitMB = fq_MemoryLimitMB q, cb_NetworkMode = fq_NetworkMode q,
      cb_EnableBoostChannel = None, cb_ExpiresAt = json_or_null (fq_ExpiresAt q),
      cb_Metadata = map_or_null (fq_Metadata q), cb_Backend = []\<rparr>"
  by (simp add: read_create_def unmarshal_def from_snapshot_body_def create_texts create_numbers create_values zero_create_def
      del: set_members.simps)

lemma env_read_back: "distinct (map fst env) \<Longrightarrow> json_env (env_json env) [] = Some (sorted_env env)"
  using set_env_texts [of "sorted_env env" "[]"]
  by (simp add: json_env_def env_json_def sorted_env_def distinct_map_order_by)

lemma read_exec_written:
  "distinct (map fst env) \<Longrightarrow> read_exec_request (exec_body command env dir) = Some (command, sorted_env env, dir)"
  using env_read_back [of env]
  by (auto simp: read_exec_request_def exec_body_def reading opt_text_def json_texts_round [simplified] sorted_env_def order_by_def)

lemma read_small_written:
  "read_force (JObj [(''force'', JBool b)]) = Some b"
  "int64 n \<Longrightarrow> read_count (JObj [(''count'', JInt n)]) = Some n"
  "int64 n \<Longrightarrow> read_port (JObj [(''target_port'', JInt n)]) = Some n"
  "read_project (JObj ((''name'', JStr name) # opt_map ''metadata'' m)) = Some (name, map_or_null m)"
  by (simp_all add: read_force_def read_count_def read_port_def read_project_def reading int64_def opt_map_def map_or_null_def)

lemma read_texts_written:
  "read_texts [''label'', ''consistency_mode''] (JObj ((''label'', JStr label) # opt_text ''consistency_mode'' mode)) = Some [label, mode]"
  "read_texts [''snapshot_id'', ''name'', ''version''] (JObj [(''snapshot_id'', JStr snap), (''name'', JStr name), (''version'', JStr version)])
     = Some [snap, name, version]"
  "read_texts [''name'', ''version'', ''backend'', ''backend_ref'', ''architecture''] (JObj ([(''name'', JStr name), (''version'', JStr version),
       (''backend'', JStr backend), (''backend_ref'', JStr ref)] @ opt_text ''architecture'' arch)) = Some [name, version, backend, ref, arch]"
  "read_texts [''backing'', ''shell''] (JObj (opt_text ''backing'' backing @ opt_text ''shell'' shell)) = Some [backing, shell]"
  by (simp_all add: read_texts_def reading opt_text_def)

end
