(* ===== verification/Routes.thy ===== *)
theory Routes imports Daemon Bodies begin

text \<open>
  The table of routes of the REST API (\<open>internal/api/server.go\<close>), and that the client library
  (\<open>pkg/client\<close>) and the API agree: every request the client makes reaches the handler meant, with
  the values the caller gave.
\<close>

section \<open>From bodies to requests\<close>

text \<open>How times and metadata are read is a parameter; an absent one is read as absent.\<close>

record readers =
  rd_time :: "Json.json \<Rightarrow> gotime option option"
  rd_meta :: "Json.json \<Rightarrow> data option option"

definition body_of :: "(Json.json \<Rightarrow> 'b option) \<Rightarrow> string \<Rightarrow> 'b body" where
  "body_of conv text = (if skip text = [] then EmptyBody
     else (case Option.bind (first_value text) conv of None \<Rightarrow> Malformed | Some x \<Rightarrow> Body x))"

definition to_create :: "readers \<Rightarrow> bool \<Rightarrow> bool \<Rightarrow> Json.json \<Rightarrow> create_sandbox_request option" where
  "to_create rd img snap j = (case read_create img snap j of None \<Rightarrow> None | Some b \<Rightarrow>
     (case (rd_time rd (cb_ExpiresAt b), rd_meta rd (cb_Metadata b)) of
        (Some t, Some m) \<Rightarrow> Some \<lparr>csr_ProjectID = cb_ProjectID b, csr_Name = cb_Name b, csr_ImageID = cb_ImageID b,
          csr_SnapshotID = cb_SnapshotID b, csr_CPULimit = cb_CPULimit b, csr_MemoryLimitMB = cb_MemoryLimitMB b,
          csr_NetworkMode = cb_NetworkMode b, csr_EnableBoostChannel = cb_EnableBoostChannel b, csr_ExpiresAt = t,
          csr_Metadata = m, csr_Backend = cb_Backend b\<rparr>
      | _ \<Rightarrow> None))"

definition to_project :: "readers \<Rightarrow> Json.json \<Rightarrow> (string \<times> data option) option" where
  "to_project rd j = Option.bind (read_project j) (\<lambda>(n, m). map_option (Pair n) (rd_meta rd m))"

definition to_boost :: "Json.json \<Rightarrow> boost_request option" where
  "to_boost j = map_option (\<lambda>(c, m, d). \<lparr>brq_CPULimit = c, brq_MemoryLimitMB = m, brq_DurationSeconds = d\<rparr>) (read_boost j)"

definition to_snapshot :: "Json.json \<Rightarrow> (string \<times> string) option" where
  "to_snapshot j = map_option (\<lambda>xs. (xs ! 0, xs ! 1)) (read_texts [''label'', ''consistency_mode''] j)"

definition to_promote :: "Json.json \<Rightarrow> (string \<times> string \<times> string) option" where
  "to_promote j = map_option (\<lambda>xs. (xs ! 0, xs ! 1, xs ! 2)) (read_texts [''snapshot_id'', ''name'', ''version''] j)"

definition to_register :: "Json.json \<Rightarrow> register_image_request option" where
  "to_register j = map_option (\<lambda>xs. \<lparr>rir_Name = xs ! 0, rir_Version = xs ! 1, rir_Backend = xs ! 2, rir_BackendRef = xs ! 3,
     rir_Architecture = xs ! 4\<rparr>) (read_texts [''name'', ''version'', ''backend'', ''backend_ref'', ''architecture''] j)"

definition to_session :: "Json.json \<Rightarrow> (string \<times> string) option" where
  "to_session j = map_option (\<lambda>xs. (xs ! 0, xs ! 1)) (read_texts [''backing'', ''shell''] j)"

section \<open>The mux\<close>

datatype endpoint = Handled request | HealthCheck | ExecIn string "(string list \<times> (string \<times> string) list \<times> string) body"
  | StreamEvents string string
  | AttachTo string string string

definition api_routes :: "readers \<Rightarrow> (string \<times> string \<times> (string list \<Rightarrow> (string \<Rightarrow> string) \<Rightarrow> string \<Rightarrow> endpoint)) list" where
  "api_routes rd = [
     (''GET'', ''/v1/health'', \<lambda>ps q text. HealthCheck),
     (''POST'', ''/v1/projects'', \<lambda>ps q text. Handled (CreateProject (body_of (to_project rd) text))),
     (''GET'', ''/v1/projects'', \<lambda>ps q text. Handled ListProjects),
     (''GET'', ''/v1/projects/{id}'', \<lambda>ps q text. Handled (GetProject (ps ! 0))),
     (''PUT'', ''/v1/projects/{id}'', \<lambda>ps q text. Handled (UpdateProject (ps ! 0) (body_of (to_project rd) text))),
     (''DELETE'', ''/v1/projects/{id}'', \<lambda>ps q text. Handled (DeleteProject (ps ! 0))),
     (''POST'', ''/v1/sandboxes'', \<lambda>ps q text. Handled (CreateSandbox (body_of (to_create rd True True) text))),
     (''POST'', ''/v1/sandboxes/from-snapshot'', \<lambda>ps q text. Handled (CreateSandboxFromSnapshot (body_of (to_create rd False True) text))),
     (''POST'', ''/v1/sandboxes/from-image'', \<lambda>ps q text. Handled (CreateSandboxFromImage (body_of (to_create rd True False) text))),
     (''GET'', ''/v1/sandboxes'', \<lambda>ps q text. Handled (ListSandboxes (q ''project_id'') (q ''state''))),
     (''GET'', ''/v1/sandboxes/{id}'', \<lambda>ps q text. Handled (GetSandbox (ps ! 0))),
     (''POST'', ''/v1/sandboxes/{id}/start'', \<lambda>ps q text. Handled (StartSandbox (ps ! 0))),
     (''POST'', ''/v1/sandboxes/{id}/stop'', \<lambda>ps q text. Handled (StopSandbox (ps ! 0) (body_of read_force text))),
     (''POST'', ''/v1/sandboxes/{id}/destroy'', \<lambda>ps q text. Handled (DestroySandbox (ps ! 0))),
     (''POST'', ''/v1/sandboxes/{id}/fork'', \<lambda>ps q text. Handled (ForkSandbox (ps ! 0) (body_of read_count text))),
     (''PATCH'', ''/v1/sandboxes/{id}/resources'', \<lambda>ps q text. Handled (UpdateSandboxResources (ps ! 0) (body_of read_limits text))),
     (''POST'', ''/v1/sandboxes/{id}/boost'', \<lambda>ps q text. Handled (StartBoost (ps ! 0) (body_of to_boost text))),
     (''GET'', ''/v1/sandboxes/{id}/boost'', \<lambda>ps q text. Handled (GetBoost (ps ! 0))),
     (''DELETE'', ''/v1/sandboxes/{id}/boost'', \<lambda>ps q text. Handled (DeleteBoost (ps ! 0))),
     (''POST'', ''/v1/sandboxes/{id}/snapshots'', \<lambda>ps q text. Handled (CreateSnapshot (ps ! 0) (body_of to_snapshot text))),
     (''GET'', ''/v1/sandboxes/{id}/snapshots'', \<lambda>ps q text. Handled (ListSnapshots (ps ! 0))),
     (''GET'', ''/v1/snapshots/{id}'', \<lambda>ps q text. Handled (GetSnapshot (ps ! 0))),
     (''POST'', ''/v1/snapshots/{id}/restore'', \<lambda>ps q text. Handled (RestoreSnapshot (ps ! 0))),
     (''DELETE'', ''/v1/snapshots/{id}'', \<lambda>ps q text. Handled (DeleteSnapshot (ps ! 0))),
     (''POST'', ''/v1/images'', \<lambda>ps q text. Handled (PromoteImage (body_of to_promote text))),
     (''POST'', ''/v1/images/register'', \<lambda>ps q text. Handled (RegisterImage (body_of to_register text))),
     (''GET'', ''/v1/images'', \<lambda>ps q text. Handled (ListImages (q ''name'') (q ''architecture''))),
     (''GET'', ''/v1/images/{id}'', \<lambda>ps q text. Handled (GetImage (ps ! 0))),
     (''DELETE'', ''/v1/images/{id}'', \<lambda>ps q text. Handled (DeleteImage (ps ! 0))),
     (''POST'', ''/v1/sandboxes/{id}/sessions'', \<lambda>ps q text. Handled (CreateSession (ps ! 0) (body_of to_session text))),
     (''GET'', ''/v1/sandboxes/{id}/sessions'', \<lambda>ps q text. Handled (ListSessions (ps ! 0))),
     (''GET'', ''/v1/sessions/{id}'', \<lambda>ps q text. Handled (GetSession (ps ! 0))),
     (''DELETE'', ''/v1/sessions/{id}'', \<lambda>ps q text. Handled (DeleteSession (ps ! 0))),
     (''GET'', ''/v1/operations/{id}'', \<lambda>ps q text. Handled (GetOperation (ps ! 0))),
     (''GET'', ''/v1/operations'', \<lambda>ps q text. Handled (ListOperations (q ''sandbox_id'') (q ''state''))),
     (''POST'', ''/v1/operations/{id}/cancel'', \<lambda>ps q text. Handled (CancelOperation (ps ! 0))),
     (''POST'', ''/v1/sandboxes/{id}/ports'', \<lambda>ps q text. Handled (CreatePort (ps ! 0) (body_of read_port text))),
     (''GET'', ''/v1/sandboxes/{id}/ports'', \<lambda>ps q text. Handled (ListPorts (ps ! 0))),
     (''DELETE'', ''/v1/sandboxes/{id}/ports/{target_port}'', \<lambda>ps q text. Handled (DeletePort (ps ! 0) (parse_int (ps ! 1)))),
     (''POST'', ''/v1/sandboxes/{id}/exec'', \<lambda>ps q text. ExecIn (ps ! 0) (body_of read_exec_request text)),
     (''GET'', ''/v1/events'', \<lambda>ps q text. StreamEvents (q ''sandbox_id'') (q ''project_id'')),
     (''GET'', ''/v1/sandboxes/{id}/attach'', \<lambda>ps q text. AttachTo (ps ! 0) (q ''session'') (q ''shell''))]"

text \<open>
  The route of a request: its method, its path and query, and its body.  A path that the mux would first
  clean or unescape is outside the model.
\<close>

definition plain_segs :: "string \<Rightarrow> bool" where
  "plain_segs p \<longleftrightarrow> CHR ''%'' \<notin> set p \<and> CHR ''#'' \<notin> set p \<and> list_all (\<lambda>s. s \<notin> {[], ''.'', ''..''}) (tl (split_on (CHR ''/'') p))"

definition api_mux :: "readers \<Rightarrow> string \<Rightarrow> string \<Rightarrow> string \<Rightarrow> endpoint option" where
  "api_mux rd meth target text = (let p = path_of target in
     if \<not> plain_segs p then None
     else map_option (\<lambda>(m, pat, build). build (the (match_segs (pattern pat) (split_on (CHR ''/'') p))) (query_get (query_of target)) text)
       (find (\<lambda>(m, pat, build). m = meth \<and> match_segs (pattern pat) (split_on (CHR ''/'') p) \<noteq> None) (api_routes rd)))"

definition reaches :: "readers \<Rightarrow> client \<Rightarrow> outgoing \<Rightarrow> endpoint \<Rightarrow> bool" where
  "reaches rd c q e \<longleftrightarrow> api_mux rd (hq_Method q) (drop (length (cl_baseURL c)) (hq_URL q))
     (case hq_Body q of None \<Rightarrow> [] | Some j \<Rightarrow> print_json j) = Some e"

lemma patterns:
  "pattern ''/v1/health'' = [Lit [], Lit ''v1'', Lit ''health'']"
  "pattern ''/v1/projects'' = [Lit [], Lit ''v1'', Lit ''projects'']"
  "pattern ''/v1/projects/{id}'' = [Lit [], Lit ''v1'', Lit ''projects'', Hole]"
  "pattern ''/v1/sandboxes'' = [Lit [], Lit ''v1'', Lit ''sandboxes'']"
  "pattern ''/v1/sandboxes/from-snapshot'' = [Lit [], Lit ''v1'', Lit ''sandboxes'', Lit ''from-snapshot'']"
  "pattern ''/v1/sandboxes/from-image'' = [Lit [], Lit ''v1'', Lit ''sandboxes'', Lit ''from-image'']"
  "pattern ''/v1/sandboxes/{id}'' = [Lit [], Lit ''v1'', Lit ''sandboxes'', Hole]"
  "pattern ''/v1/sandboxes/{id}/start'' = [Lit [], Lit ''v1'', Lit ''sandboxes'', Hole, Lit ''start'']"
  "pattern ''/v1/sandboxes/{id}/stop'' = [Lit [], Lit ''v1'', Lit ''sandboxes'', Hole, Lit ''stop'']"
  "pattern ''/v1/sandboxes/{id}/destroy'' = [Lit [], Lit ''v1'', Lit ''sandboxes'', Hole, Lit ''destroy'']"
  "pattern ''/v1/sandboxes/{id}/fork'' = [Lit [], Lit ''v1'', Lit ''sandboxes'', Hole, Lit ''fork'']"
  "pattern ''/v1/sandboxes/{id}/resources'' = [Lit [], Lit ''v1'', Lit ''sandboxes'', Hole, Lit ''resources'']"
  "pattern ''/v1/sandboxes/{id}/boost'' = [Lit [], Lit ''v1'', Lit ''sandboxes'', Hole, Lit ''boost'']"
  "pattern ''/v1/sandboxes/{id}/snapshots'' = [Lit [], Lit ''v1'', Lit ''sandboxes'', Hole, Lit ''snapshots'']"
  "pattern ''/v1/snapshots/{id}'' = [Lit [], Lit ''v1'', Lit ''snapshots'', Hole]"
  "pattern ''/v1/snapshots/{id}/restore'' = [Lit [], Lit ''v1'', Lit ''snapshots'', Hole, Lit ''restore'']"
  "pattern ''/v1/images'' = [Lit [], Lit ''v1'', Lit ''images'']"
  "pattern ''/v1/images/register'' = [Lit [], Lit ''v1'', Lit ''images'', Lit ''register'']"
  "pattern ''/v1/images/{id}'' = [Lit [], Lit ''v1'', Lit ''images'', Hole]"
  "pattern ''/v1/sandboxes/{id}/sessions'' = [Lit [], Lit ''v1'', Lit ''sandboxes'', Hole, Lit ''sessions'']"
  "pattern ''/v1/sessions/{id}'' = [Lit [], Lit ''v1'', Lit ''sessions'', Hole]"
  "pattern ''/v1/operations/{id}'' = [Lit [], Lit ''v1'', Lit ''operations'', Hole]"
  "pattern ''/v1/operations'' = [Lit [], Lit ''v1'', Lit ''operations'']"
  "pattern ''/v1/operations/{id}/cancel'' = [Lit [], Lit ''v1'', Lit ''operations'', Hole, Lit ''cancel'']"
  "pattern ''/v1/sandboxes/{id}/ports'' = [Lit [], Lit ''v1'', Lit ''sandboxes'', Hole, Lit ''ports'']"
  "pattern ''/v1/sandboxes/{id}/ports/{target_port}'' = [Lit [], Lit ''v1'', Lit ''sandboxes'', Hole, Lit ''ports'', Hole]"
  "pattern ''/v1/sandboxes/{id}/exec'' = [Lit [], Lit ''v1'', Lit ''sandboxes'', Hole, Lit ''exec'']"
  "pattern ''/v1/events'' = [Lit [], Lit ''v1'', Lit ''events'']"
  "pattern ''/v1/sandboxes/{id}/attach'' = [Lit [], Lit ''v1'', Lit ''sandboxes'', Hole, Lit ''attach'']"
  by code_simp+

lemma body_of_written: "conv (JObj ms) = Some x \<Longrightarrow> body_of conv (print_json (JObj ms)) = Body x"
  using parse_print(1) [of "[]" "JObj ms" "Suc (length (print_json (JObj ms)))"]
  by (simp add: body_of_def first_value_def skip_def del: parse_value.simps)

section \<open>What a call sends\<close>

definition sends :: "(outgoing \<Rightarrow> bool) \<Rightarrow> ('w wire, 'a) state \<Rightarrow> bool" where
  "sends P m \<longleftrightarrow> (\<forall>s. \<exists>qs. wi_sent (snd (run_state m s)) = wi_sent s @ qs \<and> (\<forall>q\<in>set qs. P q))"

named_theorems sendsI

lemma sends_return [sendsI]: "sends P (ret x)"
  by (simp add: sends_def)

lemma sends_bind: "sends P m \<Longrightarrow> (\<And>x. sends P (f x)) \<Longrightarrow> sends P (State_Monad.bind m f)"
proof -
  assume m: "sends P m" and f: "\<And>x. sends P (f x)"
  have "\<exists>qs. wi_sent (snd (run_state (State_Monad.bind m f) s)) = wi_sent s @ qs \<and> (\<forall>q\<in>set qs. P q)" for s
  proof -
    obtain x s1 where r: "run_state m s = (x, s1)" by fastforce
    obtain qs where qs: "wi_sent s1 = wi_sent s @ qs" "\<forall>q\<in>set qs. P q" using m r by (auto simp: sends_def dest!: spec [of _ s])
    obtain rs where "wi_sent (snd (run_state (f x) s1)) = wi_sent s1 @ rs" "\<forall>q\<in>set rs. P q"
      using f [of x] by (auto simp: sends_def)
    then show ?thesis using r qs by (intro exI [of _ "qs @ rs"]) auto
  qed
  then show ?thesis by (simp add: sends_def)
qed

lemma sends_bindE [sendsI]: "sends P m \<Longrightarrow> (\<And>x. sends P (f x)) \<Longrightarrow> sends P (bindE m f)"
  unfolding bindE_def by (intro sends_bind) (auto split: sum.splits intro: sends_return)

lemma sends_if [sendsI]: "(b \<Longrightarrow> sends P m) \<Longrightarrow> (\<not> b \<Longrightarrow> sends P n) \<Longrightarrow> sends P (if b then m else n)"
  by simp

definition request_of :: "client \<Rightarrow> string \<Rightarrow> string \<Rightarrow> Json.json option \<Rightarrow> outgoing" where
  "request_of c meth path body = \<lparr>hq_Method = meth, hq_URL = cl_baseURL c @ path, hq_Body = body,
     hq_Authorization = (if cl_token c = [] then None else Some (''Bearer '' @ cl_token c))\<rparr>"

lemma sends_doRequest [sendsI]: "P (request_of c meth path body) \<Longrightarrow> sends P (doRequest net c ctx meth path body)"
proof -
  assume "P (request_of c meth path body)"
  then have "sends P (send net ctx (request_of c meth path body))"
    unfolding sends_def using send_once [of net ctx "request_of c meth path body"]
    by (metis append.right_neutral empty_iff empty_set list.set_intros(1) prod.collapse set_ConsD)
  then show ?thesis unfolding doRequest_def request_of_def [symmetric]
    by (intro sends_bindE) (auto split: prod.splits intro: sends_return)
qed

lemma sends_get [sendsI]: "P (request_of c ''GET'' path None) \<Longrightarrow> sends P (cl_get net c ctx path conv)"
  unfolding cl_get_def by (intro sendsI)

lemma sends_list [sendsI]: "P (request_of c ''GET'' path None) \<Longrightarrow> sends P (getList net c ctx path)"
  unfolding getList_def by (intro sendsI)

lemma sends_send [sendsI]: "P (request_of c meth path body) \<Longrightarrow> sends P (cl_send net c ctx meth path body conv)"
  unfolding cl_send_def by (intro sendsI)

lemma sends_del [sendsI]: "P (request_of c ''DELETE'' path None) \<Longrightarrow> sends P (cl_del net c ctx path)"
  unfolding cl_del_def by (intro sendsI)

text \<open>The calls of the library, with the arguments the caller gives.\<close>

datatype api_call =
    AHealth
  | ACreateProject string "(string \<times> Json.json) list"
  | AListProjects
  | AGetProject string
  | AUpdateProject string string "(string \<times> Json.json) list"
  | ADeleteProject string
  | ACreateSandbox sandbox_request
  | ACreateSandboxFromSnapshot snapshot_request
  | AListSandboxes string string
  | AGetSandbox string
  | AStartSandbox string
  | AStopSandbox string bool
  | ADestroySandbox string
  | AFork string int
  | AUpdateSandboxResources string "int option" "int option"
  | AStartBoost string "int option" "int option" int
  | AGetBoost string
  | ACancelBoost string
  | ACreateSnapshot string string string
  | AListSnapshots string
  | AGetSnapshot string
  | ARestoreSnapshot string
  | ADeleteSnapshot string
  | APromoteImage string string string
  | ARegisterImage string string string string string
  | AListImages string string
  | AGetImage string
  | ADeleteImage string
  | ACreateSession string string string
  | AListSessions string
  | AGetSession string
  | ADestroySession string
  | AGetOperation string
  | AListOperations string string
  | ACancelOperation string
  | ACreatePort string int
  | AListPorts string
  | ADeletePort string int
  | AExec string "string list" "(string \<times> string) list" string

definition void :: "('w, 'a) C \<Rightarrow> ('w, unit) C" where
  "void m = bindE m (\<lambda>_. ret (Inr ()))"

fun perform :: "'w net \<Rightarrow> client \<Rightarrow> ctx \<Rightarrow> api_call \<Rightarrow> ('w, unit) C" where
  "perform net c ctx AHealth = void (cl_Health net c ctx)"
| "perform net c ctx (ACreateProject a0 a1) = void (cl_CreateProject net c ctx a0 a1)"
| "perform net c ctx AListProjects = void (cl_ListProjects net c ctx)"
| "perform net c ctx (AGetProject a0) = void (cl_GetProject net c ctx a0)"
| "perform net c ctx (AUpdateProject a0 a1 a2) = void (cl_UpdateProject net c ctx a0 a1 a2)"
| "perform net c ctx (ADeleteProject a0) = void (cl_DeleteProject net c ctx a0)"
| "perform net c ctx (ACreateSandbox a0) = void (cl_CreateSandbox net c ctx a0)"
| "perform net c ctx (ACreateSandboxFromSnapshot a0) = void (cl_CreateSandboxFromSnapshot net c ctx a0)"
| "perform net c ctx (AListSandboxes a0 a1) = void (cl_ListSandboxes net c ctx a0 a1)"
| "perform net c ctx (AGetSandbox a0) = void (cl_GetSandbox net c ctx a0)"
| "perform net c ctx (AStartSandbox a0) = void (cl_StartSandbox net c ctx a0)"
| "perform net c ctx (AStopSandbox a0 a1) = void (cl_StopSandbox net c ctx a0 a1)"
| "perform net c ctx (ADestroySandbox a0) = void (cl_DestroySandbox net c ctx a0)"
| "perform net c ctx (AFork a0 a1) = void (cl_Fork net c ctx a0 a1)"
| "perform net c ctx (AUpdateSandboxResources a0 a1 a2) = void (cl_UpdateSandboxResources net c ctx a0 a1 a2)"
| "perform net c ctx (AStartBoost a0 a1 a2 a3) = void (cl_StartBoost net c ctx a0 a1 a2 a3)"
| "perform net c ctx (AGetBoost a0) = void (cl_GetBoost net c ctx a0)"
| "perform net c ctx (ACancelBoost a0) = void (cl_CancelBoost net c ctx a0)"
| "perform net c ctx (ACreateSnapshot a0 a1 a2) = void (cl_CreateSnapshot net c ctx a0 a1 a2)"
| "perform net c ctx (AListSnapshots a0) = void (cl_ListSnapshots net c ctx a0)"
| "perform net c ctx (AGetSnapshot a0) = void (cl_GetSnapshot net c ctx a0)"
| "perform net c ctx (ARestoreSnapshot a0) = void (cl_RestoreSnapshot net c ctx a0)"
| "perform net c ctx (ADeleteSnapshot a0) = void (cl_DeleteSnapshot net c ctx a0)"
| "perform net c ctx (APromoteImage a0 a1 a2) = void (cl_PromoteImage net c ctx a0 a1 a2)"
| "perform net c ctx (ARegisterImage a0 a1 a2 a3 a4) = void (cl_RegisterImage net c ctx a0 a1 a2 a3 a4)"
| "perform net c ctx (AListImages a0 a1) = void (cl_ListImages net c ctx a0 a1)"
| "perform net c ctx (AGetImage a0) = void (cl_GetImage net c ctx a0)"
| "perform net c ctx (ADeleteImage a0) = void (cl_DeleteImage net c ctx a0)"
| "perform net c ctx (ACreateSession a0 a1 a2) = void (cl_CreateSession net c ctx a0 a1 a2)"
| "perform net c ctx (AListSessions a0) = void (cl_ListSessions net c ctx a0)"
| "perform net c ctx (AGetSession a0) = void (cl_GetSession net c ctx a0)"
| "perform net c ctx (ADestroySession a0) = void (cl_DestroySession net c ctx a0)"
| "perform net c ctx (AGetOperation a0) = void (cl_GetOperation net c ctx a0)"
| "perform net c ctx (AListOperations a0 a1) = void (cl_ListOperations net c ctx a0 a1)"
| "perform net c ctx (ACancelOperation a0) = void (cl_CancelOperation net c ctx a0)"
| "perform net c ctx (ACreatePort a0 a1) = void (cl_CreatePort net c ctx a0 a1)"
| "perform net c ctx (AListPorts a0) = void (cl_ListPorts net c ctx a0)"
| "perform net c ctx (ADeletePort a0 a1) = void (cl_DeletePort net c ctx a0 a1)"
| "perform net c ctx (AExec a0 a1 a2 a3) = void (cl_Exec net c ctx a0 a1 a2 a3)"

text \<open>
  The request the API should serve for a call, with the caller's values in it: an expiry and metadata as
  the API reads what they are written as, the environment of an exec in the order of its names.
\<close>

definition wanted :: "readers \<Rightarrow> sandbox_request \<Rightarrow> create_sandbox_request" where
  "wanted rd q = \<lparr>csr_ProjectID = sq_ProjectID q, csr_Name = sq_Name q, csr_ImageID = sq_ImageID q, csr_SnapshotID = [],
     csr_CPULimit = sq_CPULimit q, csr_MemoryLimitMB = sq_MemoryLimitMB q, csr_NetworkMode = sq_NetworkMode q,
     csr_EnableBoostChannel = sq_EnableBoostChannel q, csr_ExpiresAt = the (rd_time rd (json_or_null (sq_ExpiresAt q))),
     csr_Metadata = the (rd_meta rd (map_or_null (sq_Metadata q))), csr_Backend = sq_Backend q\<rparr>"

definition wanted_from :: "readers \<Rightarrow> snapshot_request \<Rightarrow> create_sandbox_request" where
  "wanted_from rd q = \<lparr>csr_ProjectID = fq_ProjectID q, csr_Name = fq_Name q, csr_ImageID = [], csr_SnapshotID = fq_SnapshotID q,
     csr_CPULimit = fq_CPULimit q, csr_MemoryLimitMB = fq_MemoryLimitMB q, csr_NetworkMode = fq_NetworkMode q,
     csr_EnableBoostChannel = None, csr_ExpiresAt = the (rd_time rd (json_or_null (fq_ExpiresAt q))),
     csr_Metadata = the (rd_meta rd (map_or_null (fq_Metadata q))), csr_Backend = []\<rparr>"

fun meant :: "readers \<Rightarrow> api_call \<Rightarrow> endpoint" where
  "meant rd AHealth = HealthCheck"
| "meant rd (ACreateProject a0 a1) = Handled (CreateProject (Body (a0, the (rd_meta rd (map_or_null a1)))))"
| "meant rd AListProjects = Handled ListProjects"
| "meant rd (AGetProject a0) = Handled (GetProject a0)"
| "meant rd (AUpdateProject a0 a1 a2) = Handled (UpdateProject a0 (Body (a1, the (rd_meta rd (map_or_null a2)))))"
| "meant rd (ADeleteProject a0) = Handled (DeleteProject a0)"
| "meant rd (ACreateSandbox a0) = Handled (CreateSandbox (Body (wanted rd a0)))"
| "meant rd (ACreateSandboxFromSnapshot a0) = Handled (CreateSandboxFromSnapshot (Body (wanted_from rd a0)))"
| "meant rd (AListSandboxes a0 a1) = Handled (ListSandboxes a0 a1)"
| "meant rd (AGetSandbox a0) = Handled (GetSandbox a0)"
| "meant rd (AStartSandbox a0) = Handled (StartSandbox a0)"
| "meant rd (AStopSandbox a0 a1) = Handled (StopSandbox a0 (Body a1))"
| "meant rd (ADestroySandbox a0) = Handled (DestroySandbox a0)"
| "meant rd (AFork a0 a1) = Handled (ForkSandbox a0 (Body a1))"
| "meant rd (AUpdateSandboxResources a0 a1 a2) = Handled (UpdateSandboxResources a0 (Body (a1, a2)))"
| "meant rd (AStartBoost a0 a1 a2 a3) = Handled (StartBoost a0 (Body \<lparr>brq_CPULimit = a1, brq_MemoryLimitMB = a2, brq_DurationSeconds = a3\<rparr>))"
| "meant rd (AGetBoost a0) = Handled (GetBoost a0)"
| "meant rd (ACancelBoost a0) = Handled (DeleteBoost a0)"
| "meant rd (ACreateSnapshot a0 a1 a2) = Handled (CreateSnapshot a0 (Body (a1, a2)))"
| "meant rd (AListSnapshots a0) = Handled (ListSnapshots a0)"
| "meant rd (AGetSnapshot a0) = Handled (GetSnapshot a0)"
| "meant rd (ARestoreSnapshot a0) = Handled (RestoreSnapshot a0)"
| "meant rd (ADeleteSnapshot a0) = Handled (DeleteSnapshot a0)"
| "meant rd (APromoteImage a0 a1 a2) = Handled (PromoteImage (Body (a0, a1, a2)))"
| "meant rd (ARegisterImage a0 a1 a2 a3 a4) = Handled (RegisterImage (Body \<lparr>rir_Name = a0, rir_Version = a1, rir_Backend = a2, rir_BackendRef = a3, rir_Architecture = a4\<rparr>))"
| "meant rd (AListImages a0 a1) = Handled (ListImages a0 a1)"
| "meant rd (AGetImage a0) = Handled (GetImage a0)"
| "meant rd (ADeleteImage a0) = Handled (DeleteImage a0)"
| "meant rd (ACreateSession a0 a1 a2) = Handled (CreateSession a0 (Body (a1, a2)))"
| "meant rd (AListSessions a0) = Handled (ListSessions a0)"
| "meant rd (AGetSession a0) = Handled (GetSession a0)"
| "meant rd (ADestroySession a0) = Handled (DeleteSession a0)"
| "meant rd (AGetOperation a0) = Handled (GetOperation a0)"
| "meant rd (AListOperations a0 a1) = Handled (ListOperations a0 a1)"
| "meant rd (ACancelOperation a0) = Handled (CancelOperation a0)"
| "meant rd (ACreatePort a0 a1) = Handled (CreatePort a0 (Body a1))"
| "meant rd (AListPorts a0) = Handled (ListPorts a0)"
| "meant rd (ADeletePort a0 a1) = Handled (DeletePort a0 (Some a1))"
| "meant rd (AExec a0 a1 a2 a3) = ExecIn a0 (Body (a1, sorted_env a2, a3))"

text \<open>Identifiers that are one plain segment of a path, integers of 64 bits, expiries and metadata the API can
  read, and an environment that is a map.\<close>

definition plain_id :: "string \<Rightarrow> bool" where
  "plain_id i \<longleftrightarrow> i \<notin> {[], ''.'', ''..''} \<and> set i \<inter> {CHR ''/'', CHR ''?'', CHR ''%'', CHR ''#''} = {}"

fun sensible :: "readers \<Rightarrow> api_call \<Rightarrow> bool" where
  "sensible rd AHealth = True"
| "sensible rd (ACreateProject a0 a1) \<longleftrightarrow> rd_meta rd (map_or_null a1) \<noteq> None"
| "sensible rd AListProjects = True"
| "sensible rd (AGetProject a0) \<longleftrightarrow> plain_id a0"
| "sensible rd (AUpdateProject a0 a1 a2) \<longleftrightarrow> plain_id a0 \<and> rd_meta rd (map_or_null a2) \<noteq> None"
| "sensible rd (ADeleteProject a0) \<longleftrightarrow> plain_id a0"
| "sensible rd (ACreateSandbox a0) \<longleftrightarrow> opt_int64 (sq_CPULimit a0) \<and> opt_int64 (sq_MemoryLimitMB a0) \<and>
     rd_time rd (json_or_null (sq_ExpiresAt a0)) \<noteq> None \<and> rd_meta rd (map_or_null (sq_Metadata a0)) \<noteq> None"
| "sensible rd (ACreateSandboxFromSnapshot a0) \<longleftrightarrow> opt_int64 (fq_CPULimit a0) \<and> opt_int64 (fq_MemoryLimitMB a0) \<and>
     rd_time rd (json_or_null (fq_ExpiresAt a0)) \<noteq> None \<and> rd_meta rd (map_or_null (fq_Metadata a0)) \<noteq> None"
| "sensible rd (AListSandboxes a0 a1) = True"
| "sensible rd (AGetSandbox a0) \<longleftrightarrow> plain_id a0"
| "sensible rd (AStartSandbox a0) \<longleftrightarrow> plain_id a0"
| "sensible rd (AStopSandbox a0 a1) \<longleftrightarrow> plain_id a0"
| "sensible rd (ADestroySandbox a0) \<longleftrightarrow> plain_id a0"
| "sensible rd (AFork a0 a1) \<longleftrightarrow> plain_id a0 \<and> int64 a1"
| "sensible rd (AUpdateSandboxResources a0 a1 a2) \<longleftrightarrow> plain_id a0 \<and> opt_int64 a1 \<and> opt_int64 a2"
| "sensible rd (AStartBoost a0 a1 a2 a3) \<longleftrightarrow> plain_id a0 \<and> opt_int64 a1 \<and> opt_int64 a2 \<and> int64 a3"
| "sensible rd (AGetBoost a0) \<longleftrightarrow> plain_id a0"
| "sensible rd (ACancelBoost a0) \<longleftrightarrow> plain_id a0"
| "sensible rd (ACreateSnapshot a0 a1 a2) \<longleftrightarrow> plain_id a0"
| "sensible rd (AListSnapshots a0) \<longleftrightarrow> plain_id a0"
| "sensible rd (AGetSnapshot a0) \<longleftrightarrow> plain_id a0"
| "sensible rd (ARestoreSnapshot a0) \<longleftrightarrow> plain_id a0"
| "sensible rd (ADeleteSnapshot a0) \<longleftrightarrow> plain_id a0"
| "sensible rd (APromoteImage a0 a1 a2) = True"
| "sensible rd (ARegisterImage a0 a1 a2 a3 a4) = True"
| "sensible rd (AListImages a0 a1) = True"
| "sensible rd (AGetImage a0) \<longleftrightarrow> plain_id a0"
| "sensible rd (ADeleteImage a0) \<longleftrightarrow> plain_id a0"
| "sensible rd (ACreateSession a0 a1 a2) \<longleftrightarrow> plain_id a0"
| "sensible rd (AListSessions a0) \<longleftrightarrow> plain_id a0"
| "sensible rd (AGetSession a0) \<longleftrightarrow> plain_id a0"
| "sensible rd (ADestroySession a0) \<longleftrightarrow> plain_id a0"
| "sensible rd (AGetOperation a0) \<longleftrightarrow> plain_id a0"
| "sensible rd (AListOperations a0 a1) = True"
| "sensible rd (ACancelOperation a0) \<longleftrightarrow> plain_id a0"
| "sensible rd (ACreatePort a0 a1) \<longleftrightarrow> plain_id a0 \<and> int64 a1"
| "sensible rd (AListPorts a0) \<longleftrightarrow> plain_id a0"
| "sensible rd (ADeletePort a0 a1) \<longleftrightarrow> plain_id a0 \<and> int64 a1"
| "sensible rd (AExec a0 a1 a2 a3) \<longleftrightarrow> plain_id a0 \<and> distinct (map fst a2)"

section \<open>No request has two routes\<close>

fun overlap :: "seg list \<Rightarrow> seg list \<Rightarrow> bool" where
  "overlap [] [] = True"
| "overlap (Lit a # ps) (Lit b # qs) \<longleftrightarrow> a = b \<and> overlap ps qs"
| "overlap (p # ps) (q # qs) \<longleftrightarrow> overlap ps qs"
| "overlap _ _ = False"

lemma both_match: "match_segs p s \<noteq> None \<Longrightarrow> match_segs q s \<noteq> None \<Longrightarrow> overlap p q"
proof (induction p arbitrary: q s)
  case Nil
  then show ?case by (cases s; cases q) auto
next
  case (Cons a ps)
  then obtain b qs c cs where "q = b # qs" "s = c # cs" by (cases s; cases q) auto
  then show ?case using Cons by (cases a; cases b) (auto split: if_splits)
qed

definition keys :: "readers \<Rightarrow> (string \<times> seg list) list" where
  "keys rd = map (\<lambda>(m, pat, _). (m, pattern pat)) (api_routes rd)"

fun separate :: "(string \<times> seg list) list \<Rightarrow> bool" where
  "separate [] = True"
| "separate ((m, p) # ks) \<longleftrightarrow> list_all (\<lambda>(n, q). m = n \<longrightarrow> \<not> overlap p q) ks \<and> separate ks"

lemma routes_separate: "separate (keys rd)"
  unfolding keys_def api_routes_def by code_simp

lemma reaches_request [simp]:
  "reaches rd c (request_of c meth path body) e \<longleftrightarrow> api_mux rd meth path (case body of None \<Rightarrow> [] | Some j \<Rightarrow> print_json j) = Some e"
  by (simp add: reaches_def request_of_def)

lemma plain_idD:
  assumes "plain_id i"
  shows "i \<noteq> []" "i \<noteq> ''.''" "i \<noteq> ''..''" "CHR ''/'' \<notin> set i" "CHR ''?'' \<notin> set i" "CHR ''%'' \<notin> set i" "CHR ''#'' \<notin> set i"
  using assms by (auto simp: plain_id_def)

lemmas muxing = api_mux_def Let_def plain_segs_def patterns split_on_two split_on_plain api_routes_def

lemma mux_sandbox_life:
  assumes "plain_id i"
  shows "api_mux rd ''GET'' (''/v1/sandboxes/'' @ i) t = Some (Handled (GetSandbox i))"
    "api_mux rd ''POST'' (''/v1/sandboxes/'' @ i @ ''/start'') t = Some (Handled (StartSandbox i))"
    "api_mux rd ''POST'' (''/v1/sandboxes/'' @ i @ ''/stop'') t = Some (Handled (StopSandbox i (body_of read_force t)))"
    "api_mux rd ''POST'' (''/v1/sandboxes/'' @ i @ ''/destroy'') t = Some (Handled (DestroySandbox i))"
    "api_mux rd ''POST'' (''/v1/sandboxes/'' @ i @ ''/fork'') t = Some (Handled (ForkSandbox i (body_of read_count t)))"
    "api_mux rd ''PATCH'' (''/v1/sandboxes/'' @ i @ ''/resources'') t = Some (Handled (UpdateSandboxResources i (body_of read_limits t)))"
  using plain_idD [OF assms] by (simp_all add: muxing)

lemma mux_sandbox_parts:
  assumes "plain_id i"
  shows "api_mux rd ''POST'' (''/v1/sandboxes/'' @ i @ ''/boost'') t = Some (Handled (StartBoost i (body_of to_boost t)))"
    "api_mux rd ''GET'' (''/v1/sandboxes/'' @ i @ ''/boost'') t = Some (Handled (GetBoost i))"
    "api_mux rd ''DELETE'' (''/v1/sandboxes/'' @ i @ ''/boost'') t = Some (Handled (DeleteBoost i))"
    "api_mux rd ''POST'' (''/v1/sandboxes/'' @ i @ ''/snapshots'') t = Some (Handled (CreateSnapshot i (body_of to_snapshot t)))"
    "api_mux rd ''GET'' (''/v1/sandboxes/'' @ i @ ''/snapshots'') t = Some (Handled (ListSnapshots i))"
    "api_mux rd ''POST'' (''/v1/sandboxes/'' @ i @ ''/sessions'') t = Some (Handled (CreateSession i (body_of to_session t)))"
    "api_mux rd ''GET'' (''/v1/sandboxes/'' @ i @ ''/sessions'') t = Some (Handled (ListSessions i))"
    "api_mux rd ''POST'' (''/v1/sandboxes/'' @ i @ ''/ports'') t = Some (Handled (CreatePort i (body_of read_port t)))"
    "api_mux rd ''GET'' (''/v1/sandboxes/'' @ i @ ''/ports'') t = Some (Handled (ListPorts i))"
    "api_mux rd ''POST'' (''/v1/sandboxes/'' @ i @ ''/exec'') t = Some (ExecIn i (body_of read_exec_request t))"
  using plain_idD [OF assms] by (simp_all add: muxing)

lemma mux_by_id:
  assumes "plain_id i"
  shows "api_mux rd ''GET'' (''/v1/projects/'' @ i) t = Some (Handled (GetProject i))"
    "api_mux rd ''PUT'' (''/v1/projects/'' @ i) t = Some (Handled (UpdateProject i (body_of (to_project rd) t)))"
    "api_mux rd ''DELETE'' (''/v1/projects/'' @ i) t = Some (Handled (DeleteProject i))"
    "api_mux rd ''GET'' (''/v1/snapshots/'' @ i) t = Some (Handled (GetSnapshot i))"
    "api_mux rd ''POST'' (''/v1/snapshots/'' @ i @ ''/restore'') t = Some (Handled (RestoreSnapshot i))"
    "api_mux rd ''DELETE'' (''/v1/snapshots/'' @ i) t = Some (Handled (DeleteSnapshot i))"
    "api_mux rd ''GET'' (''/v1/images/'' @ i) t = Some (Handled (GetImage i))"
    "api_mux rd ''DELETE'' (''/v1/images/'' @ i) t = Some (Handled (DeleteImage i))"
    "api_mux rd ''GET'' (''/v1/sessions/'' @ i) t = Some (Handled (GetSession i))"
    "api_mux rd ''DELETE'' (''/v1/sessions/'' @ i) t = Some (Handled (DeleteSession i))"
    "api_mux rd ''GET'' (''/v1/operations/'' @ i) t = Some (Handled (GetOperation i))"
    "api_mux rd ''POST'' (''/v1/operations/'' @ i @ ''/cancel'') t = Some (Handled (CancelOperation i))"
  using plain_idD [OF assms] by (simp_all add: muxing)

lemma mux_plain:
  "api_mux rd ''GET'' (''/v1/health'') t = Some (HealthCheck)"
  "api_mux rd ''POST'' (''/v1/projects'') t = Some (Handled (CreateProject (body_of (to_project rd) t)))"
  "api_mux rd ''GET'' (''/v1/projects'') t = Some (Handled ListProjects)"
  "api_mux rd ''POST'' (''/v1/sandboxes'') t = Some (Handled (CreateSandbox (body_of (to_create rd True True) t)))"
  "api_mux rd ''POST'' (''/v1/sandboxes/from-snapshot'') t = Some (Handled (CreateSandboxFromSnapshot (body_of (to_create rd False True) t)))"
  "api_mux rd ''POST'' (''/v1/images'') t = Some (Handled (PromoteImage (body_of to_promote t)))"
  "api_mux rd ''POST'' (''/v1/images/register'') t = Some (Handled (RegisterImage (body_of to_register t)))"
  by (simp_all add: muxing)

lemma mux_query:
  "api_mux rd ''GET'' (''/v1/sandboxes?'' @ x) t = Some (Handled (ListSandboxes (query_get x ''project_id'') (query_get x ''state'')))"
  "api_mux rd ''GET'' (''/v1/images?'' @ x) t = Some (Handled (ListImages (query_get x ''name'') (query_get x ''architecture'')))"
  "api_mux rd ''GET'' (''/v1/images'') t = Some (Handled (ListImages (query_get [] ''name'') (query_get [] ''architecture'')))"
  "api_mux rd ''GET'' (''/v1/operations?'' @ x) t = Some (Handled (ListOperations (query_get x ''sandbox_id'') (query_get x ''state'')))"
  "api_mux rd ''GET'' (''/v1/operations'') t = Some (Handled (ListOperations (query_get [] ''sandbox_id'') (query_get [] ''state'')))"
  using path_of_query [of "''/v1/sandboxes''" x] path_of_query [of "''/v1/images''" x] path_of_query [of "''/v1/operations''" x]
    query_of_query [of "''/v1/sandboxes''" x] query_of_query [of "''/v1/images''" x] query_of_query [of "''/v1/operations''" x]
  by (simp_all add: muxing)

lemma itoa_segment: "plain_id (itoa n)"
proof -
  have d: "c \<notin> {CHR ''/'', CHR ''?'', CHR ''%'', CHR ''#'', CHR ''.''}" if "c \<in> set (itoa n)" for c
  proof -
    have "c = CHR ''-'' \<or> (\<exists>v<10. c = digit (int v))"
      using that dec_digits [of c] by (auto simp: itoa_def split: if_splits)
    then have "(of_char c :: nat) \<in> insert 45 {48..57}" using digit_range by auto
    then show ?thesis by auto
  qed
  obtain c cs where "itoa n = c # cs" using itoa_head by blast
  then show ?thesis using d by (force simp: plain_id_def)
qed

lemma mux_delete_port:
  assumes "plain_id i" "int64 n"
  shows "api_mux rd ''DELETE'' (''/v1/sandboxes/'' @ i @ ''/ports/'' @ itoa n) t = Some (Handled (DeletePort i (Some n)))"
  using plain_idD [OF assms(1)] plain_idD [OF itoa_segment [of n]] assms(2)
  by (simp add: muxing parse_int_itoa int64_def)

lemmas muxed = mux_sandbox_life mux_sandbox_parts mux_by_id mux_plain mux_query mux_delete_port

section \<open>Client and API agree\<close>

lemma query_values:
  "query_get (encode_query [(''project_id'', a), (''state'', b)]) ''project_id'' = a"
  "query_get (encode_query [(''project_id'', a), (''state'', b)]) ''state'' = b"
  "query_get (encode_query [(''project_id'', a)]) ''project_id'' = a"
  "query_get (encode_query [(''project_id'', a)]) ''state'' = []"
  "query_get (encode_query [(''sandbox_id'', a), (''state'', b)]) ''sandbox_id'' = a"
  "query_get (encode_query [(''sandbox_id'', a), (''state'', b)]) ''state'' = b"
  "query_get (encode_query [(''sandbox_id'', a)]) ''sandbox_id'' = a" "query_get (encode_query [(''sandbox_id'', a)]) ''state'' = []"
  "query_get (encode_query [(''state'', b)]) ''sandbox_id'' = []" "query_get (encode_query [(''state'', b)]) ''state'' = b"
  "query_get (encode_query [(''architecture'', a), (''name'', b)]) ''architecture'' = a"
  "query_get (encode_query [(''architecture'', a), (''name'', b)]) ''name'' = b"
  "query_get (encode_query [(''architecture'', a)]) ''architecture'' = a" "query_get (encode_query [(''architecture'', a)]) ''name'' = []"
  "query_get (encode_query [(''name'', b)]) ''architecture'' = []" "query_get (encode_query [(''name'', b)]) ''name'' = b"
  by (subst query_get_encoded, simp add: unsafe_def, simp)+

lemma query_get_empty [simp]: "query_get [] k = []"
  using query_get_encoded [of "[]" k] by (simp add: encode_query_def)

lemma to_create_written:
  "sensible rd (ACreateSandbox q) \<Longrightarrow> to_create rd True True (sandbox_body q) = Some (wanted rd q)"
  "sensible rd (ACreateSandboxFromSnapshot f) \<Longrightarrow> to_create rd False True (from_snapshot_body f) = Some (wanted_from rd f)"
  by (auto simp: to_create_def read_create_written read_from_snapshot_written wanted_def wanted_from_def)

lemma bodies_are_objects: "\<exists>ms. sandbox_body q = JObj ms" "\<exists>ms. from_snapshot_body f = JObj ms" "\<exists>ms. exec_body a b d = JObj ms"
  by (simp_all add: sandbox_body_def from_snapshot_body_def exec_body_def)

lemma written_creates:
  "sensible rd (ACreateSandbox q) \<Longrightarrow> body_of (to_create rd True True) (print_json (sandbox_body q)) = Body (wanted rd q)"
  "sensible rd (ACreateSandboxFromSnapshot f) \<Longrightarrow>
    body_of (to_create rd False True) (print_json (from_snapshot_body f)) = Body (wanted_from rd f)"
  "distinct (map fst env) \<Longrightarrow> body_of read_exec_request (print_json (exec_body cmd env dir)) = Body (cmd, sorted_env env, dir)"
  using body_of_written [of "to_create rd True True"] body_of_written [of "to_create rd False True"] body_of_written [of read_exec_request]
    to_create_written [of rd] read_exec_written [of env cmd dir] bodies_are_objects
  by metis+

lemma to_small_written:
  "rd_meta rd (map_or_null m') = Some d' \<Longrightarrow> to_project rd (JObj ((''name'', JStr name) # opt_map ''metadata'' m')) = Some (name, d')"
  "opt_int64 c \<Longrightarrow> opt_int64 m \<Longrightarrow> int64 d \<Longrightarrow>
    to_boost (JObj (opt_int ''cpu_limit'' c @ opt_int ''memory_limit_mb'' m @ [(''duration_seconds'', JInt d)])) =
      Some \<lparr>brq_CPULimit = c, brq_MemoryLimitMB = m, brq_DurationSeconds = d\<rparr>"
  "to_snapshot (JObj ((''label'', JStr label) # opt_text ''consistency_mode'' mode)) = Some (label, mode)"
  "to_promote (JObj [(''snapshot_id'', JStr snap), (''name'', JStr name), (''version'', JStr version)]) = Some (snap, name, version)"
  "to_register (JObj ([(''name'', JStr name), (''version'', JStr version), (''backend'', JStr backend), (''backend_ref'', JStr ref)]
     @ opt_text ''architecture'' arch)) = Some \<lparr>rir_Name = name, rir_Version = version, rir_Backend = backend, rir_BackendRef = ref,
       rir_Architecture = arch\<rparr>"
  "to_session (JObj (opt_text ''backing'' backing @ opt_text ''shell'' shell)) = Some (backing, shell)"
  by (simp_all add: to_project_def read_small_written to_boost_def read_boost_written to_snapshot_def
    to_promote_def to_register_def to_session_def read_texts_written [simplified])

lemmas call_defs = cl_Health_def cl_CreateProject_def cl_ListProjects_def cl_GetProject_def cl_UpdateProject_def cl_DeleteProject_def
  cl_CreateSandbox_def cl_CreateSandboxFromSnapshot_def cl_Exec_def cl_ListSandboxes_def cl_GetSandbox_def cl_StartSandbox_def cl_StopSandbox_def cl_DestroySandbox_def cl_Fork_def
  cl_UpdateSandboxResources_def cl_StartBoost_def cl_GetBoost_def cl_CancelBoost_def cl_CreateSnapshot_def cl_ListSnapshots_def
  cl_GetSnapshot_def cl_RestoreSnapshot_def cl_DeleteSnapshot_def cl_PromoteImage_def cl_RegisterImage_def cl_ListImages_def
  cl_GetImage_def cl_DeleteImage_def cl_CreateSession_def cl_ListSessions_def cl_GetSession_def cl_DestroySession_def
  cl_GetOperation_def cl_ListOperations_def cl_CancelOperation_def cl_CreatePort_def cl_ListPorts_def cl_DeletePort_def

lemma sends_void [sendsI]: "sends P m \<Longrightarrow> sends P (void m)"
  unfolding void_def by (intro sendsI)

text \<open>Exactly one request, when the context has not ended before.\<close>

definition sends_one :: "ctx \<Rightarrow> (outgoing \<Rightarrow> bool) \<Rightarrow> ('w wire, 'a) state \<Rightarrow> bool" where
  "sends_one ctx P m \<longleftrightarrow> (\<forall>s. ended ctx (wi_now s) = None \<longrightarrow> (\<exists>q. wi_sent (snd (run_state m s)) = wi_sent s @ [q] \<and> P q))"

named_theorems oneI

lemma one_bindE [oneI]:
  fixes m :: "('w, 'a) C"
  assumes "sends_one ctx P m" "\<And>x. sends (\<lambda>_. False) (f x)"
  shows "sends_one ctx P (bindE m f)"
  unfolding sends_one_def
proof (intro allI impI)
  fix s :: "'w wire" assume "ended ctx (wi_now s) = None"
  then obtain q where q: "wi_sent (snd (run_state m s)) = wi_sent s @ [q]" "P q" using assms(1) by (auto simp: sends_one_def)
  obtain r s1 where r: "run_state m s = (r, s1)" by fastforce
  have "wi_sent (snd (run_state (f x) s1)) = wi_sent s1" for x using assms(2) [of x] by (auto simp: sends_def dest!: spec [of _ s1])
  then show "\<exists>q. wi_sent (snd (run_state (bindE m f) s)) = wi_sent s @ [q] \<and> P q"
    using q r by (auto simp: runs split: sum.splits)
qed

lemma one_doRequest [oneI]: "P (request_of c meth path body) \<Longrightarrow> sends_one ctx P (doRequest net c ctx meth path body)"
proof -
  assume "P (request_of c meth path body)"
  then have "sends_one ctx P (send net ctx (request_of c meth path body))"
    by (auto simp: sends_one_def run_send split: prod.splits option.splits)
  then show ?thesis unfolding doRequest_def request_of_def [symmetric]
    by (intro one_bindE) (auto split: prod.splits intro: sends_return)
qed

lemma one_get [oneI]: "P (request_of c ''GET'' path None) \<Longrightarrow> sends_one ctx P (cl_get net c ctx path conv)"
  unfolding cl_get_def by (intro oneI sends_return)

lemma one_list [oneI]: "P (request_of c ''GET'' path None) \<Longrightarrow> sends_one ctx P (getList net c ctx path)"
  unfolding getList_def by (intro oneI)

lemma one_send [oneI]: "P (request_of c meth path body) \<Longrightarrow> sends_one ctx P (cl_send net c ctx meth path body conv)"
  unfolding cl_send_def by (intro oneI sends_return)

lemma one_del [oneI]: "P (request_of c ''DELETE'' path None) \<Longrightarrow> sends_one ctx P (cl_del net c ctx path)"
  unfolding cl_del_def by (intro oneI sends_return)

lemma one_void [oneI]: "sends_one ctx P m \<Longrightarrow> sends_one ctx P (void m)"
  unfolding void_def by (intro oneI sends_return)

text \<open>
  C35: every REST call of the client library makes exactly one request, unless its context has ended, and
  the mux routes it to the handler meant, with all of the caller's identifiers, values and filters as the
  handler's arguments.  Identifiers have to be plain segments of a path, because the client does not escape
  them; numbers are 64-bit ones, and expiries and metadata are such that the API reads what they are written
  as.  The calls that also wait make one of these requests and then only read the operation, which is
  C33; attaching to a sandbox is a WebSocket, not a REST call.
\<close>

theorem client_reaches_handler:
  assumes "sensible rd a"
  shows "sends_one ctx (\<lambda>q. reaches rd c q (meant rd a)) (perform net c ctx a)"
proof (cases a)
  case (ACreateSandbox q)
  then show ?thesis using assms written_creates(1) [of rd q]
    by (auto simp: call_defs muxed simp del: print_json.simps sensible.simps intro!: oneI sends_return)
next
  case (ACreateSandboxFromSnapshot f)
  then show ?thesis using assms written_creates(2) [of rd f]
    by (auto simp: call_defs muxed simp del: print_json.simps sensible.simps intro!: oneI sends_return)
next
  case (AExec i cmd env dir)
  then show ?thesis using assms written_creates(3) [of env cmd dir]
    by (auto simp: call_defs muxed [simplified] simp del: print_json.simps intro!: oneI sends_return)
next
  case (ACreateProject name m)
  then show ?thesis using assms
    by (auto simp: call_defs muxed body_of_written to_small_written simp del: print_json.simps intro!: oneI sends_return)
next
  case (AUpdateProject i name m)
  then show ?thesis using assms
    by (auto simp: call_defs muxed [simplified] body_of_written to_small_written simp del: print_json.simps intro!: oneI sends_return)
next
  case (AListSandboxes p st)
  then show ?thesis using assms
    by (auto simp: call_defs with_query_def set_params_def muxed [simplified] query_values intro!: oneI sends_return)
next
  case (AListImages n ar)
  then show ?thesis using assms
    by (auto simp: call_defs with_query_def set_params_def muxed [simplified] query_values intro!: oneI sends_return)
next
  case (AListOperations i st)
  then show ?thesis using assms
    by (auto simp: call_defs with_query_def set_params_def muxed [simplified] query_values intro!: oneI sends_return)
next
  case (AStartBoost i cpu mem d)
  then show ?thesis using assms
    by (auto simp: call_defs muxed [simplified] body_of_written to_small_written [simplified] simp del: print_json.simps intro!: oneI sends_return)
qed (use assms in \<open>auto simp: call_defs muxed [simplified] body_of_written to_small_written [simplified] read_small_written
    read_limits_written simp del: print_json.simps intro!: oneI sends_return\<close>)

definition plain_readers :: readers where
  "plain_readers = \<lparr>rd_time = (\<lambda>j. case j of Json.JNull \<Rightarrow> Some None | Json.JInt n \<Rightarrow> Some (Some (utc n)) | _ \<Rightarrow> None),
     rd_meta = (\<lambda>j. case j of Json.JNull \<Rightarrow> Some None | Json.JObj _ \<Rightarrow> Some (Some []) | _ \<Rightarrow> None)\<rparr>"

definition full_request :: sandbox_request where
  "full_request = \<lparr>sq_ProjectID = ''p'', sq_Name = ''box'', sq_ImageID = [], sq_Backend = ''incus'', sq_CPULimit = Some 2,
     sq_MemoryLimitMB = None, sq_NetworkMode = ''published'', sq_EnableBoostChannel = Some False, sq_ExpiresAt = Some (Json.JInt 5),
     sq_Metadata = [(''k'', Json.JNull)]\<rparr>"

lemma client_reaches_handler_witness:
  "sends_one None (\<lambda>q. reaches plain_readers slow_client q (Handled (CreateSandbox (Body \<lparr>csr_ProjectID = ''p'', csr_Name = ''box'',
       csr_ImageID = [], csr_SnapshotID = [], csr_CPULimit = Some 2, csr_MemoryLimitMB = None, csr_NetworkMode = ''published'',
       csr_EnableBoostChannel = Some False, csr_ExpiresAt = Some (utc 5), csr_Metadata = Some [], csr_Backend = ''incus''\<rparr>))))
     (perform slow_net slow_client None (ACreateSandbox full_request))"
  using client_reaches_handler [of plain_readers "ACreateSandbox full_request" None slow_client slow_net]
  by (simp add: plain_readers_def full_request_def wanted_def json_or_null_def map_or_null_def int64_def)

section \<open>Errors reach the client\<close>

text \<open>The message of an error response; the texts of errors and reasons are parameters.\<close>

fun message_text :: "(goerr \<Rightarrow> string) \<Rightarrow> (resize_reason \<Rightarrow> string) \<Rightarrow> Api.message \<Rightarrow> string" where
  "message_text err reason MsgUnavailable = ''service temporarily unavailable''"
| "message_text err reason MsgInternal = ''internal server error''"
| "message_text err reason (MsgReason r) = reason r"
| "message_text err reason (MsgResize r) = err (ProviderResizeError r)"
| "message_text err reason (MsgFull e) = err e"

definition written :: "(goerr \<Rightarrow> string) \<Rightarrow> (resize_reason \<Rightarrow> string) \<Rightarrow> response \<Rightarrow> int \<times> string" where
  "written err reason r = (rs_Status r, case rs_Payload r of ErrorPayload m \<Rightarrow> error_body (rs_Status r) (message_text err reason m) | _ \<Rightarrow> [])"

lemma respondError_status: "rs_Status (respondError e) = mapErrorCode e" "\<exists>m. rs_Payload (respondError e) = ErrorPayload m"
  by (cases "as_resize e"; simp add: respondError_def respondData_def Let_def)+

lemma mapErrorCode_range: "mapErrorCode e \<in> {400..503}"
  by (simp add: mapErrorCode_def split: option.split resize_reason.split)

text \<open>
  C36: an error of the service reaches the caller of the client library with its status, also as its code,
  and the message the API shows, whatever request was made and however long the answer took.
\<close>

theorem client_sees_error:
  assumes "net (request_of c meth path body) (wi_now s) (wi_world s) = (Inr (written err reason (respondError e)), d, w)"
    and "ended ctx (wi_now s + int d) = None"
  shows "\<exists>m. rs_Payload (respondError e) = ErrorPayload m
    \<and> fst (run_state (doRequest net c ctx meth path body) s) =
        Inl (APIError (mapErrorCode e) (mapErrorCode e) (message_text err reason m))"
proof -
  obtain m where m: "rs_Payload (respondError e) = ErrorPayload m" using respondError_status(2) by blast
  have now: "ended ctx (wi_now s) = None" using assms(2) by (auto simp: ended_def split: option.splits if_splits)
  have "fst (run_state (doRequest net c ctx meth path body) s) =
      Inl (api_error (mapErrorCode e) (error_body (mapErrorCode e) (message_text err reason m)))"
    using assms now m respondError_status(1) [of e] mapErrorCode_range [of e]
    by (simp add: doRequest_def request_of_def runs run_send written_def)
  then show ?thesis using m mapErrorCode_range [of e] by (simp add: api_error_body)
qed

definition failing_net :: "unit net" where
  "failing_net q t w = (Inr (written (\<lambda>_. ''text'') (\<lambda>_. ''reason'') (respondError Conflict)), 5, w)"

lemma client_sees_error_witness:
  "fst (run_state (doRequest failing_net slow_client None ''POST'' ''/v1/sandboxes/a/start'' None) fresh_wire) = Inl (APIError 409 409 ''text'')"
proof -
  have "mapErrorCode Conflict = 409" "rs_Payload (respondError Conflict) = ErrorPayload (MsgFull Conflict)" by code_simp+
  then show ?thesis
    using client_sees_error [of failing_net slow_client "''POST''" "''/v1/sandboxes/a/start''" None fresh_wire "\<lambda>_. ''text''" "\<lambda>_. ''reason''"
        Conflict 5 "()" None]
    by (simp add: failing_net_def ended_def)
qed

text \<open>The MCP tools and the command line send an empty name or label when none was given; the API refuses those.\<close>

lemma unnamed_create_refused: "csr_Name r = [] \<Longrightarrow> createSandbox (Body r) = bad_request"
  by (simp add: createSandbox_def decodeJSON_def)

lemma unlabelled_snapshot_refused: "createSnapshot i (Body ([], mode)) = bad_request"
  by (simp add: createSnapshot_def decodeJSON_def)

end
