(* ===== verification/Tools.thy ===== *)
theory Tools imports Routes Access begin

text \<open>
  The MCP server (\<open>internal/mcp\<close>, \<open>cmd/navaris-mcp\<close>): its tools as programs over the client library,
  the wait for an operation with a progress answer, read-only mode, and the bearer gate of the embedded
  endpoint.
\<close>

section \<open>Options and timeouts\<close>

record mcp_options =
  mo_Client :: client
  mo_ReadOnly :: bool
  mo_MaxTimeout :: int
  mo_Version :: string

definition maxTimeout :: "mcp_options \<Rightarrow> int" where
  "maxTimeout o' = (if mo_MaxTimeout o' > 0 then mo_MaxTimeout o' else 600 * second)"

definition mcp_version :: "mcp_options \<Rightarrow> string" where
  "mcp_version o' = (if mo_Version o' \<noteq> [] then mo_Version o' else ''dev'')"

text \<open>The product wraps around at 64 bits.\<close>

definition resolveTimeout :: "int \<Rightarrow> int \<Rightarrow> int \<Rightarrow> int" where
  "resolveTimeout seconds defaultDur maxDur = (
     let dflt = (if defaultDur > maxDur then maxDur else defaultDur) in
     if seconds \<le> 0 then dflt
     else (let d = wrap64 (seconds * second) in if d \<le> 0 \<or> d > maxDur then maxDur else d))"

section \<open>Waiting with a progress answer\<close>

datatype tool_result = Resource "Json.json" | Resources "Json.json list" | TheOperation client_op
  | Progress string | Okay | ExecOutput exec_result | BoostCancelled string

definition fetched :: "('w, Json.json) C \<Rightarrow> ('w, tool_result) C" where
  "fetched m = bindE m (\<lambda>j. ret (Inr (Resource j)))"

definition listed :: "('w, Json.json list) C \<Rightarrow> ('w, tool_result) C" where
  "listed m = bindE m (\<lambda>js. ret (Inr (Resources js)))"

definition ended_badly :: "client_op \<Rightarrow> client_error option" where
  "ended_badly x = (if co_State x = ''failed'' then Some (OperationFailed (co_OperationID x) (co_ErrorText x))
     else if co_State x = ''cancelled'' then Some (OperationCancelled (co_OperationID x)) else None)"

definition waitForOpAndFetch :: "'w net \<Rightarrow> client \<Rightarrow> ctx \<Rightarrow> client_op \<Rightarrow> int \<Rightarrow> ('w, tool_result) C \<Rightarrow> ('w, tool_result) C" where
  "waitForOpAndFetch net c ctx x timeout fetch =
     (if co_State x = ''succeeded'' then fetch
      else case ended_badly x of Some e \<Rightarrow> ret (Inl e)
      | None \<Rightarrow> do {
          r \<leftarrow> WaitForOperation net c ctx (co_OperationID x) (Some timeout);
          case r of
            Inl e \<Rightarrow> do {
              t \<leftarrow> State (\<lambda>s. (wi_now s, s));
              ret (if e = DeadlineExceeded \<and> ended ctx t = None then Inr (Progress (co_OperationID x)) else Inl e) }
          | Inr final \<Rightarrow> (case ended_badly final of Some e \<Rightarrow> ret (Inl e) | None \<Rightarrow> fetch) })"

section \<open>The tools\<close>

datatype tool_call =
    ProjectList | ProjectGet string
  | SandboxList string string | SandboxGet string
  | SandboxCreate string string string "int option" "int option" "bool option" int
  | SandboxStart string "bool option" int | SandboxStop string "bool option" int bool
  | SandboxDestroy string "bool option" int
  | SandboxExec string "string list" "(string \<times> string) list" string int
  | SessionList string | SessionGet string | SessionCreate string string string | SessionDestroy string
  | SnapshotList string | SnapshotGet string | SnapshotCreate string string string "bool option" int
  | SnapshotRestore string "bool option" int | SnapshotDelete string "bool option" int
  | ImageList string string | ImageGet string
  | OperationGet string | OperationCancel string
  | BoostGet string | BoostStart string "int option" "int option" int | BoostCancel string

fun tool_name :: "tool_call \<Rightarrow> string" where
  "tool_name ProjectList = ''project_list''" | "tool_name (ProjectGet i) = ''project_get''"
| "tool_name (SandboxList p st) = ''sandbox_list''" | "tool_name (SandboxGet i) = ''sandbox_get''"
| "tool_name (SandboxCreate p im n c m w t) = ''sandbox_create''" | "tool_name (SandboxStart i w t) = ''sandbox_start''"
| "tool_name (SandboxStop i w t f) = ''sandbox_stop''" | "tool_name (SandboxDestroy i w t) = ''sandbox_destroy''"
| "tool_name (SandboxExec i cmd env d t) = ''sandbox_exec''"
| "tool_name (SessionList i) = ''session_list''" | "tool_name (SessionGet i) = ''session_get''"
| "tool_name (SessionCreate i sh b) = ''session_create''" | "tool_name (SessionDestroy i) = ''session_destroy''"
| "tool_name (SnapshotList i) = ''snapshot_list''" | "tool_name (SnapshotGet i) = ''snapshot_get''"
| "tool_name (SnapshotCreate i l md w t) = ''snapshot_create''" | "tool_name (SnapshotRestore i w t) = ''snapshot_restore''"
| "tool_name (SnapshotDelete i w t) = ''snapshot_delete''"
| "tool_name (ImageList n a) = ''image_list''" | "tool_name (ImageGet i) = ''image_get''"
| "tool_name (OperationGet i) = ''operation_get''" | "tool_name (OperationCancel i) = ''operation_cancel''"
| "tool_name (BoostGet i) = ''boost_get''" | "tool_name (BoostStart i c m d) = ''boost_start''"
| "tool_name (BoostCancel i) = ''boost_cancel''"

definition read_tools :: "string list" where
  "read_tools = [''project_list'', ''project_get'', ''sandbox_list'', ''sandbox_get'', ''session_list'', ''session_get'',
     ''snapshot_list'', ''snapshot_get'', ''image_list'', ''image_get'', ''operation_get'', ''boost_get'']"

definition mutating_tools :: "string list" where
  "mutating_tools = [''sandbox_create'', ''sandbox_start'', ''sandbox_stop'', ''sandbox_destroy'', ''sandbox_exec'',
     ''session_create'', ''session_destroy'', ''snapshot_create'', ''snapshot_restore'', ''snapshot_delete'',
     ''operation_cancel'', ''boost_start'', ''boost_cancel'']"

definition register_tools :: "mcp_options \<Rightarrow> string list" where
  "register_tools o' = read_tools @ (if mo_ReadOnly o' then [] else mutating_tools)"

definition op_text :: "client_op \<Rightarrow> ('w, tool_result) C" where
  "op_text x = ret (Inr (TheOperation x))"

text \<open>The common end of the lifecycle tools: the operation at once, or the wait for it.\<close>

definition finish :: "'w net \<Rightarrow> mcp_options \<Rightarrow> ctx \<Rightarrow> bool option \<Rightarrow> int \<Rightarrow> int \<Rightarrow> (client_op \<Rightarrow> ('w, tool_result) C) \<Rightarrow> client_op \<Rightarrow> ('w, tool_result) C" where
  "finish net o' ctx wait secs dflt fetch x = (if wait = Some False then op_text x
     else waitForOpAndFetch net (mo_Client o') ctx x (resolveTimeout secs dflt (maxTimeout o')) (fetch x))"

abbreviation okay :: "client_op \<Rightarrow> ('w, tool_result) C" where "okay x \<equiv> ret (Inr Okay)"

definition tool_project_list :: "'w net \<Rightarrow> mcp_options \<Rightarrow> ctx \<Rightarrow> ('w, tool_result) C" where
  "tool_project_list net o' ctx =
     listed (cl_ListProjects net (mo_Client o') ctx)"

definition tool_project_get :: "'w net \<Rightarrow> mcp_options \<Rightarrow> ctx \<Rightarrow> string \<Rightarrow> ('w, tool_result) C" where
  "tool_project_get net o' ctx i =
     fetched (cl_GetProject net (mo_Client o') ctx i)"

definition tool_sandbox_list :: "'w net \<Rightarrow> mcp_options \<Rightarrow> ctx \<Rightarrow> string \<Rightarrow> string \<Rightarrow> ('w, tool_result) C" where
  "tool_sandbox_list net o' ctx p st =
     listed (cl_ListSandboxes net (mo_Client o') ctx p st)"

definition tool_sandbox_get :: "'w net \<Rightarrow> mcp_options \<Rightarrow> ctx \<Rightarrow> string \<Rightarrow> ('w, tool_result) C" where
  "tool_sandbox_get net o' ctx i =
     fetched (cl_GetSandbox net (mo_Client o') ctx i)"

definition tool_sandbox_create :: "'w net \<Rightarrow> mcp_options \<Rightarrow> ctx \<Rightarrow> string \<Rightarrow> string \<Rightarrow> string \<Rightarrow> int option \<Rightarrow> int option \<Rightarrow> bool option \<Rightarrow> int \<Rightarrow> ('w, tool_result) C" where
  "tool_sandbox_create net o' ctx p im n cpu mem wait secs =
     bindE (cl_CreateSandbox net (mo_Client o') ctx \<lparr>sq_ProjectID = p, sq_Name = n, sq_ImageID = im, sq_Backend = [],
         sq_CPULimit = cpu, sq_MemoryLimitMB = mem, sq_NetworkMode = [], sq_EnableBoostChannel = None, sq_ExpiresAt = None, sq_Metadata = []\<rparr>)
       (finish net o' ctx wait secs (300 * second) (\<lambda>x. fetched (cl_GetSandbox net (mo_Client o') ctx (co_ResourceID x))))"

definition tool_sandbox_start :: "'w net \<Rightarrow> mcp_options \<Rightarrow> ctx \<Rightarrow> string \<Rightarrow> bool option \<Rightarrow> int \<Rightarrow> ('w, tool_result) C" where
  "tool_sandbox_start net o' ctx i wait secs =
     bindE (cl_StartSandbox net (mo_Client o') ctx i)
       (finish net o' ctx wait secs (120 * second) (\<lambda>_. fetched (cl_GetSandbox net (mo_Client o') ctx i)))"

definition tool_sandbox_stop :: "'w net \<Rightarrow> mcp_options \<Rightarrow> ctx \<Rightarrow> string \<Rightarrow> bool option \<Rightarrow> int \<Rightarrow> bool \<Rightarrow> ('w, tool_result) C" where
  "tool_sandbox_stop net o' ctx i wait secs force =
     bindE (cl_StopSandbox net (mo_Client o') ctx i force)
       (finish net o' ctx wait secs (60 * second) (\<lambda>_. fetched (cl_GetSandbox net (mo_Client o') ctx i)))"

definition tool_sandbox_destroy :: "'w net \<Rightarrow> mcp_options \<Rightarrow> ctx \<Rightarrow> string \<Rightarrow> bool option \<Rightarrow> int \<Rightarrow> ('w, tool_result) C" where
  "tool_sandbox_destroy net o' ctx i wait secs =
     bindE (cl_DestroySandbox net (mo_Client o') ctx i)
       (finish net o' ctx wait secs (60 * second) okay)"

definition tool_sandbox_exec :: "'w net \<Rightarrow> mcp_options \<Rightarrow> ctx \<Rightarrow> string \<Rightarrow> string list \<Rightarrow> ((string \<times> string) list) \<Rightarrow> string \<Rightarrow> int \<Rightarrow> ('w, tool_result) C" where
  "tool_sandbox_exec net o' ctx i cmd env dir secs =
     State (\<lambda>s. run_state
       (bindE (cl_Exec net (mo_Client o') (WithTimeout ctx (resolveTimeout secs (120 * second) (maxTimeout o')) (wi_now s)) i cmd env dir)
         (\<lambda>r. ret (Inr (ExecOutput r)))) s)"

definition tool_session_list :: "'w net \<Rightarrow> mcp_options \<Rightarrow> ctx \<Rightarrow> string \<Rightarrow> ('w, tool_result) C" where
  "tool_session_list net o' ctx i =
     listed (cl_ListSessions net (mo_Client o') ctx i)"

definition tool_session_get :: "'w net \<Rightarrow> mcp_options \<Rightarrow> ctx \<Rightarrow> string \<Rightarrow> ('w, tool_result) C" where
  "tool_session_get net o' ctx i =
     fetched (cl_GetSession net (mo_Client o') ctx i)"

definition tool_session_create :: "'w net \<Rightarrow> mcp_options \<Rightarrow> ctx \<Rightarrow> string \<Rightarrow> string \<Rightarrow> string \<Rightarrow> ('w, tool_result) C" where
  "tool_session_create net o' ctx i shell backing =
     fetched (cl_CreateSession net (mo_Client o') ctx i backing shell)"

definition tool_session_destroy :: "'w net \<Rightarrow> mcp_options \<Rightarrow> ctx \<Rightarrow> string \<Rightarrow> ('w, tool_result) C" where
  "tool_session_destroy net o' ctx i =
     bindE (cl_DestroySession net (mo_Client o') ctx i) (\<lambda>_. ret (Inr Okay))"

definition tool_snapshot_list :: "'w net \<Rightarrow> mcp_options \<Rightarrow> ctx \<Rightarrow> string \<Rightarrow> ('w, tool_result) C" where
  "tool_snapshot_list net o' ctx i =
     listed (cl_ListSnapshots net (mo_Client o') ctx i)"

definition tool_snapshot_get :: "'w net \<Rightarrow> mcp_options \<Rightarrow> ctx \<Rightarrow> string \<Rightarrow> ('w, tool_result) C" where
  "tool_snapshot_get net o' ctx i =
     fetched (cl_GetSnapshot net (mo_Client o') ctx i)"

definition tool_snapshot_create :: "'w net \<Rightarrow> mcp_options \<Rightarrow> ctx \<Rightarrow> string \<Rightarrow> string \<Rightarrow> string \<Rightarrow> bool option \<Rightarrow> int \<Rightarrow> ('w, tool_result) C" where
  "tool_snapshot_create net o' ctx i label md wait secs =
     bindE (cl_CreateSnapshot net (mo_Client o') ctx i label md)
       (finish net o' ctx wait secs (120 * second) (\<lambda>x. fetched (cl_GetSnapshot net (mo_Client o') ctx (co_ResourceID x))))"

definition tool_snapshot_restore :: "'w net \<Rightarrow> mcp_options \<Rightarrow> ctx \<Rightarrow> string \<Rightarrow> bool option \<Rightarrow> int \<Rightarrow> ('w, tool_result) C" where
  "tool_snapshot_restore net o' ctx i wait secs =
     bindE (cl_RestoreSnapshot net (mo_Client o') ctx i)
       (finish net o' ctx wait secs (300 * second) (\<lambda>x. fetched (cl_GetSandbox net (mo_Client o') ctx (co_SandboxID x))))"

definition tool_snapshot_delete :: "'w net \<Rightarrow> mcp_options \<Rightarrow> ctx \<Rightarrow> string \<Rightarrow> bool option \<Rightarrow> int \<Rightarrow> ('w, tool_result) C" where
  "tool_snapshot_delete net o' ctx i wait secs =
     bindE (cl_DeleteSnapshot net (mo_Client o') ctx i)
       (finish net o' ctx wait secs (60 * second) okay)"

definition tool_image_list :: "'w net \<Rightarrow> mcp_options \<Rightarrow> ctx \<Rightarrow> string \<Rightarrow> string \<Rightarrow> ('w, tool_result) C" where
  "tool_image_list net o' ctx n a =
     listed (cl_ListImages net (mo_Client o') ctx n a)"

definition tool_image_get :: "'w net \<Rightarrow> mcp_options \<Rightarrow> ctx \<Rightarrow> string \<Rightarrow> ('w, tool_result) C" where
  "tool_image_get net o' ctx i =
     fetched (cl_GetImage net (mo_Client o') ctx i)"

definition tool_operation_get :: "'w net \<Rightarrow> mcp_options \<Rightarrow> ctx \<Rightarrow> string \<Rightarrow> ('w, tool_result) C" where
  "tool_operation_get net o' ctx i =
     bindE (cl_GetOperation net (mo_Client o') ctx i) op_text"

definition tool_operation_cancel :: "'w net \<Rightarrow> mcp_options \<Rightarrow> ctx \<Rightarrow> string \<Rightarrow> ('w, tool_result) C" where
  "tool_operation_cancel net o' ctx i =
     bindE (cl_CancelOperation net (mo_Client o') ctx i) (\<lambda>_. ret (Inr Okay))"

definition tool_boost_get :: "'w net \<Rightarrow> mcp_options \<Rightarrow> ctx \<Rightarrow> string \<Rightarrow> ('w, tool_result) C" where
  "tool_boost_get net o' ctx i =
     fetched (cl_GetBoost net (mo_Client o') ctx i)"

definition tool_boost_start :: "'w net \<Rightarrow> mcp_options \<Rightarrow> ctx \<Rightarrow> string \<Rightarrow> int option \<Rightarrow> int option \<Rightarrow> int \<Rightarrow> ('w, tool_result) C" where
  "tool_boost_start net o' ctx i cpu mem secs =
     fetched (cl_StartBoost net (mo_Client o') ctx i cpu mem secs)"

definition tool_boost_cancel :: "'w net \<Rightarrow> mcp_options \<Rightarrow> ctx \<Rightarrow> string \<Rightarrow> ('w, tool_result) C" where
  "tool_boost_cancel net o' ctx i =
     bindE (cl_CancelBoost net (mo_Client o') ctx i) (\<lambda>_. ret (Inr (BoostCancelled i)))"

fun call_tool :: "'w net \<Rightarrow> mcp_options \<Rightarrow> ctx \<Rightarrow> tool_call \<Rightarrow> ('w, tool_result) C" where
  "call_tool net o' ctx ProjectList = tool_project_list net o' ctx"
| "call_tool net o' ctx (ProjectGet i) = tool_project_get net o' ctx i"
| "call_tool net o' ctx (SandboxList p st) = tool_sandbox_list net o' ctx p st"
| "call_tool net o' ctx (SandboxGet i) = tool_sandbox_get net o' ctx i"
| "call_tool net o' ctx (SandboxCreate p im n cpu mem wait secs) = tool_sandbox_create net o' ctx p im n cpu mem wait secs"
| "call_tool net o' ctx (SandboxStart i wait secs) = tool_sandbox_start net o' ctx i wait secs"
| "call_tool net o' ctx (SandboxStop i wait secs force) = tool_sandbox_stop net o' ctx i wait secs force"
| "call_tool net o' ctx (SandboxDestroy i wait secs) = tool_sandbox_destroy net o' ctx i wait secs"
| "call_tool net o' ctx (SandboxExec i cmd env dir secs) = tool_sandbox_exec net o' ctx i cmd env dir secs"
| "call_tool net o' ctx (SessionList i) = tool_session_list net o' ctx i"
| "call_tool net o' ctx (SessionGet i) = tool_session_get net o' ctx i"
| "call_tool net o' ctx (SessionCreate i shell backing) = tool_session_create net o' ctx i shell backing"
| "call_tool net o' ctx (SessionDestroy i) = tool_session_destroy net o' ctx i"
| "call_tool net o' ctx (SnapshotList i) = tool_snapshot_list net o' ctx i"
| "call_tool net o' ctx (SnapshotGet i) = tool_snapshot_get net o' ctx i"
| "call_tool net o' ctx (SnapshotCreate i label md wait secs) = tool_snapshot_create net o' ctx i label md wait secs"
| "call_tool net o' ctx (SnapshotRestore i wait secs) = tool_snapshot_restore net o' ctx i wait secs"
| "call_tool net o' ctx (SnapshotDelete i wait secs) = tool_snapshot_delete net o' ctx i wait secs"
| "call_tool net o' ctx (ImageList n a) = tool_image_list net o' ctx n a"
| "call_tool net o' ctx (ImageGet i) = tool_image_get net o' ctx i"
| "call_tool net o' ctx (OperationGet i) = tool_operation_get net o' ctx i"
| "call_tool net o' ctx (OperationCancel i) = tool_operation_cancel net o' ctx i"
| "call_tool net o' ctx (BoostGet i) = tool_boost_get net o' ctx i"
| "call_tool net o' ctx (BoostStart i cpu mem secs) = tool_boost_start net o' ctx i cpu mem secs"
| "call_tool net o' ctx (BoostCancel i) = tool_boost_cancel net o' ctx i"

lemmas tool_defs = tool_project_list_def tool_project_get_def tool_sandbox_list_def tool_sandbox_get_def tool_sandbox_create_def tool_sandbox_start_def tool_sandbox_stop_def tool_sandbox_destroy_def tool_sandbox_exec_def tool_session_list_def tool_session_get_def tool_session_create_def tool_session_destroy_def tool_snapshot_list_def tool_snapshot_get_def tool_snapshot_create_def tool_snapshot_restore_def tool_snapshot_delete_def tool_image_list_def tool_image_get_def tool_operation_get_def tool_operation_cancel_def tool_boost_get_def tool_boost_start_def tool_boost_cancel_def

section \<open>The embedded endpoint and the stand-alone server\<close>

record mcp_http =
  mh_LocalAPIURL :: string
  mh_AuthToken :: string
  mh_ReadOnly :: bool
  mh_MaxTimeout :: int

definition extractBearer :: "string \<Rightarrow> string" where
  "extractBearer h = (if HasPrefix h ''Bearer '' then TrimPrefix h ''Bearer '' else [])"

text \<open>A server for a session: \<open>NewServer\<close> panics without a client; the endpoint always gives one.\<close>

definition session_options :: "(string \<Rightarrow> string) \<Rightarrow> mcp_http \<Rightarrow> string \<Rightarrow> mcp_options" where
  "session_options env h auth = \<lparr>mo_Client = NewClient env [WithURL (mh_LocalAPIURL h), WithToken (extractBearer auth)],
     mo_ReadOnly = mh_ReadOnly h, mo_MaxTimeout = mh_MaxTimeout h, mo_Version = []\<rparr>"

text \<open>The gate in front of the endpoint, \<open>None\<close> being the answer 401; the header is \<open>Authorization\<close>.\<close>

definition mcp_gate :: "(string \<Rightarrow> string) \<Rightarrow> mcp_http \<Rightarrow> string \<Rightarrow> mcp_options option" where
  "mcp_gate env h auth = (let bearer = extractBearer auth in
     if mh_AuthToken h \<noteq> [] \<and> (bearer = [] \<or> bearer \<noteq> mh_AuthToken h) then None else Some (session_options env h auth))"

definition ParseBool :: "string \<Rightarrow> bool option" where
  "ParseBool s = (if s \<in> {''1'', ''t'', ''T'', ''TRUE'', ''true'', ''True''} then Some True
     else if s \<in> {''0'', ''f'', ''F'', ''FALSE'', ''false'', ''False''} then Some False else None)"

definition envBool :: "(string \<Rightarrow> string) \<Rightarrow> string \<Rightarrow> bool" where
  "envBool env name = (let raw = env name in if raw = [] then False else (case ParseBool raw of None \<Rightarrow> False | Some v \<Rightarrow> v))"

text \<open>How a duration is read is a parameter.\<close>

definition envDuration :: "(string \<Rightarrow> int option) \<Rightarrow> (string \<Rightarrow> string) \<Rightarrow> string \<Rightarrow> int \<Rightarrow> int" where
  "envDuration dur env name fallback = (let raw = env name in
     if raw = [] then fallback else (case dur raw of None \<Rightarrow> fallback | Some d \<Rightarrow> d))"

datatype log_level = Debug | Info | Warn | Error

definition parseLogLevel :: "string \<Rightarrow> log_level" where
  "parseLogLevel s = (let l = Access.lower s in if l = ''debug'' then Debug
     else if l \<in> {''warn'', ''warning''} then Warn else if l = ''error'' then Error else Info)"

definition versionString :: "string \<Rightarrow> (string \<Rightarrow> string) \<Rightarrow> string" where
  "versionString built env = (if env ''NAVARIS_MCP_VERSION'' \<noteq> [] then env ''NAVARIS_MCP_VERSION'' else built)"

text \<open>\<open>main\<close> up to the run of the server over its standard input; \<open>None\<close> is the exit with status 1.\<close>

definition stdio_server :: "(string \<Rightarrow> int option) \<Rightarrow> string \<Rightarrow> (string \<Rightarrow> string) \<Rightarrow> mcp_options option" where
  "stdio_server dur built env = (let url = env ''NAVARIS_API_URL'' in
     if url = [] then None
     else Some \<lparr>mo_Client = NewClient env [WithURL url, WithToken (env ''NAVARIS_TOKEN'')],
       mo_ReadOnly = envBool env ''NAVARIS_MCP_READ_ONLY'',
       mo_MaxTimeout = envDuration dur env ''NAVARIS_MCP_MAX_TIMEOUT'' (600 * second),
       mo_Version = versionString built env\<rparr>)"

section \<open>Timeouts\<close>

lemma maxTimeout_pos: "0 < maxTimeout o'"
  by (simp add: maxTimeout_def second_def)

lemma resolveTimeout_bounds:
  assumes "0 < dflt" "0 < m"
  shows "0 < resolveTimeout secs dflt m" "resolveTimeout secs dflt m \<le> m"
  using assms by (auto simp: resolveTimeout_def Let_def)

lemma resolveTimeout_exact:
  assumes "0 < secs" "secs * second \<le> m" "m < 2 ^ 63"
  shows "resolveTimeout secs dflt m = secs * second"
proof -
  have "0 < secs * second" "secs * second < 2 ^ 63" using assms by (auto simp: second_def)
  then have "wrap64 (secs * second) = secs * second" by (simp add: wrap64_def)
  then show ?thesis using assms \<open>0 < secs * second\<close> by (simp add: resolveTimeout_def Let_def)
qed

text \<open>A timeout so long that the product wraps around can come out short, below half a second.\<close>

lemma resolveTimeout_wraps: "resolveTimeout 18446744074 (60 * second) (600 * second) = 290448384"
  by (simp add: resolveTimeout_def wrap64_def second_def)

section \<open>Which requests the tools send\<close>

lemma sends_state: "(\<And>s. \<exists>m. f = run_state m \<and> sends P m) \<Longrightarrow> sends P (State f)"
  by (metis state.collapse)

lemma sends_mono: "sends P m \<Longrightarrow> (\<And>q. P q \<Longrightarrow> Q q) \<Longrightarrow> sends Q m"
  unfolding sends_def by meson

lemma sends_pointwise: "(\<And>s. \<exists>m. run_state n s = run_state m s \<and> sends P m) \<Longrightarrow> sends P n"
  unfolding sends_def by metis

lemma sends_clock [sendsI]: "sends P (State (\<lambda>s. (f s, s)))"
  by (simp add: sends_def)

lemma op_request_of: "op_request c i = request_of c ''GET'' (''/v1/operations/'' @ i) None"
  by (simp add: op_request_def request_of_def)

lemma sends_Wait [sendsI]:
  fixes net :: "'b net"
  shows "P (op_request c i) \<Longrightarrow> sends P (WaitForOperation net c ctx i opts)"
  unfolding sends_def
proof
  fix s :: "'b wire"
  assume P: "P (op_request c i)"
  obtain r s' where w: "run_state (WaitForOperation net c ctx i opts) s = (r, s')" by fastforce
  obtain m where "wi_sent s' = wi_sent s @ replicate m (op_request c i)"
    using wait_loop_bounded [OF w [unfolded run_Wait]] by blast
  then show "\<exists>qs. wi_sent (snd (run_state (WaitForOperation net c ctx i opts) s)) = wi_sent s @ qs \<and> (\<forall>q\<in>set qs. P q)"
    using P w by (intro exI [of _ "replicate m (op_request c i)"]) auto
qed

lemma sends_fetched [sendsI]: "sends P m \<Longrightarrow> sends P (fetched m)"
  unfolding fetched_def by (intro sendsI)

lemma sends_listed [sendsI]: "sends P m \<Longrightarrow> sends P (listed m)"
  unfolding listed_def by (intro sendsI)

lemma sends_waitForOpAndFetch [sendsI]:
  "P (op_request c (co_OperationID x)) \<Longrightarrow> sends P fetch \<Longrightarrow> sends P (waitForOpAndFetch net c ctx x timeout fetch)"
  unfolding waitForOpAndFetch_def
  by (auto split: option.splits sum.splits intro!: sends_bind sendsI)

lemma sends_finish [sendsI]:
  "P (op_request (mo_Client o') (co_OperationID x)) \<Longrightarrow> sends P (fetch x) \<Longrightarrow> sends P (finish net o' ctx wait secs dflt fetch x)"
  unfolding finish_def op_text_def by (intro sendsI)

lemmas more_call_defs = tool_defs call_defs cl_Exec_def

text \<open>Every request of a tool is made by the client of its options.\<close>

lemma tool_sends:
  assumes "\<And>meth path body. P (request_of (mo_Client o') meth path body)"
  shows "sends P (call_tool net o' ctx call)"
proof (cases call)
  case (SandboxExec i cmd env dir secs)
  show ?thesis unfolding SandboxExec call_tool.simps tool_sandbox_exec_def
    by (rule sends_pointwise, intro exI conjI, simp, unfold more_call_defs, intro sendsI assms)
qed (simp only: call_tool.simps more_call_defs op_request_of op_text_def, intro sendsI assms | simp)+

section \<open>Read-only mode\<close>

text \<open>A network on which every request fails at once: what is sent first is all that is sent.\<close>

definition dead_net :: "'w net" where
  "dead_net q t w = (Inl [], 0, w)"

lemma dead_doRequest:
  "ended ctx (wi_now s) = None \<Longrightarrow> run_state (doRequest dead_net c ctx meth path body) s =
     (Inl (Transport []), s\<lparr>wi_sent := wi_sent s @ [request_of c meth path body]\<rparr>)"
  by (simp add: doRequest_def request_of_def runs run_send dead_net_def)

lemma dead_calls:
  "ended ctx (wi_now s) = None \<Longrightarrow> run_state (cl_send dead_net c ctx meth path body conv) s =
     (Inl (Transport []), s\<lparr>wi_sent := wi_sent s @ [request_of c meth path body]\<rparr>)"
  "ended ctx (wi_now s) = None \<Longrightarrow> run_state (cl_del dead_net c ctx path) s =
     (Inl (Transport []), s\<lparr>wi_sent := wi_sent s @ [request_of c ''DELETE'' path None]\<rparr>)"
  by (simp_all add: cl_send_def cl_del_def runs dead_doRequest)

definition is_read :: "outgoing \<Rightarrow> bool" where
  "is_read q \<longleftrightarrow> hq_Method q = ''GET'' \<and> hq_Body q = None"

lemma is_read_request_of [simp]: "is_read (request_of c meth path body) \<longleftrightarrow> meth = ''GET'' \<and> body = None"
  by (simp add: is_read_def request_of_def)

lemma read_tools_read: "tool_name call \<in> set read_tools \<Longrightarrow> sends is_read (call_tool net o' ctx call)"
  by (cases call) (simp_all add: read_tools_def, (simp only: more_call_defs op_text_def, intro sendsI, simp?)+)

lemma not_sends: "wi_sent (snd (run_state m s)) = wi_sent s @ [q] \<Longrightarrow> \<not> P q \<Longrightarrow> \<not> sends P m"
  unfolding sends_def by (metis list.set_intros(1) same_append_eq)

lemma other_tools_write:
  fixes o' :: mcp_options
  assumes "tool_name call \<notin> set read_tools"
  shows "\<not> sends is_read (call_tool dead_net o' None call :: ('w, tool_result) C)"
proof -
  have "\<exists>q (s :: 'w wire). wi_sent (snd (run_state (call_tool dead_net o' None call) s)) = wi_sent s @ [q] \<and> \<not> is_read q"
    using assms resolveTimeout_bounds(1) [OF _ maxTimeout_pos, of "120 * second"]
    by (cases call) (simp_all add: read_tools_def fetched_def more_call_defs runs dead_calls dead_doRequest ended_def WithTimeout_def second_def not_le)
  then show ?thesis using not_sends by blast
qed

text \<open>
  C37: a read-only server offers exactly the tools that send nothing but reads: requests with the method GET
  and no body, whatever the arguments, the answers and the instant the context ends; any other server
  offers every tool.
\<close>

theorem read_only_server:
  "tool_name call \<in> set (register_tools o') \<longleftrightarrow>
     (if mo_ReadOnly o' then (\<forall>(net :: 'w net) ctx. sends is_read (call_tool net o' ctx call)) else True)"
proof -
  have "tool_name call \<in> set read_tools \<or> tool_name call \<in> set mutating_tools"
    by (cases call) (simp_all add: read_tools_def mutating_tools_def)
  moreover have "tool_name call \<in> set read_tools \<longleftrightarrow> (\<forall>(net :: 'w net) ctx. sends is_read (call_tool net o' ctx call))"
    using read_tools_read [of call] other_tools_write [of call o'] by blast
  ultimately show ?thesis by (auto simp: register_tools_def)
qed

section \<open>A progress answer\<close>

lemma transport_not_deadline [simp]: "map_sum Transport id r \<noteq> Inl DeadlineExceeded"
  by (cases r) auto

lemma poll_deadline:
  "run_state (poll net c (Some te) i d) s = (Inl DeadlineExceeded, s') \<Longrightarrow> ended (Some te) (wi_now s') = Some DeadlineExceeded"
  by (auto simp: poll_def run_GetOperation run_send run_pause runs ended_def api_error_def decoded_def
      split: prod.splits sum.splits if_splits option.splits)

lemma wait_loop_deadline:
  "wait_loop net c te i k s = (Inl DeadlineExceeded, s') \<Longrightarrow> ended (Some te) (wi_now s') = Some DeadlineExceeded"
proof (induction net c te i k s rule: wait_loop.induct)
  case (1 net c t e i k s)
  obtain y s1 where y: "run_state (poll net c (Some (t, e)) i (backoff k)) s = (y, s1)" by fastforce
  show ?case
  proof (cases "y = Inr None")
    case True
    then show ?thesis using "1.IH" [OF y [symmetric] True refl] "1.prems" y by (simp add: wait_loop.simps [of net _ _ _ _ k])
  next
    case False
    then have "y = Inl DeadlineExceeded \<and> s' = s1"
      using "1.prems" y by (auto simp: wait_loop.simps [of net _ _ _ _ k] split: sum.splits option.splits)
    then show ?thesis using poll_deadline y by blast
  qed
qed

lemma Wait_deadline:
  assumes w: "run_state (WaitForOperation net c ctx i (Some d)) s = (Inl DeadlineExceeded, s')"
    and live: "ended ctx (wi_now s') = None" and d: "0 < d"
  shows "wi_now s' = wi_now s + d"
proof -
  let ?te = "the (WithTimeout ctx d (wi_now s))"
  have l: "wait_limit (Some d) = d" using d by (simp add: wait_limit_def)
  have e: "ended (Some ?te) (wi_now s') = Some DeadlineExceeded" and b: "wi_now s' \<le> max (fst ?te) (wi_now s)" "wi_now s \<le> wi_now s'"
    using wait_loop_deadline [OF w [unfolded run_Wait l]] wait_loop_bounded [OF w [unfolded run_Wait l]] by auto
  show ?thesis
  proof (cases "?te = (wi_now s + d, DeadlineExceeded)")
    case True
    then show ?thesis using e b d by (auto simp: ended_def split: if_splits)
  next
    case False
    then have "ctx = Some ?te" by (auto simp: WithTimeout_def split: option.splits if_splits)
    then show ?thesis using e live by simp
  qed
qed

text \<open>
  C39: when a lifecycle tool answers that its operation is still in progress, then exactly its timeout has
  passed, the caller's context has not ended, the operation named is the one that was started, and nothing
  was sent but reads of it, at most one per five seconds and five more.
\<close>

theorem progress_answer:
  assumes "run_state (waitForOpAndFetch net c ctx x timeout fetch) s = (Inr (Progress i), s')" and "0 < timeout"
    and "\<And>t. fst (run_state fetch t) \<noteq> Inr (Progress i)"
  shows "i = co_OperationID x \<and> wi_now s' = wi_now s + timeout \<and> ended ctx (wi_now s') = None
    \<and> (\<exists>m \<le> nat (timeout div (5 * second)) + 5. wi_sent s' = wi_sent s @ replicate m (op_request c i))"
proof -
  have f: "run_state fetch t \<noteq> (Inr (Progress i), s')" for t using assms(3) [of t] by auto
  have l: "wait_limit (Some timeout) = timeout" using assms(2) by (simp add: wait_limit_def)
  have w: "run_state (WaitForOperation net c ctx (co_OperationID x) (Some timeout)) s = (Inl DeadlineExceeded, s')"
    and i: "i = co_OperationID x" and e: "ended ctx (wi_now s') = None"
    using assms(1) f by (auto simp: waitForOpAndFetch_def runs split: if_splits option.splits prod.splits sum.splits)
  show ?thesis using wait_facts(3) [OF w] Wait_deadline [OF w e assms(2)] l i e by simp
qed

text \<open>A server on which the operation never ends and answers take no time.\<close>

definition stuck_net :: "unit net" where
  "stuck_net q t w = (Inr (200, op_body ''running''), 0, w)"

lemma progress_answer_witness:
  "\<exists>s'. run_state (waitForOpAndFetch stuck_net slow_client None (co_zero\<lparr>co_OperationID := ''op-1''\<rparr>) second (fetched (cl_GetSandbox stuck_net slow_client None ''sbx-1'')))
      fresh_wire = (Inr (Progress ''op-1''), s') \<and> wi_now s' = second
    \<and> (\<exists>m \<le> 5. wi_sent s' = replicate m (op_request slow_client ''op-1''))"
proof -
  let ?f = "fetched (cl_GetSandbox stuck_net slow_client None ''sbx-1'')"
  let ?run = "run_state (waitForOpAndFetch stuck_net slow_client None (co_zero\<lparr>co_OperationID := ''op-1''\<rparr>) second ?f) fresh_wire"
  have r: "?run = (Inr (Progress ''op-1''), snd ?run)" by (rule prod_eqI) (code_simp, simp)
  have "fst (run_state ?f t) \<noteq> Inr (Progress ''op-1'')" for t
    by (auto simp: fetched_def runs split: prod.splits sum.splits)
  from progress_answer [OF r _ this] show ?thesis using r by (auto simp: second_def fresh_wire_def)
qed

section \<open>The endpoint acts as its caller\<close>

lemma session_client: "mo_Client (session_options env h auth) = \<lparr>cl_baseURL = mh_LocalAPIURL h, cl_token = extractBearer auth\<rparr>"
  by (simp add: session_options_def NewClient_def WithURL_def WithToken_def)

lemma extractBearer_of: "extractBearer h = t \<Longrightarrow> t \<noteq> [] \<Longrightarrow> h = ''Bearer '' @ t"
  using Bearer_eq [of h t] by (simp add: extractBearer_def split: if_splits)

text \<open>
  C40: with a token configured, the embedded endpoint serves a request only when its header is \<open>Bearer\<close> with
  that token; every request its tools make then goes to the daemon's own address under the same header, and
  the API's authentication lets a request with it pass.
\<close>

theorem endpoint_acts_as_caller:
  assumes "mcp_gate env h auth = Some o'" and "mh_AuthToken h \<noteq> []"
  shows "auth = ''Bearer '' @ mh_AuthToken h
    \<and> sends (\<lambda>q. hq_Authorization q = Some auth \<and> (\<exists>path. hq_URL q = mh_LocalAPIURL h @ path)) (call_tool net o' ctx call)
    \<and> (rq_Authorization r = auth \<longrightarrow> authMiddleware mac hostname (mh_AuthToken h) key t r = Pass)"
proof -
  have b: "extractBearer auth = mh_AuthToken h" "o' = session_options env h auth"
    using assms by (auto simp: mcp_gate_def Let_def split: if_splits)
  have a: "auth = ''Bearer '' @ mh_AuthToken h" by (rule extractBearer_of [OF b(1) assms(2)])
  have "sends (\<lambda>q. hq_Authorization q = Some auth \<and> (\<exists>path. hq_URL q = mh_LocalAPIURL h @ path)) (call_tool net o' ctx call)"
    by (rule tool_sends) (use a b assms(2) in \<open>simp add: request_of_def session_client\<close>)
  moreover have "rq_Authorization r = auth \<longrightarrow> authMiddleware mac hostname (mh_AuthToken h) key t r = Pass"
    using b(1) assms(2) by (auto simp: authMiddleware_def extractBearerToken_def extractBearer_def split: if_splits)
  ultimately show ?thesis using a by blast
qed

lemma endpoint_without_token: "mh_AuthToken h = [] \<Longrightarrow> mcp_gate env h auth = Some (session_options env h auth)"
  by (simp add: mcp_gate_def)

definition demo_mcp :: mcp_http where
  "demo_mcp = \<lparr>mh_LocalAPIURL = ''http://127.0.0.1:8080'', mh_AuthToken = ''t'', mh_ReadOnly = False, mh_MaxTimeout = 600 * second\<rparr>"

lemma endpoint_acts_as_caller_witness:
  "sends (\<lambda>q. hq_Authorization q = Some ''Bearer t'' \<and> (\<exists>path. hq_URL q = ''http://127.0.0.1:8080'' @ path))
     (call_tool stuck_net (session_options (\<lambda>_. []) demo_mcp ''Bearer t'') None (SandboxStop ''sbx-1'' None 5 True))"
proof -
  have "mcp_gate (\<lambda>_. []) demo_mcp ''Bearer t'' = Some (session_options (\<lambda>_. []) demo_mcp ''Bearer t'')" by code_simp
  from endpoint_acts_as_caller [OF this, of stuck_net None "SandboxStop ''sbx-1'' None 5 True"] show ?thesis
    by (simp add: demo_mcp_def)
qed

text \<open>A mistyped switch leaves the stand-alone server writable.\<close>

lemma mistyped_read_only: "ParseBool (env ''NAVARIS_MCP_READ_ONLY'') = None \<Longrightarrow> env ''NAVARIS_API_URL'' \<noteq> []
    \<Longrightarrow> \<exists>o'. stdio_server dur built env = Some o' \<and> \<not> mo_ReadOnly o'"
  by (simp add: stdio_server_def envBool_def Let_def)

end
