(* ===== verification/Channel.thy ===== *)
theory Channel imports Routes Access begin

text \<open>
  The boost channel (\<open>internal/api/boost_channel.go\<close>): one HTTP request per connection from inside a
  sandbox, acting as that sandbox; its replies byte for byte, and that nothing a guest sends reaches the
  boosts, timers or rows of another sandbox.  How \<open>net/http\<close> reads a request, the texts of errors and the
  JSON of a sandbox's metadata are parameters.
\<close>

section \<open>Replies\<close>

definition status_text :: "int \<Rightarrow> string" where
  "status_text c = (case map_of [(200, ''OK''), (204, ''No Content''), (400, ''Bad Request''), (401, ''Unauthorized''),
       (403, ''Forbidden''), (404, ''Not Found''), (409, ''Conflict''), (422, ''Unprocessable Entity''),
       (429, ''Too Many Requests''), (500, ''Internal Server Error''), (501, ''Not Implemented''),
       (503, ''Service Unavailable'')] c of Some t \<Rightarrow> t | None \<Rightarrow> ''Status'')"

definition crlf :: string where "crlf = [CHR 0x0D, CHR 0x0A]"

definition writeResp :: "int \<Rightarrow> (string \<times> string) list \<Rightarrow> string option \<Rightarrow> string" where
  "writeResp status extra body =
     ''HTTP/1.1 '' @ itoa status @ '' '' @ status_text status @ crlf @
     (case body of
        Some b \<Rightarrow> ''Content-Type: application/json'' @ crlf @ ''Content-Length: '' @ itoa (int (length b)) @ crlf
      | None \<Rightarrow> ''Content-Length: 0'' @ crlf) @
     concat (map (\<lambda>(k, v). k @ '': '' @ v @ crlf) extra) @
     ''Connection: close'' @ crlf @ crlf @ (case body of Some b \<Rightarrow> b | None \<Rightarrow> [])"

definition refusal :: "int \<Rightarrow> string \<Rightarrow> string" where
  "refusal status msg = writeResp status [] (Some (print_json (Json.JObj [(''error'', Json.JStr msg)])))"

definition reason_text :: "resize_reason \<Rightarrow> string" where
  "reason_text r = (case r of ExceedsCeiling \<Rightarrow> ''exceeds_ceiling'' | CPUUnsupportedByBackend \<Rightarrow> ''cpu_resize_unsupported_by_backend''
     | BackendRejected \<Rightarrow> ''backend_rejected'' | CgroupUnavailable \<Rightarrow> ''cgroup_unavailable''
     | CgroupWriteFailed \<Rightarrow> ''cgroup_write_failed'' | VmStopped \<Rightarrow> ''vm_stopped'')"

text \<open>\<open>writeServiceError\<close>: only a resize error loses its detail above 500.\<close>

definition service_error_text :: "(goerr \<Rightarrow> string) \<Rightarrow> goerr \<Rightarrow> string" where
  "service_error_text err e = (case as_resize e of
     Some r \<Rightarrow> if mapErrorCode e \<ge> 500 then reason_text r else err e
   | None \<Rightarrow> err e)"

definition writeServiceError :: "(goerr \<Rightarrow> string) \<Rightarrow> goerr \<Rightarrow> string" where
  "writeServiceError err e = refusal (mapErrorCode e) (service_error_text err e)"

definition json_limit :: "int option \<Rightarrow> Json.json" where
  "json_limit v = (case v of None \<Rightarrow> Json.JNull | Some i \<Rightarrow> JInt i)"

definition boost_state_text :: "boost_state \<Rightarrow> string" where
  "boost_state_text st = (case st of BoostActive \<Rightarrow> ''active'' | BoostRevertFailed \<Rightarrow> ''revert_failed'' | BoostOther t \<Rightarrow> t)"

definition boost_json :: "(goerr \<Rightarrow> string) \<Rightarrow> boost_response \<Rightarrow> Json.json" where
  "boost_json err b = Json.JObj (
     [(''boost_id'', Json.JStr (br_BoostID b)), (''sandbox_id'', Json.JStr (br_SandboxID b)),
      (''original_cpu_limit'', json_limit (br_OriginalCPULimit b)),
      (''original_memory_limit_mb'', json_limit (br_OriginalMemoryLimitMB b)),
      (''boosted_cpu_limit'', json_limit (br_BoostedCPULimit b)),
      (''boosted_memory_limit_mb'', json_limit (br_BoostedMemoryLimitMB b)),
      (''started_at'', Json.JStr (br_StartedAt b)), (''expires_at'', Json.JStr (br_ExpiresAt b)),
      (''state'', Json.JStr (boost_state_text (br_State b)))] @ opt_text ''source'' (br_Source b)
     @ (if br_RevertAttempts b = 0 then [] else [(''revert_attempts'', JInt (br_RevertAttempts b))])
     @ opt_text ''last_error'' (case br_LastError b of None \<Rightarrow> [] | Some e \<Rightarrow> err e))"

section \<open>The handlers\<close>

record channel_env =
  che_read :: "string \<Rightarrow> (string \<times> string \<times> string) option"  \<comment> \<open>\<open>http.ReadRequest\<close>: method, path and body\<close>
  che_err :: "goerr \<Rightarrow> string"
  che_meta :: "data option \<Rightarrow> Json.json"

text \<open>\<open>sandboxResponse\<close>: the fields of \<open>domain.Sandbox\<close>, which have no tags, and the boost.\<close>

definition json_time :: "gotime option \<Rightarrow> Json.json" where
  "json_time t = (case t of None \<Rightarrow> Json.JNull | Some x \<Rightarrow> Json.JStr (rfc3339nano x))"

definition sandbox_json :: "channel_env \<Rightarrow> sandbox \<Rightarrow> boost_response option \<Rightarrow> Json.json" where
  "sandbox_json ce s b = Json.JObj (
     [(''SandboxID'', Json.JStr (sbx_SandboxID s)), (''ProjectID'', Json.JStr (sbx_ProjectID s)),
      (''Name'', Json.JStr (sbx_Name s)), (''State'', Json.JStr (sandbox_state_text (sbx_State s))),
      (''Backend'', Json.JStr (sbx_Backend s)), (''BackendRef'', Json.JStr (sbx_BackendRef s)),
      (''HostID'', Json.JStr (sbx_HostID s)), (''SourceImageID'', Json.JStr (sbx_SourceImageID s)),
      (''ParentSnapshotID'', Json.JStr (sbx_ParentSnapshotID s)),
      (''CreatedAt'', json_time (Some (sbx_CreatedAt s))), (''UpdatedAt'', json_time (Some (sbx_UpdatedAt s))),
      (''ExpiresAt'', json_time (sbx_ExpiresAt s)), (''CPULimit'', json_limit (sbx_CPULimit s)),
      (''MemoryLimitMB'', json_limit (sbx_MemoryLimitMB s)), (''NetworkMode'', Json.JStr (sbx_NetworkMode s)),
      (''EnableBoostChannel'', Json.JBool (sbx_EnableBoostChannel s)), (''Metadata'', che_meta ce (sbx_Metadata s))]
     @ (case b of None \<Rightarrow> [] | Some x \<Rightarrow> [(''active_boost'', boost_json (che_err ce) x)]))"

definition reply :: "channel_env \<Rightarrow> 'a res M \<Rightarrow> ('a \<Rightarrow> string) \<Rightarrow> string M" where
  "reply ce m f = do { r \<leftarrow> m; ret (case r of Inl e \<Rightarrow> writeServiceError (che_err ce) e | Inr x \<Rightarrow> f x) }"

definition boost_reply :: "channel_env \<Rightarrow> boost \<Rightarrow> string" where
  "boost_reply ce b = writeResp 200 [] (Some (print_json (boost_json (che_err ce) (boostToResponse b))))"

definition handlePostBoost :: "channel_env \<Rightarrow> string \<Rightarrow> string \<Rightarrow> string M" where
  "handlePostBoost ce sid text = (case body_of to_boost text of
     Body r \<Rightarrow>
       if brq_CPULimit r = None \<and> brq_MemoryLimitMB r = None
         then ret (refusal 400 ''at least one of cpu_limit, memory_limit_mb is required'')
       else if brq_DurationSeconds r \<le> 0 then ret (refusal 400 ''duration_seconds must be > 0'')
       else reply ce (BoostService_Start \<lparr>bo_SandboxID = sid, bo_CPULimit = brq_CPULimit r,
              bo_MemoryLimitMB = brq_MemoryLimitMB r, bo_DurationSeconds = brq_DurationSeconds r,
              bo_Source = ''in_sandbox''\<rparr>) (boost_reply ce)
   | _ \<Rightarrow> ret (refusal 400 ''invalid JSON''))"

definition handleGetBoost :: "channel_env \<Rightarrow> string \<Rightarrow> string M" where
  "handleGetBoost ce sid = reply ce (BoostService_Get sid) (boost_reply ce)"

definition handleDeleteBoost :: "channel_env \<Rightarrow> string \<Rightarrow> string M" where
  "handleDeleteBoost ce sid = reply ce (BoostService_Cancel sid) (\<lambda>_. writeResp 204 [] None)"

definition handleGetSandbox :: "channel_env \<Rightarrow> string \<Rightarrow> string M" where
  "handleGetSandbox ce sid = do {
     g \<leftarrow> store_get (sandbox_Get sid);
     case g of
       Inl e \<Rightarrow> ret (writeServiceError (che_err ce) e)
     | Inr sbx \<Rightarrow> do {
         b \<leftarrow> BoostService_Get sid;
         ret (writeResp 200 [] (Some (print_json (sandbox_json ce sbx
           (case b of Inl _ \<Rightarrow> None | Inr x \<Rightarrow> Some (boostToResponse x)))))) } }"

definition channel_route :: "channel_env \<Rightarrow> string \<Rightarrow> string \<times> string \<times> string \<Rightarrow> string M" where
  "channel_route ce sid q = (case q of (meth, path, text) \<Rightarrow>
     if meth = ''POST'' \<and> path = ''/boost'' then handlePostBoost ce sid text
     else if meth = ''GET'' \<and> path = ''/boost'' then handleGetBoost ce sid
     else if meth = ''DELETE'' \<and> path = ''/boost'' then handleDeleteBoost ce sid
     else if meth = ''GET'' \<and> path = ''/sandbox'' then handleGetSandbox ce sid
     else ret (refusal 404 ''unknown route''))"

text \<open>One connection: what was read from it, the instant and the buckets of the limiter.\<close>

definition channel_Serve :: "RateLimiterConfig \<Rightarrow> channel_env \<Rightarrow> string \<Rightarrow> string \<Rightarrow> int \<Rightarrow> rate_buckets \<Rightarrow> string M \<times> rate_buckets" where
  "channel_Serve cfg ce sid input t bs = (case Allow cfg sid t bs of (ok, bs') \<Rightarrow>
     (if \<not> ok then ret (writeResp 429 [(''Retry-After'', itoa (RetryAfter cfg sid bs' div d_second + 1))]
          (Some (print_json (Json.JObj [(''error'', Json.JStr ''rate limit exceeded'')]))))
      else (case che_read ce input of
              None \<Rightarrow> ret (refusal 400 ''invalid HTTP request'')
            | Some q \<Rightarrow> channel_route ce sid q), bs'))"

section \<open>A sandbox acts on itself only\<close>

text \<open>Everything in the database but the boosts of one sandbox.\<close>

definition others :: "string \<Rightarrow> database \<Rightarrow> database" where
  "others sid d = d\<lparr>db_boosts := filter (\<lambda>b. bst_SandboxID b \<noteq> sid) (db_boosts d)\<rparr>"

definition confined :: "string \<Rightarrow> database \<Rightarrow> (string \<Rightarrow> timer option) \<Rightarrow> database \<Rightarrow> (string \<Rightarrow> timer option) \<Rightarrow> bool" where
  "confined sid d0 tm0 d tm \<longleftrightarrow> db_ok d \<and> others sid d = others sid d0 \<and>
     (\<forall>b\<in>set (db_boosts (others sid d0)). tm (bst_BoostID b) = tm0 (bst_BoostID b))"

text \<open>The id of a boost that is not another sandbox's.\<close>

definition own :: "string \<Rightarrow> database \<Rightarrow> string \<Rightarrow> bool" where
  "own sid d0 bid \<longleftrightarrow> bid \<notin> bst_BoostID ` set (db_boosts (others sid d0))"

lemma others_boosts: "db_boosts (others sid d) = filter (\<lambda>b. bst_SandboxID b \<noteq> sid) (db_boosts d)"
  by (simp add: others_def)

lemma own_get:
  assumes "confined sid d0 tm0 d tm" "boost_Get sid d = Some b"
  shows "bst_SandboxID b = sid \<and> own sid d0 (bst_BoostID b)"
proof -
  have b: "b \<in> set (db_boosts d)" "bst_SandboxID b = sid"
    using assms(2) by (auto simp: boost_Get_def dest: row_find_Some)
  have u: "distinct (map bst_BoostID (db_boosts d))" and o: "others sid d = others sid d0"
    using assms(1) by (auto simp: confined_def db_ok_def boosts_ok_def unique_def)
  have "bst_BoostID b \<notin> bst_BoostID ` set (db_boosts (others sid d))"
    using distinct_map_key [OF u b(1)] b(2) by (auto simp: others_boosts)
  then show ?thesis using b(2) o by (simp add: own_def)
qed

lemma Upsert_confined:
  assumes "confined sid d0 tm0 d tm" "bst_SandboxID b = sid" "boost_Upsert b d = Inr d'"
  shows "confined sid d0 tm0 d' tm \<and> own sid d0 (bst_BoostID b)"
proof -
  have c: "others sid d = others sid d0" "db_ok d" using assms(1) by (auto simp: confined_def)
  have new: "\<not> list_ex (\<lambda>r. bst_BoostID r = bst_BoostID b \<and> bst_SandboxID r \<noteq> bst_SandboxID b) (db_boosts d)"
    and d': "d' = d\<lparr>db_boosts := (case boost_Get (bst_SandboxID b) d of None \<Rightarrow> db_boosts d @ [saved_boost b]
         | Some _ \<Rightarrow> upd_where (\<lambda>r. bst_SandboxID r = bst_SandboxID b) (\<lambda>_. saved_boost b) (db_boosts d))\<rparr>"
    using assms(3) by (auto simp: boost_Upsert_def split: if_splits)
  have s: "bst_SandboxID (saved_boost b) = sid" using assms(2) by (simp add: saved_boost_def)
  have "filter (\<lambda>r. bst_SandboxID r \<noteq> sid) (upd_where (\<lambda>r. bst_SandboxID r = sid) (\<lambda>_. saved_boost b) rows)
      = filter (\<lambda>r. bst_SandboxID r \<noteq> sid) rows" for rows
    using s by (induction rows) (auto simp: upd_where_def)
  then have "others sid d' = others sid d" using s assms(2) unfolding d' others_def by (auto split: option.splits)
  moreover have "own sid d0 (bst_BoostID b)"
    using new assms(2) c(1) [symmetric] by (auto simp: own_def others_boosts list_ex_iff)
  ultimately show ?thesis using assms(1) boost_Upsert_ok [OF c(2) assms(3)] c by (simp add: confined_def)
qed

lemma Delete_confined:
  assumes "confined sid d0 tm0 d tm" "own sid d0 bid" "boost_Delete bid d = Inr d'"
  shows "confined sid d0 tm0 d' tm"
proof -
  have c: "others sid d = others sid d0" "db_ok d" using assms(1) by (auto simp: confined_def)
  have "filter (\<lambda>b. bst_SandboxID b \<noteq> sid) (filter (\<lambda>r. bst_BoostID r \<noteq> bid) (db_boosts d))
      = filter (\<lambda>b. bst_SandboxID b \<noteq> sid) (db_boosts d)"
    using assms(2) c(1) [symmetric] by (force simp: own_def others_boosts filter_filter intro: filter_cong)
  then have "others sid d' = others sid d" using assms(3) by (auto simp: boost_Delete_def row_delete_Inr others_def)
  then show ?thesis using assms(1) boost_Delete_ok [OF c(2) assms(3)] c by (simp add: confined_def)
qed

lemma UpdateState_confined:
  assumes "confined sid d0 tm0 d tm" "own sid d0 bid" "boost_UpdateState bid st n e d = Inr d'"
  shows "confined sid d0 tm0 d' tm"
proof -
  have c: "others sid d = others sid d0" "db_ok d" using assms(1) by (auto simp: confined_def)
  have own: "\<forall>b\<in>set (db_boosts d). bst_SandboxID b \<noteq> sid \<longrightarrow> bst_BoostID b \<noteq> bid"
    using assms(2) c(1) [symmetric] by (auto simp: own_def others_boosts)
  have "filter (\<lambda>b. bst_SandboxID b \<noteq> sid) (upd_where (\<lambda>r. bst_BoostID r = bid)
        (\<lambda>b. b\<lparr>bst_State := st, bst_RevertAttempts := n, bst_LastError := e\<rparr>) rows) = filter (\<lambda>b. bst_SandboxID b \<noteq> sid) rows"
    if "\<forall>b\<in>set rows. bst_SandboxID b \<noteq> sid \<longrightarrow> bst_BoostID b \<noteq> bid" for rows
    using that by (induction rows) (auto simp: upd_where_def)
  from this [OF own] have "others sid d' = others sid d"
    using assms(3) by (auto simp: boost_UpdateState_def row_update_Inr others_def)
  then show ?thesis using assms(1) boost_UpdateState_ok [OF c(2) assms(3)] c by (simp add: confined_def)
qed


lemma confined_got:
  assumes "\<And>d tm x. P d tm \<Longrightarrow> f d = Some x \<Longrightarrow> C x"
    and "\<And>e. keeps (dt P) (g (Inl e))" "\<And>x. C x \<Longrightarrow> keeps (dt P) (g (Inr x))"
  shows "keeps (dt P) (State_Monad.bind (store_get f) g)"
proof (rule valid_bind)
  show "valid (dt P) (store_get f) (\<lambda>r. dt (\<lambda>d tm. P d tm \<and> (case r of Inl e \<Rightarrow> True | Inr x \<Rightarrow> C x)))"
    by (rule valid_get) (auto intro: assms(1))
  show "valid (dt (\<lambda>d tm. P d tm \<and> (case r of Inl e \<Rightarrow> True | Inr x \<Rightarrow> C x))) (g r) (\<lambda>_. dt P)" for r
    using assms(2,3) by (cases r) (auto simp: valid_def dt_def split: prod.splits)
qed

lemma confined_wrote:
  assumes "\<And>d tm d'. P d tm \<Longrightarrow> f d = Inr d' \<Longrightarrow> P d' tm \<and> C"
    and "\<And>e. keeps (dt P) (g (Inl e))" "C \<Longrightarrow> keeps (dt P) (g (Inr ()))"
  shows "keeps (dt P) (State_Monad.bind (store_write f) g)"
proof (rule valid_bind)
  show "valid (dt P) (store_write f) (\<lambda>r. dt (\<lambda>d tm. P d tm \<and> (case r of Inl e \<Rightarrow> True | Inr x \<Rightarrow> C)))"
    by (rule valid_write) (auto dest: assms(1))
  show "valid (dt (\<lambda>d tm. P d tm \<and> (case r of Inl e \<Rightarrow> True | Inr x \<Rightarrow> C))) (g r) (\<lambda>_. dt P)" for r :: "unit res"
    using assms(2,3) by (cases r) (auto simp: valid_def dt_def split: prod.splits)
qed


lemma confined_timer: "own sid d0 bid \<Longrightarrow> keeps (dt (confined sid d0 tm0)) (set_timer bid t)"
  by (auto simp: valid_def dt_def runs confined_def own_def)

lemma confined_timers [pres]:
  "own sid d0 bid \<Longrightarrow> keeps (dt (confined sid d0 tm0)) (armExpiry bid delay)"
  "own sid d0 bid \<Longrightarrow> keeps (dt (confined sid d0 tm0)) (stopTimer bid)"
  "own sid d0 bid \<Longrightarrow> keeps (dt (confined sid d0 tm0)) (armRetry bid)"
  "own sid d0 (bst_BoostID b) \<Longrightarrow> keeps (dt (confined sid d0 tm0)) (armRemaining b)"
  "own sid d0 (bst_BoostID b) \<Longrightarrow> keeps (dt (confined sid d0 tm0)) (rearm_active b)"
  unfolding armExpiry_def stopTimer_def armRetry_def armRemaining_def rearm_active_def
  by (intro confined_timer pres; assumption)+

lemma confined_deleted:
  assumes "own sid d0 bid" "\<And>r. keeps (dt (confined sid d0 tm0)) (g r)"
  shows "keeps (dt (confined sid d0 tm0)) (State_Monad.bind (store_write (boost_Delete bid)) g)"
  using assms by (intro keeps_bind keeps_write) (auto intro: Delete_confined)

lemma confined_updated:
  assumes "own sid d0 bid" "\<And>r. keeps (dt (confined sid d0 tm0)) (g r)"
  shows "keeps (dt (confined sid d0 tm0)) (State_Monad.bind (store_write (boost_UpdateState bid st n e)) g)"
  using assms by (intro keeps_bind keeps_write) (auto intro: UpdateState_confined)

lemma confined_upserted:
  assumes "bst_SandboxID b = sid" "\<And>e. keeps (dt (confined sid d0 tm0)) (g (Inl e))"
    "own sid d0 (bst_BoostID b) \<Longrightarrow> keeps (dt (confined sid d0 tm0)) (g (Inr ()))"
  shows "keeps (dt (confined sid d0 tm0)) (State_Monad.bind (store_write (boost_Upsert b)) g)"
  by (rule confined_wrote [where C = "own sid d0 (bst_BoostID b)"]) (use assms Upsert_confined in blast)+

lemma confined_found:
  assumes "\<And>e. keeps (dt (confined sid d0 tm0)) (g (Inl e))"
    "\<And>b. bst_SandboxID b = sid \<Longrightarrow> own sid d0 (bst_BoostID b) \<Longrightarrow> keeps (dt (confined sid d0 tm0)) (g (Inr b))"
  shows "keeps (dt (confined sid d0 tm0)) (State_Monad.bind (store_get (boost_Get sid)) g)"
  by (rule confined_got [where C = "\<lambda>b. bst_SandboxID b = sid \<and> own sid d0 (bst_BoostID b)"]) (use assms own_get in blast)+

lemma confined_sandbox:
  assumes "\<And>e. keeps (dt P) (g (Inl e))" "\<And>s. sbx_SandboxID s = sid \<Longrightarrow> keeps (dt P) (g (Inr s))"
  shows "keeps (dt P) (State_Monad.bind (store_get (sandbox_Get sid)) g)"
  by (rule confined_got [where C = "\<lambda>s. sbx_SandboxID s = sid"]) (use assms sandbox_Get_id in blast)+

lemma confined_undo:
  assumes "own sid d0 (bst_BoostID b)" "\<And>p. prior = Some p \<Longrightarrow> bst_SandboxID p = sid \<and> own sid d0 (bst_BoostID p)"
  shows "keeps (dt (confined sid d0 tm0)) (undo_start b prior e)"
  unfolding undo_start_def using assms
  by (cases prior; simp only: option.case; intro confined_upserted confined_deleted pres; auto intro!: pres split: sum.splits)

lemma confined_begin:
  assumes "sbx_SandboxID s = sid" "\<And>p. prior = Some p \<Longrightarrow> bst_SandboxID p = sid \<and> own sid d0 (bst_BoostID p)"
  shows "keeps (dt (confined sid d0 tm0)) (boost_begin opts dur s prior)"
  unfolding boost_begin_def Let_def using assms
  by (intro keeps_bind [OF _ confined_upserted] confined_undo v_resize pres; simp; intro pres; auto)


lemma confined_check: "(\<And>e. keeps (dt P) (f (Inl e))) \<Longrightarrow> (\<And>s. sbx_SandboxID s = bo_SandboxID opts \<Longrightarrow> keeps (dt P) (f (Inr s))) \<Longrightarrow>
    keeps (dt P) (State_Monad.bind (boost_check opts) f)"
proof (rule valid_bind)
  show "valid (dt P) (boost_check opts) (\<lambda>r w. dt P w \<and> (case r of Inl e \<Rightarrow> True | Inr s \<Rightarrow> sbx_SandboxID s = bo_SandboxID opts))"
    by (auto simp: valid_def dt_def boost_check_def runs dest: sandbox_Get_id split: option.splits sum.splits)
  show "(\<And>e. keeps (dt P) (f (Inl e))) \<Longrightarrow> (\<And>s. sbx_SandboxID s = bo_SandboxID opts \<Longrightarrow> keeps (dt P) (f (Inr s))) \<Longrightarrow>
      valid (\<lambda>w. dt P w \<and> (case r of Inl e \<Rightarrow> True | Inr s \<Rightarrow> sbx_SandboxID s = bo_SandboxID opts)) (f r) (\<lambda>_. dt P)" for r
    by (cases r) (auto simp: valid_def split: prod.splits)
qed

lemma confined_Start: "bo_SandboxID opts = sid \<Longrightarrow> keeps (dt (confined sid d0 tm0)) (BoostService_Start opts)"
proof -
  assume i: "bo_SandboxID opts = sid"
  have go: "keeps (dt (confined sid d0 tm0)) (do {
      g \<leftarrow> store_get (boost_Get sid);
      case g of
        Inl e \<Rightarrow> if errors_Is e ErrNotFound then boost_begin opts dur s None else ret (Inl e)
      | Inr p \<Rightarrow> boost_begin opts dur s (Some p) })" if "sbx_SandboxID s = sid" for s dur
    by (rule confined_found) (use that in \<open>auto intro!: confined_begin pres\<close>)
  have again: "keeps (dt (confined sid d0 tm0)) (bindE (boost_check opts) (\<lambda>sbx. do {
      g \<leftarrow> store_get (boost_Get sid);
      case g of
        Inl e \<Rightarrow> if errors_Is e ErrNotFound then boost_begin opts dur sbx None else ret (Inl e)
      | Inr p \<Rightarrow> boost_begin opts dur sbx (Some p) }))" for dur
    unfolding bindE_def by (rule confined_check) (use go i in \<open>simp_all add: keeps_return\<close>)
  have all: "keeps (dt (confined sid d0 tm0)) (bindE (boost_check opts) (\<lambda>_. bindE (boost_check opts) (\<lambda>sbx. do {
      g \<leftarrow> store_get (boost_Get sid);
      case g of
        Inl e \<Rightarrow> if errors_Is e ErrNotFound then boost_begin opts dur sbx None else ret (Inl e)
      | Inr p \<Rightarrow> boost_begin opts dur sbx (Some p) })))" for dur
    by (subst bindE_def, rule confined_check) (use again in \<open>simp_all add: keeps_return\<close>)
  show ?thesis unfolding BoostService_Start_def Let_def i by (intro keeps_if keeps_return keeps_bind keeps_config all)
qed

lemma confined_Cancel: "keeps (dt (confined sid d0 tm0)) (BoostService_Cancel sid)"
  unfolding BoostService_Cancel_def bindE_def
proof (rule confined_found)
  fix b :: boost assume b: "bst_SandboxID b = sid" "own sid d0 (bst_BoostID b)"
  have e: "keeps (dt P) (cancel_done b sbx)" for P sbx unfolding cancel_done_def emitExpired_def by (intro pres)
  have d: "keeps (dt (confined sid d0 tm0)) (cancel_delete (bst_BoostID b) h m)" if "keeps (dt (confined sid d0 tm0)) m" for h m
    unfolding cancel_delete_def using b that by (intro confined_deleted pres) 
  show "keeps (dt (confined sid d0 tm0)) (case Inr b of Inl e \<Rightarrow> ret (Inl e) | Inr x \<Rightarrow> cancel_found sid x)"
    unfolding cancel_found_def Let_def sum.case using b by (intro pres confined_sandbox confined_updated d e v_resize)
qed (simp add: keeps_return)

section \<open>What is asked of the backend\<close>

definition asks_for :: "string \<Rightarrow> sandbox list \<Rightarrow> pcall list \<Rightarrow> operation list \<Rightarrow> world \<Rightarrow> bool" where
  "asks_for sid rows c0 q0 w \<longleftrightarrow> db_sandboxes (w_db w) = rows \<and> w_queue w = q0 \<and>
     (\<exists>cs. w_calls w = c0 @ cs \<and> (\<forall>c\<in>set cs. \<exists>s\<in>set rows. \<exists>q. sbx_SandboxID s = sid \<and> c = PUpdateResources (sbx_ref s) q))"

lemma asks_quiet [pres]: "keeps (asks_for sid rows c0 q0) (io f)" "keeps (asks_for sid rows c0 q0) (config g)"
  "keeps (asks_for sid rows c0 q0) now" "keeps (asks_for sid rows c0 q0) new_uuid" "keeps (asks_for sid rows c0 q0) (publish ev)"
  "keeps (asks_for sid rows c0 q0) (emit ty dd)" "keeps (asks_for sid rows c0 q0) (store_get h)" "keeps (asks_for sid rows c0 q0) (set_timer i t)"
  by (simp_all add: valid_def asks_for_def runs Let_def split: option.splits)

lemma asks_write: "(\<And>d d'. f d = Inr d' \<Longrightarrow> db_sandboxes d' = db_sandboxes d) \<Longrightarrow> keeps (asks_for sid rows c0 q0) (store_write f)"
  by (auto simp: valid_def asks_for_def runs split: option.splits sum.splits)

lemma asks_boosts [pres]: "keeps (asks_for sid rows c0 q0) (store_write (boost_Upsert b))"
  "keeps (asks_for sid rows c0 q0) (store_write (boost_Delete bid))"
  "keeps (asks_for sid rows c0 q0) (store_write (boost_UpdateState bid st n e))"
  by (rule asks_write; auto simp: boost_Upsert_def split: if_splits dest: delete_done updstate_done)+

lemma sandbox_in_table: "sandbox_Get sid d = Some s \<Longrightarrow> s \<in> set (db_sandboxes d) \<and> sbx_SandboxID s = sid"
  by (auto simp: sandbox_Get_def dest: row_find_Some)

lemma asks_provide: "s \<in> set rows \<Longrightarrow> sbx_SandboxID s = sid \<Longrightarrow>
    keeps (asks_for sid rows c0 q0) (provide (PUpdateResources (sbx_ref s) q) f)"
  by (auto simp: valid_def asks_for_def runs)

lemma asks_found:
  assumes "\<And>e. keeps (asks_for sid rows c0 q0) (g (Inl e))"
    "\<And>s. s \<in> set rows \<Longrightarrow> sbx_SandboxID s = sid \<Longrightarrow> keeps (asks_for sid rows c0 q0) (g (Inr s))"
  shows "keeps (asks_for sid rows c0 q0) (State_Monad.bind (store_get (sandbox_Get sid)) g)"
proof (rule valid_bind)
  show "valid (asks_for sid rows c0 q0) (store_get (sandbox_Get sid)) (\<lambda>r w. asks_for sid rows c0 q0 w \<and>
      (case r of Inl e \<Rightarrow> True | Inr s \<Rightarrow> s \<in> set rows \<and> sbx_SandboxID s = sid))"
    by (auto simp: valid_def asks_for_def runs dest: sandbox_in_table split: option.splits)
  show "valid (\<lambda>w. asks_for sid rows c0 q0 w \<and> (case r of Inl e \<Rightarrow> True | Inr s \<Rightarrow> s \<in> set rows \<and> sbx_SandboxID s = sid))
      (g r) (\<lambda>_. asks_for sid rows c0 q0)" for r
    using assms by (cases r) (auto simp: valid_def split: prod.splits)
qed

lemma asks_resize [pres]: "i = sid \<Longrightarrow> keeps (asks_for sid rows c0 q0) (UpdateResources (live_resize i cpu mem))"
proof -
  assume i: "i = sid"
  have o: "ro_SandboxID (live_resize sid cpu mem) = sid" "ro_ApplyLiveOnly (live_resize sid cpu mem) = True"
    by (simp_all add: live_resize_def)
  show ?thesis unfolding i UpdateResources_def o if_True
    by (subst bindE_def, intro keeps_if keeps_return asks_found, simp add: keeps_return, simp only: sum.case,
        intro asks_provide pres) simp_all
qed

lemma asks_timers [pres]: "keeps (asks_for sid rows c0 q0) (armExpiry bid delay)" "keeps (asks_for sid rows c0 q0) (stopTimer bid)"
  "keeps (asks_for sid rows c0 q0) (armRetry bid)" "keeps (asks_for sid rows c0 q0) (armRemaining b)"
  "keeps (asks_for sid rows c0 q0) (rearm_active b)"
  unfolding armExpiry_def stopTimer_def armRetry_def armRemaining_def rearm_active_def by (intro pres)+

lemma asks_check:
  assumes "\<And>e. keeps (asks_for sid rows c0 q0) (f (Inl e))"
    "\<And>s. sbx_SandboxID s = bo_SandboxID opts \<Longrightarrow> keeps (asks_for sid rows c0 q0) (f (Inr s))"
  shows "keeps (asks_for sid rows c0 q0) (State_Monad.bind (boost_check opts) f)"
proof (rule valid_bind)
  have k: "keeps (asks_for sid rows c0 q0) (boost_check opts)"
    unfolding boost_check_def bindE_def by (intro keeps_bind asks_quiet keeps_sum keeps_if keeps_return)
  have "valid (\<lambda>_. True) (boost_check opts) (\<lambda>r w. case r of Inl e \<Rightarrow> True | Inr s \<Rightarrow> sbx_SandboxID s = bo_SandboxID opts)"
    by (auto simp: valid_def boost_check_def runs dest: sandbox_Get_id split: option.splits sum.splits)
  from valid_conj [OF k this]
  show "valid (asks_for sid rows c0 q0) (boost_check opts) (\<lambda>r w. asks_for sid rows c0 q0 w \<and>
      (case r of Inl e \<Rightarrow> True | Inr s \<Rightarrow> sbx_SandboxID s = bo_SandboxID opts))"
    by simp
  show "valid (\<lambda>w. asks_for sid rows c0 q0 w \<and> (case r of Inl e \<Rightarrow> True | Inr s \<Rightarrow> sbx_SandboxID s = bo_SandboxID opts))
      (f r) (\<lambda>_. asks_for sid rows c0 q0)" for r
    using assms by (cases r) (auto simp: valid_def split: prod.splits)
qed

lemma asks_begin: "sbx_SandboxID s = sid \<Longrightarrow> keeps (asks_for sid rows c0 q0) (boost_begin opts dur s prior)"
  unfolding boost_begin_def undo_start_def by (intro pres)

lemma asks_Start: "bo_SandboxID opts = sid \<Longrightarrow> keeps (asks_for sid rows c0 q0) (BoostService_Start opts)"
proof -
  assume i: "bo_SandboxID opts = sid"
  have go: "keeps (asks_for sid rows c0 q0) (do {
      g \<leftarrow> store_get (boost_Get sid);
      case g of
        Inl e \<Rightarrow> if errors_Is e ErrNotFound then boost_begin opts dur s None else ret (Inl e)
      | Inr p \<Rightarrow> boost_begin opts dur s (Some p) })" if "sbx_SandboxID s = sid" for s dur
    using that by (intro asks_begin pres)
  have again: "keeps (asks_for sid rows c0 q0) (bindE (boost_check opts) (\<lambda>sbx. do {
      g \<leftarrow> store_get (boost_Get sid);
      case g of
        Inl e \<Rightarrow> if errors_Is e ErrNotFound then boost_begin opts dur sbx None else ret (Inl e)
      | Inr p \<Rightarrow> boost_begin opts dur sbx (Some p) }))" for dur
    unfolding bindE_def by (rule asks_check) (use go i in \<open>simp_all add: keeps_return\<close>)
  have all: "keeps (asks_for sid rows c0 q0) (bindE (boost_check opts) (\<lambda>_. bindE (boost_check opts) (\<lambda>sbx. do {
      g \<leftarrow> store_get (boost_Get sid);
      case g of
        Inl e \<Rightarrow> if errors_Is e ErrNotFound then boost_begin opts dur sbx None else ret (Inl e)
      | Inr p \<Rightarrow> boost_begin opts dur sbx (Some p) })))" for dur
    by (subst bindE_def, rule asks_check) (use again in \<open>simp_all add: keeps_return\<close>)
  show ?thesis unfolding BoostService_Start_def Let_def i by (intro keeps_if keeps_return keeps_bind asks_quiet all)
qed

lemma asks_Cancel: "keeps (asks_for sid rows c0 q0) (BoostService_Cancel sid)"
  unfolding BoostService_Cancel_def bindE_def
proof (intro keeps_bind keeps_sum pres)
  fix b :: boost
  have e: "keeps (asks_for sid rows c0 q0) (cancel_done b sbx)" for sbx unfolding cancel_done_def emitExpired_def by (intro pres)
  have d: "keeps (asks_for sid rows c0 q0) (cancel_delete (bst_BoostID b) h m)" if "keeps (asks_for sid rows c0 q0) m" for h m
    unfolding cancel_delete_def using that by (intro pres)
  show "keeps (asks_for sid rows c0 q0) (cancel_found sid b)"
    unfolding cancel_found_def Let_def
    by (intro keeps_bind [OF asks_timers(2)], rule asks_found; simp only: sum.case; intro d e refl pres)
qed

section \<open>The whole connection\<close>

lemma reply_keeps: "keeps I m \<Longrightarrow> keeps I (reply ce m f)"
  unfolding reply_def by (intro pres)

lemma route_keeps:
  assumes "keeps I (store_get (boost_Get sid))" "keeps I (store_get (sandbox_Get sid))" "keeps I (BoostService_Cancel sid)"
    "\<And>opts. bo_SandboxID opts = sid \<Longrightarrow> keeps I (BoostService_Start opts)"
  shows "keeps I (channel_route ce sid q)"
proof -
  have "keeps I (handlePostBoost ce sid t)" for t
    unfolding handlePostBoost_def
    by (cases "body_of to_boost t"; simp only: body.case; intro keeps_if keeps_return reply_keeps assms(4)) simp
  moreover have "keeps I (handleGetSandbox ce sid)" "keeps I (handleGetBoost ce sid)" "keeps I (handleDeleteBoost ce sid)"
    unfolding handleGetSandbox_def handleGetBoost_def handleDeleteBoost_def BoostService_Get_def
    by (intro keeps_bind keeps_sum keeps_return reply_keeps assms)+
  ultimately show ?thesis unfolding channel_route_def by (cases q) (simp add: keeps_return)
qed

lemma route_confined: "keeps (dt (confined sid d0 tm0)) (channel_route ce sid q)"
  by (rule route_keeps) (intro confined_Start confined_Cancel pres; assumption)+

lemma route_asks: "keeps (asks_for sid rows c0 q0) (channel_route ce sid q)"
  by (rule route_keeps) (intro asks_Start asks_Cancel pres; assumption)+

lemma Allow_others: "i \<noteq> sid \<Longrightarrow> snd (Allow cfg sid t bs) i = bs i"
  by (auto simp: Allow_def Let_def)

text \<open>
  C38: a guest acts on its own sandbox only.  Whatever bytes arrive on the boost channel of a sandbox,
  whatever the backend answers and whichever database calls fail: every row of every table is as before
  but for the boosts of that sandbox, no timer of another sandbox's boost is touched, no operation is
  queued, the backend is only asked to resize that sandbox, the other sandboxes' rate limits are as
  before.  A connection the rate limiter refuses changes nothing at all, and a well-formed request for a
  boost that it lets through has the effect of the service's call for that sandbox, marked as made from inside.
\<close>

theorem channel_confined:
  assumes "db_ok (w_db w)" "channel_Serve cfg ce sid input t bs = (m, bs')" "run_state m w = (out, w')"
  shows "others sid (w_db w') = others sid (w_db w) \<and>
    (\<forall>b. b \<in> set (db_boosts (w_db w)) \<longrightarrow> bst_SandboxID b \<noteq> sid \<longrightarrow> w_timers w' (bst_BoostID b) = w_timers w (bst_BoostID b)) \<and>
    w_queue w' = w_queue w \<and>
    (\<exists>cs. w_calls w' = w_calls w @ cs \<and>
       (\<forall>c\<in>set cs. \<exists>s\<in>set (db_sandboxes (w_db w)). \<exists>q. sbx_SandboxID s = sid \<and> c = PUpdateResources (sbx_ref s) q)) \<and>
    (\<forall>i. i \<noteq> sid \<longrightarrow> bs' i = bs i) \<and>
    (\<not> fst (Allow cfg sid t bs) \<longrightarrow> w' = w) \<and>
    (\<forall>b r. fst (Allow cfg sid t bs) \<longrightarrow> che_read ce input = Some (''POST'', ''/boost'', b) \<longrightarrow> body_of to_boost b = Body r \<longrightarrow>
       brq_CPULimit r \<noteq> None \<or> brq_MemoryLimitMB r \<noteq> None \<longrightarrow> brq_DurationSeconds r > 0 \<longrightarrow>
       w' = snd (run_state (BoostService_Start \<lparr>bo_SandboxID = sid, bo_CPULimit = brq_CPULimit r,
              bo_MemoryLimitMB = brq_MemoryLimitMB r, bo_DurationSeconds = brq_DurationSeconds r, bo_Source = ''in_sandbox''\<rparr>) w))"
proof -
  let ?c = "dt (confined sid (w_db w) (w_timers w))" and ?a = "asks_for sid (db_sandboxes (w_db w)) (w_calls w) (w_queue w)"
  have b: "bs' = snd (Allow cfg sid t bs)" using assms(2) by (auto simp: channel_Serve_def split: prod.splits)
  have m: "keeps ?c m" "keeps ?a m"
    using assms(2) by (auto simp: channel_Serve_def intro!: keeps_return route_confined route_asks split: prod.splits option.splits if_splits)
  have "?c w" "?a w" using assms(1) by (auto simp: dt_def confined_def asks_for_def)
  with validD [OF m(1) _ assms(3)] validD [OF m(2) _ assms(3)] have w': "?c w'" "?a w'" by blast+
  have r: "w' = w" if "\<not> fst (Allow cfg sid t bs)"
    using assms(2,3) that by (auto simp: channel_Serve_def split: prod.splits)
  have p: "w' = snd (run_state (BoostService_Start \<lparr>bo_SandboxID = sid, bo_CPULimit = brq_CPULimit r,
        bo_MemoryLimitMB = brq_MemoryLimitMB r, bo_DurationSeconds = brq_DurationSeconds r, bo_Source = ''in_sandbox''\<rparr>) w)"
    if "fst (Allow cfg sid t bs)" "che_read ce input = Some (''POST'', ''/boost'', b)" "body_of to_boost b = Body r"
      "brq_CPULimit r \<noteq> None \<or> brq_MemoryLimitMB r \<noteq> None" "brq_DurationSeconds r > 0" for b r
  proof -
    have "m = handlePostBoost ce sid b"
      using assms(2) that(1,2) by (auto simp: channel_Serve_def channel_route_def split: prod.splits)
    with assms(3) that(3-5) show ?thesis
      by (auto simp: handlePostBoost_def reply_def run_state_bind split: prod.splits)
  qed
  have frame: "others sid (w_db w') = others sid (w_db w)" "w_queue w' = w_queue w"
    and timers: "\<forall>b. b \<in> set (db_boosts (w_db w)) \<longrightarrow> bst_SandboxID b \<noteq> sid \<longrightarrow> w_timers w' (bst_BoostID b) = w_timers w (bst_BoostID b)"
    and calls: "\<exists>cs. w_calls w' = w_calls w @ cs \<and>
       (\<forall>c\<in>set cs. \<exists>s\<in>set (db_sandboxes (w_db w)). \<exists>q. sbx_SandboxID s = sid \<and> c = PUpdateResources (sbx_ref s) q)"
    using w' by (auto simp: dt_def confined_def asks_for_def others_boosts)
  show ?thesis using frame timers calls r p unfolding b by (simp add: Allow_others)
qed

text \<open>The guest of sandbox \<open>a\<close> asks for more memory.\<close>

definition demo_channel :: channel_env where
  "demo_channel = \<lparr>che_read = (\<lambda>s. Some (''POST'', ''/boost'', s)), che_err = (\<lambda>_. ''error''), che_meta = (\<lambda>_. Json.JNull)\<rparr>"

definition demo_ask :: string where
  "demo_ask = print_json (Json.JObj [(''memory_limit_mb'', JInt 512), (''duration_seconds'', JInt 60)])"

lemma channel_confined_witness:
  "others ''a'' (w_db (snd (run_state (fst (channel_Serve NewRateLimiterDefault demo_channel ''a'' demo_ask 0 Map.empty))
      (demo_world (two_sandboxes SandboxRunning SandboxStopped))))) = others ''a'' (two_sandboxes SandboxRunning SandboxStopped)"
proof -
  let ?w = "demo_world (two_sandboxes SandboxRunning SandboxStopped)"
  have ok: "db_ok (w_db ?w)" by (simp add: demo_db_ok)
  from channel_confined [OF ok surjective_pairing surjective_pairing, where cfg = NewRateLimiterDefault and ce = demo_channel and sid = "''a''" and input = demo_ask and t = 0 and bs = Map.empty]
  show ?thesis by simp
qed

end
