(* ===== verification/Spec2Isabelle.thy ===== *)
theory Spec2Isabelle
  imports Dispatch Stores Lifecycle Settle Copies Setup Access Backends Storage Wire Mux Agent Dial Terminal Incus Client Routes Tools Channel
begin

text \<open>
  A model of navaris, a control plane for sandboxes: the daemon \<open>navarisd\<close> keeps projects,
  sandboxes, snapshots, images, sessions, ports, boosts and operations in SQLite, changes them on
  request of a REST API, and drives a backend (Firecracker microVMs or Incus containers).

  \<^bold>\<open>The parts and how they interact.\<close>  A handler of the API (\<open>internal/api\<close>) decodes a request and
  calls a service (\<open>internal/service\<close>).  Quick calls do their work at once; slow ones write a
  sandbox in a transitional state and an \<open>Operation\<close>, and hand the operation to the dispatcher
  (\<open>internal/worker\<close>), which runs the handler registered for its type.  The handler calls the
  backend, writes the result and ends the operation; every change is published on the event bus
  (\<open>internal/eventbus\<close>).  Boosts raise the limits of a running sandbox until a timer reverts
  them.  When the daemon starts, a reconciliation settles what a crash has left, and a garbage
  collector sweeps what has expired.  The Firecracker backend
  (\<open>internal/provider/firecracker\<close>) keeps one directory per VM with a record \<open>vminfo.json\<close> and
  holds host resources for it: a process, a tap device, a subnet, a cgroup, host ports and
  iptables rules; it talks to an agent inside the guest (\<open>cmd/navaris-agent\<close>) over framed JSON.
  The Incus backend (\<open>internal/provider/incus\<close>) asks an Incus server.  A guest asks for boosts on a
  channel of its own.  The web UI (\<open>internal/webui\<close>) puts a cookie login before the same API; the
  client library (\<open>pkg/client\<close>) and, above it, the MCP server (\<open>internal/mcp\<close>) call that API.

  \<^bold>\<open>State and effects.\<close>  Two state monads share one vocabulary (\<^theory_text>\<open>Prelude\<close>): the
  library's state monad with Go's early return as the bind of a sum type.  The services act on
  \<open>world\<close> (theory World): database, bus, queue, timers, caches, and a tick.  Every call that
  leaves the process consumes a tick, and the environment \<open>env\<close> says by tick what the clock
  reads, what the backend answers and whether a database call fails, so a theorem over all
  \<open>env\<close> covers every pattern of failures.  The Firecracker provider acts on \<open>host\<close> (theory
  Host): files, processes, taps, rules, cgroups, and the provider's maps and allocators; its
  calls to the operating system fail by tick in the same way, as do those of the storage backends.
  \<open>keeps P m\<close> says that \<open>m\<close>
  carries \<open>P\<close> from the state before to the state after and is proved compositionally with the
  rules collected in \<open>pres\<close>.  Where goroutines really interleave (dispatcher, connection to a guest,
  agent) each goroutine is a program counter and an event is one atomic step; the theorems are about
  every sequence of steps.

  \<^bold>\<open>Theories, from the bottom.\<close>
  \<^item> Prelude, GoTime, GoText: the monad; \<open>time.Time\<close> with RFC 3339 texts and 64-bit durations
    with their wrap-around; \<open>strconv\<close>, \<open>strings\<close> and \<open>base64\<close> as far as the wire formats use them.
  \<^item> Domain (\<open>internal/domain\<close>): error sentinels, states with transition tables, structs, events.
  \<^item> Rows, Database, Integrity, Stores (\<open>internal/store/sqlite\<close>): tables as lists of rows, every
    statement of the stores, the constraints of the schema (\<open>db_ok\<close>) and their preservation.  The
    locales \<open>row_store\<close> and \<open>row_store_delete\<close> state the contract of an entity store and are
    interpreted on the six stores.
  \<^item> Bus (\<open>internal/eventbus\<close>) and Dispatch (\<open>internal/worker/dispatcher.go\<close> as labelled steps of
    concurrent callers and runners, with reachability \<open>dreach\<close>).
  \<^item> World; Resize, Boosts, Sessions, Sandboxes, Catalog (\<open>internal/service\<close>): one definition per
    call and per operation handler; Lifecycle: what they achieve.
  \<^item> Runner (the dispatcher's \<open>run\<close> with its effects), Upkeep (\<open>reconcile.go\<close>, \<open>gc.go\<close>), Api
    (\<open>internal/api\<close>), Daemon (the whole daemon as steps), Outcomes and Settle (operations over all
    runs of the daemon; what a reconciliation settles).
  \<^item> Network, Host, Snaps, Vm (\<open>internal/provider/firecracker\<close>): allocators behind the locale
    \<open>id_source\<close>, the host, snapshots and forks, the life of a VM; Machines, Guests, Ports, Copies,
    Setup: their properties.
  \<^item> Paths, Storage (\<open>internal/storage\<close>): cloning of files behind the locales \<open>clone_backend\<close> and
    \<open>fallback_pair\<close>, interpreted on the copy and reflink backends and on the registry with its
    fallback; Backends (\<open>internal/provider/registry.go\<close>).
  \<^item> Json, Wire (\<open>vsock/protocol.go\<close>), Mux (\<open>vsock/client.go\<close>), Agent and Terminal
    (\<open>cmd/navaris-agent/agent\<close>), Dial (\<open>firecracker/exec.go\<close>): the path of a command into a guest.
  \<^item> Incus (\<open>internal/provider/incus\<close>), with the Incus server as a parameter.
  \<^item> Access (\<open>internal/webui\<close>, \<open>internal/api/middleware.go\<close>, \<open>ratelimit.go\<close>): cookies, login
    throttle, the gate, the token bucket; Channel (\<open>internal/api/boost_channel.go\<close>).
  \<^item> Client (\<open>pkg/client\<close>), Bodies and Routes (what the API reads and its table of routes), Tools
    (\<open>internal/mcp\<close>, \<open>cmd/navaris-mcp\<close>).

  \<^bold>\<open>What the lemmas show.\<close>  The database keeps its constraints under every step of the daemon, and
  the rows of operations are consistent with their states; an operation that has ended keeps its
  outcome, and a dispatched operation ends; a boost that is active has a timer; sandbox calls
  implement their transition table, accept exactly the states it names, and clean up under every
  pattern of failures; a reconciliation without database errors leaves no operation open and
  no sandbox in a transitional state that it had read.  For the backend: start and stop, snapshot
  and restore are round trips; live resize and port publication are all or nothing although a
  call may fail, under the conditions each theorem names; host ports and leases are never shared;
  a clone leaves the whole file or nothing.  For the guest: frames are read back as written, output
  reaches the caller in order and none is lost, and execs finish when their callers read.  For
  access: a signed cookie verifies until it expires, every protected path needs a credential,
  guesses are bounded by the throttle and its sweeps, a guest acts on its own sandbox only.  For the
  clients: every call reaches the handler meant with the caller's values, errors come back with status
  and message, waiting is bounded, a read-only MCP server sends only requests that read.

  \<^bold>\<open>Bounds.\<close>  Loops are structural or come with a measure (the scan for a free port, the attempts of
  a connection, the wait of the client, whose bound follows from the back-off); there is no
  fuel.  A dispatched operation ends because \<open>run_op\<close> is total and writes its end; liveness of the
  dispatcher is termination of its steps, and an exec finishes because the measure of outstanding
  work in Mux falls with every step.

  \<^bold>\<open>Idealised.\<close>  Headroom multipliers and token buckets are floats in the code and exact numbers
  here.  HMAC, URL and IP parsing, HTTP itself, the Firecracker SDK, the Incus server and the MCP SDK
  are parameters.  White space and letter case are those of ASCII; JSON texts are taken to be valid
  UTF-8, which \<open>Marshal\<close> would otherwise repair.  Contents of files are opaque.  Mutexes make
  their critical sections atomic, the receipt of an exit code and the removal of its operation are one
  step, and a host call that fails has had no effect, although a request that timed out may have.
  The Incus port counter is that of one process of the provider; a restart resets it.

  \<^bold>\<open>Not modelled.\<close>  Flags and most of the wiring in \<open>main.go\<close>, logging, telemetry, metrics, SQL migrations,
  the WebSocket relays of attach and events, the streams of exec in the API, the command-line client.
\<close>

end
